(* ===== verification/Prelude.thy ===== *)
theory Prelude
  imports Main "HOL-Library.Word" "HOL-Library.Char_ord" "HOL-Library.List_Lexorder"
begin

text \<open>
  What the components of the development share: C++ exceptions as values, the monad of
  operations that change a state and may throw, \<open>std::map\<close> and \<open>std::set\<close> as sorted lists,
  decimal printing, and the casts between \<open>int64_t\<close> and \<open>uint64_t\<close>.
\<close>

named_theorems act_simps "evaluation of actions: bind, return, throw"
named_theorems om_simps "lookups in ordered maps after an update"

text \<open>A name between single quotes, as the error messages print it.\<close>

definition quoted :: "string \<Rightarrow> string" where
  "quoted t = CHR 0x27 # t @ [CHR 0x27]"

section \<open>Exceptions\<close>

text \<open>The conflict kinds and exception classes of \<open>bindings/cpp/backend.hpp\<close>, the
  \<open>JsonError\<close> of \<open>bindings/cpp/json.hpp\<close>, and the standard library's exceptions that the
  code lets escape: \<open>std::bad_variant_access\<close> from \<open>std::get\<close>, \<open>std::out_of_range\<close> from
  \<open>std::map::at\<close>. \<open>Undefined_Behaviour\<close> marks the dereference of an empty optional.\<close>

datatype conflict_kind =
    VersionConflict
  | PredicateConflict
  | UniqueIndexConflict
  | SchemaConflict
  | LeaseConflict
  | QueueClaimConflict
  | WorkflowClaimConflict

datatype exn =
    BackendError string
  | ConflictError conflict_kind string
  | JsonError string
  | Bad_Variant_Access
  | Out_Of_Range
  | Undefined_Behaviour

section \<open>Results\<close>

text \<open>A call that changes no state returns a value or throws.\<close>

type_synonym 'a result = "exn + 'a"

definition andThen :: "'a result \<Rightarrow> ('a \<Rightarrow> 'b result) \<Rightarrow> 'b result" where
  "andThen r f = (case r of Inl e \<Rightarrow> Inl e | Inr x \<Rightarrow> f x)"

lemma andThen_simps [simp]:
  "andThen (Inl e) f = Inl e"
  "andThen (Inr x) f = f x"
  by (simp_all add: andThen_def)

lemma andThen_Inr_iff:
  "andThen r f = Inr y \<longleftrightarrow> (\<exists>x. r = Inr x \<and> f x = Inr y)"
  by (cases r) auto

lemma andThen_cong [fundef_cong]:
  "r = r' \<Longrightarrow> (\<And>x. r' = Inr x \<Longrightarrow> f x = g x) \<Longrightarrow> andThen r f = andThen r' g"
  by (cases r') auto

text \<open>A loop that calls a throwing function on each element and collects the results.\<close>

fun map_result :: "('a \<Rightarrow> 'b result) \<Rightarrow> 'a list \<Rightarrow> 'b list result" where
  "map_result f [] = Inr []"
| "map_result f (x # xs) = andThen (f x) (\<lambda>y. andThen (map_result f xs) (\<lambda>ys. Inr (y # ys)))"

lemma map_result_cong [fundef_cong]:
  "xs = ys \<Longrightarrow> (\<And>x. x \<in> set ys \<Longrightarrow> f x = g x) \<Longrightarrow> map_result f xs = map_result g ys"
  by (induction ys arbitrary: xs) auto

lemma map_result_Inr:
  "(\<And>x. x \<in> set xs \<Longrightarrow> f x = Inr (g x)) \<Longrightarrow> map_result f xs = Inr (map g xs)"
  by (induction xs) auto

lemma map_result_map: "map_result f (map g xs) = map_result (\<lambda>x. f (g x)) xs"
  by (induction xs) auto

text \<open>A loop that threads a value through a throwing step.\<close>

fun fold_result :: "('a \<Rightarrow> 'b \<Rightarrow> 'b result) \<Rightarrow> 'a list \<Rightarrow> 'b \<Rightarrow> 'b result" where
  "fold_result f [] b = Inr b"
| "fold_result f (x # xs) b = andThen (f x b) (fold_result f xs)"

lemma fold_result_append:
  "fold_result f (xs @ ys) b = andThen (fold_result f xs b) (fold_result f ys)"
proof (induction xs arbitrary: b)
  case (Cons x xs)
  then show ?case by (cases "f x b") simp_all
qed simp

lemma fold_result_invariant:
  assumes "fold_result f xs b = Inr b'" and "P b"
    and "\<And>x b b'. x \<in> set xs \<Longrightarrow> P b \<Longrightarrow> f x b = Inr b' \<Longrightarrow> P b'"
  shows "P b'"
  using assms by (induction xs arbitrary: b) (auto simp: andThen_Inr_iff)

text \<open>A loop that keeps the elements a throwing test accepts.\<close>

fun filter_result :: "('a \<Rightarrow> bool result) \<Rightarrow> 'a list \<Rightarrow> 'a list result" where
  "filter_result p [] = Inr []"
| "filter_result p (x # xs) =
     andThen (p x) (\<lambda>b. andThen (filter_result p xs) (\<lambda>ys. Inr (if b then x # ys else ys)))"

lemma filter_result_Inr:
  "(\<And>x. x \<in> set xs \<Longrightarrow> p x = Inr (q x)) \<Longrightarrow> filter_result p xs = Inr (filter q xs)"
  by (induction xs) auto

lemma filter_result_set:
  "filter_result p xs = Inr ys \<Longrightarrow> set ys = {x \<in> set xs. p x = Inr True}"
  by (induction xs arbitrary: ys) (auto simp: andThen_Inr_iff split: if_splits)

section \<open>Actions\<close>

text \<open>An operation of an object: it reads and writes the object's state and returns a value
  or throws; the state it had reached stays when it throws, as in C++.\<close>

type_synonym ('s, 'a) action = "'s \<Rightarrow> 'a result \<times> 's"

definition returnM :: "'a \<Rightarrow> ('s, 'a) action" where
  "returnM x s = (Inr x, s)"

definition throwM :: "exn \<Rightarrow> ('s, 'a) action" where
  "throwM e s = (Inl e, s)"

definition liftM :: "'a result \<Rightarrow> ('s, 'a) action" where
  "liftM r s = (r, s)"

definition bindM :: "('s, 'a) action \<Rightarrow> ('a \<Rightarrow> ('s, 'b) action) \<Rightarrow> ('s, 'b) action" where
  "bindM m f s = (case m s of (Inl e, s') \<Rightarrow> (Inl e, s') | (Inr x, s') \<Rightarrow> f x s')"

definition modifyM :: "('s \<Rightarrow> 's) \<Rightarrow> ('s, unit) action" where
  "modifyM f s = (Inr (), f s)"

lemma returnM_apply [act_simps, simp]: "returnM x s = (Inr x, s)"
  by (simp add: returnM_def)

lemma throwM_apply [act_simps, simp]: "throwM e s = (Inl e, s)"
  by (simp add: throwM_def)

lemma liftM_apply [act_simps, simp]: "liftM r s = (r, s)"
  by (simp add: liftM_def)

lemma modifyM_apply [act_simps, simp]: "modifyM f s = (Inr (), f s)"
  by (simp add: modifyM_def)

lemma bindM_Inr [act_simps, simp]: "m s = (Inr x, s') \<Longrightarrow> bindM m f s = f x s'"
  by (simp add: bindM_def)

lemma bindM_Inl [act_simps, simp]: "m s = (Inl e, s') \<Longrightarrow> bindM m f s = (Inl e, s')"
  by (simp add: bindM_def)

lemma bindM_returnM [simp]: "bindM (returnM x) f = f x"
  by (rule ext) simp

lemma bindM_assoc: "bindM (bindM m f) g = bindM m (\<lambda>x. bindM (f x) g)"
  by (rule ext) (auto simp: bindM_def split: prod.splits sum.splits)

lemma bindM_cases:
  assumes "bindM m f s = (r, s')"
  obtains (Throw) e where "m s = (Inl e, s')" and "r = Inl e"
    | (Return) x s1 where "m s = (Inr x, s1)" and "f x s1 = (r, s')"
  using assms by (auto simp: bindM_def split: prod.splits sum.splits)

text \<open>A loop over a list whose body is an action.\<close>

fun forM :: "'a list \<Rightarrow> ('a \<Rightarrow> ('s, unit) action) \<Rightarrow> ('s, unit) action" where
  "forM [] f = returnM ()"
| "forM (x # xs) f = bindM (f x) (\<lambda>_. forM xs f)"

end
