(* ===== verification/Ordered_Map.thy ===== *)
theory Ordered_Map
  imports Prelude
begin

text \<open>
  \<open>std::map\<close> and \<open>std::set\<close>: the list of entries in the order an iterator visits them. Keys
  of type \<open>std::string\<close> compare by unsigned bytes, which is the order of
  \<open>HOL-Library.List_Lexorder\<close> over \<open>HOL-Library.Char_ord\<close>; \<open>std::vector<std::string>\<close>
  compares lexicographically over that. The lookup laws hold for every list; the order
  (\<open>om_ordered\<close>) makes the representation canonical, so that two maps with the same lookups
  are equal, and fixes what iteration yields.
\<close>

type_synonym ('k, 'v) omap = "('k \<times> 'v) list"

abbreviation om_find :: "('k, 'v) omap \<Rightarrow> 'k \<Rightarrow> 'v option" where
  "om_find \<equiv> map_of"

fun om_insert :: "'k::linorder \<Rightarrow> 'v \<Rightarrow> ('k, 'v) omap \<Rightarrow> ('k, 'v) omap" where
  "om_insert k v [] = [(k, v)]"
| "om_insert k v ((k', v') # m) =
     (if k < k' then (k, v) # (k', v') # m
      else if k = k' then (k, v) # m
      else (k', v') # om_insert k v m)"

text \<open>\<open>emplace\<close> leaves an existing entry alone.\<close>

definition om_emplace :: "'k::linorder \<Rightarrow> 'v \<Rightarrow> ('k, 'v) omap \<Rightarrow> ('k, 'v) omap" where
  "om_emplace k v m = (case om_find m k of None \<Rightarrow> om_insert k v m | Some _ \<Rightarrow> m)"

definition om_erase :: "'k \<Rightarrow> ('k, 'v) omap \<Rightarrow> ('k, 'v) omap" where
  "om_erase k m = filter (\<lambda>e. fst e \<noteq> k) m"

definition om_ordered :: "('k::linorder, 'v) omap \<Rightarrow> bool" where
  "om_ordered m = sorted_wrt (<) (map fst m)"

subsection \<open>Lookups\<close>

lemma om_find_insert [om_simps, simp]:
  "om_find (om_insert k v m) = (om_find m)(k \<mapsto> v)"
  by (induction m) (auto simp: fun_eq_iff)

lemma om_find_emplace [om_simps]:
  "om_find (om_emplace k v m) = (if k \<in> dom (om_find m) then om_find m else (om_find m)(k \<mapsto> v))"
  by (auto simp: om_emplace_def split: option.splits)

lemma om_find_erase [om_simps, simp]:
  "om_find (om_erase k m) = (om_find m)(k := None)"
  by (induction m) (auto simp: om_erase_def fun_eq_iff)

lemma set_om_insert_subset: "set (om_insert k v m) \<subseteq> insert (k, v) (set m)"
  by (induction k v m rule: om_insert.induct) auto

lemma om_insert_keys: "fst ` set (om_insert k v m) = insert k (fst ` set m)"
  by (induction k v m rule: om_insert.induct) auto

subsection \<open>Order\<close>

lemma om_ordered_Nil [simp]: "om_ordered []"
  by (simp add: om_ordered_def)

lemma om_ordered_Cons [simp]:
  "om_ordered ((k, v) # m) \<longleftrightarrow> (\<forall>k' \<in> fst ` set m. k < k') \<and> om_ordered m"
  by (auto simp: om_ordered_def)

lemma om_ordered_insert [simp, intro]: "om_ordered m \<Longrightarrow> om_ordered (om_insert k v m)"
proof (induction m)
  case (Cons e m)
  obtain k' v' where e: "e = (k', v')" by force
  show ?case
    using Cons by (auto simp: e om_insert_keys)
qed simp

lemma om_ordered_emplace [intro]: "om_ordered m \<Longrightarrow> om_ordered (om_emplace k v m)"
  by (auto simp: om_emplace_def split: option.splits)

lemma om_ordered_erase [simp, intro]: "om_ordered m \<Longrightarrow> om_ordered (om_erase k m)"
  by (auto simp: om_ordered_def om_erase_def sorted_wrt_map intro: sorted_wrt_filter)

lemma om_ordered_distinct: "om_ordered m \<Longrightarrow> distinct (map fst m)"
  by (auto simp: om_ordered_def strict_sorted_iff)

lemma om_find_in_set:
  "om_ordered m \<Longrightarrow> om_find m k = Some v \<longleftrightarrow> (k, v) \<in> set m"
  by (simp add: om_ordered_distinct)

text \<open>Equal lookups make equal maps: what \<open>operator==\<close> on \<open>std::map\<close> compares.\<close>

lemma om_ext:
  assumes "om_ordered m" and "om_ordered m'" and "om_find m = om_find m'"
  shows "m = m'"
proof -
  have sets: "set m = set m'"
    using assms by (metis om_find_in_set subrelI subset_antisym)
  have "inj_on fst (set m \<union> set m')"
    using assms(1) sets by (auto dest: om_ordered_distinct simp: distinct_map)
  then show ?thesis
    using assms(1,2) sets
    by (intro map_sorted_distinct_set_unique [of fst])
      (auto simp: om_ordered_def strict_sorted_iff)
qed

lemma om_insert_commute:
  assumes "om_ordered m" and "k \<noteq> k'"
  shows "om_insert k v (om_insert k' v' m) = om_insert k' v' (om_insert k v m)"
  using assms by (intro om_ext) (auto simp: fun_upd_twist)

lemma om_insert_same [simp]:
  assumes "om_ordered m"
  shows "om_insert k v (om_insert k v' m) = om_insert k v m"
  using assms by (intro om_ext) auto

lemma om_insert_id:
  assumes "om_ordered m" and "om_find m k = Some v"
  shows "om_insert k v m = m"
  using assms by (intro om_ext) auto

text \<open>A map filled from a list of entries, a later entry replacing an earlier one.\<close>

definition om_of_list :: "('k::linorder \<times> 'v) list \<Rightarrow> ('k, 'v) omap" where
  "om_of_list es = foldl (\<lambda>m (k, v). om_insert k v m) [] es"

lemma om_ordered_foldl_insert:
  "om_ordered m \<Longrightarrow> om_ordered (foldl (\<lambda>m (k, v). om_insert k v m) m es)"
  by (induction es arbitrary: m) auto

lemma om_ordered_of_list [simp, intro]: "om_ordered (om_of_list es)"
  by (simp add: om_of_list_def om_ordered_foldl_insert)

lemma om_find_foldl_insert:
  "distinct (map fst es) \<Longrightarrow>
   om_find (foldl (\<lambda>m (k, v). om_insert k v m) m es) = om_find m ++ map_of es"
proof (induction es arbitrary: m)
  case (Cons e es)
  obtain k v where e: "e = (k, v)" by force
  have "map_of es k = None"
    using Cons.prems by (auto simp: e map_of_eq_None_iff)
  then show ?case
    using Cons by (auto simp: e fun_eq_iff map_add_def split: option.splits)
qed simp

lemma om_find_of_list [simp]: "distinct (map fst es) \<Longrightarrow> om_find (om_of_list es) = map_of es"
  by (simp add: om_of_list_def om_find_foldl_insert)

lemma om_of_list_ordered: "om_ordered m \<Longrightarrow> om_of_list m = m"
  by (rule om_ext) (auto simp: om_ordered_distinct)

section \<open>Sets\<close>

fun os_insert :: "'k::linorder \<Rightarrow> 'k list \<Rightarrow> 'k list" where
  "os_insert k [] = [k]"
| "os_insert k (k' # s) =
     (if k < k' then k # k' # s else if k = k' then k # s else k' # os_insert k s)"

definition os_erase :: "'k \<Rightarrow> 'k list \<Rightarrow> 'k list" where
  "os_erase k s = filter (\<lambda>k'. k' \<noteq> k) s"

lemma set_os_insert [simp]: "set (os_insert k s) = insert k (set s)"
  by (induction s) auto

lemma set_os_erase [simp]: "set (os_erase k s) = set s - {k}"
  by (auto simp: os_erase_def)

definition os_ordered :: "'k::linorder list \<Rightarrow> bool" where
  "os_ordered s = sorted_wrt (<) s"

lemma os_ordered_Nil [simp]: "os_ordered []"
  by (simp add: os_ordered_def)

lemma os_ordered_insert [simp, intro]: "os_ordered s \<Longrightarrow> os_ordered (os_insert k s)"
  by (induction s) (auto simp: os_ordered_def)

lemma os_ordered_erase [simp, intro]: "os_ordered s \<Longrightarrow> os_ordered (os_erase k s)"
  by (auto simp: os_ordered_def os_erase_def intro: sorted_wrt_filter)

lemma os_ordered_distinct: "os_ordered s \<Longrightarrow> distinct s"
  by (auto simp: os_ordered_def strict_sorted_iff)

lemma os_erase_Nil_iff: "os_erase k s = [] \<longleftrightarrow> set s \<subseteq> {k}"
  by (auto simp: os_erase_def filter_empty_conv)

lemma os_ext: "os_ordered s \<Longrightarrow> os_ordered s' \<Longrightarrow> set s = set s' \<Longrightarrow> s = s'"
  by (auto simp: os_ordered_def intro: strict_sorted_equal)

section \<open>The interface of an ordered map\<close>

text \<open>What the components use of \<open>std::map\<close>, as laws; the lists above provide them.\<close>

locale map_interface =
  fixes find :: "'m \<Rightarrow> 'k \<Rightarrow> 'v option"
    and insert :: "'k \<Rightarrow> 'v \<Rightarrow> 'm \<Rightarrow> 'm"
    and erase :: "'k \<Rightarrow> 'm \<Rightarrow> 'm"
    and ok :: "'m \<Rightarrow> bool"
  assumes find_insert: "ok m \<Longrightarrow> find (insert k v m) = (find m)(k \<mapsto> v)"
    and find_erase: "ok m \<Longrightarrow> find (erase k m) = (find m)(k := None)"
    and ok_insert: "ok m \<Longrightarrow> ok (insert k v m)"
    and ok_erase: "ok m \<Longrightarrow> ok (erase k m)"
    and canonical: "ok m \<Longrightarrow> ok m' \<Longrightarrow> find m = find m' \<Longrightarrow> m = m'"
begin

lemma erase_insert_fresh:
  "ok m \<Longrightarrow> find m k = None \<Longrightarrow> erase k (insert k v m) = m"
  by (rule canonical) (auto simp: ok_insert ok_erase find_insert find_erase)

lemma erase_absent: "ok m \<Longrightarrow> find m k = None \<Longrightarrow> erase k m = m"
  by (rule canonical) (auto simp: ok_erase find_erase)

lemma insert_erase: "ok m \<Longrightarrow> insert k v (erase k m) = insert k v m"
  by (rule canonical) (auto simp: ok_insert ok_erase find_insert find_erase)

end

interpretation om: map_interface om_find om_insert om_erase om_ordered
  by unfold_locales (auto intro: om_ext)

end
