(* ===== verification/Decimal.thy ===== *)
theory Decimal
  imports Prelude
begin

text \<open>
  The parts of the C++ standard library that turn numbers into text and back, as the code uses
  them: \<open>std::to_string\<close>, \<open>std::from_chars\<close> on a 64-bit integer, an output stream with
  precision 17 on a \<open>double\<close>, and \<open>std::strtod\<close>. A finite \<open>double\<close> is a sign, a 53-bit
  significand and a binary exponent; both conversions round to nearest, ties to even.
\<close>

section \<open>Decimal integers\<close>

definition digit_char :: "nat \<Rightarrow> char" where
  "digit_char d = char_of (48 + d)"

definition is_digit :: "char \<Rightarrow> bool" where
  "is_digit c \<longleftrightarrow> (48::nat) \<le> of_char c \<and> of_char c \<le> (57::nat)"

definition digit_value :: "char \<Rightarrow> nat" where
  "digit_value c = of_char c - 48"

fun show_nat :: "nat \<Rightarrow> string" where
  "show_nat n = (if n < 10 then [digit_char n] else show_nat (n div 10) @ [digit_char (n mod 10)])"

declare show_nat.simps [simp del]

definition show_int :: "int \<Rightarrow> string" where
  "show_int i = (if i < 0 then CHR ''-'' # show_nat (nat (- i)) else show_nat (nat i))"

definition digits_value :: "string \<Rightarrow> nat" where
  "digits_value = foldl (\<lambda>n c. 10 * n + digit_value c) 0"

text \<open>\<open>std::to_string\<close> of an unsigned and of a signed 64-bit integer.\<close>

definition to_string_u64 :: "64 word \<Rightarrow> string" where
  "to_string_u64 w = show_nat (unat w)"

definition to_string_i64 :: "64 word \<Rightarrow> string" where
  "to_string_i64 w = show_int (sint w)"

text \<open>\<open>std::from_chars\<close> into an \<open>int64_t\<close>: the whole text must be an optional minus sign and
  digits, and the value must be in range.\<close>

definition from_chars_i64 :: "string \<Rightarrow> 64 word option" where
  "from_chars_i64 t =
     (let neg = (take 1 t = ''-''); ds = (if neg then tl t else t); n = int (digits_value ds);
          i = (if neg then - n else n)
      in if ds \<noteq> [] \<and> list_all is_digit ds \<and> - (2 ^ 63) \<le> i \<and> i < 2 ^ 63
         then Some (word_of_int i) else None)"

lemma of_char_digit_char [simp]: "d < 10 \<Longrightarrow> of_char (digit_char d) = 48 + d"
  by (simp add: digit_char_def)

lemma is_digit_digit_char [simp]: "d < 10 \<Longrightarrow> is_digit (digit_char d)"
  by (simp add: is_digit_def)

lemma digit_value_digit_char [simp]: "d < 10 \<Longrightarrow> digit_value (digit_char d) = d"
  by (simp add: digit_value_def)

lemma show_nat_digits: "list_all is_digit (show_nat n)"
proof (induction n rule: show_nat.induct)
  case (1 n)
  then show ?case by (subst show_nat.simps) auto
qed

lemma show_nat_not_Nil [simp]: "show_nat n \<noteq> []"
  by (subst show_nat.simps) simp

lemma digits_value_snoc: "digits_value (ds @ [c]) = 10 * digits_value ds + digit_value c"
  by (simp add: digits_value_def)

lemma digits_value_show_nat [simp]: "digits_value (show_nat n) = n"
proof (induction n rule: show_nat.induct)
  case (1 n)
  show ?case
  proof (cases "n < 10")
    case True
    then show ?thesis by (subst show_nat.simps) (simp add: digits_value_def)
  next
    case False
    then show ?thesis
      using 1 by (subst show_nat.simps) (simp add: digits_value_snoc)
  qed
qed

text \<open>No leading zero, except in zero itself.\<close>

lemma hd_show_nat: "hd (show_nat n) = digit_char 0 \<longleftrightarrow> n = 0"
proof (induction n rule: show_nat.induct)
  case (1 n)
  show ?case
  proof (cases "n < 10")
    case True
    then have "digit_char n = digit_char 0 \<longleftrightarrow> n = 0"
      by (metis digit_value_digit_char zero_less_numeral)
    with True show ?thesis by (subst show_nat.simps) simp
  next
    case False
    then show ?thesis
      using 1 by (subst show_nat.simps) simp
  qed
qed

lemma digit_char_0: "digit_char 0 = CHR ''0''"
  by (simp add: digit_char_def char_of_eq_iff)

lemma show_nat_0 [simp]: "show_nat 0 = ''0''"
  by (subst show_nat.simps) (simp add: digit_char_0)

lemma show_nat_inj [simp]: "show_nat m = show_nat n \<longleftrightarrow> m = n"
  by (metis digits_value_show_nat)

lemma dash_not_digit [simp]: "\<not> is_digit CHR ''-''"
  by (simp add: is_digit_def)

lemma take_1_show_nat: "take 1 (show_nat n) \<noteq> ''-''"
  using show_nat_digits [of n] by (cases "show_nat n") auto

lemma show_int_inj [simp]: "show_int i = show_int j \<longleftrightarrow> i = j"
proof -
  have "show_int i = show_int j \<Longrightarrow> i = j"
    using take_1_show_nat by (auto simp: show_int_def split: if_splits) (metis One_nat_def take0 take_Suc_Cons)+
  then show ?thesis by blast
qed

text \<open>Printing and reading back a 64-bit integer is the identity.\<close>

lemma from_chars_to_string_i64 [simp]: "from_chars_i64 (to_string_i64 w) = Some w"
proof -
  have r: "- (2 ^ 63) \<le> sint w" "sint w < 2 ^ 63"
    using sint_ge [of w] sint_lt [of w] by simp_all
  show ?thesis
  proof (cases "sint w < 0")
    case True
    then show ?thesis
      using r show_nat_digits
      by (simp add: from_chars_i64_def to_string_i64_def show_int_def Let_def)
  next
    case False
    then show ?thesis
      using r show_nat_digits take_1_show_nat
      by (simp add: from_chars_i64_def to_string_i64_def show_int_def Let_def)
  qed
qed

lemma to_string_i64_inj [simp]: "to_string_i64 v = to_string_i64 w \<longleftrightarrow> v = w"
  by (metis from_chars_to_string_i64 option.inject)

section \<open>Doubles\<close>

datatype dbl = DFin bool nat int | DInf bool | DNan

fun is_finite :: "dbl \<Rightarrow> bool" where
  "is_finite (DFin _ _ _) = True"
| "is_finite _ = False"

text \<open>The representation is canonical: every finite value has one significand and exponent.\<close>

fun dbl_canonical :: "dbl \<Rightarrow> bool" where
  "dbl_canonical (DFin s m e) \<longleftrightarrow>
     m < 2 ^ 53 \<and> - 1074 \<le> e \<and> e \<le> 971 \<and> (2 ^ 52 \<le> m \<or> e = - 1074)"
| "dbl_canonical _ \<longleftrightarrow> True"

text \<open>\<open>operator==\<close>: the zeros are equal, \<open>NaN\<close> is not equal to itself.\<close>

fun dbl_eq :: "dbl \<Rightarrow> dbl \<Rightarrow> bool" where
  "dbl_eq (DFin s m e) (DFin s' m' e') \<longleftrightarrow> m = m' \<and> (m = 0 \<or> s = s' \<and> e = e')"
| "dbl_eq (DInf s) (DInf s') \<longleftrightarrow> s = s'"
| "dbl_eq _ _ \<longleftrightarrow> False"

text \<open>\<open>n / d\<close> rounded to the nearest natural number, ties to even.\<close>

definition round_half_even :: "nat \<Rightarrow> nat \<Rightarrow> nat" where
  "round_half_even n d =
     (let q = n div d; r = n mod d
      in if 2 * r < d \<or> (2 * r = d \<and> even q) then q else Suc q)"

text \<open>\<open>n / d\<close> divided by \<open>b ^ x\<close>, as a fraction.\<close>

definition scale_down :: "nat \<Rightarrow> nat \<Rightarrow> nat \<Rightarrow> int \<Rightarrow> nat \<times> nat" where
  "scale_down b n d x = (if 0 \<le> x then (n, d * b ^ nat x) else (n * b ^ nat (- x), d))"

fun bit_length :: "nat \<Rightarrow> nat" where
  "bit_length n = (if n = 0 then 0 else Suc (bit_length (n div 2)))"

declare bit_length.simps [simp del]

text \<open>The exponent \<open>x\<close> with \<open>b ^ x \<le> n / d < b ^ (x + 1)\<close>, from the lengths of \<open>n\<close> and \<open>d\<close>
  in base \<open>b\<close>.\<close>

definition floor_log_ratio :: "nat \<Rightarrow> nat \<Rightarrow> nat \<Rightarrow> nat \<Rightarrow> nat \<Rightarrow> int" where
  "floor_log_ratio b ln ld n d =
     (let x = int ln - int ld; (p, q) = scale_down b n d x in if q \<le> p then x else x - 1)"

definition round_to_double :: "bool \<Rightarrow> nat \<Rightarrow> nat \<Rightarrow> dbl" where
  "round_to_double s n d =
     (if n = 0 then DFin s 0 (- 1074)
      else let x = floor_log_ratio 2 (bit_length n) (bit_length d) n d;
               e = max (- 1074) (x - 52);
               (p, q) = scale_down 2 n d e;
               m = round_half_even p q;
               (m', e') = (if m = 2 ^ 53 then (2 ^ 52, e + 1) else (m, e))
           in if 971 < e' then DInf s else DFin s m' e')"

text \<open>The conversion of an integer to \<open>double\<close>.\<close>

definition dbl_of_int :: "int \<Rightarrow> dbl" where
  "dbl_of_int i = round_to_double (i < 0) (nat \<bar>i\<bar>) 1"

text \<open>An output stream with the default float format and precision 17: 17 significant digits,
  in scientific notation when the exponent is below -4 or at least 17, trailing zeros removed.\<close>

definition strip_zeros :: "string \<Rightarrow> string" where
  "strip_zeros t = rev (dropWhile (\<lambda>c. c = CHR ''0'') (rev t))"

definition show_exponent :: "int \<Rightarrow> string" where
  "show_exponent x =
     (let t = show_nat (nat \<bar>x\<bar>)
      in CHR ''e'' # (if x < 0 then CHR ''-'' else CHR ''+'') # (if length t < 2 then CHR ''0'' # t else t))"

definition format_17 :: "nat \<Rightarrow> int \<Rightarrow> string" where
  "format_17 m e =
     (if m = 0 then ''0''
      else let (n, d) = scale_down 2 m 1 (- e);
               x0 = floor_log_ratio 10 (length (show_nat n)) (length (show_nat d)) n d;
               (p, q) = scale_down 10 n d (x0 - 16);
               k = round_half_even p q;
               (digits, x) = (if k = 10 ^ 17 then (show_nat (10 ^ 16), x0 + 1) else (show_nat k, x0))
           in if x < - 4 \<or> 17 \<le> x
              then let f = strip_zeros (tl digits)
                   in hd digits # (if f = [] then [] else CHR ''.'' # f) @ show_exponent x
              else if 0 \<le> x
              then let f = strip_zeros (drop (nat x + 1) digits)
                   in take (nat x + 1) digits @ (if f = [] then [] else CHR ''.'' # f)
              else ''0.'' @ replicate (nat (- x) - 1) (CHR ''0'') @ strip_zeros digits)"

fun stream_double :: "dbl \<Rightarrow> string" where
  "stream_double (DFin s m e) = (if s then ''-'' else []) @ format_17 m e"
| "stream_double (DInf s) = (if s then ''-inf'' else ''inf'')"
| "stream_double DNan = ''nan''"

text \<open>\<open>std::strtod\<close> on decimal text: an optional minus sign, digits, an optional fraction, an
  optional exponent; the value and the text after it. The hexadecimal and the named forms of
  \<open>strtod\<close> are left out: the caller has checked that the text is a JSON number.\<close>

definition strtod :: "string \<Rightarrow> dbl \<times> string" where
  "strtod t =
     (let neg = (take 1 t = ''-''); t1 = (if neg then tl t else t);
          ip = takeWhile is_digit t1; t2 = dropWhile is_digit t1;
          fp = (if take 1 t2 = ''.'' then takeWhile is_digit (tl t2) else []);
          t3 = (if take 1 t2 = ''.'' then dropWhile is_digit (tl t2) else t2);
          has_exp = (take 1 t3 = ''e'' \<or> take 1 t3 = ''E'');
          sgn_text = take 1 (tl t3);
          t4 = (if sgn_text = ''-'' \<or> sgn_text = ''+'' then drop 2 t3 else drop 1 t3);
          ep = takeWhile is_digit t4;
          x = (if has_exp \<and> ep \<noteq> []
               then (if sgn_text = ''-'' then - int (digits_value ep) else int (digits_value ep)) else 0);
          rest = (if has_exp \<and> ep \<noteq> [] then dropWhile is_digit t4 else t3);
          (n, d) = scale_down 10 (digits_value (ip @ fp)) 1 (int (length fp) - x)
      in (round_to_double neg n d, rest))"

end
