(* ===== verification/Json.thy ===== *)
theory Json
  imports Ordered_Map Decimal
begin

text \<open>
  The JSON document type of \<open>bindings/cpp/json.hpp\<close>: the variant of class \<open>Json\<close>, its
  constructors, its accessors and the canonical printer. An object is the \<open>std::map\<close> of its
  members. \<open>int64_t\<close> is a 64-bit word read as signed; \<open>double\<close> is \<open>dbl\<close>.
\<close>

section \<open>Values\<close>

datatype json =
    JNull
  | JBool bool
  | JInt "64 word"
  | JDouble dbl
  | JString string
  | JArray "json list"
  | JObject "(string \<times> json) list"

type_synonym json_object = "(string, json) omap"

text \<open>The constructor from a \<open>double\<close> rejects infinities and \<open>NaN\<close>.\<close>

definition json_of_double :: "dbl \<Rightarrow> json result" where
  "json_of_double d =
     (if is_finite d then Inr (JDouble d) else Inl (JsonError ''JSON number must be finite''))"

text \<open>\<open>Json::object\<close> from a list of members rejects a repeated name; \<open>Json::Object{...}\<close>, the
  constructor of \<open>std::map\<close>, keeps the first.\<close>

fun insert_members :: "(string \<times> json) list \<Rightarrow> json_object \<Rightarrow> json_object result" where
  "insert_members [] obj = Inr obj"
| "insert_members ((k, v) # ms) obj =
     (if om_find obj k = None then insert_members ms (om_insert k v obj)
      else Inl (JsonError (''duplicate JSON object member: '' @ k)))"

definition json_object_of :: "(string \<times> json) list \<Rightarrow> json result" where
  "json_object_of ms = andThen (insert_members ms []) (\<lambda>obj. Inr (JObject obj))"

definition object_init :: "(string \<times> json) list \<Rightarrow> json_object" where
  "object_init ms = foldl (\<lambda>obj (k, v). om_emplace k v obj) [] ms"

lemma insert_members_distinct:
  "distinct (map fst ms) \<Longrightarrow> fst ` set ms \<inter> dom (om_find obj) = {} \<Longrightarrow>
   insert_members ms obj = Inr (foldl (\<lambda>m (k, v). om_insert k v m) obj ms)"
proof (induction ms arbitrary: obj)
  case (Cons m ms)
  obtain k v where m: "m = (k, v)" by force
  have "insert_members ms (om_insert k v obj)
      = Inr (foldl (\<lambda>m (k, v). om_insert k v m) (om_insert k v obj) ms)"
    using Cons by (intro Cons.IH) (force simp: m split: if_splits)+
  moreover have "om_find obj k = None"
    using Cons.prems by (auto simp: m)
  ultimately show ?case by (simp add: m)
qed simp

lemma json_object_of_distinct [simp]:
  "distinct (map fst ms) \<Longrightarrow> json_object_of ms = Inr (JObject (om_of_list ms))"
  by (simp add: json_object_of_def insert_members_distinct om_of_list_def)

lemma insert_members_duplicate:
  assumes "(k, v) \<in> set ms" and "k \<in> dom (om_find obj)"
  shows "\<exists>k'. insert_members ms obj = Inl (JsonError (''duplicate JSON object member: '' @ k'))"
  using assms by (induction ms arbitrary: obj) (auto simp: domIff)

lemma foldl_emplace_distinct:
  "distinct (map fst ms) \<Longrightarrow> fst ` set ms \<inter> dom (om_find obj) = {} \<Longrightarrow>
   foldl (\<lambda>obj (k, v). om_emplace k v obj) obj ms = foldl (\<lambda>m (k, v). om_insert k v m) obj ms"
proof (induction ms arbitrary: obj)
  case (Cons m ms)
  obtain k v where m: "m = (k, v)" by force
  have "om_find obj k = None"
    using Cons.prems by (auto simp: m)
  then have "om_emplace k v obj = om_insert k v obj"
    by (simp add: om_emplace_def)
  moreover have "fst ` set ms \<inter> dom (om_find (om_insert k v obj)) = {}"
    using Cons.prems by (force simp: m split: if_splits)
  ultimately show ?case
    using Cons.IH Cons.prems(1) by (simp add: m)
qed simp

lemma object_init_distinct [simp]:
  "distinct (map fst ms) \<Longrightarrow> object_init ms = om_of_list ms"
  by (simp add: object_init_def foldl_emplace_distinct om_of_list_def)

section \<open>Accessors\<close>

fun is_null :: "json \<Rightarrow> bool" where
  "is_null JNull = True"
| "is_null _ = False"

fun is_bool :: "json \<Rightarrow> bool" where
  "is_bool (JBool _) = True"
| "is_bool _ = False"

fun is_int64 :: "json \<Rightarrow> bool" where
  "is_int64 (JInt _) = True"
| "is_int64 _ = False"

fun is_double :: "json \<Rightarrow> bool" where
  "is_double (JDouble _) = True"
| "is_double _ = False"

definition is_number :: "json \<Rightarrow> bool" where
  "is_number j \<longleftrightarrow> is_int64 j \<or> is_double j"

fun is_string :: "json \<Rightarrow> bool" where
  "is_string (JString _) = True"
| "is_string _ = False"

fun is_array :: "json \<Rightarrow> bool" where
  "is_array (JArray _) = True"
| "is_array _ = False"

fun is_object :: "json \<Rightarrow> bool" where
  "is_object (JObject _) = True"
| "is_object _ = False"

text \<open>\<open>std::get\<close> throws when the variant holds another alternative.\<close>

fun as_bool :: "json \<Rightarrow> bool result" where
  "as_bool (JBool b) = Inr b"
| "as_bool _ = Inl Bad_Variant_Access"

fun as_int64 :: "json \<Rightarrow> 64 word result" where
  "as_int64 (JInt i) = Inr i"
| "as_int64 _ = Inl Bad_Variant_Access"

fun as_double :: "json \<Rightarrow> dbl result" where
  "as_double (JInt i) = Inr (dbl_of_int (sint i))"
| "as_double (JDouble d) = Inr d"
| "as_double _ = Inl Bad_Variant_Access"

fun as_string :: "json \<Rightarrow> string result" where
  "as_string (JString t) = Inr t"
| "as_string _ = Inl Bad_Variant_Access"

fun as_array :: "json \<Rightarrow> json list result" where
  "as_array (JArray xs) = Inr xs"
| "as_array _ = Inl Bad_Variant_Access"

fun as_object :: "json \<Rightarrow> json_object result" where
  "as_object (JObject obj) = Inr obj"
| "as_object _ = Inl Bad_Variant_Access"

definition json_contains :: "json \<Rightarrow> string \<Rightarrow> bool" where
  "json_contains j k = (case j of JObject obj \<Rightarrow> om_find obj k \<noteq> None | _ \<Rightarrow> False)"

definition json_find :: "json \<Rightarrow> string \<Rightarrow> json option" where
  "json_find j k = (case j of JObject obj \<Rightarrow> om_find obj k | _ \<Rightarrow> None)"

definition json_at :: "json \<Rightarrow> string \<Rightarrow> json result" where
  "json_at j k =
     andThen (as_object j)
       (\<lambda>obj. case om_find obj k of None \<Rightarrow> Inl Out_Of_Range | Some v \<Rightarrow> Inr v)"

lemma json_find_JObject [simp]: "json_find (JObject obj) k = om_find obj k"
  by (simp add: json_find_def)

lemma json_contains_iff: "json_contains j k \<longleftrightarrow> json_find j k \<noteq> None"
  by (cases j) (simp_all add: json_contains_def json_find_def)

lemma json_at_JObject [simp]:
  "json_at (JObject obj) k = (case om_find obj k of None \<Rightarrow> Inl Out_Of_Range | Some v \<Rightarrow> Inr v)"
  by (simp add: json_at_def)

lemma json_at_find: "is_object j \<Longrightarrow> json_at j k =
    (case json_find j k of None \<Rightarrow> Inl Out_Of_Range | Some v \<Rightarrow> Inr v)"
  by (cases j) simp_all

section \<open>Equality\<close>

text \<open>The defaulted \<open>operator==\<close>: the same alternative with equal contents, members compared in
  the order of the maps.\<close>

fun json_eq :: "json \<Rightarrow> json \<Rightarrow> bool"
  and json_list_eq :: "json list \<Rightarrow> json list \<Rightarrow> bool"
  and json_members_eq :: "(string \<times> json) list \<Rightarrow> (string \<times> json) list \<Rightarrow> bool" where
  "json_eq JNull JNull = True"
| "json_eq (JBool a) (JBool b) = (a = b)"
| "json_eq (JInt a) (JInt b) = (a = b)"
| "json_eq (JDouble a) (JDouble b) = dbl_eq a b"
| "json_eq (JString a) (JString b) = (a = b)"
| "json_eq (JArray a) (JArray b) = json_list_eq a b"
| "json_eq (JObject a) (JObject b) = json_members_eq a b"
| "json_eq _ _ = False"
| "json_list_eq [] [] = True"
| "json_list_eq (x # xs) (y # ys) = (json_eq x y \<and> json_list_eq xs ys)"
| "json_list_eq _ _ = False"
| "json_members_eq [] [] = True"
| "json_members_eq ((k, x) # xs) ((k', y) # ys) = (k = k' \<and> json_eq x y \<and> json_members_eq xs ys)"
| "json_members_eq _ _ = False"

section \<open>The canonical printer\<close>

definition hex_digit :: "nat \<Rightarrow> char" where
  "hex_digit n = ''0123456789abcdef'' ! n"

definition escape_char :: "char \<Rightarrow> string" where
  "escape_char c =
     (if c = CHR 0x22 then [CHR 0x5C, CHR 0x22]
      else if c = CHR 0x5C then [CHR 0x5C, CHR 0x5C]
      else if c = CHR 0x08 then [CHR 0x5C, CHR ''b'']
      else if c = CHR 0x0C then [CHR 0x5C, CHR ''f'']
      else if c = CHR 0x0A then [CHR 0x5C, CHR ''n'']
      else if c = CHR 0x0D then [CHR 0x5C, CHR ''r'']
      else if c = CHR 0x09 then [CHR 0x5C, CHR ''t'']
      else if of_char c < (0x20 :: nat)
           then [CHR 0x5C, CHR ''u'', CHR ''0'', CHR ''0'',
                 hex_digit (of_char c div 16 mod 16), hex_digit (of_char c mod 16)]
      else [c])"

definition escape_string :: "string \<Rightarrow> string" where
  "escape_string t = CHR 0x22 # concat (map escape_char t) @ [CHR 0x22]"

definition print_double :: "dbl \<Rightarrow> string" where
  "print_double d =
     (let t = stream_double d
      in if list_ex (\<lambda>c. c = CHR ''.'' \<or> c = CHR ''e'' \<or> c = CHR ''E'') t then t else t @ ''.0'')"

fun canonical_string :: "json \<Rightarrow> string"
  and canonical_items :: "json list \<Rightarrow> string"
  and canonical_members :: "(string \<times> json) list \<Rightarrow> string" where
  "canonical_string JNull = ''null''"
| "canonical_string (JBool b) = (if b then ''true'' else ''false'')"
| "canonical_string (JInt i) = to_string_i64 i"
| "canonical_string (JDouble d) = print_double d"
| "canonical_string (JString t) = escape_string t"
| "canonical_string (JArray xs) = CHR ''['' # canonical_items xs @ '']''"
| "canonical_string (JObject ms) = CHR ''{'' # canonical_members ms @ ''}''"
| "canonical_items [] = []"
| "canonical_items [x] = canonical_string x"
| "canonical_items (x # y # xs) = canonical_string x @ CHR '','' # canonical_items (y # xs)"
| "canonical_members [] = []"
| "canonical_members [(k, x)] = escape_string k @ CHR '':'' # canonical_string x"
| "canonical_members ((k, x) # m # ms) =
     escape_string k @ CHR '':'' # canonical_string x @ CHR '','' # canonical_members (m # ms)"

section \<open>Well-formed documents\<close>

text \<open>What every \<open>Json\<close> object satisfies by construction: members in the order of the map, and
  finite canonical numbers.\<close>

fun json_wf :: "json \<Rightarrow> bool"
  and json_list_wf :: "json list \<Rightarrow> bool"
  and json_members_wf :: "(string \<times> json) list \<Rightarrow> bool" where
  "json_wf (JDouble d) \<longleftrightarrow> is_finite d \<and> dbl_canonical d"
| "json_wf (JArray xs) \<longleftrightarrow> json_list_wf xs"
| "json_wf (JObject ms) \<longleftrightarrow> om_ordered ms \<and> json_members_wf ms"
| "json_wf _ \<longleftrightarrow> True"
| "json_list_wf [] \<longleftrightarrow> True"
| "json_list_wf (x # xs) \<longleftrightarrow> json_wf x \<and> json_list_wf xs"
| "json_members_wf [] \<longleftrightarrow> True"
| "json_members_wf ((k, x) # ms) \<longleftrightarrow> json_wf x \<and> json_members_wf ms"

lemma json_list_wf_iff: "json_list_wf xs \<longleftrightarrow> (\<forall>x \<in> set xs. json_wf x)"
  by (induction xs) auto

lemma json_members_wf_iff: "json_members_wf ms \<longleftrightarrow> (\<forall>m \<in> set ms. json_wf (snd m))"
  by (induction ms) auto

lemma dbl_eq_refl: "is_finite d \<Longrightarrow> dbl_eq d d"
  by (cases d) auto

text \<open>\<open>operator==\<close> is reflexive on well-formed documents.\<close>

lemma json_eq_refl:
  "json_wf j \<Longrightarrow> json_eq j j"
  "json_list_wf js \<Longrightarrow> json_list_eq js js"
  "json_members_wf ms \<Longrightarrow> json_members_eq ms ms"
  by (induction j and js and ms rule: json_wf_json_list_wf_json_members_wf.induct)
    (auto simp: dbl_eq_refl)

end
