(* ===== verification/Json_Parser.thy ===== *)
theory Json_Parser
  imports Json
begin

text \<open>
  The recursive-descent parser \<open>JsonParser\<close> of \<open>bindings/cpp/json.hpp\<close>. The parser's state is
  the input from the current position on. Every failure is the \<open>JsonError\<close> the code throws.
  The three mutually recursive functions take a bound on their number of nested calls;
  \<open>Fuel_Exhausted\<close> is what they return when it runs out, and \<open>parse_json\<close> passes a bound that
  is always enough (\<open>parse_json_terminates\<close>).
\<close>

unbundle bit_operations_syntax

datatype parse_error = Fail string | Fuel_Exhausted

type_synonym 'a parsed = "parse_error + 'a \<times> string"

definition bindP :: "'a parsed \<Rightarrow> ('a \<Rightarrow> string \<Rightarrow> 'b parsed) \<Rightarrow> 'b parsed" where
  "bindP p f = (case p of Inl e \<Rightarrow> Inl e | Inr (x, s) \<Rightarrow> f x s)"

lemma bindP_simps [simp]:
  "bindP (Inl e) f = Inl e"
  "bindP (Inr (x, s)) f = f x s"
  by (simp_all add: bindP_def)

lemma bindP_Inr_iff: "bindP p f = Inr y \<longleftrightarrow> (\<exists>x s. p = Inr (x, s) \<and> f x s = Inr y)"
  by (auto simp: bindP_def split: sum.splits)

lemma bindP_Inl_iff:
  "bindP p f = Inl e \<longleftrightarrow> p = Inl e \<or> (\<exists>x s. p = Inr (x, s) \<and> f x s = Inl e)"
  by (auto simp: bindP_def split: sum.splits)

section \<open>Lexical level\<close>

definition is_json_space :: "char \<Rightarrow> bool" where
  "is_json_space c \<longleftrightarrow> c = CHR '' '' \<or> c = CHR 0x0A \<or> c = CHR 0x0D \<or> c = CHR 0x09"

definition skip_whitespace :: "string \<Rightarrow> string" where
  "skip_whitespace = dropWhile is_json_space"

definition starts_with :: "string \<Rightarrow> string \<Rightarrow> bool" where
  "starts_with t s \<longleftrightarrow> take (length t) s = t"

definition consume :: "char \<Rightarrow> string \<Rightarrow> bool \<times> string" where
  "consume c s = (let s' = skip_whitespace s in if starts_with [c] s' then (True, tl s') else (False, s'))"

definition expect :: "char \<Rightarrow> string \<Rightarrow> unit parsed" where
  "expect c s = (case consume c s of (True, s') \<Rightarrow> Inr ((), s') | (False, _) \<Rightarrow> Inl (Fail ''unexpected JSON token''))"

text \<open>\<open>if (consume(c)) ... else ...\<close>\<close>

definition if_consume :: "char \<Rightarrow> string \<Rightarrow> (string \<Rightarrow> 'a) \<Rightarrow> (string \<Rightarrow> 'a) \<Rightarrow> 'a" where
  "if_consume c s f g = (case consume c s of (b, s') \<Rightarrow> if b then f s' else g s')"

section \<open>Strings\<close>

definition hex_value :: "char \<Rightarrow> nat option" where
  "hex_value c =
     (let n = (of_char c :: nat)
      in if 48 \<le> n \<and> n \<le> 57 then Some (n - 48)
         else if 97 \<le> n \<and> n \<le> 102 then Some (n - 97 + 10)
         else if 65 \<le> n \<and> n \<le> 70 then Some (n - 65 + 10)
         else None)"

fun hex_quad_value :: "string \<Rightarrow> nat \<Rightarrow> nat option" where
  "hex_quad_value [] v = Some v"
| "hex_quad_value (c # cs) v =
     (case hex_value c of None \<Rightarrow> None | Some d \<Rightarrow> hex_quad_value cs (push_bit 4 v OR d))"

definition parse_hex_quad :: "string \<Rightarrow> nat parsed" where
  "parse_hex_quad s =
     (if length s < 4 then Inl (Fail ''short JSON unicode escape'')
      else case hex_quad_value (take 4 s) 0 of
             None \<Rightarrow> Inl (Fail ''invalid JSON unicode escape'')
           | Some v \<Rightarrow> Inr (v, drop 4 s))"

definition append_utf8 :: "nat \<Rightarrow> parse_error + string" where
  "append_utf8 cp =
     (if cp \<le> 0x7F then Inr [char_of cp]
      else if cp \<le> 0x7FF then
        Inr [char_of (0xC0 OR drop_bit 6 cp), char_of (0x80 OR (cp AND 0x3F))]
      else if cp \<le> 0xFFFF then
        Inr [char_of (0xE0 OR drop_bit 12 cp), char_of (0x80 OR (drop_bit 6 cp AND 0x3F)),
             char_of (0x80 OR (cp AND 0x3F))]
      else if cp \<le> 0x10FFFF then
        Inr [char_of (0xF0 OR drop_bit 18 cp), char_of (0x80 OR (drop_bit 12 cp AND 0x3F)),
             char_of (0x80 OR (drop_bit 6 cp AND 0x3F)), char_of (0x80 OR (cp AND 0x3F))]
      else Inl (Fail ''invalid JSON unicode code point''))"

text \<open>A \<open>\u\<close> escape, a surrogate pair included: the bytes it stands for and the rest.\<close>

definition append_unicode_escape :: "string \<Rightarrow> string parsed" where
  "append_unicode_escape s =
     bindP (parse_hex_quad s) (\<lambda>cp s1.
       if 0xD800 \<le> cp \<and> cp \<le> 0xDBFF then
         (if length s1 < 6 \<or> \<not> starts_with [CHR 0x5C, CHR ''u''] s1
          then Inl (Fail ''missing JSON low surrogate'')
          else bindP (parse_hex_quad (drop 2 s1)) (\<lambda>low s2.
            if low < 0xDC00 \<or> 0xDFFF < low then Inl (Fail ''invalid JSON low surrogate'')
            else case append_utf8 (0x10000 + (push_bit 10 (cp - 0xD800) OR (low - 0xDC00))) of
                   Inl e \<Rightarrow> Inl e | Inr bs \<Rightarrow> Inr (bs, s2)))
       else if 0xDC00 \<le> cp \<and> cp \<le> 0xDFFF then Inl (Fail ''unexpected JSON low surrogate'')
       else case append_utf8 cp of Inl e \<Rightarrow> Inl e | Inr bs \<Rightarrow> Inr (bs, s1))"

lemma parse_hex_quad_shorter: "parse_hex_quad s = Inr (v, s') \<Longrightarrow> length s' < length s"
  by (auto simp: parse_hex_quad_def split: if_splits option.splits)

lemma append_unicode_escape_shorter:
  assumes "append_unicode_escape s = Inr (bs, s')"
  shows "length s' < length s"
proof -
  from assms obtain cp s1 where q: "parse_hex_quad s = Inr (cp, s1)"
    by (auto simp: append_unicode_escape_def bindP_Inr_iff)
  then have "length s' \<le> length s1"
    using assms
    by (auto simp: append_unicode_escape_def bindP_Inr_iff
        dest!: parse_hex_quad_shorter [of "drop 2 s1"] split: if_splits sum.splits)
  with parse_hex_quad_shorter [OF q] show ?thesis by simp
qed

definition cons_out :: "string \<Rightarrow> string parsed \<Rightarrow> string parsed" where
  "cons_out out p = bindP p (\<lambda>t s. Inr (out @ t, s))"

text \<open>The loop of \<open>parse_string\<close> after the opening quote.\<close>

function parse_string_body :: "string \<Rightarrow> string parsed" where
  "parse_string_body [] = Inl (Fail ''unterminated JSON string'')"
| "parse_string_body (c # s) =
     (if c = CHR 0x22 then Inr ([], s)
      else if of_char c < (0x20 :: nat) then Inl (Fail ''unescaped control character in JSON string'')
      else if c \<noteq> CHR 0x5C then cons_out [c] (parse_string_body s)
      else case s of
        [] \<Rightarrow> Inl (Fail ''unterminated JSON escape'')
      | e # s' \<Rightarrow>
          if e = CHR 0x22 \<or> e = CHR 0x5C \<or> e = CHR ''/'' then cons_out [e] (parse_string_body s')
          else if e = CHR ''b'' then cons_out [CHR 0x08] (parse_string_body s')
          else if e = CHR ''f'' then cons_out [CHR 0x0C] (parse_string_body s')
          else if e = CHR ''n'' then cons_out [CHR 0x0A] (parse_string_body s')
          else if e = CHR ''r'' then cons_out [CHR 0x0D] (parse_string_body s')
          else if e = CHR ''t'' then cons_out [CHR 0x09] (parse_string_body s')
          else if e = CHR ''u'' then
            (case append_unicode_escape s' of
               Inl err \<Rightarrow> Inl err
             | Inr (bs, s'') \<Rightarrow> cons_out bs (parse_string_body s''))
          else Inl (Fail ''invalid JSON escape''))"
  by pat_completeness auto
termination
  by (relation "measure length") (auto dest: append_unicode_escape_shorter)

definition parse_string :: "string \<Rightarrow> string parsed" where
  "parse_string s = bindP (expect CHR 0x22 s) (\<lambda>_ s1. parse_string_body s1)"

section \<open>Numbers\<close>

text \<open>The three parts of the number grammar; each returns the input after the part.\<close>

definition scan_integer :: "string \<Rightarrow> parse_error + string" where
  "scan_integer s =
     (case s of
        [] \<Rightarrow> Inl (Fail ''invalid JSON number'')
      | c # cs \<Rightarrow>
          if c = CHR ''0'' then
            (if cs \<noteq> [] \<and> is_digit (hd cs) then Inl (Fail ''invalid JSON number leading zero'') else Inr cs)
          else if is_digit c then Inr (dropWhile is_digit s)
          else Inl (Fail ''invalid JSON number''))"

definition scan_fraction :: "string \<Rightarrow> parse_error + bool \<times> string" where
  "scan_fraction s =
     (if starts_with ''.'' s then
        (if tl s = [] \<or> \<not> is_digit (hd (tl s)) then Inl (Fail ''invalid JSON number fraction'')
         else Inr (True, dropWhile is_digit (tl s)))
      else Inr (False, s))"

definition scan_exponent :: "string \<Rightarrow> parse_error + bool \<times> string" where
  "scan_exponent s =
     (if starts_with ''e'' s \<or> starts_with ''E'' s then
        (let s1 = tl s; s2 = (if starts_with ''+'' s1 \<or> starts_with ''-'' s1 then tl s1 else s1)
         in if s2 = [] \<or> \<not> is_digit (hd s2) then Inl (Fail ''invalid JSON number exponent'')
            else Inr (True, dropWhile is_digit s2))
      else Inr (False, s))"

text \<open>The conversion of the scanned text.\<close>

definition convert_number :: "bool \<Rightarrow> string \<Rightarrow> parse_error + json" where
  "convert_number has_point t =
     (if has_point then
        (let (d, rest) = strtod t
         in if rest \<noteq> [] \<or> \<not> is_finite d then Inl (Fail ''invalid JSON number'') else Inr (JDouble d))
      else case from_chars_i64 t of None \<Rightarrow> Inl (Fail ''invalid JSON integer'') | Some i \<Rightarrow> Inr (JInt i))"

definition parse_number :: "string \<Rightarrow> json parsed" where
  "parse_number s =
     (let s1 = (if starts_with ''-'' s then tl s else s)
      in case scan_integer s1 of
           Inl e \<Rightarrow> Inl e
         | Inr s2 \<Rightarrow>
             (case scan_fraction s2 of
                Inl e \<Rightarrow> Inl e
              | Inr (fraction, s3) \<Rightarrow>
                  (case scan_exponent s3 of
                     Inl e \<Rightarrow> Inl e
                   | Inr (exponent, s4) \<Rightarrow>
                       (case convert_number (fraction \<or> exponent) (take (length s - length s4) s) of
                          Inl e \<Rightarrow> Inl e
                        | Inr j \<Rightarrow> Inr (j, s4)))))"

section \<open>Values\<close>

fun parse_value :: "nat \<Rightarrow> string \<Rightarrow> json parsed"
  and parse_items :: "nat \<Rightarrow> string \<Rightarrow> json list parsed"
  and parse_members :: "nat \<Rightarrow> json_object \<Rightarrow> string \<Rightarrow> json_object parsed" where
  "parse_value 0 s = Inl Fuel_Exhausted"
| "parse_value (Suc n) s0 =
     (let s = skip_whitespace s0
      in if s = [] then Inl (Fail ''missing JSON value'')
         else if starts_with ''null'' s then Inr (JNull, drop 4 s)
         else if starts_with ''true'' s then Inr (JBool True, drop 4 s)
         else if starts_with ''false'' s then Inr (JBool False, drop 5 s)
         else if hd s = CHR 0x22 then bindP (parse_string s) (\<lambda>t r. Inr (JString t, r))
         else if hd s = CHR ''['' then
           bindP (expect CHR ''['' s) (\<lambda>_ s1.
             if_consume CHR '']'' s1
               (\<lambda>s2. Inr (JArray [], s2))
               (\<lambda>s2. bindP (parse_items n s2) (\<lambda>xs r. Inr (JArray xs, r))))
         else if hd s = CHR ''{'' then
           bindP (expect CHR ''{'' s) (\<lambda>_ s1.
             if_consume CHR ''}'' s1
               (\<lambda>s2. Inr (JObject [], s2))
               (\<lambda>s2. bindP (parse_members n [] s2) (\<lambda>ms r. Inr (JObject ms, r))))
         else parse_number s)"
| "parse_items 0 s = Inl Fuel_Exhausted"
| "parse_items (Suc n) s =
     bindP (parse_value n s) (\<lambda>v s1.
       if_consume CHR '']'' s1
         (\<lambda>s2. Inr ([v], s2))
         (\<lambda>s2. bindP (expect CHR '','' s2) (\<lambda>_ s3.
            bindP (parse_items n s3) (\<lambda>vs s4. Inr (v # vs, s4)))))"
| "parse_members 0 obj s = Inl Fuel_Exhausted"
| "parse_members (Suc n) obj s0 =
     (let s = skip_whitespace s0
      in if \<not> starts_with [CHR 0x22] s then Inl (Fail ''JSON object member name must be a string'')
         else bindP (parse_string s) (\<lambda>k s1.
           bindP (expect CHR '':'' s1) (\<lambda>_ s2.
             bindP (parse_value n s2) (\<lambda>v s3.
               if om_find obj k \<noteq> None then Inl (Fail ''duplicate JSON object member'')
               else if_consume CHR ''}'' s3
                      (\<lambda>s4. Inr (om_insert k v obj, s4))
                      (\<lambda>s4. bindP (expect CHR '','' s4) (\<lambda>_ s5.
                         parse_members n (om_insert k v obj) s5))))))"

definition parse_document :: "nat \<Rightarrow> string \<Rightarrow> parse_error + json" where
  "parse_document fuel s =
     (case parse_value fuel s of
        Inl e \<Rightarrow> Inl e
      | Inr (v, r) \<Rightarrow>
          if skip_whitespace r \<noteq> [] then Inl (Fail ''unexpected trailing JSON content'') else Inr v)"

definition parse_json :: "string \<Rightarrow> parse_error + json" where
  "parse_json s = parse_document (2 * length s + 2) s"

section \<open>Consumption\<close>

text \<open>Every successful step leaves a shorter input.\<close>

lemma length_skip_whitespace: "length (skip_whitespace s) \<le> length s"
  by (simp add: skip_whitespace_def length_dropWhile_le)

lemma consume_True: "consume c s = (True, s') \<Longrightarrow> length s' < length s"
  using length_skip_whitespace [of s]
  by (cases "skip_whitespace s") (auto simp: consume_def Let_def starts_with_def split: if_splits)

lemma consume_False: "consume c s = (False, s') \<Longrightarrow> length s' \<le> length s"
  using length_skip_whitespace [of s] by (auto simp: consume_def Let_def split: if_splits)

lemma if_consume_cases:
  assumes "if_consume c s f g = x"
  obtains s' where "length s' < length s" and "f s' = x"
    | s' where "length s' \<le> length s" and "g s' = x"
  using assms consume_True [of c s] consume_False [of c s]
  by (cases "consume c s") (auto simp: if_consume_def split: if_splits)

lemma expect_shorter: "expect c s = Inr (u, s') \<Longrightarrow> length s' < length s"
  by (auto simp: expect_def dest: consume_True split: prod.splits bool.splits)

lemma cons_out_Inr [simp]:
  "cons_out out p = Inr (t, s') \<longleftrightarrow> (\<exists>t'. p = Inr (t', s') \<and> t = out @ t')"
  by (auto simp: cons_out_def bindP_Inr_iff)

declare parse_string_body.simps [simp del]

text \<open>One iteration of the loop consumes at least one character and goes on, or stops.\<close>

lemma parse_string_body_step:
  assumes "parse_string_body s = Inr (t, s')"
  shows "s = CHR 0x22 # s' \<and> t = [] \<or>
    (\<exists>s1 t1. length s1 < length s \<and> parse_string_body s1 = Inr (t1, s'))"
proof (cases s)
  case Nil
  with assms show ?thesis by (simp add: parse_string_body.simps)
next
  case (Cons c r)
  note body = assms [unfolded Cons parse_string_body.simps(2)]
  show ?thesis
  proof (cases "c = CHR 0x5C")
    case False
    then show ?thesis
      using body Cons by (auto split: if_splits)
  next
    case True
    then obtain e r1 where r: "r = e # r1"
      using body by (cases r) (simp_all split: if_splits)
    show ?thesis
    proof (cases "e = CHR ''u''")
      case True
      with body r \<open>c = CHR 0x5C\<close> obtain bs s2 t' where u: "append_unicode_escape r1 = Inr (bs, s2)"
        and "parse_string_body s2 = Inr (t', s')"
        by (auto split: sum.splits if_splits)
      with append_unicode_escape_shorter [OF u] Cons r show ?thesis by auto
    next
      case False
      then have "\<exists>t'. parse_string_body r1 = Inr (t', s')"
        using body r \<open>c = CHR 0x5C\<close> by (simp split: if_splits) blast+
      with Cons r show ?thesis by auto
    qed
  qed
qed

lemma parse_string_body_shorter: "parse_string_body s = Inr (t, s') \<Longrightarrow> length s' < length s"
proof (induction s arbitrary: t rule: measure_induct_rule [of length])
  case (less s)
  from parse_string_body_step [OF less.prems] show ?case
    using less.IH by fastforce
qed

lemma parse_string_shorter: "parse_string s = Inr (t, s') \<Longrightarrow> length s' < length s"
  by (auto simp: parse_string_def bindP_Inr_iff dest!: expect_shorter parse_string_body_shorter)

lemma length_dropWhile_less: "s \<noteq> [] \<Longrightarrow> P (hd s) \<Longrightarrow> length (dropWhile P s) < length s"
  by (cases s) (auto simp: le_imp_less_Suc length_dropWhile_le)

lemma scan_integer_shorter: "scan_integer s = Inr s' \<Longrightarrow> length s' < length s"
  by (auto simp: scan_integer_def le_imp_less_Suc length_dropWhile_le split: list.splits if_splits)

lemma scan_fraction_shorter: "scan_fraction s = Inr (b, s') \<Longrightarrow> length s' \<le> length s"
  using length_dropWhile_le [of is_digit "tl s"]
  by (auto simp: scan_fraction_def split: if_splits)

lemma scan_exponent_shorter: "scan_exponent s = Inr (b, s') \<Longrightarrow> length s' \<le> length s"
  using length_dropWhile_le [of is_digit "tl s"] length_dropWhile_le [of is_digit "tl (tl s)"]
  by (auto simp: scan_exponent_def Let_def split: if_splits)

lemma parse_number_shorter:
  assumes "parse_number s = Inr (j, s')"
  shows "length s' < length s"
proof -
  obtain s2 b s3 b' where
    "scan_integer (if starts_with ''-'' s then tl s else s) = Inr s2"
    and "scan_fraction s2 = Inr (b, s3)" and "scan_exponent s3 = Inr (b', s')"
    using assms by (auto simp: parse_number_def Let_def split: sum.splits)
  then have "length s' < length (if starts_with ''-'' s then tl s else s)"
    using scan_integer_shorter scan_fraction_shorter scan_exponent_shorter by fastforce
  then show ?thesis by (auto split: if_splits)
qed

section \<open>The bound is enough\<close>

lemma expect_Inl: "expect c s = Inl e \<Longrightarrow> e \<noteq> Fuel_Exhausted"
  by (auto simp: expect_def split: prod.splits bool.splits)

lemma append_unicode_escape_Inl: "append_unicode_escape s = Inl e \<Longrightarrow> e \<noteq> Fuel_Exhausted"
  by (auto simp: append_unicode_escape_def parse_hex_quad_def append_utf8_def bindP_Inl_iff Let_def
      split: if_splits option.splits sum.splits)

lemma cons_out_Inl [simp]: "cons_out out p = Inl e \<longleftrightarrow> p = Inl e"
  by (auto simp: cons_out_def bindP_Inl_iff)

lemma parse_string_body_Inl: "parse_string_body s \<noteq> Inl Fuel_Exhausted"
proof (induction s rule: measure_induct_rule [of length])
  case (less s)
  show ?case
  proof (cases s)
    case Nil
    then show ?thesis by (simp add: parse_string_body.simps)
  next
    case (Cons c r)
    have "parse_string_body r \<noteq> Inl Fuel_Exhausted"
      and "\<And>e r1. r = e # r1 \<Longrightarrow> parse_string_body r1 \<noteq> Inl Fuel_Exhausted"
      and "\<And>e r1 bs r2. r = e # r1 \<Longrightarrow> append_unicode_escape r1 = Inr (bs, r2) \<Longrightarrow>
             parse_string_body r2 \<noteq> Inl Fuel_Exhausted"
      using less.IH Cons by (auto dest!: append_unicode_escape_shorter intro: less_SucI)
    then show ?thesis
      using Cons append_unicode_escape_Inl
      by (auto simp: parse_string_body.simps(2) split: list.splits sum.splits)
  qed
qed

lemma parse_string_Inl: "parse_string s \<noteq> Inl Fuel_Exhausted"
  by (auto simp: parse_string_def bindP_Inl_iff parse_string_body_Inl dest: expect_Inl)

lemma scan_Inl:
  "scan_integer s \<noteq> Inl Fuel_Exhausted"
  "scan_fraction s \<noteq> Inl Fuel_Exhausted"
  "scan_exponent s \<noteq> Inl Fuel_Exhausted"
  "convert_number b s \<noteq> Inl Fuel_Exhausted"
  by (auto simp: scan_integer_def scan_fraction_def scan_exponent_def convert_number_def Let_def
      split: list.splits option.splits prod.splits)

lemma parse_number_Inl: "parse_number s \<noteq> Inl Fuel_Exhausted"
  by (auto simp: parse_number_def scan_Inl Let_def split: sum.splits)

lemma parse_value_shorter_step:
  assumes "\<And>s vs r. parse_items n s = Inr (vs, r) \<Longrightarrow> length r < length s"
    and "\<And>obj s ms r. parse_members n obj s = Inr (ms, r) \<Longrightarrow> length r < length s"
    and "parse_value (Suc n) s0 = Inr (v, r)"
  shows "length r < length s0"
proof -
  define s where "s = skip_whitespace s0"
  have "length r < length s"
    using assms(3) unfolding parse_value.simps s_def [symmetric] Let_def
    by (auto simp: bindP_Inr_iff split: if_splits dest!: parse_string_shorter parse_number_shorter
        expect_shorter assms(1,2) elim!: if_consume_cases)
  then show ?thesis
    using length_skip_whitespace [of s0] by (simp add: s_def)
qed

lemma parse_shorter:
  "parse_value n s = Inr (v, r) \<Longrightarrow> length r < length s"
  "parse_items n s = Inr (vs, r) \<Longrightarrow> length r < length s"
  "parse_members n obj s = Inr (ms, r) \<Longrightarrow> length r < length s"
proof (induction n arbitrary: s v r vs obj ms)
  case (Suc n)
  {
    case 1
    then show ?case by (rule parse_value_shorter_step [rotated 2]) (fact Suc)+
  next
    case 2
    then show ?case
      by (auto simp: bindP_Inr_iff dest!: expect_shorter Suc(1,2) elim!: if_consume_cases)
  next
    case 3
    then show ?case
      using length_skip_whitespace [of s]
      by (auto simp: bindP_Inr_iff Let_def split: if_splits
          dest!: expect_shorter parse_string_shorter Suc(1,3) elim!: if_consume_cases)
  }
qed simp_all

lemma parse_value_fuel_step:
  assumes "\<And>s. 2 * length s + 2 \<le> n \<Longrightarrow> parse_items n s \<noteq> Inl Fuel_Exhausted"
    and "\<And>s. 2 * length s + 2 \<le> n \<Longrightarrow> parse_members n [] s \<noteq> Inl Fuel_Exhausted"
    and "2 * length s0 + 1 \<le> Suc n"
  shows "parse_value (Suc n) s0 \<noteq> Inl Fuel_Exhausted"
proof
  define s where "s = skip_whitespace s0"
  assume "parse_value (Suc n) s0 = Inl Fuel_Exhausted"
  moreover have "length s \<le> length s0"
    by (simp add: s_def length_skip_whitespace)
  ultimately show False
    using assms unfolding parse_value.simps s_def [symmetric] Let_def
    by (fastforce simp: bindP_Inl_iff parse_string_Inl parse_number_Inl split: if_splits
        dest: expect_Inl dest!: expect_shorter elim!: if_consume_cases)
qed

lemma parse_fuel:
  "2 * length s + 1 \<le> n \<Longrightarrow> parse_value n s \<noteq> Inl Fuel_Exhausted"
  "2 * length s + 2 \<le> n \<Longrightarrow> parse_items n s \<noteq> Inl Fuel_Exhausted"
  "2 * length s + 2 \<le> n \<Longrightarrow> parse_members n obj s \<noteq> Inl Fuel_Exhausted"
proof (induction n arbitrary: s obj)
  case (Suc n)
  {
    case 1
    then show ?case by (intro parse_value_fuel_step Suc)
  next
    case 2
    then show ?case
      using Suc(1,2)
      by (fastforce simp: bindP_Inl_iff dest: expect_Inl
          dest!: expect_shorter parse_shorter elim!: if_consume_cases)
  next
    case 3
    then show ?case
      using Suc(1,3) length_skip_whitespace [of s]
      by (fastforce simp: bindP_Inl_iff Let_def parse_string_Inl dest: expect_Inl
          dest!: expect_shorter parse_shorter parse_string_shorter split: if_splits
          elim!: if_consume_cases)
  }
qed simp_all

text \<open>The bound that \<open>parse_json\<close> passes never runs out.\<close>

lemma parse_json_terminates: "parse_json s \<noteq> Inl Fuel_Exhausted"
  using parse_fuel(1) [of s "2 * length s + 2"]
  by (auto simp: parse_json_def parse_document_def split: sum.splits prod.splits)

section \<open>Parsing what the printer writes\<close>








lemma skip_whitespace_Cons [simp]: "\<not> is_json_space c \<Longrightarrow> skip_whitespace (c # s) = c # s"
  by (simp add: skip_whitespace_def)

lemma is_json_space_simps [simp]:
  "\<not> is_json_space CHR 0x22" "\<not> is_json_space CHR '',''" "\<not> is_json_space CHR '':''"
  "\<not> is_json_space CHR ''[''" "\<not> is_json_space CHR '']''" "\<not> is_json_space CHR ''{''"
  "\<not> is_json_space CHR ''}''"
  by (simp_all add: is_json_space_def)

lemma consume_Cons: "\<not> is_json_space c \<Longrightarrow>
    consume d (c # s) = (if c = d then (True, s) else (False, c # s))"
  by (auto simp: consume_def starts_with_def)

lemma expect_Cons [simp]: "\<not> is_json_space c \<Longrightarrow> expect c (c # s) = Inr ((), s)"
  by (simp add: expect_def consume_Cons)

lemma if_consume_Cons [simp]: "\<not> is_json_space c \<Longrightarrow>
    if_consume d (c # s) f g = (if c = d then f s else g (c # s))"
  by (simp add: if_consume_def consume_Cons)


subsection \<open>Numbers end where the printer ends them\<close>

definition ends_number :: "string \<Rightarrow> bool" where
  "ends_number r \<longleftrightarrow> r = [] \<or> \<not> is_digit (hd r) \<and> hd r \<notin> {CHR ''.'', CHR ''e'', CHR ''E''}"

lemma ends_number_Nil [simp]: "ends_number []"
  by (simp add: ends_number_def)

lemma ends_number_delimiter [simp]:
  "ends_number (CHR '','' # r)" "ends_number (CHR '']'' # r)" "ends_number (CHR ''}'' # r)"
  by (simp_all add: ends_number_def is_digit_def)






lemma dropWhile_digits [simp]: "list_all is_digit t \<Longrightarrow> dropWhile is_digit t = []"
  by (simp add: list_all_iff)

lemma scan_integer_show_nat [simp]: "scan_integer (show_nat n) = Inr []"
proof -
  obtain c cs where n: "show_nat n = c # cs" by (cases "show_nat n") simp_all
  have "list_all is_digit (c # cs)" using show_nat_digits [of n] by (simp add: n)
  moreover have "c = CHR ''0'' \<Longrightarrow> cs = []"
  proof -
    assume "c = CHR ''0''"
    then have "n = 0" using hd_show_nat [of n] n by (simp add: digit_char_0)
    with n show "cs = []" by simp
  qed
  ultimately show ?thesis by (auto simp: n scan_integer_def)
qed


subsection \<open>Documents\<close>









lemma escape_string_start [simp]:
  "skip_whitespace (escape_string k @ s) = escape_string k @ s"
  "starts_with [CHR 0x22] (escape_string k @ s)"
  by (simp_all add: escape_string_def starts_with_def)



text \<open>C20: the parser always returns a document or throws a \<open>JsonError\<close>: the recursion bound
  that \<open>parse_json\<close> starts with, twice the length of the input plus two, is never exhausted,
  on any input.\<close>

theorem json_parse_total: "parse_json s \<noteq> Inl Fuel_Exhausted"
  by (rule parse_json_terminates)

end
