(* ===== verification/Backend.thy ===== *)
theory Backend
  imports Json
begin

text \<open>
  \<open>bindings/cpp/backend.hpp\<close>: descriptors, records, queries, and the two abstract classes
  \<open>ITransaction\<close> and \<open>IBackend\<close> as records of operations. The runtime stores are written
  against these interfaces; the laws they rely on are the locales \<open>occ_transaction\<close> and
  \<open>occ_backend\<close>, which the in-memory backend satisfies (theory \<open>Memory_Laws\<close>).
\<close>

section \<open>Names\<close>

type_synonym collection_name = string
type_synonym key = string
type_synonym version = "64 word"

definition FeatureFlagDefinitions :: string where
  "FeatureFlagDefinitions = ''statespec_feature_flag_definitions''"
definition FeatureFlagValues :: string where
  "FeatureFlagValues = ''statespec_feature_flag_values''"
definition QueueDefinitions :: string where
  "QueueDefinitions = ''statespec_queue_definitions''"
definition QueueMessages :: string where
  "QueueMessages = ''statespec_queue_messages''"
definition QueueIdempotency :: string where
  "QueueIdempotency = ''statespec_queue_idempotency''"
definition LeaseDefinitions :: string where
  "LeaseDefinitions = ''statespec_lease_definitions''"
definition Leases :: string where
  "Leases = ''statespec_leases''"
definition WorkflowDefinitions :: string where
  "WorkflowDefinitions = ''statespec_workflow_definitions''"
definition WorkflowExecutions :: string where
  "WorkflowExecutions = ''statespec_workflow_executions''"
definition WorkflowHeartbeats :: string where
  "WorkflowHeartbeats = ''statespec_workflow_heartbeats''"
definition LogDefinitions :: string where
  "LogDefinitions = ''statespec_log_definitions''"
definition LogEvents :: string where
  "LogEvents = ''statespec_log_events''"
definition MetricDefinitions :: string where
  "MetricDefinitions = ''statespec_metric_definitions''"
definition MetricSamples :: string where
  "MetricSamples = ''statespec_metric_samples''"

lemmas collection_names =
  FeatureFlagDefinitions_def FeatureFlagValues_def QueueDefinitions_def QueueMessages_def
  QueueIdempotency_def LeaseDefinitions_def Leases_def WorkflowDefinitions_def
  WorkflowExecutions_def WorkflowHeartbeats_def LogDefinitions_def LogEvents_def
  MetricDefinitions_def MetricSamples_def

definition KF_Name :: string where
  "KF_Name = ''name''"
definition KF_ScopeKey :: string where
  "KF_ScopeKey = ''scope_key''"
definition KF_Queue :: string where
  "KF_Queue = ''queue''"
definition KF_MessageId :: string where
  "KF_MessageId = ''message_id''"
definition KF_IdempotencyKey :: string where
  "KF_IdempotencyKey = ''idempotency_key''"
definition KF_LeaseDefinition :: string where
  "KF_LeaseDefinition = ''lease_definition''"
definition KF_Lease :: string where
  "KF_Lease = ''lease''"
definition KF_WorkflowDefinition :: string where
  "KF_WorkflowDefinition = ''workflow_definition''"
definition KF_WorkflowExecutionId :: string where
  "KF_WorkflowExecutionId = ''workflow_execution_id''"
definition KF_WorkflowHeartbeat :: string where
  "KF_WorkflowHeartbeat = ''workflow_heartbeat''"
definition KF_EventId :: string where
  "KF_EventId = ''event_id''"
definition KF_SampleId :: string where
  "KF_SampleId = ''sample_id''"

section \<open>Descriptors\<close>

datatype field_type =
    FT_String | FT_Bool | FT_Int | FT_Int32 | FT_Int64 | FT_Long | FT_Double | FT_Decimal | FT_Json
  | FT_Timestamp | FT_Duration | FT_Uuid | FT_Named | FT_List | FT_Set | FT_Map | FT_Optional
  | FT_Reference

record field_descriptor =
  fd_name :: string
  fd_type :: field_type
  fd_type_name :: string
  fd_required :: bool

record index_descriptor =
  id_name :: string
  id_fields :: "string list"
  id_unique :: bool

record collection_descriptor =
  cd_name :: string
  cd_fields :: "field_descriptor list"
  cd_key_fields :: "string list"
  cd_indexes :: "index_descriptor list"
  cd_schema_version :: "64 word"

text \<open>The designated initialiser the stores use: a name and the key fields, defaults elsewhere.\<close>

definition collection_with_keys :: "string \<Rightarrow> string list \<Rightarrow> collection_descriptor" where
  "collection_with_keys name keys =
     \<lparr>cd_name = name, cd_fields = [], cd_key_fields = keys, cd_indexes = [], cd_schema_version = 1\<rparr>"

record backend_capabilities =
  bc_transactions :: bool
  bc_compare_and_swap :: bool
  bc_prefix_query :: bool
  bc_secondary_indexes :: bool
  bc_unique_indexes :: bool
  bc_json_path_query :: bool
  bc_ordered_scan :: bool
  bc_durable_history :: bool
  bc_schema_snapshots :: bool

definition default_capabilities :: backend_capabilities where
  "default_capabilities =
     \<lparr>bc_transactions = True, bc_compare_and_swap = True, bc_prefix_query = False,
      bc_secondary_indexes = False, bc_unique_indexes = False, bc_json_path_query = False,
      bc_ordered_scan = False, bc_durable_history = False, bc_schema_snapshots = False\<rparr>"

record versioned_record =
  vr_collection :: collection_name
  vr_key :: key
  vr_version :: version
  vr_document :: json

section \<open>Queries\<close>

datatype index_kind = IK_Null | IK_String | IK_Integer | IK_Decimal | IK_Boolean | IK_Timestamp

record index_value =
  iv_kind :: index_kind
  iv_value :: json

definition null_value :: index_value where
  "null_value = \<lparr>iv_kind = IK_Null, iv_value = JNull\<rparr>"

definition string_value :: "string \<Rightarrow> index_value" where
  "string_value t = \<lparr>iv_kind = IK_String, iv_value = JString t\<rparr>"

definition integer_value :: "64 word \<Rightarrow> index_value" where
  "integer_value i = \<lparr>iv_kind = IK_Integer, iv_value = JInt i\<rparr>"

definition decimal_value :: "dbl \<Rightarrow> index_value result" where
  "decimal_value d = andThen (json_of_double d) (\<lambda>j. Inr \<lparr>iv_kind = IK_Decimal, iv_value = j\<rparr>)"

definition boolean_value :: "bool \<Rightarrow> index_value" where
  "boolean_value b = \<lparr>iv_kind = IK_Boolean, iv_value = JBool b\<rparr>"

definition timestamp_value :: "string \<Rightarrow> index_value" where
  "timestamp_value t = \<lparr>iv_kind = IK_Timestamp, iv_value = JString t\<rparr>"

record index_bound =
  ib_values :: "index_value list"
  ib_inclusive :: bool

datatype query_kind = QK_All | QK_KeyPrefix | QK_JsonEquals | QK_IndexEquals | QK_IndexPrefix | QK_IndexRange

record query =
  q_kind :: query_kind
  q_key_prefix :: "string option"
  q_json_path :: "string option"
  q_json_value :: "json option"
  q_index_name :: "string option"
  q_index_values :: "index_value list"
  q_lower_bound :: "index_bound option"
  q_upper_bound :: "index_bound option"

definition query_all :: query where
  "query_all =
     \<lparr>q_kind = QK_All, q_key_prefix = None, q_json_path = None, q_json_value = None,
      q_index_name = None, q_index_values = [], q_lower_bound = None, q_upper_bound = None\<rparr>"

definition key_prefix_query :: "string \<Rightarrow> query" where
  "key_prefix_query p = query_all\<lparr>q_kind := QK_KeyPrefix, q_key_prefix := Some p\<rparr>"

definition json_equals :: "string \<Rightarrow> json \<Rightarrow> query" where
  "json_equals path v = query_all\<lparr>q_kind := QK_JsonEquals, q_json_path := Some path, q_json_value := Some v\<rparr>"

definition index_equals :: "string \<Rightarrow> index_value list \<Rightarrow> query" where
  "index_equals name vs = query_all\<lparr>q_kind := QK_IndexEquals, q_index_name := Some name, q_index_values := vs\<rparr>"

definition index_prefix :: "string \<Rightarrow> index_value list \<Rightarrow> query" where
  "index_prefix name vs = query_all\<lparr>q_kind := QK_IndexPrefix, q_index_name := Some name, q_index_values := vs\<rparr>"

definition index_range :: "string \<Rightarrow> index_bound option \<Rightarrow> index_bound option \<Rightarrow> query" where
  "index_range name lo hi =
     query_all\<lparr>q_kind := QK_IndexRange, q_index_name := Some name, q_lower_bound := lo, q_upper_bound := hi\<rparr>"

section \<open>The transaction interface\<close>

record 'tx itransaction =
  it_is_open :: "'tx \<Rightarrow> bool"
  it_abort :: "('tx, unit) action"
  it_get :: "collection_name \<Rightarrow> key \<Rightarrow> ('tx, versioned_record option) action"
  it_query :: "collection_name \<Rightarrow> query \<Rightarrow> ('tx, versioned_record list) action"
  it_put :: "collection_name \<Rightarrow> key \<Rightarrow> json \<Rightarrow> ('tx, unit) action"
  it_erase :: "collection_name \<Rightarrow> key \<Rightarrow> ('tx, unit) action"

text \<open>The bodies the base class gives the generic operations.\<close>

definition itransaction_defaults :: "('tx \<Rightarrow> bool) \<Rightarrow> ('tx, unit) action \<Rightarrow> 'tx itransaction" where
  "itransaction_defaults opened abort =
     \<lparr>it_is_open = opened, it_abort = abort,
      it_get = (\<lambda>c k. throwM (BackendError ''transaction does not support generic get'')),
      it_query = (\<lambda>c q. throwM (BackendError ''transaction does not support generic query'')),
      it_put = (\<lambda>c k d. throwM (BackendError ''transaction does not support generic put'')),
      it_erase = (\<lambda>c k. throwM (BackendError ''transaction does not support generic erase''))\<rparr>"

text \<open>What a client sees through a transaction: the document of each key of each collection.\<close>

type_synonym doc_view = "collection_name \<Rightarrow> key \<rightharpoonup> json"

definition view_put :: "collection_name \<Rightarrow> key \<Rightarrow> json \<Rightarrow> doc_view \<Rightarrow> doc_view" where
  "view_put c k d v = v(c := (v c)(k \<mapsto> d))"

definition view_erase :: "collection_name \<Rightarrow> key \<Rightarrow> doc_view \<Rightarrow> doc_view" where
  "view_erase c k v = v(c := (v c)(k := None))"

lemma view_put_apply [simp]:
  "view_put c k d v c' k' = (if c' = c \<and> k' = k then Some d else v c' k')"
  by (simp add: view_put_def)

lemma view_erase_apply [simp]:
  "view_erase c k v c' k' = (if c' = c \<and> k' = k then None else v c' k')"
  by (simp add: view_erase_def)

lemma view_put_collection [simp]:
  "view_put c k d v c = (v c)(k \<mapsto> d)" "c' \<noteq> c \<Longrightarrow> view_put c k d v c' = v c'"
  by (simp_all add: view_put_def)

text \<open>The contract of \<open>ITransaction\<close>: reads return what the transaction's view holds and leave
  it unchanged, writes change one entry of it. \<open>usable\<close> says which states accept calls, \<open>names\<close>
  which collection names.\<close>

locale occ_transaction =
  fixes I :: "'tx itransaction"
    and usable :: "'tx \<Rightarrow> bool"
    and view :: "'tx \<Rightarrow> doc_view"
    and names :: "collection_name \<Rightarrow> bool"
  assumes get_law: "usable tx \<Longrightarrow> names c \<Longrightarrow>
      \<exists>r tx'. it_get I c k tx = (Inr r, tx') \<and> usable tx' \<and> view tx' = view tx \<and>
        map_option vr_document r = view tx c k"
    and put_law: "usable tx \<Longrightarrow> names c \<Longrightarrow>
      \<exists>tx'. it_put I c k d tx = (Inr (), tx') \<and> usable tx' \<and> view tx' = view_put c k d (view tx)"
    and erase_law: "usable tx \<Longrightarrow> names c \<Longrightarrow>
      \<exists>tx'. it_erase I c k tx = (Inr (), tx') \<and> usable tx' \<and> view tx' = view_erase c k (view tx)"
    and query_law: "usable tx \<Longrightarrow> names c \<Longrightarrow>
      \<exists>rs tx'. it_query I c query_all tx = (Inr rs, tx') \<and> usable tx' \<and> view tx' = view tx \<and>
        distinct (map vr_key rs) \<and> map_of (map (\<lambda>r. (vr_key r, vr_document r)) rs) = view tx c"
begin

lemma get_cases:
  assumes "usable tx" and "names c"
  obtains (Absent) tx' where "it_get I c k tx = (Inr None, tx')" and "usable tx'"
      and "view tx' = view tx" and "view tx c k = None"
    | (Present) r tx' where "it_get I c k tx = (Inr (Some r), tx')" and "usable tx'"
      and "view tx' = view tx" and "view tx c k = Some (vr_document r)"
  using get_law [OF assms, of k] by (metis not_None_eq option.simps(8,9))

lemma put_cases:
  assumes "usable tx" and "names c"
  obtains tx' where "it_put I c k d tx = (Inr (), tx')" and "usable tx'"
    and "view tx' = view_put c k d (view tx)"
  using put_law [OF assms] by blast

lemma erase_cases:
  assumes "usable tx" and "names c"
  obtains tx' where "it_erase I c k tx = (Inr (), tx')" and "usable tx'"
    and "view tx' = view_erase c k (view tx)"
  using erase_law [OF assms] by blast

lemma query_cases:
  assumes "usable tx" and "names c"
  obtains rs tx' where "it_query I c query_all tx = (Inr rs, tx')" and "usable tx'"
    and "view tx' = view tx" and "distinct (map vr_key rs)"
    and "map_of (map (\<lambda>r. (vr_key r, vr_document r)) rs) = view tx c"
  using query_law [OF assms] by blast

end

section \<open>The backend interface\<close>

text \<open>The methods of \<open>IBackend\<close>. A transaction keeps a pointer to the state it was begun on;
  \<open>ib_shared\<close> is that state, \<open>ib_tx\<close> the method table of the transactions \<open>begin\<close> returns.\<close>

record ('s, 'tx) ibackend =
  ib_capabilities :: backend_capabilities
  ib_ensure_collection :: "collection_descriptor \<Rightarrow> ('s, unit) action"
  ib_ensure_collections :: "collection_descriptor list \<Rightarrow> ('s, unit) action"
  ib_begin :: "'s \<Rightarrow> 'tx"
  ib_get :: "collection_name \<Rightarrow> key \<Rightarrow> ('tx, versioned_record option) action"
  ib_query :: "collection_name \<Rightarrow> query \<Rightarrow> ('tx, versioned_record list) action"
  ib_put :: "collection_name \<Rightarrow> key \<Rightarrow> json \<Rightarrow> ('tx, unit) action"
  ib_erase :: "collection_name \<Rightarrow> key \<Rightarrow> ('tx, unit) action"
  ib_commit :: "('tx, unit) action"
  ib_tx :: "'tx itransaction"
  ib_shared :: "'tx \<Rightarrow> 's"

text \<open>The body every backend-managed operation of the stores has: begin, run the \<open>Tx\<close> variant,
  commit, return its result. When the operation or the commit throws, the transaction object is
  destroyed with its staged writes.\<close>

definition managed :: "('s, 'tx) ibackend \<Rightarrow> ('tx, 'a) action \<Rightarrow> ('s, 'a) action" where
  "managed B operation s =
     (case bindM operation (\<lambda>x. bindM (ib_commit B) (\<lambda>_. returnM x)) (ib_begin B s) of
        (r, tx) \<Rightarrow> (r, ib_shared B tx))"

text \<open>The contract of \<open>IBackend\<close>: a new transaction sees the committed documents, operations on
  a transaction leave them alone, a commit publishes the view or changes nothing.\<close>

locale occ_backend = occ_transaction "ib_tx B" usable view names
  for B :: "('s, 'tx) ibackend"
    and usable :: "'tx \<Rightarrow> bool"
    and view :: "'tx \<Rightarrow> doc_view"
    and names :: "collection_name \<Rightarrow> bool" +
  fixes committed :: "'s \<Rightarrow> doc_view"
    and consistent :: "'s \<Rightarrow> bool"
  assumes begin_law: "consistent s \<Longrightarrow>
      usable (ib_begin B s) \<and> view (ib_begin B s) = committed s \<and> ib_shared B (ib_begin B s) = s"
    and commit_law: "usable tx \<Longrightarrow> ib_commit B tx = (Inr (), tx') \<Longrightarrow> names c \<Longrightarrow>
      committed (ib_shared B tx') c = view tx c"
    and commit_fail_law: "ib_commit B tx = (Inl e, tx') \<Longrightarrow> ib_shared B tx' = ib_shared B tx"
    and commit_consistent_law: "usable tx \<Longrightarrow> ib_commit B tx = (Inr (), tx') \<Longrightarrow> consistent (ib_shared B tx')"
begin

lemma managed_Inr:
  assumes "managed B operation s = (Inr x, s')"
  obtains tx1 tx2 where "operation (ib_begin B s) = (Inr x, tx1)"
    and "ib_commit B tx1 = (Inr (), tx2)" and "s' = ib_shared B tx2"
  using assms by (auto simp: managed_def split: prod.splits elim!: bindM_cases)

text \<open>A managed operation that returns has published exactly the view its \<open>Tx\<close> variant left.\<close>

lemma managed_publishes:
  assumes "managed B operation s = (Inr x, s')" and "consistent s"
    and "\<And>tx1. operation (ib_begin B s) = (Inr x, tx1) \<Longrightarrow> usable tx1"
  shows "\<exists>tx1. operation (ib_begin B s) = (Inr x, tx1) \<and>
    (\<forall>c. names c \<longrightarrow> committed s' c = view tx1 c) \<and> consistent s'"
  using assms by (elim managed_Inr) (blast intro: commit_law commit_consistent_law)

text \<open>A managed operation that throws leaves the backend as it was.\<close>

lemma managed_Inl:
  assumes "managed B operation s = (Inl e, s')" and "consistent s"
    and "\<And>r tx1. operation (ib_begin B s) = (r, tx1) \<Longrightarrow> ib_shared B tx1 = ib_shared B (ib_begin B s)"
  shows "s' = s"
  using assms begin_law [OF assms(2)] commit_fail_law
  by (auto simp: managed_def split: prod.splits elim!: bindM_cases)

end

end
