(* ===== verification/Codec_Core.thy ===== *)
theory Codec_Core
  imports Backend
begin

text \<open>
  \<open>bindings/cpp/runtime/codec_core.hpp\<close>: times and optional members in the documents the
  runtime stores keep, and the contract of a codec. The locale \<open>codec\<close> is what the stores
  rely on: decoding an encoded value gives the value back, up to what the document
  does not keep (timestamps below the millisecond, the field list of a log).
\<close>

section \<open>The contract of a codec\<close>

locale codec =
  fixes enc :: "'a \<Rightarrow> json result"
    and dec :: "json \<Rightarrow> 'a result"
    and valid :: "'a \<Rightarrow> bool"
    and norm :: "'a \<Rightarrow> 'a"
  assumes enc_total: "valid x \<Longrightarrow> \<exists>j. enc x = Inr j \<and> is_object j"
    and dec_enc: "valid x \<Longrightarrow> enc x = Inr j \<Longrightarrow> dec j = Inr (norm x)"
    and norm_valid: "valid x \<Longrightarrow> valid (norm x)"
    and norm_idem: "norm (norm x) = norm x"
begin

lemma roundtrip: "valid x \<Longrightarrow> andThen (enc x) dec = Inr (norm x)"
  using enc_total [of x] dec_enc [of x] by auto

lemma enc_cases:
  assumes "valid x"
  obtains j where "enc x = Inr j" and "dec j = Inr (norm x)"
  using enc_total [OF assms] dec_enc [OF assms] by blast

text \<open>Encoding keeps normal values apart.\<close>

lemma enc_inject:
  "valid x \<Longrightarrow> valid y \<Longrightarrow> enc x = enc y \<Longrightarrow> norm x = norm y"
  by (metis enc_cases sum.inject(2))

text \<open>Writing back what was read changes nothing any more.\<close>

lemma reencode:
  assumes "valid x" and "enc x = Inr j" and "dec j = Inr y" and "enc y = Inr j'"
  shows "dec j' = Inr y"
  using assms dec_enc norm_valid norm_idem by (metis sum.inject(2))

end

section \<open>Time\<close>

text \<open>\<open>system_clock::time_point\<close> counts nanoseconds, \<open>chrono::seconds\<close> seconds, both in a signed
  64-bit integer. Arithmetic that leaves the range is undefined in C++.\<close>

type_synonym timestamp = "64 word"
type_synonym seconds = "64 word"

definition in_int64 :: "int \<Rightarrow> bool" where
  "in_int64 i \<longleftrightarrow> - (2 ^ 63) \<le> i \<and> i < 2 ^ 63"

definition checked_int64 :: "int \<Rightarrow> 64 word result" where
  "checked_int64 i = (if in_int64 i then Inr (word_of_int i) else Inl Undefined_Behaviour)"

definition add_seconds :: "timestamp \<Rightarrow> seconds \<Rightarrow> timestamp result" where
  "add_seconds t d =
     andThen (checked_int64 (sint d * 1000000000)) (\<lambda>ns. checked_int64 (sint t + sint ns))"

definition seconds_count :: "seconds \<Rightarrow> 64 word" where
  "seconds_count d = d"

definition seconds_from :: "json \<Rightarrow> seconds result" where
  "seconds_from = as_int64"

text \<open>\<open>duration_cast\<close> truncates towards zero.\<close>

definition trunc_div :: "int \<Rightarrow> int \<Rightarrow> int" where
  "trunc_div a b = (if a < 0 then - (- a div b) else a div b)"

definition timestamp_millis :: "timestamp \<Rightarrow> 64 word" where
  "timestamp_millis t = word_of_int (trunc_div (sint t) 1000000)"

definition timestamp_from :: "json \<Rightarrow> timestamp result" where
  "timestamp_from j = andThen (as_int64 j) (\<lambda>ms. checked_int64 (sint ms * 1000000))"

definition put_optional_string :: "json_object \<Rightarrow> string \<Rightarrow> string option \<Rightarrow> json_object" where
  "put_optional_string obj k v = (case v of None \<Rightarrow> obj | Some t \<Rightarrow> om_emplace k (JString t) obj)"

definition optional_string :: "json \<Rightarrow> string \<Rightarrow> string option result" where
  "optional_string j k =
     (case json_find j k of None \<Rightarrow> Inr None | Some v \<Rightarrow> andThen (as_string v) (\<lambda>t. Inr (Some t)))"

text \<open>\<open>object.emplace(key, timestamp_millis(...))\<close> under \<open>has_value\<close>, and its inverse.\<close>

definition put_optional_timestamp :: "json_object \<Rightarrow> string \<Rightarrow> timestamp option \<Rightarrow> json_object" where
  "put_optional_timestamp obj k v =
     (case v of None \<Rightarrow> obj | Some t \<Rightarrow> om_emplace k (JInt (timestamp_millis t)) obj)"

definition optional_timestamp :: "json \<Rightarrow> string \<Rightarrow> timestamp option result" where
  "optional_timestamp j k =
     (case json_find j k of None \<Rightarrow> Inr None | Some v \<Rightarrow> andThen (timestamp_from v) (\<lambda>t. Inr (Some t)))"

definition json_or_empty :: "json \<Rightarrow> string \<Rightarrow> json result" where
  "json_or_empty j k = (if json_contains j k then json_at j k else json_object_of [])"

abbreviation at_string :: "json \<Rightarrow> string \<Rightarrow> string result" where
  "at_string j k \<equiv> andThen (json_at j k) as_string"

abbreviation at_int64 :: "json \<Rightarrow> string \<Rightarrow> 64 word result" where
  "at_int64 j k \<equiv> andThen (json_at j k) as_int64"

abbreviation at_bool :: "json \<Rightarrow> string \<Rightarrow> bool result" where
  "at_bool j k \<equiv> andThen (json_at j k) as_bool"

abbreviation at_seconds :: "json \<Rightarrow> string \<Rightarrow> seconds result" where
  "at_seconds j k \<equiv> andThen (json_at j k) seconds_from"

text \<open>A timestamp as the documents keep it: cut to the millisecond towards the epoch.\<close>

definition cut_ms :: "timestamp \<Rightarrow> timestamp" where
  "cut_ms t = word_of_int (trunc_div (sint t) 1000000 * 1000000)"

lemma trunc_div_bounds:
  assumes "0 < b"
  shows "\<bar>trunc_div a b\<bar> \<le> \<bar>a\<bar>" and "\<bar>trunc_div a b * b\<bar> \<le> \<bar>a\<bar>"
proof -
  have *: "0 \<le> c div b \<and> c div b \<le> c \<and> c div b * b \<le> c" if "0 \<le> c" for c :: int
  proof -
    have "0 \<le> c div b" using assms that by (simp add: pos_imp_zdiv_nonneg_iff)
    moreover have "c div b * b \<le> c"
      using assms by (metis div_mult_mod_eq le_add_same_cancel1 pos_mod_sign)
    moreover from calculation have "c div b \<le> c div b * b"
      using assms by (simp add: mult_le_cancel_left1)
    ultimately show ?thesis by linarith
  qed
  show "\<bar>trunc_div a b\<bar> \<le> \<bar>a\<bar>" "\<bar>trunc_div a b * b\<bar> \<le> \<bar>a\<bar>"
    using *[of a] *[of "- a"] assms by (auto simp: trunc_div_def abs_if mult_less_0_iff)
qed

lemma sint_in_int64 [simp]: "in_int64 (sint (w :: 64 word))"
  using sint_greater_eq [of w] sint_less [of w] by (simp add: in_int64_def)

lemma in_int64_abs:
  "in_int64 a \<Longrightarrow> \<bar>b\<bar> \<le> \<bar>a\<bar> \<Longrightarrow> (a < 0 \<longrightarrow> b \<le> 0) \<Longrightarrow> (0 \<le> a \<longrightarrow> 0 \<le> b) \<Longrightarrow> in_int64 b"
  unfolding in_int64_def by linarith

lemma sint_word_of_int: "in_int64 i \<Longrightarrow> sint (word_of_int i :: 64 word) = i"
  by (simp add: in_int64_def signed_of_int signed_take_bit_int_eq_self)

lemma trunc_div_sign: "0 < b \<Longrightarrow> a < 0 \<Longrightarrow> trunc_div a b \<le> 0" "0 < b \<Longrightarrow> 0 \<le> a \<Longrightarrow> 0 \<le> trunc_div a b"
  by (simp_all add: trunc_div_def pos_imp_zdiv_nonneg_iff)

lemma in_int64_trunc:
  "in_int64 a \<Longrightarrow> in_int64 (trunc_div a 1000000)" "in_int64 a \<Longrightarrow> in_int64 (trunc_div a 1000000 * 1000000)"
  using trunc_div_bounds [of 1000000 a] trunc_div_sign [of 1000000 a]
  by (auto intro!: in_int64_abs [of a] mult_nonpos_nonneg)

lemma sint_timestamp_millis: "sint (timestamp_millis t) = trunc_div (sint t) 1000000"
  by (simp add: timestamp_millis_def sint_word_of_int in_int64_trunc)

lemma sint_cut_ms: "sint (cut_ms t) = trunc_div (sint t) 1000000 * 1000000"
  unfolding cut_ms_def by (rule sint_word_of_int) (simp add: in_int64_trunc)

lemma timestamp_roundtrip [simp]: "timestamp_from (JInt (timestamp_millis t)) = Inr (cut_ms t)"
  by (simp add: timestamp_from_def sint_timestamp_millis checked_int64_def in_int64_trunc cut_ms_def)

lemma trunc_div_mult: "trunc_div (trunc_div a 1000000 * 1000000) 1000000 = trunc_div a 1000000"
  by (auto simp: trunc_div_def mult_less_0_iff)

lemma cut_ms_idem [simp]: "cut_ms (cut_ms t) = cut_ms t"
proof -
  have "sint (cut_ms (cut_ms t)) = sint (cut_ms t)"
    by (simp add: sint_cut_ms [of "cut_ms t"] sint_cut_ms [of t] trunc_div_mult)
  then show ?thesis by (simp only: signed_word_eqI)
qed

text \<open>Cutting moves a timestamp by less than a millisecond, towards the epoch.\<close>

lemma cut_ms_near: "\<bar>sint t - sint (cut_ms t)\<bar> < 1000000"
proof -
  have "\<bar>a - trunc_div a 1000000 * 1000000\<bar> < 1000000" for a :: int
  proof (cases "a < 0")
    case True
    have "- a mod 1000000 = - a - (- a div 1000000) * 1000000"
      by (simp add: minus_div_mult_eq_mod)
    then show ?thesis
      using True pos_mod_bound [of 1000000 "- a"] pos_mod_sign [of 1000000 "- a"] by (simp add: trunc_div_def)
  next
    case False
    have "a mod 1000000 = a - (a div 1000000) * 1000000"
      by (simp add: minus_div_mult_eq_mod)
    then show ?thesis
      using False pos_mod_bound [of 1000000 a] pos_mod_sign [of 1000000 a] by (simp add: trunc_div_def)
  qed
  then show ?thesis by (simp add: sint_cut_ms)
qed

end
