(* ===== verification/Codecs.thy ===== *)
theory Codecs
  imports Codec_Core
begin

text \<open>
  The documents of the stores: \<open>codec_leases.hpp\<close>, \<open>codec_queues.hpp\<close>, \<open>codec_workflows.hpp\<close>,
  \<open>codec_feature_flags.hpp\<close>, \<open>codec_logs.hpp\<close> and \<open>codec_metrics.hpp\<close> of
  \<open>bindings/cpp/runtime\<close>, with the structs of \<open>lease.hpp\<close>, \<open>queue.hpp\<close>, \<open>workflow.hpp\<close>,
  \<open>feature_flag.hpp\<close>, \<open>log.hpp\<close> and \<open>metric.hpp\<close>. Each pair of functions is an
  interpretation of the locale \<open>codec\<close>.
\<close>

lemmas codec_core_simps = seconds_count_def seconds_from_def put_optional_string_def optional_string_def
  put_optional_timestamp_def optional_timestamp_def json_or_empty_def json_contains_iff om_find_emplace

section \<open>Leases\<close>

record lease_definition_id =
  ldi_name :: string
  ldi_version :: "64 word"

record lease_definition =
  ld_id :: lease_definition_id
  ld_resource_pattern :: string
  ld_ttl :: seconds
  ld_renew_every :: seconds
  ld_max_ttl :: "seconds option"
  ld_fencing_token :: bool

record lease_record =
  lr_definition_id :: lease_definition_id
  lr_resource :: string
  lr_holder :: "string option"
  lr_expires_at :: timestamp
  lr_fencing_token :: "64 word"

definition lease_definition_id_to_json :: "lease_definition_id \<Rightarrow> json result" where
  "lease_definition_id_to_json d =
     json_object_of [(''name'', JString (ldi_name d)), (''version'', JInt (ldi_version d))]"

definition lease_definition_id_from_json :: "json \<Rightarrow> lease_definition_id result" where
  "lease_definition_id_from_json j =
     andThen (at_string j ''name'') (\<lambda>n. andThen (at_int64 j ''version'') (\<lambda>v.
       Inr \<lparr>ldi_name = n, ldi_version = v\<rparr>))"

definition lease_definition_to_json :: "lease_definition \<Rightarrow> json result" where
  "lease_definition_to_json d =
     andThen (lease_definition_id_to_json (ld_id d)) (\<lambda>i.
       let obj = object_init
         [(''id'', i), (''resource_pattern'', JString (ld_resource_pattern d)),
          (''ttl_seconds'', JInt (seconds_count (ld_ttl d))),
          (''renew_every_seconds'', JInt (seconds_count (ld_renew_every d))),
          (''fencing_token'', JBool (ld_fencing_token d))] in
       Inr (JObject (case ld_max_ttl d of None \<Rightarrow> obj
          | Some t \<Rightarrow> om_emplace ''max_ttl_seconds'' (JInt (seconds_count t)) obj)))"

definition lease_definition_from_json :: "json \<Rightarrow> lease_definition result" where
  "lease_definition_from_json j =
     andThen (andThen (json_at j ''id'') lease_definition_id_from_json) (\<lambda>i.
     andThen (at_string j ''resource_pattern'') (\<lambda>p.
     andThen (at_seconds j ''ttl_seconds'') (\<lambda>ttl.
     andThen (at_seconds j ''renew_every_seconds'') (\<lambda>renew.
     andThen (case json_find j ''max_ttl_seconds'' of None \<Rightarrow> Inr None
       | Some v \<Rightarrow> andThen (seconds_from v) (\<lambda>s. Inr (Some s))) (\<lambda>max.
     andThen (at_bool j ''fencing_token'') (\<lambda>f.
       Inr \<lparr>ld_id = i, ld_resource_pattern = p, ld_ttl = ttl, ld_renew_every = renew, ld_max_ttl = max,
            ld_fencing_token = f\<rparr>))))))"

definition lease_record_to_json :: "lease_record \<Rightarrow> json result" where
  "lease_record_to_json l =
     andThen (lease_definition_id_to_json (lr_definition_id l)) (\<lambda>i.
       Inr (JObject (put_optional_string
         (object_init
           [(''definition_id'', i), (''resource'', JString (lr_resource l)),
            (''expires_at_ms'', JInt (timestamp_millis (lr_expires_at l))),
            (''fencing_token'', JInt (lr_fencing_token l))])
         ''holder'' (lr_holder l))))"

definition lease_record_from_json :: "json \<Rightarrow> lease_record result" where
  "lease_record_from_json j =
     andThen (andThen (json_at j ''definition_id'') lease_definition_id_from_json) (\<lambda>i.
     andThen (at_string j ''resource'') (\<lambda>r.
     andThen (optional_string j ''holder'') (\<lambda>h.
     andThen (andThen (json_at j ''expires_at_ms'') timestamp_from) (\<lambda>e.
     andThen (at_int64 j ''fencing_token'') (\<lambda>f.
       Inr \<lparr>lr_definition_id = i, lr_resource = r, lr_holder = h, lr_expires_at = e,
            lr_fencing_token = f\<rparr>)))))"

definition lease_record_norm :: "lease_record \<Rightarrow> lease_record" where
  "lease_record_norm l = l\<lparr>lr_expires_at := cut_ms (lr_expires_at l)\<rparr>"

interpretation lease_definition_id: codec lease_definition_id_to_json lease_definition_id_from_json
  "\<lambda>_. True" "\<lambda>x. x"
  by unfold_locales (auto simp: lease_definition_id_to_json_def lease_definition_id_from_json_def)

lemma lease_definition_id_roundtrip [simp]:
  "andThen (lease_definition_id_to_json d) lease_definition_id_from_json = Inr d"
  by (rule lease_definition_id.roundtrip) simp

interpretation lease_definition: codec lease_definition_to_json lease_definition_from_json
  "\<lambda>_. True" "\<lambda>x. x"
proof unfold_locales
  fix x :: lease_definition
  obtain i where i: "lease_definition_id_to_json (ld_id x) = Inr i"
      "lease_definition_id_from_json i = Inr (ld_id x)"
    by (rule lease_definition_id.enc_cases) simp_all
  show "\<exists>j. lease_definition_to_json x = Inr j \<and> is_object j"
    by (simp add: lease_definition_to_json_def i Let_def)
  show "lease_definition_from_json j = Inr x" if "lease_definition_to_json x = Inr j" for j
    using that i
    by (cases "ld_max_ttl x")
      (auto simp: lease_definition_to_json_def lease_definition_from_json_def codec_core_simps Let_def)
qed simp_all

interpretation lease_record: codec lease_record_to_json lease_record_from_json
  "\<lambda>_. True" lease_record_norm
proof unfold_locales
  fix x :: lease_record
  obtain i where i: "lease_definition_id_to_json (lr_definition_id x) = Inr i"
      "lease_definition_id_from_json i = Inr (lr_definition_id x)"
    by (rule lease_definition_id.enc_cases) simp_all
  show "\<exists>j. lease_record_to_json x = Inr j \<and> is_object j"
    by (simp add: lease_record_to_json_def i)
  show "lease_record_from_json j = Inr (lease_record_norm x)" if "lease_record_to_json x = Inr j" for j
    using that i
    by (cases "lr_holder x")
      (auto simp: lease_record_to_json_def lease_record_from_json_def lease_record_norm_def codec_core_simps)
qed (simp_all add: lease_record_norm_def)

section \<open>Queues\<close>

record queue_definition =
  qd_queue :: string
  qd_channel :: string
  qd_visibility_timeout :: seconds
  qd_max_attempts :: "32 word"
  qd_dead_letter_queue :: "string option"
  qd_metadata :: json

record queue_message =
  qm_message_id :: string
  qm_queue :: string
  qm_channel :: string
  qm_status :: string
  qm_attempts :: "64 word"
  qm_claimed_by :: "string option"
  qm_claim_expires_at :: "timestamp option"
  qm_payload :: json

text \<open>\<open>static_cast\<close> between \<open>uint32_t\<close> and \<open>int64_t\<close>: zero extension one way, truncation back.\<close>

definition u32_to_i64 :: "32 word \<Rightarrow> 64 word" where
  "u32_to_i64 w = ucast w"

definition i64_to_u32 :: "64 word \<Rightarrow> 32 word" where
  "i64_to_u32 w = ucast w"

lemma u32_roundtrip [simp]: "i64_to_u32 (u32_to_i64 w) = w"
  by (rule bit_word_eqI) (auto simp: u32_to_i64_def i64_to_u32_def bit_unsigned_iff dest: bit_imp_le_length)

lemma u32_le_of_nat: "n < 2 ^ 64 \<Longrightarrow> u32_to_i64 w \<le> of_nat n \<longleftrightarrow> unat w \<le> n"
  using unsigned_less [of w, where ?'a = nat]
  by (simp add: word_le_nat_alt u32_to_i64_def unsigned_ucast_eq unsigned_of_nat take_bit_nat_eq_self)

definition queue_definition_to_json :: "queue_definition \<Rightarrow> json result" where
  "queue_definition_to_json d =
     Inr (JObject (put_optional_string
       (object_init
         [(''queue'', JString (qd_queue d)), (''channel'', JString (qd_channel d)),
          (''visibility_timeout_seconds'', JInt (seconds_count (qd_visibility_timeout d))),
          (''max_attempts'', JInt (u32_to_i64 (qd_max_attempts d))),
          (''metadata'', qd_metadata d)])
       ''dead_letter_queue'' (qd_dead_letter_queue d)))"

definition queue_definition_from_json :: "json \<Rightarrow> queue_definition result" where
  "queue_definition_from_json j =
     andThen (at_string j ''queue'') (\<lambda>q.
     andThen (at_string j ''channel'') (\<lambda>c.
     andThen (at_seconds j ''visibility_timeout_seconds'') (\<lambda>v.
     andThen (at_int64 j ''max_attempts'') (\<lambda>m.
     andThen (optional_string j ''dead_letter_queue'') (\<lambda>dl.
     andThen (json_or_empty j ''metadata'') (\<lambda>md.
       Inr \<lparr>qd_queue = q, qd_channel = c, qd_visibility_timeout = v, qd_max_attempts = i64_to_u32 m,
            qd_dead_letter_queue = dl, qd_metadata = md\<rparr>))))))"

definition queue_message_to_json :: "queue_message \<Rightarrow> json result" where
  "queue_message_to_json m =
     Inr (JObject (put_optional_timestamp
       (put_optional_string
         (object_init
           [(''message_id'', JString (qm_message_id m)), (''queue'', JString (qm_queue m)),
            (''channel'', JString (qm_channel m)), (''status'', JString (qm_status m)),
            (''attempts'', JInt (qm_attempts m)), (''payload'', qm_payload m)])
         ''claimed_by'' (qm_claimed_by m))
       ''claim_expires_at_ms'' (qm_claim_expires_at m)))"

definition queue_message_from_json :: "json \<Rightarrow> queue_message result" where
  "queue_message_from_json j =
     andThen (at_string j ''message_id'') (\<lambda>i.
     andThen (at_string j ''queue'') (\<lambda>q.
     andThen (at_string j ''channel'') (\<lambda>c.
     andThen (at_string j ''status'') (\<lambda>st.
     andThen (at_int64 j ''attempts'') (\<lambda>a.
     andThen (optional_string j ''claimed_by'') (\<lambda>cb.
     andThen (optional_timestamp j ''claim_expires_at_ms'') (\<lambda>ce.
     andThen (json_or_empty j ''payload'') (\<lambda>p.
       Inr \<lparr>qm_message_id = i, qm_queue = q, qm_channel = c, qm_status = st, qm_attempts = a,
            qm_claimed_by = cb, qm_claim_expires_at = ce, qm_payload = p\<rparr>))))))))"

definition queue_message_norm :: "queue_message \<Rightarrow> queue_message" where
  "queue_message_norm m = m\<lparr>qm_claim_expires_at := map_option cut_ms (qm_claim_expires_at m)\<rparr>"

interpretation queue_definition: codec queue_definition_to_json queue_definition_from_json
  "\<lambda>_. True" "\<lambda>x. x"
proof unfold_locales
  fix x :: queue_definition and j
  show "queue_definition_from_json j = Inr x" if "queue_definition_to_json x = Inr j"
    using that by (cases "qd_dead_letter_queue x")
      (auto simp: queue_definition_to_json_def queue_definition_from_json_def codec_core_simps)
qed (simp_all add: queue_definition_to_json_def)

interpretation queue_message: codec queue_message_to_json queue_message_from_json
  "\<lambda>_. True" queue_message_norm
proof unfold_locales
  fix x :: queue_message and j
  show "queue_message_from_json j = Inr (queue_message_norm x)" if "queue_message_to_json x = Inr j"
    using that by (cases "qm_claimed_by x"; cases "qm_claim_expires_at x")
      (auto simp: queue_message_to_json_def queue_message_from_json_def queue_message_norm_def codec_core_simps)
qed (simp_all add: queue_message_to_json_def queue_message_norm_def option.map_comp comp_def)

section \<open>Workflows\<close>

record workflow_step_definition =
  ws_name :: string
  ws_expected_execution_time :: seconds
  ws_max_retries :: "32 word"

record workflow_definition =
  wd_workflow_name :: string
  wd_workflow_version :: "64 word"
  wd_start_step :: string
  wd_expected_execution_time :: seconds
  wd_singleton :: bool
  wd_steps :: "workflow_step_definition list"
  wd_metadata :: json

record workflow_execution =
  we_workflow_execution_id :: string
  we_workflow_name :: string
  we_workflow_version :: "64 word"
  we_current_step :: string
  we_status :: string
  we_attempt :: "64 word"
  we_claimed_by :: "string option"
  we_claim_token :: "string option"
  we_claim_expires_at :: "timestamp option"
  we_state :: json

record workflow_heartbeat =
  wh_workflow_execution_id :: string
  wh_claim_token :: string
  wh_worker :: string
  wh_current_step :: string
  wh_claim_expires_at :: timestamp

definition workflow_step_definition_to_json :: "workflow_step_definition \<Rightarrow> json result" where
  "workflow_step_definition_to_json d =
     json_object_of
       [(''name'', JString (ws_name d)),
        (''expected_execution_time_seconds'', JInt (seconds_count (ws_expected_execution_time d))),
        (''max_retries'', JInt (u32_to_i64 (ws_max_retries d)))]"

definition workflow_step_definition_from_json :: "json \<Rightarrow> workflow_step_definition result" where
  "workflow_step_definition_from_json j =
     andThen (at_string j ''name'') (\<lambda>n.
     andThen (at_seconds j ''expected_execution_time_seconds'') (\<lambda>e.
     andThen (at_int64 j ''max_retries'') (\<lambda>m.
       Inr \<lparr>ws_name = n, ws_expected_execution_time = e, ws_max_retries = i64_to_u32 m\<rparr>)))"

definition workflow_definition_to_json :: "workflow_definition \<Rightarrow> json result" where
  "workflow_definition_to_json d =
     andThen (map_result workflow_step_definition_to_json (wd_steps d)) (\<lambda>steps.
     json_object_of
       [(''workflow_name'', JString (wd_workflow_name d)), (''workflow_version'', JInt (wd_workflow_version d)),
        (''start_step'', JString (wd_start_step d)),
        (''expected_execution_time_seconds'', JInt (seconds_count (wd_expected_execution_time d))),
        (''singleton'', JBool (wd_singleton d)), (''steps'', JArray steps), (''metadata'', wd_metadata d)])"

definition workflow_definition_from_json :: "json \<Rightarrow> workflow_definition result" where
  "workflow_definition_from_json j =
     andThen (at_string j ''workflow_name'') (\<lambda>n.
     andThen (at_int64 j ''workflow_version'') (\<lambda>v.
     andThen (at_string j ''start_step'') (\<lambda>st.
     andThen (at_seconds j ''expected_execution_time_seconds'') (\<lambda>e.
     andThen (at_bool j ''singleton'') (\<lambda>sg.
     andThen (andThen (json_at j ''steps'') as_array) (\<lambda>js.
     andThen (map_result workflow_step_definition_from_json js) (\<lambda>steps.
     andThen (json_or_empty j ''metadata'') (\<lambda>md.
       Inr \<lparr>wd_workflow_name = n, wd_workflow_version = v, wd_start_step = st, wd_expected_execution_time = e,
            wd_singleton = sg, wd_steps = steps, wd_metadata = md\<rparr>))))))))"

definition workflow_execution_to_json :: "workflow_execution \<Rightarrow> json result" where
  "workflow_execution_to_json x =
     Inr (JObject (put_optional_timestamp
       (put_optional_string
         (put_optional_string
           (object_init
             [(''workflow_execution_id'', JString (we_workflow_execution_id x)),
              (''workflow_name'', JString (we_workflow_name x)),
              (''workflow_version'', JInt (we_workflow_version x)),
              (''current_step'', JString (we_current_step x)), (''status'', JString (we_status x)),
              (''attempt'', JInt (we_attempt x)), (''state'', we_state x)])
           ''claimed_by'' (we_claimed_by x))
         ''claim_token'' (we_claim_token x))
       ''claim_expires_at_ms'' (we_claim_expires_at x)))"

definition workflow_execution_from_json :: "json \<Rightarrow> workflow_execution result" where
  "workflow_execution_from_json j =
     andThen (at_string j ''workflow_execution_id'') (\<lambda>i.
     andThen (at_string j ''workflow_name'') (\<lambda>n.
     andThen (at_int64 j ''workflow_version'') (\<lambda>v.
     andThen (at_string j ''current_step'') (\<lambda>cs.
     andThen (at_string j ''status'') (\<lambda>st.
     andThen (at_int64 j ''attempt'') (\<lambda>a.
     andThen (optional_string j ''claimed_by'') (\<lambda>cb.
     andThen (optional_string j ''claim_token'') (\<lambda>ct.
     andThen (optional_timestamp j ''claim_expires_at_ms'') (\<lambda>ce.
     andThen (json_or_empty j ''state'') (\<lambda>s.
       Inr \<lparr>we_workflow_execution_id = i, we_workflow_name = n, we_workflow_version = v, we_current_step = cs,
            we_status = st, we_attempt = a, we_claimed_by = cb, we_claim_token = ct, we_claim_expires_at = ce,
            we_state = s\<rparr>))))))))))"

definition workflow_heartbeat_to_json :: "workflow_heartbeat \<Rightarrow> json result" where
  "workflow_heartbeat_to_json h =
     json_object_of
       [(''workflow_execution_id'', JString (wh_workflow_execution_id h)),
        (''claim_token'', JString (wh_claim_token h)), (''worker'', JString (wh_worker h)),
        (''current_step'', JString (wh_current_step h)),
        (''claim_expires_at_ms'', JInt (timestamp_millis (wh_claim_expires_at h)))]"

definition workflow_heartbeat_from_json :: "json \<Rightarrow> workflow_heartbeat result" where
  "workflow_heartbeat_from_json j =
     andThen (at_string j ''workflow_execution_id'') (\<lambda>i.
     andThen (at_string j ''claim_token'') (\<lambda>ct.
     andThen (at_string j ''worker'') (\<lambda>w.
     andThen (at_string j ''current_step'') (\<lambda>cs.
     andThen (andThen (json_at j ''claim_expires_at_ms'') timestamp_from) (\<lambda>ce.
       Inr \<lparr>wh_workflow_execution_id = i, wh_claim_token = ct, wh_worker = w, wh_current_step = cs,
            wh_claim_expires_at = ce\<rparr>)))))"

definition workflow_execution_norm :: "workflow_execution \<Rightarrow> workflow_execution" where
  "workflow_execution_norm x = x\<lparr>we_claim_expires_at := map_option cut_ms (we_claim_expires_at x)\<rparr>"

definition workflow_heartbeat_norm :: "workflow_heartbeat \<Rightarrow> workflow_heartbeat" where
  "workflow_heartbeat_norm h = h\<lparr>wh_claim_expires_at := cut_ms (wh_claim_expires_at h)\<rparr>"

interpretation workflow_step_definition: codec workflow_step_definition_to_json workflow_step_definition_from_json
  "\<lambda>_. True" "\<lambda>x. x"
  by unfold_locales
    (auto simp: workflow_step_definition_to_json_def workflow_step_definition_from_json_def codec_core_simps)

lemma workflow_steps_roundtrip:
  "\<exists>js. map_result workflow_step_definition_to_json steps = Inr js \<and>
        map_result workflow_step_definition_from_json js = Inr steps"
proof (induction steps)
  case (Cons s steps)
  obtain j where "workflow_step_definition_to_json s = Inr j" "workflow_step_definition_from_json j = Inr s"
    by (rule workflow_step_definition.enc_cases) simp_all
  then show ?case using Cons by force
qed simp

interpretation workflow_definition: codec workflow_definition_to_json workflow_definition_from_json
  "\<lambda>_. True" "\<lambda>x. x"
proof unfold_locales
  fix x :: workflow_definition
  obtain js where js: "map_result workflow_step_definition_to_json (wd_steps x) = Inr js"
      "map_result workflow_step_definition_from_json js = Inr (wd_steps x)"
    using workflow_steps_roundtrip by blast
  show "\<exists>j. workflow_definition_to_json x = Inr j \<and> is_object j"
    by (simp add: workflow_definition_to_json_def js)
  show "workflow_definition_from_json j = Inr x" if "workflow_definition_to_json x = Inr j" for j
    using that js
    by (auto simp: workflow_definition_to_json_def workflow_definition_from_json_def codec_core_simps)
qed simp_all

interpretation workflow_execution: codec workflow_execution_to_json workflow_execution_from_json
  "\<lambda>_. True" workflow_execution_norm
proof unfold_locales
  fix x :: workflow_execution and j
  show "workflow_execution_from_json j = Inr (workflow_execution_norm x)" if "workflow_execution_to_json x = Inr j"
    using that by (cases "we_claimed_by x"; cases "we_claim_token x"; cases "we_claim_expires_at x")
      (auto simp: workflow_execution_to_json_def workflow_execution_from_json_def workflow_execution_norm_def
        codec_core_simps)
qed (simp_all add: workflow_execution_to_json_def workflow_execution_norm_def option.map_comp comp_def)

interpretation workflow_heartbeat: codec workflow_heartbeat_to_json workflow_heartbeat_from_json
  "\<lambda>_. True" workflow_heartbeat_norm
  by unfold_locales
    (auto simp: workflow_heartbeat_to_json_def workflow_heartbeat_from_json_def workflow_heartbeat_norm_def)

section \<open>Feature flags\<close>

datatype feature_flag_type = FFT_Bool | FFT_String | FFT_Integer | FFT_Decimal

datatype feature_flag_scope = FFS_System | FFS_Tenant | FFS_User | FFS_Entity

text \<open>A \<open>FeatureFlagValue\<close> is built by its static functions only, so the type it records is the
  alternative of its variant.\<close>

datatype feature_flag_value = FV_Bool bool | FV_String string | FV_Integer "64 word" | FV_Decimal dbl

fun ffv_type :: "feature_flag_value \<Rightarrow> feature_flag_type" where
  "ffv_type (FV_Bool _) = FFT_Bool"
| "ffv_type (FV_String _) = FFT_String"
| "ffv_type (FV_Integer _) = FFT_Integer"
| "ffv_type (FV_Decimal _) = FFT_Decimal"

record feature_flag_definition =
  fl_name :: string
  fl_type :: feature_flag_type
  fl_default_value :: feature_flag_value
  fl_scope :: feature_flag_scope
  fl_owner :: "string option"
  fl_description :: "string option"
  fl_expires :: "string option"

fun feature_flag_value_to_json :: "feature_flag_value \<Rightarrow> json result" where
  "feature_flag_value_to_json (FV_Bool b) = json_object_of [(''type'', JString ''bool''), (''value'', JBool b)]"
| "feature_flag_value_to_json (FV_String t) = json_object_of [(''type'', JString ''string''), (''value'', JString t)]"
| "feature_flag_value_to_json (FV_Integer i) = json_object_of [(''type'', JString ''integer''), (''value'', JInt i)]"
| "feature_flag_value_to_json (FV_Decimal d) =
     andThen (json_of_double d) (\<lambda>j. json_object_of [(''type'', JString ''decimal''), (''value'', j)])"

definition feature_flag_value_from_json :: "json \<Rightarrow> feature_flag_value result" where
  "feature_flag_value_from_json j =
     andThen (at_string j ''type'') (\<lambda>t.
       if t = ''bool'' then andThen (at_bool j ''value'') (\<lambda>b. Inr (FV_Bool b))
       else if t = ''string'' then andThen (at_string j ''value'') (\<lambda>s. Inr (FV_String s))
       else if t = ''integer'' then andThen (at_int64 j ''value'') (\<lambda>i. Inr (FV_Integer i))
       else if t = ''decimal'' then andThen (andThen (json_at j ''value'') as_double) (\<lambda>d. Inr (FV_Decimal d))
       else Inl (BackendError (''unknown feature flag value type: '' @ t)))"

fun feature_flag_type_name :: "feature_flag_type \<Rightarrow> string" where
  "feature_flag_type_name FFT_Bool = ''bool''"
| "feature_flag_type_name FFT_String = ''string''"
| "feature_flag_type_name FFT_Integer = ''integer''"
| "feature_flag_type_name FFT_Decimal = ''decimal''"

definition feature_flag_type_from_string :: "string \<Rightarrow> feature_flag_type result" where
  "feature_flag_type_from_string v =
     (if v = ''bool'' then Inr FFT_Bool
      else if v = ''string'' then Inr FFT_String
      else if v = ''integer'' then Inr FFT_Integer
      else if v = ''decimal'' then Inr FFT_Decimal
      else Inl (BackendError (''unknown feature flag type: '' @ v)))"

fun feature_flag_scope_name :: "feature_flag_scope \<Rightarrow> string" where
  "feature_flag_scope_name FFS_System = ''system''"
| "feature_flag_scope_name FFS_Tenant = ''tenant''"
| "feature_flag_scope_name FFS_User = ''user''"
| "feature_flag_scope_name FFS_Entity = ''entity''"

definition feature_flag_scope_from_string :: "string \<Rightarrow> feature_flag_scope result" where
  "feature_flag_scope_from_string v =
     (if v = ''system'' then Inr FFS_System
      else if v = ''tenant'' then Inr FFS_Tenant
      else if v = ''user'' then Inr FFS_User
      else if v = ''entity'' then Inr FFS_Entity
      else Inl (BackendError (''unknown feature flag scope: '' @ v)))"

definition feature_flag_definition_to_json :: "feature_flag_definition \<Rightarrow> json result" where
  "feature_flag_definition_to_json d =
     andThen (feature_flag_value_to_json (fl_default_value d)) (\<lambda>v.
       Inr (JObject (put_optional_string
         (put_optional_string
           (put_optional_string
             (object_init
               [(''name'', JString (fl_name d)), (''type'', JString (feature_flag_type_name (fl_type d))),
                (''default_value'', v), (''scope'', JString (feature_flag_scope_name (fl_scope d)))])
             ''owner'' (fl_owner d))
           ''description'' (fl_description d))
         ''expires'' (fl_expires d))))"

definition feature_flag_definition_from_json :: "json \<Rightarrow> feature_flag_definition result" where
  "feature_flag_definition_from_json j =
     andThen (at_string j ''name'') (\<lambda>n.
     andThen (andThen (at_string j ''type'') feature_flag_type_from_string) (\<lambda>t.
     andThen (andThen (json_at j ''default_value'') feature_flag_value_from_json) (\<lambda>v.
     andThen (andThen (at_string j ''scope'') feature_flag_scope_from_string) (\<lambda>s.
     andThen (optional_string j ''owner'') (\<lambda>ow.
     andThen (optional_string j ''description'') (\<lambda>de.
     andThen (optional_string j ''expires'') (\<lambda>ex.
       Inr \<lparr>fl_name = n, fl_type = t, fl_default_value = v, fl_scope = s, fl_owner = ow, fl_description = de,
            fl_expires = ex\<rparr>)))))))"

text \<open>The values that can be stored: a decimal must be finite.\<close>

fun ffv_finite :: "feature_flag_value \<Rightarrow> bool" where
  "ffv_finite (FV_Decimal d) = is_finite d"
| "ffv_finite _ = True"

lemma feature_flag_type_roundtrip [simp]: "feature_flag_type_from_string (feature_flag_type_name t) = Inr t"
  by (cases t) (simp_all add: feature_flag_type_from_string_def)

lemma feature_flag_scope_roundtrip [simp]: "feature_flag_scope_from_string (feature_flag_scope_name t) = Inr t"
  by (cases t) (simp_all add: feature_flag_scope_from_string_def)

interpretation feature_flag_value: codec feature_flag_value_to_json feature_flag_value_from_json
  ffv_finite "\<lambda>x. x"
proof unfold_locales
  fix x :: feature_flag_value and j
  assume "ffv_finite x"
  then show "\<exists>j. feature_flag_value_to_json x = Inr j \<and> is_object j"
    by (cases x) (simp_all add: json_of_double_def)
  assume "ffv_finite x" "feature_flag_value_to_json x = Inr j"
  then show "feature_flag_value_from_json j = Inr x"
    by (cases x) (auto simp: json_of_double_def feature_flag_value_from_json_def)
qed simp_all

interpretation feature_flag_definition: codec feature_flag_definition_to_json feature_flag_definition_from_json
  "\<lambda>d. ffv_finite (fl_default_value d)" "\<lambda>x. x"
proof unfold_locales
  fix x :: feature_flag_definition
  assume "ffv_finite (fl_default_value x)"
  then obtain i where i: "feature_flag_value_to_json (fl_default_value x) = Inr i"
      "feature_flag_value_from_json i = Inr (fl_default_value x)"
    by (rule feature_flag_value.enc_cases)
  show "\<exists>j. feature_flag_definition_to_json x = Inr j \<and> is_object j"
    by (simp add: feature_flag_definition_to_json_def i)
  show "feature_flag_definition_from_json j = Inr x" if "feature_flag_definition_to_json x = Inr j" for j
    using that i by (cases "fl_owner x"; cases "fl_description x"; cases "fl_expires x")
      (auto simp: feature_flag_definition_to_json_def feature_flag_definition_from_json_def codec_core_simps)
qed simp_all

section \<open>Logs\<close>

datatype log_level = LL_Debug | LL_Info | LL_Warn | LL_Error

record log_event =
  le_name :: string
  le_level :: log_level
  le_event_name :: string
  le_fields :: json

record log_definition =
  lo_name :: string
  lo_level :: log_level
  lo_event_name :: string
  lo_fields :: "field_descriptor list"

fun log_level_name :: "log_level \<Rightarrow> string" where
  "log_level_name LL_Debug = ''debug''"
| "log_level_name LL_Info = ''info''"
| "log_level_name LL_Warn = ''warn''"
| "log_level_name LL_Error = ''error''"

definition log_level_from_string :: "string \<Rightarrow> log_level result" where
  "log_level_from_string v =
     (if v = ''debug'' then Inr LL_Debug
      else if v = ''info'' then Inr LL_Info
      else if v = ''warn'' then Inr LL_Warn
      else if v = ''error'' then Inr LL_Error
      else Inl (BackendError (''unknown log level: '' @ v)))"

definition log_definition_to_json :: "log_definition \<Rightarrow> json result" where
  "log_definition_to_json d =
     json_object_of
       [(''name'', JString (lo_name d)), (''level'', JString (log_level_name (lo_level d))),
        (''event_name'', JString (lo_event_name d))]"

definition log_definition_from_json :: "json \<Rightarrow> log_definition result" where
  "log_definition_from_json j =
     andThen (at_string j ''name'') (\<lambda>n.
     andThen (andThen (at_string j ''level'') log_level_from_string) (\<lambda>l.
     andThen (at_string j ''event_name'') (\<lambda>e.
       Inr \<lparr>lo_name = n, lo_level = l, lo_event_name = e, lo_fields = []\<rparr>)))"

definition log_event_to_json :: "log_event \<Rightarrow> json result" where
  "log_event_to_json e =
     json_object_of
       [(''name'', JString (le_name e)), (''level'', JString (log_level_name (le_level e))),
        (''event_name'', JString (le_event_name e)), (''fields'', le_fields e)]"

definition log_event_from_json :: "json \<Rightarrow> log_event result" where
  "log_event_from_json j =
     andThen (at_string j ''name'') (\<lambda>n.
     andThen (andThen (at_string j ''level'') log_level_from_string) (\<lambda>l.
     andThen (at_string j ''event_name'') (\<lambda>e.
     andThen (json_or_empty j ''fields'') (\<lambda>f.
       Inr \<lparr>le_name = n, le_level = l, le_event_name = e, le_fields = f\<rparr>))))"

lemma log_level_roundtrip [simp]: "log_level_from_string (log_level_name l) = Inr l"
  by (cases l) (simp_all add: log_level_from_string_def)

definition log_definition_norm :: "log_definition \<Rightarrow> log_definition" where
  "log_definition_norm d = d\<lparr>lo_fields := []\<rparr>"

interpretation log_definition: codec log_definition_to_json log_definition_from_json
  "\<lambda>_. True" log_definition_norm
  by unfold_locales (auto simp: log_definition_to_json_def log_definition_from_json_def log_definition_norm_def)

interpretation log_event: codec log_event_to_json log_event_from_json "\<lambda>_. True" "\<lambda>x. x"
  by unfold_locales (auto simp: log_event_to_json_def log_event_from_json_def codec_core_simps)

section \<open>Metrics\<close>

datatype metric_kind = MK_Counter | MK_Gauge | MK_Histogram

record metric_sample =
  me_name :: string
  me_kind :: metric_kind
  me_backend_name :: string
  me_value :: dbl
  me_unit :: string
  me_labels :: json

record metric_definition =
  md_name :: string
  md_kind :: metric_kind
  md_backend_name :: string
  md_unit :: string
  md_labels :: "field_descriptor list"

fun metric_kind_name :: "metric_kind \<Rightarrow> string" where
  "metric_kind_name MK_Counter = ''counter''"
| "metric_kind_name MK_Gauge = ''gauge''"
| "metric_kind_name MK_Histogram = ''histogram''"

definition metric_kind_from_string :: "string \<Rightarrow> metric_kind result" where
  "metric_kind_from_string v =
     (if v = ''counter'' then Inr MK_Counter
      else if v = ''gauge'' then Inr MK_Gauge
      else if v = ''histogram'' then Inr MK_Histogram
      else Inl (BackendError (''unknown metric kind: '' @ v)))"

definition metric_definition_to_json :: "metric_definition \<Rightarrow> json result" where
  "metric_definition_to_json d =
     json_object_of
       [(''name'', JString (md_name d)), (''kind'', JString (metric_kind_name (md_kind d))),
        (''backend_name'', JString (md_backend_name d)), (''unit'', JString (md_unit d))]"

definition metric_definition_from_json :: "json \<Rightarrow> metric_definition result" where
  "metric_definition_from_json j =
     andThen (at_string j ''name'') (\<lambda>n.
     andThen (andThen (at_string j ''kind'') metric_kind_from_string) (\<lambda>k.
     andThen (at_string j ''backend_name'') (\<lambda>b.
     andThen (at_string j ''unit'') (\<lambda>u.
       Inr \<lparr>md_name = n, md_kind = k, md_backend_name = b, md_unit = u, md_labels = []\<rparr>))))"

definition metric_sample_to_json :: "metric_sample \<Rightarrow> json result" where
  "metric_sample_to_json s =
     andThen (json_of_double (me_value s)) (\<lambda>v.
     json_object_of
       [(''name'', JString (me_name s)), (''kind'', JString (metric_kind_name (me_kind s))),
        (''backend_name'', JString (me_backend_name s)), (''value'', v), (''unit'', JString (me_unit s)),
        (''labels'', me_labels s)])"

definition metric_sample_from_json :: "json \<Rightarrow> metric_sample result" where
  "metric_sample_from_json j =
     andThen (at_string j ''name'') (\<lambda>n.
     andThen (andThen (at_string j ''kind'') metric_kind_from_string) (\<lambda>k.
     andThen (at_string j ''backend_name'') (\<lambda>b.
     andThen (andThen (json_at j ''value'') as_double) (\<lambda>v.
     andThen (at_string j ''unit'') (\<lambda>u.
     andThen (json_or_empty j ''labels'') (\<lambda>l.
       Inr \<lparr>me_name = n, me_kind = k, me_backend_name = b, me_value = v, me_unit = u, me_labels = l\<rparr>))))))"

lemma metric_kind_roundtrip [simp]: "metric_kind_from_string (metric_kind_name k) = Inr k"
  by (cases k) (simp_all add: metric_kind_from_string_def)

definition metric_definition_norm :: "metric_definition \<Rightarrow> metric_definition" where
  "metric_definition_norm d = d\<lparr>md_labels := []\<rparr>"

interpretation metric_definition: codec metric_definition_to_json metric_definition_from_json
  "\<lambda>_. True" metric_definition_norm
  by unfold_locales
    (auto simp: metric_definition_to_json_def metric_definition_from_json_def metric_definition_norm_def)

interpretation metric_sample: codec metric_sample_to_json metric_sample_from_json
  "\<lambda>s. is_finite (me_value s)" "\<lambda>x. x"
  by unfold_locales
    (auto simp: metric_sample_to_json_def metric_sample_from_json_def json_of_double_def codec_core_simps)

section \<open>Properties\<close>

text \<open>C24: the documents of leases, queues and workflows decode to what was encoded. Encoding never
  fails; decoding gives back the same value, each timestamp cut to the millisecond towards the
  epoch, which moves it by less than a millisecond.\<close>

theorem coordination_documents_roundtrip:
  "andThen (lease_definition_to_json ld) lease_definition_from_json = Inr ld \<and>
   andThen (lease_record_to_json lr) lease_record_from_json =
     Inr (lr\<lparr>lr_expires_at := cut_ms (lr_expires_at lr)\<rparr>) \<and>
   andThen (queue_definition_to_json qd) queue_definition_from_json = Inr qd \<and>
   andThen (queue_message_to_json qm) queue_message_from_json =
     Inr (qm\<lparr>qm_claim_expires_at := map_option cut_ms (qm_claim_expires_at qm)\<rparr>) \<and>
   andThen (workflow_definition_to_json wd) workflow_definition_from_json = Inr wd \<and>
   andThen (workflow_execution_to_json we) workflow_execution_from_json =
     Inr (we\<lparr>we_claim_expires_at := map_option cut_ms (we_claim_expires_at we)\<rparr>) \<and>
   andThen (workflow_heartbeat_to_json wh) workflow_heartbeat_from_json =
     Inr (wh\<lparr>wh_claim_expires_at := cut_ms (wh_claim_expires_at wh)\<rparr>) \<and>
   \<bar>sint t - sint (cut_ms t)\<bar> < 1000000"
  using lease_record.roundtrip [of lr] queue_message.roundtrip [of qm] workflow_execution.roundtrip [of we]
    workflow_heartbeat.roundtrip [of wh]
  by (simp add: lease_definition.roundtrip queue_definition.roundtrip workflow_definition.roundtrip
      lease_record_norm_def queue_message_norm_def workflow_execution_norm_def workflow_heartbeat_norm_def
      cut_ms_near)

text \<open>the documents of feature flags, log events and metric samples decode to what was encoded,
  for finite numbers; a log or metric definition comes back without its field or label list,
  which the document does not hold.\<close>

theorem observability_documents_roundtrip:
  assumes "ffv_finite (fl_default_value fl)" and "is_finite (me_value me)"
  shows "andThen (feature_flag_definition_to_json fl) feature_flag_definition_from_json = Inr fl \<and>
    andThen (log_definition_to_json lo) log_definition_from_json = Inr (lo\<lparr>lo_fields := []\<rparr>) \<and>
    andThen (log_event_to_json le) log_event_from_json = Inr le \<and>
    andThen (metric_definition_to_json md) metric_definition_from_json = Inr (md\<lparr>md_labels := []\<rparr>) \<and>
    andThen (metric_sample_to_json me) metric_sample_from_json = Inr me"
  using feature_flag_definition.roundtrip [of fl] metric_sample.roundtrip [of me] log_definition.roundtrip [of lo]
    metric_definition.roundtrip [of md] assms
  by (simp add: log_event.roundtrip log_definition_norm_def metric_definition_norm_def)

theorem observability_documents_roundtrip_witness:
  "andThen (feature_flag_definition_to_json
      \<lparr>fl_name = ''f'', fl_type = FFT_Decimal, fl_default_value = FV_Decimal (DFin False 1 0), fl_scope = FFS_Tenant,
       fl_owner = Some ''team'', fl_description = None, fl_expires = None\<rparr>) feature_flag_definition_from_json =
   Inr \<lparr>fl_name = ''f'', fl_type = FFT_Decimal, fl_default_value = FV_Decimal (DFin False 1 0), fl_scope = FFS_Tenant,
       fl_owner = Some ''team'', fl_description = None, fl_expires = None\<rparr>"
  using observability_documents_roundtrip
    [of "\<lparr>fl_name = ''f'', fl_type = FFT_Decimal, fl_default_value = FV_Decimal (DFin False 1 0), fl_scope = FFS_Tenant,
       fl_owner = Some ''team'', fl_description = None, fl_expires = None\<rparr>"
      "\<lparr>me_name = ''m'', me_kind = MK_Gauge, me_backend_name = ''b'', me_value = DFin False 1 0, me_unit = ''s'',
       me_labels = JNull\<rparr>"]
  by simp

end
