(* ===== verification/Schema.thy ===== *)
theory Schema
  imports Backend
begin

text \<open>
  \<open>bindings/cpp/schema_compatibility.hpp\<close>: the comparison of the descriptor a collection is
  registered with against the one requested, and the exception an incompatible upgrade raises.
  The lemmas say which upgrades pass (\<open>upgrade_ok\<close>), that a collection's history of accepted
  upgrades composes, and that a refusal always carries a reason.
\<close>

section \<open>Results\<close>

datatype schema_status = Identical | Compatible | Incompatible

datatype schema_reason =
    SchemaVersionDecreased | SchemaVersionNotIncremented | CollectionNameChanged | KeyFieldsChanged
  | FieldRemoved | FieldRenamed | FieldTypeChanged | FieldTypeNameChanged | RequiredFieldAdded
  | FieldBecameRequired | IndexRemoved | IndexRenamed | IndexFieldsChanged
  | IndexUniquenessChanged | UniqueIndexAdded

record schema_difference =
  sd_reason :: schema_reason
  sd_path :: string
  sd_message :: string

record schema_result =
  sr_status :: schema_status
  sr_differences :: "schema_difference list"

definition compatible :: "schema_result \<Rightarrow> bool" where
  "compatible r = (sr_status r \<noteq> Incompatible)"

definition diff :: "schema_reason \<Rightarrow> string \<Rightarrow> string \<Rightarrow> schema_difference" where
  "diff reason path message = \<lparr>sd_reason = reason, sd_path = path, sd_message = message\<rparr>"

section \<open>Equality of descriptors\<close>

definition field_descriptors_equal :: "field_descriptor \<Rightarrow> field_descriptor \<Rightarrow> bool" where
  "field_descriptors_equal l r =
     (fd_name l = fd_name r \<and> fd_type l = fd_type r \<and> fd_type_name l = fd_type_name r \<and>
      fd_required l = fd_required r)"

definition index_descriptors_equal :: "index_descriptor \<Rightarrow> index_descriptor \<Rightarrow> bool" where
  "index_descriptors_equal l r =
     (id_name l = id_name r \<and> id_fields l = id_fields r \<and> id_unique l = id_unique r)"

definition collection_descriptors_equal :: "collection_descriptor \<Rightarrow> collection_descriptor \<Rightarrow> bool" where
  "collection_descriptors_equal l r =
     (if cd_name l \<noteq> cd_name r \<or> cd_key_fields l \<noteq> cd_key_fields r \<or>
         cd_schema_version l \<noteq> cd_schema_version r \<or>
         length (cd_fields l) \<noteq> length (cd_fields r) \<or>
         length (cd_indexes l) \<noteq> length (cd_indexes r)
      then False
      else if list_ex (\<lambda>(a, b). \<not> field_descriptors_equal a b) (zip (cd_fields l) (cd_fields r))
      then False
      else if list_ex (\<lambda>(a, b). \<not> index_descriptors_equal a b) (zip (cd_indexes l) (cd_indexes r))
      then False
      else True)"

definition find_field_descriptor :: "field_descriptor list \<Rightarrow> string \<Rightarrow> field_descriptor option" where
  "find_field_descriptor fs name = List.find (\<lambda>f. fd_name f = name) fs"

definition find_index_descriptor :: "index_descriptor list \<Rightarrow> string \<Rightarrow> index_descriptor option" where
  "find_index_descriptor is name = List.find (\<lambda>i. id_name i = name) is"

fun schema_compatibility_reason_name :: "schema_reason \<Rightarrow> string" where
  "schema_compatibility_reason_name SchemaVersionDecreased = ''SchemaVersionDecreased''"
| "schema_compatibility_reason_name SchemaVersionNotIncremented = ''SchemaVersionNotIncremented''"
| "schema_compatibility_reason_name CollectionNameChanged = ''CollectionNameChanged''"
| "schema_compatibility_reason_name KeyFieldsChanged = ''KeyFieldsChanged''"
| "schema_compatibility_reason_name FieldRemoved = ''FieldRemoved''"
| "schema_compatibility_reason_name FieldRenamed = ''FieldRenamed''"
| "schema_compatibility_reason_name FieldTypeChanged = ''FieldTypeChanged''"
| "schema_compatibility_reason_name FieldTypeNameChanged = ''FieldTypeNameChanged''"
| "schema_compatibility_reason_name RequiredFieldAdded = ''RequiredFieldAdded''"
| "schema_compatibility_reason_name FieldBecameRequired = ''FieldBecameRequired''"
| "schema_compatibility_reason_name IndexRemoved = ''IndexRemoved''"
| "schema_compatibility_reason_name IndexRenamed = ''IndexRenamed''"
| "schema_compatibility_reason_name IndexFieldsChanged = ''IndexFieldsChanged''"
| "schema_compatibility_reason_name IndexUniquenessChanged = ''IndexUniquenessChanged''"
| "schema_compatibility_reason_name UniqueIndexAdded = ''UniqueIndexAdded''"

section \<open>Comparison\<close>

text \<open>The sections of \<open>compare_collection_descriptors\<close>: each yields the differences it appends.\<close>

definition name_differences :: "collection_descriptor \<Rightarrow> collection_descriptor \<Rightarrow> schema_difference list" where
  "name_differences existing requested =
     (if cd_name existing \<noteq> cd_name requested
      then [diff CollectionNameChanged ''name''
              (''collection name changed from '' @ quoted (cd_name existing) @ '' to '' @
               quoted (cd_name requested))]
      else [])"

definition version_differences :: "collection_descriptor \<Rightarrow> collection_descriptor \<Rightarrow> schema_difference list" where
  "version_differences existing requested =
     (if cd_schema_version requested < cd_schema_version existing
      then [diff SchemaVersionDecreased ''schema_version'' ''schema_version decreased'']
      else if cd_schema_version requested = cd_schema_version existing
      then [diff SchemaVersionNotIncremented ''schema_version''
              ''schema_version must increase when descriptor shape changes'']
      else [])"

definition key_differences :: "collection_descriptor \<Rightarrow> collection_descriptor \<Rightarrow> schema_difference list" where
  "key_differences existing requested =
     (if cd_key_fields existing \<noteq> cd_key_fields requested
      then [diff KeyFieldsChanged ''key_fields'' ''key_fields changed'']
      else [])"

definition existing_field_differences :: "field_descriptor list \<Rightarrow> field_descriptor \<Rightarrow> schema_difference list" where
  "existing_field_differences requested f =
     (case find_field_descriptor requested (fd_name f) of
        None \<Rightarrow> [diff FieldRemoved (''fields.'' @ fd_name f)
                   (''field '' @ quoted (fd_name f) @ '' was removed'')]
      | Some g \<Rightarrow>
          (if fd_type f \<noteq> fd_type g
           then [diff FieldTypeChanged (''fields.'' @ fd_name f)
                   (''field '' @ quoted (fd_name f) @ '' type changed'')]
           else []) @
          (if fd_type_name f \<noteq> fd_type_name g
           then [diff FieldTypeNameChanged (''fields.'' @ fd_name f)
                   (''field '' @ quoted (fd_name f) @ '' type_name changed'')]
           else []) @
          (if \<not> fd_required f \<and> fd_required g
           then [diff FieldBecameRequired (''fields.'' @ fd_name f)
                   (''field '' @ quoted (fd_name f) @ '' became required'')]
           else []))"

definition requested_field_differences :: "field_descriptor list \<Rightarrow> field_descriptor \<Rightarrow> schema_difference list" where
  "requested_field_differences existing g =
     (if find_field_descriptor existing (fd_name g) = None \<and> fd_required g
      then [diff RequiredFieldAdded (''fields.'' @ fd_name g)
              (''required field '' @ quoted (fd_name g) @ '' was added'')]
      else [])"

definition existing_index_differences :: "index_descriptor list \<Rightarrow> index_descriptor \<Rightarrow> schema_difference list" where
  "existing_index_differences requested i =
     (case find_index_descriptor requested (id_name i) of
        None \<Rightarrow> [diff IndexRemoved (''indexes.'' @ id_name i)
                   (''index '' @ quoted (id_name i) @ '' was removed'')]
      | Some j \<Rightarrow>
          (if id_fields i \<noteq> id_fields j
           then [diff IndexFieldsChanged (''indexes.'' @ id_name i)
                   (''index '' @ quoted (id_name i) @ '' fields changed'')]
           else []) @
          (if id_unique i \<noteq> id_unique j
           then [diff IndexUniquenessChanged (''indexes.'' @ id_name i)
                   (''index '' @ quoted (id_name i) @ '' uniqueness changed'')]
           else []))"

definition requested_index_differences :: "index_descriptor list \<Rightarrow> index_descriptor \<Rightarrow> schema_difference list" where
  "requested_index_differences existing j =
     (if find_index_descriptor existing (id_name j) = None \<and> id_unique j
      then [diff UniqueIndexAdded (''indexes.'' @ id_name j)
              (''unique index '' @ quoted (id_name j) @ '' was added'')]
      else [])"

definition descriptor_differences :: "collection_descriptor \<Rightarrow> collection_descriptor \<Rightarrow> schema_difference list" where
  "descriptor_differences existing requested =
     name_differences existing requested @
     version_differences existing requested @
     key_differences existing requested @
     concat (map (existing_field_differences (cd_fields requested)) (cd_fields existing)) @
     concat (map (requested_field_differences (cd_fields existing)) (cd_fields requested)) @
     concat (map (existing_index_differences (cd_indexes requested)) (cd_indexes existing)) @
     concat (map (requested_index_differences (cd_indexes existing)) (cd_indexes requested))"

definition compare_collection_descriptors :: "collection_descriptor \<Rightarrow> collection_descriptor \<Rightarrow> schema_result" where
  "compare_collection_descriptors existing requested =
     (if collection_descriptors_equal existing requested
      then \<lparr>sr_status = Identical, sr_differences = []\<rparr>
      else let differences = descriptor_differences existing requested in
        if differences \<noteq> [] then \<lparr>sr_status = Incompatible, sr_differences = differences\<rparr>
        else \<lparr>sr_status = Compatible, sr_differences = []\<rparr>)"

fun append_differences :: "bool \<Rightarrow> schema_difference list \<Rightarrow> string \<Rightarrow> string" where
  "append_differences first [] message = message"
| "append_differences first (d # ds) message =
     append_differences False ds
       (message @ (if first then '': '' else ''; '') @
        schema_compatibility_reason_name (sd_reason d) @ '' at '' @ sd_path d @ '': '' @ sd_message d)"

definition upgrade_message :: "collection_descriptor \<Rightarrow> collection_descriptor \<Rightarrow> schema_difference list \<Rightarrow> string" where
  "upgrade_message existing requested differences =
     append_differences True differences
       (''collection '' @ quoted (cd_name requested) @ '' schema upgrade from version '' @
        to_string_u64 (cd_schema_version existing) @ '' to version '' @
        to_string_u64 (cd_schema_version requested) @ '' is incompatible'')"

definition validate_collection_descriptor_upgrade ::
    "collection_descriptor \<Rightarrow> collection_descriptor \<Rightarrow> unit result" where
  "validate_collection_descriptor_upgrade existing requested =
     (let result = compare_collection_descriptors existing requested in
      if compatible result then Inr ()
      else Inl (ConflictError SchemaConflict
                  (upgrade_message existing requested (sr_differences result))))"

section \<open>Which upgrades are accepted\<close>

lemma field_descriptors_equal_iff [simp]: "field_descriptors_equal l r \<longleftrightarrow> l = r"
  by (auto simp: field_descriptors_equal_def)

lemma index_descriptors_equal_iff [simp]: "index_descriptors_equal l r \<longleftrightarrow> l = r"
  by (auto simp: index_descriptors_equal_def)

lemma zip_all_equal:
  "length xs = length ys \<Longrightarrow> \<not> list_ex (\<lambda>(a, b). a \<noteq> b) (zip xs ys) \<longleftrightarrow> xs = ys"
  by (induction xs ys rule: list_induct2) auto

lemma collection_descriptors_equal_iff [simp]: "collection_descriptors_equal l r \<longleftrightarrow> l = r"
proof
  assume "collection_descriptors_equal l r"
  then show "l = r"
    by (auto simp: collection_descriptors_equal_def zip_all_equal split: if_splits)
next
  assume "l = r"
  then show "collection_descriptors_equal l r"
    by (simp add: collection_descriptors_equal_def zip_all_equal)
qed

lemma find_field_name: "find_field_descriptor fs n = Some f \<Longrightarrow> fd_name f = n \<and> f \<in> set fs"
  by (auto simp: find_field_descriptor_def find_Some_iff)

lemma find_index_name: "find_index_descriptor is n = Some i \<Longrightarrow> id_name i = n \<and> i \<in> set is"
  by (auto simp: find_index_descriptor_def find_Some_iff)

lemma find_field_None: "find_field_descriptor fs n = None \<longleftrightarrow> n \<notin> fd_name ` set fs"
  by (auto simp: find_field_descriptor_def find_None_iff)

lemma find_index_None: "find_index_descriptor is n = None \<longleftrightarrow> n \<notin> id_name ` set is"
  by (auto simp: find_index_descriptor_def find_None_iff)

lemmas difference_sections = name_differences_def version_differences_def key_differences_def
  existing_field_differences_def requested_field_differences_def existing_index_differences_def
  requested_index_differences_def

text \<open>The contract of an upgrade, over the two descriptors: what a client that was built against
  the old one may rely on.\<close>

definition field_kept :: "field_descriptor \<Rightarrow> field_descriptor \<Rightarrow> bool" where
  "field_kept f g \<longleftrightarrow>
     fd_type g = fd_type f \<and> fd_type_name g = fd_type_name f \<and> (fd_required g \<longrightarrow> fd_required f)"

definition index_kept :: "index_descriptor \<Rightarrow> index_descriptor \<Rightarrow> bool" where
  "index_kept i j \<longleftrightarrow> id_fields j = id_fields i \<and> id_unique j = id_unique i"

definition upgrade_ok :: "collection_descriptor \<Rightarrow> collection_descriptor \<Rightarrow> bool" where
  "upgrade_ok existing requested \<longleftrightarrow>
     cd_name requested = cd_name existing \<and>
     cd_key_fields requested = cd_key_fields existing \<and>
     cd_schema_version existing < cd_schema_version requested \<and>
     (\<forall>f \<in> set (cd_fields existing).
        \<exists>g. find_field_descriptor (cd_fields requested) (fd_name f) = Some g \<and> field_kept f g) \<and>
     (\<forall>g \<in> set (cd_fields requested).
        fd_required g \<longrightarrow> fd_name g \<in> fd_name ` set (cd_fields existing)) \<and>
     (\<forall>i \<in> set (cd_indexes existing).
        \<exists>j. find_index_descriptor (cd_indexes requested) (id_name i) = Some j \<and> index_kept i j) \<and>
     (\<forall>j \<in> set (cd_indexes requested).
        id_unique j \<longrightarrow> id_name j \<in> id_name ` set (cd_indexes existing))"

lemma upgrade_okD:
  assumes "upgrade_ok a b"
  shows "cd_name b = cd_name a"
    and "cd_key_fields b = cd_key_fields a"
    and "cd_schema_version a < cd_schema_version b"
    and "f \<in> set (cd_fields a) \<Longrightarrow>
      \<exists>g. find_field_descriptor (cd_fields b) (fd_name f) = Some g \<and> field_kept f g"
    and "g \<in> set (cd_fields b) \<Longrightarrow> fd_required g \<Longrightarrow> fd_name g \<in> fd_name ` set (cd_fields a)"
    and "i \<in> set (cd_indexes a) \<Longrightarrow>
      \<exists>j. find_index_descriptor (cd_indexes b) (id_name i) = Some j \<and> index_kept i j"
    and "j \<in> set (cd_indexes b) \<Longrightarrow> id_unique j \<Longrightarrow> id_name j \<in> id_name ` set (cd_indexes a)"
  using assms unfolding upgrade_ok_def by blast+

lemma existing_field_differences_Nil:
  "existing_field_differences gs f = [] \<longleftrightarrow>
   (\<exists>g. find_field_descriptor gs (fd_name f) = Some g \<and> field_kept f g)"
  by (auto simp: existing_field_differences_def field_kept_def split: option.splits)

lemma existing_index_differences_Nil:
  "existing_index_differences js i = [] \<longleftrightarrow>
   (\<exists>j. find_index_descriptor js (id_name i) = Some j \<and> index_kept i j)"
  by (auto simp: existing_index_differences_def index_kept_def split: option.splits)

lemma descriptor_differences_Nil:
  "descriptor_differences existing requested = [] \<longleftrightarrow> upgrade_ok existing requested"
proof -
  have "name_differences existing requested = [] \<longleftrightarrow> cd_name requested = cd_name existing"
    by (auto simp: name_differences_def)
  moreover have "version_differences existing requested = [] \<longleftrightarrow>
      cd_schema_version existing < cd_schema_version requested"
    by (auto simp: version_differences_def)
  moreover have "key_differences existing requested = [] \<longleftrightarrow>
      cd_key_fields requested = cd_key_fields existing"
    by (auto simp: key_differences_def)
  moreover have "requested_field_differences fs g = [] \<longleftrightarrow> (fd_required g \<longrightarrow> fd_name g \<in> fd_name ` set fs)"
    for fs g
    by (auto simp: requested_field_differences_def find_field_None)
  moreover have "requested_index_differences is j = [] \<longleftrightarrow> (id_unique j \<longrightarrow> id_name j \<in> id_name ` set is)"
    for "is" j
    by (auto simp: requested_index_differences_def find_index_None)
  ultimately show ?thesis
    unfolding descriptor_differences_def upgrade_ok_def
    by (simp add: existing_field_differences_Nil existing_index_differences_Nil conj_ac)
qed

lemma compare_status:
  "sr_status (compare_collection_descriptors existing requested) =
     (if existing = requested then Identical
      else if upgrade_ok existing requested then Compatible else Incompatible)"
  by (simp add: compare_collection_descriptors_def Let_def descriptor_differences_Nil)

lemma field_kept_trans: "field_kept f g \<Longrightarrow> field_kept g h \<Longrightarrow> field_kept f h"
  by (auto simp: field_kept_def)

lemma index_kept_trans: "index_kept i j \<Longrightarrow> index_kept j k \<Longrightarrow> index_kept i k"
  by (auto simp: index_kept_def)

text \<open>Descriptors whose fields and indexes have distinct names.\<close>

definition names_distinct :: "collection_descriptor \<Rightarrow> bool" where
  "names_distinct d \<longleftrightarrow>
     distinct (map fd_name (cd_fields d)) \<and> distinct (map id_name (cd_indexes d))"

text \<open>A descriptor without repeated names looks each of its own entries up as itself.\<close>

lemma find_field_self:
  "distinct (map fd_name fs) \<Longrightarrow> f \<in> set fs \<Longrightarrow> find_field_descriptor fs (fd_name f) = Some f"
  by (induction fs) (auto simp: find_field_descriptor_def image_iff)

lemma find_index_self:
  "distinct (map id_name is) \<Longrightarrow> i \<in> set is \<Longrightarrow> find_index_descriptor is (id_name i) = Some i"
  by (induction "is") (auto simp: find_index_descriptor_def image_iff)

lemma upgrade_ok_trans:
  assumes ab: "upgrade_ok a b" and bc: "upgrade_ok b c" and c: "names_distinct c"
  shows "upgrade_ok a c"
proof -
  have fields: "\<exists>h. find_field_descriptor (cd_fields c) (fd_name f) = Some h \<and> field_kept f h"
    if f: "f \<in> set (cd_fields a)" for f
  proof -
    obtain g where g: "find_field_descriptor (cd_fields b) (fd_name f) = Some g" "field_kept f g"
      using upgrade_okD(4) [OF ab f] by blast
    then obtain h where "find_field_descriptor (cd_fields c) (fd_name g) = Some h" "field_kept g h"
      using upgrade_okD(4) [OF bc] find_field_name by blast
    then show ?thesis
      using g find_field_name [OF g(1)] by (auto intro: field_kept_trans)
  qed
  have indexes: "\<exists>k. find_index_descriptor (cd_indexes c) (id_name i) = Some k \<and> index_kept i k"
    if i: "i \<in> set (cd_indexes a)" for i
  proof -
    obtain j where j: "find_index_descriptor (cd_indexes b) (id_name i) = Some j" "index_kept i j"
      using upgrade_okD(6) [OF ab i] by blast
    then obtain k where "find_index_descriptor (cd_indexes c) (id_name j) = Some k" "index_kept j k"
      using upgrade_okD(6) [OF bc] find_index_name by blast
    then show ?thesis
      using j find_index_name [OF j(1)] by (auto intro: index_kept_trans)
  qed
  have required: "fd_name h \<in> fd_name ` set (cd_fields a)"
    if h: "h \<in> set (cd_fields c)" "fd_required h" for h
  proof -
    obtain g where g: "g \<in> set (cd_fields b)" "fd_name g = fd_name h"
      using upgrade_okD(5) [OF bc h] by auto
    then have "field_kept g h"
      using upgrade_okD(4) [OF bc g(1)] c h(1) find_field_self [of "cd_fields c" h]
      by (auto simp: names_distinct_def)
    then show ?thesis
      using upgrade_okD(5) [OF ab g(1)] g h(2) by (simp add: field_kept_def)
  qed
  have unique: "id_name k \<in> id_name ` set (cd_indexes a)"
    if k: "k \<in> set (cd_indexes c)" "id_unique k" for k
  proof -
    obtain j where j: "j \<in> set (cd_indexes b)" "id_name j = id_name k"
      using upgrade_okD(7) [OF bc k] by auto
    then have "index_kept j k"
      using upgrade_okD(6) [OF bc j(1)] c k(1) find_index_self [of "cd_indexes c" k]
      by (auto simp: names_distinct_def)
    then show ?thesis
      using upgrade_okD(7) [OF ab j(1)] j k(2) by (simp add: index_kept_def)
  qed
  have "cd_schema_version a < cd_schema_version c"
    using upgrade_okD(3) [OF ab] upgrade_okD(3) [OF bc] by (rule less_trans)
  then show ?thesis
    using upgrade_okD(1,2) [OF ab] upgrade_okD(1,2) [OF bc] fields indexes required unique
    unfolding upgrade_ok_def by simp
qed

section \<open>Properties\<close>

text \<open>C23: the comparison accepts a descriptor exactly when it is the registered one or a later
  version of it that keeps the name, the key fields, every field with its type and every index
  with its fields and uniqueness, makes nothing required that was not, and adds neither a
  required field nor a unique index; it reports \<open>Identical\<close> for the equal descriptor only.\<close>

theorem compare_decides_upgrade:
  "sr_status (compare_collection_descriptors existing requested) =
     (if requested = existing then Identical
      else if upgrade_ok existing requested then Compatible else Incompatible)"
  by (auto simp: compare_status)

text \<open>Compatible upgrades compose. A client that skips versions sees a compatible step
  whenever each intermediate step was accepted, for descriptors without repeated names.\<close>

theorem compatible_upgrades_compose:
  assumes "sr_status (compare_collection_descriptors a b) = Compatible"
    and "sr_status (compare_collection_descriptors b c) = Compatible"
    and "names_distinct c"
  shows "sr_status (compare_collection_descriptors a c) = Compatible"
proof -
  have ab: "upgrade_ok a b" and bc: "upgrade_ok b c"
    using assms(1,2) by (auto simp: compare_status split: if_splits)
  have "a \<noteq> c"
    using ab bc by (auto simp: upgrade_ok_def)
  then show ?thesis
    using upgrade_ok_trans [OF ab bc assms(3)] by (simp add: compare_status)
qed

definition sample_field :: "string \<Rightarrow> bool \<Rightarrow> field_descriptor" where
  "sample_field name required =
     \<lparr>fd_name = name, fd_type = FT_String, fd_type_name = ''string'', fd_required = required\<rparr>"

definition sample_collection :: "field_descriptor list \<Rightarrow> 64 word \<Rightarrow> collection_descriptor" where
  "sample_collection fs v =
     \<lparr>cd_name = ''accounts'', cd_fields = fs, cd_key_fields = [''id''], cd_indexes = [], cd_schema_version = v\<rparr>"

theorem compatible_upgrades_compose_witness:
  "sr_status (compare_collection_descriptors
     (sample_collection [sample_field ''id'' True] 1)
     (sample_collection [sample_field ''id'' True, sample_field ''mail'' False, sample_field ''tel'' False] 3)) =
   Compatible"
proof (rule compatible_upgrades_compose
    [of _ "sample_collection [sample_field ''id'' True, sample_field ''mail'' False] 2"])
qed (simp_all add: compare_status upgrade_ok_def sample_collection_def sample_field_def
      find_field_descriptor_def field_kept_def names_distinct_def)

text \<open>Validation throws exactly on an incompatible upgrade, always a \<open>SchemaConflict\<close>, and
  then the comparison lists at least one difference for the message.\<close>

theorem validate_upgrade_outcome:
  "validate_collection_descriptor_upgrade existing requested =
     (if requested = existing \<or> upgrade_ok existing requested then Inr ()
      else Inl (ConflictError SchemaConflict (upgrade_message existing requested
             (descriptor_differences existing requested)))) \<and>
   (sr_status (compare_collection_descriptors existing requested) = Incompatible \<longleftrightarrow>
    sr_differences (compare_collection_descriptors existing requested) \<noteq> [])"
  by (auto simp: validate_collection_descriptor_upgrade_def compatible_def compare_collection_descriptors_def
      Let_def descriptor_differences_Nil)

end
