(* ===== verification/Memory_Index.thy ===== *)
theory Memory_Index
  imports Schema
begin

text \<open>
  The secondary indexes of \<open>bindings/cpp/memory/transaction.hpp\<close>: the index state of a
  collection, how a document's fields and a query's values encode to an index key, which keys a
  query accepts, and how a commit removes and adds a record. The lemmas show that an index whose
  entries mirror a set of documents (\<open>index_mirrors\<close>) still mirrors it after each update.
\<close>

section \<open>State\<close>

type_synonym index_key = "string list"

record in_memory_index_state =
  mi_descriptor :: index_descriptor
  mi_entries :: "(index_key, key list) omap"

type_synonym index_states = "(string, in_memory_index_state) omap"

record in_memory_state =
  ms_collections :: "(collection_name, collection_descriptor) omap"
  ms_records :: "(collection_name, (key, versioned_record) omap) omap"
  ms_indexes :: "(collection_name, index_states) omap"
  ms_versions :: "(string, version) omap"

definition empty_index_states :: "collection_descriptor \<Rightarrow> index_states" where
  "empty_index_states descriptor =
     fold (\<lambda>i states. om_emplace (id_name i) \<lparr>mi_descriptor = i, mi_entries = []\<rparr> states)
       (cd_indexes descriptor) []"

section \<open>Index keys\<close>

text \<open>The overload over a document's field, \<open>None\<close> for a null pointer.\<close>

definition encode_field_value :: "json option \<Rightarrow> string result" where
  "encode_field_value value =
     (case value of
        None \<Rightarrow> Inr ''missing:''
      | Some JNull \<Rightarrow> Inr ''null:''
      | Some (JBool b) \<Rightarrow> Inr (''bool:'' @ (if b then ''true'' else ''false''))
      | Some (JInt i) \<Rightarrow> Inr (''int:'' @ canonical_string (JInt i))
      | Some (JDouble d) \<Rightarrow> Inr (''decimal:'' @ canonical_string (JDouble d))
      | Some (JString t) \<Rightarrow> Inr (''string:'' @ t)
      | _ \<Rightarrow> Inl (BackendError ''in-memory index fields must resolve to scalar JSON values''))"

definition extract_index_key :: "json \<Rightarrow> index_descriptor \<Rightarrow> index_key result" where
  "extract_index_key document descriptor =
     map_result (\<lambda>f. encode_field_value (json_find document f)) (id_fields descriptor)"

text \<open>The overload over a query's value.\<close>

definition encode_index_value :: "index_value \<Rightarrow> string result" where
  "encode_index_value value =
     (case iv_kind value of
        IK_Null \<Rightarrow> Inr ''null:''
      | IK_String \<Rightarrow> andThen (as_string (iv_value value)) (\<lambda>t. Inr (''string:'' @ t))
      | IK_Timestamp \<Rightarrow> andThen (as_string (iv_value value)) (\<lambda>t. Inr (''string:'' @ t))
      | IK_Integer \<Rightarrow> Inr (''int:'' @ canonical_string (iv_value value))
      | IK_Decimal \<Rightarrow> Inr (''decimal:'' @ canonical_string (iv_value value))
      | IK_Boolean \<Rightarrow> andThen (as_bool (iv_value value))
          (\<lambda>b. Inr (''bool:'' @ (if b then ''true'' else ''false''))))"

definition values_index_key :: "index_value list \<Rightarrow> index_key result" where
  "values_index_key vs = map_result encode_index_value vs"

definition index_key_starts_with :: "index_key \<Rightarrow> index_key \<Rightarrow> bool" where
  "index_key_starts_with k p = (length k \<ge> length p \<and> take (length p) k = p)"

definition index_key_in_range ::
    "index_key \<Rightarrow> index_bound option \<Rightarrow> index_bound option \<Rightarrow> bool result" where
  "index_key_in_range k lower upper =
     andThen
       (case lower of None \<Rightarrow> Inr True
        | Some b \<Rightarrow> andThen (values_index_key (ib_values b))
            (\<lambda>lk. Inr (\<not> (if ib_inclusive b then k < lk else k \<le> lk))))
       (\<lambda>above. if \<not> above then Inr False
        else case upper of None \<Rightarrow> Inr True
          | Some b \<Rightarrow> andThen (values_index_key (ib_values b))
              (\<lambda>uk. Inr (\<not> (if ib_inclusive b then k > uk else k \<ge> uk))))"

section \<open>Maintenance\<close>

definition remove_from_index :: "versioned_record \<Rightarrow> in_memory_index_state \<Rightarrow> in_memory_index_state result" where
  "remove_from_index record index =
     andThen (extract_index_key (vr_document record) (mi_descriptor index)) (\<lambda>k.
       case om_find (mi_entries index) k of
         None \<Rightarrow> Inr index
       | Some keys \<Rightarrow>
           let keys' = os_erase (vr_key record) keys in
           Inr (index\<lparr>mi_entries := (if keys' = [] then om_erase k (mi_entries index)
                                   else om_insert k keys' (mi_entries index))\<rparr>))"

definition add_to_index :: "versioned_record \<Rightarrow> in_memory_index_state \<Rightarrow> in_memory_index_state result" where
  "add_to_index record index =
     andThen (extract_index_key (vr_document record) (mi_descriptor index)) (\<lambda>k.
       let keys = (case om_find (mi_entries index) k of None \<Rightarrow> [] | Some keys \<Rightarrow> keys) in
       if id_unique (mi_descriptor index) \<and> list_ex (\<lambda>existing. existing \<noteq> vr_key record) keys
       then Inl (ConflictError UniqueIndexConflict
              (''unique index conflict on collection '' @ quoted (vr_collection record) @
               '' index '' @ quoted (id_name (mi_descriptor index))))
       else Inr (index\<lparr>mi_entries := om_insert k (os_insert (vr_key record) keys) (mi_entries index)\<rparr>))"

text \<open>The loop over the indexes of the record's collection.\<close>

definition over_indexes ::
    "(in_memory_index_state \<Rightarrow> in_memory_index_state result) \<Rightarrow> index_states \<Rightarrow> index_states result" where
  "over_indexes f states =
     map_result (\<lambda>(name, index). andThen (f index) (\<lambda>index'. Inr (name, index'))) states"

definition remove_record_from_indexes ::
    "(collection_name, index_states) omap \<Rightarrow> versioned_record \<Rightarrow> (collection_name, index_states) omap result" where
  "remove_record_from_indexes indexes record =
     (case om_find indexes (vr_collection record) of
        None \<Rightarrow> Inr indexes
      | Some states \<Rightarrow> andThen (over_indexes (remove_from_index record) states)
          (\<lambda>states'. Inr (om_insert (vr_collection record) states' indexes)))"

definition add_record_to_indexes ::
    "(collection_name, index_states) omap \<Rightarrow> versioned_record \<Rightarrow> (collection_name, index_states) omap result" where
  "add_record_to_indexes indexes record =
     (case om_find indexes (vr_collection record) of
        None \<Rightarrow> Inr indexes
      | Some states \<Rightarrow> andThen (over_indexes (add_to_index record) states)
          (\<lambda>states'. Inr (om_insert (vr_collection record) states' indexes)))"

section \<open>An index mirrors a set of documents\<close>

definition index_mirrors :: "(key \<rightharpoonup> json) \<Rightarrow> in_memory_index_state \<Rightarrow> bool" where
  "index_mirrors docs index \<longleftrightarrow>
     om_ordered (mi_entries index) \<and>
     (\<forall>ik keys. om_find (mi_entries index) ik = Some keys \<longrightarrow>
        keys \<noteq> [] \<and> os_ordered keys \<and>
        (id_unique (mi_descriptor index) \<longrightarrow> length keys = 1)) \<and>
     (\<forall>k d. docs k = Some d \<longrightarrow>
        (\<exists>ik keys. extract_index_key d (mi_descriptor index) = Inr ik \<and>
           om_find (mi_entries index) ik = Some keys \<and> k \<in> set keys)) \<and>
     (\<forall>ik keys k. om_find (mi_entries index) ik = Some keys \<longrightarrow> k \<in> set keys \<longrightarrow>
        (\<exists>d. docs k = Some d \<and> extract_index_key d (mi_descriptor index) = Inr ik))"

lemma index_mirrorsD:
  assumes "index_mirrors docs index"
  shows "om_ordered (mi_entries index)"
    and "om_find (mi_entries index) ik = Some keys \<Longrightarrow> keys \<noteq> []"
    and "om_find (mi_entries index) ik = Some keys \<Longrightarrow> os_ordered keys"
    and "om_find (mi_entries index) ik = Some keys \<Longrightarrow> id_unique (mi_descriptor index) \<Longrightarrow> length keys = 1"
    and "docs k = Some d \<Longrightarrow> \<exists>ik keys. extract_index_key d (mi_descriptor index) = Inr ik \<and>
           om_find (mi_entries index) ik = Some keys \<and> k \<in> set keys"
    and "om_find (mi_entries index) ik = Some keys \<Longrightarrow> k \<in> set keys \<Longrightarrow>
        \<exists>d. docs k = Some d \<and> extract_index_key d (mi_descriptor index) = Inr ik"
  using assms unfolding index_mirrors_def by blast+

lemma index_mirrors_empty: "index_mirrors (\<lambda>k. None) \<lparr>mi_descriptor = i, mi_entries = []\<rparr>"
  by (simp add: index_mirrors_def)

text \<open>Removing a record that is there.\<close>

lemma remove_from_index_descriptor:
  "remove_from_index record index = Inr index' \<Longrightarrow> mi_descriptor index' = mi_descriptor index"
  by (auto simp: remove_from_index_def andThen_Inr_iff Let_def split: option.splits)

lemma add_to_index_descriptor:
  "add_to_index record index = Inr index' \<Longrightarrow> mi_descriptor index' = mi_descriptor index"
  by (auto simp: add_to_index_def andThen_Inr_iff Let_def split: option.splits if_splits)

lemma remove_from_index_mirrors:
  assumes m: "index_mirrors docs index" and doc: "docs (vr_key record) = Some (vr_document record)"
  shows "\<exists>index'. remove_from_index record index = Inr index' \<and>
    index_mirrors (docs(vr_key record := None)) index'"
proof -
  obtain ik keys where ik: "extract_index_key (vr_document record) (mi_descriptor index) = Inr ik"
    and keys: "om_find (mi_entries index) ik = Some keys" and inn: "vr_key record \<in> set keys"
    using index_mirrorsD(5) [OF m doc] by blast
  define keys' where "keys' = os_erase (vr_key record) keys"
  define index' where "index' = index\<lparr>mi_entries := (if keys' = [] then om_erase ik (mi_entries index)
      else om_insert ik keys' (mi_entries index))\<rparr>"
  have look: "om_find (mi_entries index') =
      (om_find (mi_entries index))(ik := if keys' = [] then None else Some keys')"
    by (auto simp: index'_def)
  have desc [simp]: "mi_descriptor index' = mi_descriptor index"
    by (simp add: index'_def)
  have set_keys': "set keys' = set keys - {vr_key record}"
    by (simp add: keys'_def)
  have one: "length keys' = 1" if "keys' \<noteq> []" "id_unique (mi_descriptor index)"
    using index_mirrorsD(4) [OF m keys that(2)] inn that(1)
    by (auto simp: keys'_def length_Suc_conv os_erase_def)
  have other: "ik' = ik" if "om_find (mi_entries index) ik' = Some ks" "vr_key record \<in> set ks" for ik' ks
    using index_mirrorsD(6) [OF m that] doc ik by simp
  have "index_mirrors (docs(vr_key record := None)) index'"
    unfolding index_mirrors_def desc
  proof (intro conjI allI impI)
    show "om_ordered (mi_entries index')"
      using index_mirrorsD(1) [OF m] by (auto simp: index'_def)
  next
    fix ik' ks assume a: "om_find (mi_entries index') ik' = Some ks"
    show "ks \<noteq> []"
      using a index_mirrorsD(2) [OF m, of ik'] by (auto simp: look split: if_splits)
    show "os_ordered ks"
      using a index_mirrorsD(3) [OF m, of ik'] index_mirrorsD(3) [OF m keys]
      by (auto simp: look keys'_def split: if_splits)
    show "length ks = 1" if "id_unique (mi_descriptor index)"
      using a that one index_mirrorsD(4) [OF m _ that, of ik'] by (auto simp: look split: if_splits)
  next
    fix k d assume "(docs(vr_key record := None)) k = Some d"
    then have k: "k \<noteq> vr_key record" "docs k = Some d"
      by (auto split: if_splits)
    then obtain ik' ks where e: "extract_index_key d (mi_descriptor index) = Inr ik'"
        "om_find (mi_entries index) ik' = Some ks" "k \<in> set ks"
      using index_mirrorsD(5) [OF m] by blast
    then have "\<exists>ks'. om_find (mi_entries index') ik' = Some ks' \<and> k \<in> set ks'"
      using k keys set_keys' by (cases "ik' = ik") (simp_all add: look, force)
    then show "\<exists>ik keys. extract_index_key d (mi_descriptor index) = Inr ik \<and>
        om_find (mi_entries index') ik = Some keys \<and> k \<in> set keys"
      using e(1) by blast
  next
    fix ik' ks k assume a: "om_find (mi_entries index') ik' = Some ks" "k \<in> set ks"
    have "\<exists>ks0. om_find (mi_entries index) ik' = Some ks0 \<and> k \<in> set ks0 \<and> k \<noteq> vr_key record"
      using a keys set_keys' other by (cases "ik' = ik") (auto simp: look split: if_splits)
    then obtain ks0 where "om_find (mi_entries index) ik' = Some ks0" "k \<in> set ks0" "k \<noteq> vr_key record"
      by blast
    then show "\<exists>d. (docs(vr_key record := None)) k = Some d \<and>
        extract_index_key d (mi_descriptor index) = Inr ik'"
      using index_mirrorsD(6) [OF m] by auto
  qed
  moreover have "remove_from_index record index = Inr index'"
    by (simp add: remove_from_index_def ik keys Let_def index'_def keys'_def)
  ultimately show ?thesis
    by blast
qed

text \<open>Adding a record whose key is not there.\<close>

lemma add_to_index_mirrors:
  assumes m: "index_mirrors docs index" and doc: "docs (vr_key record) = None"
    and add: "add_to_index record index = Inr index'"
  shows "index_mirrors (docs(vr_key record \<mapsto> vr_document record)) index'"
proof -
  obtain ik where ik: "extract_index_key (vr_document record) (mi_descriptor index) = Inr ik"
    using add by (auto simp: add_to_index_def andThen_Inr_iff)
  define keys where "keys = (case om_find (mi_entries index) ik of None \<Rightarrow> [] | Some keys \<Rightarrow> keys)"
  have unique: "set keys \<subseteq> {vr_key record}" if "id_unique (mi_descriptor index)"
    using add that by (auto simp: add_to_index_def ik Let_def keys_def list_ex_iff split: if_splits)
  have index': "index' = index\<lparr>mi_entries := om_insert ik (os_insert (vr_key record) keys) (mi_entries index)\<rparr>"
    using add by (auto simp: add_to_index_def ik Let_def keys_def split: if_splits)
  have look: "om_find (mi_entries index') = (om_find (mi_entries index))(ik \<mapsto> os_insert (vr_key record) keys)"
    by (simp add: index')
  have desc [simp]: "mi_descriptor index' = mi_descriptor index"
    by (simp add: index')
  have ord: "os_ordered keys"
    using index_mirrorsD(3) [OF m, of ik] by (auto simp: keys_def split: option.splits)
  have absent: "vr_key record \<notin> set ks" if "om_find (mi_entries index) ik' = Some ks" for ik' ks
    using index_mirrorsD(6) [OF m that, of "vr_key record"] doc by auto
  have none: "keys = []" if "id_unique (mi_descriptor index)"
    using unique [OF that] absent [of ik] by (cases keys) (auto simp: keys_def split: option.splits)
  show ?thesis
    unfolding index_mirrors_def desc
  proof (intro conjI allI impI)
    show "om_ordered (mi_entries index')"
      using index_mirrorsD(1) [OF m] by (auto simp: index')
  next
    fix ik' ks assume a: "om_find (mi_entries index') ik' = Some ks"
    have "os_insert (vr_key record) keys \<noteq> []"
      by (metis set_os_insert list.set(1) insert_not_empty)
    then show "ks \<noteq> []"
      using a index_mirrorsD(2) [OF m, of ik'] by (auto simp: look split: if_splits)
    show "os_ordered ks"
      using a ord index_mirrorsD(3) [OF m, of ik'] by (auto simp: look split: if_splits)
    show "length ks = 1" if "id_unique (mi_descriptor index)"
      using a that none index_mirrorsD(4) [OF m _ that, of ik'] by (auto simp: look split: if_splits)
  next
    fix k d assume k: "(docs(vr_key record \<mapsto> vr_document record)) k = Some d"
    show "\<exists>ik keys. extract_index_key d (mi_descriptor index) = Inr ik \<and>
        om_find (mi_entries index') ik = Some keys \<and> k \<in> set keys"
    proof (cases "k = vr_key record")
      case True
      then show ?thesis using k ik by (auto simp: look)
    next
      case False
      then obtain ik' ks where e: "extract_index_key d (mi_descriptor index) = Inr ik'"
          "om_find (mi_entries index) ik' = Some ks" "k \<in> set ks"
        using k index_mirrorsD(5) [OF m, of k d] by auto
      then have "\<exists>ks'. om_find (mi_entries index') ik' = Some ks' \<and> k \<in> set ks'"
        by (cases "ik' = ik") (auto simp: look keys_def)
      then show ?thesis using e(1) by blast
    qed
  next
    fix ik' ks k assume a: "om_find (mi_entries index') ik' = Some ks" "k \<in> set ks"
    show "\<exists>d. (docs(vr_key record \<mapsto> vr_document record)) k = Some d \<and>
        extract_index_key d (mi_descriptor index) = Inr ik'"
    proof (cases "k = vr_key record")
      case True
      then show ?thesis using a ik absent by (auto simp: look split: if_splits)
    next
      case False
      then obtain ks0 where "om_find (mi_entries index) ik' = Some ks0" "k \<in> set ks0"
        using a by (cases "ik' = ik") (auto simp: look keys_def split: option.splits if_splits)
      then show ?thesis
        using False index_mirrorsD(6) [OF m] by auto
    qed
  qed
qed

text \<open>Adding throws a \<open>UniqueIndexConflict\<close> exactly when another key holds the same index key.\<close>

lemma add_to_index_conflict:
  assumes m: "index_mirrors docs index" and doc: "docs (vr_key record) = None"
    and ik: "extract_index_key (vr_document record) (mi_descriptor index) = Inr ik"
  shows "(\<exists>index'. add_to_index record index = Inr index') \<longleftrightarrow>
    \<not> (id_unique (mi_descriptor index) \<and>
       (\<exists>k d. docs k = Some d \<and> extract_index_key d (mi_descriptor index) = Inr ik))"
proof -
  have "(\<exists>k d. docs k = Some d \<and> extract_index_key d (mi_descriptor index) = Inr ik) \<longleftrightarrow>
      (\<exists>keys. om_find (mi_entries index) ik = Some keys)"
    using index_mirrorsD(5,6) [OF m] index_mirrorsD(2) [OF m, of ik]
    by (metis hd_in_set sum.inject(2))
  moreover have "vr_key record \<notin> set keys" if "om_find (mi_entries index) ik = Some keys" for keys
    using index_mirrorsD(6) [OF m that, of "vr_key record"] doc by auto
  ultimately show ?thesis
    using index_mirrorsD(2) [OF m, of ik]
    by (auto simp: add_to_index_def ik Let_def list_ex_iff split: option.splits)
      (metis hd_in_set)+
qed

section \<open>All indexes of the backend\<close>

definition indexes_mirror :: "doc_view \<Rightarrow> (collection_name, index_states) omap \<Rightarrow> bool" where
  "indexes_mirror docs indexes \<longleftrightarrow>
     (\<forall>c states. om_find indexes c = Some states \<longrightarrow>
        (\<forall>e \<in> set states. index_mirrors (docs c) (snd e)))"

lemma over_indexes_set:
  assumes "over_indexes f states = Inr states'" and "e' \<in> set states'"
  shows "\<exists>e \<in> set states. f (snd e) = Inr (snd e') \<and> fst e = fst e'"
  using assms unfolding over_indexes_def
  by (induction states arbitrary: states') (auto simp: andThen_Inr_iff)

lemma over_indexes_total:
  "(\<And>e. e \<in> set states \<Longrightarrow> \<exists>index'. f (snd e) = Inr index') \<Longrightarrow> \<exists>states'. over_indexes f states = Inr states'"
  unfolding over_indexes_def by (induction states) force+

lemma over_indexes_names:
  "over_indexes f states = Inr states' \<Longrightarrow> map fst states' = map fst states"
  unfolding over_indexes_def
  by (induction states arbitrary: states') (auto simp: andThen_Inr_iff)

lemma indexes_mirrorD:
  "indexes_mirror docs indexes \<Longrightarrow> om_find indexes c = Some states \<Longrightarrow> e \<in> set states \<Longrightarrow>
   index_mirrors (docs c) (snd e)"
  by (auto simp: indexes_mirror_def)

lemma remove_record_mirrors:
  assumes m: "indexes_mirror docs indexes"
    and doc: "docs (vr_collection record) (vr_key record) = Some (vr_document record)"
  shows "\<exists>indexes'. remove_record_from_indexes indexes record = Inr indexes' \<and>
    indexes_mirror (view_erase (vr_collection record) (vr_key record) docs) indexes'"
proof (cases "om_find indexes (vr_collection record)")
  case None
  then show ?thesis
    using m by (force simp: remove_record_from_indexes_def indexes_mirror_def view_erase_def)
next
  case (Some states)
  have each: "\<exists>index'. remove_from_index record (snd e) = Inr index' \<and>
      index_mirrors ((docs (vr_collection record))(vr_key record := None)) index'"
    if "e \<in> set states" for e
    using remove_from_index_mirrors [OF indexes_mirrorD [OF m Some that] doc] .
  obtain states' where st: "over_indexes (remove_from_index record) states = Inr states'"
    using over_indexes_total [of states "remove_from_index record"] each by blast
  have "index_mirrors ((docs (vr_collection record))(vr_key record := None)) (snd e')"
    if "e' \<in> set states'" for e'
    using over_indexes_set [OF st that] each by force
  then show ?thesis
    using m by (auto simp: remove_record_from_indexes_def Some st indexes_mirror_def view_erase_def)
qed

lemma add_record_mirrors:
  assumes m: "indexes_mirror docs indexes"
    and doc: "docs (vr_collection record) (vr_key record) = None"
    and add: "add_record_to_indexes indexes record = Inr indexes'"
  shows "indexes_mirror (view_put (vr_collection record) (vr_key record) (vr_document record) docs) indexes'"
proof (cases "om_find indexes (vr_collection record)")
  case None
  then show ?thesis
    using m add by (auto simp: add_record_to_indexes_def indexes_mirror_def view_put_def)
next
  case (Some states)
  obtain states' where st: "over_indexes (add_to_index record) states = Inr states'"
    and indexes': "indexes' = om_insert (vr_collection record) states' indexes"
    using add by (auto simp: add_record_to_indexes_def Some andThen_Inr_iff)
  have "index_mirrors ((docs (vr_collection record))(vr_key record \<mapsto> vr_document record)) (snd e')"
    if "e' \<in> set states'" for e'
    using over_indexes_set [OF st that] add_to_index_mirrors indexes_mirrorD [OF m Some] doc by metis
  then show ?thesis
    using m by (auto simp: indexes' indexes_mirror_def view_put_def)
qed

end
