(* ===== verification/Memory_Tx.thy ===== *)
theory Memory_Tx
  imports Memory_Index
begin

text \<open>
  \<open>InMemoryTransaction\<close> of \<open>bindings/cpp/memory/transaction.hpp\<close> and \<open>InMemoryBackend\<close> of
  \<open>bindings/cpp/memory/backend.hpp\<close>. A transaction holds a shared pointer to the backend's
  state; the state of its operations is the pair of that state and its own members. Each
  operation that takes the mutex is one step.
\<close>

section \<open>Version keys\<close>

definition record_version_key :: "collection_name \<Rightarrow> key \<Rightarrow> string" where
  "record_version_key collection key = ''record:'' @ collection @ '':'' @ key"

definition parse_record_version_key :: "string \<Rightarrow> (collection_name \<times> key) option" where
  "parse_record_version_key version_key =
     (if take 7 version_key \<noteq> ''record:'' then None
      else let rest = drop 7 version_key in
        if CHR '':'' \<notin> set rest then None
        else Some (takeWhile (\<lambda>c. c \<noteq> CHR '':'') rest, tl (dropWhile (\<lambda>c. c \<noteq> CHR '':'') rest)))"

definition version_or_zero :: "(string, version) omap \<Rightarrow> string \<Rightarrow> version" where
  "version_or_zero versions k = (case om_find versions k of None \<Rightarrow> 0 | Some v \<Rightarrow> v)"

section \<open>Transactions\<close>

record in_memory_tx =
  tx_open :: bool
  tx_read_versions :: "(string, version) omap"
  tx_puts :: "(string, versioned_record) omap"
  tx_erases :: "string list"

type_synonym mem = "in_memory_state \<times> in_memory_tx"

definition new_tx :: in_memory_tx where
  "new_tx = \<lparr>tx_open = True, tx_read_versions = [], tx_puts = [], tx_erases = []\<rparr>"

definition tx_is_open :: "mem \<Rightarrow> bool" where
  "tx_is_open m = tx_open (snd m)"

definition tx_abort :: "(mem, unit) action" where
  "tx_abort = modifyM (\<lambda>(s, tx). (s, \<lparr>tx_open = False, tx_read_versions = [], tx_puts = [], tx_erases = []\<rparr>))"

definition require_open :: "(mem, unit) action" where
  "require_open m =
     (if tx_open (snd m) then (Inr (), m)
      else (Inl (BackendError ''in-memory backend requires an open InMemoryTransaction''), m))"

definition record_read :: "string \<Rightarrow> version \<Rightarrow> in_memory_tx \<Rightarrow> in_memory_tx" where
  "record_read version_key version tx =
     tx\<lparr>tx_read_versions := om_emplace version_key version (tx_read_versions tx)\<rparr>"

definition tx_get :: "collection_name \<Rightarrow> key \<Rightarrow> (mem, versioned_record option) action" where
  "tx_get collection key = bindM require_open (\<lambda>_ (s, tx).
     let version_key = record_version_key collection key in
     if version_key \<in> set (tx_erases tx) then (Inr None, (s, tx))
     else case om_find (tx_puts tx) version_key of
       Some staged \<Rightarrow> (Inr (Some staged), (s, tx))
     | None \<Rightarrow>
         (case om_find (ms_records s) collection of
            None \<Rightarrow> (Inr None, (s, record_read version_key 0 tx))
          | Some records \<Rightarrow>
              (case om_find records key of
                 None \<Rightarrow> (Inr None, (s, record_read version_key 0 tx))
               | Some r \<Rightarrow> (Inr (Some r), (s, record_read version_key (vr_version r) tx)))))"

definition tx_put :: "collection_name \<Rightarrow> key \<Rightarrow> json \<Rightarrow> (mem, unit) action" where
  "tx_put collection key document = bindM require_open (\<lambda>_. bindM (tx_get collection key) (\<lambda>_.
     modifyM (\<lambda>(s, tx). (s, tx\<lparr>
       tx_puts := om_insert (record_version_key collection key)
         \<lparr>vr_collection = collection, vr_key = key, vr_version = 0, vr_document = document\<rparr> (tx_puts tx),
       tx_erases := os_erase (record_version_key collection key) (tx_erases tx)\<rparr>))))"

definition tx_erase :: "collection_name \<Rightarrow> key \<Rightarrow> (mem, unit) action" where
  "tx_erase collection key = bindM require_open (\<lambda>_. bindM (tx_get collection key) (\<lambda>_.
     modifyM (\<lambda>(s, tx). (s, tx\<lparr>
       tx_puts := om_erase (record_version_key collection key) (tx_puts tx),
       tx_erases := os_insert (record_version_key collection key) (tx_erases tx)\<rparr>))))"

section \<open>Queries\<close>

definition is_index_query :: "query \<Rightarrow> bool" where
  "is_index_query q = (q_kind q = QK_IndexEquals \<or> q_kind q = QK_IndexPrefix \<or> q_kind q = QK_IndexRange)"

text \<open>The walk of \<open>json_path_equals\<close> over the dot-separated segments of the path.\<close>

function json_path_equals :: "json \<Rightarrow> string \<Rightarrow> json \<Rightarrow> bool" where
  "json_path_equals current path expected =
     (case json_find current (takeWhile (\<lambda>c. c \<noteq> CHR ''.'') path) of
        None \<Rightarrow> False
      | Some next \<Rightarrow>
          (case dropWhile (\<lambda>c. c \<noteq> CHR ''.'') path of
             [] \<Rightarrow> json_eq next expected
           | _ # rest \<Rightarrow> json_path_equals next rest expected))"
  by pat_completeness auto
termination
proof (relation "measure (\<lambda>(_, path, _). length path)")
  fix path :: string and x y and rest :: string
  assume "dropWhile (\<lambda>c. c \<noteq> CHR ''.'') path = y # rest"
  then have "length (y # rest) \<le> length path"
    by (metis length_dropWhile_le)
  then show "((x :: json, rest, e :: json), z :: json, path, e) \<in> measure (\<lambda>(_, path, _). length path)" for e z
    by simp
qed simp

declare json_path_equals.simps [simp del]

definition tx_matches :: "versioned_record \<Rightarrow> query \<Rightarrow> bool" where
  "tx_matches record q =
     (case q_kind q of
        QK_All \<Rightarrow> True
      | QK_KeyPrefix \<Rightarrow> (case q_key_prefix q of None \<Rightarrow> False
          | Some p \<Rightarrow> take (length p) (vr_key record) = p)
      | QK_JsonEquals \<Rightarrow> (case (q_json_path q, q_json_value q) of
            (Some path, Some expected) \<Rightarrow> json_path_equals (vr_document record) path expected
          | _ \<Rightarrow> False)
      | _ \<Rightarrow> True)"

definition matches_index_key :: "index_key \<Rightarrow> query \<Rightarrow> bool result" where
  "matches_index_key k q =
     (case q_kind q of
        QK_IndexEquals \<Rightarrow> andThen (values_index_key (q_index_values q)) (\<lambda>p. Inr (index_key_starts_with k p))
      | QK_IndexPrefix \<Rightarrow> andThen (values_index_key (q_index_values q)) (\<lambda>p. Inr (index_key_starts_with k p))
      | QK_IndexRange \<Rightarrow> index_key_in_range k (q_lower_bound q) (q_upper_bound q)
      | _ \<Rightarrow> Inr False)"

definition staged_record_matches_index_query ::
    "in_memory_state \<Rightarrow> versioned_record \<Rightarrow> query \<Rightarrow> bool result" where
  "staged_record_matches_index_query s record q =
     (case q_index_name q of None \<Rightarrow> Inr False
      | Some name \<Rightarrow>
          (case om_find (ms_indexes s) (vr_collection record) of None \<Rightarrow> Inr False
           | Some states \<Rightarrow>
               (case om_find states name of None \<Rightarrow> Inr False
                | Some index \<Rightarrow>
                    andThen (extract_index_key (vr_document record) (mi_descriptor index))
                      (\<lambda>k. matches_index_key k q))))"

text \<open>The records an index entry's keys name; \<open>records.at\<close> throws when the collection has none.\<close>

definition entry_records ::
    "in_memory_state \<Rightarrow> collection_name \<Rightarrow> key list \<Rightarrow> versioned_record list result" where
  "entry_records s collection keys =
     (if keys = [] then Inr []
      else case om_find (ms_records s) collection of
        None \<Rightarrow> Inl Out_Of_Range
      | Some records \<Rightarrow> Inr (List.map_filter (\<lambda>k. om_find records k) keys))"

definition committed_index_query ::
    "in_memory_state \<Rightarrow> collection_name \<Rightarrow> query \<Rightarrow> versioned_record list result" where
  "committed_index_query s collection q =
     (case q_index_name q of None \<Rightarrow> Inr []
      | Some name \<Rightarrow>
          (case om_find (ms_indexes s) collection of None \<Rightarrow> Inr []
           | Some states \<Rightarrow>
               (case om_find states name of None \<Rightarrow> Inr []
                | Some index \<Rightarrow>
                    fold_result (\<lambda>(k, keys) records.
                        andThen (matches_index_key k q) (\<lambda>b.
                          if \<not> b then Inr records
                          else andThen (entry_records s collection keys) (\<lambda>rs. Inr (records @ rs))))
                      (mi_entries index) [])))"

definition committed_candidates ::
    "in_memory_state \<Rightarrow> in_memory_tx \<Rightarrow> collection_name \<Rightarrow> query \<Rightarrow> versioned_record list result" where
  "committed_candidates s tx collection q =
     (if is_index_query q then committed_index_query s collection q
      else case om_find (ms_records s) collection of
        None \<Rightarrow> Inr []
      | Some records \<Rightarrow>
          Inr (filter (\<lambda>r. om_find (tx_puts tx) (record_version_key (vr_collection r) (vr_key r)) = None)
                 (map snd records)))"

definition staged_candidates ::
    "in_memory_state \<Rightarrow> in_memory_tx \<Rightarrow> collection_name \<Rightarrow> query \<Rightarrow> versioned_record list result" where
  "staged_candidates s tx collection q =
     filter_result (\<lambda>r.
         if vr_collection r = collection
         then (if \<not> is_index_query q then Inr True else staged_record_matches_index_query s r q)
         else Inr False)
       (map snd (tx_puts tx))"

text \<open>The predicate of \<open>remove_if\<close>.\<close>

definition superseded :: "in_memory_tx \<Rightarrow> versioned_record \<Rightarrow> bool" where
  "superseded tx r =
     (let version_key = record_version_key (vr_collection r) (vr_key r) in
      if vr_version r \<noteq> 0 \<and> om_find (tx_puts tx) version_key \<noteq> None then True
      else version_key \<in> set (tx_erases tx))"

definition record_reads :: "versioned_record list \<Rightarrow> in_memory_tx \<Rightarrow> in_memory_tx" where
  "record_reads rs tx =
     fold (\<lambda>r. record_read (record_version_key (vr_collection r) (vr_key r)) (vr_version r)) rs tx"

definition tx_query :: "collection_name \<Rightarrow> query \<Rightarrow> (mem, versioned_record list) action" where
  "tx_query collection q = bindM require_open (\<lambda>_ (s, tx).
     case andThen (committed_candidates s tx collection q) (\<lambda>committed.
          andThen (staged_candidates s tx collection q) (\<lambda>staged.
            Inr (filter (\<lambda>r. tx_matches r q) (filter (\<lambda>r. \<not> superseded tx r) (committed @ staged))))) of
       Inl e \<Rightarrow> (Inl e, (s, tx))
     | Inr matched \<Rightarrow> (Inr matched, (s, record_reads matched tx)))"

section \<open>Commit\<close>

definition lookup_record :: "in_memory_state \<Rightarrow> collection_name \<Rightarrow> key \<Rightarrow> versioned_record option" where
  "lookup_record s collection key =
     (case om_find (ms_records s) collection of None \<Rightarrow> None | Some records \<Rightarrow> om_find records key)"

definition stage_erase ::
    "in_memory_state \<Rightarrow> string \<Rightarrow> (collection_name, index_states) omap \<Rightarrow>
     (collection_name, index_states) omap result" where
  "stage_erase s version_key indexes =
     (case parse_record_version_key version_key of None \<Rightarrow> Inr indexes
      | Some (collection, key) \<Rightarrow>
          (case lookup_record s collection key of None \<Rightarrow> Inr indexes
           | Some r \<Rightarrow> remove_record_from_indexes indexes r))"

definition stage_put ::
    "in_memory_state \<Rightarrow> versioned_record \<Rightarrow> (collection_name, index_states) omap \<Rightarrow>
     (collection_name, index_states) omap result" where
  "stage_put s record indexes =
     andThen
       (case lookup_record s (vr_collection record) (vr_key record) of None \<Rightarrow> Inr indexes
        | Some r \<Rightarrow> remove_record_from_indexes indexes r)
       (\<lambda>indexes'. add_record_to_indexes indexes' record)"

definition stage_indexes ::
    "in_memory_state \<Rightarrow> in_memory_tx \<Rightarrow> (collection_name, index_states) omap result" where
  "stage_indexes s tx =
     andThen (fold_result (stage_erase s) (tx_erases tx) (ms_indexes s))
       (fold_result (\<lambda>e. stage_put s (snd e)) (tx_puts tx))"

definition erase_record :: "string \<Rightarrow> in_memory_state \<Rightarrow> in_memory_state" where
  "erase_record version_key s =
     (case parse_record_version_key version_key of None \<Rightarrow> s
      | Some (collection, key) \<Rightarrow>
          (case om_find (ms_records s) collection of None \<Rightarrow> s
           | Some records \<Rightarrow>
               s\<lparr>ms_records := om_insert collection (om_erase key records) (ms_records s)\<rparr>))"

definition bump_version :: "string \<Rightarrow> in_memory_state \<Rightarrow> in_memory_state" where
  "bump_version version_key s =
     s\<lparr>ms_versions := om_insert version_key (version_or_zero (ms_versions s) version_key + 1) (ms_versions s)\<rparr>"

definition publish_erase :: "string \<Rightarrow> in_memory_state \<Rightarrow> in_memory_state" where
  "publish_erase version_key s = bump_version version_key (erase_record version_key s)"

definition store_record :: "versioned_record \<Rightarrow> in_memory_state \<Rightarrow> in_memory_state" where
  "store_record r s =
     s\<lparr>ms_records := om_insert (vr_collection r)
         (om_insert (vr_key r) r
            (case om_find (ms_records s) (vr_collection r) of None \<Rightarrow> [] | Some records \<Rightarrow> records))
         (ms_records s)\<rparr>"

definition publish_put :: "string \<times> versioned_record \<Rightarrow> in_memory_state \<Rightarrow> in_memory_state" where
  "publish_put e s =
     (let s' = bump_version (fst e) s in
      store_record ((snd e)\<lparr>vr_version := version_or_zero (ms_versions s') (fst e)\<rparr>) s')"

definition reads_current :: "in_memory_state \<Rightarrow> in_memory_tx \<Rightarrow> bool" where
  "reads_current s tx = list_all (\<lambda>(k, v). version_or_zero (ms_versions s) k = v) (tx_read_versions tx)"

definition publish :: "in_memory_tx \<Rightarrow> (collection_name, index_states) omap \<Rightarrow> in_memory_state \<Rightarrow> in_memory_state" where
  "publish tx indexes s =
     (fold publish_put (tx_puts tx) (fold publish_erase (tx_erases tx) s))\<lparr>ms_indexes := indexes\<rparr>"

definition tx_commit :: "(mem, unit) action" where
  "tx_commit = bindM require_open (\<lambda>_ (s, tx).
     if \<not> reads_current s tx then (Inl (ConflictError VersionConflict ''in-memory OCC conflict''), (s, tx))
     else case stage_indexes s tx of
       Inl e \<Rightarrow> (Inl e, (s, tx))
     | Inr staged \<Rightarrow> tx_abort (publish tx staged s, tx))"

section \<open>The backend\<close>

definition initial_state :: in_memory_state where
  "initial_state = \<lparr>ms_collections = [], ms_records = [], ms_indexes = [], ms_versions = []\<rparr>"

definition memory_capabilities :: backend_capabilities where
  "memory_capabilities =
     default_capabilities\<lparr>bc_prefix_query := True, bc_secondary_indexes := True, bc_unique_indexes := True\<rparr>"

definition ensure_collection :: "collection_descriptor \<Rightarrow> (in_memory_state, unit) action" where
  "ensure_collection descriptor s =
     (case om_find (ms_collections s) (cd_name descriptor) of
        Some existing \<Rightarrow>
          (case validate_collection_descriptor_upgrade existing descriptor of
             Inl e \<Rightarrow> (Inl e, s)
           | Inr _ \<Rightarrow>
               (Inr (), s\<lparr>ms_collections := om_insert (cd_name descriptor) descriptor (ms_collections s)\<rparr>))
      | None \<Rightarrow>
          (Inr (), s\<lparr>ms_collections := om_insert (cd_name descriptor) descriptor (ms_collections s),
                     ms_indexes := om_insert (cd_name descriptor) (empty_index_states descriptor) (ms_indexes s)\<rparr>))"

definition stage_collection ::
    "collection_descriptor \<Rightarrow> (collection_name, collection_descriptor) omap \<Rightarrow>
     (collection_name, collection_descriptor) omap result" where
  "stage_collection descriptor staged =
     andThen
       (case om_find staged (cd_name descriptor) of None \<Rightarrow> Inr ()
        | Some existing \<Rightarrow> validate_collection_descriptor_upgrade existing descriptor)
       (\<lambda>_. Inr (om_insert (cd_name descriptor) descriptor staged))"

definition stage_index_states ::
    "in_memory_state \<Rightarrow> collection_descriptor \<Rightarrow> (collection_name, index_states) omap \<Rightarrow>
     (collection_name, index_states) omap" where
  "stage_index_states s descriptor indexes =
     (case om_find (ms_collections s) (cd_name descriptor) of
        None \<Rightarrow> om_insert (cd_name descriptor) (empty_index_states descriptor) indexes
      | Some _ \<Rightarrow> indexes)"

definition ensure_collections :: "collection_descriptor list \<Rightarrow> (in_memory_state, unit) action" where
  "ensure_collections descriptors s =
     (case fold_result stage_collection descriptors (ms_collections s) of
        Inl e \<Rightarrow> (Inl e, s)
      | Inr staged \<Rightarrow>
          (Inr (), s\<lparr>ms_collections := staged,
                     ms_indexes := fold (stage_index_states s) descriptors (ms_indexes s)\<rparr>))"

definition begin_tx :: "in_memory_state \<Rightarrow> mem" where
  "begin_tx s = (s, new_tx)"

text \<open>\<open>as_memory_tx\<close>: the dynamic cast succeeds, the transactions of the model are in-memory ones.\<close>

definition as_memory_tx :: "(mem, 'a) action \<Rightarrow> (mem, 'a) action" where
  "as_memory_tx operation = bindM require_open (\<lambda>_. operation)"

definition memory_transaction :: "mem itransaction" where
  "memory_transaction =
     \<lparr>it_is_open = tx_is_open, it_abort = tx_abort, it_get = tx_get, it_query = tx_query,
      it_put = tx_put, it_erase = tx_erase\<rparr>"

definition in_memory_backend :: "(in_memory_state, mem) ibackend" where
  "in_memory_backend =
     \<lparr>ib_capabilities = memory_capabilities,
      ib_ensure_collection = ensure_collection,
      ib_ensure_collections = ensure_collections,
      ib_begin = begin_tx,
      ib_get = (\<lambda>c k. as_memory_tx (tx_get c k)),
      ib_query = (\<lambda>c q. as_memory_tx (tx_query c q)),
      ib_put = (\<lambda>c k d. as_memory_tx (tx_put c k d)),
      ib_erase = (\<lambda>c k. as_memory_tx (tx_erase c k)),
      ib_commit = as_memory_tx tx_commit,
      ib_tx = memory_transaction,
      ib_shared = fst\<rparr>"

lemma memory_selectors [simp]:
  "ib_tx in_memory_backend = memory_transaction"
  "ib_begin in_memory_backend = begin_tx"
  "ib_shared in_memory_backend = fst"
  "ib_commit in_memory_backend = as_memory_tx tx_commit"
  "it_get memory_transaction = tx_get"
  "it_query memory_transaction = tx_query"
  "it_put memory_transaction = tx_put"
  "it_erase memory_transaction = tx_erase"
  by (simp_all add: in_memory_backend_def memory_transaction_def)

end
