(* ===== verification/Memory_Laws.thy ===== *)
theory Memory_Laws
  imports Memory_Tx
begin

text \<open>
  The in-memory backend satisfies the contracts of theory \<open>Backend\<close>: the invariants of its
  state and of its transactions, what each operation does to the documents a transaction sees,
  and the interpretation of \<open>occ_backend\<close>. Collection names without a colon are the ones for which
  version keys identify records; a last section shows what happens otherwise.
\<close>

section \<open>Version keys\<close>

definition plain_name :: "collection_name \<Rightarrow> bool" where
  "plain_name c \<longleftrightarrow> CHR '':'' \<notin> set c"

lemma takeWhile_colon: "plain_name c \<Longrightarrow> takeWhile (\<lambda>x. x \<noteq> CHR '':'') (c @ CHR '':'' # k) = c"
  by (induction c) (auto simp: plain_name_def)

lemma dropWhile_colon: "plain_name c \<Longrightarrow> dropWhile (\<lambda>x. x \<noteq> CHR '':'') (c @ CHR '':'' # k) = CHR '':'' # k"
  by (induction c) (auto simp: plain_name_def)

lemma parse_version_key: "plain_name c \<Longrightarrow> parse_record_version_key (record_version_key c k) = Some (c, k)"
  by (simp add: parse_record_version_key_def record_version_key_def takeWhile_colon dropWhile_colon)

lemma parse_version_key_some: "parse_record_version_key (record_version_key c k) \<noteq> None"
  by (simp add: parse_record_version_key_def record_version_key_def Let_def)

text \<open>Parsing splits at the first colon, so it inverts the concatenation.\<close>

lemma parse_version_key_inverse:
  assumes "parse_record_version_key vk = Some (c, k)"
  shows "vk = record_version_key c k"
proof -
  define rest where "rest = drop 7 vk"
  have vk: "vk = ''record:'' @ rest"
    using assms unfolding rest_def parse_record_version_key_def Let_def
    by (metis append_take_drop_id option.distinct(1))
  have colon: "CHR '':'' \<in> set rest" and
    ck: "c = takeWhile (\<lambda>x. x \<noteq> CHR '':'') rest" "k = tl (dropWhile (\<lambda>x. x \<noteq> CHR '':'') rest)"
    using assms by (auto simp: parse_record_version_key_def Let_def rest_def split: if_splits)
  have "dropWhile (\<lambda>x. x \<noteq> CHR '':'') rest \<noteq> []"
    using colon by (auto simp: dropWhile_eq_Nil_conv)
  moreover from this have "hd (dropWhile (\<lambda>x. x \<noteq> CHR '':'') rest) = CHR '':''"
    using hd_dropWhile by blast
  ultimately have "rest = c @ CHR '':'' # k"
    using ck by (metis list.collapse takeWhile_dropWhile_id)
  then show ?thesis
    by (simp add: vk record_version_key_def)
qed

lemma version_key_inject:
  "plain_name c \<Longrightarrow> plain_name c' \<Longrightarrow>
   record_version_key c k = record_version_key c' k' \<longleftrightarrow> c = c' \<and> k = k'"
  by (metis option.sel parse_version_key prod.inject)

section \<open>Invariants\<close>

definition state_ok :: "in_memory_state \<Rightarrow> bool" where
  "state_ok s \<longleftrightarrow>
     om_ordered (ms_records s) \<and> om_ordered (ms_versions s) \<and>
     (\<forall>c records. om_find (ms_records s) c = Some records \<longrightarrow>
        om_ordered records \<and>
        (\<forall>k r. om_find records k = Some r \<longrightarrow> vr_collection r = c \<and> vr_key r = k))"

definition tx_ok :: "in_memory_tx \<Rightarrow> bool" where
  "tx_ok tx \<longleftrightarrow>
     om_ordered (tx_read_versions tx) \<and> om_ordered (tx_puts tx) \<and> os_ordered (tx_erases tx) \<and>
     (\<forall>vk r. om_find (tx_puts tx) vk = Some r \<longrightarrow>
        vk = record_version_key (vr_collection r) (vr_key r) \<and> vr_version r = 0 \<and>
        vk \<notin> set (tx_erases tx) \<and> vk \<in> dom (om_find (tx_read_versions tx))) \<and>
     (\<forall>vk \<in> set (tx_erases tx).
        (\<exists>c k. vk = record_version_key c k) \<and> vk \<in> dom (om_find (tx_read_versions tx)))"

definition tx_named :: "in_memory_tx \<Rightarrow> bool" where
  "tx_named tx \<longleftrightarrow>
     (\<forall>vk r. om_find (tx_puts tx) vk = Some r \<longrightarrow> plain_name (vr_collection r)) \<and>
     (\<forall>vk \<in> set (tx_erases tx). \<exists>c k. vk = record_version_key c k \<and> plain_name c)"

definition usable :: "mem \<Rightarrow> bool" where
  "usable m \<longleftrightarrow> tx_open (snd m) \<and> state_ok (fst m) \<and> tx_ok (snd m) \<and> tx_named (snd m)"

definition committed_docs :: "in_memory_state \<Rightarrow> doc_view" where
  "committed_docs s c k = (if plain_name c then map_option vr_document (lookup_record s c k) else None)"

text \<open>What a transaction sees: its own writes over the committed documents.\<close>

definition mem_view :: "mem \<Rightarrow> doc_view" where
  "mem_view m c k =
     (if \<not> plain_name c then None
      else if record_version_key c k \<in> set (tx_erases (snd m)) then None
      else case om_find (tx_puts (snd m)) (record_version_key c k) of
        Some r \<Rightarrow> Some (vr_document r)
      | None \<Rightarrow> map_option vr_document (lookup_record (fst m) c k))"

lemma tx_okD:
  assumes "tx_ok tx"
  shows "om_ordered (tx_read_versions tx)" "om_ordered (tx_puts tx)" "os_ordered (tx_erases tx)"
    and "om_find (tx_puts tx) vk = Some r \<Longrightarrow> vk = record_version_key (vr_collection r) (vr_key r)"
    and "om_find (tx_puts tx) vk = Some r \<Longrightarrow> vr_version r = 0"
    and "om_find (tx_puts tx) vk = Some r \<Longrightarrow> vk \<notin> set (tx_erases tx)"
    and "om_find (tx_puts tx) vk = Some r \<Longrightarrow> vk \<in> dom (om_find (tx_read_versions tx))"
    and "vk \<in> set (tx_erases tx) \<Longrightarrow> \<exists>c k. vk = record_version_key c k"
    and "vk \<in> set (tx_erases tx) \<Longrightarrow> vk \<in> dom (om_find (tx_read_versions tx))"
  using assms unfolding tx_ok_def by blast+

lemma state_okD:
  assumes "state_ok s"
  shows "om_ordered (ms_records s)" "om_ordered (ms_versions s)"
    and "om_find (ms_records s) c = Some records \<Longrightarrow> om_ordered records"
    and "om_find (ms_records s) c = Some records \<Longrightarrow> om_find records k = Some r \<Longrightarrow> vr_collection r = c"
    and "om_find (ms_records s) c = Some records \<Longrightarrow> om_find records k = Some r \<Longrightarrow> vr_key r = k"
  using assms unfolding state_ok_def by blast+

lemma lookup_record_name:
  "state_ok s \<Longrightarrow> lookup_record s c k = Some r \<Longrightarrow> vr_collection r = c \<and> vr_key r = k"
  by (auto simp: lookup_record_def dest: state_okD split: option.splits)

lemma tx_ok_new [simp]: "tx_ok new_tx" "tx_named new_tx" "tx_open new_tx"
  by (simp_all add: tx_ok_def tx_named_def new_tx_def)

lemma begin_usable: "state_ok s \<Longrightarrow> usable (begin_tx s)"
  by (simp add: usable_def begin_tx_def)

lemma begin_view: "mem_view (begin_tx s) = committed_docs s"
  by (simp add: fun_eq_iff mem_view_def begin_tx_def new_tx_def committed_docs_def)

section \<open>Reads\<close>

lemma record_read_fields [simp]:
  "tx_open (record_read vk v tx) = tx_open tx"
  "tx_puts (record_read vk v tx) = tx_puts tx"
  "tx_erases (record_read vk v tx) = tx_erases tx"
  by (simp_all add: record_read_def)

lemma record_read_dom:
  "dom (om_find (tx_read_versions (record_read vk v tx))) = insert vk (dom (om_find (tx_read_versions tx)))"
  by (auto simp: record_read_def om_find_emplace split: if_splits)

lemma record_read_ok [intro]: "tx_ok tx \<Longrightarrow> tx_ok (record_read vk v tx)"
  unfolding tx_ok_def record_read_dom record_read_fields
  by (auto simp: record_read_def intro!: om_ordered_emplace)

lemma record_read_named [simp]: "tx_named (record_read vk v tx) = tx_named tx"
  by (simp add: tx_named_def)

text \<open>The outcome of a get on an open transaction, in terms of the record it looks up.\<close>

definition get_result :: "mem \<Rightarrow> collection_name \<Rightarrow> key \<Rightarrow> versioned_record option" where
  "get_result m c k =
     (if record_version_key c k \<in> set (tx_erases (snd m)) then None
      else case om_find (tx_puts (snd m)) (record_version_key c k) of
        Some r \<Rightarrow> Some r
      | None \<Rightarrow> lookup_record (fst m) c k)"

definition get_tx :: "mem \<Rightarrow> collection_name \<Rightarrow> key \<Rightarrow> in_memory_tx" where
  "get_tx m c k =
     (if record_version_key c k \<in> set (tx_erases (snd m)) \<or>
         om_find (tx_puts (snd m)) (record_version_key c k) \<noteq> None then snd m
      else record_read (record_version_key c k)
        (case lookup_record (fst m) c k of None \<Rightarrow> 0 | Some r \<Rightarrow> vr_version r) (snd m))"

lemma tx_get_eq:
  "tx_open (snd m) \<Longrightarrow> tx_get c k m = (Inr (get_result m c k), (fst m, get_tx m c k))"
  by (cases m)
    (simp add: tx_get_def require_open_def get_result_def get_tx_def lookup_record_def Let_def
      split: option.splits)

lemma get_tx_fields [simp]:
  "tx_open (get_tx m c k) = tx_open (snd m)"
  "tx_puts (get_tx m c k) = tx_puts (snd m)"
  "tx_erases (get_tx m c k) = tx_erases (snd m)"
  by (simp_all add: get_tx_def)

lemma get_tx_ok: "tx_ok (snd m) \<Longrightarrow> tx_ok (get_tx m c k)"
  by (auto simp: get_tx_def)

lemma get_tx_named [simp]: "tx_named (get_tx m c k) = tx_named (snd m)"
  by (simp add: get_tx_def)

lemma get_tx_reads:
  "tx_ok (snd m) \<Longrightarrow> dom (om_find (tx_read_versions (get_tx m c k))) =
     insert (record_version_key c k) (dom (om_find (tx_read_versions (snd m))))"
  using tx_okD(7,9) [of "snd m"] by (auto simp: get_tx_def record_read_dom)

lemma mem_view_cong:
  "fst m' = fst m \<Longrightarrow> tx_puts (snd m') = tx_puts (snd m) \<Longrightarrow> tx_erases (snd m') = tx_erases (snd m) \<Longrightarrow>
   mem_view m' = mem_view m"
  by (simp add: mem_view_def fun_eq_iff cong: option.case_cong)

lemma get_result_view: "plain_name c \<Longrightarrow> map_option vr_document (get_result m c k) = mem_view m c k"
  by (auto simp: get_result_def mem_view_def split: option.splits)

section \<open>Writes\<close>

definition put_tx :: "mem \<Rightarrow> collection_name \<Rightarrow> key \<Rightarrow> json \<Rightarrow> in_memory_tx" where
  "put_tx m c k d = (get_tx m c k)\<lparr>
     tx_puts := om_insert (record_version_key c k)
       \<lparr>vr_collection = c, vr_key = k, vr_version = 0, vr_document = d\<rparr> (tx_puts (snd m)),
     tx_erases := os_erase (record_version_key c k) (tx_erases (snd m))\<rparr>"

definition erase_tx :: "mem \<Rightarrow> collection_name \<Rightarrow> key \<Rightarrow> in_memory_tx" where
  "erase_tx m c k = (get_tx m c k)\<lparr>
     tx_puts := om_erase (record_version_key c k) (tx_puts (snd m)),
     tx_erases := os_insert (record_version_key c k) (tx_erases (snd m))\<rparr>"

lemma tx_put_eq:
  "tx_open (snd m) \<Longrightarrow> tx_put c k d m = (Inr (), (fst m, put_tx m c k d))"
  by (cases m) (simp add: tx_put_def require_open_def tx_get_eq put_tx_def)

lemma tx_erase_eq:
  "tx_open (snd m) \<Longrightarrow> tx_erase c k m = (Inr (), (fst m, erase_tx m c k))"
  by (cases m) (simp add: tx_erase_def require_open_def tx_get_eq erase_tx_def)

lemma put_tx_ok:
  assumes "tx_ok (snd m)"
  shows "tx_ok (put_tx m c k d)"
proof -
  note ok = tx_okD [OF get_tx_ok [OF assms, of c k]]
  have dom: "dom (om_find (tx_read_versions (put_tx m c k d))) =
      insert (record_version_key c k) (dom (om_find (tx_read_versions (snd m))))"
    using get_tx_reads [OF assms] by (simp add: put_tx_def)
  show ?thesis
    unfolding tx_ok_def dom using ok(1-3) tx_okD(4-9) [OF assms]
    by (auto simp: put_tx_def split: if_splits)
qed

lemma erase_tx_ok:
  assumes "tx_ok (snd m)"
  shows "tx_ok (erase_tx m c k)"
proof -
  note ok = tx_okD [OF get_tx_ok [OF assms, of c k]]
  have dom: "dom (om_find (tx_read_versions (erase_tx m c k))) =
      insert (record_version_key c k) (dom (om_find (tx_read_versions (snd m))))"
    using get_tx_reads [OF assms] by (simp add: erase_tx_def)
  show ?thesis
    unfolding tx_ok_def dom using ok(1-3) tx_okD(4-9) [OF assms]
    by (auto simp: erase_tx_def split: if_splits)
qed

lemma put_tx_view:
  assumes "plain_name c"
  shows "mem_view (s, put_tx (s, tx) c k d) = view_put c k d (mem_view (s, tx))"
  using assms by (auto simp: fun_eq_iff mem_view_def put_tx_def version_key_inject cong: option.case_cong)

lemma erase_tx_view:
  assumes "plain_name c"
  shows "mem_view (s, erase_tx (s, tx) c k) = view_erase c k (mem_view (s, tx))"
  using assms by (auto simp: fun_eq_iff mem_view_def erase_tx_def version_key_inject cong: option.case_cong)

lemma put_tx_named: "plain_name c \<Longrightarrow> tx_named (snd m) \<Longrightarrow> tx_named (put_tx m c k d)"
  by (auto simp: tx_named_def put_tx_def)

lemma erase_tx_named: "plain_name c \<Longrightarrow> tx_named (snd m) \<Longrightarrow> tx_named (erase_tx m c k)"
  by (auto simp: tx_named_def erase_tx_def split: if_splits)

end
