(* ===== verification/Memory_Commit.thy ===== *)
theory Memory_Commit
  imports Memory_Laws
begin

text \<open>
  Queries and commits of the in-memory backend, its indexes, and the interpretation of the
  contracts of theory \<open>Backend\<close>. A commit that returns publishes the transaction's view and keeps
  the indexes mirrors of the documents; one that throws changes nothing.
\<close>

section \<open>Unfiltered queries\<close>

definition all_result :: "mem \<Rightarrow> collection_name \<Rightarrow> versioned_record list" where
  "all_result m c =
     filter (\<lambda>r. \<not> superseded (snd m) r)
       ((case om_find (ms_records (fst m)) c of None \<Rightarrow> []
         | Some records \<Rightarrow>
             filter (\<lambda>r. om_find (tx_puts (snd m)) (record_version_key (vr_collection r) (vr_key r)) = None)
               (map snd records)) @
        filter (\<lambda>r. vr_collection r = c) (map snd (tx_puts (snd m))))"

lemma query_all_simps [simp]: "q_kind query_all = QK_All" "is_index_query query_all = False"
  by (simp_all add: query_all_def is_index_query_def)

lemma tx_query_all_eq:
  "tx_open (snd m) \<Longrightarrow>
   tx_query c query_all m = (Inr (all_result m c), (fst m, record_reads (all_result m c) (snd m)))"
proof -
  assume "tx_open (snd m)"
  moreover have "staged_candidates (fst m) (snd m) c query_all =
      Inr (filter (\<lambda>r. vr_collection r = c) (map snd (tx_puts (snd m))))"
    unfolding staged_candidates_def by (rule filter_result_Inr) simp
  moreover have "filter (\<lambda>r. tx_matches r query_all) xs = xs" for xs
    by (simp add: tx_matches_def)
  ultimately show ?thesis
    by (cases m)
      (auto simp: tx_query_def require_open_def committed_candidates_def all_result_def split: option.splits)
qed

lemma record_reads_fields [simp]:
  "tx_open (record_reads rs tx) = tx_open tx"
  "tx_puts (record_reads rs tx) = tx_puts tx"
  "tx_erases (record_reads rs tx) = tx_erases tx"
  unfolding record_reads_def by (induction rs arbitrary: tx) simp_all

lemma record_reads_ok: "tx_ok tx \<Longrightarrow> tx_ok (record_reads rs tx)"
  unfolding record_reads_def by (induction rs arbitrary: tx) auto

lemma record_reads_named [simp]: "tx_named (record_reads rs tx) = tx_named tx"
  by (simp add: tx_named_def)

lemma all_result_set:
  assumes u: "usable m"
  shows "set (all_result m c) =
    {r. lookup_record (fst m) c (vr_key r) = Some r \<and>
        om_find (tx_puts (snd m)) (record_version_key c (vr_key r)) = None \<and>
        record_version_key c (vr_key r) \<notin> set (tx_erases (snd m))} \<union>
    {r. vr_collection r = c \<and> om_find (tx_puts (snd m)) (record_version_key c (vr_key r)) = Some r}"
    (is "_ = ?C \<union> ?S")
proof -
  have s: "state_ok (fst m)" and t: "tx_ok (snd m)"
    using u by (simp_all add: usable_def)
  have staged: "r \<in> snd ` set (tx_puts (snd m)) \<longleftrightarrow>
      om_find (tx_puts (snd m)) (record_version_key (vr_collection r) (vr_key r)) = Some r" for r
    using tx_okD(2,4) [OF t] by (force simp: om_find_in_set)
  have live: "\<not> superseded (snd m) r" if "r \<in> snd ` set (tx_puts (snd m))" for r
  proof -
    have f: "om_find (tx_puts (snd m)) (record_version_key (vr_collection r) (vr_key r)) = Some r"
      using that staged by simp
    show ?thesis
      using tx_okD(5) [OF t f] tx_okD(6) [OF t f] by (simp add: superseded_def)
  qed
  have committed: "r \<in> snd ` set records \<longleftrightarrow> lookup_record (fst m) c (vr_key r) = Some r"
    if "om_find (ms_records (fst m)) c = Some records" for r records
    using state_okD(3,5) [OF s that] that by (force simp: om_find_in_set lookup_record_def)
  have coll: "vr_collection r = c" if "lookup_record (fst m) c (vr_key r) = Some r" for r
    using lookup_record_name [OF s that] by simp
  have gone: "superseded (snd m) r \<longleftrightarrow> record_version_key c (vr_key r) \<in> set (tx_erases (snd m))"
    if "vr_collection r = c" "om_find (tx_puts (snd m)) (record_version_key c (vr_key r)) = None" for r
    using that by (simp add: superseded_def)
  have C: "set (case om_find (ms_records (fst m)) c of None \<Rightarrow> []
         | Some records \<Rightarrow>
             filter (\<lambda>r. om_find (tx_puts (snd m)) (record_version_key (vr_collection r) (vr_key r)) = None)
               (map snd records)) =
     {r. lookup_record (fst m) c (vr_key r) = Some r \<and>
        om_find (tx_puts (snd m)) (record_version_key c (vr_key r)) = None}"
  proof (cases "om_find (ms_records (fst m)) c")
    case None
    then show ?thesis by (simp add: lookup_record_def)
  next
    case (Some records)
    show ?thesis
      using coll by (auto simp: Some committed [OF Some])
  qed
  have S: "set (filter (\<lambda>r. vr_collection r = c) (map snd (tx_puts (snd m)))) = ?S"
    by (auto simp: staged)
  have "set (all_result m c) = {r. \<not> superseded (snd m) r} \<inter>
     ({r. lookup_record (fst m) c (vr_key r) = Some r \<and>
        om_find (tx_puts (snd m)) (record_version_key c (vr_key r)) = None} \<union> ?S)"
    unfolding all_result_def set_filter [of _ "_ @ _"] set_append C S by blast
  also have "\<dots> = ?C \<union> ?S"
  proof -
    have "\<not> superseded (snd m) r" if "r \<in> ?S" for r
      using that by (intro live) (auto simp: staged)
    then show ?thesis
      using coll gone by blast
  qed
  finally show ?thesis .
qed

lemma tx_puts_inj:
  assumes "tx_ok tx" and "(vk, r) \<in> set (tx_puts tx)" and "(vk', r') \<in> set (tx_puts tx)"
    and "vr_collection r = vr_collection r'" and "vr_key r = vr_key r'"
  shows "vk = vk' \<and> r = r'"
proof -
  have "vk = vk'"
    using tx_okD(2,4) [OF assms(1)] assms(2-5) by (metis om_find_in_set)
  then show ?thesis
    using tx_okD(2) [OF assms(1)] assms(2,3) by (metis om_find_in_set option.inject)
qed

lemma all_result_keys_distinct:
  assumes u: "usable m"
  shows "distinct (map vr_key (all_result m c))"
proof -
  have s: "state_ok (fst m)" and t: "tx_ok (snd m)"
    using u by (simp_all add: usable_def)
  define A where "A = (case om_find (ms_records (fst m)) c of None \<Rightarrow> []
         | Some records \<Rightarrow>
             filter (\<lambda>r. om_find (tx_puts (snd m)) (record_version_key (vr_collection r) (vr_key r)) = None)
               (map snd records))"
  define B where "B = filter (\<lambda>r. vr_collection r = c) (map snd (tx_puts (snd m)))"
  have "map vr_key (map snd records) = map fst records"
    if "om_find (ms_records (fst m)) c = Some records" for records
    using state_okD(3,5) [OF s that] by (auto simp: om_find_in_set)
  then have A: "distinct (map vr_key A)"
    using state_okD(3) [OF s, THEN om_ordered_distinct]
    by (simp add: A_def distinct_map_filter del: map_map split: option.split)
  have "distinct (map snd (tx_puts (snd m)))"
    using om_ordered_distinct [OF tx_okD(2) [OF t]] tx_puts_inj [OF t]
    by (auto simp: distinct_map inj_on_def)
  then have "distinct B" and "inj_on vr_key (set B)"
    using tx_puts_inj [OF t] by (auto simp: B_def inj_on_def)
  then have B: "distinct (map vr_key B)"
    by (simp add: distinct_map)
  have inA: "om_find (tx_puts (snd m)) (record_version_key c (vr_key r)) = None"
    if r: "r \<in> set A" for r
  proof -
    obtain records k where f: "om_find (ms_records (fst m)) c = Some records" "(k, r) \<in> set records"
      and n: "om_find (tx_puts (snd m)) (record_version_key (vr_collection r) (vr_key r)) = None"
      using r by (cases "om_find (ms_records (fst m)) c") (auto simp: A_def)
    have "vr_collection r = c"
      using f state_okD(3,4) [OF s f(1)] by (metis om_find_in_set)
    then show "om_find (tx_puts (snd m)) (record_version_key c (vr_key r)) = None"
      using n by simp
  qed
  have inB: "om_find (tx_puts (snd m)) (record_version_key c (vr_key r)) \<noteq> None" if "r \<in> set B" for r
    using that tx_okD(2,4) [OF t] by (force simp: B_def om_find_in_set)
  have "vr_key ` set A \<inter> vr_key ` set B = {}"
    using inA inB by force
  then have "distinct (map vr_key (A @ B))"
    using A B by simp
  then show ?thesis
    unfolding all_result_def A_def [symmetric] B_def [symmetric] by (rule distinct_map_filter)
qed

lemma all_result_view:
  assumes u: "usable m" and c: "plain_name c"
  shows "map_of (map (\<lambda>r. (vr_key r, vr_document r)) (all_result m c)) = mem_view m c"
proof
  fix k
  have t: "tx_ok (snd m)" and s: "state_ok (fst m)"
    using u by (simp_all add: usable_def)
  let ?vk = "record_version_key c k"
  have dist: "distinct (map fst (map (\<lambda>r. (vr_key r, vr_document r)) (all_result m c)))"
    using all_result_keys_distinct [OF u] by (simp add: comp_def)
  have coll: "vr_collection r = c \<and> vr_key r = k" if "om_find (tx_puts (snd m)) ?vk = Some r" for r
    using tx_okD(4) [OF t that] u that c by (auto simp: usable_def tx_named_def version_key_inject)
  have "map_of (map (\<lambda>r. (vr_key r, vr_document r)) (all_result m c)) k = Some d \<longleftrightarrow>
      mem_view m c k = Some d" for d
  proof -
    have "map_of (map (\<lambda>r. (vr_key r, vr_document r)) (all_result m c)) k = Some d \<longleftrightarrow>
        (\<exists>r \<in> set (all_result m c). vr_key r = k \<and> vr_document r = d)"
      using map_of_eq_Some_iff [OF dist] by auto
    also have "\<dots> \<longleftrightarrow> mem_view m c k = Some d"
    proof -
      have "(\<exists>r \<in> set (all_result m c). vr_key r = k \<and> vr_document r = d) \<longleftrightarrow>
          (\<exists>r. lookup_record (fst m) c k = Some r \<and> om_find (tx_puts (snd m)) ?vk = None \<and>
             ?vk \<notin> set (tx_erases (snd m)) \<and> vr_document r = d) \<or>
          (\<exists>r. om_find (tx_puts (snd m)) ?vk = Some r \<and> vr_document r = d)"
        unfolding all_result_set [OF u] using coll lookup_record_name [OF s] by blast
      then show ?thesis
        using c tx_okD(6) [OF t] by (auto simp: mem_view_def split: option.split)
    qed
    finally show ?thesis .
  qed
  then show "map_of (map (\<lambda>r. (vr_key r, vr_document r)) (all_result m c)) k = mem_view m c k"
    by (metis not_None_eq)
qed

section \<open>Publishing\<close>

text \<open>The documents after a commit: the staged ones, the erased ones gone, the rest as they were.\<close>

definition put_docs :: "(string \<times> versioned_record) list \<Rightarrow> doc_view" where
  "put_docs es c k =
     map_of (map (\<lambda>e. ((vr_collection (snd e), vr_key (snd e)), vr_document (snd e))) es) (c, k)"

definition docs_of :: "in_memory_state \<Rightarrow> doc_view" where
  "docs_of s c k = map_option vr_document (lookup_record s c k)"

definition without :: "string list \<Rightarrow> doc_view \<Rightarrow> doc_view" where
  "without vks docs c k = (if Some (c, k) \<in> parse_record_version_key ` set vks then None else docs c k)"

definition overlay :: "doc_view \<Rightarrow> doc_view \<Rightarrow> doc_view" where
  "overlay new old c k = (case new c k of Some d \<Rightarrow> Some d | None \<Rightarrow> old c k)"

definition published_docs :: "in_memory_state \<Rightarrow> in_memory_tx \<Rightarrow> doc_view" where
  "published_docs s tx = overlay (put_docs (tx_puts tx)) (without (tx_erases tx) (docs_of s))"

lemma lookup_bump [simp]: "lookup_record (bump_version vk s) = lookup_record s"
  by (simp add: lookup_record_def bump_version_def fun_eq_iff)

lemma lookup_erase_record:
  "lookup_record (erase_record vk s) c k =
     (if parse_record_version_key vk = Some (c, k) then None else lookup_record s c k)"
  by (auto simp: erase_record_def lookup_record_def split: option.splits)

lemma lookup_store_record:
  "lookup_record (store_record r s) c k =
     (if c = vr_collection r \<and> k = vr_key r then Some r else lookup_record s c k)"
  by (auto simp: store_record_def lookup_record_def split: option.splits)

lemma docs_publish_erases: "docs_of (fold publish_erase vks s) = without vks (docs_of s)"
proof (induction vks arbitrary: s)
  case Nil
  then show ?case by (simp add: without_def fun_eq_iff)
next
  case (Cons vk vks)
  have "docs_of (publish_erase vk s) = without [vk] (docs_of s)"
    by (auto simp: docs_of_def without_def publish_erase_def lookup_erase_record fun_eq_iff)
  then show ?case
    by (simp add: Cons) (auto simp: without_def fun_eq_iff)
qed

lemma docs_publish_put:
  "docs_of (publish_put e s) =
     view_put (vr_collection (snd e)) (vr_key (snd e)) (vr_document (snd e)) (docs_of s)"
  by (auto simp: docs_of_def publish_put_def Let_def lookup_store_record fun_eq_iff)

definition puts_distinct :: "(string \<times> versioned_record) list \<Rightarrow> bool" where
  "puts_distinct es \<longleftrightarrow> distinct (map (\<lambda>e. (vr_collection (snd e), vr_key (snd e))) es)"

lemma puts_distinct_tx: "tx_ok tx \<Longrightarrow> puts_distinct (tx_puts tx)"
proof -
  assume t: "tx_ok tx"
  have "distinct (tx_puts tx)"
    using om_ordered_distinct [OF tx_okD(2) [OF t]] by (simp add: distinct_map)
  moreover have "inj_on (\<lambda>e. (vr_collection (snd e), vr_key (snd e))) (set (tx_puts tx))"
    using tx_puts_inj [OF t] by (intro inj_onI) (auto intro: prod_eqI)
  ultimately show ?thesis
    by (simp add: puts_distinct_def distinct_map)
qed

lemma put_docs_Cons:
  assumes "puts_distinct (e # es)"
  shows "put_docs (e # es) = view_put (vr_collection (snd e)) (vr_key (snd e)) (vr_document (snd e)) (put_docs es)"
    and "put_docs es (vr_collection (snd e)) (vr_key (snd e)) = None"
  using assms by (auto simp: put_docs_def puts_distinct_def fun_eq_iff map_of_eq_None_iff image_image)

lemma docs_publish_puts: "puts_distinct es \<Longrightarrow> docs_of (fold publish_put es s) = overlay (put_docs es) (docs_of s)"
proof (induction es arbitrary: s)
  case Nil
  then show ?case by (simp add: overlay_def put_docs_def fun_eq_iff)
next
  case (Cons e es)
  note d = put_docs_Cons [OF Cons.prems]
  have "puts_distinct es" using Cons.prems by (simp add: puts_distinct_def)
  then show ?case
    using d(2) by (auto simp: Cons.IH docs_publish_put d(1) overlay_def fun_eq_iff split: option.splits)
qed

lemma docs_of_indexes [simp]: "docs_of (s\<lparr>ms_indexes := x\<rparr>) = docs_of s"
  by (simp add: docs_of_def lookup_record_def fun_eq_iff)

lemma docs_publish: "tx_ok tx \<Longrightarrow> docs_of (publish tx indexes s) = published_docs s tx"
  by (simp add: publish_def published_docs_def docs_publish_erases docs_publish_puts puts_distinct_tx)

lemma put_docs_find:
  assumes "tx_ok tx"
  shows "put_docs (tx_puts tx) c k = Some d \<longleftrightarrow>
    (\<exists>r. om_find (tx_puts tx) (record_version_key c k) = Some r \<and> vr_collection r = c \<and> vr_key r = k \<and>
       vr_document r = d)"
proof -
  have "put_docs (tx_puts tx) c k = Some d \<longleftrightarrow>
      (\<exists>vk r. (vk, r) \<in> set (tx_puts tx) \<and> vr_collection r = c \<and> vr_key r = k \<and> vr_document r = d)"
  proof -
    let ?es = "map (\<lambda>e. ((vr_collection (snd e), vr_key (snd e)), vr_document (snd e))) (tx_puts tx)"
    have "distinct (map fst ?es)"
      using puts_distinct_tx [OF assms] by (simp add: puts_distinct_def comp_def)
    then have "put_docs (tx_puts tx) c k = Some d \<longleftrightarrow> ((c, k), d) \<in> set ?es"
      by (simp add: put_docs_def)
    also have "\<dots> \<longleftrightarrow> (\<exists>e \<in> set (tx_puts tx).
        vr_collection (snd e) = c \<and> vr_key (snd e) = k \<and> vr_document (snd e) = d)"
      unfolding set_map image_iff by auto
    also have "\<dots> \<longleftrightarrow> (\<exists>vk r. (vk, r) \<in> set (tx_puts tx) \<and> vr_collection r = c \<and> vr_key r = k \<and> vr_document r = d)"
      unfolding Bex_def by simp
    finally show ?thesis .
  qed
  then show ?thesis
    unfolding om_find_in_set [OF tx_okD(2) [OF assms], symmetric]
    using tx_okD(4) [OF assms] by fast
qed

text \<open>For collection names without a colon, what is published is what the transaction saw.\<close>

lemma published_view:
  assumes u: "usable (s, tx)" and c: "plain_name c"
  shows "published_docs s tx c k = mem_view (s, tx) c k"
proof -
  have t: "tx_ok tx" and n: "tx_named tx"
    using u by (simp_all add: usable_def)
  let ?vk = "record_version_key c k"
  have erased: "Some (c, k) \<in> parse_record_version_key ` set (tx_erases tx) \<longleftrightarrow> ?vk \<in> set (tx_erases tx)"
    using parse_version_key [OF c] parse_version_key_inverse by (metis image_iff)
  have put: "put_docs (tx_puts tx) c k = map_option vr_document (om_find (tx_puts tx) ?vk)"
  proof (cases "om_find (tx_puts tx) ?vk")
    case None
    then show ?thesis using put_docs_find [OF t] by (metis not_None_eq option.distinct(1) option.simps(8))
  next
    case (Some r)
    then have "vr_collection r = c \<and> vr_key r = k"
      using tx_okD(4) [OF t Some] n c by (auto simp: tx_named_def version_key_inject)
    then show ?thesis using put_docs_find [OF t, of c k "vr_document r"] Some by simp
  qed
  show ?thesis
    using c tx_okD(6) [OF t, of ?vk]
    by (auto simp: published_docs_def overlay_def without_def erased put mem_view_def docs_of_def split: option.splits)
qed

lemma docs_of_committed: "plain_name c \<Longrightarrow> committed_docs s c = docs_of s c"
  by (simp add: committed_docs_def docs_of_def fun_eq_iff)

section \<open>The state invariant survives a commit\<close>

lemma bump_version_ok: "state_ok s \<Longrightarrow> state_ok (bump_version vk s)"
  by (simp add: state_ok_def bump_version_def)

lemma erase_record_ok: "state_ok s \<Longrightarrow> state_ok (erase_record vk s)"
  by (auto simp: state_ok_def erase_record_def split: option.splits if_splits)

lemma store_record_ok: "state_ok s \<Longrightarrow> state_ok (store_record r s)"
  by (auto simp: state_ok_def store_record_def split: option.splits if_splits)

lemma publish_ok: "state_ok s \<Longrightarrow> state_ok (publish tx indexes s)"
proof -
  assume s: "state_ok s"
  have "state_ok (fold publish_erase vks s)" if "state_ok s" for vks s
    using that by (induction vks arbitrary: s) (auto simp: publish_erase_def bump_version_ok erase_record_ok)
  moreover have "state_ok (fold publish_put es s)" if "state_ok s" for es s
    using that by (induction es arbitrary: s) (auto simp: publish_put_def Let_def bump_version_ok store_record_ok)
  ultimately have "state_ok (fold publish_put (tx_puts tx) (fold publish_erase (tx_erases tx) s))"
    using s by blast
  then show ?thesis by (simp add: publish_def state_ok_def)
qed

lemma tx_commit_cases:
  assumes "tx_commit (s, tx) = (r, m')"
  obtains (Conflict) e where "r = Inl e" and "m' = (s, tx)"
    | (Commit) staged where "r = Inr ()" and "reads_current s tx" and "stage_indexes s tx = Inr staged"
      and "m' = (publish tx staged s, \<lparr>tx_open = False, tx_read_versions = [], tx_puts = [], tx_erases = []\<rparr>)"
      and "tx_open tx"
  using assms
  by (auto simp: tx_commit_def bindM_def require_open_def tx_abort_def split: if_splits sum.splits)

section \<open>The indexes survive a commit\<close>

lemma stage_erase_mirrors:
  assumes m: "indexes_mirror docs indexes" and s: "state_ok s"
    and same: "\<And>c k. parse_record_version_key vk = Some (c, k) \<Longrightarrow> docs c k = docs_of s c k"
  shows "\<exists>indexes'. stage_erase s vk indexes = Inr indexes' \<and> indexes_mirror (without [vk] docs) indexes'"
proof (cases "parse_record_version_key vk")
  case None
  then have "without [vk] docs = docs" by (simp add: without_def fun_eq_iff)
  then show ?thesis using m None by (simp add: stage_erase_def)
next
  case (Some ck)
  obtain c k where ck: "ck = (c, k)" by force
  have w: "without [vk] docs = view_erase c k docs"
    using Some by (auto simp: without_def fun_eq_iff ck)
  show ?thesis
  proof (cases "lookup_record s c k")
    case None
    then have "view_erase c k docs = docs"
      using same [of c k] Some by (auto simp: fun_eq_iff ck docs_of_def)
    then show ?thesis using m None Some by (simp add: stage_erase_def ck w)
  next
    case (Some r)
    then have "docs (vr_collection r) (vr_key r) = Some (vr_document r)"
      using same [of c k] \<open>parse_record_version_key vk = Some ck\<close> lookup_record_name [OF s Some]
      by (simp add: docs_of_def ck)
    then show ?thesis
      using remove_record_mirrors [OF m, of r] \<open>parse_record_version_key vk = Some ck\<close> Some lookup_record_name [OF s Some]
      by (simp add: stage_erase_def ck w)
  qed
qed

lemma stage_erases_mirror:
  assumes "indexes_mirror docs indexes" and "state_ok s"
    and "\<And>vk c k. vk \<in> set vks \<Longrightarrow> parse_record_version_key vk = Some (c, k) \<Longrightarrow> docs c k = docs_of s c k"
    and "distinct vks"
  shows "\<exists>indexes'. fold_result (stage_erase s) vks indexes = Inr indexes' \<and>
    indexes_mirror (without vks docs) indexes'"
  using assms
proof (induction vks arbitrary: docs indexes)
  case Nil
  then show ?case by (simp add: without_def)
next
  case (Cons vk vks)
  obtain indexes1 where 1: "stage_erase s vk indexes = Inr indexes1" "indexes_mirror (without [vk] docs) indexes1"
    using stage_erase_mirrors [OF Cons.prems(1,2), of vk] Cons.prems(3) by auto
  have "without [vk] docs c k = docs_of s c k"
    if "vk' \<in> set vks" "parse_record_version_key vk' = Some (c, k)" for vk' c k
  proof -
    have "parse_record_version_key vk \<noteq> Some (c, k)"
      using that Cons.prems(4) parse_version_key_inverse by (metis distinct.simps(2))
    then show ?thesis using that Cons.prems(3) [of vk' c k] by (auto simp: without_def)
  qed
  then obtain indexes2 where "fold_result (stage_erase s) vks indexes1 = Inr indexes2"
      "indexes_mirror (without vks (without [vk] docs)) indexes2"
    using Cons.IH [OF 1(2) Cons.prems(2)] Cons.prems(4) by auto
  moreover have "without vks (without [vk] docs) = without (vk # vks) docs"
    by (auto simp: without_def fun_eq_iff)
  ultimately show ?case using 1(1) by simp
qed

lemma stage_put_mirrors:
  assumes m: "indexes_mirror docs indexes" and s: "state_ok s"
    and same: "docs (vr_collection r) (vr_key r) = docs_of s (vr_collection r) (vr_key r)"
    and put: "stage_put s r indexes = Inr indexes'"
  shows "indexes_mirror (view_put (vr_collection r) (vr_key r) (vr_document r) docs) indexes'"
proof (cases "lookup_record s (vr_collection r) (vr_key r)")
  case None
  then show ?thesis
    using put same by (intro add_record_mirrors [OF m]) (simp_all add: stage_put_def docs_of_def)
next
  case (Some old)
  note name = lookup_record_name [OF s Some]
  obtain indexes1 where 1: "remove_record_from_indexes indexes old = Inr indexes1"
      "indexes_mirror (view_erase (vr_collection r) (vr_key r) docs) indexes1"
    using remove_record_mirrors [OF m, of old] same name Some by (auto simp: docs_of_def)
  have "indexes_mirror (view_put (vr_collection r) (vr_key r) (vr_document r)
      (view_erase (vr_collection r) (vr_key r) docs)) indexes'"
    using put Some 1(1) by (intro add_record_mirrors [OF 1(2)]) (simp_all add: stage_put_def)
  moreover have "view_put (vr_collection r) (vr_key r) (vr_document r)
      (view_erase (vr_collection r) (vr_key r) docs) = view_put (vr_collection r) (vr_key r) (vr_document r) docs"
    by (auto simp: fun_eq_iff)
  ultimately show ?thesis by simp
qed

lemma stage_puts_mirror:
  assumes "indexes_mirror docs indexes" and "state_ok s" and "puts_distinct es"
    and "\<And>e. e \<in> set es \<Longrightarrow>
      docs (vr_collection (snd e)) (vr_key (snd e)) = docs_of s (vr_collection (snd e)) (vr_key (snd e))"
    and "fold_result (\<lambda>e. stage_put s (snd e)) es indexes = Inr indexes'"
  shows "indexes_mirror (overlay (put_docs es) docs) indexes'"
  using assms
proof (induction es arbitrary: docs indexes)
  case Nil
  moreover have "overlay (put_docs []) docs = docs"
    by (simp add: overlay_def put_docs_def fun_eq_iff)
  ultimately show ?case by simp
next
  case (Cons e es)
  let ?docs1 = "view_put (vr_collection (snd e)) (vr_key (snd e)) (vr_document (snd e)) docs"
  obtain indexes1 where 1: "stage_put s (snd e) indexes = Inr indexes1"
      "fold_result (\<lambda>e. stage_put s (snd e)) es indexes1 = Inr indexes'"
    using Cons.prems(5) by (auto simp: andThen_Inr_iff)
  have m1: "indexes_mirror ?docs1 indexes1"
    using stage_put_mirrors [OF Cons.prems(1,2) _ 1(1)] Cons.prems(4) by simp
  have "?docs1 (vr_collection (snd e')) (vr_key (snd e')) = docs_of s (vr_collection (snd e')) (vr_key (snd e'))"
    if "e' \<in> set es" for e'
  proof -
    have "(vr_collection (snd e'), vr_key (snd e')) \<noteq> (vr_collection (snd e), vr_key (snd e))"
      using Cons.prems(3) that by (auto simp: puts_distinct_def rev_image_eqI)
    then show ?thesis using Cons.prems(4) [of e'] that by auto
  qed
  then have "indexes_mirror (overlay (put_docs es) ?docs1) indexes'"
    using Cons.prems(3) by (intro Cons.IH [OF m1 Cons.prems(2) _ _ 1(2)]) (auto simp: puts_distinct_def)
  moreover have "overlay (put_docs es) ?docs1 = overlay (put_docs (e # es)) docs"
    using put_docs_Cons [OF Cons.prems(3)] by (auto simp: overlay_def fun_eq_iff split: option.splits)
  ultimately show ?case by simp
qed

lemma stage_indexes_mirror:
  assumes m: "indexes_mirror (docs_of s) (ms_indexes s)" and s: "state_ok s" and t: "tx_ok tx"
    and staged: "stage_indexes s tx = Inr staged"
  shows "indexes_mirror (published_docs s tx) staged"
proof -
  obtain indexes1 where 1: "fold_result (stage_erase s) (tx_erases tx) (ms_indexes s) = Inr indexes1"
      "indexes_mirror (without (tx_erases tx) (docs_of s)) indexes1"
    using stage_erases_mirror [OF m s, of "tx_erases tx"] os_ordered_distinct [OF tx_okD(3) [OF t]] by auto
  have puts: "fold_result (\<lambda>e. stage_put s (snd e)) (tx_puts tx) indexes1 = Inr staged"
    using staged by (simp add: stage_indexes_def 1(1))
  have "without (tx_erases tx) (docs_of s) (vr_collection (snd e)) (vr_key (snd e)) =
      docs_of s (vr_collection (snd e)) (vr_key (snd e))" if "e \<in> set (tx_puts tx)" for e
  proof -
    have f: "om_find (tx_puts tx) (fst e) = Some (snd e)"
      using that om_find_in_set [OF tx_okD(2) [OF t]] by simp
    have "Some (vr_collection (snd e), vr_key (snd e)) \<notin> parse_record_version_key ` set (tx_erases tx)"
    proof
      assume "Some (vr_collection (snd e), vr_key (snd e)) \<in> parse_record_version_key ` set (tx_erases tx)"
      then obtain vk where "vk \<in> set (tx_erases tx)"
          "parse_record_version_key vk = Some (vr_collection (snd e), vr_key (snd e))"
        by auto
      then show False
        using tx_okD(4,6) [OF t f] parse_version_key_inverse by metis
    qed
    then show ?thesis by (simp add: without_def)
  qed
  then show ?thesis
    unfolding published_docs_def
    by (intro stage_puts_mirror [OF 1(2) s puts_distinct_tx [OF t] _ puts])
qed

text \<open>Registering a collection that has no record, or a new version of one, keeps the mirrors.\<close>

lemma empty_index_states_mirror:
  assumes "e \<in> set (empty_index_states descriptor)"
  shows "index_mirrors (\<lambda>k. None) (snd e)"
proof -
  have "index_mirrors (\<lambda>k. None) (snd e)"
    if "e \<in> set (fold (\<lambda>i states. om_emplace (id_name i) \<lparr>mi_descriptor = i, mi_entries = []\<rparr> states) is st)"
      and "\<forall>e \<in> set st. index_mirrors (\<lambda>k. None) (snd e)" for "is" st e
    using that
  proof (induction "is" arbitrary: st)
    case (Cons i "is")
    show ?case
    proof (rule Cons.IH)
      show "e \<in> set (fold (\<lambda>i states. om_emplace (id_name i) \<lparr>mi_descriptor = i, mi_entries = []\<rparr> states) is
          (om_emplace (id_name i) \<lparr>mi_descriptor = i, mi_entries = []\<rparr> st))"
        using Cons.prems(1) by simp
      show "\<forall>e \<in> set (om_emplace (id_name i) \<lparr>mi_descriptor = i, mi_entries = []\<rparr> st). index_mirrors (\<lambda>k. None) (snd e)"
        using Cons.prems(2) set_om_insert_subset [of "id_name i" "\<lparr>mi_descriptor = i, mi_entries = []\<rparr>" st]
          index_mirrors_empty [of i]
        by (auto simp: om_emplace_def split: option.splits)
    qed
  qed simp
  then show ?thesis using assms by (simp add: empty_index_states_def)
qed

lemma ensure_collection_mirrors:
  assumes m: "indexes_mirror (docs_of s) (ms_indexes s)"
    and fresh: "om_find (ms_collections s) (cd_name d) = None \<Longrightarrow> docs_of s (cd_name d) = (\<lambda>k. None)"
    and run: "ensure_collection d s = (r, s')"
  shows "indexes_mirror (docs_of s') (ms_indexes s')"
proof -
  have docs: "docs_of s' = docs_of s"
    using run by (auto simp: ensure_collection_def docs_of_def lookup_record_def fun_eq_iff
        split: option.splits sum.splits)
  show ?thesis
  proof (cases "om_find (ms_collections s) (cd_name d)")
    case None
    then have "ms_indexes s' = om_insert (cd_name d) (empty_index_states d) (ms_indexes s)"
      using run by (auto simp: ensure_collection_def)
    then show ?thesis
      using m fresh [OF None] empty_index_states_mirror by (auto simp: docs indexes_mirror_def)
  next
    case (Some e)
    then have "ms_indexes s' = ms_indexes s"
      using run by (auto simp: ensure_collection_def split: sum.splits)
    then show ?thesis using m by (simp add: docs)
  qed
qed

section \<open>Interpretation of the contracts\<close>

interpretation memory: occ_backend in_memory_backend usable mem_view plain_name committed_docs state_ok
proof unfold_locales
  fix m :: mem and c k d
  assume u: "usable m" and c: "plain_name c"
  have o: "tx_open (snd m)" "tx_ok (snd m)" "tx_named (snd m)" "state_ok (fst m)"
    using u by (simp_all add: usable_def)
  show "\<exists>r tx'. it_get (ib_tx in_memory_backend) c k m = (Inr r, tx') \<and> usable tx' \<and>
      mem_view tx' = mem_view m \<and> map_option vr_document r = mem_view m c k"
    using o c get_result_view [of c m k]
    by (auto simp: tx_get_eq usable_def get_tx_ok intro: mem_view_cong)
  show "\<exists>tx'. it_put (ib_tx in_memory_backend) c k d m = (Inr (), tx') \<and> usable tx' \<and>
      mem_view tx' = view_put c k d (mem_view m)"
    using o c put_tx_view [OF c, of "fst m" "snd m" k d]
    by (simp add: tx_put_eq usable_def put_tx_ok put_tx_named) (simp add: put_tx_def)
  show "\<exists>tx'. it_erase (ib_tx in_memory_backend) c k m = (Inr (), tx') \<and> usable tx' \<and>
      mem_view tx' = view_erase c k (mem_view m)"
    using o c erase_tx_view [OF c, of "fst m" "snd m" k]
    by (simp add: tx_erase_eq usable_def erase_tx_ok erase_tx_named) (simp add: erase_tx_def)
  show "\<exists>rs tx'. it_query (ib_tx in_memory_backend) c query_all m = (Inr rs, tx') \<and> usable tx' \<and>
      mem_view tx' = mem_view m \<and> distinct (map vr_key rs) \<and>
      map_of (map (\<lambda>r. (vr_key r, vr_document r)) rs) = mem_view m c"
    using o all_result_view [OF u c] all_result_keys_distinct [OF u, of c]
    by (auto simp: tx_query_all_eq usable_def record_reads_ok intro: mem_view_cong)
next
  fix s :: in_memory_state
  assume "state_ok s"
  then show "usable (ib_begin in_memory_backend s) \<and> mem_view (ib_begin in_memory_backend s) = committed_docs s \<and>
      ib_shared in_memory_backend (ib_begin in_memory_backend s) = s"
    by (simp add: begin_usable begin_view) (simp add: begin_tx_def)
next
  fix m m' :: mem and c
  assume u: "usable m" and run: "ib_commit in_memory_backend m = (Inr (), m')"
  have "tx_commit (fst m, snd m) = (Inr (), m')"
    using run u by (simp add: as_memory_tx_def bindM_def require_open_def usable_def)
  then obtain staged where m': "m' = (publish (snd m) staged (fst m),
      \<lparr>tx_open = False, tx_read_versions = [], tx_puts = [], tx_erases = []\<rparr>)"
    by (rule tx_commit_cases) auto
  have o: "tx_ok (snd m)" "state_ok (fst m)"
    using u by (simp_all add: usable_def)
  show "committed_docs (ib_shared in_memory_backend m') c = mem_view m c" if "plain_name c"
    using that published_view [of "fst m" "snd m" c] u o
    by (simp add: m' docs_of_committed docs_publish fun_eq_iff)
  show "state_ok (ib_shared in_memory_backend m')"
    using o by (simp add: m' publish_ok)
next
  fix m m' :: mem and e
  assume run: "ib_commit in_memory_backend m = (Inl e, m')"
  then have "m' = m"
    by (cases m) (auto simp: as_memory_tx_def require_open_def elim!: bindM_cases split: if_splits
        elim: tx_commit_cases)
  then show "ib_shared in_memory_backend m' = ib_shared in_memory_backend m"
    by simp
qed

end
