(* ===== verification/OCC.thy ===== *)
theory OCC
  imports Memory_Commit
begin

text \<open>
  Optimistic concurrency control of the in-memory backend: any number of transactions
  interleave their operations on one shared state, each operation one step under the mutex.
  The system keeps, as a ghost, what each transaction did and was told and which transactions
  committed in which order; the main result is that the committed transactions behave as if
  each had run alone at its commit point.
\<close>

section \<open>Operations and their replies\<close>

datatype tx_op =
    Op_Get collection_name key
  | Op_Put collection_name key json
  | Op_Erase collection_name key

datatype tx_reply =
    Got "versioned_record option"
  | Done
  | Failed exn

fun run_op :: "tx_op \<Rightarrow> mem \<Rightarrow> tx_reply \<times> mem" where
  "run_op (Op_Get c k) m = (case tx_get c k m of (Inl e, m') \<Rightarrow> (Failed e, m') | (Inr r, m') \<Rightarrow> (Got r, m'))"
| "run_op (Op_Put c k d) m = (case tx_put c k d m of (Inl e, m') \<Rightarrow> (Failed e, m') | (Inr _, m') \<Rightarrow> (Done, m'))"
| "run_op (Op_Erase c k) m = (case tx_erase c k m of (Inl e, m') \<Rightarrow> (Failed e, m') | (Inr _, m') \<Rightarrow> (Done, m'))"

fun run_ops :: "tx_op list \<Rightarrow> mem \<Rightarrow> tx_reply list \<times> mem" where
  "run_ops [] m = ([], m)"
| "run_ops (a # as) m = (let (r, m1) = run_op a m; (rs, m2) = run_ops as m1 in (r # rs, m2))"

section \<open>The system\<close>

datatype occ_event =
    Committed "tx_op list" "tx_reply list"
  | Registered collection_descriptor

record occ_system =
  sys_state :: in_memory_state
  sys_txs :: "nat \<Rightarrow> in_memory_tx"
  sys_logs :: "nat \<Rightarrow> (tx_op \<times> tx_reply) list"
  sys_history :: "occ_event list"

definition closed_tx :: in_memory_tx where
  "closed_tx = \<lparr>tx_open = False, tx_read_versions = [], tx_puts = [], tx_erases = []\<rparr>"

definition initial_system :: occ_system where
  "initial_system =
     \<lparr>sys_state = initial_state, sys_txs = (\<lambda>i. closed_tx), sys_logs = (\<lambda>i. []), sys_history = []\<rparr>"

inductive occ_step :: "occ_system \<Rightarrow> occ_system \<Rightarrow> bool" where
  step_begin:
    "occ_step y (y\<lparr>sys_txs := (sys_txs y)(i := snd (begin_tx (sys_state y))),
                   sys_logs := (sys_logs y)(i := [])\<rparr>)"
| step_op:
    "run_op a (sys_state y, sys_txs y i) = (r, (s', tx')) \<Longrightarrow>
     occ_step y (y\<lparr>sys_state := s', sys_txs := (sys_txs y)(i := tx'),
                   sys_logs := (sys_logs y)(i := sys_logs y i @ [(a, r)])\<rparr>)"
| step_abort:
    "tx_abort (sys_state y, sys_txs y i) = (Inr (), (s', tx')) \<Longrightarrow>
     occ_step y (y\<lparr>sys_state := s', sys_txs := (sys_txs y)(i := tx')\<rparr>)"
| step_commit:
    "tx_commit (sys_state y, sys_txs y i) = (Inr (), (s', tx')) \<Longrightarrow>
     occ_step y (y\<lparr>sys_state := s', sys_txs := (sys_txs y)(i := tx'),
                   sys_history := sys_history y @ [Committed (map fst (sys_logs y i)) (map snd (sys_logs y i))]\<rparr>)"
| step_commit_fails:
    "tx_commit (sys_state y, sys_txs y i) = (Inl e, (s', tx')) \<Longrightarrow>
     occ_step y (y\<lparr>sys_state := s', sys_txs := (sys_txs y)(i := tx')\<rparr>)"
| step_register:
    "ensure_collection d (sys_state y) = (Inr (), s') \<Longrightarrow>
     occ_step y (y\<lparr>sys_state := s', sys_history := sys_history y @ [Registered d]\<rparr>)"

inductive occ_reachable :: "occ_system \<Rightarrow> bool" where
  reach_initial: "occ_reachable initial_system"
| reach_step: "occ_reachable y \<Longrightarrow> occ_step y z \<Longrightarrow> occ_reachable z"

inductive_cases occ_stepE: "occ_step y z"

definition commits :: "occ_event list \<Rightarrow> nat" where
  "commits es = length (filter (\<lambda>e. case e of Committed _ _ \<Rightarrow> True | Registered _ \<Rightarrow> False) es)"

text \<open>The specification: the events of a history one after the other, each transaction run from
  begin to commit with nothing in between; \<open>None\<close> when a reply differs or the commit throws.\<close>

fun serial :: "occ_event list \<Rightarrow> in_memory_state \<Rightarrow> in_memory_state option" where
  "serial [] s = Some s"
| "serial (Committed as rs # es) s =
     (let (rs', m) = run_ops as (begin_tx s) in
      if rs' \<noteq> rs then None
      else case tx_commit m of (Inl e, _) \<Rightarrow> None | (Inr _, m') \<Rightarrow> serial es (fst m'))"
| "serial (Registered d # es) s =
     (case ensure_collection d s of (Inl e, _) \<Rightarrow> None | (Inr _, s') \<Rightarrow> serial es s')"

lemma serial_append:
  "serial (es @ fs) s = (case serial es s of None \<Rightarrow> None | Some s' \<Rightarrow> serial fs s')"
  by (induction es s rule: serial.induct) (auto simp: Let_def split: prod.splits sum.splits)

lemma run_ops_append:
  "run_ops (as @ bs) m =
     (let (rs, m1) = run_ops as m; (rs', m2) = run_ops bs m1 in (rs @ rs', m2))"
  by (induction as arbitrary: m) (auto simp: Let_def split: prod.splits)

section \<open>What an operation does\<close>

definition op_key :: "tx_op \<Rightarrow> string" where
  "op_key a = (case a of Op_Get c k \<Rightarrow> record_version_key c k | Op_Put c k _ \<Rightarrow> record_version_key c k
     | Op_Erase c k \<Rightarrow> record_version_key c k)"

definition op_reply :: "tx_op \<Rightarrow> mem \<Rightarrow> tx_reply" where
  "op_reply a m = (case a of Op_Get c k \<Rightarrow> Got (get_result m c k) | _ \<Rightarrow> Done)"

definition op_tx :: "tx_op \<Rightarrow> mem \<Rightarrow> in_memory_tx" where
  "op_tx a m = (case a of Op_Get c k \<Rightarrow> get_tx m c k | Op_Put c k d \<Rightarrow> put_tx m c k d
     | Op_Erase c k \<Rightarrow> erase_tx m c k)"

lemma run_op_open:
  "tx_open (snd m) \<Longrightarrow> run_op a m = (op_reply a m, (fst m, op_tx a m))"
  by (cases a) (simp_all add: tx_get_eq tx_put_eq tx_erase_eq op_reply_def op_tx_def)

lemma run_op_closed:
  "\<not> tx_open (snd m) \<Longrightarrow> snd (run_op a m) = m"
  by (cases a) (simp_all add: tx_get_def tx_put_def tx_erase_def require_open_def bindM_def)

lemma op_tx_ok: "tx_ok (snd m) \<Longrightarrow> tx_ok (op_tx a m)"
  by (cases a) (simp_all add: op_tx_def get_tx_ok put_tx_ok erase_tx_ok)

lemma op_tx_open [simp]: "tx_open (op_tx a m) = tx_open (snd m)"
  by (cases a) (simp_all add: op_tx_def put_tx_def erase_tx_def)

text \<open>An operation records at most one read, of its own key, and never replaces one.\<close>

lemma op_tx_reads:
  "tx_read_versions (op_tx a m) = tx_read_versions (snd m) \<or>
   (\<exists>v. tx_read_versions (op_tx a m) = om_emplace (op_key a) v (tx_read_versions (snd m)) \<and>
     (\<exists>c k. op_key a = record_version_key c k \<and>
        v = (case lookup_record (fst m) c k of None \<Rightarrow> 0 | Some r \<Rightarrow> vr_version r)))"
  by (cases a) (auto simp: op_tx_def op_key_def put_tx_def erase_tx_def get_tx_def record_read_def)

lemma op_tx_reads_dom:
  assumes "tx_ok (snd m)"
  shows "dom (om_find (tx_read_versions (op_tx a m))) = insert (op_key a) (dom (om_find (tx_read_versions (snd m))))"
  using get_tx_reads [OF assms] by (cases a) (simp_all add: op_tx_def op_key_def put_tx_def erase_tx_def)

lemma op_tx_keeps_reads:
  "om_find (tx_read_versions (snd m)) vk = Some v \<Longrightarrow> om_find (tx_read_versions (op_tx a m)) vk = Some v"
  using op_tx_reads [of a m] by (auto simp: om_find_emplace)

text \<open>An operation looks up no record but the one of its key.\<close>

lemma op_frame:
  assumes "\<And>c k. record_version_key c k = op_key a \<Longrightarrow> lookup_record s' c k = lookup_record s c k"
  shows "op_reply a (s', tx) = op_reply a (s, tx)" and "op_tx a (s', tx) = op_tx a (s, tx)"
  using assms
  by (cases a; simp add: op_reply_def op_tx_def op_key_def get_result_def put_tx_def erase_tx_def get_tx_def
      cong: option.case_cong)+

lemma run_ops_open:
  assumes "tx_open tx" and "tx_ok tx" and "run_ops as (s, tx) = (rs, (s1, tx1))"
  shows "s1 = s \<and> tx_open tx1 \<and> tx_ok tx1 \<and> dom (om_find (tx_read_versions tx)) \<subseteq> dom (om_find (tx_read_versions tx1))"
  using assms
proof (induction as arbitrary: tx rs)
  case (Cons a as)
  obtain rs' where run: "run_ops as (s, op_tx a (s, tx)) = (rs', (s1, tx1))"
    using Cons.prems(1,3) by (auto simp: run_op_open Let_def split: prod.splits)
  show ?case
    using Cons.IH [OF _ _ run] Cons.prems(1,2) op_tx_ok [of "(s, tx)" a] op_tx_reads_dom [of "(s, tx)" a] by auto
qed auto

text \<open>A run depends only on the records whose keys it reads.\<close>

lemma run_ops_frame:
  assumes "tx_open tx" and "tx_ok tx" and "run_ops as (s, tx) = (rs, (s1, tx1))"
    and "\<And>c k. record_version_key c k \<in> dom (om_find (tx_read_versions tx1)) \<Longrightarrow>
      lookup_record s' c k = lookup_record s c k"
  shows "run_ops as (s', tx) = (rs, (s', tx1))"
  using assms
proof (induction as arbitrary: tx rs)
  case (Cons a as)
  obtain rs' where run: "run_ops as (s, op_tx a (s, tx)) = (rs', (s1, tx1))" and rs: "rs = op_reply a (s, tx) # rs'"
    using Cons.prems(1,3) by (auto simp: run_op_open Let_def split: prod.splits)
  have ok: "tx_open (op_tx a (s, tx))" "tx_ok (op_tx a (s, tx))"
    using Cons.prems(1,2) op_tx_ok [of "(s, tx)" a] by auto
  have "op_key a \<in> dom (om_find (tx_read_versions tx1))"
    using run_ops_open [OF ok run] op_tx_reads_dom [of "(s, tx)" a] Cons.prems(2) by auto
  then have same: "op_reply a (s', tx) = op_reply a (s, tx)" "op_tx a (s', tx) = op_tx a (s, tx)"
    using op_frame [of a s' s tx] Cons.prems(4) by metis+
  have "run_ops as (s', op_tx a (s, tx)) = (rs', (s', tx1))"
    using Cons.IH [OF ok run Cons.prems(4)] .
  then show ?case
    using Cons.prems(1) by (simp add: run_op_open same rs Let_def)
qed simp

section \<open>Versions\<close>

abbreviation ver :: "in_memory_state \<Rightarrow> string \<Rightarrow> version" where
  "ver s vk \<equiv> version_or_zero (ms_versions s) vk"

lemma ver_bump: "ver (bump_version vk s) vk' = (if vk' = vk then ver s vk + 1 else ver s vk')"
  by (simp add: version_or_zero_def bump_version_def)

lemma ver_publish_erase: "ver (publish_erase vk s) vk' = (if vk' = vk then ver s vk + 1 else ver s vk')"
proof -
  have "ms_versions (erase_record vk s) = ms_versions s"
    by (simp add: erase_record_def split: option.splits)
  then show ?thesis by (simp add: publish_erase_def ver_bump)
qed

lemma ver_publish_put: "ver (publish_put e s) vk' = (if vk' = fst e then ver s vk' + 1 else ver s vk')"
proof -
  have "ms_versions (store_record r t) = ms_versions t" for r t
    by (simp add: store_record_def)
  then show ?thesis by (simp add: publish_put_def Let_def ver_bump)
qed

lemma ver_publish_erases:
  "distinct vks \<Longrightarrow> ver (fold publish_erase vks s) vk = ver s vk + (if vk \<in> set vks then 1 else 0)"
  by (induction vks arbitrary: s) (auto simp: ver_publish_erase)

lemma ver_publish_puts:
  "distinct (map fst es) \<Longrightarrow> ver (fold publish_put es s) vk = ver s vk + (if vk \<in> fst ` set es then 1 else 0)"
  by (induction es arbitrary: s) (auto simp: ver_publish_put)

text \<open>The keys a transaction writes; a commit adds one to the version of each.\<close>

definition written :: "in_memory_tx \<Rightarrow> string set" where
  "written tx = set (tx_erases tx) \<union> dom (om_find (tx_puts tx))"

lemma ver_publish:
  assumes "tx_ok tx"
  shows "ver (publish tx indexes s) vk = ver s vk + (if vk \<in> written tx then 1 else 0)"
proof -
  have "distinct (map fst (tx_puts tx))" "distinct (tx_erases tx)"
    using om_ordered_distinct [OF tx_okD(2) [OF assms]] os_ordered_distinct [OF tx_okD(3) [OF assms]] .
  moreover have "dom (om_find (tx_puts tx)) = fst ` set (tx_puts tx)"
    by (rule dom_map_of_conv_image_fst)
  ultimately show ?thesis
    using tx_okD(6) [OF assms]
    by (auto simp: publish_def written_def ver_publish_erases ver_publish_puts)
qed

text \<open>A record whose key is not written stays.\<close>

lemma lookup_publish_erases:
  "record_version_key c k \<notin> set vks \<Longrightarrow> lookup_record (fold publish_erase vks s) c k = lookup_record s c k"
proof (induction vks arbitrary: s)
  case (Cons vk vks)
  have "parse_record_version_key vk \<noteq> Some (c, k)"
    using Cons.prems parse_version_key_inverse by force
  then have "lookup_record (publish_erase vk s) c k = lookup_record s c k"
    by (simp add: publish_erase_def lookup_erase_record)
  then show ?case using Cons by simp
qed simp

lemma lookup_publish_puts:
  "\<forall>e \<in> set es. fst e = record_version_key (vr_collection (snd e)) (vr_key (snd e)) \<Longrightarrow>
   record_version_key c k \<notin> fst ` set es \<Longrightarrow> lookup_record (fold publish_put es s) c k = lookup_record s c k"
proof (induction es arbitrary: s)
  case (Cons e es)
  have "lookup_record (publish_put e s) c k = lookup_record s c k"
    using Cons.prems by (auto simp: publish_put_def Let_def lookup_store_record)
  then show ?case using Cons by simp
qed simp

lemma tx_puts_keys:
  "tx_ok tx \<Longrightarrow> e \<in> set (tx_puts tx) \<Longrightarrow> fst e = record_version_key (vr_collection (snd e)) (vr_key (snd e))"
  using tx_okD(2,4) [of tx] by (metis om_find_in_set prod.collapse)

lemma lookup_indexes [simp]: "lookup_record (s\<lparr>ms_indexes := x\<rparr>) = lookup_record s"
  by (simp add: lookup_record_def fun_eq_iff)

lemma lookup_publish:
  assumes "tx_ok tx" and "record_version_key c k \<notin> written tx"
  shows "lookup_record (publish tx indexes s) c k = lookup_record s c k"
  using assms tx_puts_keys [OF assms(1)]
  by (simp add: publish_def written_def lookup_publish_puts lookup_publish_erases dom_map_of_conv_image_fst)

text \<open>No record is newer than the version of its key.\<close>

definition versions_ok :: "in_memory_state \<Rightarrow> bool" where
  "versions_ok s \<longleftrightarrow> (\<forall>c k r. lookup_record s c k = Some r \<longrightarrow> vr_version r \<le> ver s (record_version_key c k))"

lemma unat_succ: "unat (v :: 64 word) + 1 < 2 ^ 64 \<Longrightarrow> unat (v + 1) = unat v + 1"
  by (simp add: unat_word_ariths)

definition versions_below :: "nat \<Rightarrow> in_memory_state \<Rightarrow> bool" where
  "versions_below n s \<longleftrightarrow> (\<forall>vk. unat (ver s vk) \<le> n)"

lemma publish_erases_versions_ok:
  assumes "versions_ok s" and "distinct vks" and "\<And>vk. vk \<in> set vks \<Longrightarrow> unat (ver s vk) + 1 < 2 ^ 64"
  shows "versions_ok (fold publish_erase vks s)"
  using assms
proof (induction vks arbitrary: s)
  case (Cons vk vks)
  have le: "ver s vk \<le> ver s vk + 1"
    using unat_succ [of "ver s vk"] Cons.prems(3) by (simp add: word_le_nat_alt)
  have "versions_ok (publish_erase vk s)"
    unfolding versions_ok_def
  proof (intro allI impI)
    fix c k r
    assume "lookup_record (publish_erase vk s) c k = Some r"
    then have "lookup_record s c k = Some r"
      by (simp add: publish_erase_def lookup_erase_record split: if_splits)
    then have "vr_version r \<le> ver s (record_version_key c k)"
      using Cons.prems(1) by (simp add: versions_ok_def)
    also have "\<dots> \<le> ver (publish_erase vk s) (record_version_key c k)"
      using le by (simp add: ver_publish_erase)
    finally show "vr_version r \<le> ver (publish_erase vk s) (record_version_key c k)" .
  qed
  then show ?case
    using Cons.prems(2,3) by (auto intro!: Cons.IH simp: ver_publish_erase)
qed simp

lemma publish_puts_versions_ok:
  assumes "versions_ok s" and "distinct (map fst es)" and "\<And>e. e \<in> set es \<Longrightarrow> unat (ver s (fst e)) + 1 < 2 ^ 64"
    and "\<And>e. e \<in> set es \<Longrightarrow> fst e = record_version_key (vr_collection (snd e)) (vr_key (snd e))"
  shows "versions_ok (fold publish_put es s)"
  using assms
proof (induction es arbitrary: s)
  case (Cons e es)
  have le: "ver s (fst e) \<le> ver s (fst e) + 1"
    using unat_succ [of "ver s (fst e)"] Cons.prems(3) by (simp add: word_le_nat_alt)
  have "versions_ok (publish_put e s)"
    unfolding versions_ok_def ver_publish_put
  proof (intro allI impI)
    fix c k r
    assume r: "lookup_record (publish_put e s) c k = Some r"
    show "vr_version r \<le> (if record_version_key c k = fst e then ver s (record_version_key c k) + 1
        else ver s (record_version_key c k))"
    proof (cases "c = vr_collection (snd e) \<and> k = vr_key (snd e)")
      case True
      then have "vr_version r = ver s (fst e) + 1"
        using r by (auto simp: publish_put_def Let_def lookup_store_record ver_bump)
      then show ?thesis using True Cons.prems(4) [of e] by simp
    next
      case False
      then have "lookup_record s c k = Some r"
        using r by (auto simp: publish_put_def Let_def lookup_store_record split: if_splits)
      then have "vr_version r \<le> ver s (record_version_key c k)"
        using Cons.prems(1) by (simp add: versions_ok_def)
      then show ?thesis
        using le by (cases "record_version_key c k = fst e") (auto dest: order_trans)
    qed
  qed
  moreover have "unat (ver (publish_put e s) (fst e')) + 1 < 2 ^ 64" if "e' \<in> set es" for e'
  proof -
    have "fst e' \<noteq> fst e"
      using Cons.prems(2) that by (auto simp: image_iff dest: sym)
    then show ?thesis using Cons.prems(3) that by (simp add: ver_publish_put)
  qed
  ultimately have "versions_ok (fold publish_put es (publish_put e s))"
    using Cons.prems(2,4) by (intro Cons.IH) auto
  then show ?case by simp
qed simp

lemma publish_versions_ok:
  assumes "versions_ok s" and "tx_ok tx" and "versions_below n s" and "n + 1 < 2 ^ 64"
  shows "versions_ok (publish tx indexes s)"
proof -
  have d: "distinct (map fst (tx_puts tx))" "distinct (tx_erases tx)"
    using om_ordered_distinct [OF tx_okD(2) [OF assms(2)]] os_ordered_distinct [OF tx_okD(3) [OF assms(2)]] .
  have room: "unat (ver s vk) + 1 < 2 ^ 64" for vk
    using assms(3,4) by (meson add_mono le_less_trans order_refl versions_below_def)
  have "vk \<notin> set (tx_erases tx)" if "vk \<in> fst ` set (tx_puts tx)" for vk
    using that tx_okD(2,6) [OF assms(2)] by (force simp: om_find_in_set)
  then have "versions_ok (fold publish_put (tx_puts tx) (fold publish_erase (tx_erases tx) s))"
    using room tx_puts_keys [OF assms(2)]
    by (intro publish_puts_versions_ok publish_erases_versions_ok assms(1) d)
      (simp_all add: ver_publish_erases d)
  then show ?thesis
    by (simp add: publish_def versions_ok_def)
qed

lemma publish_versions_below:
  assumes "tx_ok tx" and "versions_below n s" and "n + 1 < 2 ^ 64"
  shows "versions_below (n + 1) (publish tx indexes s)" and "ver s vk \<le> ver (publish tx indexes s) vk"
    and "vk \<in> written tx \<Longrightarrow> ver s vk < ver (publish tx indexes s) vk"
proof -
  have room: "unat (ver s vk) + 1 < 2 ^ 64" for vk
    using assms(2,3) by (meson add_mono le_less_trans order_refl versions_below_def)
  note succ = unat_succ [OF room]
  show "versions_below (n + 1) (publish tx indexes s)"
    using assms(2) succ by (auto simp: versions_below_def ver_publish [OF assms(1)] intro: le_SucI)
  show "ver s vk \<le> ver (publish tx indexes s) vk"
    using succ [of vk] by (auto simp: ver_publish [OF assms(1)] word_le_nat_alt)
  show "ver s vk < ver (publish tx indexes s) vk" if "vk \<in> written tx"
    using succ [of vk] that by (simp add: ver_publish [OF assms(1)] word_less_nat_alt)
qed

section \<open>The invariant\<close>

definition tx_valid :: "in_memory_state \<Rightarrow> in_memory_tx \<Rightarrow> (tx_op \<times> tx_reply) list \<Rightarrow> bool" where
  "tx_valid s tx log \<longleftrightarrow> tx_ok tx \<and>
     (tx_open tx \<longrightarrow>
        (\<forall>vk v. om_find (tx_read_versions tx) vk = Some v \<longrightarrow> v \<le> ver s vk) \<and>
        (reads_current s tx \<longrightarrow> run_ops (map fst log) (begin_tx s) = (map snd log, (s, tx))))"

definition occ_inv :: "occ_system \<Rightarrow> bool" where
  "occ_inv y \<longleftrightarrow>
     state_ok (sys_state y) \<and> versions_ok (sys_state y) \<and>
     versions_below (commits (sys_history y)) (sys_state y) \<and>
     (\<forall>i. tx_valid (sys_state y) (sys_txs y i) (sys_logs y i)) \<and>
     serial (sys_history y) initial_state = Some (sys_state y)"

lemma reads_current_iff:
  "om_ordered (tx_read_versions tx) \<Longrightarrow>
   reads_current s tx \<longleftrightarrow> (\<forall>vk v. om_find (tx_read_versions tx) vk = Some v \<longrightarrow> ver s vk = v)"
  by (auto simp: reads_current_def list_all_iff om_find_in_set)

lemma tx_valid_closed: "tx_ok tx \<Longrightarrow> \<not> tx_open tx \<Longrightarrow> tx_valid s tx log"
  by (simp add: tx_valid_def)

lemma closed_tx_ok [simp]: "tx_ok closed_tx" "\<not> tx_open closed_tx"
  by (simp_all add: closed_tx_def tx_ok_def)

text \<open>An operation keeps its transaction valid.\<close>

lemma tx_valid_op:
  assumes v: "tx_valid s tx log" and s: "versions_ok s" and o: "tx_open tx"
  shows "tx_valid s (op_tx a (s, tx)) (log @ [(a, op_reply a (s, tx))])"
proof -
  have t: "tx_ok tx"
    using v by (simp add: tx_valid_def)
  have t': "tx_ok (op_tx a (s, tx))"
    using op_tx_ok [of "(s, tx)" a] t by simp
  have bound: "v \<le> ver s vk" if "om_find (tx_read_versions (op_tx a (s, tx))) vk = Some v" for vk v
  proof -
    have old: "v \<le> ver s vk" if "om_find (tx_read_versions tx) vk = Some v" for v vk
      using assms(1) o that by (simp add: tx_valid_def)
    show ?thesis
      using op_tx_reads [of a "(s, tx)"]
    proof (elim disjE exE conjE)
      assume "tx_read_versions (op_tx a (s, tx)) = tx_read_versions (snd (s, tx))"
      then show ?thesis using old that by simp
    next
      fix v' c k
      assume new: "tx_read_versions (op_tx a (s, tx)) = om_emplace (op_key a) v' (tx_read_versions (snd (s, tx)))"
        "op_key a = record_version_key c k"
        "v' = (case lookup_record (fst (s, tx)) c k of None \<Rightarrow> 0 | Some r \<Rightarrow> vr_version r)"
      have "v' \<le> ver s (op_key a)"
        using s new(2,3) by (auto simp: versions_ok_def split: option.splits)
      then show ?thesis
        using old that new(1) by (auto simp: om_find_emplace split: if_splits)
    qed
  qed
  have "run_ops (map fst (log @ [(a, op_reply a (s, tx))])) (begin_tx s) =
      (map snd (log @ [(a, op_reply a (s, tx))]), (s, op_tx a (s, tx)))"
    if "reads_current s (op_tx a (s, tx))"
  proof -
    have "reads_current s tx"
      using that op_tx_keeps_reads [of "(s, tx)" _ _ a] tx_okD(1) [OF t] tx_okD(1) [OF t']
      by (auto simp: reads_current_iff)
    then have "run_ops (map fst log) (begin_tx s) = (map snd log, (s, tx))"
      using v o by (simp add: tx_valid_def)
    then show ?thesis
      using o by (simp add: run_ops_append run_op_open)
  qed
  then show ?thesis
    using bound t' by (simp add: tx_valid_def)
qed

text \<open>A commit of another transaction keeps it valid: reads that are still current were not
  written, so the replay finds the same records.\<close>

lemma tx_valid_publish:
  assumes v: "tx_valid s tx log" and w: "tx_ok other" and n: "versions_below n s" "n + 1 < 2 ^ 64"
  shows "tx_valid (publish other indexes s) tx log"
proof (cases "tx_open tx")
  case False
  then show ?thesis using v by (simp add: tx_valid_def)
next
  case True
  let ?s' = "publish other indexes s"
  note mono = publish_versions_below [OF w n]
  have t: "tx_ok tx" and bound: "om_find (tx_read_versions tx) vk = Some v \<Longrightarrow> v \<le> ver s vk" for vk v
    using v True by (auto simp: tx_valid_def)
  have "run_ops (map fst log) (begin_tx ?s') = (map snd log, (?s', tx))" if cur: "reads_current ?s' tx"
  proof -
    have same: "ver s vk = v \<and> vk \<notin> written other" if "om_find (tx_read_versions tx) vk = Some v" for vk v
      using cur that bound [OF that] mono(2,3) [of vk] tx_okD(1) [OF t]
      by (metis antisym leD reads_current_iff)
    then have "reads_current s tx"
      using tx_okD(1) [OF t] by (simp add: reads_current_iff)
    then have run: "run_ops (map fst log) (begin_tx s) = (map snd log, (s, tx))"
      using v True by (simp add: tx_valid_def)
    have "run_ops (map fst log) (?s', new_tx) = (map snd log, (?s', tx))"
    proof (rule run_ops_frame)
      show "run_ops (map fst log) (s, new_tx) = (map snd log, (s, tx))"
        using run by (simp add: begin_tx_def)
      show "lookup_record ?s' c k = lookup_record s c k"
        if "record_version_key c k \<in> dom (om_find (tx_read_versions tx))" for c k
        using that same by (intro lookup_publish [OF w]) auto
    qed simp_all
    then show ?thesis by (simp add: begin_tx_def)
  qed
  moreover have "v \<le> ver ?s' vk" if "om_find (tx_read_versions tx) vk = Some v" for vk v
    using bound [OF that] mono(2) by (rule order_trans)
  ultimately show ?thesis
    using t by (simp add: tx_valid_def)
qed

section \<open>Preservation\<close>

lemma commits_append [simp]:
  "commits (es @ [Committed as rs]) = commits es + 1" "commits (es @ [Registered d]) = commits es"
  by (simp_all add: commits_def)

lemma register_lookup:
  assumes "ensure_collection d s = (Inr (), s')"
  shows "ms_records s' = ms_records s" and "ms_versions s' = ms_versions s"
  using assms by (auto simp: ensure_collection_def split: option.splits sum.splits)

lemma tx_valid_register:
  assumes v: "tx_valid s tx log" and reg: "ms_records s' = ms_records s" "ms_versions s' = ms_versions s"
  shows "tx_valid s' tx log"
proof (cases "tx_open tx")
  case True
  have look: "lookup_record s' = lookup_record s"
    by (simp add: lookup_record_def reg fun_eq_iff)
  have "run_ops (map fst log) (s', new_tx) = (map snd log, (s', tx))" if "reads_current s' tx"
    using v True that
    by (intro run_ops_frame [of _ _ s]) (simp_all add: tx_valid_def begin_tx_def look reads_current_def reg)
  then show ?thesis
    using v True by (simp add: tx_valid_def reg begin_tx_def)
qed (use v in \<open>simp add: tx_valid_def\<close>)

lemma occ_inv_step:
  assumes inv: "occ_inv y" and step: "occ_step y z" and small: "commits (sys_history z) < 2 ^ 64"
  shows "occ_inv z"
  using step
proof (cases rule: occ_step.cases)
  case (step_begin i)
  note zeq = step_begin(1)
  show ?thesis
    using inv by (auto simp: zeq occ_inv_def tx_valid_def begin_tx_def new_tx_def tx_ok_def)
next
  case (step_op a i r s' tx')
  note zeq = step_op(1) and prem = step_op(2)
  show ?thesis
  proof (cases "tx_open (sys_txs y i)")
    case True
    then show ?thesis
      using inv zeq prem tx_valid_op [of "sys_state y" "sys_txs y i" "sys_logs y i" a]
      by (auto simp: occ_inv_def run_op_open)
  next
    case False
    then have "s' = sys_state y" "tx' = sys_txs y i"
      using run_op_closed [of "(sys_state y, sys_txs y i)" a] prem by auto
    then show ?thesis
      using inv zeq False by (auto simp: occ_inv_def tx_valid_def)
  qed
next
  case (step_abort i s' tx')
  note zeq = step_abort(1) and prem = step_abort(2)
  show ?thesis
    using inv zeq prem by (auto simp: occ_inv_def tx_abort_def tx_valid_def tx_ok_def)
next
  case (step_commit i s' tx')
  note zeq = step_commit(1) and prem = step_commit(2)
  let ?s = "sys_state y" and ?tx = "sys_txs y i" and ?log = "sys_logs y i"
  obtain staged where c: "reads_current ?s ?tx" "s' = publish ?tx staged ?s" "tx' = closed_tx" "tx_open ?tx"
    using prem by (rule tx_commit_cases) (auto simp: closed_tx_def)
  have v: "tx_valid ?s ?tx ?log" and t: "tx_ok ?tx" and n: "versions_below (commits (sys_history y)) ?s"
    and room: "commits (sys_history y) + 1 < 2 ^ 64"
    using inv small zeq by (auto simp: occ_inv_def tx_valid_def)
  have "run_ops (map fst ?log) (begin_tx ?s) = (map snd ?log, (?s, ?tx))"
    using v c(1,4) by (simp add: tx_valid_def)
  then have "serial (sys_history z) initial_state = Some s'"
    using inv prem by (simp add: zeq serial_append occ_inv_def)
  moreover have "tx_valid s' (sys_txs z j) (sys_logs z j)" for j
    using inv tx_valid_publish [OF _ t n room, of "sys_txs y j" "sys_logs y j" staged]
    by (auto simp: zeq c(2,3) occ_inv_def tx_valid_closed)
  moreover have "state_ok s'" "versions_ok s'" "versions_below (commits (sys_history y) + 1) s'"
    using inv publish_ok publish_versions_ok [OF _ t n room] publish_versions_below(1) [OF t n room]
    by (auto simp: c(2) occ_inv_def)
  ultimately show ?thesis
    by (simp add: occ_inv_def zeq)
next
  case (step_commit_fails i e s' tx')
  note zeq = step_commit_fails(1) and prem = step_commit_fails(2)
  have "s' = sys_state y" "tx' = sys_txs y i"
    using prem by (auto elim: tx_commit_cases)
  then show ?thesis
    using inv zeq by (auto simp: occ_inv_def)
next
  case (step_register d s')
  note zeq = step_register(1) and prem = step_register(2)
  note reg = register_lookup [OF prem]
  have look: "lookup_record s' = lookup_record (sys_state y)"
    by (simp add: lookup_record_def reg fun_eq_iff)
  show ?thesis
    using inv zeq prem tx_valid_register [OF _ reg]
    by (auto simp: occ_inv_def serial_append state_ok_def versions_ok_def versions_below_def look reg)
qed

lemma commits_mono: "occ_step y z \<Longrightarrow> commits (sys_history y) \<le> commits (sys_history z)"
  by (erule occ_stepE) simp_all

lemma occ_reachable_inv:
  "occ_reachable y \<Longrightarrow> commits (sys_history y) < 2 ^ 64 \<Longrightarrow> occ_inv y"
proof (induction rule: occ_reachable.induct)
  case reach_initial
  show ?case
    by (simp add: occ_inv_def initial_system_def initial_state_def state_ok_def versions_ok_def
        versions_below_def version_or_zero_def lookup_record_def tx_valid_closed)
next
  case (reach_step y z)
  then show ?case
    using commits_mono [OF reach_step.hyps(2)] by (auto intro: occ_inv_step)
qed

section \<open>A scheduler\<close>

text \<open>An executable schedule: which transaction does what next.\<close>

datatype occ_action =
    A_Begin nat
  | A_Op nat tx_op
  | A_Abort nat
  | A_Commit nat
  | A_Register collection_descriptor

fun perform :: "occ_action \<Rightarrow> occ_system \<Rightarrow> occ_system" where
  "perform (A_Begin i) y =
     y\<lparr>sys_txs := (sys_txs y)(i := snd (begin_tx (sys_state y))), sys_logs := (sys_logs y)(i := [])\<rparr>"
| "perform (A_Op i a) y =
     (case run_op a (sys_state y, sys_txs y i) of (r, (s', tx')) \<Rightarrow>
        y\<lparr>sys_state := s', sys_txs := (sys_txs y)(i := tx'), sys_logs := (sys_logs y)(i := sys_logs y i @ [(a, r)])\<rparr>)"
| "perform (A_Abort i) y =
     (case tx_abort (sys_state y, sys_txs y i) of (_, (s', tx')) \<Rightarrow>
        y\<lparr>sys_state := s', sys_txs := (sys_txs y)(i := tx')\<rparr>)"
| "perform (A_Commit i) y =
     (case tx_commit (sys_state y, sys_txs y i) of
        (Inl e, (s', tx')) \<Rightarrow> y\<lparr>sys_state := s', sys_txs := (sys_txs y)(i := tx')\<rparr>
      | (Inr _, (s', tx')) \<Rightarrow>
          y\<lparr>sys_state := s', sys_txs := (sys_txs y)(i := tx'),
            sys_history := sys_history y @ [Committed (map fst (sys_logs y i)) (map snd (sys_logs y i))]\<rparr>)"
| "perform (A_Register d) y =
     (case ensure_collection d (sys_state y) of
        (Inl e, _) \<Rightarrow> y
      | (Inr _, s') \<Rightarrow> y\<lparr>sys_state := s', sys_history := sys_history y @ [Registered d]\<rparr>)"

definition perform_all :: "occ_action list \<Rightarrow> occ_system" where
  "perform_all as = fold perform as initial_system"

lemma perform_step: "occ_step y (perform a y) \<or> perform a y = y"
proof (cases a)
  case (A_Commit i)
  then show ?thesis
    by (auto intro: step_commit step_commit_fails split: prod.split sum.split)
next
  case (A_Register d)
  then show ?thesis
    by (auto intro: step_register split: prod.split sum.split)
next
  case (A_Abort i)
  have "occ_step y (perform a y)"
    using step_abort [of y i "sys_state y" closed_tx] by (simp add: A_Abort tx_abort_def closed_tx_def)
  then show ?thesis ..
qed (auto intro: occ_step.intros split: prod.split)

lemma perform_all_reachable [intro, simp]: "occ_reachable (perform_all as)"
proof -
  have "occ_reachable (fold perform as y)" if "occ_reachable y" for y
    using that
  proof (induction as arbitrary: y)
    case (Cons a as)
    have "occ_reachable (perform a y)"
      using perform_step [of y a] Cons.prems by (auto intro: reach_step)
    then show ?case using Cons.IH by simp
  qed simp
  then show ?thesis by (simp add: perform_all_def reach_initial)
qed

section \<open>Properties\<close>

text \<open>Two transactions on one account, the second beginning before the first commits.\<close>

definition sample_schedule :: "occ_action list" where
  "sample_schedule =
     [A_Register (collection_with_keys ''acc'' [''id'']),
      A_Begin 0, A_Op 0 (Op_Put ''acc'' ''a'' (JInt 1)), A_Commit 0,
      A_Begin 1, A_Begin 2,
      A_Op 1 (Op_Get ''acc'' ''a''), A_Op 2 (Op_Get ''acc'' ''a''),
      A_Op 1 (Op_Put ''acc'' ''a'' (JInt 2)), A_Op 2 (Op_Put ''acc'' ''b'' (JInt 5))]"



text \<open>No update is lost. When a transaction has read a key, by a get, a put or an erase, and another
  transaction that writes the key commits, the first one's commit throws a
  \<open>VersionConflict\<close> and changes nothing.\<close>

theorem commit_after_conflict_fails:
  assumes "occ_reachable y" and "commits (sys_history y) + 1 < 2 ^ 64"
    and "tx_commit (sys_state y, sys_txs y j) = (Inr (), (s', tx'))"
    and "tx_open (sys_txs y i)"
    and "vk \<in> dom (om_find (tx_read_versions (sys_txs y i)))" and "vk \<in> written (sys_txs y j)"
  shows "tx_commit (s', sys_txs y i) =
    (Inl (ConflictError VersionConflict ''in-memory OCC conflict''), (s', sys_txs y i))"
proof -
  have inv: "occ_inv y"
    using occ_reachable_inv [OF assms(1)] assms(2) by simp
  then have t: "tx_ok (sys_txs y j)" "tx_ok (sys_txs y i)" and n: "versions_below (commits (sys_history y)) (sys_state y)"
    and old: "\<forall>vk v. om_find (tx_read_versions (sys_txs y i)) vk = Some v \<longrightarrow> v \<le> ver (sys_state y) vk"
    using assms(4) by (auto simp: occ_inv_def tx_valid_def)
  obtain staged where s': "s' = publish (sys_txs y j) staged (sys_state y)"
    using assms(3) by (rule tx_commit_cases) auto
  have "ver (sys_state y) vk < ver s' vk"
    using publish_versions_below(3) [OF t(1) n assms(2,6)] by (simp add: s')
  then have "\<not> reads_current s' (sys_txs y i)"
    using assms(5) old tx_okD(1) [OF t(2)] by (auto simp: reads_current_iff) (metis leD)
  then show ?thesis
    using assms(4) by (simp add: tx_commit_def require_open_def)
qed

theorem commit_after_conflict_fails_witness:
  "fst (tx_commit (sys_state (perform_all (sample_schedule @ [A_Commit 1])),
     sys_txs (perform_all sample_schedule) 2)) =
   Inl (ConflictError VersionConflict ''in-memory OCC conflict'')"
proof -
  let ?y = "perform_all sample_schedule"
  obtain s' tx' where c: "tx_commit (sys_state ?y, sys_txs ?y 1) = (Inr (), (s', tx'))"
    and s': "s' = sys_state (perform_all (sample_schedule @ [A_Commit 1]))"
  proof -
    have "fst (tx_commit (sys_state ?y, sys_txs ?y 1)) = Inr ()"
      by code_simp
    moreover have "sys_state (perform_all (sample_schedule @ [A_Commit 1])) =
        fst (snd (tx_commit (sys_state ?y, sys_txs ?y 1)))"
      by (simp add: perform_all_def split: prod.split sum.split)
    ultimately show ?thesis
      using that by (metis prod.collapse)
  qed
  have "commits (sys_history ?y) = 1"
    by code_simp
  then have small: "commits (sys_history ?y) + 1 < 2 ^ 64"
    by simp
  have o: "tx_open (sys_txs ?y 2)"
    by code_simp
  have r: "''record:acc:a'' \<in> dom (om_find (tx_read_versions (sys_txs ?y 2)))"
  proof -
    have "om_find (tx_read_versions (sys_txs ?y 2)) ''record:acc:a'' = Some 1"
      by code_simp
    then show ?thesis by blast
  qed
  have w: "''record:acc:a'' \<in> written (sys_txs ?y 1)"
  proof -
    have "om_find (tx_puts (sys_txs ?y 1)) ''record:acc:a'' \<noteq> None"
      by code_simp
    then show ?thesis by (auto simp: written_def)
  qed
  show ?thesis
    using commit_after_conflict_fails [OF perform_all_reachable small c o r w] by (simp add: s')
qed

end
