(* ===== verification/Memory_Props.thy ===== *)
theory Memory_Props
  imports OCC
begin

text \<open>
  Properties of the in-memory backend beyond isolation: reads and commits of one transaction,
  index maintenance and index queries, collection registration, and the behaviours that differ
  from what the documents of the repository announce.
\<close>

section \<open>A sample state\<close>

definition sample_descriptor :: collection_descriptor where
  "sample_descriptor =
     \<lparr>cd_name = ''task'', cd_fields = [], cd_key_fields = [''id''],
      cd_indexes = [\<lparr>id_name = ''by_n'', id_fields = [''n''], id_unique = True\<rparr>], cd_schema_version = 1\<rparr>"

definition sample_doc :: "64 word \<Rightarrow> json" where
  "sample_doc n = JObject [(''n'', JInt n)]"

text \<open>A backend with the collection \<open>task\<close>, uniquely indexed by \<open>n\<close>, and one record.\<close>

definition sample_state :: in_memory_state where
  "sample_state = fst (snd (bindM (tx_put ''task'' ''t1'' (sample_doc 9)) (\<lambda>_. tx_commit)
     (begin_tx (snd (ensure_collection sample_descriptor initial_state)))))"

lemma initial_state_ok: "state_ok initial_state"
  by (simp add: state_ok_def initial_state_def)

lemma ensure_collection_state_ok: "state_ok s \<Longrightarrow> state_ok (snd (ensure_collection d s))"
  by (auto simp: state_ok_def ensure_collection_def split: option.split sum.split)

lemma plain_task [simp]: "plain_name ''task''"
  by (simp add: plain_name_def)

lemma sample_commit:
  "bindM (tx_put ''task'' ''t1'' (sample_doc 9)) (\<lambda>_. tx_commit)
     (begin_tx (snd (ensure_collection sample_descriptor initial_state))) = (Inr (), (sample_state, closed_tx))"
proof -
  have "fst (bindM (tx_put ''task'' ''t1'' (sample_doc 9)) (\<lambda>_. tx_commit)
     (begin_tx (snd (ensure_collection sample_descriptor initial_state)))) = Inr ()"
    by code_simp
  moreover have "snd (snd (bindM (tx_put ''task'' ''t1'' (sample_doc 9)) (\<lambda>_. tx_commit)
     (begin_tx (snd (ensure_collection sample_descriptor initial_state))))) = closed_tx"
    by code_simp
  ultimately show ?thesis
    by (metis prod.collapse sample_state_def)
qed

section \<open>Commits\<close>

text \<open>C2: a commit is atomic. When it returns, every collection with a colon-free name holds exactly the
  documents the transaction saw, its own writes included; when it throws, the shared state and
  the transaction, still open, are what they were.\<close>

theorem commit_is_atomic:
  assumes "usable m" and "tx_commit m = (r, m')"
  shows "case r of
      Inr _ \<Rightarrow> (\<forall>c. plain_name c \<longrightarrow> committed_docs (fst m') c = mem_view m c) \<and> state_ok (fst m')
    | Inl _ \<Rightarrow> m' = m"
proof (cases r)
  case (Inl e)
  then show ?thesis
    using assms(2) by (cases m) (auto elim: tx_commit_cases)
next
  case (Inr x)
  have "ib_commit in_memory_backend m = (Inr (), m')"
    using assms Inr by (simp add: as_memory_tx_def require_open_def usable_def)
  then show ?thesis
    using memory.commit_law [OF assms(1)] memory.commit_consistent_law [OF assms(1)] by (simp add: Inr)
qed

theorem commit_is_atomic_witness:
  "committed_docs sample_state ''task'' ''t1'' = Some (sample_doc 9)"
proof -
  let ?s = "snd (ensure_collection sample_descriptor initial_state)"
  obtain m where p: "tx_put ''task'' ''t1'' (sample_doc 9) (begin_tx ?s) = (Inr (), m)"
    and u: "usable m" and v: "mem_view m = view_put ''task'' ''t1'' (sample_doc 9) (mem_view (begin_tx ?s))"
    using memory.put_law [of "begin_tx ?s" "''task''" "''t1''" "sample_doc 9"]
      begin_usable [OF ensure_collection_state_ok [OF initial_state_ok]] by auto
  have "tx_commit m = (Inr (), (sample_state, closed_tx))"
    using sample_commit p by simp
  then show ?thesis
    using commit_is_atomic [OF u, of "Inr ()" "(sample_state, closed_tx)"] by (simp add: v)
qed

section \<open>Indexes\<close>

lemma sample_indexes:
  "indexes_mirror (docs_of (snd (ensure_collection sample_descriptor initial_state)))
     (ms_indexes (snd (ensure_collection sample_descriptor initial_state)))"
  by (rule ensure_collection_mirrors [OF _ _ surjective_pairing])
    (simp_all add: indexes_mirror_def initial_state_def docs_of_def lookup_record_def fun_eq_iff)


lemma sample_tx:
  obtains tx where "tx_commit (snd (ensure_collection sample_descriptor initial_state), tx) =
      (Inr (), (sample_state, closed_tx))" and "tx_ok tx"
proof -
  let ?s = "snd (ensure_collection sample_descriptor initial_state)"
  have o: "tx_open (snd (begin_tx ?s))" "tx_ok (snd (begin_tx ?s))" "fst (begin_tx ?s) = ?s"
    by (simp_all add: begin_tx_def)
  show ?thesis
  proof (rule that)
    show "tx_commit (?s, put_tx (begin_tx ?s) ''task'' ''t1'' (sample_doc 9)) = (Inr (), (sample_state, closed_tx))"
      using sample_commit by (simp add: tx_put_eq [OF o(1)] o(3))
    show "tx_ok (put_tx (begin_tx ?s) ''task'' ''t1'' (sample_doc 9))"
      by (rule put_tx_ok [OF o(2)])
  qed
qed


text \<open>The mirror of the sample state, again, for the properties that need it as a hypothesis.\<close>

lemma sample_mirror: "indexes_mirror (docs_of sample_state) (ms_indexes sample_state)"
proof -
  obtain tx where t: "tx_commit (snd (ensure_collection sample_descriptor initial_state), tx) =
      (Inr (), (sample_state, closed_tx))" "tx_ok tx"
    by (rule sample_tx)
  obtain staged where c: "stage_indexes (snd (ensure_collection sample_descriptor initial_state)) tx = Inr staged"
      "sample_state = publish tx staged (snd (ensure_collection sample_descriptor initial_state))"
    using t(1) by (rule tx_commit_cases) auto
  then show ?thesis
    using stage_indexes_mirror [OF sample_indexes ensure_collection_state_ok [OF initial_state_ok] t(2) c(1)]
      docs_publish [OF t(2)] by (simp add: c(2) publish_def)
qed


text \<open>a unique index admits one record per index key. In a state whose indexes mirror its documents,
  two records of a collection whose documents encode to the same key of a unique index are the
  same record; the mirror holds initially and every commit keeps it.\<close>

theorem unique_index_unique:
  assumes "indexes_mirror (docs_of s) (ms_indexes s)"
    and "om_find (ms_indexes s) c = Some states" and "(name, index) \<in> set states"
    and "id_unique (mi_descriptor index)"
    and "docs_of s c k = Some d" and "docs_of s c k' = Some d'"
    and "extract_index_key d (mi_descriptor index) = extract_index_key d' (mi_descriptor index)"
  shows "k = k'"
proof -
  have m: "index_mirrors (docs_of s c) index"
    using indexes_mirrorD [OF assms(1,2,3)] by simp
  obtain ik keys where 1: "extract_index_key d (mi_descriptor index) = Inr ik"
      "om_find (mi_entries index) ik = Some keys" "k \<in> set keys"
    using index_mirrorsD(5) [OF m assms(5)] by blast
  obtain ik' keys' where 2: "extract_index_key d' (mi_descriptor index) = Inr ik'"
      "om_find (mi_entries index) ik' = Some keys'" "k' \<in> set keys'"
    using index_mirrorsD(5) [OF m assms(6)] by blast
  show ?thesis
    using 1 2 assms(7) index_mirrorsD(4) [OF m 1(2) assms(4)] by (auto simp: length_Suc_conv)
qed

theorem unique_index_unique_witness:
  "\<exists>states index. om_find (ms_indexes sample_state) ''task'' = Some states \<and>
     (''by_n'', index) \<in> set states \<and> (\<forall>k. docs_of sample_state ''task'' k = Some (sample_doc 9) \<longrightarrow> k = ''t1'')"
proof -
  let ?index = "\<lparr>mi_descriptor = \<lparr>id_name = ''by_n'', id_fields = [''n''], id_unique = True\<rparr>,
     mi_entries = [([''int:9''], [''t1''])]\<rparr>"
  have i: "om_find (ms_indexes sample_state) ''task'' = Some [(''by_n'', ?index)]"
    by code_simp
  have d: "docs_of sample_state ''task'' ''t1'' = Some (sample_doc 9)"
    by code_simp
  have "k = ''t1''" if "docs_of sample_state ''task'' k = Some (sample_doc 9)" for k
    using unique_index_unique [OF sample_mirror i _ _ that d, of "''by_n''" ?index] by simp
  then show ?thesis using i by auto
qed

section \<open>Index queries\<close>




definition sample_index :: index_descriptor where
  "sample_index = \<lparr>id_name = ''by_n'', id_fields = [''n''], id_unique = True\<rparr>"


section \<open>Registration\<close>

lemma stage_collection_other:
  assumes "fold_result stage_collection ds staged = Inr staged'" and "n \<notin> cd_name ` set ds"
  shows "om_find staged' n = om_find staged n"
  using assms
  by (induction ds arbitrary: staged) (auto simp: stage_collection_def andThen_Inr_iff)

lemma stage_collection_registers:
  assumes "fold_result stage_collection ds staged = Inr staged'" and "distinct (map cd_name ds)" and "d \<in> set ds"
  shows "om_find staged' (cd_name d) = Some d"
  using assms
proof (induction ds arbitrary: staged)
  case (Cons d' ds)
  obtain staged1 where 1: "stage_collection d' staged = Inr staged1" "fold_result stage_collection ds staged1 = Inr staged'"
    using Cons.prems(1) by (auto simp: andThen_Inr_iff)
  show ?case
  proof (cases "d = d'")
    case True
    then show ?thesis
      using stage_collection_other [OF 1(2), of "cd_name d'"] 1(1) Cons.prems(2)
      by (auto simp: stage_collection_def andThen_Inr_iff)
  qed (use Cons 1 in auto)
qed simp

lemma stage_collection_again:
  assumes "\<And>d. d \<in> set ds \<Longrightarrow> om_find staged (cd_name d) = Some d" and "om_ordered staged"
  shows "fold_result stage_collection ds staged = Inr staged"
  using assms(1)
proof (induction ds)
  case (Cons d ds)
  have "stage_collection d staged = Inr staged"
    using Cons.prems [of d] assms(2)
    by (simp add: stage_collection_def validate_collection_descriptor_upgrade_def compatible_def compare_status om_insert_id)
  then show ?case using Cons by simp
qed simp

lemma fold_result_stage_ordered:
  "fold_result stage_collection ds staged = Inr staged' \<Longrightarrow> om_ordered staged \<Longrightarrow> om_ordered staged'"
  by (rule fold_result_invariant [where P = om_ordered]) (auto simp: stage_collection_def andThen_Inr_iff)

text \<open>Bootstrapping the catalog is idempotent. Once a list of descriptors with distinct names has been
  registered, registering it again succeeds and changes nothing, index states included.\<close>

theorem ensure_collections_idempotent:
  assumes "ensure_collections ds s = (Inr (), s')" and "distinct (map cd_name ds)"
    and "om_ordered (ms_collections s)"
  shows "ensure_collections ds s' = (Inr (), s')"
proof -
  obtain staged where staged: "fold_result stage_collection ds (ms_collections s) = Inr staged"
    and s': "s' = s\<lparr>ms_collections := staged, ms_indexes := fold (stage_index_states s) ds (ms_indexes s)\<rparr>"
    using assms(1) by (auto simp: ensure_collections_def split: sum.splits)
  have reg: "om_find staged (cd_name d) = Some d" if "d \<in> set ds" for d
    using stage_collection_registers [OF staged assms(2) that] .
  have "fold_result stage_collection ds staged = Inr staged"
    using reg fold_result_stage_ordered [OF staged assms(3)] by (rule stage_collection_again)
  moreover have "fold (stage_index_states s') ds' indexes = indexes" if "set ds' \<subseteq> set ds" for ds' indexes
    using that by (induction ds') (auto simp: stage_index_states_def s' reg)
  ultimately show ?thesis
    by (simp add: ensure_collections_def s')
qed

theorem ensure_collections_idempotent_witness:
  "ensure_collections [sample_descriptor] (snd (ensure_collections [sample_descriptor] initial_state)) =
     (Inr (), snd (ensure_collections [sample_descriptor] initial_state))"
proof (rule ensure_collections_idempotent [where s = initial_state])
  have "fst (ensure_collections [sample_descriptor] initial_state) = Inr ()"
    by code_simp
  then show "ensure_collections [sample_descriptor] initial_state =
      (Inr (), snd (ensure_collections [sample_descriptor] initial_state))"
    by (simp add: prod_eq_iff)
qed (simp_all add: initial_state_def)

section \<open>Departures from the documented semantics\<close>

text \<open>A run keeps the reads it has made, and reads every key it names.\<close>

lemma run_ops_reads:
  assumes "tx_open tx" and "tx_ok tx" and "run_ops as (s, tx) = (rs, (s1, tx1))"
    and "om_find (tx_read_versions tx) vk = Some v"
  shows "om_find (tx_read_versions tx1) vk = Some v"
  using assms
proof (induction as arbitrary: tx rs)
  case (Cons a as)
  obtain rs' where "run_ops as (s, op_tx a (s, tx)) = (rs', (s1, tx1))"
    using Cons.prems(1,3) by (auto simp: run_op_open Let_def split: prod.splits)
  then show ?case
    using Cons.IH [of "op_tx a (s, tx)" rs'] Cons.prems(1,2,4) op_tx_ok [of "(s, tx)" a]
      op_tx_keeps_reads [of "(s, tx)" vk v a] by simp
qed simp

lemma missing_read_zero:
  assumes "tx_open tx" and "tx_ok tx" and "run_ops as (s, tx) = (rs, (s1, tx1))"
    and "op_key a = record_version_key c k" and "a \<in> set as" and "plain_name c"
    and "\<And>c' k'. record_version_key c' k' = record_version_key c k \<Longrightarrow> lookup_record s c' k' = None"
    and "om_find (tx_read_versions tx) (record_version_key c k) \<in> {None, Some 0}"
  shows "om_find (tx_read_versions tx1) (record_version_key c k) = Some 0"
  using assms
proof (induction as arbitrary: tx rs)
  case (Cons a' as)
  let ?vk = "record_version_key c k" and ?tx = "op_tx a' (s, tx)"
  obtain rs' where run: "run_ops as (s, ?tx) = (rs', (s1, tx1))"
    using Cons.prems(1,3) by (auto simp: run_op_open Let_def split: prod.splits)
  have ok: "tx_open ?tx" "tx_ok ?tx"
    using Cons.prems(1,2) op_tx_ok [of "(s, tx)" a'] by simp_all
  have zero: "om_find (tx_read_versions ?tx) ?vk \<in> {None, Some 0}"
    using op_tx_reads [of a' "(s, tx)"]
  proof (elim disjE exE conjE)
    fix v c' k'
    assume new: "tx_read_versions ?tx = om_emplace (op_key a') v (tx_read_versions (snd (s, tx)))"
      "op_key a' = record_version_key c' k'"
      "v = (case lookup_record (fst (s, tx)) c' k' of None \<Rightarrow> 0 | Some r \<Rightarrow> vr_version r)"
    show ?thesis
    proof (cases "op_key a' = ?vk")
      case True
      then have "v = 0"
        using new(2,3) Cons.prems(7) [of c' k'] by simp
      then show ?thesis using Cons.prems(8) True by (auto simp: new(1) om_find_emplace)
    next
      case False
      then show ?thesis using Cons.prems(8) by (auto simp: new(1) om_find_emplace)
    qed
  qed (use Cons.prems(8) in simp)
  show ?case
  proof (cases "op_key a' = ?vk")
    case True
    then have "om_find (tx_read_versions ?tx) ?vk = Some 0"
      using op_tx_reads_dom [of "(s, tx)" a'] Cons.prems(2) zero by auto
    then show ?thesis
      using run_ops_reads [OF ok run] by simp
  next
    case False
    then show ?thesis
      using Cons.IH [OF ok run Cons.prems(4) _ Cons.prems(6,7) zero] Cons.prems(4,5) by auto
  qed
qed simp

text \<open>C25: an erased key cannot be written again. A commit that erases a key advances its version, but
  reading the absent record captures version zero; so once the record is gone every later
  transaction that gets, puts or erases the key fails to commit, whatever else it does. The
  document on the in-memory backend has reads capture the current version.\<close>

theorem erased_key_never_commits:
  assumes "\<And>c' k'. record_version_key c' k' = record_version_key c k \<Longrightarrow> lookup_record s c' k' = None"
    and "version_or_zero (ms_versions s) (record_version_key c k) \<noteq> 0" and "plain_name c"
    and "run_ops as (begin_tx s) = (rs, m)"
    and "a \<in> set as" and "op_key a = record_version_key c k"
  shows "tx_commit m = (Inl (ConflictError VersionConflict ''in-memory OCC conflict''), m)"
proof -
  obtain s1 tx1 where m: "m = (s1, tx1)" by force
  have run: "run_ops as (s, new_tx) = (rs, (s1, tx1))"
    using assms(4) by (simp add: begin_tx_def m)
  have "om_find (tx_read_versions tx1) (record_version_key c k) = Some 0"
    by (rule missing_read_zero [OF _ _ run assms(6,5,3,1)]) (simp_all, simp add: new_tx_def)
  moreover have "s1 = s" "tx_open tx1" "tx_ok tx1"
    using run_ops_open [OF _ _ run] by simp_all
  ultimately have "\<not> reads_current s1 tx1"
    using assms(2) tx_okD(1) [of tx1] by (auto simp: reads_current_iff)
  then show ?thesis
    using \<open>tx_open tx1\<close> by (simp add: m tx_commit_def require_open_def)
qed

text \<open>The sample state after a transaction has erased \<open>t1\<close>.\<close>

definition erased_state :: in_memory_state where
  "erased_state = fst (snd (bindM (tx_erase ''task'' ''t1'') (\<lambda>_. tx_commit) (begin_tx sample_state)))"

theorem erased_key_never_commits_witness:
  "fst (tx_commit (snd (run_ops [Op_Put ''task'' ''t1'' (sample_doc 3)] (begin_tx erased_state)))) =
     Inl (ConflictError VersionConflict ''in-memory OCC conflict'')"
proof -
  have empty: "ms_records erased_state = [(''task'', [])]"
    by code_simp
  have v: "version_or_zero (ms_versions erased_state) (record_version_key ''task'' ''t1'') \<noteq> 0"
    by code_simp
  have none: "lookup_record erased_state c k = None" for c k
    by (simp add: lookup_record_def empty)
  have "tx_commit (snd (run_ops [Op_Put ''task'' ''t1'' (sample_doc 3)] (begin_tx erased_state))) =
      (Inl (ConflictError VersionConflict ''in-memory OCC conflict''),
       snd (run_ops [Op_Put ''task'' ''t1'' (sample_doc 3)] (begin_tx erased_state)))"
    by (rule erased_key_never_commits [OF none v plain_task surjective_pairing,
          where a = "Op_Put ''task'' ''t1'' (sample_doc 3)"])
      (simp_all add: op_key_def)
  then show ?thesis by (rule arg_cong [of _ _ fst, THEN trans]) (rule fst_conv)
qed

text \<open>an index added by an upgrade is never filled. Registering a new version of a registered
  collection keeps the index states of the first registration, so a query over an index that
  they do not have returns no record, whatever the collection holds.\<close>

theorem upgraded_index_stays_empty:
  assumes "ensure_collection d s = (Inr (), s')"
    and "om_find (ms_collections s) (cd_name d) = Some existing"
    and "om_find (ms_indexes s) (cd_name d) = Some states" and "om_find states name = None"
    and "is_index_query q" and "q_index_name q = Some name"
  shows "tx_query (cd_name d) q (begin_tx s') = (Inr [], begin_tx s')"
proof -
  have "ms_indexes s' = ms_indexes s"
    using assms(1,2) by (auto simp: ensure_collection_def split: sum.splits)
  then have "committed_candidates s' new_tx (cd_name d) q = Inr []"
    using assms(3-6) by (simp add: committed_candidates_def committed_index_query_def)
  moreover have "staged_candidates s' new_tx (cd_name d) q = Inr []"
    by (simp add: staged_candidates_def new_tx_def)
  ultimately show ?thesis
    by (simp add: tx_query_def begin_tx_def require_open_def record_reads_def)
qed

definition upgraded_descriptor :: collection_descriptor where
  "upgraded_descriptor = sample_descriptor
     \<lparr>cd_indexes := cd_indexes sample_descriptor @ [\<lparr>id_name = ''by_m'', id_fields = [''n''], id_unique = False\<rparr>],
      cd_schema_version := 2\<rparr>"

theorem upgraded_index_stays_empty_witness:
  "fst (tx_query ''task'' (index_equals ''by_m'' [integer_value 9])
     (begin_tx (snd (ensure_collection upgraded_descriptor sample_state)))) = Inr [] \<and>
   docs_of sample_state ''task'' ''t1'' = Some (sample_doc 9)"
proof -
  let ?index = "\<lparr>mi_descriptor = sample_index, mi_entries = [([''int:9''], [''t1''])]\<rparr>"
  have e: "ensure_collection upgraded_descriptor sample_state =
      (Inr (), snd (ensure_collection upgraded_descriptor sample_state))"
  proof -
    have "fst (ensure_collection upgraded_descriptor sample_state) = Inr ()"
      by code_simp
    then show ?thesis by (simp add: prod_eq_iff)
  qed
  have n: "cd_name upgraded_descriptor = ''task''"
    by (simp add: upgraded_descriptor_def sample_descriptor_def)
  have c: "om_find (ms_collections sample_state) (cd_name upgraded_descriptor) = Some sample_descriptor"
    by code_simp
  have i: "om_find (ms_indexes sample_state) (cd_name upgraded_descriptor) = Some [(''by_n'', ?index)]"
    by code_simp
  have d: "docs_of sample_state ''task'' ''t1'' = Some (sample_doc 9)"
    by code_simp
  have "tx_query (cd_name upgraded_descriptor) (index_equals ''by_m'' [integer_value 9])
     (begin_tx (snd (ensure_collection upgraded_descriptor sample_state))) =
     (Inr [], begin_tx (snd (ensure_collection upgraded_descriptor sample_state)))"
    by (rule upgraded_index_stays_empty [OF e c i]) (simp_all add: index_equals_def is_index_query_def)
  then show ?thesis
    using d by (simp add: n)
qed

text \<open>A range query over integers compares their decimal spellings. The record with \<open>n = 9\<close> is not in
  the inclusive range from 1 to 10, and one with \<open>n = 10\<close> would be in the range from 1 to 2.\<close>

theorem integer_range_is_lexicographic:
  "fst (tx_query ''task''
     (index_range ''by_n'' (Some \<lparr>ib_values = [integer_value 1], ib_inclusive = True\<rparr>)
        (Some \<lparr>ib_values = [integer_value 10], ib_inclusive = True\<rparr>)) (begin_tx sample_state)) = Inr [] \<and>
   matches_index_key [''int:10''] (index_range ''by_n'' (Some \<lparr>ib_values = [integer_value 1], ib_inclusive = True\<rparr>)
        (Some \<lparr>ib_values = [integer_value 2], ib_inclusive = True\<rparr>)) = Inr True"
proof
  show "fst (tx_query ''task''
     (index_range ''by_n'' (Some \<lparr>ib_values = [integer_value 1], ib_inclusive = True\<rparr>)
        (Some \<lparr>ib_values = [integer_value 10], ib_inclusive = True\<rparr>)) (begin_tx sample_state)) = Inr []"
    by code_simp
  show "matches_index_key [''int:10''] (index_range ''by_n'' (Some \<lparr>ib_values = [integer_value 1], ib_inclusive = True\<rparr>)
        (Some \<lparr>ib_values = [integer_value 2], ib_inclusive = True\<rparr>)) = Inr True"
    by code_simp
qed

end
