(* ===== verification/Store_Refinement.thy ===== *)
theory Store_Refinement
  imports Memory_Props
begin

text \<open>
  How the stores are verified. Their methods are written against \<open>ITransaction\<close>, so the same code
  runs on \<open>view_transaction\<close>, a transaction that is just the map of documents. A method over a
  transaction that satisfies \<open>occ_transaction\<close> simulates (\<open>refines\<close>) the same method over the map;
  the rules below derive this from the shape of the method. Properties are then proved on maps
  and hold of the in-memory backend, within a transaction and for the backend-managed form.
\<close>

section \<open>The map as a transaction\<close>

definition view_record :: "collection_name \<Rightarrow> key \<Rightarrow> json \<Rightarrow> versioned_record" where
  "view_record c k d = \<lparr>vr_collection = c, vr_key = k, vr_version = 0, vr_document = d\<rparr>"

definition view_transaction :: "doc_view itransaction" where
  "view_transaction =
     \<lparr>it_is_open = (\<lambda>v. True), it_abort = returnM (),
      it_get = (\<lambda>c k v. (Inr (map_option (view_record c k) (v c k)), v)),
      it_query = (\<lambda>c q. throwM Undefined_Behaviour),
      it_put = (\<lambda>c k d. modifyM (view_put c k d)),
      it_erase = (\<lambda>c k. modifyM (view_erase c k))\<rparr>"

lemma view_transaction_simps [simp]:
  "it_get view_transaction c k v = (Inr (map_option (view_record c k) (v c k)), v)"
  "it_put view_transaction c k d = modifyM (view_put c k d)"
  "it_erase view_transaction c k = modifyM (view_erase c k)"
  by (simp_all add: view_transaction_def)

lemma view_record_fields [simp]:
  "vr_document (view_record c k d) = d" "vr_key (view_record c k d) = k"
  "vr_collection (view_record c k d) = c"
  by (simp_all add: view_record_def)

section \<open>Simulation\<close>

definition refines ::
    "('tx \<Rightarrow> bool) \<Rightarrow> ('tx \<Rightarrow> doc_view) \<Rightarrow> ('tx, 'a) action \<Rightarrow> (doc_view, 'a) action \<Rightarrow> bool" where
  "refines U V m a \<longleftrightarrow>
     (\<forall>tx. U tx \<longrightarrow>
        (\<exists>tx'. m tx = (fst (a (V tx)), tx') \<and> U tx' \<and> V tx' = snd (a (V tx))))"

named_theorems refine_intros "simulation of a method by the same method on the map"

lemma refinesD:
  assumes "refines U V m a" and "U tx"
  obtains tx' where "m tx = (fst (a (V tx)), tx')" and "U tx'" and "V tx' = snd (a (V tx))"
  using assms unfolding refines_def by blast

lemma refines_fst: "refines U V m a \<Longrightarrow> U tx \<Longrightarrow> fst (m tx) = fst (a (V tx))"
  unfolding refines_def by (metis fst_conv)

lemma refines_returnM [refine_intros]: "refines U V (returnM x) (returnM x)"
  by (simp add: refines_def)

lemma refines_throwM [refine_intros]: "refines U V (throwM e) (throwM e)"
  by (simp add: refines_def)

lemma refines_liftM [refine_intros]: "refines U V (liftM r) (liftM r)"
  by (simp add: refines_def)

lemma refines_bindM:
  assumes m: "refines U V m a" and f: "\<And>x. refines U V (f x) (g x)"
  shows "refines U V (bindM m f) (bindM a g)"
  unfolding refines_def
proof (intro allI impI)
  fix tx assume u: "U tx"
  obtain tx1 where 1: "m tx = (fst (a (V tx)), tx1)" "U tx1" "V tx1 = snd (a (V tx))"
    using refinesD [OF m u] .
  show "\<exists>tx'. bindM m f tx = (fst (bindM a g (V tx)), tx') \<and> U tx' \<and> V tx' = snd (bindM a g (V tx))"
  proof (cases "fst (a (V tx))")
    case (Inl e)
    then have "a (V tx) = (Inl e, V tx1)" using 1(3) by (simp add: prod_eq_iff)
    then show ?thesis using 1 Inl by simp
  next
    case (Inr x)
    then have a: "a (V tx) = (Inr x, V tx1)" using 1(3) by (simp add: prod_eq_iff)
    obtain tx2 where "f x tx1 = (fst (g x (V tx1)), tx2)" "U tx2" "V tx2 = snd (g x (V tx1))"
      using refinesD [OF f 1(2)] .
    then show ?thesis using 1(1) Inr a by simp
  qed
qed

lemma refines_if [refine_intros]:
  "refines U V m a \<Longrightarrow> refines U V n b \<Longrightarrow>
   refines U V (if P then m else n) (if P then a else b)"
  by simp

lemma refines_option [refine_intros]:
  "refines U V m a \<Longrightarrow> (\<And>x. refines U V (f x) (g x)) \<Longrightarrow>
   refines U V (case z of None \<Rightarrow> m | Some x \<Rightarrow> f x) (case z of None \<Rightarrow> a | Some x \<Rightarrow> g x)"
  by (cases z) simp_all

lemma refines_let [refine_intros]:
  "(\<And>x. refines U V (f x) (g x)) \<Longrightarrow> refines U V (Let z f) (Let z g)"
  by simp

lemma refines_forM [refine_intros]:
  "(\<And>x. refines U V (f x) (g x)) \<Longrightarrow> refines U V (forM xs f) (forM xs g)"
  by (induction xs) (auto intro: refine_intros refines_bindM)

context occ_transaction
begin

text \<open>After a get the two sides continue with records of the same document.\<close>

lemma refines_get [refine_intros]:
  assumes c: "names c"
    and none: "refines usable view (f None) (g None)"
    and some: "\<And>r d. vr_document r = d \<Longrightarrow> refines usable view (f (Some r)) (g (Some (view_record c k d)))"
  shows "refines usable view (bindM (it_get I c k) f) (bindM (it_get view_transaction c k) g)"
  unfolding refines_def
proof (intro allI impI)
  fix tx assume u: "usable tx"
  show "\<exists>tx'. bindM (it_get I c k) f tx = (fst (bindM (it_get view_transaction c k) g (view tx)), tx') \<and>
      usable tx' \<and> view tx' = snd (bindM (it_get view_transaction c k) g (view tx))"
    using u c
  proof (cases rule: get_cases [where k = k])
    case (Absent tx1)
    obtain tx2 where "f None tx1 = (fst (g None (view tx1)), tx2)" "usable tx2" "view tx2 = snd (g None (view tx1))"
      using refinesD [OF none Absent(2)] .
    then show ?thesis using Absent by simp
  next
    case (Present r tx1)
    obtain tx2 where "f (Some r) tx1 = (fst (g (Some (view_record c k (vr_document r))) (view tx1)), tx2)"
        "usable tx2" "view tx2 = snd (g (Some (view_record c k (vr_document r))) (view tx1))"
      using refinesD [OF some [OF refl] Present(2)] .
    then show ?thesis using Present by simp
  qed
qed

lemma refines_put [refine_intros]:
  "names c \<Longrightarrow> refines usable view (it_put I c k d) (it_put view_transaction c k d)"
  unfolding refines_def using put_law by fastforce

lemma refines_erase [refine_intros]:
  "names c \<Longrightarrow> refines usable view (it_erase I c k) (it_erase view_transaction c k)"
  unfolding refines_def using erase_law by fastforce

end

section \<open>The in-memory backend\<close>

interpretation memory_at: occ_transaction memory_transaction "\<lambda>m. usable m \<and> fst m = s" mem_view plain_name
  for s
proof unfold_locales
  fix m :: mem and c k d
  assume u: "usable m \<and> fst m = s" and c: "plain_name c"
  note keep = memory.get_law [OF conjunct1 [OF u] c] memory.put_law [OF conjunct1 [OF u] c]
    memory.erase_law [OF conjunct1 [OF u] c] memory.query_law [OF conjunct1 [OF u] c]
  have o: "tx_open (snd m)" using u by (simp add: usable_def)
  show "\<exists>r tx'. it_get memory_transaction c k m = (Inr r, tx') \<and> (usable tx' \<and> fst tx' = s) \<and>
      mem_view tx' = mem_view m \<and> map_option vr_document r = mem_view m c k"
    using keep(1) [of k] u tx_get_eq [OF o, of c k] by auto
  show "\<exists>tx'. it_put memory_transaction c k d m = (Inr (), tx') \<and> (usable tx' \<and> fst tx' = s) \<and>
      mem_view tx' = view_put c k d (mem_view m)"
    using keep(2) [of k d] u tx_put_eq [OF o, of c k d] by auto
  show "\<exists>tx'. it_erase memory_transaction c k m = (Inr (), tx') \<and> (usable tx' \<and> fst tx' = s) \<and>
      mem_view tx' = view_erase c k (mem_view m)"
    using keep(3) [of k] u tx_erase_eq [OF o, of c k] by auto
  show "\<exists>rs tx'. it_query memory_transaction c query_all m = (Inr rs, tx') \<and> (usable tx' \<and> fst tx' = s) \<and>
      mem_view tx' = mem_view m \<and> distinct (map vr_key rs) \<and>
      map_of (map (\<lambda>r. (vr_key r, vr_document r)) rs) = mem_view m c"
    using keep(4) u tx_query_all_eq [OF o, of c] by auto
qed

text \<open>The three outcomes of a backend-managed method: it throws, its commit throws, or it returns
  and the backend holds what the method left in the map.\<close>

lemma managed_memory_cases:
  assumes s: "state_ok s" and ref: "refines (\<lambda>m. usable m \<and> fst m = s) mem_view m a"
    and run: "managed in_memory_backend m s = (r, s')"
  obtains (Throws) e where "fst (a (committed_docs s)) = Inl e" and "r = Inl e" and "s' = s"
    | (Conflicts) x e where "fst (a (committed_docs s)) = Inr x" and "r = Inl e" and "s' = s"
    | (Commits) x where "fst (a (committed_docs s)) = Inr x" and "r = Inr x" and "state_ok s'"
      and "\<And>c. plain_name c \<Longrightarrow> committed_docs s' c = snd (a (committed_docs s)) c"
proof -
  have b: "usable (begin_tx s) \<and> fst (begin_tx s) = s" "mem_view (begin_tx s) = committed_docs s"
    using begin_usable [OF s] begin_view by (simp_all add: begin_tx_def)
  obtain m1 where 1: "m (begin_tx s) = (fst (a (committed_docs s)), m1)" "usable m1" "fst m1 = s"
      "mem_view m1 = snd (a (committed_docs s))"
    using refinesD [OF ref b(1)] unfolding b(2) by metis
  show ?thesis
  proof (cases "fst (a (committed_docs s))")
    case (Inl e)
    then have "r = Inl e" "s' = s" using run 1 by (auto simp: managed_def)
    then show ?thesis using Throws Inl by blast
  next
    case (Inr x)
    obtain r2 m2 where c: "as_memory_tx tx_commit m1 = (r2, m2)"
      using surjective_pairing by blast
    show ?thesis
    proof (cases r2)
      case (Inl e)
      then have "fst m2 = s"
        using memory.commit_fail_law [of m1 e m2] c 1(3) by simp
      then have "r = Inl e" "s' = s" using run 1(1) Inr c Inl by (auto simp: managed_def)
      then show ?thesis using Conflicts Inr by blast
    next
      case (Inr u)
      then have c': "as_memory_tx tx_commit m1 = (Inr (), m2)" using c by simp
      then have "r = Inr x" "s' = fst m2"
        using run 1(1) \<open>fst (a (committed_docs s)) = Inr x\<close> by (auto simp: managed_def)
      then show ?thesis
        using Commits [of x] \<open>fst (a (committed_docs s)) = Inr x\<close> memory.commit_law [OF 1(2), of m2]
          memory.commit_consistent_law [OF 1(2), of m2] c' 1(4) by simp
    qed
  qed
qed


section \<open>Methods that scan a collection\<close>

text \<open>The order in which a query yields the records of a collection is the backend's; a method that
  scans one is described by a relation instead.\<close>

definition refines_rel ::
    "('tx \<Rightarrow> bool) \<Rightarrow> ('tx \<Rightarrow> doc_view) \<Rightarrow> ('tx, 'a) action \<Rightarrow>
     (doc_view \<Rightarrow> 'a result \<Rightarrow> doc_view \<Rightarrow> bool) \<Rightarrow> bool" where
  "refines_rel U V m P \<longleftrightarrow>
     (\<forall>tx. U tx \<longrightarrow> (\<exists>r tx'. m tx = (r, tx') \<and> U tx' \<and> P (V tx) r (V tx')))"

lemma refines_relD:
  assumes "refines_rel U V m P" and "U tx"
  obtains r tx' where "m tx = (r, tx')" and "U tx'" and "P (V tx) r (V tx')"
  using assms unfolding refines_rel_def by blast

lemma refines_refines_rel: "refines U V m a \<Longrightarrow> refines_rel U V m (\<lambda>v r v'. a v = (r, v'))"
  unfolding refines_rel_def refines_def by (metis prod.collapse)

text \<open>The entries a query over a map may yield: each key once, with its document.\<close>

definition entries_of :: "(key \<rightharpoonup> json) \<Rightarrow> (key \<times> json) list \<Rightarrow> bool" where
  "entries_of docs es \<longleftrightarrow> distinct (map fst es) \<and> map_of es = docs"

context occ_transaction
begin

lemma refines_rel_query:
  assumes c: "names c"
    and f: "\<And>rs. refines usable view (f rs) (g (map (\<lambda>r. (vr_key r, vr_document r)) rs))"
  shows "refines_rel usable view (bindM (it_query I c query_all) f)
    (\<lambda>v r v'. \<exists>es. entries_of (v c) es \<and> g es v = (r, v'))"
  unfolding refines_rel_def
proof (intro allI impI)
  fix tx assume u: "usable tx"
  obtain rs tx1 where q: "it_query I c query_all tx = (Inr rs, tx1)" "usable tx1" "view tx1 = view tx"
      "distinct (map vr_key rs)" "map_of (map (\<lambda>r. (vr_key r, vr_document r)) rs) = view tx c"
    using query_cases [OF u c] .
  let ?es = "map (\<lambda>r. (vr_key r, vr_document r)) rs"
  obtain tx2 where 2: "f rs tx1 = (fst (g ?es (view tx1)), tx2)" "usable tx2" "view tx2 = snd (g ?es (view tx1))"
    using refinesD [OF f q(2)] .
  have "entries_of (view tx c) ?es"
    using q(4,5) by (simp add: entries_of_def comp_def)
  then show "\<exists>r tx'. bindM (it_query I c query_all) f tx = (r, tx') \<and> usable tx' \<and>
      (\<exists>es. entries_of (view tx c) es \<and> g es (view tx) = (r, view tx'))"
    using q(1,3) 2 by (intro exI [of _ "fst (g ?es (view tx1))"] exI [of _ tx2]) (auto intro!: exI [of _ ?es])
qed

end

lemma managed_memory_rel:
  assumes s: "state_ok s" and ref: "refines_rel (\<lambda>m. usable m \<and> fst m = s) mem_view m P"
    and run: "managed in_memory_backend m s = (Inr x, s')"
  shows "\<exists>v'. P (committed_docs s) (Inr x) v' \<and> state_ok s' \<and> (\<forall>c. plain_name c \<longrightarrow> committed_docs s' c = v' c)"
proof -
  have b: "usable (begin_tx s) \<and> fst (begin_tx s) = s" "mem_view (begin_tx s) = committed_docs s"
    using begin_usable [OF s] begin_view by (simp_all add: begin_tx_def)
  obtain m1 m2 where 1: "m (begin_tx s) = (Inr x, m1)" "ib_commit in_memory_backend m1 = (Inr (), m2)"
      "s' = fst m2"
    using run by (auto simp: managed_def elim!: bindM_cases split: prod.splits)
  obtain r tx' where 2: "m (begin_tx s) = (r, tx')" "usable tx'" "P (committed_docs s) r (mem_view tx')"
    using refines_relD [OF ref b(1)] unfolding b(2) by metis
  have eq: "r = Inr x" "tx' = m1"
    using 1(1) 2(1) by simp_all
  have u1: "usable m1" and P: "P (committed_docs s) (Inr x) (mem_view m1)"
    using 2 eq by simp_all
  have "state_ok s'" "\<forall>c. plain_name c \<longrightarrow> committed_docs s' c = mem_view m1 c"
    using memory.commit_law [OF u1 1(2)] memory.commit_consistent_law [OF u1 1(2)] 1(3) by simp_all
  then show ?thesis
    using P by blast
qed

text \<open>A managed method that throws leaves the backend as it was.\<close>

lemma managed_memory_throws:
  assumes s: "state_ok s" and ref: "refines_rel (\<lambda>m. usable m \<and> fst m = s) mem_view m P"
    and run: "managed in_memory_backend m s = (Inl e, s')"
  shows "s' = s"
proof (rule memory.managed_Inl [OF run s])
  fix r tx1 assume r: "m (ib_begin in_memory_backend s) = (r, tx1)"
  have "usable (begin_tx s) \<and> fst (begin_tx s) = s"
    using begin_usable [OF s] by (simp add: begin_tx_def)
  then have "fst tx1 = s"
    using refines_relD [OF ref] r by (metis memory_selectors(2) prod.inject)
  then show "ib_shared in_memory_backend tx1 = ib_shared in_memory_backend (ib_begin in_memory_backend s)"
    by (simp add: begin_tx_def)
qed

section \<open>Shared facts\<close>

lemma append_colon_inject:
  assumes "plain_name a" and "plain_name a'"
  shows "a @ CHR '':'' # b = a' @ CHR '':'' # b' \<longleftrightarrow> a = a' \<and> b = b'"
proof
  assume eq: "a @ CHR '':'' # b = a' @ CHR '':'' # b'"
  then have "a = a'"
    using takeWhile_colon [OF assms(1), of b] takeWhile_colon [OF assms(2), of b'] by simp
  then show "a = a' \<and> b = b'" using eq by simp
qed simp

lemma to_string_u64_no_colon: "plain_name (to_string_u64 w)"
  using show_nat_digits [of "unat w"] by (auto simp: plain_name_def to_string_u64_def list_all_iff is_digit_def)

lemma to_string_u64_inject: "to_string_u64 a = to_string_u64 b \<longleftrightarrow> a = b"
  by (metis digits_value_show_nat to_string_u64_def unsigned_word_eqI)

text \<open>Strings that differ after their last colon differ.\<close>

lemma last_segment:
  assumes "plain_name d" and "plain_name d'" and "a @ CHR '':'' # d = a' @ CHR '':'' # d'"
  shows "d = d'"
proof -
  have seg: "takeWhile (\<lambda>c. c \<noteq> CHR '':'') (rev (b @ CHR '':'' # e)) = rev e" if "plain_name e" for b e
  proof -
    have "takeWhile (\<lambda>c. c \<noteq> CHR '':'') (rev e @ CHR '':'' # rev b) = rev e @ takeWhile (\<lambda>c. c \<noteq> CHR '':'') (CHR '':'' # rev b)"
      by (rule takeWhile_append2) (use that in \<open>auto simp: plain_name_def\<close>)
    then show ?thesis by simp
  qed
  show ?thesis
    using seg [OF assms(1), of a] seg [OF assms(2), of a'] assms(3) by simp
qed

lemma managed_Inr_commit:
  assumes "managed in_memory_backend operation s = (Inr x, s')"
  obtains m m' where "operation (begin_tx s) = (Inr x, m)" and "tx_commit m = (Inr (), m')" and "s' = fst m'"
  using assms
  by (auto simp: managed_def as_memory_tx_def require_open_def bindM_def split: prod.splits sum.splits if_splits)

lemma ensure_collections_ok: "state_ok s \<Longrightarrow> state_ok (snd (ensure_collections ds s))"
  by (auto simp: state_ok_def ensure_collections_def split: sum.split)

lemma ensure_collections_docs: "committed_docs (snd (ensure_collections ds s)) = committed_docs s"
  by (simp add: ensure_collections_def committed_docs_def lookup_record_def fun_eq_iff split: sum.split)

lemma managed_state_ok:
  assumes "state_ok s" and "refines (\<lambda>m. usable m \<and> fst m = s) mem_view m a"
  shows "state_ok (snd (managed in_memory_backend m s))"
  using assms surjective_pairing by (rule managed_memory_cases) (use assms(1) in simp_all)

end
