(* ===== verification/Lease_Store.thy ===== *)
theory Lease_Store
  imports Codecs Store_Refinement
begin

text \<open>
  \<open>RuntimeLeaseStore\<close> of \<open>bindings/cpp/runtime/lease_store.hpp\<close> with the requests and results of
  \<open>bindings/cpp/lease.hpp\<close>. The \<open>Tx\<close> methods are actions over any transaction interface, the
  others the backend-managed form of them. What each does to the documents a transaction sees is
  proved against the contract \<open>occ_transaction\<close>, and then instantiated for the in-memory backend.
\<close>

section \<open>Requests and results\<close>

record lease_register_result =
  lrr_registered_new :: bool
  lrr_definition :: lease_definition

record lease_acquire_request =
  laq_definition_id :: lease_definition_id
  laq_resource :: string
  laq_holder :: string
  laq_now :: timestamp

record lease_renew_request =
  lrq_definition_id :: lease_definition_id
  lrq_resource :: string
  lrq_holder :: string
  lrq_fencing_token :: "64 word"
  lrq_now :: timestamp

record lease_release_request =
  llq_definition_id :: lease_definition_id
  llq_resource :: string
  llq_holder :: string
  llq_fencing_token :: "64 word"

record lease_inspect_request =
  liq_definition_id :: lease_definition_id
  liq_resource :: string

record lease_acquire_result =
  lar_acquired :: bool
  lar_lease :: "lease_record option"

section \<open>The store\<close>

definition lease_definition_key :: "lease_definition_id \<Rightarrow> string" where
  "lease_definition_key i = ldi_name i @ '':'' @ to_string_u64 (ldi_version i)"

definition lease_key :: "lease_definition_id \<Rightarrow> string \<Rightarrow> string" where
  "lease_key i resource = lease_definition_key i @ '':'' @ resource"

definition lease_ensure_collections :: "('s, 'tx) ibackend \<Rightarrow> ('s, unit) action" where
  "lease_ensure_collections B =
     ib_ensure_collections B
       [collection_with_keys LeaseDefinitions [KF_LeaseDefinition], collection_with_keys Leases [KF_Lease]]"

definition lease_inspect_definitionTx ::
    "'tx itransaction \<Rightarrow> lease_definition_id \<Rightarrow> ('tx, lease_definition option) action" where
  "lease_inspect_definitionTx I i =
     bindM (it_get I LeaseDefinitions (lease_definition_key i)) (\<lambda>record.
       case record of
         None \<Rightarrow> returnM None
       | Some r \<Rightarrow> liftM (map_sum id Some (lease_definition_from_json (vr_document r))))"

definition lease_register_definitionTx ::
    "'tx itransaction \<Rightarrow> lease_definition \<Rightarrow> ('tx, lease_register_result) action" where
  "lease_register_definitionTx I d =
     bindM (lease_inspect_definitionTx I (ld_id d)) (\<lambda>existing.
     bindM (liftM (lease_definition_to_json d)) (\<lambda>j.
     bindM (it_put I LeaseDefinitions (lease_definition_key (ld_id d)) j) (\<lambda>_.
       returnM \<lparr>lrr_registered_new = (existing = None), lrr_definition = d\<rparr>)))"

definition lease_inspectTx ::
    "'tx itransaction \<Rightarrow> lease_inspect_request \<Rightarrow> ('tx, lease_record option) action" where
  "lease_inspectTx I q =
     bindM (it_get I Leases (lease_key (liq_definition_id q) (liq_resource q))) (\<lambda>record.
       case record of
         None \<Rightarrow> returnM None
       | Some r \<Rightarrow> liftM (map_sum id Some (lease_record_from_json (vr_document r))))"

definition require_lease_definition ::
    "'tx itransaction \<Rightarrow> lease_definition_id \<Rightarrow> ('tx, lease_definition) action" where
  "require_lease_definition I i =
     bindM (lease_inspect_definitionTx I i) (\<lambda>d.
       case d of
         None \<Rightarrow> throwM (BackendError (''unknown lease definition: '' @ ldi_name i))
       | Some d \<Rightarrow> returnM d)"

definition require_lease ::
    "'tx itransaction \<Rightarrow> lease_definition_id \<Rightarrow> string \<Rightarrow> ('tx, lease_record) action" where
  "require_lease I i resource =
     bindM (lease_inspectTx I \<lparr>liq_definition_id = i, liq_resource = resource\<rparr>) (\<lambda>l.
       case l of
         None \<Rightarrow> throwM (BackendError (''unknown lease: '' @ resource))
       | Some l \<Rightarrow> returnM l)"

definition require_holder :: "lease_record \<Rightarrow> string \<Rightarrow> 64 word \<Rightarrow> unit result" where
  "require_holder l holder token =
     (if lr_holder l = None \<or> lr_holder l \<noteq> Some holder \<or> (token \<noteq> 0 \<and> lr_fencing_token l \<noteq> token)
      then Inl (ConflictError LeaseConflict ''lease is not held by caller'')
      else Inr ())"

definition lease_acquireTx ::
    "'tx itransaction \<Rightarrow> lease_acquire_request \<Rightarrow> ('tx, lease_acquire_result) action" where
  "lease_acquireTx I q =
     bindM (require_lease_definition I (laq_definition_id q)) (\<lambda>d.
     bindM (lease_inspectTx I \<lparr>liq_definition_id = laq_definition_id q, liq_resource = laq_resource q\<rparr>) (\<lambda>existing.
       if (case existing of None \<Rightarrow> False
           | Some l \<Rightarrow> lr_holder l \<noteq> None \<and> sint (lr_expires_at l) > sint (laq_now q))
       then returnM \<lparr>lar_acquired = False, lar_lease = existing\<rparr>
       else
         bindM (liftM (add_seconds (laq_now q) (ld_ttl d))) (\<lambda>expires.
         let lease = \<lparr>lr_definition_id = laq_definition_id q, lr_resource = laq_resource q,
               lr_holder = Some (laq_holder q), lr_expires_at = expires,
               lr_fencing_token = (case existing of None \<Rightarrow> 1 | Some l \<Rightarrow> lr_fencing_token l + 1)\<rparr> in
         bindM (liftM (lease_record_to_json lease)) (\<lambda>j.
         bindM (it_put I Leases (lease_key (laq_definition_id q) (laq_resource q)) j) (\<lambda>_.
           returnM \<lparr>lar_acquired = True, lar_lease = Some lease\<rparr>)))))"

definition lease_renewTx :: "'tx itransaction \<Rightarrow> lease_renew_request \<Rightarrow> ('tx, lease_record) action" where
  "lease_renewTx I q =
     bindM (require_lease_definition I (lrq_definition_id q)) (\<lambda>d.
     bindM (require_lease I (lrq_definition_id q) (lrq_resource q)) (\<lambda>l.
     bindM (liftM (require_holder l (lrq_holder q) (lrq_fencing_token q))) (\<lambda>_.
     bindM (liftM (add_seconds (lrq_now q) (ld_ttl d))) (\<lambda>expires.
     let lease = l\<lparr>lr_expires_at := expires\<rparr> in
     bindM (liftM (lease_record_to_json lease)) (\<lambda>j.
     bindM (it_put I Leases (lease_key (lrq_definition_id q) (lrq_resource q)) j) (\<lambda>_.
       returnM lease))))))"

definition lease_releaseTx :: "'tx itransaction \<Rightarrow> lease_release_request \<Rightarrow> ('tx, unit) action" where
  "lease_releaseTx I q =
     bindM (require_lease I (llq_definition_id q) (llq_resource q)) (\<lambda>l.
     bindM (liftM (require_holder l (llq_holder q) (llq_fencing_token q))) (\<lambda>_.
       it_erase I Leases (lease_key (llq_definition_id q) (llq_resource q))))"

subsection \<open>Backend-managed methods\<close>

definition lease_register_definition ::
    "('s, 'tx) ibackend \<Rightarrow> lease_definition \<Rightarrow> ('s, lease_register_result) action" where
  "lease_register_definition B d =
     bindM (lease_ensure_collections B) (\<lambda>_. managed B (lease_register_definitionTx (ib_tx B) d))"

definition lease_inspect_definition ::
    "('s, 'tx) ibackend \<Rightarrow> lease_definition_id \<Rightarrow> ('s, lease_definition option) action" where
  "lease_inspect_definition B i = managed B (lease_inspect_definitionTx (ib_tx B) i)"

definition lease_acquire ::
    "('s, 'tx) ibackend \<Rightarrow> lease_acquire_request \<Rightarrow> ('s, lease_acquire_result) action" where
  "lease_acquire B q = managed B (lease_acquireTx (ib_tx B) q)"

definition lease_renew :: "('s, 'tx) ibackend \<Rightarrow> lease_renew_request \<Rightarrow> ('s, lease_record) action" where
  "lease_renew B q = managed B (lease_renewTx (ib_tx B) q)"

definition lease_release :: "('s, 'tx) ibackend \<Rightarrow> lease_release_request \<Rightarrow> ('s, unit) action" where
  "lease_release B q = managed B (lease_releaseTx (ib_tx B) q)"

definition lease_inspect ::
    "('s, 'tx) ibackend \<Rightarrow> lease_inspect_request \<Rightarrow> ('s, lease_record option) action" where
  "lease_inspect B q = managed B (lease_inspectTx (ib_tx B) q)"

section \<open>Keys\<close>

text \<open>Definition names without a colon make lease keys injective.\<close>

lemma lease_key_inject:
  assumes "plain_name (ldi_name i)" and "plain_name (ldi_name i')"
  shows "lease_key i r = lease_key i' r' \<longleftrightarrow> i = i' \<and> r = r'"
  using assms to_string_u64_no_colon
  by (cases i; cases i')
    (simp add: lease_key_def lease_definition_key_def append_colon_inject to_string_u64_inject)

section \<open>The store over the map of documents\<close>

text \<open>What the map holds under a key: nothing, a value, or a document that does not decode.\<close>

definition find_lease_definition :: "doc_view \<Rightarrow> lease_definition_id \<Rightarrow> lease_definition option result" where
  "find_lease_definition v i =
     (case v LeaseDefinitions (lease_definition_key i) of None \<Rightarrow> Inr None
      | Some d \<Rightarrow> map_sum id Some (lease_definition_from_json d))"

definition find_lease :: "doc_view \<Rightarrow> lease_definition_id \<Rightarrow> string \<Rightarrow> lease_record option result" where
  "find_lease v i resource =
     (case v Leases (lease_key i resource) of None \<Rightarrow> Inr None
      | Some d \<Rightarrow> map_sum id Some (lease_record_from_json d))"

lemma lease_collections_plain [simp]:
  "plain_name LeaseDefinitions" "plain_name Leases" "LeaseDefinitions \<noteq> Leases" "Leases \<noteq> LeaseDefinitions"
  by (simp_all add: plain_name_def collection_names)

lemma view_lease_inspect_definition:
  "lease_inspect_definitionTx view_transaction i v = (find_lease_definition v i, v)"
  by (cases "v LeaseDefinitions (lease_definition_key i)")
    (simp_all add: lease_inspect_definitionTx_def find_lease_definition_def)

lemma view_lease_inspect:
  "lease_inspectTx view_transaction q v = (find_lease v (liq_definition_id q) (liq_resource q), v)"
  by (cases "v Leases (lease_key (liq_definition_id q) (liq_resource q))")
    (simp_all add: lease_inspectTx_def find_lease_def)

lemma view_require_definition:
  "require_lease_definition view_transaction i v =
     (andThen (find_lease_definition v i) (\<lambda>d. case d of
        None \<Rightarrow> Inl (BackendError (''unknown lease definition: '' @ ldi_name i)) | Some d \<Rightarrow> Inr d), v)"
  by (auto simp: require_lease_definition_def bindM_def view_lease_inspect_definition andThen_def
      split: sum.split option.split)

lemma view_require_lease:
  "require_lease view_transaction i resource v =
     (andThen (find_lease v i resource) (\<lambda>l. case l of
        None \<Rightarrow> Inl (BackendError (''unknown lease: '' @ resource)) | Some l \<Rightarrow> Inr l), v)"
  by (auto simp: require_lease_def bindM_def view_lease_inspect andThen_def split: sum.split option.split)

text \<open>Storing a lease: the next reader finds it, with its deadline cut to the millisecond.\<close>

definition lease_document :: "lease_record \<Rightarrow> json" where
  "lease_document l = projr (lease_record_to_json l)"

lemma lease_record_to_json_Inr [simp]: "lease_record_to_json l = Inr (lease_document l)"
  using lease_record.enc_total [of l] by (auto simp: lease_document_def)

lemma find_lease_put:
  "find_lease (view_put Leases (lease_key i resource) (lease_document l) v) i' resource' =
    (if lease_key i' resource' = lease_key i resource then Inr (Some (lease_record_norm l))
     else find_lease v i' resource')"
  using lease_record.dec_enc [of l] by (auto simp: find_lease_def)

lemma find_definition_put_lease [simp]:
  "find_lease_definition (view_put Leases k j v) i = find_lease_definition v i"
  "find_lease_definition (view_erase Leases k v) i = find_lease_definition v i"
  by (simp_all add: find_lease_definition_def)

lemma find_lease_erase:
  "find_lease (view_erase Leases (lease_key i resource) v) i' resource' =
    (if lease_key i' resource' = lease_key i resource then Inr None else find_lease v i' resource')"
  by (simp add: find_lease_def)

subsection \<open>Specification of acquire\<close>

definition lease_taken :: "timestamp \<Rightarrow> lease_record option \<Rightarrow> bool" where
  "lease_taken now existing \<longleftrightarrow>
     (\<exists>l. existing = Some l \<and> lr_holder l \<noteq> None \<and> sint now < sint (lr_expires_at l))"

definition granted_lease :: "lease_acquire_request \<Rightarrow> lease_record option \<Rightarrow> timestamp \<Rightarrow> lease_record" where
  "granted_lease q existing expires =
     \<lparr>lr_definition_id = laq_definition_id q, lr_resource = laq_resource q, lr_holder = Some (laq_holder q),
      lr_expires_at = expires,
      lr_fencing_token = (case existing of None \<Rightarrow> 1 | Some l \<Rightarrow> lr_fencing_token l + 1)\<rparr>"

lemma view_acquire:
  assumes "find_lease_definition v (laq_definition_id q) = Inr (Some d)"
    and "find_lease v (laq_definition_id q) (laq_resource q) = Inr existing"
  shows "lease_acquireTx view_transaction q v =
    (if lease_taken (laq_now q) existing then (Inr \<lparr>lar_acquired = False, lar_lease = existing\<rparr>, v)
     else case add_seconds (laq_now q) (ld_ttl d) of
       Inl e \<Rightarrow> (Inl e, v)
     | Inr expires \<Rightarrow>
         (Inr \<lparr>lar_acquired = True, lar_lease = Some (granted_lease q existing expires)\<rparr>,
          view_put Leases (lease_key (laq_definition_id q) (laq_resource q))
            (lease_document (granted_lease q existing expires)) v))"
proof -
  have "(case existing of None \<Rightarrow> False | Some l \<Rightarrow> lr_holder l \<noteq> None \<and> sint (lr_expires_at l) > sint (laq_now q)) =
      lease_taken (laq_now q) existing"
    by (auto simp: lease_taken_def split: option.split)
  then show ?thesis
    by (simp add: lease_acquireTx_def bindM_def view_require_definition view_lease_inspect assms
        granted_lease_def Let_def split: sum.split)
qed

text \<open>A call that returns has found its definition and could read the stored lease.\<close>

lemma view_acquire_returns:
  assumes "fst (lease_acquireTx view_transaction q v) = Inr result"
  obtains d existing where "find_lease_definition v (laq_definition_id q) = Inr (Some d)"
    and "find_lease v (laq_definition_id q) (laq_resource q) = Inr existing"
proof -
  obtain d where d: "find_lease_definition v (laq_definition_id q) = Inr (Some d)"
    using assms
    by (auto simp: lease_acquireTx_def bindM_def view_require_definition andThen_def split: sum.splits option.splits)
  have "\<exists>existing. find_lease v (laq_definition_id q) (laq_resource q) = Inr existing"
    using assms d
    by (cases "find_lease v (laq_definition_id q) (laq_resource q)")
      (simp_all add: lease_acquireTx_def bindM_def view_require_definition view_lease_inspect)
  then show ?thesis using that d by blast
qed

lemma view_renew:
  assumes "find_lease_definition v (lrq_definition_id q) = Inr (Some d)"
    and "find_lease v (lrq_definition_id q) (lrq_resource q) = Inr (Some l)"
  shows "lease_renewTx view_transaction q v =
    (case andThen (require_holder l (lrq_holder q) (lrq_fencing_token q))
            (\<lambda>_. add_seconds (lrq_now q) (ld_ttl d)) of
       Inl e \<Rightarrow> (Inl e, v)
     | Inr expires \<Rightarrow>
         (Inr (l\<lparr>lr_expires_at := expires\<rparr>),
          view_put Leases (lease_key (lrq_definition_id q) (lrq_resource q))
            (lease_document (l\<lparr>lr_expires_at := expires\<rparr>)) v))"
  by (simp add: lease_renewTx_def bindM_def view_require_definition view_require_lease assms Let_def
      split: sum.split)

lemma view_release:
  assumes "find_lease v (llq_definition_id q) (llq_resource q) = Inr (Some l)"
  shows "lease_releaseTx view_transaction q v =
    (case require_holder l (llq_holder q) (llq_fencing_token q) of
       Inl e \<Rightarrow> (Inl e, v)
     | Inr _ \<Rightarrow> (Inr (), view_erase Leases (lease_key (llq_definition_id q) (llq_resource q)) v))"
  by (simp add: lease_releaseTx_def bindM_def view_require_lease assms split: sum.split)

lemma view_renew_returns:
  assumes "fst (lease_renewTx view_transaction q v) = Inr result"
  obtains d l where "find_lease_definition v (lrq_definition_id q) = Inr (Some d)"
    and "find_lease v (lrq_definition_id q) (lrq_resource q) = Inr (Some l)"
proof -
  obtain d where d: "find_lease_definition v (lrq_definition_id q) = Inr (Some d)"
    using assms
    by (auto simp: lease_renewTx_def bindM_def view_require_definition andThen_def split: sum.splits option.splits)
  have "\<exists>l. find_lease v (lrq_definition_id q) (lrq_resource q) = Inr (Some l)"
    using assms d
    by (auto simp: lease_renewTx_def bindM_def view_require_definition view_require_lease andThen_def
        split: sum.splits option.splits)
  then show ?thesis using that d by blast
qed

lemma view_release_returns:
  assumes "fst (lease_releaseTx view_transaction q v) = Inr result"
  obtains l where "find_lease v (llq_definition_id q) (llq_resource q) = Inr (Some l)"
  using assms
  by (auto simp: lease_releaseTx_def bindM_def view_require_lease andThen_def split: sum.splits option.splits)

section \<open>The store over any transaction\<close>

context occ_transaction
begin

lemma refines_lease_inspect_definition [refine_intros]:
  "names LeaseDefinitions \<Longrightarrow>
   refines usable view (lease_inspect_definitionTx I i) (lease_inspect_definitionTx view_transaction i)"
  unfolding lease_inspect_definitionTx_def by (rule refines_get) (auto intro: refine_intros)

lemma refines_lease_inspect [refine_intros]:
  "names Leases \<Longrightarrow> refines usable view (lease_inspectTx I q) (lease_inspectTx view_transaction q)"
  unfolding lease_inspectTx_def by (rule refines_get) (auto intro: refine_intros)

lemma refines_require_lease_definition [refine_intros]:
  "names LeaseDefinitions \<Longrightarrow>
   refines usable view (require_lease_definition I i) (require_lease_definition view_transaction i)"
  unfolding require_lease_definition_def by (intro refine_intros refines_bindM)

lemma refines_require_lease [refine_intros]:
  "names Leases \<Longrightarrow> refines usable view (require_lease I i r) (require_lease view_transaction i r)"
  unfolding require_lease_def by (intro refine_intros refines_bindM)

lemma refines_lease_register [refine_intros]:
  "names LeaseDefinitions \<Longrightarrow>
   refines usable view (lease_register_definitionTx I d) (lease_register_definitionTx view_transaction d)"
  unfolding lease_register_definitionTx_def by (intro refine_intros refines_bindM)

lemma refines_lease_acquire [refine_intros]:
  "names LeaseDefinitions \<Longrightarrow> names Leases \<Longrightarrow>
   refines usable view (lease_acquireTx I q) (lease_acquireTx view_transaction q)"
  unfolding lease_acquireTx_def by (intro refine_intros refines_bindM)

lemma refines_lease_renew [refine_intros]:
  "names LeaseDefinitions \<Longrightarrow> names Leases \<Longrightarrow>
   refines usable view (lease_renewTx I q) (lease_renewTx view_transaction q)"
  unfolding lease_renewTx_def by (intro refine_intros refines_bindM)

lemma refines_lease_release [refine_intros]:
  "names Leases \<Longrightarrow> refines usable view (lease_releaseTx I q) (lease_releaseTx view_transaction q)"
  unfolding lease_releaseTx_def by (intro refine_intros refines_bindM)

end

section \<open>Properties\<close>

text \<open>The lease the committed documents hold.\<close>

abbreviation stored_lease :: "in_memory_state \<Rightarrow> lease_definition_id \<Rightarrow> string \<Rightarrow> lease_record option result" where
  "stored_lease s i resource \<equiv> find_lease (committed_docs s) i resource"

lemma find_lease_cong: "v Leases = w Leases \<Longrightarrow> find_lease v i resource = find_lease w i resource"
  by (simp add: find_lease_def)

lemma find_lease_definition_cong:
  "v LeaseDefinitions = w LeaseDefinitions \<Longrightarrow> find_lease_definition v i = find_lease_definition w i"
  by (simp add: find_lease_definition_def)

lemma lease_acquire_cases:
  assumes "state_ok s" and "lease_acquire in_memory_backend q s = (r, s')"
  obtains (Refused) existing where "stored_lease s (laq_definition_id q) (laq_resource q) = Inr existing"
      and "lease_taken (laq_now q) existing" and "r = Inr \<lparr>lar_acquired = False, lar_lease = existing\<rparr>"
      and "state_ok s'" and "\<And>c. plain_name c \<Longrightarrow> committed_docs s' c = committed_docs s c"
    | (Granted) d existing expires where
      "find_lease_definition (committed_docs s) (laq_definition_id q) = Inr (Some d)"
      and "stored_lease s (laq_definition_id q) (laq_resource q) = Inr existing"
      and "\<not> lease_taken (laq_now q) existing" and "add_seconds (laq_now q) (ld_ttl d) = Inr expires"
      and "r = Inr \<lparr>lar_acquired = True, lar_lease = Some (granted_lease q existing expires)\<rparr>"
      and "state_ok s'"
      and "\<And>c. plain_name c \<Longrightarrow> committed_docs s' c =
        view_put Leases (lease_key (laq_definition_id q) (laq_resource q))
          (lease_document (granted_lease q existing expires)) (committed_docs s) c"
    | (Failed) e where "r = Inl e" and "s' = s"
proof -
  have ref: "refines (\<lambda>m. usable m \<and> fst m = s) mem_view (lease_acquireTx memory_transaction q)
      (lease_acquireTx view_transaction q)"
    by (rule memory_at.refines_lease_acquire) simp_all
  have run: "managed in_memory_backend (lease_acquireTx memory_transaction q) s = (r, s')"
    using assms(2) by (simp add: lease_acquire_def)
  from assms(1) ref run show ?thesis
  proof (cases rule: managed_memory_cases)
    case (Commits x)
    obtain d existing where d: "find_lease_definition (committed_docs s) (laq_definition_id q) = Inr (Some d)"
      "stored_lease s (laq_definition_id q) (laq_resource q) = Inr existing"
      using view_acquire_returns [OF Commits(1)] .
    note eq = view_acquire [OF d]
    show ?thesis
    proof (cases "lease_taken (laq_now q) existing")
      case True
      then show ?thesis using Refused [OF d(2)] Commits eq by simp
    next
      case False
      then obtain expires where "add_seconds (laq_now q) (ld_ttl d) = Inr expires"
        using Commits(1) eq by (cases "add_seconds (laq_now q) (ld_ttl d)") simp_all
      then show ?thesis using Granted [OF d False] Commits eq False by simp
    qed
  qed (use Failed in auto)
qed


text \<open>C4: a lease is granted only when it is free, and with the next fencing token. An acquire that grants
  found no lease, one without a holder or one whose deadline was not after the caller's clock;
  the lease it returns names the caller, expires the definition's ttl later, carries the
  successor of the stored fencing token (or 1), and is what an inspection then reads.\<close>

theorem lease_grant_sound:
  assumes "state_ok s" and "lease_acquire in_memory_backend q s = (Inr r, s')" and "lar_acquired r"
  shows "\<exists>d existing l. find_lease_definition (committed_docs s) (laq_definition_id q) = Inr (Some d) \<and>
    stored_lease s (laq_definition_id q) (laq_resource q) = Inr existing \<and>
    (\<forall>l0. existing = Some l0 \<longrightarrow> lr_holder l0 = None \<or> sint (lr_expires_at l0) \<le> sint (laq_now q)) \<and>
    lar_lease r = Some l \<and> lr_holder l = Some (laq_holder q) \<and>
    Inr (lr_expires_at l) = add_seconds (laq_now q) (ld_ttl d) \<and>
    lr_fencing_token l = (case existing of None \<Rightarrow> 1 | Some l0 \<Rightarrow> lr_fencing_token l0 + 1) \<and>
    stored_lease s' (laq_definition_id q) (laq_resource q) = Inr (Some (l\<lparr>lr_expires_at := cut_ms (lr_expires_at l)\<rparr>))"
  using assms(1,2)
proof (cases rule: lease_acquire_cases)
  case (Granted d existing expires)
  let ?l = "granted_lease q existing expires"
  have "stored_lease s' (laq_definition_id q) (laq_resource q) = Inr (Some (lease_record_norm ?l))"
    using Granted(7) [of Leases]
    by (simp add: find_lease_cong [of "committed_docs s'" "view_put Leases
          (lease_key (laq_definition_id q) (laq_resource q)) (lease_document ?l) (committed_docs s)"] find_lease_put)
  moreover have "\<forall>l0. existing = Some l0 \<longrightarrow> lr_holder l0 = None \<or> sint (lr_expires_at l0) \<le> sint (laq_now q)"
    using Granted(3) by (auto simp: lease_taken_def)
  ultimately show ?thesis
    using Granted(1,2,4,5)
    by (intro exI [of _ d] exI [of _ existing] exI [of _ ?l]) (simp add: granted_lease_def lease_record_norm_def)
qed (use assms(3) in auto)

text \<open>C5: only the holder renews or releases. When the stored lease names another holder, or none, or the
  caller passes a fencing token other than zero that is not the stored one, renewing (under a
  registered definition) and releasing both throw a \<open>LeaseConflict\<close> and leave the backend as it was.\<close>

theorem lease_holder_only:
  assumes "state_ok s" and "stored_lease s (lrq_definition_id q) (lrq_resource q) = Inr (Some l)"
    and "lr_holder l \<noteq> Some (lrq_holder q) \<or>
      (lrq_fencing_token q \<noteq> 0 \<and> lr_fencing_token l \<noteq> lrq_fencing_token q)"
    and "find_lease_definition (committed_docs s) (lrq_definition_id q) = Inr (Some d)"
  shows "lease_renew in_memory_backend q s = (Inl (ConflictError LeaseConflict ''lease is not held by caller''), s) \<and>
    lease_release in_memory_backend
      \<lparr>llq_definition_id = lrq_definition_id q, llq_resource = lrq_resource q, llq_holder = lrq_holder q,
       llq_fencing_token = lrq_fencing_token q\<rparr> s =
      (Inl (ConflictError LeaseConflict ''lease is not held by caller''), s)"
proof
  have holder: "require_holder l (lrq_holder q) (lrq_fencing_token q) =
      Inl (ConflictError LeaseConflict ''lease is not held by caller'')"
    using assms(3) by (auto simp: require_holder_def)
  let ?rel = "\<lparr>llq_definition_id = lrq_definition_id q, llq_resource = lrq_resource q, llq_holder = lrq_holder q,
       llq_fencing_token = lrq_fencing_token q\<rparr>"
  have ref: "refines (\<lambda>m. usable m \<and> fst m = s) mem_view (lease_renewTx memory_transaction q) (lease_renewTx view_transaction q)"
    "refines (\<lambda>m. usable m \<and> fst m = s) mem_view (lease_releaseTx memory_transaction ?rel) (lease_releaseTx view_transaction ?rel)"
    by (rule memory_at.refines_lease_renew memory_at.refines_lease_release; simp)+
  have "fst (lease_renewTx view_transaction q (committed_docs s)) =
      Inl (ConflictError LeaseConflict ''lease is not held by caller'')"
    using view_renew [OF assms(4,2)] holder by simp
  then show "lease_renew in_memory_backend q s = (Inl (ConflictError LeaseConflict ''lease is not held by caller''), s)"
    using managed_memory_cases [OF assms(1) ref(1) surjective_pairing]
    by (auto simp: lease_renew_def prod_eq_iff)
  have "fst (lease_releaseTx view_transaction ?rel (committed_docs s)) =
      Inl (ConflictError LeaseConflict ''lease is not held by caller'')"
    using view_release [of "committed_docs s" ?rel l] assms(2) holder by simp
  then show "lease_release in_memory_backend ?rel s =
      (Inl (ConflictError LeaseConflict ''lease is not held by caller''), s)"
    using managed_memory_cases [OF assms(1) ref(2) surjective_pairing]
    by (auto simp: lease_release_def prod_eq_iff)
qed

lemma lease_renew_cases:
  assumes "state_ok s" and "lease_renew in_memory_backend q s = (r, s')"
  obtains (Renewed) l expires where "stored_lease s (lrq_definition_id q) (lrq_resource q) = Inr (Some l)"
      and "r = Inr (l\<lparr>lr_expires_at := expires\<rparr>)" and "lr_holder l = Some (lrq_holder q)" and "state_ok s'"
      and "\<And>c. plain_name c \<Longrightarrow> committed_docs s' c =
        view_put Leases (lease_key (lrq_definition_id q) (lrq_resource q))
          (lease_document (l\<lparr>lr_expires_at := expires\<rparr>)) (committed_docs s) c"
    | (Failed) e where "r = Inl e" and "s' = s"
proof -
  have ref: "refines (\<lambda>m. usable m \<and> fst m = s) mem_view (lease_renewTx memory_transaction q)
      (lease_renewTx view_transaction q)"
    by (rule memory_at.refines_lease_renew) simp_all
  have run: "managed in_memory_backend (lease_renewTx memory_transaction q) s = (r, s')"
    using assms(2) by (simp add: lease_renew_def)
  from assms(1) ref run show ?thesis
  proof (cases rule: managed_memory_cases)
    case (Commits x)
    obtain d l where d: "find_lease_definition (committed_docs s) (lrq_definition_id q) = Inr (Some d)"
      "stored_lease s (lrq_definition_id q) (lrq_resource q) = Inr (Some l)"
      using view_renew_returns [OF Commits(1)] .
    note eq = view_renew [OF d]
    obtain expires where h: "require_holder l (lrq_holder q) (lrq_fencing_token q) = Inr ()"
        "add_seconds (lrq_now q) (ld_ttl d) = Inr expires"
      using Commits(1) eq
      by (cases "require_holder l (lrq_holder q) (lrq_fencing_token q)"; cases "add_seconds (lrq_now q) (ld_ttl d)")
        simp_all
    then have "lr_holder l = Some (lrq_holder q)"
      by (simp add: require_holder_def split: if_splits)
    then show ?thesis
      using Commits eq h by (intro Renewed [OF d(2), of expires]) simp_all
  qed (use Failed in auto)
qed

subsection \<open>Fencing tokens over a run\<close>

datatype lease_command =
    Cmd_Acquire lease_acquire_request
  | Cmd_Renew lease_renew_request

text \<open>The leases a run of acquires and renewals grants under one key, in order.\<close>

fun lease_run :: "string \<Rightarrow> lease_command list \<Rightarrow> in_memory_state \<Rightarrow> lease_record list" where
  "lease_run k [] s = []"
| "lease_run k (Cmd_Acquire q # cs) s =
     (case lease_acquire in_memory_backend q s of (r, s') \<Rightarrow>
        (case r of
           Inl _ \<Rightarrow> []
         | Inr a \<Rightarrow>
             if lar_acquired a \<and> lease_key (laq_definition_id q) (laq_resource q) = k
             then (case lar_lease a of None \<Rightarrow> [] | Some l \<Rightarrow> [l]) else []) @ lease_run k cs s')"
| "lease_run k (Cmd_Renew q # cs) s = lease_run k cs (snd (lease_renew in_memory_backend q s))"

text \<open>The last token granted under a key, zero when no lease is stored.\<close>

definition last_token :: "in_memory_state \<Rightarrow> string \<Rightarrow> 64 word" where
  "last_token s k =
     (case committed_docs s Leases k of None \<Rightarrow> 0
      | Some d \<Rightarrow> (case lease_record_from_json d of Inl _ \<Rightarrow> 0 | Inr l \<Rightarrow> lr_fencing_token l))"

lemma last_token_find:
  "find_lease (committed_docs s) i resource = Inr existing \<Longrightarrow>
   last_token s (lease_key i resource) = (case existing of None \<Rightarrow> 0 | Some l \<Rightarrow> lr_fencing_token l)"
  by (auto simp: find_lease_def last_token_def map_sum_def split: option.splits sum.splits)

lemma last_token_put:
  assumes "committed_docs s' Leases = view_put Leases k' (lease_document l) (committed_docs s) Leases"
  shows "last_token s' k = (if k = k' then lr_fencing_token l else last_token s k)"
proof -
  have "lease_record_from_json (lease_document l) = Inr (lease_record_norm l)"
    using lease_record.dec_enc [of l] by simp
  then show ?thesis
    by (simp add: last_token_def assms lease_record_norm_def)
qed

text \<open>C6: fencing tokens never repeat. In any run of acquires and renewals, by any callers and over any
  leases, the tokens granted under one key are the consecutive successors of the token stored
  at the start; a run shorter than the remaining token space is assumed, as the counter wraps.\<close>

theorem fencing_tokens_consecutive:
  assumes "state_ok s" and "unat (last_token s k) + length cs < 2 ^ 64"
  shows "map (\<lambda>l. unat (lr_fencing_token l)) (lease_run k cs s) =
    [Suc (unat (last_token s k)) ..< Suc (unat (last_token s k)) + length (lease_run k cs s)]"
  using assms
proof (induction k cs s rule: lease_run.induct)
  case (1 k s)
  then show ?case by simp
next
  case (2 k q cs s)
  obtain r s' where run: "lease_acquire in_memory_backend q s = (r, s')"
    using surjective_pairing by blast
  note IH = "2.IH" [OF run [symmetric]]
  from "2.prems"(1) run show ?case
  proof (cases rule: lease_acquire_cases)
    case (Refused existing)
    have "last_token s' k = last_token s k"
      using Refused(5) [of Leases] by (simp add: last_token_def)
    then show ?thesis using IH [OF Refused(4)] "2.prems"(2) by (simp add: run Refused(3))
  next
    case (Granted d existing expires)
    let ?l = "granted_lease q existing expires"
    let ?k = "lease_key (laq_definition_id q) (laq_resource q)"
    have next_token: "last_token s' k = (if k = ?k then lr_fencing_token ?l else last_token s k)"
      using Granted(7) [of Leases] by (intro last_token_put) simp_all
    have token: "lr_fencing_token ?l = last_token s ?k + 1"
      using last_token_find [OF Granted(2)] by (simp add: granted_lease_def split: option.split)
    show ?thesis
    proof (cases "k = ?k")
      case True
      have "unat (lr_fencing_token ?l) = Suc (unat (last_token s k))"
        using unat_succ [of "last_token s k"] "2.prems"(2) True token by simp
      then show ?thesis
        using IH [OF Granted(6)] "2.prems"(2) True next_token by (simp add: run Granted(5) upt_conv_Cons del: upt_Suc)
    next
      case False
      then show ?thesis
        using IH [OF Granted(6)] "2.prems"(2) next_token by (simp add: run Granted(5))
    qed
  next
    case (Failed e)
    then show ?thesis using IH "2.prems" by (simp add: run)
  qed
next
  case (3 k q cs s)
  obtain r s' where run: "lease_renew in_memory_backend q s = (r, s')"
    using surjective_pairing by blast
  from "3.prems"(1) run show ?case
  proof (cases rule: lease_renew_cases)
    case (Renewed l expires)
    let ?k = "lease_key (lrq_definition_id q) (lrq_resource q)"
    have "last_token s' k = (if k = ?k then lr_fencing_token l else last_token s k)"
      using Renewed(5) [of Leases] last_token_put [of s' ?k "l\<lparr>lr_expires_at := expires\<rparr>" s k] by simp
    moreover have "last_token s ?k = lr_fencing_token l"
      using last_token_find [OF Renewed(1)] by simp
    ultimately have "last_token s' k = last_token s k"
      by auto
    then show ?thesis using "3.IH" "3.prems"(2) Renewed(4) by (simp add: run)
  next
    case (Failed e)
    then show ?thesis using "3.IH" "3.prems" by (simp add: run)
  qed
qed

subsection \<open>A released lease cannot be acquired again\<close>

lemma lease_acquire_absent_read:
  assumes run: "lease_acquireTx memory_transaction q (begin_tx s) = (Inr x, m)"
    and absent: "lookup_record s Leases (lease_key (laq_definition_id q) (laq_resource q)) = None"
  shows "om_find (tx_read_versions (snd m))
    (record_version_key Leases (lease_key (laq_definition_id q) (laq_resource q))) = Some 0"
proof -
  let ?k = "lease_key (laq_definition_id q) (laq_resource q)"
  let ?m1 = "(s, get_tx (begin_tx s) LeaseDefinitions (lease_definition_key (laq_definition_id q)))"
  have o: "tx_open (snd (begin_tx s))" "fst (begin_tx s) = s" "tx_puts (snd (begin_tx s)) = []"
    "tx_erases (snd (begin_tx s)) = []" "tx_read_versions (snd (begin_tx s)) = []"
    by (simp_all add: begin_tx_def new_tx_def)
  have fresh: "om_find (tx_read_versions (snd ?m1)) (record_version_key Leases ?k) = None"
    by (simp add: get_tx_def o record_read_def om_find_emplace version_key_inject)
  have read: "om_find (tx_read_versions (get_tx ?m1 Leases ?k)) (record_version_key Leases ?k) = Some 0"
    unfolding get_tx_def [of ?m1] using fresh by (simp add: o absent record_read_def om_find_emplace domIff)
  have none: "get_result ?m1 Leases ?k = None"
    by (simp add: get_result_def o absent)
  let ?m2 = "(s, get_tx ?m1 Leases ?k)"
  obtain d where d: "require_lease_definition memory_transaction (laq_definition_id q) (begin_tx s) = (Inr d, ?m1)"
    using run
    by (auto simp: lease_acquireTx_def require_lease_definition_def lease_inspect_definitionTx_def bindM_def
        tx_get_eq o split: option.splits sum.splits prod.splits)
  have i: "lease_inspectTx memory_transaction
      \<lparr>liq_definition_id = laq_definition_id q, liq_resource = laq_resource q\<rparr> ?m1 = (Inr None, ?m2)"
    by (simp add: lease_inspectTx_def bindM_def tx_get_eq o none)
  obtain j where "m = (s, put_tx ?m2 Leases ?k j)"
    using run
    by (auto simp: lease_acquireTx_def bindM_def d i Let_def tx_put_eq o split: sum.splits prod.splits)
  moreover have "op_tx (Op_Put Leases ?k j) ?m2 = put_tx ?m2 Leases ?k j"
    by (simp add: op_tx_def)
  ultimately show ?thesis
    using op_tx_keeps_reads [of ?m2 _ 0 "Op_Put Leases ?k j"] read by simp
qed

lemma lease_acquire_absent_fails:
  assumes s: "state_ok s"
    and absent: "lookup_record s Leases (lease_key (laq_definition_id q) (laq_resource q)) = None"
    and old: "version_or_zero (ms_versions s)
      (record_version_key Leases (lease_key (laq_definition_id q) (laq_resource q))) \<noteq> 0"
  shows "\<exists>e. lease_acquire in_memory_backend q s = (Inl e, s)"
proof -
  obtain r s' where run: "lease_acquire in_memory_backend q s = (r, s')"
    using surjective_pairing by blast
  show ?thesis
  proof (cases r)
    case (Inl e)
    from s run show ?thesis
      by (cases rule: lease_acquire_cases) (auto simp: Inl run)
  next
    case (Inr x)
    then have man: "managed in_memory_backend (lease_acquireTx memory_transaction q) s = (Inr x, s')"
      using run by (simp add: lease_acquire_def)
    obtain m m' where m: "lease_acquireTx memory_transaction q (begin_tx s) = (Inr x, m)"
      "tx_commit m = (Inr (), m')"
      by (rule managed_Inr_commit [OF man])
    obtain tx' where tx': "lease_acquireTx memory_transaction q (begin_tx s) = (Inr x, tx')" "usable tx'" "fst tx' = s"
    proof -
      have "refines (\<lambda>m. usable m \<and> fst m = s) mem_view (lease_acquireTx memory_transaction q)
          (lease_acquireTx view_transaction q)"
        by (rule memory_at.refines_lease_acquire) simp_all
      moreover have "usable (begin_tx s) \<and> fst (begin_tx s) = s"
        using begin_usable [OF s] by (simp add: begin_tx_def)
      ultimately show ?thesis
        using that m(1) by (auto elim!: refinesD)
    qed
    have "reads_current (fst m) (snd m)"
      using m(2) by (cases m) (auto elim: tx_commit_cases)
    then show ?thesis
      using lease_acquire_absent_read [OF m(1) absent] old tx' m(1) tx_okD(1) [of "snd m"]
      by (auto simp: reads_current_iff usable_def)
  qed
qed

lemma lease_release_Inr:
  assumes s: "state_ok s" and run: "lease_release in_memory_backend q s = (Inr (), s')"
  shows "state_ok s'" and "lookup_record s' Leases (lease_key (llq_definition_id q) (llq_resource q)) = None"
    and "version_or_zero (ms_versions s') (record_version_key Leases (lease_key (llq_definition_id q) (llq_resource q))) =
      version_or_zero (ms_versions s) (record_version_key Leases (lease_key (llq_definition_id q) (llq_resource q))) + 1"
proof -
  let ?k = "lease_key (llq_definition_id q) (llq_resource q)"
  let ?vk = "record_version_key Leases ?k"
  have man: "managed in_memory_backend (lease_releaseTx memory_transaction q) s = (Inr (), s')"
    using run by (simp add: lease_release_def)
  obtain m m' where m: "lease_releaseTx memory_transaction q (begin_tx s) = (Inr (), m)"
    "tx_commit m = (Inr (), m')" "s' = fst m'"
    by (rule managed_Inr_commit [OF man])
  obtain l m1 where m1: "require_lease memory_transaction (llq_definition_id q) (llq_resource q) (begin_tx s) = (Inr l, m1)"
    "tx_erase Leases ?k m1 = (Inr (), m)"
    using m(1) by (auto simp: lease_releaseTx_def elim!: bindM_cases)
  have "refines (\<lambda>m. usable m \<and> fst m = s) mem_view
      (require_lease memory_transaction (llq_definition_id q) (llq_resource q))
      (require_lease view_transaction (llq_definition_id q) (llq_resource q))"
    by (rule memory_at.refines_require_lease) simp
  moreover have "usable (begin_tx s) \<and> fst (begin_tx s) = s"
    using begin_usable [OF s] by (simp add: begin_tx_def)
  ultimately have "usable m1 \<and> fst m1 = s"
    using m1(1) by (auto elim!: refinesD)
  then have u1: "usable m1" "fst m1 = s" by simp_all
  then have m_eq: "m = (s, erase_tx m1 Leases ?k)"
    using m1(2) tx_erase_eq [of m1 Leases ?k] by (auto simp: usable_def)
  have t: "tx_ok (snd m)" "?vk \<in> set (tx_erases (snd m))"
    using u1 erase_tx_ok [of m1 Leases ?k] by (simp_all add: m_eq usable_def erase_tx_def)
  obtain staged where s': "s' = publish (snd m) staged s"
    using m(2,3) by (cases m) (auto simp: m_eq elim: tx_commit_cases)
  show "state_ok s'" using publish_ok [OF s] by (simp add: s')
  show "version_or_zero (ms_versions s') ?vk = version_or_zero (ms_versions s) ?vk + 1"
    using ver_publish [OF t(1)] t(2) by (simp add: s' written_def)
  have "put_docs (tx_puts (snd m)) Leases ?k = None"
    using put_docs_find [OF t(1), of Leases ?k] tx_okD(6) [OF t(1), of ?vk] t(2) by (cases "put_docs (tx_puts (snd m)) Leases ?k") auto
  moreover have "Some (Leases, ?k) \<in> parse_record_version_key ` set (tx_erases (snd m))"
    using parse_version_key [of Leases ?k] t(2) by (metis image_eqI lease_collections_plain(2))
  ultimately have "docs_of s' Leases ?k = None"
    by (simp add: s' docs_publish [OF t(1)] published_docs_def overlay_def without_def)
  then show "lookup_record s' Leases ?k = None"
    by (simp add: docs_of_def)
qed

text \<open>C26: a released lease is lost on the in-memory backend. Once a release has committed, every later
  acquire of the same lease throws and changes nothing, whoever calls and whatever the time: it
  is the erased key of the backend. The lease contract has the next caller acquire it.\<close>

theorem released_lease_unavailable:
  assumes "state_ok s" and "lease_release in_memory_backend q s = (Inr (), s')"
    and "lease_key (laq_definition_id q') (laq_resource q') = lease_key (llq_definition_id q) (llq_resource q)"
    and "version_or_zero (ms_versions s)
      (record_version_key Leases (lease_key (llq_definition_id q) (llq_resource q))) \<noteq> - 1"
  shows "\<exists>e. lease_acquire in_memory_backend q' s' = (Inl e, s')"
proof (rule lease_acquire_absent_fails)
  note r = lease_release_Inr [OF assms(1,2)]
  show "state_ok s'" by (rule r(1))
  show "lookup_record s' Leases (lease_key (laq_definition_id q') (laq_resource q')) = None"
    using r(2) by (simp add: assms(3))
  show "version_or_zero (ms_versions s')
      (record_version_key Leases (lease_key (laq_definition_id q') (laq_resource q'))) \<noteq> 0"
    using r(3) assms(4) by (simp add: assms(3) eq_neg_iff_add_eq_0)
qed

section \<open>Witnesses\<close>

definition sample_lease_id :: lease_definition_id where
  "sample_lease_id = \<lparr>ldi_name = ''ship'', ldi_version = 1\<rparr>"

definition sample_lease_definition :: lease_definition where
  "sample_lease_definition =
     \<lparr>ld_id = sample_lease_id, ld_resource_pattern = ''o/*'', ld_ttl = 10, ld_renew_every = 3, ld_max_ttl = None,
      ld_fencing_token = True\<rparr>"

definition sample_acquire :: "string \<Rightarrow> timestamp \<Rightarrow> lease_acquire_request" where
  "sample_acquire holder now =
     \<lparr>laq_definition_id = sample_lease_id, laq_resource = ''o'', laq_holder = holder, laq_now = now\<rparr>"

text \<open>A backend with the lease definition registered, then with the lease held by \<open>a\<close>, then released.\<close>

definition lease_state0 :: in_memory_state where
  "lease_state0 = snd (lease_register_definition in_memory_backend sample_lease_definition initial_state)"

definition lease_state1 :: in_memory_state where
  "lease_state1 = snd (lease_acquire in_memory_backend (sample_acquire ''a'' 0) lease_state0)"

definition sample_release :: lease_release_request where
  "sample_release =
     \<lparr>llq_definition_id = sample_lease_id, llq_resource = ''o'', llq_holder = ''a'', llq_fencing_token = 0\<rparr>"

definition sample_granted :: lease_record where
  "sample_granted =
     \<lparr>lr_definition_id = sample_lease_id, lr_resource = ''o'', lr_holder = Some ''a'', lr_expires_at = 10000000000,
      lr_fencing_token = 1\<rparr>"

lemma lease_state0_ok: "state_ok lease_state0"
proof -
  let ?s = "snd (lease_ensure_collections in_memory_backend initial_state)"
  have "lease_ensure_collections in_memory_backend initial_state = (Inr (), ?s)"
    by (simp add: prod_eq_iff) code_simp
  then have "lease_state0 = snd (managed in_memory_backend
      (lease_register_definitionTx memory_transaction sample_lease_definition) ?s)"
    by (simp add: lease_state0_def lease_register_definition_def)
  moreover have "state_ok ?s"
    using ensure_collections_ok [OF initial_state_ok] by (simp add: lease_ensure_collections_def in_memory_backend_def)
  ultimately show ?thesis
    using managed_state_ok [OF _ memory_at.refines_lease_register [OF lease_collections_plain(1)]] by metis
qed

lemma lease_state1_run:
  "lease_acquire in_memory_backend (sample_acquire ''a'' 0) lease_state0 =
     (Inr \<lparr>lar_acquired = True, lar_lease = Some sample_granted\<rparr>, lease_state1)"
proof -
  have "fst (lease_acquire in_memory_backend (sample_acquire ''a'' 0) lease_state0) =
      Inr \<lparr>lar_acquired = True, lar_lease = Some sample_granted\<rparr>"
    by code_simp
  then show ?thesis by (simp add: prod_eq_iff lease_state1_def)
qed

lemma lease_state1_ok: "state_ok lease_state1"
  using lease_state0_ok lease_state1_run by (rule lease_acquire_cases) simp_all


theorem lease_grant_sound_witness:
  "stored_lease lease_state1 sample_lease_id ''o'' = Inr (Some sample_granted)"
proof -
  have cut: "cut_ms (10000000000 :: timestamp) = 10000000000"
    by code_simp
  show ?thesis
    using lease_grant_sound [OF lease_state0_ok lease_state1_run]
    by (auto simp: sample_acquire_def sample_granted_def cut)
qed

theorem lease_holder_only_witness:
  "fst (lease_release in_memory_backend (sample_release\<lparr>llq_holder := ''b''\<rparr>) lease_state1) =
     Inl (ConflictError LeaseConflict ''lease is not held by caller'')"
proof -
  let ?q = "\<lparr>lrq_definition_id = sample_lease_id, lrq_resource = ''o'', lrq_holder = ''b'', lrq_fencing_token = 0,
     lrq_now = 0\<rparr>"
  have l: "stored_lease lease_state1 sample_lease_id ''o'' = Inr (Some sample_granted)"
    by code_simp
  have d: "find_lease_definition (committed_docs lease_state1) sample_lease_id = Inr (Some sample_lease_definition)"
    by code_simp
  show ?thesis
    using lease_holder_only [OF lease_state1_ok, of ?q sample_granted sample_lease_definition] l d
    by (simp add: sample_granted_def sample_release_def)
qed

theorem fencing_tokens_consecutive_witness:
  "map (\<lambda>l. unat (lr_fencing_token l))
     (lease_run (lease_key sample_lease_id ''o'')
       [Cmd_Acquire (sample_acquire ''a'' 0), Cmd_Acquire (sample_acquire ''b'' 5),
        Cmd_Acquire (sample_acquire ''b'' 20000000000)] lease_state0) = [1, 2]"
proof -
  let ?cs = "[Cmd_Acquire (sample_acquire ''a'' 0), Cmd_Acquire (sample_acquire ''b'' 5),
        Cmd_Acquire (sample_acquire ''b'' 20000000000)]"
  have n: "length (lease_run (lease_key sample_lease_id ''o'') ?cs lease_state0) = 2"
    by code_simp
  have z: "last_token lease_state0 (lease_key sample_lease_id ''o'') = 0"
    by code_simp
  show ?thesis
    using fencing_tokens_consecutive [OF lease_state0_ok, of "lease_key sample_lease_id ''o''" ?cs]
    unfolding n z by (simp add: upt_conv_Cons)
qed

theorem released_lease_unavailable_witness:
  "\<exists>e s'. lease_release in_memory_backend sample_release lease_state1 = (Inr (), s') \<and>
     lease_acquire in_memory_backend (sample_acquire ''b'' 20000000000) s' = (Inl e, s')"
proof -
  have "fst (lease_release in_memory_backend sample_release lease_state1) = Inr ()"
    by code_simp
  then obtain s' where s': "lease_release in_memory_backend sample_release lease_state1 = (Inr (), s')"
    by (metis prod.collapse)
  have v: "version_or_zero (ms_versions lease_state1) (record_version_key Leases (lease_key sample_lease_id ''o'')) = 1"
    by code_simp
  have "\<exists>e. lease_acquire in_memory_backend (sample_acquire ''b'' 20000000000) s' = (Inl e, s')"
    by (rule released_lease_unavailable [OF lease_state1_ok s'])
      (simp_all add: sample_release_def sample_acquire_def v)
  then show ?thesis using s' by blast
qed

end
