(* ===== verification/Document_Table.thy ===== *)
theory Document_Table
  imports Store_Refinement Codec_Core
begin

text \<open>
  A collection whose documents are the encodings of one record type, each stored under the
  record's own id: the abstraction of the queue's messages and the workflow's executions. The
  locale \<open>document_table\<close> is what a store relies on, its facts are proved once from the laws of
  the codec.
\<close>

section \<open>The table of a collection\<close>

definition doc_table :: "collection_name \<Rightarrow> (json \<Rightarrow> 'a result) \<Rightarrow> doc_view \<Rightarrow> string \<rightharpoonup> 'a" where
  "doc_table c dec v k =
     (case v c k of None \<Rightarrow> None
      | Some d \<Rightarrow> (case dec d of Inl _ \<Rightarrow> None | Inr x \<Rightarrow> Some x))"

definition table_ok :: "collection_name \<Rightarrow> (json \<Rightarrow> 'a result) \<Rightarrow> ('a \<Rightarrow> string) \<Rightarrow> doc_view \<Rightarrow> bool" where
  "table_ok c dec ident v \<longleftrightarrow> (\<forall>k d. v c k = Some d \<longrightarrow> (\<exists>x. dec d = Inr x \<and> ident x = k))"

fun put_docs_of ::
    "collection_name \<Rightarrow> ('a \<Rightarrow> json result) \<Rightarrow> ('a \<Rightarrow> string) \<Rightarrow> 'a list \<Rightarrow> doc_view \<Rightarrow> doc_view" where
  "put_docs_of c enc ident [] v = v"
| "put_docs_of c enc ident (x # xs) v =
     put_docs_of c enc ident xs (view_put c (ident x) (projr (enc x)) v)"

lemma doc_table_cong: "v c = w c \<Longrightarrow> doc_table c dec v = doc_table c dec w"
  by (simp add: doc_table_def fun_eq_iff)

lemma table_ok_cong: "v c = w c \<Longrightarrow> table_ok c dec ident v = table_ok c dec ident w"
  by (simp add: table_ok_def)

lemma doc_table_put_other [simp]:
  "c' \<noteq> c \<Longrightarrow> doc_table c dec (view_put c' k j v) = doc_table c dec v"
  "c' \<noteq> c \<Longrightarrow> doc_table c dec (view_erase c' k v) = doc_table c dec v"
  by (simp_all add: doc_table_def fun_eq_iff)

lemma table_ok_put_other [simp]:
  "c' \<noteq> c \<Longrightarrow> table_ok c dec ident (view_put c' k j v) = table_ok c dec ident v"
  "c' \<noteq> c \<Longrightarrow> table_ok c dec ident (view_erase c' k v) = table_ok c dec ident v"
  by (simp_all add: table_ok_def)

lemma put_docs_of_other [simp]: "c' \<noteq> c \<Longrightarrow> put_docs_of c enc ident xs v c' = v c'"
  by (induction xs arbitrary: v) simp_all

lemma table_ident: "table_ok c dec ident v \<Longrightarrow> doc_table c dec v k = Some x \<Longrightarrow> ident x = k"
  by (force simp: doc_table_def table_ok_def split: option.splits sum.splits)

lemma table_decodes: "doc_table c dec v k = Some x \<Longrightarrow> \<exists>d. v c k = Some d \<and> dec d = Inr x"
  by (auto simp: doc_table_def split: option.splits sum.splits)

text \<open>What a scan that claims records promises over the table \<open>t\<close>: the records are distinct,
  eligible (\<open>P\<close>) and at most \<open>n\<close>; each is stored as stamped (\<open>f\<close>); the rest of the table is as it was;
  and when fewer than \<open>n\<close> are returned, no eligible record was left out.\<close>

definition takes_exactly ::
    "nat \<Rightarrow> ('a \<Rightarrow> bool) \<Rightarrow> ('a \<Rightarrow> 'a) \<Rightarrow> ('a \<Rightarrow> 'a) \<Rightarrow> ('a \<Rightarrow> string) \<Rightarrow>
     (string \<rightharpoonup> 'a) \<Rightarrow> 'a list \<Rightarrow> (string \<rightharpoonup> 'a) \<Rightarrow> bool" where
  "takes_exactly n P f normal ident t xs t' \<longleftrightarrow>
     length xs \<le> n \<and> distinct (map ident xs) \<and>
     (\<forall>x \<in> set xs. \<exists>x0. t (ident x) = Some x0 \<and> P x0 \<and> x = f x0 \<and> t' (ident x) = Some (normal x)) \<and>
     (\<forall>k. k \<notin> ident ` set xs \<longrightarrow> t' k = t k) \<and>
     (length xs < n \<longrightarrow> (\<forall>k x0. t k = Some x0 \<and> P x0 \<longrightarrow> k \<in> ident ` set xs))"

lemma takes_exactly_untouched:
  assumes "takes_exactly n P f normal ident t xs t'" and "t k = Some x" and "\<not> P x"
  shows "t' k = Some x" and "k \<notin> ident ` set xs"
proof -
  show k: "k \<notin> ident ` set xs"
    using assms by (force simp: takes_exactly_def)
  show "t' k = Some x"
    using assms k by (simp add: takes_exactly_def)
qed

lemma takes_exactly_nothing:
  "takes_exactly n P f normal ident t [] t \<longleftrightarrow> n = 0 \<or> (\<forall>x \<in> ran t. \<not> P x)"
  by (auto simp: takes_exactly_def ran_def)

section \<open>The contract of a table\<close>

locale document_table = codec enc dec "\<lambda>_. True" norm
  for enc :: "'a \<Rightarrow> json result" and dec :: "json \<Rightarrow> 'a result" and norm :: "'a \<Rightarrow> 'a" +
  fixes c :: collection_name
    and ident :: "'a \<Rightarrow> string"
  assumes ident_norm: "ident (norm x) = ident x"
    and dec_norm: "dec j = Inr x \<Longrightarrow> norm x = x"
begin

lemma encodes: "enc x = Inr (projr (enc x))" "dec (projr (enc x)) = Inr (norm x)"
proof -
  obtain j where "enc x = Inr j" "dec j = Inr (norm x)"
    by (rule enc_cases [OF TrueI])
  then show "enc x = Inr (projr (enc x))" "dec (projr (enc x)) = Inr (norm x)"
    by simp_all
qed

lemma put_table:
  "doc_table c dec (view_put c (ident x) (projr (enc x)) v) = (doc_table c dec v)(ident x \<mapsto> norm x)"
proof -
  have "dec (projr (enc x)) = Inr (norm x)" by (rule encodes(2))
  then show ?thesis by (auto simp: doc_table_def fun_eq_iff)
qed

lemma put_ok: "table_ok c dec ident v \<Longrightarrow> table_ok c dec ident (view_put c (ident x) (projr (enc x)) v)"
proof -
  have "dec (projr (enc x)) = Inr (norm x)" by (rule encodes(2))
  then show "table_ok c dec ident v \<Longrightarrow> table_ok c dec ident (view_put c (ident x) (projr (enc x)) v)"
    by (auto simp: table_ok_def ident_norm)
qed

lemma table_normal: "doc_table c dec v k = Some x \<Longrightarrow> norm x = x"
  by (auto dest: table_decodes intro: dec_norm)

lemma table_key: "table_ok c dec ident v \<Longrightarrow> doc_table c dec v k = Some x \<Longrightarrow> ident x = k"
  by (rule table_ident)

lemma table_cong: "v c = w c \<Longrightarrow> doc_table c dec v = doc_table c dec w"
  by (rule doc_table_cong)

lemma ok_cong: "v c = w c \<Longrightarrow> table_ok c dec ident v = table_ok c dec ident w"
  by (rule table_ok_cong)

lemma lookup:
  "table_ok c dec ident v \<Longrightarrow>
   (case v c k of None \<Rightarrow> Inr None | Some d \<Rightarrow> map_sum id Some (dec d)) = Inr (doc_table c dec v k)"
proof (cases "v c k")
  case (Some d)
  assume "table_ok c dec ident v"
  then obtain x where "dec d = Inr x" using Some by (auto simp: table_ok_def)
  then show ?thesis by (simp add: Some doc_table_def)
qed (simp add: doc_table_def)

lemma put_docs_ok: "table_ok c dec ident v \<Longrightarrow> table_ok c dec ident (put_docs_of c enc ident xs v)"
  by (induction xs arbitrary: v) (simp_all add: put_ok)

lemma put_docs_table:
  assumes "distinct (map ident xs)"
  shows "doc_table c dec (put_docs_of c enc ident xs v) k =
    (case map_of (map (\<lambda>x. (ident x, x)) xs) k of None \<Rightarrow> doc_table c dec v k | Some x \<Rightarrow> Some (norm x))"
  using assms
proof (induction xs arbitrary: v)
  case (Cons x xs)
  have "map_of (map (\<lambda>x. (ident x, x)) xs) (ident x) = None"
    using Cons.prems by (auto simp: map_of_eq_None_iff image_iff)
  then show ?case
    using Cons by (auto simp: put_table split: option.splits)
qed simp

text \<open>The records a scan of the collection yields: those of the table, each once.\<close>

lemma decoded_entries:
  assumes "table_ok c dec ident v" and "entries_of (v c) es"
  shows "\<exists>xs. map_result (\<lambda>e. dec (snd e)) es = Inr xs \<and>
    distinct (map ident xs) \<and> set xs = ran (doc_table c dec v) \<and>
    (\<forall>x \<in> set xs. doc_table c dec v (ident x) = Some x)"
proof -
  have d: "distinct (map fst es)" and m: "map_of es = v c"
    using assms(2) by (simp_all add: entries_of_def)
  define rd where "rd e = projr (dec (snd e))" for e :: "key \<times> json"
  have e: "dec (snd e) = Inr (rd e) \<and> ident (rd e) = fst e \<and> doc_table c dec v (fst e) = Some (rd e)"
    if "e \<in> set es" for e
  proof -
    have "v c (fst e) = Some (snd e)"
      using that d m by (metis map_of_eq_Some_iff prod.collapse)
    moreover from this obtain x where "dec (snd e) = Inr x" "ident x = fst e"
      using assms(1) by (auto simp: table_ok_def)
    ultimately show ?thesis
      by (simp add: rd_def doc_table_def)
  qed
  have "map_result (\<lambda>e. dec (snd e)) es = Inr (map rd es)"
    using e by (intro map_result_Inr) simp
  moreover have "map ident (map rd es) = map fst es"
    using e by simp
  moreover have "set (map rd es) = ran (doc_table c dec v)"
  proof (intro set_eqI iffI)
    fix x assume "x \<in> set (map rd es)"
    then show "x \<in> ran (doc_table c dec v)"
      using e by (auto simp: ran_def)
  next
    fix x assume "x \<in> ran (doc_table c dec v)"
    then obtain k dj where k: "v c k = Some dj" "dec dj = Inr x"
      using table_decodes by (fastforce simp: ran_def)
    then have "(k, dj) \<in> set es"
      using m by (metis map_of_SomeD)
    moreover have "rd (k, dj) = x"
      using k by (simp add: rd_def)
    ultimately show "x \<in> set (map rd es)"
      by (metis image_eqI image_set)
  qed
  moreover have "\<forall>x \<in> set (map rd es). doc_table c dec v (ident x) = Some x"
    using e by auto
  ultimately show ?thesis
    using d by metis
qed

lemma take_spec:
  assumes ok: "table_ok c dec ident v"
    and all: "distinct (map ident all)" "set all = ran (doc_table c dec v)"
      "\<forall>x \<in> set all. doc_table c dec v (ident x) = Some x"
    and f: "\<And>x. ident (f x) = ident x"
    and xs: "xs = map f (take n (filter P all))" and v': "v' c = put_docs_of c enc ident xs v c"
  shows "takes_exactly n P f norm ident (doc_table c dec v) xs (doc_table c dec v') \<and> table_ok c dec ident v'"
proof
  let ?chosen = "take n (filter P all)"
  have ids: "map ident xs = map ident ?chosen"
    by (simp add: xs f)
  have dist: "distinct (map ident xs)"
    unfolding ids using all(1) by (simp add: take_map [symmetric] distinct_map_filter)
  have chosen: "x \<in> set all" "P x" if "x \<in> set ?chosen" for x
    using in_set_takeD [OF that] by simp_all
  have t': "doc_table c dec v' k = (case map_of (map (\<lambda>x. (ident x, x)) xs) k of
      None \<Rightarrow> doc_table c dec v k | Some x \<Rightarrow> Some (norm x))" for k
    unfolding table_cong [where v = v' and w = "put_docs_of c enc ident xs v", OF v'] by (rule put_docs_table [OF dist])
  have found: "map_of (map (\<lambda>x. (ident x, x)) xs) (ident x) = Some x" if "x \<in> set xs" for x
    using that dist by (intro map_of_is_SomeI) (auto simp: comp_def)
  show "takes_exactly n P f norm ident (doc_table c dec v) xs (doc_table c dec v')"
    unfolding takes_exactly_def
  proof (intro conjI ballI allI impI)
    show "length xs \<le> n" by (simp add: xs)
    show "distinct (map ident xs)" by (rule dist)
    show "\<exists>x0. doc_table c dec v (ident x) = Some x0 \<and> P x0 \<and> x = f x0 \<and> doc_table c dec v' (ident x) = Some (norm x)"
      if x: "x \<in> set xs" for x
    proof -
      obtain x0 where "x0 \<in> set ?chosen" "x = f x0"
        using x by (auto simp: xs)
      then show ?thesis
        using chosen [of x0] all(3) t' found [OF x] by (auto simp: f)
    qed
    show "doc_table c dec v' k = doc_table c dec v k" if "k \<notin> ident ` set xs" for k
    proof -
      have "map_of (map (\<lambda>x. (ident x, x)) xs) k = None"
        using that by (auto simp: map_of_eq_None_iff image_iff)
      then show ?thesis by (simp add: t')
    qed
    show "k \<in> ident ` set xs"
      if short: "length xs < n" and k: "doc_table c dec v k = Some x0 \<and> P x0" for k x0
    proof -
      have "?chosen = filter P all" using short by (simp add: xs)
      moreover have "x0 \<in> set all" using k all(2) by (auto simp: ran_def)
      ultimately have "x0 \<in> set ?chosen" using k by simp
      moreover have "ident x0 = k" using table_key [OF ok] k by blast
      ultimately show ?thesis by (auto simp: xs image_iff f intro!: bexI [of _ x0])
    qed
  qed
  show "table_ok c dec ident v'"
    using put_docs_ok [OF ok] ok_cong [where v = v' and w = "put_docs_of c enc ident xs v", OF v'] by simp
qed

text \<open>A backend-managed method on the in-memory backend: either it throws and changes nothing, or the
  table becomes what the method leaves in the map.\<close>

lemma managed_cases:
  assumes "state_ok s" and "plain_name c"
    and "refines (\<lambda>m. usable m \<and> fst m = s) mem_view m a"
    and "managed in_memory_backend m s = (r, s')"
  obtains (Commits) x where "fst (a (committed_docs s)) = Inr x" and "r = Inr x" and "state_ok s'"
      and "doc_table c dec (committed_docs s') = doc_table c dec (snd (a (committed_docs s)))"
      and "table_ok c dec ident (committed_docs s') = table_ok c dec ident (snd (a (committed_docs s)))"
    | (Fails) e where "r = Inl e" and "s' = s"
  using assms(1,3,4)
proof (cases rule: managed_memory_cases)
  case (Commits x)
  have "committed_docs s' c = snd (a (committed_docs s)) c"
    using Commits(4) assms(2) by blast
  then show ?thesis
    using that(1) Commits(1-3) table_cong ok_cong by blast
qed (use that(2) in auto)

end

section \<open>Timestamps of decoded records\<close>

text \<open>A decoded timestamp is a whole number of milliseconds, so a decoded record is its own normal
  form.\<close>

lemma timestamp_from_cut: "timestamp_from j = Inr t \<Longrightarrow> cut_ms t = t"
proof -
  assume "timestamp_from j = Inr t"
  then obtain ms :: "64 word" where t: "t = word_of_int (sint ms * 1000000)" and i: "in_int64 (sint ms * 1000000)"
    by (auto simp: timestamp_from_def andThen_Inr_iff checked_int64_def split: if_splits)
  have "trunc_div (x * 1000000) 1000000 = x" for x :: int
    by (auto simp: trunc_div_def mult_less_0_iff minus_mult_left simp del: mult_minus_left)
  then show ?thesis
    by (simp only: cut_ms_def t sint_word_of_int [OF i])
qed

lemma optional_timestamp_cut: "optional_timestamp j k = Inr t \<Longrightarrow> map_option cut_ms t = t"
  by (auto simp: optional_timestamp_def andThen_Inr_iff timestamp_from_cut split: option.splits)

end
