(* ===== verification/Queue_Store.thy ===== *)
theory Queue_Store
  imports Codecs Document_Table
begin

text \<open>
  \<open>RuntimeQueueStore\<close> of \<open>bindings/cpp/runtime/queue_store.hpp\<close> with the requests of
  \<open>bindings/cpp/queue.hpp\<close>. The store's documents are abstracted to a map from message ids to
  messages; each method is shown to do on that map what its specification says, and the message
  life cycle follows: pending, claimed, acknowledged or dead-lettered.
\<close>

section \<open>Requests and results\<close>

record queue_definition_registration =
  qdr_definition :: queue_definition
  qdr_created :: bool

record enqueue_request =
  enq_message_id :: string
  enq_queue :: string
  enq_channel :: string
  enq_idempotency_key :: "string option"
  enq_payload :: json

record claim_request =
  clq_queue :: string
  clq_channel :: string
  clq_claimant :: string
  clq_now :: timestamp
  clq_visibility_timeout :: seconds
  clq_max_messages :: "32 word"

record ack_request =
  akq_message_id :: string
  akq_claimant :: string

record fail_request =
  flq_message_id :: string
  flq_claimant :: string
  flq_reason :: string
  flq_now :: timestamp
  flq_max_attempts :: "32 word"

section \<open>The store\<close>

definition queue_definition_key :: "string \<Rightarrow> string \<Rightarrow> string" where
  "queue_definition_key queue channel = queue @ '':'' @ channel"

definition queue_ensure_collections :: "('s, 'tx) ibackend \<Rightarrow> ('s, unit) action" where
  "queue_ensure_collections B =
     ib_ensure_collections B
       [collection_with_keys QueueDefinitions [KF_Queue], collection_with_keys QueueMessages [KF_MessageId],
        collection_with_keys QueueIdempotency [KF_IdempotencyKey]]"

definition queue_inspect_definitionTx ::
    "'tx itransaction \<Rightarrow> string \<Rightarrow> string \<Rightarrow> ('tx, queue_definition option) action" where
  "queue_inspect_definitionTx I queue channel =
     bindM (it_get I QueueDefinitions (queue_definition_key queue channel)) (\<lambda>record.
       case record of
         None \<Rightarrow> returnM None
       | Some r \<Rightarrow> liftM (map_sum id Some (queue_definition_from_json (vr_document r))))"

definition queue_register_definitionTx ::
    "'tx itransaction \<Rightarrow> queue_definition \<Rightarrow> ('tx, queue_definition_registration) action" where
  "queue_register_definitionTx I d =
     bindM (queue_inspect_definitionTx I (qd_queue d) (qd_channel d)) (\<lambda>existing.
     bindM (liftM (queue_definition_to_json d)) (\<lambda>j.
     bindM (it_put I QueueDefinitions (queue_definition_key (qd_queue d) (qd_channel d)) j) (\<lambda>_.
       returnM \<lparr>qdr_definition = d, qdr_created = (existing = None)\<rparr>)))"

definition queue_inspectTx :: "'tx itransaction \<Rightarrow> string \<Rightarrow> ('tx, queue_message option) action" where
  "queue_inspectTx I message_id =
     bindM (it_get I QueueMessages message_id) (\<lambda>record.
       case record of
         None \<Rightarrow> returnM None
       | Some r \<Rightarrow> liftM (map_sum id Some (queue_message_from_json (vr_document r))))"

definition put_message :: "'tx itransaction \<Rightarrow> queue_message \<Rightarrow> ('tx, unit) action" where
  "put_message I m = bindM (liftM (queue_message_to_json m)) (\<lambda>j. it_put I QueueMessages (qm_message_id m) j)"

definition new_message :: "enqueue_request \<Rightarrow> queue_message" where
  "new_message q =
     \<lparr>qm_message_id = enq_message_id q, qm_queue = enq_queue q, qm_channel = enq_channel q,
      qm_status = ''Pending'', qm_attempts = 0, qm_claimed_by = None, qm_claim_expires_at = None,
      qm_payload = enq_payload q\<rparr>"

definition idempotency_key :: "enqueue_request \<Rightarrow> string \<Rightarrow> string" where
  "idempotency_key q k = queue_definition_key (enq_queue q) (enq_channel q) @ ''|'' @ k"

text \<open>\<open>*inspectTx(...)\<close> dereferences an optional that may be empty.\<close>

definition queue_enqueueTx :: "'tx itransaction \<Rightarrow> enqueue_request \<Rightarrow> ('tx, queue_message) action" where
  "queue_enqueueTx I q =
     (let store = bindM (put_message I (new_message q)) (\<lambda>_. returnM (new_message q)) in
      case enq_idempotency_key q of
        None \<Rightarrow> store
      | Some k \<Rightarrow>
          bindM (it_get I QueueIdempotency (idempotency_key q k)) (\<lambda>existing.
            case existing of
              Some r \<Rightarrow>
                bindM (liftM (at_string (vr_document r) ''message_id'')) (\<lambda>message_id.
                bindM (queue_inspectTx I message_id) (\<lambda>message.
                  case message of None \<Rightarrow> throwM Undefined_Behaviour | Some m \<Rightarrow> returnM m))
            | None \<Rightarrow>
                bindM (liftM (json_object_of [(''message_id'', JString (enq_message_id q))])) (\<lambda>j.
                bindM (it_put I QueueIdempotency (idempotency_key q k) j) (\<lambda>_. store))))"

definition message_eligible :: "claim_request \<Rightarrow> queue_message \<Rightarrow> bool" where
  "message_eligible q m =
     (if qm_queue m \<noteq> clq_queue q \<or> qm_channel m \<noteq> clq_channel q \<or> qm_status m = ''Acked'' \<or>
         qm_status m = ''DeadLettered''
      then False
      else qm_status m = ''Pending'' \<or>
        (case qm_claim_expires_at m of None \<Rightarrow> False | Some t \<Rightarrow> sint t \<le> sint (clq_now q)))"

definition claimed_message :: "claim_request \<Rightarrow> timestamp \<Rightarrow> queue_message \<Rightarrow> queue_message" where
  "claimed_message q expires m =
     m\<lparr>qm_status := ''Claimed'', qm_claimed_by := Some (clq_claimant q),
       qm_claim_expires_at := Some expires, qm_attempts := qm_attempts m + 1\<rparr>"

fun claim_loop ::
    "'tx itransaction \<Rightarrow> claim_request \<Rightarrow> queue_message list \<Rightarrow> queue_message list \<Rightarrow>
     ('tx, queue_message list) action" where
  "claim_loop I q [] claimed = returnM claimed"
| "claim_loop I q (m # ms) claimed =
     (if length claimed \<ge> unat (clq_max_messages q) then returnM claimed
      else if \<not> message_eligible q m then claim_loop I q ms claimed
      else
        bindM (liftM (add_seconds (clq_now q) (clq_visibility_timeout q))) (\<lambda>expires.
        bindM (put_message I (claimed_message q expires m)) (\<lambda>_.
          claim_loop I q ms (claimed @ [claimed_message q expires m]))))"

definition all_messages :: "'tx itransaction \<Rightarrow> ('tx, queue_message list) action" where
  "all_messages I =
     bindM (it_query I QueueMessages query_all) (\<lambda>records.
       liftM (map_result (\<lambda>r. queue_message_from_json (vr_document r)) records))"

definition queue_claimTx :: "'tx itransaction \<Rightarrow> claim_request \<Rightarrow> ('tx, queue_message list) action" where
  "queue_claimTx I q = bindM (all_messages I) (\<lambda>messages. claim_loop I q messages [])"

definition require_message :: "'tx itransaction \<Rightarrow> string \<Rightarrow> ('tx, queue_message) action" where
  "require_message I message_id =
     bindM (queue_inspectTx I message_id) (\<lambda>m.
       case m of
         None \<Rightarrow> throwM (BackendError (''unknown queue message: '' @ message_id))
       | Some m \<Rightarrow> returnM m)"

definition require_claimant :: "queue_message \<Rightarrow> string \<Rightarrow> unit result" where
  "require_claimant m claimant =
     (if qm_claimed_by m = None \<or> qm_claimed_by m \<noteq> Some claimant
      then Inl (ConflictError QueueClaimConflict ''queue message is not claimed by caller'')
      else Inr ())"

definition acked_message :: "queue_message \<Rightarrow> queue_message" where
  "acked_message m = m\<lparr>qm_status := ''Acked''\<rparr>"

definition failed_message :: "fail_request \<Rightarrow> queue_message \<Rightarrow> queue_message" where
  "failed_message q m =
     m\<lparr>qm_claimed_by := None, qm_claim_expires_at := None,
       qm_status := (if qm_attempts m \<ge> u32_to_i64 (flq_max_attempts q) then ''DeadLettered'' else ''Pending'')\<rparr>"

definition queue_acknowledgeTx :: "'tx itransaction \<Rightarrow> ack_request \<Rightarrow> ('tx, unit) action" where
  "queue_acknowledgeTx I q =
     bindM (require_message I (akq_message_id q)) (\<lambda>m.
     bindM (liftM (require_claimant m (akq_claimant q))) (\<lambda>_.
       put_message I (acked_message m)))"

definition queue_failTx :: "'tx itransaction \<Rightarrow> fail_request \<Rightarrow> ('tx, queue_message) action" where
  "queue_failTx I q =
     bindM (require_message I (flq_message_id q)) (\<lambda>m.
     bindM (liftM (require_claimant m (flq_claimant q))) (\<lambda>_.
     bindM (put_message I (failed_message q m)) (\<lambda>_. returnM (failed_message q m))))"

subsection \<open>Backend-managed methods\<close>

definition queue_register_definition ::
    "('s, 'tx) ibackend \<Rightarrow> queue_definition \<Rightarrow> ('s, queue_definition_registration) action" where
  "queue_register_definition B d =
     bindM (queue_ensure_collections B) (\<lambda>_. managed B (queue_register_definitionTx (ib_tx B) d))"

definition queue_inspect_definition ::
    "('s, 'tx) ibackend \<Rightarrow> string \<Rightarrow> string \<Rightarrow> ('s, queue_definition option) action" where
  "queue_inspect_definition B queue channel = managed B (queue_inspect_definitionTx (ib_tx B) queue channel)"

definition queue_enqueue :: "('s, 'tx) ibackend \<Rightarrow> enqueue_request \<Rightarrow> ('s, queue_message) action" where
  "queue_enqueue B q = bindM (queue_ensure_collections B) (\<lambda>_. managed B (queue_enqueueTx (ib_tx B) q))"

definition queue_claim :: "('s, 'tx) ibackend \<Rightarrow> claim_request \<Rightarrow> ('s, queue_message list) action" where
  "queue_claim B q = managed B (queue_claimTx (ib_tx B) q)"

definition queue_acknowledge :: "('s, 'tx) ibackend \<Rightarrow> ack_request \<Rightarrow> ('s, unit) action" where
  "queue_acknowledge B q = managed B (queue_acknowledgeTx (ib_tx B) q)"

definition queue_fail :: "('s, 'tx) ibackend \<Rightarrow> fail_request \<Rightarrow> ('s, queue_message) action" where
  "queue_fail B q = managed B (queue_failTx (ib_tx B) q)"

definition queue_inspect :: "('s, 'tx) ibackend \<Rightarrow> string \<Rightarrow> ('s, queue_message option) action" where
  "queue_inspect B message_id = managed B (queue_inspectTx (ib_tx B) message_id)"

section \<open>The table of messages\<close>

text \<open>The abstraction: the message each id maps to. A store is well formed when each document decodes
  to a message with the id it is stored under.\<close>

type_synonym message_table = "string \<rightharpoonup> queue_message"

abbreviation message_table :: "doc_view \<Rightarrow> message_table" where
  "message_table \<equiv> doc_table QueueMessages queue_message_from_json"

abbreviation queue_ok :: "doc_view \<Rightarrow> bool" where
  "queue_ok \<equiv> table_ok QueueMessages queue_message_from_json qm_message_id"

lemma queue_message_decoded_norm: "queue_message_from_json j = Inr m \<Longrightarrow> queue_message_norm m = m"
  by (auto simp: queue_message_from_json_def andThen_Inr_iff queue_message_norm_def optional_timestamp_cut)

interpretation messages: document_table queue_message_to_json queue_message_from_json queue_message_norm
  QueueMessages qm_message_id
  by unfold_locales (simp_all add: queue_message_decoded_norm, simp add: queue_message_norm_def)

lemma queue_collections_plain [simp]:
  "plain_name QueueDefinitions" "plain_name QueueMessages" "plain_name QueueIdempotency"
  "QueueDefinitions \<noteq> QueueMessages" "QueueMessages \<noteq> QueueDefinitions"
  "QueueIdempotency \<noteq> QueueMessages" "QueueMessages \<noteq> QueueIdempotency"
  by (simp_all add: plain_name_def collection_names)

lemmas queue_message_norm_id [simp] = messages.ident_norm

abbreviation message_document :: "queue_message \<Rightarrow> json" where
  "message_document m \<equiv> projr (queue_message_to_json m)"

lemma view_put_message [simp]:
  "put_message view_transaction m v = (Inr (), view_put QueueMessages (qm_message_id m) (message_document m) v)"
  using messages.encodes(1) [of m] by (cases "queue_message_to_json m") (simp_all add: put_message_def)

lemma view_queue_inspect:
  "queue_ok v \<Longrightarrow> queue_inspectTx view_transaction k v = (Inr (message_table v k), v)"
  using messages.lookup [of v k] by (cases "v QueueMessages k") (simp_all add: queue_inspectTx_def)

lemma view_require_message:
  "queue_ok v \<Longrightarrow> require_message view_transaction k v =
     ((case message_table v k of None \<Rightarrow> Inl (BackendError (''unknown queue message: '' @ k)) | Some m \<Rightarrow> Inr m), v)"
  by (simp add: require_message_def bindM_def view_queue_inspect split: option.split)

subsection \<open>Acknowledge and fail\<close>

lemma view_acknowledge:
  assumes "queue_ok v"
  shows "queue_acknowledgeTx view_transaction q v =
    (case message_table v (akq_message_id q) of
       None \<Rightarrow> (Inl (BackendError (''unknown queue message: '' @ akq_message_id q)), v)
     | Some m \<Rightarrow>
         if qm_claimed_by m = Some (akq_claimant q)
         then (Inr (), view_put QueueMessages (qm_message_id m) (message_document (acked_message m)) v)
         else (Inl (ConflictError QueueClaimConflict ''queue message is not claimed by caller''), v))"
proof -
  have "qm_message_id (acked_message m) = qm_message_id m" for m
    by (simp add: acked_message_def)
  then show ?thesis
    using assms
    by (auto simp: queue_acknowledgeTx_def bindM_def view_require_message require_claimant_def split: option.split)
qed

lemma view_fail:
  assumes "queue_ok v"
  shows "queue_failTx view_transaction q v =
    (case message_table v (flq_message_id q) of
       None \<Rightarrow> (Inl (BackendError (''unknown queue message: '' @ flq_message_id q)), v)
     | Some m \<Rightarrow>
         if qm_claimed_by m = Some (flq_claimant q)
         then (Inr (failed_message q m),
               view_put QueueMessages (qm_message_id m) (message_document (failed_message q m)) v)
         else (Inl (ConflictError QueueClaimConflict ''queue message is not claimed by caller''), v))"
proof -
  have "qm_message_id (failed_message q m) = qm_message_id m" for m
    by (simp add: failed_message_def)
  then show ?thesis
    using assms
    by (auto simp: queue_failTx_def bindM_def view_require_message require_claimant_def split: option.split)
qed

subsection \<open>Claim\<close>

abbreviation put_messages :: "queue_message list \<Rightarrow> doc_view \<Rightarrow> doc_view" where
  "put_messages \<equiv> put_docs_of QueueMessages queue_message_to_json qm_message_id"

text \<open>The deadline is the same for every message of a claim, so the loop takes the first eligible
  messages up to the limit.\<close>

lemma view_claim_loop:
  assumes "add_seconds (clq_now q) (clq_visibility_timeout q) = Inr expires"
    and "length claimed \<le> unat (clq_max_messages q)"
  shows "claim_loop view_transaction q ms claimed v =
    (let new = map (claimed_message q expires)
        (take (unat (clq_max_messages q) - length claimed) (filter (message_eligible q) ms)) in
     (Inr (claimed @ new), put_messages new v))"
  using assms(2)
proof (induction ms arbitrary: claimed v)
  case (Cons m ms)
  show ?case
  proof (cases "length claimed \<ge> unat (clq_max_messages q)")
    case False
    then have "unat (clq_max_messages q) - length claimed = Suc (unat (clq_max_messages q) - Suc (length claimed))"
      by simp
    then show ?thesis
      using False Cons.IH assms(1) by (simp add: bindM_def Let_def)
  qed simp
qed simp

lemma view_claim_loop_overflow:
  assumes "add_seconds (clq_now q) (clq_visibility_timeout q) = Inl e"
  shows "claim_loop view_transaction q ms [] v =
    (if unat (clq_max_messages q) = 0 \<or> filter (message_eligible q) ms = [] then (Inr [], v) else (Inl e, v))"
  using assms by (induction ms) (auto simp: bindM_def)

section \<open>The store over any transaction\<close>

context occ_transaction
begin

lemma refines_queue_inspect [refine_intros]:
  "names QueueMessages \<Longrightarrow> refines usable view (queue_inspectTx I k) (queue_inspectTx view_transaction k)"
  unfolding queue_inspectTx_def by (rule refines_get) (auto intro: refine_intros)

lemma refines_queue_inspect_definition [refine_intros]:
  "names QueueDefinitions \<Longrightarrow>
   refines usable view (queue_inspect_definitionTx I a b) (queue_inspect_definitionTx view_transaction a b)"
  unfolding queue_inspect_definitionTx_def by (rule refines_get) (auto intro: refine_intros)

lemma refines_queue_register [refine_intros]:
  "names QueueDefinitions \<Longrightarrow>
   refines usable view (queue_register_definitionTx I d) (queue_register_definitionTx view_transaction d)"
  unfolding queue_register_definitionTx_def by (intro refine_intros refines_bindM)

lemma refines_put_message [refine_intros]:
  "names QueueMessages \<Longrightarrow> refines usable view (put_message I m) (put_message view_transaction m)"
  unfolding put_message_def by (intro refine_intros refines_bindM)

lemma refines_require_message [refine_intros]:
  "names QueueMessages \<Longrightarrow> refines usable view (require_message I k) (require_message view_transaction k)"
  unfolding require_message_def by (intro refine_intros refines_bindM)

lemma refines_queue_acknowledge [refine_intros]:
  "names QueueMessages \<Longrightarrow> refines usable view (queue_acknowledgeTx I q) (queue_acknowledgeTx view_transaction q)"
  unfolding queue_acknowledgeTx_def by (intro refine_intros refines_bindM)

lemma refines_queue_fail [refine_intros]:
  "names QueueMessages \<Longrightarrow> refines usable view (queue_failTx I q) (queue_failTx view_transaction q)"
  unfolding queue_failTx_def by (intro refine_intros refines_bindM)

lemma refines_queue_enqueue [refine_intros]:
  assumes "names QueueMessages" and "names QueueIdempotency"
  shows "refines usable view (queue_enqueueTx I q) (queue_enqueueTx view_transaction q)"
proof (cases "enq_idempotency_key q")
  case None
  then show ?thesis
    using assms unfolding queue_enqueueTx_def Let_def
    by simp (intro refine_intros refines_bindM assms)
next
  case (Some k)
  show ?thesis
    unfolding queue_enqueueTx_def Let_def Some option.case
  proof (rule refines_get [OF assms(2)]; unfold option.case)
    show "refines usable view
        (bindM (liftM (json_object_of [(''message_id'', JString (enq_message_id q))]))
          (\<lambda>j. bindM (it_put I QueueIdempotency (idempotency_key q k) j)
             (\<lambda>_. bindM (put_message I (new_message q)) (\<lambda>_. returnM (new_message q)))))
        (bindM (liftM (json_object_of [(''message_id'', JString (enq_message_id q))]))
          (\<lambda>j. bindM (it_put view_transaction QueueIdempotency (idempotency_key q k) j)
             (\<lambda>_. bindM (put_message view_transaction (new_message q)) (\<lambda>_. returnM (new_message q)))))"
      by (intro refine_intros refines_bindM assms)
  next
    fix r d assume "vr_document r = d"
    then show "refines usable view
        (bindM (liftM (at_string (vr_document r) ''message_id''))
          (\<lambda>message_id. bindM (queue_inspectTx I message_id)
             (\<lambda>message. case message of None \<Rightarrow> throwM Undefined_Behaviour | Some m \<Rightarrow> returnM m)))
        (bindM (liftM (at_string (vr_document (view_record QueueIdempotency (idempotency_key q k) d)) ''message_id''))
          (\<lambda>message_id. bindM (queue_inspectTx view_transaction message_id)
             (\<lambda>message. case message of None \<Rightarrow> throwM Undefined_Behaviour | Some m \<Rightarrow> returnM m)))"
      by (simp only: view_record_fields) (intro refine_intros refines_bindM assms)
  qed
qed

lemma refines_claim_loop [refine_intros]:
  "names QueueMessages \<Longrightarrow>
   refines usable view (claim_loop I q ms claimed) (claim_loop view_transaction q ms claimed)"
  by (induction ms arbitrary: claimed) (auto intro!: refine_intros refines_bindM)

lemma refines_queue_claim:
  "names QueueMessages \<Longrightarrow>
   refines_rel usable view (queue_claimTx I q)
     (\<lambda>v r v'. \<exists>es. entries_of (v QueueMessages) es \<and>
        bindM (liftM (map_result (\<lambda>e. queue_message_from_json (snd e)) es))
          (\<lambda>ms. claim_loop view_transaction q ms []) v = (r, v'))"
  unfolding queue_claimTx_def all_messages_def bindM_assoc
  by (rule refines_rel_query) (auto simp: map_result_map intro!: refine_intros refines_bindM)

end

end
