(* ===== verification/Queue_Props.thy ===== *)
theory Queue_Props
  imports Queue_Store
begin

text \<open>
  What the methods of the queue store do to the table of messages on the in-memory backend, one
  case rule per method, and the properties of sequences of them.
\<close>

section \<open>The messages of a state\<close>

abbreviation stored_messages :: "in_memory_state \<Rightarrow> message_table" where
  "stored_messages s \<equiv> message_table (committed_docs s)"

abbreviation queue_state_ok :: "in_memory_state \<Rightarrow> bool" where
  "queue_state_ok s \<equiv> state_ok s \<and> queue_ok (committed_docs s)"

lemma acked_message_norm: "queue_message_norm m = m \<Longrightarrow> queue_message_norm (acked_message m) = acked_message m"
  by (cases m) (simp add: queue_message_norm_def acked_message_def)

lemma failed_message_norm: "queue_message_norm (failed_message q m) = failed_message q m"
  by (simp add: queue_message_norm_def failed_message_def)

lemma acked_failed_id [simp]:
  "qm_message_id (acked_message m) = qm_message_id m"
  "qm_message_id (failed_message q m) = qm_message_id m"
  "qm_message_id (claimed_message r t m) = qm_message_id m"
  by (simp_all add: acked_message_def failed_message_def claimed_message_def)

text \<open>Storing one message.\<close>

lemma put_message_state:
  assumes "\<And>c. plain_name c \<Longrightarrow> committed_docs s' c =
      view_put QueueMessages (qm_message_id m) (message_document m) (committed_docs s) c"
    and "queue_ok (committed_docs s)"
  shows "queue_ok (committed_docs s')"
    and "stored_messages s' = (stored_messages s)(qm_message_id m \<mapsto> queue_message_norm m)"
proof -
  let ?v = "view_put QueueMessages (qm_message_id m) (message_document m) (committed_docs s)"
  have eq: "committed_docs s' QueueMessages = ?v QueueMessages"
    by (rule assms(1)) simp
  have "queue_ok (committed_docs s') = queue_ok ?v" "stored_messages s' = message_table ?v"
    using messages.ok_cong [where w = ?v] messages.table_cong [where w = ?v] eq by blast+
  then show "queue_ok (committed_docs s')"
    and "stored_messages s' = (stored_messages s)(qm_message_id m \<mapsto> queue_message_norm m)"
    using assms(2) by (simp_all add: messages.put_table messages.put_ok)
qed

section \<open>Acknowledge and fail\<close>

lemma queue_acknowledge_cases:
  assumes "queue_state_ok s" and "queue_acknowledge in_memory_backend q s = (r, s')"
  obtains (Acked) m where "stored_messages s (akq_message_id q) = Some m"
      and "qm_claimed_by m = Some (akq_claimant q)" and "r = Inr ()" and "queue_state_ok s'"
      and "stored_messages s' = (stored_messages s)(akq_message_id q \<mapsto> acked_message m)"
      and "committed_docs s' QueueIdempotency = committed_docs s QueueIdempotency"
    | (Failed) e where "r = Inl e" and "s' = s"
proof -
  have ref: "refines (\<lambda>m. usable m \<and> fst m = s) mem_view (queue_acknowledgeTx memory_transaction q)
      (queue_acknowledgeTx view_transaction q)"
    by (rule memory_at.refines_queue_acknowledge) simp
  have run: "managed in_memory_backend (queue_acknowledgeTx memory_transaction q) s = (r, s')"
    using assms(2) by (simp add: queue_acknowledge_def)
  note v = view_acknowledge [OF conjunct2 [OF assms(1)], of q]
  from conjunct1 [OF assms(1)] ref run show ?thesis
  proof (cases rule: managed_memory_cases)
    case (Commits x)
    obtain m where m: "stored_messages s (akq_message_id q) = Some m" "qm_claimed_by m = Some (akq_claimant q)"
      using Commits(1) v by (auto split: option.splits if_splits)
    have i: "qm_message_id m = akq_message_id q"
      using messages.table_key assms(1) m(1) by blast
    have c: "\<And>c. plain_name c \<Longrightarrow> committed_docs s' c =
        view_put QueueMessages (qm_message_id (acked_message m)) (message_document (acked_message m)) (committed_docs s) c"
      using Commits(4) v m by simp
    show ?thesis
      using Acked [OF m] Commits(2,3) put_message_state [OF c] assms(1) c [of QueueIdempotency]
        acked_message_norm [OF messages.table_normal [OF m(1)]] i by simp
  qed (use Failed in auto)
qed

lemma queue_fail_cases:
  assumes "queue_state_ok s" and "queue_fail in_memory_backend q s = (r, s')"
  obtains (Failed) m where "stored_messages s (flq_message_id q) = Some m"
      and "qm_claimed_by m = Some (flq_claimant q)" and "r = Inr (failed_message q m)" and "queue_state_ok s'"
      and "stored_messages s' = (stored_messages s)(flq_message_id q \<mapsto> failed_message q m)"
      and "committed_docs s' QueueIdempotency = committed_docs s QueueIdempotency"
    | (Throws) e where "r = Inl e" and "s' = s"
proof -
  have ref: "refines (\<lambda>m. usable m \<and> fst m = s) mem_view (queue_failTx memory_transaction q)
      (queue_failTx view_transaction q)"
    by (rule memory_at.refines_queue_fail) simp
  have run: "managed in_memory_backend (queue_failTx memory_transaction q) s = (r, s')"
    using assms(2) by (simp add: queue_fail_def)
  note v = view_fail [OF conjunct2 [OF assms(1)], of q]
  from conjunct1 [OF assms(1)] ref run show ?thesis
  proof (cases rule: managed_memory_cases)
    case (Commits x)
    obtain m where m: "stored_messages s (flq_message_id q) = Some m" "qm_claimed_by m = Some (flq_claimant q)"
      using Commits(1) v by (auto split: option.splits if_splits)
    have i: "qm_message_id m = flq_message_id q"
      using messages.table_key assms(1) m(1) by blast
    have c: "\<And>c. plain_name c \<Longrightarrow> committed_docs s' c =
        view_put QueueMessages (qm_message_id (failed_message q m)) (message_document (failed_message q m)) (committed_docs s) c"
      using Commits(4) v m by simp
    show ?thesis
      using Failed [OF m] Commits(1-3) v m put_message_state [OF c] assms(1) c [of QueueIdempotency]
        failed_message_norm [of q m] i by simp
  qed (use Throws in auto)
qed


section \<open>Claim\<close>

text \<open>What a claim promises over the table; when the deadline leaves the range of the clock, it
  returns only if there is nothing to take.\<close>

definition claim_spec ::
    "claim_request \<Rightarrow> message_table \<Rightarrow> queue_message list \<Rightarrow> message_table \<Rightarrow> bool" where
  "claim_spec q t ms t' \<longleftrightarrow>
     (case add_seconds (clq_now q) (clq_visibility_timeout q) of
        Inl _ \<Rightarrow> ms = [] \<and> t' = t \<and>
          takes_exactly (unat (clq_max_messages q)) (message_eligible q) id queue_message_norm qm_message_id t [] t
      | Inr expires \<Rightarrow>
          takes_exactly (unat (clq_max_messages q)) (message_eligible q) (claimed_message q expires)
            queue_message_norm qm_message_id t ms t')"

lemma claim_loop_spec:
  assumes ok: "queue_ok v" and es: "entries_of (v QueueMessages) es"
    and run: "bindM (liftM (map_result (\<lambda>e. queue_message_from_json (snd e)) es))
      (\<lambda>ms. claim_loop view_transaction q ms []) v = (Inr ms, v')"
  shows "claim_spec q (message_table v) ms (message_table v') \<and> queue_ok v' \<and>
    v' QueueIdempotency = v QueueIdempotency"
proof -
  obtain all where all: "map_result (\<lambda>e. queue_message_from_json (snd e)) es = Inr all"
      "distinct (map qm_message_id all)" "set all = ran (message_table v)"
      "\<forall>m \<in> set all. message_table v (qm_message_id m) = Some m"
    using messages.decoded_entries [OF ok es] by blast
  have loop: "claim_loop view_transaction q all [] v = (Inr ms, v')"
    using run all(1) by simp
  show ?thesis
  proof (cases "add_seconds (clq_now q) (clq_visibility_timeout q)")
    case (Inl e)
    have "ms = []" "v' = v" "unat (clq_max_messages q) = 0 \<or> filter (message_eligible q) all = []"
      using loop view_claim_loop_overflow [OF Inl, of all v] by (auto split: if_splits)
    then show ?thesis
      using ok by (auto simp: claim_spec_def Inl takes_exactly_nothing filter_empty_conv simp flip: all(3))
  next
    case (Inr expires)
    have ms: "ms = map (claimed_message q expires) (take (unat (clq_max_messages q)) (filter (message_eligible q) all))"
      and v': "v' = put_messages ms v"
      using loop view_claim_loop [OF Inr, of "[]" all v] by (auto simp: Let_def)
    show ?thesis
      using messages.take_spec [OF ok all(2-4) _ ms, of v'] by (simp add: v' claim_spec_def Inr)
  qed
qed

lemma queue_claim_cases:
  assumes "queue_state_ok s" and "queue_claim in_memory_backend q s = (r, s')"
  obtains (Claimed) ms where "r = Inr ms" and "claim_spec q (stored_messages s) ms (stored_messages s')"
      and "queue_state_ok s'" and "committed_docs s' QueueIdempotency = committed_docs s QueueIdempotency"
    | (Failed) e where "r = Inl e" and "s' = s"
proof -
  have ref: "refines_rel (\<lambda>m. usable m \<and> fst m = s) mem_view (queue_claimTx memory_transaction q)
     (\<lambda>v r v'. \<exists>es. entries_of (v QueueMessages) es \<and>
        bindM (liftM (map_result (\<lambda>e. queue_message_from_json (snd e)) es))
          (\<lambda>ms. claim_loop view_transaction q ms []) v = (r, v'))"
    by (rule memory_at.refines_queue_claim) simp
  have run: "managed in_memory_backend (queue_claimTx memory_transaction q) s = (r, s')"
    using assms(2) by (simp add: queue_claim_def)
  show ?thesis
  proof (cases r)
    case (Inl e)
    then show ?thesis
      using Failed managed_memory_throws [OF conjunct1 [OF assms(1)] ref] run by blast
  next
    case (Inr ms)
    obtain v' es where v': "entries_of (committed_docs s QueueMessages) es"
        "bindM (liftM (map_result (\<lambda>e. queue_message_from_json (snd e)) es))
          (\<lambda>ms. claim_loop view_transaction q ms []) (committed_docs s) = (Inr ms, v')"
        "state_ok s'" "\<And>c. plain_name c \<Longrightarrow> committed_docs s' c = v' c"
      using managed_memory_rel [OF conjunct1 [OF assms(1)] ref] run Inr by blast
    have spec: "claim_spec q (stored_messages s) ms (message_table v') \<and> queue_ok v' \<and>
        v' QueueIdempotency = committed_docs s QueueIdempotency"
      using claim_loop_spec [OF conjunct2 [OF assms(1)] v'(1,2)] .
    have "committed_docs s' QueueMessages = v' QueueMessages"
      by (rule v'(4)) simp
    then have "stored_messages s' = message_table v'" "queue_ok (committed_docs s') = queue_ok v'"
      by (rule messages.table_cong, rule messages.ok_cong)
    then show ?thesis
      using Claimed [OF Inr] spec v'(3) v'(4) [of QueueIdempotency] by simp
  qed
qed


section \<open>Enqueue\<close>

definition idempotency_document :: "string \<Rightarrow> json" where
  "idempotency_document message_id = JObject [(''message_id'', JString message_id)]"

abbreviation idempotency_entries :: "in_memory_state \<Rightarrow> string \<rightharpoonup> json" where
  "idempotency_entries s \<equiv> committed_docs s QueueIdempotency"

lemma idempotency_document_id [simp]:
  "at_string (idempotency_document message_id) ''message_id'' = Inr message_id"
  by (simp add: idempotency_document_def json_at_def)

lemma new_message_simps [simp]:
  "qm_message_id (new_message q) = enq_message_id q" "queue_message_norm (new_message q) = new_message q"
  by (simp_all add: new_message_def queue_message_norm_def)

definition view_store_new :: "enqueue_request \<Rightarrow> doc_view \<Rightarrow> doc_view" where
  "view_store_new q v = view_put QueueMessages (enq_message_id q) (message_document (new_message q)) v"

lemma view_enqueue:
  assumes "queue_ok v"
  shows "queue_enqueueTx view_transaction q v =
    (case enq_idempotency_key q of
       None \<Rightarrow> (Inr (new_message q), view_store_new q v)
     | Some k \<Rightarrow>
        (case v QueueIdempotency (idempotency_key q k) of
           None \<Rightarrow> (Inr (new_message q), view_store_new q
             (view_put QueueIdempotency (idempotency_key q k) (idempotency_document (enq_message_id q)) v))
         | Some d \<Rightarrow>
            (case at_string d ''message_id'' of
               Inl e \<Rightarrow> (Inl e, v)
             | Inr i \<Rightarrow> (case message_table v i of
                 None \<Rightarrow> (Inl Undefined_Behaviour, v) | Some m \<Rightarrow> (Inr m, v)))))"
proof -
  have j: "json_object_of [(''message_id'', JString i)] = Inr (idempotency_document i)" for i
    by (simp add: idempotency_document_def json_object_of_def)
  show ?thesis
    using assms view_put_message [of "new_message q"]
    by (auto simp: queue_enqueueTx_def Let_def bindM_def view_queue_inspect j view_store_new_def
        split: option.split sum.split)
qed

lemma queue_enqueue_managed_cases:
  assumes "queue_state_ok s" and "managed in_memory_backend (queue_enqueueTx memory_transaction q) s = (r, s')"
  obtains (Stored) "r = Inr (new_message q)" and "queue_state_ok s'"
      and "stored_messages s' = (stored_messages s)(enq_message_id q \<mapsto> new_message q)"
      and "\<And>k. enq_idempotency_key q = Some k \<Longrightarrow> idempotency_entries s (idempotency_key q k) = None"
      and "idempotency_entries s' = (case enq_idempotency_key q of None \<Rightarrow> idempotency_entries s
        | Some k \<Rightarrow> (idempotency_entries s)(idempotency_key q k \<mapsto> idempotency_document (enq_message_id q)))"
    | (Repeated) k d m where "enq_idempotency_key q = Some k"
      and "idempotency_entries s (idempotency_key q k) = Some d" and "at_string d ''message_id'' = Inr (qm_message_id m)"
      and "stored_messages s (qm_message_id m) = Some m" and "r = Inr m" and "queue_state_ok s'"
      and "stored_messages s' = stored_messages s" and "idempotency_entries s' = idempotency_entries s"
    | (Failed) e where "r = Inl e" and "s' = s"
proof -
  have ok: "state_ok s" "queue_ok (committed_docs s)" using assms(1) by simp_all
  have ref: "refines (\<lambda>m. usable m \<and> fst m = s) mem_view (queue_enqueueTx memory_transaction q)
      (queue_enqueueTx view_transaction q)"
    by (rule memory_at.refines_queue_enqueue) simp_all
  note v = view_enqueue [OF ok(2), of q]
  from ok(1) ref assms(2) show ?thesis
  proof (cases rule: managed_memory_cases)
    case (Commits x)
    have stored: thesis
      if x: "queue_enqueueTx view_transaction q (committed_docs s) = (Inr (new_message q), view_store_new q w)"
        and w: "w QueueMessages = committed_docs s QueueMessages"
          "w QueueIdempotency = (case enq_idempotency_key q of None \<Rightarrow> idempotency_entries s
             | Some k \<Rightarrow> (idempotency_entries s)(idempotency_key q k \<mapsto> idempotency_document (enq_message_id q)))"
        and n: "\<And>k. enq_idempotency_key q = Some k \<Longrightarrow> idempotency_entries s (idempotency_key q k) = None"
      for w
    proof -
      have m: "committed_docs s' QueueMessages = view_store_new q w QueueMessages"
        using Commits(4) [of QueueMessages] x by simp
      have "queue_ok (committed_docs s') = queue_ok (view_store_new q w)"
        "stored_messages s' = message_table (view_store_new q w)"
        using messages.ok_cong [where w = "view_store_new q w"] messages.table_cong [where w = "view_store_new q w"] m
        by blast+
      moreover have "queue_ok w" "message_table w = stored_messages s"
        using messages.ok_cong [of w "committed_docs s"] messages.table_cong [of w "committed_docs s"] w(1) ok(2) by simp_all
      ultimately have "queue_ok (committed_docs s')"
        "stored_messages s' = (stored_messages s)(enq_message_id q \<mapsto> new_message q)"
        using messages.put_ok [where x = "new_message q" and v = w] messages.put_table [where x = "new_message q" and v = w]
        by (simp_all add: view_store_new_def)
      moreover have "idempotency_entries s' = w QueueIdempotency"
        using Commits(4) [of QueueIdempotency] x by (simp add: view_store_new_def)
      ultimately show thesis
        using Stored Commits(1-3) x n w(2) by simp
    qed
    show ?thesis
    proof (cases "enq_idempotency_key q")
      case None
      show ?thesis by (rule stored [of "committed_docs s"]) (simp_all add: v None)
    next
      case (Some k)
      note key = Some
      show ?thesis
      proof (cases "idempotency_entries s (idempotency_key q k)")
        case None
        show ?thesis
          by (rule stored [of "view_put QueueIdempotency (idempotency_key q k)
                (idempotency_document (enq_message_id q)) (committed_docs s)"]) (simp_all add: v key None)
      next
        case (Some d)
        obtain i m where i: "at_string d ''message_id'' = Inr i" "stored_messages s i = Some m"
            "queue_enqueueTx view_transaction q (committed_docs s) = (Inr m, committed_docs s)"
          using Commits(1) by (auto simp: v key Some split: sum.splits option.splits)
        have "qm_message_id m = i"
          using messages.table_key [OF ok(2) i(2)] .
        moreover have "stored_messages s' = stored_messages s" "queue_ok (committed_docs s')"
          using messages.ok_cong [of "committed_docs s'" "committed_docs s"] messages.table_cong [of "committed_docs s'" "committed_docs s"]
            Commits(4) [of QueueMessages] i(3) ok(2) by simp_all
        moreover have "idempotency_entries s' = idempotency_entries s"
          using Commits(4) [of QueueIdempotency] i(3) by simp
        ultimately show ?thesis
          using Repeated [OF key Some, of m] i Commits(1-3) by auto
      qed
    qed
  qed (use Failed in auto)
qed

lemma queue_enqueue_cases:
  assumes "queue_state_ok s" and "queue_enqueue in_memory_backend q s = (r, s')"
  obtains (Stored) "r = Inr (new_message q)" and "queue_state_ok s'"
      and "stored_messages s' = (stored_messages s)(enq_message_id q \<mapsto> new_message q)"
      and "\<And>k. enq_idempotency_key q = Some k \<Longrightarrow> idempotency_entries s (idempotency_key q k) = None"
      and "idempotency_entries s' = (case enq_idempotency_key q of None \<Rightarrow> idempotency_entries s
        | Some k \<Rightarrow> (idempotency_entries s)(idempotency_key q k \<mapsto> idempotency_document (enq_message_id q)))"
    | (Repeated) k d m where "enq_idempotency_key q = Some k"
      and "idempotency_entries s (idempotency_key q k) = Some d" and "at_string d ''message_id'' = Inr (qm_message_id m)"
      and "stored_messages s (qm_message_id m) = Some m" and "r = Inr m" and "queue_state_ok s'"
      and "stored_messages s' = stored_messages s" and "idempotency_entries s' = idempotency_entries s"
    | (Failed) e where "r = Inl e" and "queue_state_ok s'" and "committed_docs s' = committed_docs s"
proof -
  let ?s0 = "snd (queue_ensure_collections in_memory_backend s)"
  have s0: "queue_state_ok ?s0" "committed_docs ?s0 = committed_docs s"
    using assms(1) by (simp_all add: queue_ensure_collections_def in_memory_backend_def ensure_collections_ok ensure_collections_docs)
  show ?thesis
  proof (cases "fst (queue_ensure_collections in_memory_backend s)")
    case (Inl e)
    then have "r = Inl e" "s' = ?s0"
      using assms(2) by (auto simp: queue_enqueue_def bindM_def split: prod.splits)
    then show ?thesis using Failed s0 by simp
  next
    case (Inr u)
    then have "managed in_memory_backend (queue_enqueueTx memory_transaction q) ?s0 = (r, s')"
      using assms(2) by (auto simp: queue_enqueue_def bindM_def split: prod.splits)
    with s0(1) show ?thesis
    proof (cases rule: queue_enqueue_managed_cases)
      case Stored
      then show ?thesis using that(1) unfolding s0(2) by blast
    next
      case (Repeated k d m) then show ?thesis using that(2) s0(2) by simp
    next
      case (Failed e) then show ?thesis using that(3) s0 by simp
    qed
  qed
qed

section \<open>Runs of the store\<close>

datatype queue_command =
    Q_Enqueue enqueue_request
  | Q_Claim claim_request
  | Q_Ack ack_request
  | Q_Fail fail_request

fun queue_perform :: "queue_command \<Rightarrow> in_memory_state \<Rightarrow> in_memory_state" where
  "queue_perform (Q_Enqueue q) s = snd (queue_enqueue in_memory_backend q s)"
| "queue_perform (Q_Claim q) s = snd (queue_claim in_memory_backend q s)"
| "queue_perform (Q_Ack q) s = snd (queue_acknowledge in_memory_backend q s)"
| "queue_perform (Q_Fail q) s = snd (queue_fail in_memory_backend q s)"

definition queue_run :: "queue_command list \<Rightarrow> in_memory_state \<Rightarrow> in_memory_state" where
  "queue_run cs s = fold queue_perform cs s"



lemma claim_specD:
  assumes "claim_spec q t ms t'" and "m \<in> set ms"
  obtains m0 expires where "add_seconds (clq_now q) (clq_visibility_timeout q) = Inr expires"
    and "t (qm_message_id m) = Some m0" and "message_eligible q m0" and "m = claimed_message q expires m0"
    and "t' (qm_message_id m) = Some (queue_message_norm m)"
  using assms by (force simp: claim_spec_def takes_exactly_def split: sum.splits)

lemma claim_spec_others: "claim_spec q t ms t' \<Longrightarrow> k \<notin> qm_message_id ` set ms \<Longrightarrow> t' k = t k"
  by (auto simp: claim_spec_def takes_exactly_def split: sum.splits)

lemma queue_perform_ok: "queue_state_ok s \<Longrightarrow> queue_state_ok (queue_perform c s)"
proof (cases c)
  case (Q_Enqueue q)
  assume ok: "queue_state_ok s"
  obtain r s' where run: "queue_enqueue in_memory_backend q s = (r, s')" by force
  from ok run show ?thesis by (cases rule: queue_enqueue_cases) (use Q_Enqueue ok run in simp_all)
next
  case (Q_Claim q)
  assume ok: "queue_state_ok s"
  obtain r s' where run: "queue_claim in_memory_backend q s = (r, s')" by force
  from ok run show ?thesis by (cases rule: queue_claim_cases) (use Q_Claim ok run in simp_all)
next
  case (Q_Ack q)
  assume ok: "queue_state_ok s"
  obtain r s' where run: "queue_acknowledge in_memory_backend q s = (r, s')" by force
  from ok run show ?thesis by (cases rule: queue_acknowledge_cases) (use Q_Ack ok run in simp_all)
next
  case (Q_Fail q)
  assume ok: "queue_state_ok s"
  obtain r s' where run: "queue_fail in_memory_backend q s = (r, s')" by force
  from ok run show ?thesis by (cases rule: queue_fail_cases) (use Q_Fail ok run in simp_all)
qed

lemma queue_run_ok: "queue_state_ok s \<Longrightarrow> queue_state_ok (queue_run cs s)"
  unfolding queue_run_def by (induction cs arbitrary: s) (simp_all del: queue_perform.simps add: queue_perform_ok)




section \<open>Properties\<close>

text \<open>C11: a claim takes exactly the eligible messages. It returns at most as many as asked for, each
  once, all of the queue and channel, pending or with a lapsed deadline, marks them as claimed
  by the caller with the new deadline and one more attempt, changes no other message, and
  leaves an eligible message behind only when it has reached the limit; when it throws, nothing
  changes.\<close>

theorem queue_claim_exact:
  assumes "queue_state_ok s" and "queue_claim in_memory_backend q s = (r, s')"
  shows "case r of
      Inl e \<Rightarrow> s' = s
    | Inr ms \<Rightarrow> claim_spec q (stored_messages s) ms (stored_messages s') \<and> queue_state_ok s'"
  using assms by (cases rule: queue_claim_cases) simp_all





text \<open>C16: only the claimant settles a message. Acknowledging or failing a message that another client
  claimed, or nobody, throws a \<open>QueueClaimConflict\<close> and changes nothing.\<close>

theorem queue_claimant_only:
  assumes "queue_state_ok s" and "stored_messages s k = Some m" and "qm_claimed_by m \<noteq> Some c"
  shows "queue_acknowledge in_memory_backend \<lparr>akq_message_id = k, akq_claimant = c\<rparr> s =
      (Inl (ConflictError QueueClaimConflict ''queue message is not claimed by caller''), s) \<and>
    queue_fail in_memory_backend
        \<lparr>flq_message_id = k, flq_claimant = c, flq_reason = reason, flq_now = now, flq_max_attempts = n\<rparr> s =
      (Inl (ConflictError QueueClaimConflict ''queue message is not claimed by caller''), s)"
proof
  let ?e = "ConflictError QueueClaimConflict ''queue message is not claimed by caller''"
  have ok: "state_ok s" "queue_ok (committed_docs s)" using assms(1) by simp_all
  let ?a = "\<lparr>akq_message_id = k, akq_claimant = c\<rparr>"
  obtain r1 s1 where 1: "managed in_memory_backend (queue_acknowledgeTx memory_transaction ?a) s = (r1, s1)"
    using surjective_pairing by blast
  have "refines (\<lambda>m. usable m \<and> fst m = s) mem_view (queue_acknowledgeTx memory_transaction ?a)
      (queue_acknowledgeTx view_transaction ?a)"
    by (rule memory_at.refines_queue_acknowledge) simp
  from ok(1) this 1 have "(r1, s1) = (Inl ?e, s)"
    by (cases rule: managed_memory_cases) (use view_acknowledge [OF ok(2), of ?a] assms(2,3) in auto)
  then show "queue_acknowledge in_memory_backend ?a s = (Inl ?e, s)"
    using 1 by (simp add: queue_acknowledge_def)
  let ?f = "\<lparr>flq_message_id = k, flq_claimant = c, flq_reason = reason, flq_now = now, flq_max_attempts = n\<rparr>"
  obtain r2 s2 where 2: "managed in_memory_backend (queue_failTx memory_transaction ?f) s = (r2, s2)"
    using surjective_pairing by blast
  have "refines (\<lambda>m. usable m \<and> fst m = s) mem_view (queue_failTx memory_transaction ?f)
      (queue_failTx view_transaction ?f)"
    by (rule memory_at.refines_queue_fail) simp
  from ok(1) this 2 have "(r2, s2) = (Inl ?e, s)"
    by (cases rule: managed_memory_cases) (use view_fail [OF ok(2), of ?f] assms(2,3) in auto)
  then show "queue_fail in_memory_backend ?f s = (Inl ?e, s)"
    using 2 by (simp add: queue_fail_def)
qed


text \<open>How often a run delivers a message.\<close>

fun delivered :: "string \<Rightarrow> queue_command \<Rightarrow> in_memory_state \<Rightarrow> bool" where
  "delivered k (Q_Claim q) s =
     (case fst (queue_claim in_memory_backend q s) of
        Inl _ \<Rightarrow> False | Inr ms \<Rightarrow> k \<in> qm_message_id ` set ms)"
| "delivered k _ s = False"

fun deliveries :: "string \<Rightarrow> queue_command list \<Rightarrow> in_memory_state \<Rightarrow> nat" where
  "deliveries k [] s = 0"
| "deliveries k (c # cs) s = of_bool (delivered k c s) + deliveries k cs (queue_perform c s)"

lemma queue_perform_attempts:
  assumes ok: "queue_state_ok s" and m: "stored_messages s k = Some m"
    and c: "\<And>q. c = Q_Enqueue q \<Longrightarrow> enq_message_id q \<noteq> k"
  shows "\<exists>m'. stored_messages (queue_perform c s) k = Some m' \<and>
    qm_attempts m' = qm_attempts m + of_bool (delivered k c s)"
proof (cases c)
  case (Q_Enqueue q)
  obtain r s' where run: "queue_enqueue in_memory_backend q s = (r, s')" by force
  from ok run show ?thesis by (cases rule: queue_enqueue_cases) (use Q_Enqueue m c run in auto)
next
  case (Q_Claim q)
  obtain r s' where run: "queue_claim in_memory_backend q s = (r, s')" by force
  from ok run show ?thesis
  proof (cases rule: queue_claim_cases)
    case (Claimed ms)
    show ?thesis
    proof (cases "k \<in> qm_message_id ` set ms")
      case True
      then obtain x where x: "x \<in> set ms" "k = qm_message_id x" by blast
      with Claimed(2) obtain m0 t where "stored_messages s k = Some m0" "x = claimed_message q t m0"
          "stored_messages s' k = Some (queue_message_norm x)"
        by (elim claim_specD) auto
      then show ?thesis
        using True m Q_Claim run Claimed(1) by (simp add: claimed_message_def queue_message_norm_def)
    next
      case False
      then have "stored_messages s' k = Some m"
        using claim_spec_others [OF Claimed(2)] m by simp
      then show ?thesis using False Q_Claim run Claimed(1) by simp
    qed
  qed (use m Q_Claim run in simp)
next
  case (Q_Ack q)
  obtain r s' where run: "queue_acknowledge in_memory_backend q s = (r, s')" by force
  from ok run show ?thesis
    by (cases rule: queue_acknowledge_cases) (use Q_Ack m run in \<open>auto simp: acked_message_def\<close>)
next
  case (Q_Fail q)
  obtain r s' where run: "queue_fail in_memory_backend q s = (r, s')" by force
  from ok run show ?thesis
    by (cases rule: queue_fail_cases) (use Q_Fail m run in \<open>auto simp: failed_message_def\<close>)
qed

lemma queue_run_attempts:
  assumes "queue_state_ok s" and "stored_messages s k = Some m"
    and "\<forall>q. Q_Enqueue q \<in> set cs \<longrightarrow> enq_message_id q \<noteq> k"
  shows "\<exists>m'. stored_messages (queue_run cs s) k = Some m' \<and>
    qm_attempts m' = qm_attempts m + of_nat (deliveries k cs s)"
  using assms
proof (induction cs arbitrary: s m)
  case (Cons c cs)
  obtain m1 where m1: "stored_messages (queue_perform c s) k = Some m1"
      "qm_attempts m1 = qm_attempts m + of_bool (delivered k c s)"
    using queue_perform_attempts [OF Cons.prems(1,2), of c] Cons.prems(3) by auto
  show ?case
    using Cons.IH [OF queue_perform_ok [OF Cons.prems(1)] m1(1)] Cons.prems(3) m1(2)
    by (auto simp: queue_run_def add.assoc)
qed (simp add: queue_run_def)

lemma deliveries_le: "deliveries k cs s \<le> length cs"
  by (induction cs arbitrary: s) (auto simp del: queue_perform.simps intro: le_SucI)

text \<open>C12: a message is dead-lettered exactly when its deliveries reach the limit. When the claimant of
  a message that started with no attempts fails it, after any sequence of commands without an
  enqueue under its id, the message becomes \<open>DeadLettered\<close> if it has been delivered at least
  \<open>max_attempts\<close> times and \<open>Pending\<close> otherwise; either way its claim is cleared, and the table
  holds what the call returned.\<close>

theorem dead_letter_after_max_attempts:
  assumes "queue_state_ok s" and "stored_messages s (flq_message_id q) = Some m" and "qm_attempts m = 0"
    and "\<forall>q'. Q_Enqueue q' \<in> set cs \<longrightarrow> enq_message_id q' \<noteq> flq_message_id q"
    and "length cs < 2 ^ 64"
    and "queue_fail in_memory_backend q (queue_run cs s) = (Inr m', s')"
  shows "qm_status m' = (if unat (flq_max_attempts q) \<le> deliveries (flq_message_id q) cs s
                         then ''DeadLettered'' else ''Pending'') \<and>
    qm_claimed_by m' = None \<and> qm_claim_expires_at m' = None \<and>
    stored_messages s' = (stored_messages (queue_run cs s))(flq_message_id q \<mapsto> m')"
proof -
  let ?n = "deliveries (flq_message_id q) cs s"
  obtain m1 where m1: "stored_messages (queue_run cs s) (flq_message_id q) = Some m1"
      "qm_attempts m1 = of_nat ?n"
    using queue_run_attempts [OF assms(1,2,4)] assms(3) by auto
  have "?n < 2 ^ 64" using deliveries_le assms(5) le_less_trans by blast
  then have "u32_to_i64 (flq_max_attempts q) \<le> qm_attempts m1 \<longleftrightarrow> unat (flq_max_attempts q) \<le> ?n"
    by (simp add: m1(2) u32_le_of_nat)
  moreover from queue_run_ok [OF assms(1)] assms(6)
  have "m' = failed_message q m1 \<and> stored_messages s' = (stored_messages (queue_run cs s))(flq_message_id q \<mapsto> m')"
    by (cases rule: queue_fail_cases) (use m1(1) in auto)
  ultimately show ?thesis
    by (simp add: failed_message_def)
qed

lemma idempotency_kept:
  assumes "queue_state_ok s" and "idempotency_entries s k = Some d"
  shows "idempotency_entries (queue_perform c s) k = Some d"
proof (cases c)
  case (Q_Enqueue q)
  obtain r s' where run: "queue_enqueue in_memory_backend q s = (r, s')" by force
  from assms(1) run show ?thesis
  proof (cases rule: queue_enqueue_cases)
    case Stored
    then show ?thesis using Q_Enqueue run assms(2) by (cases "enq_idempotency_key q") auto
  qed (use Q_Enqueue run assms(2) in simp_all)
next
  case (Q_Claim q)
  obtain r s' where run: "queue_claim in_memory_backend q s = (r, s')" by force
  from assms(1) run show ?thesis by (cases rule: queue_claim_cases) (use Q_Claim run assms(2) in simp_all)
next
  case (Q_Ack q)
  obtain r s' where run: "queue_acknowledge in_memory_backend q s = (r, s')" by force
  from assms(1) run show ?thesis by (cases rule: queue_acknowledge_cases) (use Q_Ack run assms(2) in simp_all)
next
  case (Q_Fail q)
  obtain r s' where run: "queue_fail in_memory_backend q s = (r, s')" by force
  from assms(1) run show ?thesis by (cases rule: queue_fail_cases) (use Q_Fail run assms(2) in simp_all)
qed

lemma idempotency_kept_run:
  assumes "queue_state_ok s" and "idempotency_entries s k = Some d"
  shows "idempotency_entries (queue_run cs s) k = Some d"
  using assms unfolding queue_run_def
  by (induction cs arbitrary: s) (simp_all del: queue_perform.simps add: queue_perform_ok idempotency_kept)

text \<open>C13: an idempotency key enqueues once. After an enqueue with a key has returned a message, and any
  sequence of commands, enqueuing on the same queue and channel with the same key changes no
  message, whatever its message id and payload; what it returns is the first call's message as
  the table then holds it.\<close>

theorem enqueue_idempotent:
  assumes "queue_state_ok s" and "queue_enqueue in_memory_backend q s = (Inr m, s1)"
    and "enq_idempotency_key q = Some k" and "enq_idempotency_key q' = Some k"
    and "enq_queue q' = enq_queue q" and "enq_channel q' = enq_channel q"
    and "queue_enqueue in_memory_backend q' (queue_run cs s1) = (r, s2)"
  shows "stored_messages s2 = stored_messages (queue_run cs s1) \<and>
    (\<forall>m'. r = Inr m' \<longrightarrow> qm_message_id m' = qm_message_id m \<and>
       stored_messages (queue_run cs s1) (qm_message_id m) = Some m')"
proof -
  have key: "idempotency_key q' k = idempotency_key q k"
    using assms(5,6) by (simp add: idempotency_key_def)
  have "queue_state_ok s1 \<and> (\<exists>d. idempotency_entries s1 (idempotency_key q k) = Some d \<and>
      at_string d ''message_id'' = Inr (qm_message_id m))"
    using assms(1,2) by (cases rule: queue_enqueue_cases) (use assms(3) in auto)
  then obtain d where ok: "queue_state_ok (queue_run cs s1)"
      and d: "idempotency_entries (queue_run cs s1) (idempotency_key q' k) = Some d"
        "at_string d ''message_id'' = Inr (qm_message_id m)"
    using idempotency_kept_run queue_run_ok key by metis
  from ok assms(7) show ?thesis
  proof (cases rule: queue_enqueue_cases)
    case Stored
    then show ?thesis using assms(4) d(1) by simp
  next
    case (Repeated k' d' m')
    then show ?thesis using assms(4) d by auto
  qed simp
qed

text \<open>an acknowledged message can come back. Acknowledging keeps the claim on the message, so its
  claimant can still fail it afterwards: with attempts left the message is pending again and the
  next claim delivers what was acknowledged.\<close>

theorem acknowledged_message_reopened:
  assumes "queue_state_ok s" and "queue_acknowledge in_memory_backend \<lparr>akq_message_id = k, akq_claimant = c\<rparr> s = (Inr (), s1)"
    and "queue_fail in_memory_backend
      \<lparr>flq_message_id = k, flq_claimant = c, flq_reason = reason, flq_now = now, flq_max_attempts = n\<rparr> s1 = (Inr m, s2)"
    and "qm_attempts m < u32_to_i64 n"
  shows "\<exists>m0. stored_messages s1 k = Some m0 \<and> qm_status m0 = ''Acked'' \<and>
    stored_messages s2 k = Some m \<and> qm_status m = ''Pending''"
  using assms(1,2)
proof (cases rule: queue_acknowledge_cases)
  case (Acked m0)
  from Acked(4) assms(3) show ?thesis
    by (cases rule: queue_fail_cases)
      (use Acked(5) assms(4) in \<open>auto simp: acked_message_def failed_message_def not_le\<close>)
qed simp

section \<open>Witnesses\<close>

definition sample_enqueue :: "string \<Rightarrow> enqueue_request" where
  "sample_enqueue i =
     \<lparr>enq_message_id = i, enq_queue = ''q'', enq_channel = ''c'', enq_idempotency_key = Some ''k'',
      enq_payload = JNull\<rparr>"

definition sample_claim :: "string \<Rightarrow> timestamp \<Rightarrow> claim_request" where
  "sample_claim claimant now =
     \<lparr>clq_queue = ''q'', clq_channel = ''c'', clq_claimant = claimant, clq_now = now,
      clq_visibility_timeout = 10, clq_max_messages = 1\<rparr>"

definition sample_ack :: "string \<Rightarrow> ack_request" where
  "sample_ack claimant = \<lparr>akq_message_id = ''m'', akq_claimant = claimant\<rparr>"

definition sample_fail :: "string \<Rightarrow> 32 word \<Rightarrow> fail_request" where
  "sample_fail claimant n =
     \<lparr>flq_message_id = ''m'', flq_claimant = claimant, flq_reason = ''late'', flq_now = 0, flq_max_attempts = n\<rparr>"

text \<open>A message enqueued, claimed by \<open>a\<close>, and acknowledged.\<close>

definition queue_state1 :: in_memory_state where
  "queue_state1 = snd (queue_enqueue in_memory_backend (sample_enqueue ''m'') initial_state)"

definition queue_state2 :: in_memory_state where
  "queue_state2 = snd (queue_claim in_memory_backend (sample_claim ''a'' 0) queue_state1)"

definition queue_state3 :: in_memory_state where
  "queue_state3 = snd (queue_acknowledge in_memory_backend (sample_ack ''a'') queue_state2)"

definition sample_message :: queue_message where
  "sample_message = new_message (sample_enqueue ''m'')"

definition sample_claimed :: queue_message where
  "sample_claimed = claimed_message (sample_claim ''a'' 0) 10000000000 sample_message"

lemma initial_queue_ok: "queue_state_ok initial_state"
proof -
  have "ms_records initial_state = []" by (simp add: initial_state_def)
  then show ?thesis
    by (simp add: initial_state_ok table_ok_def committed_docs_def lookup_record_def)
qed

lemma queue_states_ok: "queue_state_ok queue_state1" "queue_state_ok queue_state2" "queue_state_ok queue_state3"
  using queue_perform_ok [OF initial_queue_ok, of "Q_Enqueue (sample_enqueue ''m'')"]
    queue_perform_ok [of queue_state1 "Q_Claim (sample_claim ''a'' 0)"]
    queue_perform_ok [of queue_state2 "Q_Ack (sample_ack ''a'')"]
  by (simp_all add: queue_state1_def queue_state2_def queue_state3_def)

lemma queue_state1_run:
  "queue_enqueue in_memory_backend (sample_enqueue ''m'') initial_state = (Inr sample_message, queue_state1)"
proof -
  have "fst (queue_enqueue in_memory_backend (sample_enqueue ''m'') initial_state) = Inr sample_message"
    by code_simp
  then show ?thesis by (simp add: prod_eq_iff queue_state1_def)
qed

lemma queue_state2_run:
  "queue_claim in_memory_backend (sample_claim ''a'' 0) queue_state1 = (Inr [sample_claimed], queue_state2)"
proof -
  have "fst (queue_claim in_memory_backend (sample_claim ''a'' 0) queue_state1) = Inr [sample_claimed]"
    by code_simp
  then show ?thesis by (simp add: prod_eq_iff queue_state2_def)
qed

lemma queue_state3_run:
  "queue_acknowledge in_memory_backend (sample_ack ''a'') queue_state2 = (Inr (), queue_state3)"
proof -
  have "fst (queue_acknowledge in_memory_backend (sample_ack ''a'') queue_state2) = Inr ()"
    by code_simp
  then show ?thesis by (simp add: prod_eq_iff queue_state3_def)
qed


lemma sample_claimed_simps:
  "qm_message_id sample_claimed = ''m''" "qm_claim_expires_at sample_claimed = Some 10000000000"
  "qm_claimed_by sample_claimed = Some ''a''" "clq_claimant (sample_claim a n) = a" "clq_now (sample_claim a n) = n"
  "akq_message_id (sample_ack a) = ''m''" "akq_claimant (sample_ack a) = a"
  by (simp_all add: sample_claimed_def sample_message_def sample_enqueue_def sample_claim_def sample_ack_def
      claimed_message_def)

theorem queue_claim_exact_witness:
  "claim_spec (sample_claim ''a'' 0) (stored_messages queue_state1) [sample_claimed] (stored_messages queue_state2)"
  using queue_claim_exact [OF queue_states_ok(1) queue_state2_run] by simp



theorem queue_claimant_only_witness:
  "queue_acknowledge in_memory_backend (sample_ack ''b'') queue_state2 =
     (Inl (ConflictError QueueClaimConflict ''queue message is not claimed by caller''), queue_state2)"
proof -
  have "stored_messages queue_state2 ''m'' = Some sample_claimed"
    by code_simp
  from queue_claimant_only [OF queue_states_ok(2) this, of "''b''"] show ?thesis
    by (simp add: sample_claimed_simps sample_ack_def)
qed

theorem dead_letter_after_max_attempts_witness:
  "\<exists>m s. queue_fail in_memory_backend (sample_fail ''a'' 1)
       (queue_run [Q_Claim (sample_claim ''a'' 0)] queue_state1) = (Inr m, s) \<and> qm_status m = ''DeadLettered''"
proof -
  let ?cs = "[Q_Claim (sample_claim ''a'' 0)]"
  have m: "stored_messages queue_state1 ''m'' = Some sample_message"
    by code_simp
  have n: "deliveries ''m'' ?cs queue_state1 = 1"
    by code_simp
  have "\<not> isl (fst (queue_fail in_memory_backend (sample_fail ''a'' 1) (queue_run ?cs queue_state1)))"
    by code_simp
  then obtain m' s' where run: "queue_fail in_memory_backend (sample_fail ''a'' 1) (queue_run ?cs queue_state1) = (Inr m', s')"
    by (metis isl_def prod.collapse sum.exhaust)
  have "qm_status m' = ''DeadLettered''"
    using dead_letter_after_max_attempts [OF queue_states_ok(1) _ _ _ _ run, of sample_message] m n
    by (simp add: sample_fail_def sample_message_def new_message_def)
  then show ?thesis using run by blast
qed

theorem enqueue_idempotent_witness:
  "\<exists>r s. queue_enqueue in_memory_backend (sample_enqueue ''n'') (queue_run [Q_Claim (sample_claim ''a'' 0)] queue_state1) = (r, s) \<and>
     stored_messages s = stored_messages (queue_run [Q_Claim (sample_claim ''a'' 0)] queue_state1)"
proof -
  obtain r s where run: "queue_enqueue in_memory_backend (sample_enqueue ''n'')
      (queue_run [Q_Claim (sample_claim ''a'' 0)] queue_state1) = (r, s)"
    using surjective_pairing by blast
  show ?thesis
    using enqueue_idempotent [OF initial_queue_ok queue_state1_run _ _ _ _ run] run by (simp add: sample_enqueue_def)
qed

theorem acknowledged_message_reopened_witness:
  "\<exists>m s. queue_fail in_memory_backend (sample_fail ''a'' 5) queue_state3 = (Inr m, s) \<and>
     stored_messages s ''m'' = Some m \<and> qm_status m = ''Pending''"
proof -
  have "\<not> isl (fst (queue_fail in_memory_backend (sample_fail ''a'' 5) queue_state3))"
    by code_simp
  then obtain m s where run: "queue_fail in_memory_backend (sample_fail ''a'' 5) queue_state3 = (Inr m, s)"
    by (metis isl_def prod.collapse sum.exhaust)
  have "map_sum id qm_attempts (fst (queue_fail in_memory_backend (sample_fail ''a'' 5) queue_state3)) = Inr 1"
    by code_simp
  then have "qm_attempts m = 1" using run by simp
  then show ?thesis
    using acknowledged_message_reopened [OF queue_states_ok(2), of "''m''" "''a''" queue_state3 "''late''" 0 5 m s]
      queue_state3_run run by (auto simp: sample_ack_def sample_fail_def u32_to_i64_def)
qed

end
