(* ===== verification/Workflow_Store.thy ===== *)
theory Workflow_Store
  imports Codecs Document_Table
begin

text \<open>
  \<open>RuntimeWorkflowStore\<close> of \<open>bindings/cpp/runtime/workflow_store.hpp\<close> with the requests of
  \<open>bindings/cpp/workflow.hpp\<close>: executions are started, claimed by workers under a claim token,
  kept alive, and completed, failed or canceled. The store's documents are abstracted to a map
  from execution ids to executions.
\<close>

section \<open>Requests and results\<close>

record workflow_definition_registration =
  wdr_definition :: workflow_definition
  wdr_created :: bool

record start_request =
  sw_workflow_execution_id :: string
  sw_workflow_name :: string
  sw_workflow_version :: "64 word"
  sw_start_step :: string
  sw_state :: json

record claim_step_request =
  cw_workflow_execution_id :: string
  cw_workflow_name :: string
  cw_workflow_version :: "64 word"
  cw_worker :: string
  cw_now :: timestamp
  cw_lease_duration :: seconds
  cw_max_steps :: "32 word"

record keep_alive_request =
  ka_workflow_execution_id :: string
  ka_worker :: string
  ka_current_step :: string
  ka_claim_token :: string
  ka_now :: timestamp
  ka_lease_duration :: seconds

record complete_request =
  co_workflow_execution_id :: string
  co_worker :: string
  co_completed_step :: string
  co_next_step :: "string option"
  co_state :: json
  co_claim_token :: string

record fail_step_request =
  fa_workflow_execution_id :: string
  fa_worker :: string
  fa_failed_step :: string
  fa_reason :: string
  fa_now :: timestamp
  fa_max_attempts :: "32 word"
  fa_claim_token :: string

record cancel_request =
  ca_workflow_execution_id :: string
  ca_reason :: string

section \<open>The store\<close>

definition workflow_definition_key :: "string \<Rightarrow> 64 word \<Rightarrow> string" where
  "workflow_definition_key workflow_name workflow_version =
     workflow_name @ '':'' @ to_string_i64 workflow_version"

definition heartbeat_key :: "string \<Rightarrow> string \<Rightarrow> string" where
  "heartbeat_key workflow_execution_id claim_token = workflow_execution_id @ '':'' @ claim_token"

definition claim_token_for :: "workflow_execution \<Rightarrow> string \<Rightarrow> string" where
  "claim_token_for x worker =
     we_workflow_execution_id x @ '':'' @ worker @ '':'' @ to_string_u64 (we_attempt x)"

definition workflow_ensure_collections :: "('s, 'tx) ibackend \<Rightarrow> ('s, unit) action" where
  "workflow_ensure_collections B =
     ib_ensure_collections B
       [collection_with_keys WorkflowDefinitions [KF_WorkflowDefinition],
        collection_with_keys WorkflowExecutions [KF_WorkflowExecutionId],
        collection_with_keys WorkflowHeartbeats [KF_WorkflowHeartbeat]]"

definition workflow_inspect_definitionTx ::
    "'tx itransaction \<Rightarrow> string \<Rightarrow> 64 word \<Rightarrow> ('tx, workflow_definition option) action" where
  "workflow_inspect_definitionTx I workflow_name workflow_version =
     bindM (it_get I WorkflowDefinitions (workflow_definition_key workflow_name workflow_version)) (\<lambda>record.
       case record of
         None \<Rightarrow> returnM None
       | Some r \<Rightarrow> liftM (map_sum id Some (workflow_definition_from_json (vr_document r))))"

definition workflow_register_definitionTx ::
    "'tx itransaction \<Rightarrow> workflow_definition \<Rightarrow> ('tx, workflow_definition_registration) action" where
  "workflow_register_definitionTx I d =
     bindM (workflow_inspect_definitionTx I (wd_workflow_name d) (wd_workflow_version d)) (\<lambda>existing.
     bindM (liftM (workflow_definition_to_json d)) (\<lambda>j.
     bindM (it_put I WorkflowDefinitions
         (workflow_definition_key (wd_workflow_name d) (wd_workflow_version d)) j) (\<lambda>_.
       returnM \<lparr>wdr_definition = d, wdr_created = (existing = None)\<rparr>)))"

definition workflow_inspectTx ::
    "'tx itransaction \<Rightarrow> string \<Rightarrow> ('tx, workflow_execution option) action" where
  "workflow_inspectTx I workflow_execution_id =
     bindM (it_get I WorkflowExecutions workflow_execution_id) (\<lambda>record.
       case record of
         None \<Rightarrow> returnM None
       | Some r \<Rightarrow> liftM (map_sum id Some (workflow_execution_from_json (vr_document r))))"

definition put_execution :: "'tx itransaction \<Rightarrow> workflow_execution \<Rightarrow> ('tx, unit) action" where
  "put_execution I x =
     bindM (liftM (workflow_execution_to_json x)) (\<lambda>j. it_put I WorkflowExecutions (we_workflow_execution_id x) j)"

definition new_execution :: "start_request \<Rightarrow> workflow_execution" where
  "new_execution q =
     \<lparr>we_workflow_execution_id = sw_workflow_execution_id q, we_workflow_name = sw_workflow_name q,
      we_workflow_version = sw_workflow_version q, we_current_step = sw_start_step q, we_status = ''Running'',
      we_attempt = 0, we_claimed_by = None, we_claim_token = None, we_claim_expires_at = None,
      we_state = sw_state q\<rparr>"

definition workflow_startTx :: "'tx itransaction \<Rightarrow> start_request \<Rightarrow> ('tx, workflow_execution) action" where
  "workflow_startTx I q =
     bindM (workflow_inspectTx I (sw_workflow_execution_id q)) (\<lambda>existing.
       case existing of
         Some x \<Rightarrow> returnM x
       | None \<Rightarrow> bindM (put_execution I (new_execution q)) (\<lambda>_. returnM (new_execution q)))"

definition all_executions :: "'tx itransaction \<Rightarrow> ('tx, workflow_execution list) action" where
  "all_executions I =
     bindM (it_query I WorkflowExecutions query_all) (\<lambda>records.
       liftM (map_result (\<lambda>r. workflow_execution_from_json (vr_document r)) records))"

definition require_execution :: "'tx itransaction \<Rightarrow> string \<Rightarrow> ('tx, workflow_execution) action" where
  "require_execution I workflow_execution_id =
     bindM (workflow_inspectTx I workflow_execution_id) (\<lambda>execution.
       case execution of
         None \<Rightarrow> throwM (BackendError (''unknown workflow execution: '' @ workflow_execution_id))
       | Some x \<Rightarrow> returnM x)"

definition put_heartbeat :: "'tx itransaction \<Rightarrow> workflow_execution \<Rightarrow> string \<Rightarrow> timestamp \<Rightarrow> ('tx, unit) action" where
  "put_heartbeat I x worker expires =
     (let token = (case we_claim_token x of None \<Rightarrow> '''' | Some t \<Rightarrow> t) in
      bindM (liftM (workflow_heartbeat_to_json
         \<lparr>wh_workflow_execution_id = we_workflow_execution_id x, wh_claim_token = token, wh_worker = worker,
          wh_current_step = we_current_step x, wh_claim_expires_at = expires\<rparr>)) (\<lambda>j.
        it_put I WorkflowHeartbeats (heartbeat_key (we_workflow_execution_id x) token) j))"

definition erase_heartbeat :: "'tx itransaction \<Rightarrow> string \<Rightarrow> string option \<Rightarrow> ('tx, unit) action" where
  "erase_heartbeat I workflow_execution_id claim_token =
     (case claim_token of
        None \<Rightarrow> returnM ()
      | Some t \<Rightarrow> it_erase I WorkflowHeartbeats (heartbeat_key workflow_execution_id t))"

definition claim_held :: "workflow_execution \<Rightarrow> string \<Rightarrow> string \<Rightarrow> string \<Rightarrow> bool" where
  "claim_held x worker step claim_token \<longleftrightarrow>
     we_claimed_by x = Some worker \<and> we_current_step x = step \<and> we_claim_token x = Some claim_token"

definition require_claim :: "workflow_execution \<Rightarrow> string \<Rightarrow> string \<Rightarrow> string \<Rightarrow> unit result" where
  "require_claim x worker step claim_token =
     (if \<not> claim_held x worker step claim_token
      then Inl (ConflictError WorkflowClaimConflict ''workflow step is not claimed by caller'')
      else Inr ())"

subsection \<open>Claim\<close>

definition step_visible :: "claim_step_request \<Rightarrow> workflow_execution \<Rightarrow> bool" where
  "step_visible q x =
     (if (cw_workflow_execution_id q \<noteq> '''' \<and> we_workflow_execution_id x \<noteq> cw_workflow_execution_id q) \<or>
         we_workflow_name x \<noteq> cw_workflow_name q \<or> we_workflow_version x \<noteq> cw_workflow_version q \<or>
         we_status x \<noteq> ''Running''
      then False
      else we_claimed_by x = None \<or>
        (case we_claim_expires_at x of None \<Rightarrow> False | Some t \<Rightarrow> sint t \<le> sint (cw_now q)))"

definition claimed_step :: "claim_step_request \<Rightarrow> timestamp \<Rightarrow> workflow_execution \<Rightarrow> workflow_execution" where
  "claimed_step q expires x =
     (let x' = x\<lparr>we_claimed_by := Some (cw_worker q), we_claim_expires_at := Some expires,
                 we_attempt := we_attempt x + 1\<rparr>
      in x'\<lparr>we_claim_token := Some (claim_token_for x' (cw_worker q))\<rparr>)"

fun claim_steps_loop ::
    "'tx itransaction \<Rightarrow> claim_step_request \<Rightarrow> workflow_execution list \<Rightarrow> workflow_execution list \<Rightarrow>
     ('tx, workflow_execution list) action" where
  "claim_steps_loop I q [] claimed = returnM claimed"
| "claim_steps_loop I q (x # xs) claimed =
     (if length claimed \<ge> unat (cw_max_steps q) then returnM claimed
      else if \<not> step_visible q x then claim_steps_loop I q xs claimed
      else
        bindM (liftM (add_seconds (cw_now q) (cw_lease_duration q))) (\<lambda>expires.
        let x' = claimed_step q expires x in
        bindM (put_execution I x') (\<lambda>_.
        bindM (put_heartbeat I x' (cw_worker q) expires) (\<lambda>_.
          claim_steps_loop I q xs (claimed @ [x'])))))"

definition workflow_claim_stepsTx ::
    "'tx itransaction \<Rightarrow> claim_step_request \<Rightarrow> ('tx, workflow_execution list) action" where
  "workflow_claim_stepsTx I q = bindM (all_executions I) (\<lambda>executions. claim_steps_loop I q executions [])"

subsection \<open>Keep alive, complete, fail, cancel\<close>

definition workflow_keep_alive_stepTx ::
    "'tx itransaction \<Rightarrow> keep_alive_request \<Rightarrow> ('tx, workflow_execution) action" where
  "workflow_keep_alive_stepTx I q =
     bindM (require_execution I (ka_workflow_execution_id q)) (\<lambda>x.
     bindM (liftM (require_claim x (ka_worker q) (ka_current_step q) (ka_claim_token q))) (\<lambda>_.
     bindM (liftM (add_seconds (ka_now q) (ka_lease_duration q))) (\<lambda>expires.
     bindM (put_heartbeat I x (ka_worker q) expires) (\<lambda>_.
       returnM (x\<lparr>we_claim_expires_at := Some expires\<rparr>)))))"

definition unclaimed :: "workflow_execution \<Rightarrow> workflow_execution" where
  "unclaimed x = x\<lparr>we_claimed_by := None, we_claim_token := None, we_claim_expires_at := None\<rparr>"

definition completed_step :: "complete_request \<Rightarrow> workflow_execution \<Rightarrow> workflow_execution" where
  "completed_step q x =
     (let x' = (unclaimed x)\<lparr>we_state := co_state q\<rparr> in
      case co_next_step q of
        Some step \<Rightarrow> x'\<lparr>we_current_step := step, we_status := ''Running''\<rparr>
      | None \<Rightarrow> x'\<lparr>we_status := ''Completed''\<rparr>)"

definition failed_step :: "fail_step_request \<Rightarrow> workflow_execution \<Rightarrow> workflow_execution" where
  "failed_step q x =
     (unclaimed x)\<lparr>we_status := (if we_attempt x \<ge> u32_to_i64 (fa_max_attempts q) then ''Failed'' else ''Running'')\<rparr>"

definition canceled :: "workflow_execution \<Rightarrow> workflow_execution" where
  "canceled x = (unclaimed x)\<lparr>we_status := ''Canceled''\<rparr>"

definition workflow_complete_stepTx ::
    "'tx itransaction \<Rightarrow> complete_request \<Rightarrow> ('tx, workflow_execution) action" where
  "workflow_complete_stepTx I q =
     bindM (require_execution I (co_workflow_execution_id q)) (\<lambda>x.
     bindM (liftM (require_claim x (co_worker q) (co_completed_step q) (co_claim_token q))) (\<lambda>_.
     bindM (put_execution I (completed_step q x)) (\<lambda>_.
     bindM (erase_heartbeat I (co_workflow_execution_id q) (we_claim_token x)) (\<lambda>_.
       returnM (completed_step q x)))))"

definition workflow_fail_stepTx ::
    "'tx itransaction \<Rightarrow> fail_step_request \<Rightarrow> ('tx, workflow_execution) action" where
  "workflow_fail_stepTx I q =
     bindM (require_execution I (fa_workflow_execution_id q)) (\<lambda>x.
     bindM (liftM (require_claim x (fa_worker q) (fa_failed_step q) (fa_claim_token q))) (\<lambda>_.
     bindM (put_execution I (failed_step q x)) (\<lambda>_.
     bindM (erase_heartbeat I (fa_workflow_execution_id q) (we_claim_token x)) (\<lambda>_.
       returnM (failed_step q x)))))"

definition workflow_cancelTx :: "'tx itransaction \<Rightarrow> cancel_request \<Rightarrow> ('tx, workflow_execution) action" where
  "workflow_cancelTx I q =
     bindM (require_execution I (ca_workflow_execution_id q)) (\<lambda>x.
     bindM (put_execution I (canceled x)) (\<lambda>_.
     bindM (erase_heartbeat I (ca_workflow_execution_id q) (we_claim_token x)) (\<lambda>_.
       returnM (canceled x))))"

subsection \<open>The methods that manage their own transaction\<close>

definition workflow_register_definition ::
    "('s, 'tx) ibackend \<Rightarrow> workflow_definition \<Rightarrow> ('s, workflow_definition_registration) action" where
  "workflow_register_definition B d =
     bindM (workflow_ensure_collections B) (\<lambda>_. managed B (workflow_register_definitionTx (ib_tx B) d))"

definition workflow_inspect_definition ::
    "('s, 'tx) ibackend \<Rightarrow> string \<Rightarrow> 64 word \<Rightarrow> ('s, workflow_definition option) action" where
  "workflow_inspect_definition B n v = managed B (workflow_inspect_definitionTx (ib_tx B) n v)"

definition workflow_start :: "('s, 'tx) ibackend \<Rightarrow> start_request \<Rightarrow> ('s, workflow_execution) action" where
  "workflow_start B q = bindM (workflow_ensure_collections B) (\<lambda>_. managed B (workflow_startTx (ib_tx B) q))"

definition workflow_claim_steps ::
    "('s, 'tx) ibackend \<Rightarrow> claim_step_request \<Rightarrow> ('s, workflow_execution list) action" where
  "workflow_claim_steps B q = managed B (workflow_claim_stepsTx (ib_tx B) q)"

definition workflow_keep_alive_step ::
    "('s, 'tx) ibackend \<Rightarrow> keep_alive_request \<Rightarrow> ('s, workflow_execution) action" where
  "workflow_keep_alive_step B q = managed B (workflow_keep_alive_stepTx (ib_tx B) q)"

definition workflow_complete_step ::
    "('s, 'tx) ibackend \<Rightarrow> complete_request \<Rightarrow> ('s, workflow_execution) action" where
  "workflow_complete_step B q = managed B (workflow_complete_stepTx (ib_tx B) q)"

definition workflow_fail_step ::
    "('s, 'tx) ibackend \<Rightarrow> fail_step_request \<Rightarrow> ('s, workflow_execution) action" where
  "workflow_fail_step B q = managed B (workflow_fail_stepTx (ib_tx B) q)"

definition workflow_cancel :: "('s, 'tx) ibackend \<Rightarrow> cancel_request \<Rightarrow> ('s, workflow_execution) action" where
  "workflow_cancel B q = managed B (workflow_cancelTx (ib_tx B) q)"

definition workflow_inspect :: "('s, 'tx) ibackend \<Rightarrow> string \<Rightarrow> ('s, workflow_execution option) action" where
  "workflow_inspect B i = managed B (workflow_inspectTx (ib_tx B) i)"

section \<open>The table of executions\<close>

abbreviation execution_table :: "doc_view \<Rightarrow> string \<rightharpoonup> workflow_execution" where
  "execution_table \<equiv> doc_table WorkflowExecutions workflow_execution_from_json"

abbreviation executions_ok :: "doc_view \<Rightarrow> bool" where
  "executions_ok \<equiv> table_ok WorkflowExecutions workflow_execution_from_json we_workflow_execution_id"

abbreviation execution_document :: "workflow_execution \<Rightarrow> json" where
  "execution_document x \<equiv> projr (workflow_execution_to_json x)"

lemma workflow_collections_plain [simp]:
  "plain_name WorkflowDefinitions" "plain_name WorkflowExecutions" "plain_name WorkflowHeartbeats"
  "WorkflowDefinitions \<noteq> WorkflowExecutions" "WorkflowExecutions \<noteq> WorkflowDefinitions"
  "WorkflowHeartbeats \<noteq> WorkflowExecutions" "WorkflowExecutions \<noteq> WorkflowHeartbeats"
  by (simp_all add: plain_name_def collection_names)

lemma workflow_execution_decoded_norm:
  "workflow_execution_from_json j = Inr x \<Longrightarrow> workflow_execution_norm x = x"
  by (auto simp: workflow_execution_from_json_def andThen_Inr_iff workflow_execution_norm_def optional_timestamp_cut)

interpretation executions: document_table workflow_execution_to_json workflow_execution_from_json
  workflow_execution_norm WorkflowExecutions we_workflow_execution_id
  by unfold_locales (simp_all add: workflow_execution_decoded_norm, simp add: workflow_execution_norm_def)

lemmas workflow_execution_norm_id [simp] = executions.ident_norm

lemma step_results_id [simp]:
  "we_workflow_execution_id (new_execution s) = sw_workflow_execution_id s"
  "we_workflow_execution_id (claimed_step q t x) = we_workflow_execution_id x"
  "we_workflow_execution_id (completed_step c x) = we_workflow_execution_id x"
  "we_workflow_execution_id (failed_step f x) = we_workflow_execution_id x"
  "we_workflow_execution_id (canceled x) = we_workflow_execution_id x"
  by (simp_all add: new_execution_def claimed_step_def completed_step_def failed_step_def canceled_def unclaimed_def
      Let_def split: option.split)

text \<open>Results without a deadline are in normal form.\<close>

lemma step_results_norm [simp]:
  "workflow_execution_norm (new_execution s) = new_execution s"
  "workflow_execution_norm (completed_step c x) = completed_step c x"
  "workflow_execution_norm (failed_step f x) = failed_step f x"
  "workflow_execution_norm (canceled x) = canceled x"
  by (simp_all add: workflow_execution_norm_def new_execution_def completed_step_def failed_step_def canceled_def
      unclaimed_def Let_def split: option.split)

subsection \<open>The methods over the map\<close>

lemma view_put_execution [simp]:
  "put_execution view_transaction x v =
     (Inr (), view_put WorkflowExecutions (we_workflow_execution_id x) (execution_document x) v)"
  using executions.encodes(1) [of x] by (cases "workflow_execution_to_json x") (simp_all add: put_execution_def)

lemma view_put_heartbeat:
  "\<exists>k j. put_heartbeat view_transaction x worker expires v = (Inr (), view_put WorkflowHeartbeats k j v)"
proof -
  obtain j where "workflow_heartbeat_to_json \<lparr>wh_workflow_execution_id = we_workflow_execution_id x,
      wh_claim_token = (case we_claim_token x of None \<Rightarrow> '''' | Some t \<Rightarrow> t), wh_worker = worker,
      wh_current_step = we_current_step x, wh_claim_expires_at = expires\<rparr> = Inr j"
    using workflow_heartbeat.enc_total [OF TrueI] by blast
  then show ?thesis
    by (auto simp: put_heartbeat_def Let_def)
qed

lemma view_erase_heartbeat:
  "\<exists>v'. erase_heartbeat view_transaction i token v = (Inr (), v') \<and> v' WorkflowExecutions = v WorkflowExecutions"
  by (cases token) (simp_all add: erase_heartbeat_def view_erase_def)

lemma view_workflow_inspect:
  "executions_ok v \<Longrightarrow> workflow_inspectTx view_transaction k v = (Inr (execution_table v k), v)"
  using executions.lookup [of v k] by (cases "v WorkflowExecutions k") (simp_all add: workflow_inspectTx_def)

lemma view_require_execution:
  "executions_ok v \<Longrightarrow> require_execution view_transaction k v =
     ((case execution_table v k of
         None \<Rightarrow> Inl (BackendError (''unknown workflow execution: '' @ k)) | Some x \<Rightarrow> Inr x), v)"
  by (simp add: require_execution_def bindM_def view_workflow_inspect split: option.split)

lemma view_start:
  "executions_ok v \<Longrightarrow> workflow_startTx view_transaction q v =
    (case execution_table v (sw_workflow_execution_id q) of
       Some x \<Rightarrow> (Inr x, v)
     | None \<Rightarrow> (Inr (new_execution q),
         view_put WorkflowExecutions (sw_workflow_execution_id q) (execution_document (new_execution q)) v))"
  by (simp add: workflow_startTx_def bindM_def view_workflow_inspect split: option.split)

text \<open>The three methods that settle an execution share their shape: find it, check it, store the
  result, erase the heartbeat.\<close>

definition settles ::
    "(doc_view, workflow_execution) action \<Rightarrow> string \<Rightarrow> (workflow_execution \<Rightarrow> unit result) \<Rightarrow>
     (workflow_execution \<Rightarrow> workflow_execution) \<Rightarrow> bool" where
  "settles a k check f \<longleftrightarrow>
     (\<forall>v. executions_ok v \<longrightarrow> (\<exists>v'. a v =
        (case execution_table v k of
           None \<Rightarrow> (Inl (BackendError (''unknown workflow execution: '' @ k)), v)
         | Some x \<Rightarrow> (case check x of Inl e \<Rightarrow> (Inl e, v) | Inr _ \<Rightarrow> (Inr (f x), v'))) \<and>
        (\<forall>x. execution_table v k = Some x \<longrightarrow>
           v' WorkflowExecutions = view_put WorkflowExecutions k (execution_document (f x)) v WorkflowExecutions)))"

lemma settles_method:
  assumes "\<And>x. we_workflow_execution_id (f x) = we_workflow_execution_id x"
  shows "settles (bindM (require_execution view_transaction k) (\<lambda>x.
     bindM (liftM (check x)) (\<lambda>_.
     bindM (put_execution view_transaction (f x)) (\<lambda>_.
     bindM (erase_heartbeat view_transaction k (token x)) (\<lambda>_. returnM (f x)))))) k check f"
  unfolding settles_def
proof (intro allI impI)
  fix v assume ok: "executions_ok v"
  show "\<exists>v'. bindM (require_execution view_transaction k) (\<lambda>x.
      bindM (liftM (check x)) (\<lambda>_.
      bindM (put_execution view_transaction (f x)) (\<lambda>_.
      bindM (erase_heartbeat view_transaction k (token x)) (\<lambda>_. returnM (f x))))) v =
        (case execution_table v k of
           None \<Rightarrow> (Inl (BackendError (''unknown workflow execution: '' @ k)), v)
         | Some x \<Rightarrow> (case check x of Inl e \<Rightarrow> (Inl e, v) | Inr _ \<Rightarrow> (Inr (f x), v'))) \<and>
        (\<forall>x. execution_table v k = Some x \<longrightarrow>
           v' WorkflowExecutions = view_put WorkflowExecutions k (execution_document (f x)) v WorkflowExecutions)"
  proof (cases "execution_table v k")
    case None
    then show ?thesis by (simp add: bindM_def view_require_execution [OF ok])
  next
    case (Some x)
    have i: "we_workflow_execution_id x = k"
      using executions.table_key [OF ok Some] .
    obtain v' where v': "erase_heartbeat view_transaction k (token x)
          (view_put WorkflowExecutions k (execution_document (f x)) v) = (Inr (), v')"
        "v' WorkflowExecutions = view_put WorkflowExecutions k (execution_document (f x)) v WorkflowExecutions"
      using view_erase_heartbeat by blast
    show ?thesis
      using v' i assms [of x] Some
      by (intro exI [of _ v']) (auto simp: bindM_def view_require_execution [OF ok] split: sum.split)
  qed
qed

lemma view_complete:
  "settles (workflow_complete_stepTx view_transaction q) (co_workflow_execution_id q)
     (\<lambda>x. require_claim x (co_worker q) (co_completed_step q) (co_claim_token q)) (completed_step q)"
  unfolding workflow_complete_stepTx_def by (rule settles_method) simp

lemma view_fail_step:
  "settles (workflow_fail_stepTx view_transaction q) (fa_workflow_execution_id q)
     (\<lambda>x. require_claim x (fa_worker q) (fa_failed_step q) (fa_claim_token q)) (failed_step q)"
  unfolding workflow_fail_stepTx_def by (rule settles_method) simp

lemma view_cancel:
  "settles (workflow_cancelTx view_transaction q) (ca_workflow_execution_id q) (\<lambda>_. Inr ()) canceled"
proof -
  have nocheck: "bindM (liftM (Inr ())) (\<lambda>_. m) = m" for m :: "(doc_view, workflow_execution) action"
    by (rule ext) (simp add: bindM_def liftM_def)
  show ?thesis
    using settles_method [of canceled "ca_workflow_execution_id q" "\<lambda>_. Inr ()" we_claim_token]
    by (simp only: workflow_cancelTx_def nocheck step_results_id simp_thms)
qed

lemma view_keep_alive:
  assumes "executions_ok v"
  shows "\<exists>v'. workflow_keep_alive_stepTx view_transaction q v =
      (case execution_table v (ka_workflow_execution_id q) of
         None \<Rightarrow> (Inl (BackendError (''unknown workflow execution: '' @ ka_workflow_execution_id q)), v)
       | Some x \<Rightarrow>
           (case andThen (require_claim x (ka_worker q) (ka_current_step q) (ka_claim_token q))
                   (\<lambda>_. add_seconds (ka_now q) (ka_lease_duration q)) of
              Inl e \<Rightarrow> (Inl e, v) | Inr expires \<Rightarrow> (Inr (x\<lparr>we_claim_expires_at := Some expires\<rparr>), v'))) \<and>
      v' WorkflowExecutions = v WorkflowExecutions"
proof (cases "execution_table v (ka_workflow_execution_id q)")
  case None
  then show ?thesis by (auto simp: workflow_keep_alive_stepTx_def bindM_def view_require_execution [OF assms])
next
  case (Some x)
  show ?thesis
  proof (cases "andThen (require_claim x (ka_worker q) (ka_current_step q) (ka_claim_token q))
      (\<lambda>_. add_seconds (ka_now q) (ka_lease_duration q))")
    case (Inl e)
    then show ?thesis
      by (cases "require_claim x (ka_worker q) (ka_current_step q) (ka_claim_token q)")
        (auto simp: workflow_keep_alive_stepTx_def bindM_def view_require_execution [OF assms] Some)
  next
    case (Inr expires)
    then have c: "require_claim x (ka_worker q) (ka_current_step q) (ka_claim_token q) = Inr ()"
        "add_seconds (ka_now q) (ka_lease_duration q) = Inr expires"
      by (cases "require_claim x (ka_worker q) (ka_current_step q) (ka_claim_token q)"; simp)+
    obtain k j where h: "put_heartbeat view_transaction x (ka_worker q) expires v = (Inr (), view_put WorkflowHeartbeats k j v)"
      using view_put_heartbeat by blast
    show ?thesis
      by (rule exI [of _ "view_put WorkflowHeartbeats k j v"])
        (simp add: workflow_keep_alive_stepTx_def bindM_def view_require_execution [OF assms] Some c h)
  qed
qed

subsection \<open>Claim over the map\<close>

abbreviation put_executions :: "workflow_execution list \<Rightarrow> doc_view \<Rightarrow> doc_view" where
  "put_executions \<equiv> put_docs_of WorkflowExecutions workflow_execution_to_json we_workflow_execution_id"

lemma put_executions_cong:
  "v WorkflowExecutions = w WorkflowExecutions \<Longrightarrow>
   put_executions xs v WorkflowExecutions = put_executions xs w WorkflowExecutions"
proof (induction xs arbitrary: v w)
  case (Cons x xs)
  have same: "view_put WorkflowExecutions k j v WorkflowExecutions = view_put WorkflowExecutions k j w WorkflowExecutions"
    for k j
    using Cons.prems by (simp add: view_put_def)
  show ?case
    unfolding put_docs_of.simps by (rule Cons.IH, rule same)
qed simp

lemma view_claim_steps_loop:
  assumes "add_seconds (cw_now q) (cw_lease_duration q) = Inr expires"
    and "length claimed \<le> unat (cw_max_steps q)"
  shows "\<exists>v'. claim_steps_loop view_transaction q xs claimed v = (Inr (claimed @
      map (claimed_step q expires) (take (unat (cw_max_steps q) - length claimed) (filter (step_visible q) xs))), v') \<and>
    v' WorkflowExecutions = put_executions
      (map (claimed_step q expires) (take (unat (cw_max_steps q) - length claimed) (filter (step_visible q) xs))) v
      WorkflowExecutions"
  using assms(2)
proof (induction xs arbitrary: claimed v)
  case (Cons x xs)
  show ?case
  proof (cases "length claimed \<ge> unat (cw_max_steps q) \<or> \<not> step_visible q x")
    case True
    then show ?thesis using Cons by auto
  next
    case False
    then have "length claimed < unat (cw_max_steps q)" by simp
    then have n: "unat (cw_max_steps q) - length claimed = Suc (unat (cw_max_steps q) - Suc (length claimed))"
      by linarith
    let ?x = "claimed_step q expires x"
    let ?v1 = "view_put WorkflowExecutions (we_workflow_execution_id ?x) (execution_document ?x) v"
    obtain k j where h: "put_heartbeat view_transaction ?x (cw_worker q) expires ?v1 =
        (Inr (), view_put WorkflowHeartbeats k j ?v1)"
      using view_put_heartbeat by blast
    let ?v2 = "view_put WorkflowHeartbeats k j ?v1"
    have same: "put_executions ys ?v2 WorkflowExecutions = put_executions ys ?v1 WorkflowExecutions" for ys
      by (rule put_executions_cong, rule view_put_collection(2)) simp
    have len: "length (claimed @ [?x]) \<le> unat (cw_max_steps q)"
      using \<open>length claimed < unat (cw_max_steps q)\<close> by simp
    obtain v' where v': "claim_steps_loop view_transaction q xs (claimed @ [?x]) ?v2 = (Inr ((claimed @ [?x]) @
        map (claimed_step q expires) (take (unat (cw_max_steps q) - length (claimed @ [?x])) (filter (step_visible q) xs))), v')"
        "v' WorkflowExecutions = put_executions
          (map (claimed_step q expires) (take (unat (cw_max_steps q) - length (claimed @ [?x])) (filter (step_visible q) xs)))
          ?v2 WorkflowExecutions"
      using Cons.IH [of "claimed @ [?x]" ?v2, OF len] by blast
    show ?thesis
      using False v' h assms(1) by (intro exI [of _ v']) (simp add: bindM_def Let_def n same [unfolded step_results_id] del: view_put_apply)
  qed
qed simp

lemma view_claim_steps_overflow:
  assumes "add_seconds (cw_now q) (cw_lease_duration q) = Inl e"
  shows "claim_steps_loop view_transaction q xs [] v =
    (if unat (cw_max_steps q) = 0 \<or> filter (step_visible q) xs = [] then (Inr [], v) else (Inl e, v))"
  using assms by (induction xs) (auto simp: bindM_def)

section \<open>The store over any transaction\<close>

context occ_transaction
begin

lemma refines_workflow_inspect [refine_intros]:
  "names WorkflowExecutions \<Longrightarrow> refines usable view (workflow_inspectTx I k) (workflow_inspectTx view_transaction k)"
  unfolding workflow_inspectTx_def by (rule refines_get) (auto intro: refine_intros)

lemma refines_workflow_inspect_definition [refine_intros]:
  "names WorkflowDefinitions \<Longrightarrow>
   refines usable view (workflow_inspect_definitionTx I a b) (workflow_inspect_definitionTx view_transaction a b)"
  unfolding workflow_inspect_definitionTx_def by (rule refines_get) (auto intro: refine_intros)

lemma refines_workflow_register [refine_intros]:
  "names WorkflowDefinitions \<Longrightarrow>
   refines usable view (workflow_register_definitionTx I d) (workflow_register_definitionTx view_transaction d)"
  unfolding workflow_register_definitionTx_def by (intro refine_intros refines_bindM)

lemma refines_put_execution [refine_intros]:
  "names WorkflowExecutions \<Longrightarrow> refines usable view (put_execution I x) (put_execution view_transaction x)"
  unfolding put_execution_def by (intro refine_intros refines_bindM)

lemma refines_put_heartbeat [refine_intros]:
  "names WorkflowHeartbeats \<Longrightarrow> refines usable view (put_heartbeat I x w t) (put_heartbeat view_transaction x w t)"
  unfolding put_heartbeat_def by (intro refine_intros refines_bindM)

lemma refines_erase_heartbeat [refine_intros]:
  "names WorkflowHeartbeats \<Longrightarrow> refines usable view (erase_heartbeat I i t) (erase_heartbeat view_transaction i t)"
  unfolding erase_heartbeat_def by (intro refine_intros)

lemma refines_require_execution [refine_intros]:
  "names WorkflowExecutions \<Longrightarrow> refines usable view (require_execution I k) (require_execution view_transaction k)"
  unfolding require_execution_def by (intro refine_intros refines_bindM)

lemma refines_workflow_methods [refine_intros]:
  assumes "names WorkflowExecutions" and "names WorkflowHeartbeats"
  shows "refines usable view (workflow_startTx I st) (workflow_startTx view_transaction st)"
    and "refines usable view (workflow_keep_alive_stepTx I ka) (workflow_keep_alive_stepTx view_transaction ka)"
    and "refines usable view (workflow_complete_stepTx I co) (workflow_complete_stepTx view_transaction co)"
    and "refines usable view (workflow_fail_stepTx I fa) (workflow_fail_stepTx view_transaction fa)"
    and "refines usable view (workflow_cancelTx I ca) (workflow_cancelTx view_transaction ca)"
  unfolding workflow_startTx_def workflow_keep_alive_stepTx_def workflow_complete_stepTx_def
    workflow_fail_stepTx_def workflow_cancelTx_def
  by (intro refine_intros refines_bindM assms)+

lemma refines_claim_steps_loop [refine_intros]:
  "names WorkflowExecutions \<Longrightarrow> names WorkflowHeartbeats \<Longrightarrow>
   refines usable view (claim_steps_loop I q xs claimed) (claim_steps_loop view_transaction q xs claimed)"
  by (induction xs arbitrary: claimed) (auto simp: Let_def intro!: refine_intros refines_bindM)

lemma refines_workflow_claim_steps:
  "names WorkflowExecutions \<Longrightarrow> names WorkflowHeartbeats \<Longrightarrow>
   refines_rel usable view (workflow_claim_stepsTx I q)
     (\<lambda>v r v'. \<exists>es. entries_of (v WorkflowExecutions) es \<and>
        bindM (liftM (map_result (\<lambda>e. workflow_execution_from_json (snd e)) es))
          (\<lambda>xs. claim_steps_loop view_transaction q xs []) v = (r, v'))"
  unfolding workflow_claim_stepsTx_def all_executions_def bindM_assoc
  by (rule refines_rel_query) (auto simp: map_result_map intro!: refine_intros refines_bindM)

end

end
