(* ===== verification/Workflow_Props.thy ===== *)
theory Workflow_Props
  imports Workflow_Store
begin

text \<open>
  The workflow store as a state machine. \<open>execution_step\<close> is the abstract machine: what one command
  may do to the table of executions. Every command on the in-memory backend is a step of it
  (\<open>workflow_refines_machine\<close>), and the properties of runs are proved on the machine.
\<close>

section \<open>The machine\<close>

datatype workflow_command =
    W_Start start_request
  | W_Claim claim_step_request
  | W_Keep_Alive keep_alive_request
  | W_Complete complete_request
  | W_Fail fail_step_request
  | W_Cancel cancel_request

type_synonym executions = "string \<rightharpoonup> workflow_execution"

definition step_claim_spec :: "claim_step_request \<Rightarrow> executions \<Rightarrow> workflow_execution list \<Rightarrow> executions \<Rightarrow> bool" where
  "step_claim_spec q t xs t' \<longleftrightarrow>
     (case add_seconds (cw_now q) (cw_lease_duration q) of
        Inl _ \<Rightarrow> xs = [] \<and> t' = t \<and>
          takes_exactly (unat (cw_max_steps q)) (step_visible q) id workflow_execution_norm we_workflow_execution_id t [] t
      | Inr expires \<Rightarrow>
          takes_exactly (unat (cw_max_steps q)) (step_visible q) (claimed_step q expires)
            workflow_execution_norm we_workflow_execution_id t xs t')"

inductive execution_step :: "executions \<Rightarrow> workflow_command \<Rightarrow> workflow_execution list \<Rightarrow> executions \<Rightarrow> bool" where
  Refused: "execution_step t cmd [] t"
| Started: "t (sw_workflow_execution_id q) = None \<Longrightarrow>
    execution_step t (W_Start q) [] (t(sw_workflow_execution_id q \<mapsto> new_execution q))"
| Claimed: "step_claim_spec q t xs t' \<Longrightarrow> execution_step t (W_Claim q) xs t'"
| Completed: "t (co_workflow_execution_id q) = Some x \<Longrightarrow>
    claim_held x (co_worker q) (co_completed_step q) (co_claim_token q) \<Longrightarrow>
    execution_step t (W_Complete q) [] (t(co_workflow_execution_id q \<mapsto> completed_step q x))"
| Failed: "t (fa_workflow_execution_id q) = Some x \<Longrightarrow>
    claim_held x (fa_worker q) (fa_failed_step q) (fa_claim_token q) \<Longrightarrow>
    execution_step t (W_Fail q) [] (t(fa_workflow_execution_id q \<mapsto> failed_step q x))"
| Canceled: "t (ca_workflow_execution_id q) = Some x \<Longrightarrow>
    execution_step t (W_Cancel q) [] (t(ca_workflow_execution_id q \<mapsto> canceled x))"

lemma step_claim_untouched:
  assumes "step_claim_spec q t xs t'" and "t k = Some x" and "\<not> step_visible q x"
  shows "t' k = Some x" and "k \<notin> we_workflow_execution_id ` set xs"
  using assms by (auto simp: step_claim_spec_def dest: takes_exactly_untouched split: sum.splits)

lemma step_claim_others: "step_claim_spec q t xs t' \<Longrightarrow> k \<notin> we_workflow_execution_id ` set xs \<Longrightarrow> t' k = t k"
  by (auto simp: step_claim_spec_def takes_exactly_def split: sum.splits)

lemma step_claimD:
  assumes "step_claim_spec q t xs t'" and "x \<in> set xs"
  obtains x0 expires where "add_seconds (cw_now q) (cw_lease_duration q) = Inr expires"
    and "t (we_workflow_execution_id x) = Some x0" and "step_visible q x0" and "x = claimed_step q expires x0"
    and "t' (we_workflow_execution_id x) = Some (workflow_execution_norm x)"
  using assms by (force simp: step_claim_spec_def takes_exactly_def split: sum.splits)

lemma step_claim_complete:
  assumes "step_claim_spec q t xs t'" and "length xs < unat (cw_max_steps q)" and "t k = Some x" and "step_visible q x"
  shows "k \<in> we_workflow_execution_id ` set xs"
  using assms by (force simp: step_claim_spec_def takes_exactly_def split: sum.splits)

text \<open>What one step does to one execution.\<close>

lemma execution_step_cases:
  assumes "execution_step t cmd xs t'" and "t k = Some x"
  obtains (Same) "t' k = Some x" and "k \<notin> we_workflow_execution_id ` set xs"
    | (Claim) q expires where "cmd = W_Claim q" and "step_visible q x"
        and "t' k = Some (workflow_execution_norm (claimed_step q expires x))"
        and "claimed_step q expires x \<in> set xs" and "we_workflow_execution_id (claimed_step q expires x) = k"
    | (Complete) q where "cmd = W_Complete q" and "co_workflow_execution_id q = k" and "xs = []"
        and "claim_held x (co_worker q) (co_completed_step q) (co_claim_token q)" and "t' k = Some (completed_step q x)"
    | (Fail) q where "cmd = W_Fail q" and "fa_workflow_execution_id q = k" and "xs = []"
        and "claim_held x (fa_worker q) (fa_failed_step q) (fa_claim_token q)" and "t' k = Some (failed_step q x)"
    | (Cancel) q where "cmd = W_Cancel q" and "ca_workflow_execution_id q = k" and "xs = []" and "t' k = Some (canceled x)"
  using assms(1)
proof cases
  case (Claimed q)
  show ?thesis
  proof (cases "k \<in> we_workflow_execution_id ` set xs")
    case True
    then obtain y where y: "y \<in> set xs" "we_workflow_execution_id y = k" by blast
    obtain e x0 where "add_seconds (cw_now q) (cw_lease_duration q) = Inr e"
        "t (we_workflow_execution_id y) = Some x0" "step_visible q x0" "y = claimed_step q e x0"
        "t' (we_workflow_execution_id y) = Some (workflow_execution_norm y)"
      by (rule step_claimD [OF Claimed(2) y(1)])
    moreover from this have "x0 = x" using y(2) assms(2) by simp
    ultimately show ?thesis
      using that(2) [OF Claimed(1), of e] y by simp
  next
    case False
    then show ?thesis using that(1) step_claim_others [OF Claimed(2)] assms(2) by simp
  qed
next
  case (Started q)
  then have "sw_workflow_execution_id q \<noteq> k" using assms(2) by auto
  then show ?thesis using that(1) Started assms(2) by simp
next
  case (Completed q y)
  then show ?thesis
    using that(1,3) assms(2) by (cases "co_workflow_execution_id q = k") auto
next
  case (Failed q y)
  then show ?thesis
    using that(1,4) assms(2) by (cases "fa_workflow_execution_id q = k") auto
next
  case (Canceled q y)
  then show ?thesis
    using that(1,5) assms(2) by (cases "ca_workflow_execution_id q = k") auto
qed (use that(1) assms(2) in simp)

lemma execution_step_persists: "execution_step t cmd xs t' \<Longrightarrow> t k = Some x \<Longrightarrow> \<exists>x'. t' k = Some x'"
  by (erule execution_step_cases) auto

section \<open>The methods refine the machine\<close>

abbreviation stored_executions :: "in_memory_state \<Rightarrow> executions" where
  "stored_executions s \<equiv> execution_table (committed_docs s)"

abbreviation workflow_state_ok :: "in_memory_state \<Rightarrow> bool" where
  "workflow_state_ok s \<equiv> state_ok s \<and> executions_ok (committed_docs s)"

lemma settles_cases:
  assumes ok: "workflow_state_ok s" and a: "settles a k check f"
    and f: "\<And>x. we_workflow_execution_id (f x) = we_workflow_execution_id x" "\<And>x. workflow_execution_norm (f x) = f x"
    and ref: "refines (\<lambda>m. usable m \<and> fst m = s) mem_view m a"
    and run: "managed in_memory_backend m s = (r, s')"
  obtains (Settled) x where "stored_executions s k = Some x" and "check x = Inr ()" and "r = Inr (f x)"
      and "workflow_state_ok s'" and "stored_executions s' = (stored_executions s)(k \<mapsto> f x)"
    | (Fails) e where "r = Inl e" and "s' = s"
proof -
  have ok': "state_ok s" "executions_ok (committed_docs s)" using ok by simp_all
  obtain v' where v': "a (committed_docs s) =
        (case stored_executions s k of
           None \<Rightarrow> (Inl (BackendError (''unknown workflow execution: '' @ k)), committed_docs s)
         | Some x \<Rightarrow> (case check x of Inl e \<Rightarrow> (Inl e, committed_docs s) | Inr _ \<Rightarrow> (Inr (f x), v')))"
      "\<And>x. stored_executions s k = Some x \<Longrightarrow> v' WorkflowExecutions =
        view_put WorkflowExecutions k (execution_document (f x)) (committed_docs s) WorkflowExecutions"
    using a ok'(2) unfolding settles_def by blast
  from ok'(1) workflow_collections_plain(2) ref run show ?thesis
  proof (cases rule: executions.managed_cases)
    case (Commits y)
    obtain x where x: "stored_executions s k = Some x" "check x = Inr ()"
      using Commits(1) v'(1) by (auto split: option.splits sum.splits)
    have k: "k = we_workflow_execution_id (f x)"
      using executions.table_key [OF ok'(2) x(1)] f(1) by simp
    have "execution_table v' = execution_table
        (view_put WorkflowExecutions (we_workflow_execution_id (f x)) (execution_document (f x)) (committed_docs s))"
      by (rule executions.table_cong) (use v'(2) [OF x(1)] k in simp)
    moreover have "executions_ok v' = executions_ok
        (view_put WorkflowExecutions (we_workflow_execution_id (f x)) (execution_document (f x)) (committed_docs s))"
      by (rule executions.ok_cong) (use v'(2) [OF x(1)] k in simp)
    ultimately show ?thesis
      using Settled [OF x] Commits v'(1) x executions.put_table executions.put_ok [OF ok'(2)] f(2) k by simp
  qed (use Fails in auto)
qed

lemma settles_rejected:
  assumes "workflow_state_ok s" and "settles a k check f" and "stored_executions s k = Some x" and "check x = Inl e"
    and "refines (\<lambda>m. usable m \<and> fst m = s) mem_view m a"
  shows "managed in_memory_backend m s = (Inl e, s)"
proof -
  have ok: "state_ok s" "executions_ok (committed_docs s)" using assms(1) by simp_all
  obtain v' where "a (committed_docs s) = (case stored_executions s k of
         None \<Rightarrow> (Inl (BackendError (''unknown workflow execution: '' @ k)), committed_docs s)
       | Some x \<Rightarrow> (case check x of Inl e \<Rightarrow> (Inl e, committed_docs s) | Inr _ \<Rightarrow> (Inr (f x), v')))"
    using assms(2) ok(2) unfolding settles_def by blast
  then have a: "fst (a (committed_docs s)) = Inl e" using assms(3,4) by simp
  obtain r s' where run: "managed in_memory_backend m s = (r, s')" using surjective_pairing by blast
  from ok(1) assms(5) run show ?thesis
    by (cases rule: managed_memory_cases) (use a run in simp_all)
qed

lemma workflow_complete_cases:
  assumes "workflow_state_ok s" and "workflow_complete_step in_memory_backend q s = (r, s')"
  obtains (Settled) x where "stored_executions s (co_workflow_execution_id q) = Some x"
      and "claim_held x (co_worker q) (co_completed_step q) (co_claim_token q)"
      and "r = Inr (completed_step q x)" and "workflow_state_ok s'"
      and "stored_executions s' = (stored_executions s)(co_workflow_execution_id q \<mapsto> completed_step q x)"
    | (Fails) e where "r = Inl e" and "s' = s"
proof -
  have ref: "refines (\<lambda>m. usable m \<and> fst m = s) mem_view (workflow_complete_stepTx memory_transaction q)
      (workflow_complete_stepTx view_transaction q)"
    by (rule memory_at.refines_workflow_methods(3)) simp_all
  have run: "managed in_memory_backend (workflow_complete_stepTx memory_transaction q) s = (r, s')"
    using assms(2) by (simp add: workflow_complete_step_def)
  from assms(1) view_complete step_results_id(3) step_results_norm(2) ref run show ?thesis
    by (cases rule: settles_cases) (use that in \<open>auto simp: require_claim_def split: if_splits\<close>)
qed

lemma workflow_fail_cases:
  assumes "workflow_state_ok s" and "workflow_fail_step in_memory_backend q s = (r, s')"
  obtains (Settled) x where "stored_executions s (fa_workflow_execution_id q) = Some x"
      and "claim_held x (fa_worker q) (fa_failed_step q) (fa_claim_token q)"
      and "r = Inr (failed_step q x)" and "workflow_state_ok s'"
      and "stored_executions s' = (stored_executions s)(fa_workflow_execution_id q \<mapsto> failed_step q x)"
    | (Fails) e where "r = Inl e" and "s' = s"
proof -
  have ref: "refines (\<lambda>m. usable m \<and> fst m = s) mem_view (workflow_fail_stepTx memory_transaction q)
      (workflow_fail_stepTx view_transaction q)"
    by (rule memory_at.refines_workflow_methods(4)) simp_all
  have run: "managed in_memory_backend (workflow_fail_stepTx memory_transaction q) s = (r, s')"
    using assms(2) by (simp add: workflow_fail_step_def)
  from assms(1) view_fail_step step_results_id(4) step_results_norm(3) ref run show ?thesis
    by (cases rule: settles_cases) (use that in \<open>auto simp: require_claim_def split: if_splits\<close>)
qed

lemma workflow_cancel_cases:
  assumes "workflow_state_ok s" and "workflow_cancel in_memory_backend q s = (r, s')"
  obtains (Settled) x where "stored_executions s (ca_workflow_execution_id q) = Some x"
      and "r = Inr (canceled x)" and "workflow_state_ok s'"
      and "stored_executions s' = (stored_executions s)(ca_workflow_execution_id q \<mapsto> canceled x)"
    | (Fails) e where "r = Inl e" and "s' = s"
proof -
  have ref: "refines (\<lambda>m. usable m \<and> fst m = s) mem_view (workflow_cancelTx memory_transaction q)
      (workflow_cancelTx view_transaction q)"
    by (rule memory_at.refines_workflow_methods(5)) simp_all
  have run: "managed in_memory_backend (workflow_cancelTx memory_transaction q) s = (r, s')"
    using assms(2) by (simp add: workflow_cancel_def)
  from assms(1) view_cancel step_results_id(5) step_results_norm(4) ref run show ?thesis
    by (cases rule: settles_cases) (use that in auto)
qed

lemma workflow_keep_alive_cases:
  assumes "workflow_state_ok s" and "workflow_keep_alive_step in_memory_backend q s = (r, s')"
  obtains (Kept) x expires where "stored_executions s (ka_workflow_execution_id q) = Some x"
      and "claim_held x (ka_worker q) (ka_current_step q) (ka_claim_token q)"
      and "add_seconds (ka_now q) (ka_lease_duration q) = Inr expires"
      and "r = Inr (x\<lparr>we_claim_expires_at := Some expires\<rparr>)" and "workflow_state_ok s'"
      and "stored_executions s' = stored_executions s"
    | (Fails) e where "r = Inl e" and "s' = s"
proof -
  have ref: "refines (\<lambda>m. usable m \<and> fst m = s) mem_view (workflow_keep_alive_stepTx memory_transaction q)
      (workflow_keep_alive_stepTx view_transaction q)"
    by (rule memory_at.refines_workflow_methods(2)) simp_all
  have run: "managed in_memory_backend (workflow_keep_alive_stepTx memory_transaction q) s = (r, s')"
    using assms(2) by (simp add: workflow_keep_alive_step_def)
  obtain v' where v': "workflow_keep_alive_stepTx view_transaction q (committed_docs s) =
      (case stored_executions s (ka_workflow_execution_id q) of
         None \<Rightarrow> (Inl (BackendError (''unknown workflow execution: '' @ ka_workflow_execution_id q)), committed_docs s)
       | Some x \<Rightarrow>
           (case andThen (require_claim x (ka_worker q) (ka_current_step q) (ka_claim_token q))
                   (\<lambda>_. add_seconds (ka_now q) (ka_lease_duration q)) of
              Inl e \<Rightarrow> (Inl e, committed_docs s) | Inr expires \<Rightarrow> (Inr (x\<lparr>we_claim_expires_at := Some expires\<rparr>), v')))"
      "v' WorkflowExecutions = committed_docs s WorkflowExecutions"
    using view_keep_alive assms(1) by blast
  from conjunct1 [OF assms(1)] workflow_collections_plain(2) ref run show ?thesis
  proof (cases rule: executions.managed_cases)
    case (Commits y)
    obtain x expires where x: "stored_executions s (ka_workflow_execution_id q) = Some x"
        "andThen (require_claim x (ka_worker q) (ka_current_step q) (ka_claim_token q))
           (\<lambda>_. add_seconds (ka_now q) (ka_lease_duration q)) = Inr expires"
      using Commits(1) v'(1) by (auto split: option.splits sum.splits)
    have "execution_table v' = stored_executions s" "executions_ok v' = executions_ok (committed_docs s)"
      by (rule executions.table_cong, rule v'(2), rule executions.ok_cong, rule v'(2))
    then show ?thesis
      using Kept [OF x(1)] x(2) Commits v'(1) x(1) assms(1)
      by (auto simp: andThen_Inr_iff require_claim_def split: if_splits)
  qed (use Fails in auto)
qed

lemma claim_steps_loop_spec:
  assumes ok: "executions_ok v" and es: "entries_of (v WorkflowExecutions) es"
    and run: "bindM (liftM (map_result (\<lambda>e. workflow_execution_from_json (snd e)) es))
      (\<lambda>xs. claim_steps_loop view_transaction q xs []) v = (Inr xs, v')"
  shows "step_claim_spec q (execution_table v) xs (execution_table v') \<and> executions_ok v'"
proof -
  obtain all where all: "map_result (\<lambda>e. workflow_execution_from_json (snd e)) es = Inr all"
      "distinct (map we_workflow_execution_id all)" "set all = ran (execution_table v)"
      "\<forall>x \<in> set all. execution_table v (we_workflow_execution_id x) = Some x"
    using executions.decoded_entries [OF ok es] by blast
  have loop: "claim_steps_loop view_transaction q all [] v = (Inr xs, v')"
    using run all(1) by simp
  show ?thesis
  proof (cases "add_seconds (cw_now q) (cw_lease_duration q)")
    case (Inl e)
    have "xs = []" "v' = v" "unat (cw_max_steps q) = 0 \<or> filter (step_visible q) all = []"
      using loop view_claim_steps_overflow [OF Inl, of all v] by (auto split: if_splits)
    then show ?thesis
      using ok by (auto simp: step_claim_spec_def Inl takes_exactly_nothing filter_empty_conv simp flip: all(3))
  next
    case (Inr expires)
    let ?xs = "map (claimed_step q expires) (take (unat (cw_max_steps q)) (filter (step_visible q) all))"
    have xs: "xs = ?xs" and v': "v' WorkflowExecutions = put_executions xs v WorkflowExecutions"
      using loop view_claim_steps_loop [OF Inr, of "[]" all v] by auto
    have "takes_exactly (unat (cw_max_steps q)) (step_visible q) (claimed_step q expires) workflow_execution_norm
        we_workflow_execution_id (execution_table v) xs (execution_table v') \<and> executions_ok v'"
      by (rule executions.take_spec [where v = v and v' = v', OF ok all(2-4) _ xs v']) simp
    then show ?thesis
      by (simp add: step_claim_spec_def Inr)
  qed
qed

lemma workflow_claim_cases:
  assumes "workflow_state_ok s" and "workflow_claim_steps in_memory_backend q s = (r, s')"
  obtains (Claimed) xs where "r = Inr xs" and "step_claim_spec q (stored_executions s) xs (stored_executions s')"
      and "workflow_state_ok s'"
    | (Fails) e where "r = Inl e" and "s' = s"
proof -
  have ref: "refines_rel (\<lambda>m. usable m \<and> fst m = s) mem_view (workflow_claim_stepsTx memory_transaction q)
     (\<lambda>v r v'. \<exists>es. entries_of (v WorkflowExecutions) es \<and>
        bindM (liftM (map_result (\<lambda>e. workflow_execution_from_json (snd e)) es))
          (\<lambda>xs. claim_steps_loop view_transaction q xs []) v = (r, v'))"
    by (rule memory_at.refines_workflow_claim_steps) simp_all
  have run: "managed in_memory_backend (workflow_claim_stepsTx memory_transaction q) s = (r, s')"
    using assms(2) by (simp add: workflow_claim_steps_def)
  show ?thesis
  proof (cases r)
    case (Inl e)
    then show ?thesis
      using Fails managed_memory_throws [OF conjunct1 [OF assms(1)] ref] run by blast
  next
    case (Inr xs)
    obtain v' es where v': "entries_of (committed_docs s WorkflowExecutions) es"
        "bindM (liftM (map_result (\<lambda>e. workflow_execution_from_json (snd e)) es))
          (\<lambda>xs. claim_steps_loop view_transaction q xs []) (committed_docs s) = (Inr xs, v')"
        "state_ok s'" "\<And>c. plain_name c \<Longrightarrow> committed_docs s' c = v' c"
      using managed_memory_rel [OF conjunct1 [OF assms(1)] ref] run Inr by blast
    have spec: "step_claim_spec q (stored_executions s) xs (execution_table v') \<and> executions_ok v'"
      using claim_steps_loop_spec [OF conjunct2 [OF assms(1)] v'(1,2)] .
    have "committed_docs s' WorkflowExecutions = v' WorkflowExecutions"
      by (rule v'(4)) simp
    then have "stored_executions s' = execution_table v'" "executions_ok (committed_docs s') = executions_ok v'"
      by (rule executions.table_cong, rule executions.ok_cong)
    then show ?thesis
      using Claimed [OF Inr] spec v'(3) by simp
  qed
qed

lemma workflow_start_cases:
  assumes "workflow_state_ok s" and "workflow_start in_memory_backend q s = (r, s')"
  obtains (Started) "stored_executions s (sw_workflow_execution_id q) = None" and "r = Inr (new_execution q)"
      and "workflow_state_ok s'"
      and "stored_executions s' = (stored_executions s)(sw_workflow_execution_id q \<mapsto> new_execution q)"
    | (Existing) x where "stored_executions s (sw_workflow_execution_id q) = Some x" and "r = Inr x"
      and "workflow_state_ok s'" and "stored_executions s' = stored_executions s"
    | (Fails) e where "r = Inl e" and "workflow_state_ok s'" and "stored_executions s' = stored_executions s"
proof -
  let ?s0 = "snd (workflow_ensure_collections in_memory_backend s)"
  have s0: "workflow_state_ok ?s0" "committed_docs ?s0 = committed_docs s"
    using assms(1)
    by (simp_all add: workflow_ensure_collections_def in_memory_backend_def ensure_collections_ok ensure_collections_docs)
  show ?thesis
  proof (cases "fst (workflow_ensure_collections in_memory_backend s)")
    case (Inl e)
    then have "r = Inl e" "s' = ?s0"
      using assms(2) by (auto simp: workflow_start_def bindM_def split: prod.splits)
    then show ?thesis using Fails s0 by simp
  next
    case (Inr u)
    then have run: "managed in_memory_backend (workflow_startTx memory_transaction q) ?s0 = (r, s')"
      using assms(2) by (auto simp: workflow_start_def bindM_def split: prod.splits)
    have ref: "refines (\<lambda>m. usable m \<and> fst m = ?s0) mem_view (workflow_startTx memory_transaction q)
        (workflow_startTx view_transaction q)"
      by (rule memory_at.refines_workflow_methods(1)) simp_all
    have ok: "executions_ok (committed_docs s)" using assms(1) by simp
    note v = view_start [OF ok, of q]
    from conjunct1 [OF s0(1)] workflow_collections_plain(2) ref run show ?thesis
    proof (cases rule: executions.managed_cases)
      case (Commits y)
      show ?thesis
      proof (cases "stored_executions s (sw_workflow_execution_id q)")
        case None
        have "we_workflow_execution_id (new_execution q) = sw_workflow_execution_id q" by simp
        note put = executions.put_table [of "new_execution q" "committed_docs s", unfolded this step_results_norm]
          executions.put_ok [OF ok, of "new_execution q", unfolded this]
        show ?thesis
          using Started [OF None] Commits v None put by (simp add: s0(2) del: view_put_apply)
      next
        case (Some x)
        then show ?thesis
          using Existing [OF Some] Commits v ok by (simp add: s0(2))
      qed
    qed (use Fails s0 in auto)
  qed
qed

fun workflow_perform :: "workflow_command \<Rightarrow> in_memory_state \<Rightarrow> in_memory_state" where
  "workflow_perform (W_Start q) s = snd (workflow_start in_memory_backend q s)"
| "workflow_perform (W_Claim q) s = snd (workflow_claim_steps in_memory_backend q s)"
| "workflow_perform (W_Keep_Alive q) s = snd (workflow_keep_alive_step in_memory_backend q s)"
| "workflow_perform (W_Complete q) s = snd (workflow_complete_step in_memory_backend q s)"
| "workflow_perform (W_Fail q) s = snd (workflow_fail_step in_memory_backend q s)"
| "workflow_perform (W_Cancel q) s = snd (workflow_cancel in_memory_backend q s)"

fun workflow_claimed :: "workflow_command \<Rightarrow> in_memory_state \<Rightarrow> workflow_execution list" where
  "workflow_claimed (W_Claim q) s =
     (case fst (workflow_claim_steps in_memory_backend q s) of Inl _ \<Rightarrow> [] | Inr xs \<Rightarrow> xs)"
| "workflow_claimed _ s = []"

definition workflow_run :: "workflow_command list \<Rightarrow> in_memory_state \<Rightarrow> in_memory_state" where
  "workflow_run cs s = fold workflow_perform cs s"

lemma workflow_perform_step:
  assumes ok: "workflow_state_ok s"
  shows "execution_step (stored_executions s) c (workflow_claimed c s) (stored_executions (workflow_perform c s)) \<and>
    workflow_state_ok (workflow_perform c s)"
proof (cases c)
  case (W_Start q)
  obtain r s' where run: "workflow_start in_memory_backend q s = (r, s')" by force
  from ok run show ?thesis
    by (cases rule: workflow_start_cases) (use W_Start run in \<open>simp_all add: execution_step.intros\<close>)
next
  case (W_Claim q)
  obtain r s' where run: "workflow_claim_steps in_memory_backend q s = (r, s')" by force
  from ok run show ?thesis
    by (cases rule: workflow_claim_cases) (use W_Claim run ok in \<open>simp_all add: execution_step.intros\<close>)
next
  case (W_Keep_Alive q)
  obtain r s' where run: "workflow_keep_alive_step in_memory_backend q s = (r, s')" by force
  from ok run show ?thesis
    by (cases rule: workflow_keep_alive_cases) (use W_Keep_Alive run ok in \<open>simp_all add: execution_step.Refused\<close>)
next
  case (W_Complete q)
  obtain r s' where run: "workflow_complete_step in_memory_backend q s = (r, s')" by force
  from ok run show ?thesis
    by (cases rule: workflow_complete_cases) (use W_Complete run ok in \<open>simp_all add: execution_step.intros\<close>)
next
  case (W_Fail q)
  obtain r s' where run: "workflow_fail_step in_memory_backend q s = (r, s')" by force
  from ok run show ?thesis
    by (cases rule: workflow_fail_cases) (use W_Fail run ok in \<open>simp_all add: execution_step.intros\<close>)
next
  case (W_Cancel q)
  obtain r s' where run: "workflow_cancel in_memory_backend q s = (r, s')" by force
  from ok run show ?thesis
    by (cases rule: workflow_cancel_cases) (use W_Cancel run ok in \<open>simp_all add: execution_step.intros\<close>)
qed

lemma workflow_run_ok: "workflow_state_ok s \<Longrightarrow> workflow_state_ok (workflow_run cs s)"
  unfolding workflow_run_def
  by (induction cs arbitrary: s) (simp_all del: workflow_perform.simps add: workflow_perform_step)

text \<open>A run preserves what every step preserves.\<close>

lemma workflow_run_invariant:
  assumes "workflow_state_ok s" and "P (stored_executions s)"
    and "\<And>t c xs t'. P t \<Longrightarrow> c \<in> set cs \<Longrightarrow> execution_step t c xs t' \<Longrightarrow> P t'"
  shows "P (stored_executions (workflow_run cs s))"
  using assms unfolding workflow_run_def
proof (induction cs arbitrary: s)
  case (Cons c cs)
  have P': "P (stored_executions (workflow_perform c s))"
    using Cons.prems(2) Cons.prems(3) [of _ c] workflow_perform_step [OF Cons.prems(1), of c] by auto
  have "P (stored_executions (fold workflow_perform cs (workflow_perform c s)))"
  proof (rule Cons.IH [OF _ P'])
    show "workflow_state_ok (workflow_perform c s)"
      using workflow_perform_step [OF Cons.prems(1)] by blast
    show "P t'" if "P t" "c' \<in> set cs" "execution_step t c' xs t'" for t c' xs t'
      using Cons.prems(3) [of t c' xs t'] that by simp
  qed
  then show ?case by simp
qed simp

section \<open>Claims and tokens\<close>

text \<open>How often a run hands out an execution.\<close>

fun step_claims :: "string \<Rightarrow> workflow_command list \<Rightarrow> in_memory_state \<Rightarrow> nat" where
  "step_claims k [] s = 0"
| "step_claims k (c # cs) s =
     of_bool (k \<in> we_workflow_execution_id ` set (workflow_claimed c s)) + step_claims k cs (workflow_perform c s)"

lemma step_claims_le: "step_claims k cs s \<le> length cs"
  by (induction cs arbitrary: s) (auto simp del: workflow_perform.simps intro: le_SucI)

lemma step_results_attempt [simp]:
  "we_attempt (new_execution s) = 0" "we_attempt (claimed_step q t x) = we_attempt x + 1"
  "we_attempt (completed_step c x) = we_attempt x" "we_attempt (failed_step f x) = we_attempt x"
  "we_attempt (canceled x) = we_attempt x" "we_attempt (workflow_execution_norm x) = we_attempt x"
  by (simp_all add: new_execution_def claimed_step_def completed_step_def failed_step_def canceled_def unclaimed_def
      workflow_execution_norm_def Let_def split: option.split)

lemma execution_step_attempt:
  assumes "execution_step t c xs t'" and "t k = Some x"
  shows "\<exists>x'. t' k = Some x' \<and> we_attempt x' = we_attempt x + of_bool (k \<in> we_workflow_execution_id ` set xs)"
  using assms
proof (cases rule: execution_step_cases)
  case (Claim q expires)
  then have "k \<in> we_workflow_execution_id ` set xs" by (metis image_eqI)
  then show ?thesis using Claim by simp
qed simp_all

lemma workflow_run_attempts:
  assumes "workflow_state_ok s" and "stored_executions s k = Some x"
  shows "\<exists>x'. stored_executions (workflow_run cs s) k = Some x' \<and>
    we_attempt x' = we_attempt x + of_nat (step_claims k cs s)"
  using assms
proof (induction cs arbitrary: s x)
  case (Cons c cs)
  note step = workflow_perform_step [OF Cons.prems(1), of c]
  obtain x1 where x1: "stored_executions (workflow_perform c s) k = Some x1"
      "we_attempt x1 = we_attempt x + of_bool (k \<in> we_workflow_execution_id ` set (workflow_claimed c s))"
    using execution_step_attempt [OF conjunct1 [OF step] Cons.prems(2)] by blast
  show ?case
    using Cons.IH [OF conjunct2 [OF step] x1(1)] x1(2)
    by (auto simp: workflow_run_def add.assoc)
qed (simp add: workflow_run_def)

text \<open>The token of a claim ends in the attempt it was made at.\<close>

definition token_ok :: "workflow_execution \<Rightarrow> bool" where
  "token_ok x \<longleftrightarrow> (\<forall>token. we_claim_token x = Some token \<longrightarrow>
     (\<exists>worker. token = we_workflow_execution_id x @ '':'' @ worker @ '':'' @ to_string_u64 (we_attempt x)))"

definition tokens_ok :: "executions \<Rightarrow> bool" where
  "tokens_ok t \<longleftrightarrow> (\<forall>k x. t k = Some x \<longrightarrow> token_ok x)"

lemma step_results_token [simp]:
  "token_ok (new_execution s)" "token_ok (workflow_execution_norm (claimed_step q t x))"
  "token_ok (completed_step c x)" "token_ok (failed_step f x)" "token_ok (canceled x)"
  by (auto simp: token_ok_def new_execution_def claimed_step_def completed_step_def failed_step_def canceled_def
      unclaimed_def workflow_execution_norm_def claim_token_for_def Let_def split: option.split)

lemma execution_step_tokens:
  assumes "execution_step t c xs t'" and "tokens_ok t"
  shows "tokens_ok t'"
  unfolding tokens_ok_def
proof (intro allI impI)
  fix k x' assume x': "t' k = Some x'"
  show "token_ok x'"
  proof (cases "t k")
    case (Some x)
    then have "token_ok x" using assms(2) by (simp add: tokens_ok_def)
    with assms(1) Some show ?thesis
      by (cases rule: execution_step_cases) (use x' in auto)
  next
    case None
    from assms(1) show ?thesis
    proof cases
      case (Claimed q)
      have "k \<notin> we_workflow_execution_id ` set xs"
      proof
        assume "k \<in> we_workflow_execution_id ` set xs"
        then obtain y where "y \<in> set xs" "we_workflow_execution_id y = k" by blast
        then show False using step_claimD [OF Claimed(2)] None by (metis option.distinct(1))
      qed
      then show ?thesis using step_claim_others [OF Claimed(2)] None x' by simp
    qed (use None x' in \<open>auto split: if_splits\<close>)
  qed
qed

lemma token_attempt:
  assumes "token_ok x" and "token_ok y" and "we_claim_token x = Some token" and "we_claim_token y = Some token"
  shows "we_attempt x = we_attempt y"
proof -
  obtain w where w: "token = we_workflow_execution_id x @ '':'' @ w @ '':'' @ to_string_u64 (we_attempt x)"
    using assms(1,3) by (auto simp: token_ok_def)
  obtain w' where w': "token = we_workflow_execution_id y @ '':'' @ w' @ '':'' @ to_string_u64 (we_attempt y)"
    using assms(2,4) unfolding token_ok_def by blast
  from w w' have "(we_workflow_execution_id x @ '':'' @ w) @ CHR '':'' # to_string_u64 (we_attempt x) =
      (we_workflow_execution_id y @ '':'' @ w') @ CHR '':'' # to_string_u64 (we_attempt y)"
    by simp
  then have "to_string_u64 (we_attempt x) = to_string_u64 (we_attempt y)"
    by (rule last_segment [OF to_string_u64_no_colon to_string_u64_no_colon])
  then show ?thesis
    by (simp add: to_string_u64_inject)
qed

lemma initial_executions: "stored_executions initial_state k = None"
  by (simp add: doc_table_def initial_state_def committed_docs_def lookup_record_def)

lemma initial_workflow_ok: "workflow_state_ok initial_state" "tokens_ok (stored_executions initial_state)"
proof -
  have "committed_docs initial_state WorkflowExecutions = (\<lambda>_. None)"
    by (rule ext) (simp add: initial_state_def committed_docs_def lookup_record_def)
  then show "workflow_state_ok initial_state" "tokens_ok (stored_executions initial_state)"
    by (simp_all add: initial_state_ok table_ok_def tokens_ok_def doc_table_def)
qed

section \<open>Properties\<close>


text \<open>The status graph: running executions move on, settled ones can only be canceled.\<close>

fun status_next :: "string \<Rightarrow> string \<Rightarrow> bool" where
  "status_next st st' \<longleftrightarrow>
     st' = st \<or> st' = ''Canceled'' \<or>
     (st = ''Running'' \<and> st' \<in> {''Completed'', ''Failed''})"

text \<open>A claim, hence a token, exists only while the execution runs.\<close>

definition claims_running :: "executions \<Rightarrow> bool" where
  "claims_running t \<longleftrightarrow> (\<forall>k x. t k = Some x \<longrightarrow>
     we_status x \<in> {''Running'', ''Completed'', ''Failed'', ''Canceled''} \<and>
     (we_claim_token x \<noteq> None \<longrightarrow> we_status x = ''Running''))"

lemma step_results_status:
  "we_status (new_execution s) = ''Running''" "we_status (claimed_step q t x) = we_status x"
  "we_status (completed_step c x) \<in> {''Running'', ''Completed''}" "we_status (failed_step f x) \<in> {''Running'', ''Failed''}"
  "we_status (canceled x) = ''Canceled''" "we_status (workflow_execution_norm x) = we_status x"
  "we_claim_token (completed_step c x) = None" "we_claim_token (failed_step f x) = None"
  "we_claim_token (canceled x) = None" "we_claim_token (new_execution s) = None"
  by (simp_all add: new_execution_def claimed_step_def completed_step_def failed_step_def canceled_def unclaimed_def
      workflow_execution_norm_def Let_def split: option.split)

lemma execution_step_status:
  assumes "execution_step t c xs t'" and "claims_running t" and "t k = Some x"
  shows "\<exists>x'. t' k = Some x' \<and> status_next (we_status x) (we_status x') \<and>
    we_status x' \<in> {''Running'', ''Completed'', ''Failed'', ''Canceled''} \<and>
    (we_claim_token x' \<noteq> None \<longrightarrow> we_status x' = ''Running'') \<and>
    (k \<in> we_workflow_execution_id ` set xs \<longrightarrow> we_status x = ''Running'')"
proof -
  have x: "we_status x \<in> {''Running'', ''Completed'', ''Failed'', ''Canceled''}"
      "we_claim_token x \<noteq> None \<longrightarrow> we_status x = ''Running''"
    using assms(2,3) by (auto simp: claims_running_def)
  from assms(1,3) show ?thesis
  proof (cases rule: execution_step_cases)
    case (Claim q expires)
    then have "we_status x = ''Running''" by (simp add: step_visible_def split: if_splits)
    then show ?thesis using Claim by (simp add: step_results_status)
  next
    case (Complete q)
    then have "we_status x = ''Running''" using x by (simp add: claim_held_def)
    then show ?thesis using Complete step_results_status(3) [of q x] by (auto simp: step_results_status(7))
  next
    case (Fail q)
    then have "we_status x = ''Running''" using x by (simp add: claim_held_def)
    then show ?thesis using Fail step_results_status(4) [of q x] by (auto simp: step_results_status(8))
  next
    case (Cancel q)
    then show ?thesis by (simp add: step_results_status)
  qed (use x in simp)
qed

lemma execution_step_claims_running:
  assumes "execution_step t c xs t'" and "claims_running t"
  shows "claims_running t'"
  unfolding claims_running_def
proof (intro allI impI)
  fix k x' assume x': "t' k = Some x'"
  show "we_status x' \<in> {''Running'', ''Completed'', ''Failed'', ''Canceled''} \<and>
      (we_claim_token x' \<noteq> None \<longrightarrow> we_status x' = ''Running'')"
  proof (cases "t k")
    case (Some x)
    then show ?thesis using execution_step_status [OF assms Some] x' by auto
  next
    case None
    from assms(1) show ?thesis
    proof cases
      case (Claimed q)
      have "k \<notin> we_workflow_execution_id ` set xs"
      proof
        assume "k \<in> we_workflow_execution_id ` set xs"
        then obtain y where "y \<in> set xs" "we_workflow_execution_id y = k" by blast
        then show False using step_claimD [OF Claimed(2)] None by (metis option.distinct(1))
      qed
      then show ?thesis using step_claim_others [OF Claimed(2)] None x' by simp
    qed (use None x' in \<open>auto simp: step_results_status split: if_splits\<close>)
  qed
qed

text \<open>C15: a workflow moves only along its status graph. In any run from the empty backend, whatever
  commands run in between, an execution goes from \<open>Running\<close> to \<open>Running\<close>, \<open>Completed\<close> or
  \<open>Failed\<close>, from any status to \<open>Canceled\<close>, and nowhere else; and only a running execution is
  ever handed out by a claim.\<close>

theorem workflow_status_graph:
  assumes "stored_executions (workflow_run cs initial_state) k = Some x"
  shows "\<exists>x'. stored_executions (workflow_run (cs @ [c]) initial_state) k = Some x' \<and>
    status_next (we_status x) (we_status x') \<and>
    (k \<in> we_workflow_execution_id ` set (workflow_claimed c (workflow_run cs initial_state)) \<longrightarrow>
       we_status x = ''Running'')"
proof -
  let ?s = "workflow_run cs initial_state"
  have "claims_running (stored_executions initial_state)"
    using initial_workflow_ok(2) by (simp add: claims_running_def initial_executions)
  then have inv: "claims_running (stored_executions ?s)"
    by (rule workflow_run_invariant [OF initial_workflow_ok(1)]) (rule execution_step_claims_running)
  show ?thesis
    using execution_step_status [OF conjunct1 [OF workflow_perform_step [OF workflow_run_ok [OF initial_workflow_ok(1)]]]
        inv assms, of c] by (auto simp: workflow_run_def)
qed

text \<open>C8: a claim that was superseded settles nothing. Once an execution claimed under a token has been
  claimed again, by any worker and after any commands, completing and failing a step with the old
  token throw a \<open>WorkflowClaimConflict\<close> and change nothing: the new token differs, since it
  ends in the attempt.\<close>

theorem stale_claim_rejected:
  assumes "stored_executions (workflow_run cs initial_state) k = Some x" and "we_claim_token x = Some token"
    and "0 < step_claims k cs' (workflow_run cs initial_state)" and "length cs' < 2 ^ 64"
    and "co_workflow_execution_id q = k" and "co_claim_token q = token"
    and "fa_workflow_execution_id q' = k" and "fa_claim_token q' = token"
    and "s = workflow_run (cs @ cs') initial_state"
  shows "workflow_complete_step in_memory_backend q s =
      (Inl (ConflictError WorkflowClaimConflict ''workflow step is not claimed by caller''), s) \<and>
    workflow_fail_step in_memory_backend q' s =
      (Inl (ConflictError WorkflowClaimConflict ''workflow step is not claimed by caller''), s)"
proof -
  let ?s = "workflow_run cs initial_state"
  let ?n = "step_claims k cs' ?s"
  have ok: "workflow_state_ok ?s" by (rule workflow_run_ok [OF initial_workflow_ok(1)])
  have s: "s = workflow_run cs' ?s" by (simp add: assms(9) workflow_run_def)
  have ok': "workflow_state_ok s" unfolding s by (rule workflow_run_ok [OF ok])
  have tokens: "tokens_ok (stored_executions (workflow_run cs initial_state))" for cs
    using initial_workflow_ok by (rule workflow_run_invariant) (rule execution_step_tokens)
  obtain x' where x': "stored_executions s k = Some x'" "we_attempt x' = we_attempt x + of_nat ?n"
    using workflow_run_attempts [OF ok assms(1)] s by auto
  have "?n < 2 ^ 64" using step_claims_le assms(4) le_less_trans by blast
  then have "(of_nat ?n :: 64 word) \<noteq> 0"
    using assms(3) by (simp add: word_of_nat_eq_0_iff nat_dvd_not_less)
  then have "we_attempt x' \<noteq> we_attempt x" by (simp add: x'(2))
  moreover have "token_ok x" "token_ok x'"
    using tokens [of cs] tokens [of "cs @ cs'"] assms(1,9) x'(1) by (auto simp: tokens_ok_def)
  ultimately have t: "we_claim_token x' \<noteq> Some token"
    using token_attempt assms(2) by metis
  let ?e = "ConflictError WorkflowClaimConflict ''workflow step is not claimed by caller''"
  have c: "require_claim x' w st token = Inl ?e" for w st
    using t by (simp add: require_claim_def claim_held_def)
  show ?thesis
  proof
    show "workflow_complete_step in_memory_backend q s = (Inl ?e, s)"
      unfolding workflow_complete_step_def memory_selectors
      by (rule settles_rejected [OF ok' view_complete [of q, unfolded assms(5,6)] x'(1) c])
        (rule memory_at.refines_workflow_methods(3), simp_all)
    show "workflow_fail_step in_memory_backend q' s = (Inl ?e, s)"
      unfolding workflow_fail_step_def memory_selectors
      by (rule settles_rejected [OF ok' view_fail_step [of q', unfolded assms(7,8)] x'(1) c])
        (rule memory_at.refines_workflow_methods(4), simp_all)
  qed
qed




text \<open>a keep-alive does not extend the claim. It returns the new deadline but leaves every stored
  execution as it was, so a claim at the old deadline, before the new one, hands the step to
  another worker. The contract of the workflow store has keep-alives extend the lease.\<close>

theorem keep_alive_not_honoured:
  assumes "workflow_state_ok s" and "workflow_keep_alive_step in_memory_backend q s = (Inr x', s1)"
    and "stored_executions s (ka_workflow_execution_id q) = Some x" and "step_visible q' x"
    and "workflow_claim_steps in_memory_backend q' s1 = (Inr xs, s2)" and "length xs < unat (cw_max_steps q')"
  shows "stored_executions s1 = stored_executions s \<and>
    (\<exists>t. we_claim_expires_at x' = Some t \<and> add_seconds (ka_now q) (ka_lease_duration q) = Inr t) \<and>
    ka_workflow_execution_id q \<in> we_workflow_execution_id ` set xs"
  using assms(1,2)
proof (cases rule: workflow_keep_alive_cases)
  case (Kept y t)
  from Kept(5) assms(5) have "ka_workflow_execution_id q \<in> we_workflow_execution_id ` set xs"
    by (cases rule: workflow_claim_cases) (use Kept(6) assms(3,4,6) in \<open>auto dest: step_claim_complete\<close>)
  then show ?thesis using Kept by simp
qed simp

text \<open>C16: an execution fails for good exactly when its claims reach the limit. When a worker fails a
  step of an execution that started with no attempts, after any sequence of commands, the status
  becomes \<open>Failed\<close> if the execution has been claimed at least \<open>max_attempts\<close> times and
  \<open>Running\<close> otherwise. The claims of all steps count: completing a step does not reset them.\<close>

theorem step_failure_limit:
  assumes "workflow_state_ok s" and "stored_executions s (fa_workflow_execution_id q) = Some x" and "we_attempt x = 0"
    and "length cs < 2 ^ 64" and "workflow_fail_step in_memory_backend q (workflow_run cs s) = (Inr x', s')"
  shows "we_status x' = (if unat (fa_max_attempts q) \<le> step_claims (fa_workflow_execution_id q) cs s
                         then ''Failed'' else ''Running'') \<and>
    we_claimed_by x' = None \<and> we_claim_token x' = None \<and> we_claim_expires_at x' = None \<and>
    stored_executions s' = (stored_executions (workflow_run cs s))(fa_workflow_execution_id q \<mapsto> x')"
proof -
  let ?n = "step_claims (fa_workflow_execution_id q) cs s"
  obtain x1 where x1: "stored_executions (workflow_run cs s) (fa_workflow_execution_id q) = Some x1"
      "we_attempt x1 = of_nat ?n"
    using workflow_run_attempts [OF assms(1,2)] assms(3) by auto
  have "?n < 2 ^ 64" using step_claims_le assms(4) le_less_trans by blast
  then have "u32_to_i64 (fa_max_attempts q) \<le> we_attempt x1 \<longleftrightarrow> unat (fa_max_attempts q) \<le> ?n"
    by (simp add: x1(2) u32_le_of_nat)
  moreover from workflow_run_ok [OF assms(1)] assms(5)
  have "x' = failed_step q x1 \<and> stored_executions s' =
      (stored_executions (workflow_run cs s))(fa_workflow_execution_id q \<mapsto> x')"
    by (cases rule: workflow_fail_cases) (use x1(1) in auto)
  ultimately show ?thesis
    by (simp add: failed_step_def unclaimed_def)
qed

text \<open>starting is idempotent. After an execution has been started, and any commands, starting it
  again under the same id, whatever the definition, step and state of the second request, changes
  no execution and returns the stored one.\<close>

theorem start_idempotent:
  assumes "workflow_state_ok s" and "workflow_start in_memory_backend q s = (Inr x, s1)"
    and "sw_workflow_execution_id q' = sw_workflow_execution_id q"
    and "workflow_start in_memory_backend q' (workflow_run cs s1) = (r, s2)"
  shows "stored_executions s2 = stored_executions (workflow_run cs s1) \<and>
    (\<forall>x'. r = Inr x' \<longrightarrow> stored_executions (workflow_run cs s1) (sw_workflow_execution_id q) = Some x')"
proof -
  from assms(1,2) have "workflow_state_ok s1 \<and> (\<exists>y. stored_executions s1 (sw_workflow_execution_id q) = Some y)"
    by (cases rule: workflow_start_cases) auto
  then obtain y where ok: "workflow_state_ok s1" and y: "stored_executions s1 (sw_workflow_execution_id q) = Some y"
    by blast
  obtain z where z: "stored_executions (workflow_run cs s1) (sw_workflow_execution_id q) = Some z"
    using workflow_run_attempts [OF ok y] by blast
  from workflow_run_ok [OF ok] assms(4) show ?thesis
    by (cases rule: workflow_start_cases) (use z assms(3) in auto)
qed

section \<open>Witnesses\<close>

definition sample_start :: start_request where
  "sample_start =
     \<lparr>sw_workflow_execution_id = ''e'', sw_workflow_name = ''w'', sw_workflow_version = 1, sw_start_step = ''s'',
      sw_state = JNull\<rparr>"

definition sample_step_claim :: "string \<Rightarrow> timestamp \<Rightarrow> claim_step_request" where
  "sample_step_claim worker now =
     \<lparr>cw_workflow_execution_id = '''', cw_workflow_name = ''w'', cw_workflow_version = 1, cw_worker = worker,
      cw_now = now, cw_lease_duration = 10, cw_max_steps = 5\<rparr>"

definition sample_keep_alive :: "timestamp \<Rightarrow> keep_alive_request" where
  "sample_keep_alive now =
     \<lparr>ka_workflow_execution_id = ''e'', ka_worker = ''a'', ka_current_step = ''s'', ka_claim_token = ''e:a:1'',
      ka_now = now, ka_lease_duration = 10\<rparr>"

definition sample_complete :: complete_request where
  "sample_complete =
     \<lparr>co_workflow_execution_id = ''e'', co_worker = ''a'', co_completed_step = ''s'', co_next_step = None,
      co_state = JNull, co_claim_token = ''e:a:1''\<rparr>"

definition sample_step_fail :: "32 word \<Rightarrow> fail_step_request" where
  "sample_step_fail n =
     \<lparr>fa_workflow_execution_id = ''e'', fa_worker = ''a'', fa_failed_step = ''s'', fa_reason = ''late'', fa_now = 0,
      fa_max_attempts = n, fa_claim_token = ''e:a:1''\<rparr>"

definition sample_execution :: workflow_execution where
  "sample_execution = claimed_step (sample_step_claim ''a'' 0) 10000000000 (new_execution sample_start)"

text \<open>An execution started, then claimed by \<open>a\<close>.\<close>

definition workflow_state1 :: in_memory_state where
  "workflow_state1 = workflow_run [W_Start sample_start] initial_state"

definition workflow_state2 :: in_memory_state where
  "workflow_state2 = workflow_run [W_Start sample_start, W_Claim (sample_step_claim ''a'' 0)] initial_state"

lemma workflow_states_ok: "workflow_state_ok workflow_state1" "workflow_state_ok workflow_state2"
  unfolding workflow_state1_def workflow_state2_def by (intro workflow_run_ok initial_workflow_ok(1))+

lemma stored_sample:
  "stored_executions workflow_state1 ''e'' = Some (new_execution sample_start)"
  "stored_executions workflow_state2 ''e'' = Some sample_execution"
  by code_simp+


lemma sample_execution_simps:
  "we_workflow_execution_id sample_execution = ''e''" "we_claim_expires_at sample_execution = Some 10000000000"
  "we_claim_token sample_execution = Some ''e:a:1''"
  by code_simp+



theorem workflow_status_graph_witness:
  "\<exists>x'. stored_executions (workflow_run
      ([W_Start sample_start, W_Claim (sample_step_claim ''a'' 0)] @ [W_Complete sample_complete]) initial_state) ''e'' = Some x' \<and>
    status_next ''Running'' (we_status x')"
proof -
  have "we_status sample_execution = ''Running''" by code_simp
  then show ?thesis
    using workflow_status_graph [OF stored_sample(2) [unfolded workflow_state2_def], of "W_Complete sample_complete"] by metis
qed

theorem stale_claim_rejected_witness:
  "\<exists>s. s = workflow_run ([W_Start sample_start, W_Claim (sample_step_claim ''a'' 0)] @
      [W_Claim (sample_step_claim ''b'' 10000000000)]) initial_state \<and>
    workflow_complete_step in_memory_backend sample_complete s =
      (Inl (ConflictError WorkflowClaimConflict ''workflow step is not claimed by caller''), s)"
proof -
  have "step_claims ''e'' [W_Claim (sample_step_claim ''b'' 10000000000)] workflow_state2 = 1"
    by code_simp
  then show ?thesis
    using stale_claim_rejected [OF stored_sample(2) [unfolded workflow_state2_def] sample_execution_simps(3),
        of "[W_Claim (sample_step_claim ''b'' 10000000000)]" sample_complete "sample_step_fail 1"]
    by (simp add: workflow_state2_def sample_complete_def sample_step_fail_def)
qed


theorem keep_alive_not_honoured_witness:
  "\<exists>x s xs s'. workflow_keep_alive_step in_memory_backend (sample_keep_alive 5000000000) workflow_state2 = (Inr x, s) \<and>
     we_claim_expires_at x = Some 15000000000 \<and>
     workflow_claim_steps in_memory_backend (sample_step_claim ''b'' 10000000000) s = (Inr xs, s') \<and>
     ''e'' \<in> we_workflow_execution_id ` set xs"
proof -
  let ?k = "sample_keep_alive 5000000000" and ?c = "sample_step_claim ''b'' 10000000000"
  have 1: "map_sum (\<lambda>_. ()) we_claim_expires_at (fst (workflow_keep_alive_step in_memory_backend ?k workflow_state2)) =
      Inr (Some 15000000000)"
    by code_simp
  obtain r s where run: "workflow_keep_alive_step in_memory_backend ?k workflow_state2 = (r, s)" by force
  then obtain x where x: "r = Inr x" "we_claim_expires_at x = Some 15000000000"
    using 1 by (cases r) simp_all
  have s: "s = snd (workflow_keep_alive_step in_memory_backend ?k workflow_state2)" by (simp add: run)
  have 2: "map_sum (\<lambda>_. ()) length (fst (workflow_claim_steps in_memory_backend ?c s)) = Inr 1"
    unfolding s by code_simp
  obtain r' s' where run': "workflow_claim_steps in_memory_backend ?c s = (r', s')" by force
  then obtain xs where xs: "r' = Inr xs" "length xs = 1"
    using 2 by (cases r') simp_all
  have "step_visible ?c sample_execution" by code_simp
  then have "''e'' \<in> we_workflow_execution_id ` set xs"
    using keep_alive_not_honoured [OF workflow_states_ok(2) run [unfolded x(1)] _ _ run' [unfolded xs(1)], of sample_execution]
      stored_sample(2) xs(2) by (simp add: sample_keep_alive_def sample_step_claim_def)
  then show ?thesis using run run' x xs by blast
qed

theorem step_failure_limit_witness:
  "\<exists>x s. workflow_fail_step in_memory_backend (sample_step_fail 1)
       (workflow_run [W_Claim (sample_step_claim ''a'' 0)] workflow_state1) = (Inr x, s) \<and> we_status x = ''Failed''"
proof -
  let ?cs = "[W_Claim (sample_step_claim ''a'' 0)]"
  have n: "step_claims ''e'' ?cs workflow_state1 = 1" by code_simp
  have "\<not> isl (fst (workflow_fail_step in_memory_backend (sample_step_fail 1) (workflow_run ?cs workflow_state1)))"
    by code_simp
  then obtain x s where run: "workflow_fail_step in_memory_backend (sample_step_fail 1) (workflow_run ?cs workflow_state1) = (Inr x, s)"
    by (metis isl_def prod.collapse sum.exhaust)
  have "we_status x = ''Failed''"
    using step_failure_limit [OF workflow_states_ok(1) _ _ _ run, of "new_execution sample_start"] stored_sample(1) n
    by (simp add: sample_step_fail_def)
  then show ?thesis using run by blast
qed

theorem start_idempotent_witness:
  "\<exists>r s. workflow_start in_memory_backend (sample_start\<lparr>sw_start_step := ''t''\<rparr>)
       (workflow_run [W_Claim (sample_step_claim ''a'' 0)] workflow_state1) = (r, s) \<and>
     stored_executions s = stored_executions (workflow_run [W_Claim (sample_step_claim ''a'' 0)] workflow_state1)"
proof -
  have "fst (workflow_start in_memory_backend sample_start initial_state) = Inr (new_execution sample_start)"
    by code_simp
  then have start: "workflow_start in_memory_backend sample_start initial_state = (Inr (new_execution sample_start), workflow_state1)"
    by (simp add: prod_eq_iff workflow_state1_def workflow_run_def)
  obtain r s where run: "workflow_start in_memory_backend (sample_start\<lparr>sw_start_step := ''t''\<rparr>)
      (workflow_run [W_Claim (sample_step_claim ''a'' 0)] workflow_state1) = (r, s)"
    using surjective_pairing by blast
  show ?thesis
    using start_idempotent [OF initial_workflow_ok(1) start _ run] run by simp
qed

end
