(* ===== verification/Flag_Store.thy ===== *)
theory Flag_Store
  imports Codecs Document_Table
begin

text \<open>
  \<open>RuntimeFeatureFlagStore\<close> of \<open>bindings/cpp/runtime/feature_flag_store.hpp\<close> with the requests
  of \<open>bindings/cpp/feature_flag.hpp\<close>. What an evaluation returns is a function of the documents
  the transaction sees: the override stored for exactly this context, or else the default of
  the registered definition.
\<close>

section \<open>Requests and results\<close>

record flag_registration =
  flr_registered_new :: bool
  flr_definition :: feature_flag_definition

record flag_context =
  flc_tenant_id :: "string option"
  flc_user_id :: "string option"
  flc_entity_type :: "string option"
  flc_entity_id :: "string option"

record flag_request =
  flg_name :: string
  flg_context :: flag_context

section \<open>The store\<close>

definition value_or_empty :: "string option \<Rightarrow> string" where
  "value_or_empty v = (case v of None \<Rightarrow> '''' | Some t \<Rightarrow> t)"

definition evaluation_key :: "flag_request \<Rightarrow> string" where
  "evaluation_key q =
     flg_name q @ ''|tenant:'' @ value_or_empty (flc_tenant_id (flg_context q)) @
     ''|user:'' @ value_or_empty (flc_user_id (flg_context q)) @
     ''|entity:'' @ value_or_empty (flc_entity_type (flg_context q)) @ '':'' @
     value_or_empty (flc_entity_id (flg_context q))"

definition flag_ensure_collections :: "('s, 'tx) ibackend \<Rightarrow> ('s, unit) action" where
  "flag_ensure_collections B = ib_ensure_collections B
     [collection_with_keys FeatureFlagDefinitions [KF_Name],
      collection_with_keys FeatureFlagValues [KF_ScopeKey]]"

definition flag_inspect_definitionTx ::
    "'tx itransaction \<Rightarrow> string \<Rightarrow> ('tx, feature_flag_definition option) action" where
  "flag_inspect_definitionTx I name =
     bindM (it_get I FeatureFlagDefinitions name) (\<lambda>record.
       case record of
         None \<Rightarrow> returnM None
       | Some r \<Rightarrow> bindM (liftM (feature_flag_definition_from_json (vr_document r))) (\<lambda>d. returnM (Some d)))"

definition flag_register_definitionTx ::
    "'tx itransaction \<Rightarrow> feature_flag_definition \<Rightarrow> ('tx, flag_registration) action" where
  "flag_register_definitionTx I d =
     bindM (flag_inspect_definitionTx I (fl_name d)) (\<lambda>existing.
     bindM (liftM (feature_flag_definition_to_json d)) (\<lambda>j.
     bindM (it_put I FeatureFlagDefinitions (fl_name d) j) (\<lambda>_.
       returnM \<lparr>flr_registered_new = (existing = None), flr_definition = d\<rparr>)))"

definition flag_evaluateTx :: "'tx itransaction \<Rightarrow> flag_request \<Rightarrow> ('tx, feature_flag_value) action" where
  "flag_evaluateTx I q =
     bindM (it_get I FeatureFlagValues (evaluation_key q)) (\<lambda>record.
       case record of
         Some r \<Rightarrow> liftM (feature_flag_value_from_json (vr_document r))
       | None \<Rightarrow>
           bindM (flag_inspect_definitionTx I (flg_name q)) (\<lambda>d.
             case d of
               None \<Rightarrow> throwM (BackendError (''unknown feature flag: '' @ flg_name q))
             | Some d \<Rightarrow> returnM (fl_default_value d)))"

definition flag_set_overrideTx ::
    "'tx itransaction \<Rightarrow> flag_request \<Rightarrow> feature_flag_value \<Rightarrow> ('tx, unit) action" where
  "flag_set_overrideTx I q x =
     bindM (liftM (feature_flag_value_to_json x)) (\<lambda>j. it_put I FeatureFlagValues (evaluation_key q) j)"

definition flag_register_definition ::
    "('s, 'tx) ibackend \<Rightarrow> feature_flag_definition \<Rightarrow> ('s, flag_registration) action" where
  "flag_register_definition B d =
     bindM (flag_ensure_collections B) (\<lambda>_. managed B (flag_register_definitionTx (ib_tx B) d))"

definition flag_inspect_definition ::
    "('s, 'tx) ibackend \<Rightarrow> string \<Rightarrow> ('s, feature_flag_definition option) action" where
  "flag_inspect_definition B name = managed B (flag_inspect_definitionTx (ib_tx B) name)"

definition flag_evaluate :: "('s, 'tx) ibackend \<Rightarrow> flag_request \<Rightarrow> ('s, feature_flag_value) action" where
  "flag_evaluate B q = managed B (flag_evaluateTx (ib_tx B) q)"

section \<open>The two tables\<close>

abbreviation flag_definitions :: "doc_view \<Rightarrow> string \<rightharpoonup> feature_flag_definition" where
  "flag_definitions \<equiv> doc_table FeatureFlagDefinitions feature_flag_definition_from_json"

abbreviation flag_overrides :: "doc_view \<Rightarrow> string \<rightharpoonup> feature_flag_value" where
  "flag_overrides \<equiv> doc_table FeatureFlagValues feature_flag_value_from_json"

text \<open>Every document of the two collections decodes.\<close>

definition flags_ok :: "doc_view \<Rightarrow> bool" where
  "flags_ok v \<longleftrightarrow>
     (\<forall>k d. v FeatureFlagDefinitions k = Some d \<longrightarrow> (\<exists>x. feature_flag_definition_from_json d = Inr x)) \<and>
     (\<forall>k d. v FeatureFlagValues k = Some d \<longrightarrow> (\<exists>x. feature_flag_value_from_json d = Inr x))"

text \<open>What an evaluation returns.\<close>

definition flag_value :: "doc_view \<Rightarrow> flag_request \<Rightarrow> feature_flag_value result" where
  "flag_value v q =
     (case flag_overrides v (evaluation_key q) of
        Some x \<Rightarrow> Inr x
      | None \<Rightarrow>
          (case flag_definitions v (flg_name q) of
             Some d \<Rightarrow> Inr (fl_default_value d)
           | None \<Rightarrow> Inl (BackendError (''unknown feature flag: '' @ flg_name q))))"

lemma flag_collections_plain [simp]:
  "plain_name FeatureFlagDefinitions" "plain_name FeatureFlagValues"
  "FeatureFlagDefinitions \<noteq> FeatureFlagValues" "FeatureFlagValues \<noteq> FeatureFlagDefinitions"
  by (simp_all add: plain_name_def collection_names)

lemma view_flag_inspect:
  assumes "flags_ok v"
  shows "flag_inspect_definitionTx view_transaction k v = (Inr (flag_definitions v k), v)"
proof (cases "v FeatureFlagDefinitions k")
  case (Some d)
  then obtain x where "feature_flag_definition_from_json d = Inr x"
    using assms unfolding flags_ok_def by blast
  then show ?thesis by (simp add: flag_inspect_definitionTx_def doc_table_def Some)
qed (simp add: flag_inspect_definitionTx_def doc_table_def)

lemma view_flag_evaluate:
  assumes "flags_ok v"
  shows "flag_evaluateTx view_transaction q v = (flag_value v q, v)"
proof (cases "v FeatureFlagValues (evaluation_key q)")
  case None
  then show ?thesis
    using view_flag_inspect [OF assms, of "flg_name q"]
    by (simp add: flag_evaluateTx_def flag_value_def doc_table_def [of FeatureFlagValues] split: option.split)
next
  case (Some d)
  then obtain x where "feature_flag_value_from_json d = Inr x"
    using assms unfolding flags_ok_def by blast
  then show ?thesis by (simp add: flag_evaluateTx_def flag_value_def doc_table_def Some)
qed


lemma view_flag_register:
  assumes "ffv_finite (fl_default_value d)" and "flags_ok v"
  obtains j where "flag_register_definitionTx view_transaction d v =
      (Inr \<lparr>flr_registered_new = (flag_definitions v (fl_name d) = None), flr_definition = d\<rparr>,
       view_put FeatureFlagDefinitions (fl_name d) j v)"
    and "flags_ok (view_put FeatureFlagDefinitions (fl_name d) j v)"
    and "flag_definitions (view_put FeatureFlagDefinitions (fl_name d) j v) = (flag_definitions v)(fl_name d \<mapsto> d)"
proof -
  obtain j where j: "feature_flag_definition_to_json d = Inr j" "feature_flag_definition_from_json j = Inr d"
    by (rule feature_flag_definition.enc_cases [OF assms(1)])
  show ?thesis
  proof (rule that [of j])
    show "flag_register_definitionTx view_transaction d v =
      (Inr \<lparr>flr_registered_new = (flag_definitions v (fl_name d) = None), flr_definition = d\<rparr>,
       view_put FeatureFlagDefinitions (fl_name d) j v)"
      using view_flag_inspect [OF assms(2), of "fl_name d"] j(1) by (simp add: flag_register_definitionTx_def bindM_def)
  qed (use j assms(2) in \<open>auto simp: flags_ok_def doc_table_def fun_eq_iff\<close>)
qed

section \<open>Scopes\<close>

text \<open>The scope of a request, a missing id counting as the empty one. The key joins the ids with
  \<open>|\<close> and \<open>:\<close> unescaped, so it tells scopes apart when the ids are free of them.\<close>

definition flag_scope :: "flag_request \<Rightarrow> string list" where
  "flag_scope q =
     [flg_name q, value_or_empty (flc_tenant_id (flg_context q)), value_or_empty (flc_user_id (flg_context q)),
      value_or_empty (flc_entity_type (flg_context q)), value_or_empty (flc_entity_id (flg_context q))]"





section \<open>The store over any transaction\<close>

context occ_transaction
begin

lemma refines_flag_inspect [refine_intros]:
  "names FeatureFlagDefinitions \<Longrightarrow>
   refines usable view (flag_inspect_definitionTx I k) (flag_inspect_definitionTx view_transaction k)"
  unfolding flag_inspect_definitionTx_def by (rule refines_get) (auto intro!: refine_intros refines_bindM)

lemma refines_flag_register [refine_intros]:
  "names FeatureFlagDefinitions \<Longrightarrow>
   refines usable view (flag_register_definitionTx I d) (flag_register_definitionTx view_transaction d)"
  unfolding flag_register_definitionTx_def by (intro refine_intros refines_bindM)

lemma refines_flag_set_override [refine_intros]:
  "names FeatureFlagValues \<Longrightarrow>
   refines usable view (flag_set_overrideTx I q x) (flag_set_overrideTx view_transaction q x)"
  unfolding flag_set_overrideTx_def by (intro refine_intros refines_bindM)

lemma refines_flag_evaluate [refine_intros]:
  assumes "names FeatureFlagValues" and "names FeatureFlagDefinitions"
  shows "refines usable view (flag_evaluateTx I q) (flag_evaluateTx view_transaction q)"
  unfolding flag_evaluateTx_def
  by (rule refines_get [OF assms(1)]) (auto intro!: refine_intros refines_bindM assms)

end

section \<open>Runs of the store\<close>











text \<open>A backend-managed evaluation that returns, returns the value of the committed documents; a
  registration that returns has published the definition.\<close>

lemma flag_evaluate_committed:
  assumes "state_ok s" and "flags_ok (committed_docs s)"
    and run: "flag_evaluate in_memory_backend q s = (Inr x, s')"
  shows "flag_value (committed_docs s) q = Inr x"
proof -
  have ref: "refines (\<lambda>m. usable m \<and> fst m = s) mem_view (flag_evaluateTx memory_transaction q)
      (flag_evaluateTx view_transaction q)"
    by (rule memory_at.refines_flag_evaluate) simp_all
  have "managed in_memory_backend (flag_evaluateTx memory_transaction q) s = (Inr x, s')"
    using run by (simp add: flag_evaluate_def)
  then show ?thesis
    by (rule managed_memory_cases [OF assms(1) ref]) (simp_all add: view_flag_evaluate [OF assms(2)])
qed

lemma flag_register_committed:
  assumes "state_ok s" and "flags_ok (committed_docs s)" and d: "ffv_finite (fl_default_value d)"
    and run: "managed in_memory_backend (flag_register_definitionTx memory_transaction d) s = (Inr x, s')"
  shows "flr_registered_new x \<longleftrightarrow> flag_definitions (committed_docs s) (fl_name d) = None"
    and "flag_definitions (committed_docs s') = (flag_definitions (committed_docs s))(fl_name d \<mapsto> d)"
    and "flag_overrides (committed_docs s') = flag_overrides (committed_docs s)"
proof -
  have ref: "refines (\<lambda>m. usable m \<and> fst m = s) mem_view (flag_register_definitionTx memory_transaction d)
      (flag_register_definitionTx view_transaction d)"
    by (rule memory_at.refines_flag_register) simp
  obtain j where j: "flag_register_definitionTx view_transaction d (committed_docs s) =
      (Inr \<lparr>flr_registered_new = (flag_definitions (committed_docs s) (fl_name d) = None), flr_definition = d\<rparr>,
       view_put FeatureFlagDefinitions (fl_name d) j (committed_docs s))"
    "flag_definitions (view_put FeatureFlagDefinitions (fl_name d) j (committed_docs s)) =
       (flag_definitions (committed_docs s))(fl_name d \<mapsto> d)"
    by (rule view_flag_register [OF d assms(2)])
  let ?v = "view_put FeatureFlagDefinitions (fl_name d) j (committed_docs s)"
  from assms(1) ref run have *: "x = \<lparr>flr_registered_new = (flag_definitions (committed_docs s) (fl_name d) = None), flr_definition = d\<rparr> \<and>
      (\<forall>c. plain_name c \<longrightarrow> committed_docs s' c = ?v c)"
    by (cases rule: managed_memory_cases) (simp_all add: j(1) del: view_put_apply)
  then show "flr_registered_new x \<longleftrightarrow> flag_definitions (committed_docs s) (fl_name d) = None" by simp
  have "flag_definitions (committed_docs s') = flag_definitions ?v" "flag_overrides (committed_docs s') = flag_overrides ?v"
    by (intro doc_table_cong; use * flag_collections_plain(1,2) in blast)+
  then show "flag_definitions (committed_docs s') = (flag_definitions (committed_docs s))(fl_name d \<mapsto> d)"
    and "flag_overrides (committed_docs s') = flag_overrides (committed_docs s)"
    using j(2) by simp_all
qed

section \<open>Properties\<close>



definition beta_for :: "string option \<Rightarrow> string option \<Rightarrow> flag_request" where
  "beta_for tenant user =
     \<lparr>flg_name = ''beta'', flg_context =
       \<lparr>flc_tenant_id = tenant, flc_user_id = user, flc_entity_type = None, flc_entity_id = None\<rparr>\<rparr>"


text \<open>Ids with a bar collide: an override for one tenant answers for another.\<close>

lemma flag_keys_collide:
  "evaluation_key (beta_for (Some ''acme|user:bob'') None) = evaluation_key (beta_for (Some ''acme'') (Some ''bob|user:''))"
  "flag_scope (beta_for (Some ''acme|user:bob'') None) \<noteq> flag_scope (beta_for (Some ''acme'') (Some ''bob|user:''))"
  by (simp_all add: evaluation_key_def flag_scope_def beta_for_def value_or_empty_def)

end
