(* ===== verification/Sinks.thy ===== *)
theory Sinks
  imports Codecs Document_Table
begin

text \<open>
  \<open>RuntimeLogSink\<close> and \<open>RuntimeMetricSink\<close> of \<open>bindings/cpp/runtime/log_sink.hpp\<close> and
  \<open>bindings/cpp/runtime/metric_sink.hpp\<close>. A sink is an object with a counter of its own, from
  which it makes the keys of the documents it writes: its methods are actions on the pair of the
  sink and the transaction.
\<close>

section \<open>The sinks\<close>

record log_registration =
  lor_registered_new :: bool
  lor_definition :: log_definition

record metric_registration =
  mdr_registered_new :: bool
  mdr_definition :: metric_definition

record log_sink =
  next_event_id :: "64 word"

record metric_sink =
  next_sample_id :: "64 word"

definition new_log_sink :: log_sink where
  "new_log_sink = \<lparr>next_event_id = 0\<rparr>"

definition new_metric_sink :: metric_sink where
  "new_metric_sink = \<lparr>next_sample_id = 0\<rparr>"

text \<open>An action on the transaction leaves the sink alone.\<close>

definition with_tx :: "('tx, 'a) action \<Rightarrow> ('k \<times> 'tx, 'a) action" where
  "with_tx a p = (case a (snd p) of (r, tx) \<Rightarrow> (r, (fst p, tx)))"

text \<open>The backend-managed form: the sink keeps its counter when the transaction is lost.\<close>

definition managed_sink :: "('s, 'tx) ibackend \<Rightarrow> ('k \<times> 'tx, 'a) action \<Rightarrow> ('k \<times> 's, 'a) action" where
  "managed_sink B operation p =
     (case bindM operation (\<lambda>x. bindM (with_tx (ib_commit B)) (\<lambda>_. returnM x)) (fst p, ib_begin B (snd p)) of
        (r, (k, tx)) \<Rightarrow> (r, (k, ib_shared B tx)))"

subsection \<open>Logs\<close>

definition log_ensure_collections :: "('s, 'tx) ibackend \<Rightarrow> ('s, unit) action" where
  "log_ensure_collections B = ib_ensure_collections B
     [collection_with_keys LogDefinitions [KF_Name], collection_with_keys LogEvents [KF_EventId]]"

definition log_inspect_definitionTx :: "'tx itransaction \<Rightarrow> string \<Rightarrow> ('tx, log_definition option) action" where
  "log_inspect_definitionTx I name =
     bindM (it_get I LogDefinitions name) (\<lambda>record.
       case record of
         None \<Rightarrow> returnM None
       | Some r \<Rightarrow> bindM (liftM (log_definition_from_json (vr_document r))) (\<lambda>d. returnM (Some d)))"

definition log_register_definitionTx :: "'tx itransaction \<Rightarrow> log_definition \<Rightarrow> ('tx, log_registration) action" where
  "log_register_definitionTx I d =
     bindM (log_inspect_definitionTx I (lo_name d)) (\<lambda>existing.
     bindM (liftM (log_definition_to_json d)) (\<lambda>j.
     bindM (it_put I LogDefinitions (lo_name d) j) (\<lambda>_.
       returnM \<lparr>lor_registered_new = (existing = None), lor_definition = d\<rparr>)))"

definition next_event_key :: "string \<Rightarrow> (log_sink \<times> 'tx, string) action" where
  "next_event_key name p =
     (let sink = (fst p)\<lparr>next_event_id := next_event_id (fst p) + 1\<rparr> in
      (Inr (name @ '':'' @ to_string_u64 (next_event_id sink)), (sink, snd p)))"

text \<open>Encoding an event never throws, so the order in which C++ evaluates the arguments of \<open>put\<close>
  makes no difference.\<close>

definition log_emitTx :: "'tx itransaction \<Rightarrow> log_event \<Rightarrow> (log_sink \<times> 'tx, unit) action" where
  "log_emitTx I e =
     bindM (next_event_key (le_name e)) (\<lambda>key.
     bindM (liftM (log_event_to_json e)) (\<lambda>j.
       with_tx (it_put I LogEvents key j)))"

definition log_register_definition ::
    "('s, 'tx) ibackend \<Rightarrow> log_definition \<Rightarrow> ('s, log_registration) action" where
  "log_register_definition B d =
     bindM (log_ensure_collections B) (\<lambda>_. managed B (log_register_definitionTx (ib_tx B) d))"

definition log_inspect_definition :: "('s, 'tx) ibackend \<Rightarrow> string \<Rightarrow> ('s, log_definition option) action" where
  "log_inspect_definition B name = managed B (log_inspect_definitionTx (ib_tx B) name)"

definition log_emit :: "('s, 'tx) ibackend \<Rightarrow> log_event \<Rightarrow> (log_sink \<times> 's, unit) action" where
  "log_emit B e = bindM (with_tx (log_ensure_collections B)) (\<lambda>_. managed_sink B (log_emitTx (ib_tx B) e))"

definition log_inspect_events :: "('s, 'tx) ibackend \<Rightarrow> ('s, log_event list) action" where
  "log_inspect_events B =
     bindM (managed B (ib_query B LogEvents query_all)) (\<lambda>records.
       liftM (map_result (\<lambda>r. log_event_from_json (vr_document r)) records))"

subsection \<open>Metrics\<close>

definition metric_ensure_collections :: "('s, 'tx) ibackend \<Rightarrow> ('s, unit) action" where
  "metric_ensure_collections B = ib_ensure_collections B
     [collection_with_keys MetricDefinitions [KF_Name], collection_with_keys MetricSamples [KF_SampleId]]"

definition metric_inspect_definitionTx ::
    "'tx itransaction \<Rightarrow> string \<Rightarrow> ('tx, metric_definition option) action" where
  "metric_inspect_definitionTx I name =
     bindM (it_get I MetricDefinitions name) (\<lambda>record.
       case record of
         None \<Rightarrow> returnM None
       | Some r \<Rightarrow> bindM (liftM (metric_definition_from_json (vr_document r))) (\<lambda>d. returnM (Some d)))"

definition metric_register_definitionTx ::
    "'tx itransaction \<Rightarrow> metric_definition \<Rightarrow> ('tx, metric_registration) action" where
  "metric_register_definitionTx I d =
     bindM (metric_inspect_definitionTx I (md_name d)) (\<lambda>existing.
     bindM (liftM (metric_definition_to_json d)) (\<lambda>j.
     bindM (it_put I MetricDefinitions (md_name d) j) (\<lambda>_.
       returnM \<lparr>mdr_registered_new = (existing = None), mdr_definition = d\<rparr>)))"

definition next_sample_key :: "string \<Rightarrow> (metric_sink \<times> 'tx, string) action" where
  "next_sample_key name p =
     (let sink = (fst p)\<lparr>next_sample_id := next_sample_id (fst p) + 1\<rparr> in
      (Inr (name @ '':'' @ to_string_u64 (next_sample_id sink)), (sink, snd p)))"

text \<open>Encoding a sample throws when its value is not finite. C++ leaves open whether the key, and
  with it the counter, is advanced before that: \<open>key_first\<close> is that choice.\<close>

definition metric_recordTx :: "bool \<Rightarrow> 'tx itransaction \<Rightarrow> metric_sample \<Rightarrow> (metric_sink \<times> 'tx, unit) action" where
  "metric_recordTx key_first I s =
     (if key_first
      then bindM (next_sample_key (me_name s)) (\<lambda>key.
        bindM (liftM (metric_sample_to_json s)) (\<lambda>j.
          with_tx (it_put I MetricSamples key j)))
      else bindM (liftM (metric_sample_to_json s)) (\<lambda>j.
        bindM (next_sample_key (me_name s)) (\<lambda>key.
          with_tx (it_put I MetricSamples key j))))"

definition metric_register_definition ::
    "('s, 'tx) ibackend \<Rightarrow> metric_definition \<Rightarrow> ('s, metric_registration) action" where
  "metric_register_definition B d =
     bindM (metric_ensure_collections B) (\<lambda>_. managed B (metric_register_definitionTx (ib_tx B) d))"

definition metric_inspect_definition ::
    "('s, 'tx) ibackend \<Rightarrow> string \<Rightarrow> ('s, metric_definition option) action" where
  "metric_inspect_definition B name = managed B (metric_inspect_definitionTx (ib_tx B) name)"

definition metric_record :: "bool \<Rightarrow> ('s, 'tx) ibackend \<Rightarrow> metric_sample \<Rightarrow> (metric_sink \<times> 's, unit) action" where
  "metric_record key_first B s =
     bindM (with_tx (metric_ensure_collections B)) (\<lambda>_. managed_sink B (metric_recordTx key_first (ib_tx B) s))"

definition metric_inspect_samples :: "('s, 'tx) ibackend \<Rightarrow> ('s, metric_sample list) action" where
  "metric_inspect_samples B =
     bindM (managed B (ib_query B MetricSamples query_all)) (\<lambda>records.
       liftM (map_result (\<lambda>r. metric_sample_from_json (vr_document r)) records))"

section \<open>The documents a sink has written\<close>

definition sink_key :: "64 word \<Rightarrow> string \<Rightarrow> key" where
  "sink_key i name = name @ '':'' @ to_string_u64 i"

fun sink_entries :: "64 word \<Rightarrow> ('a \<Rightarrow> string) \<Rightarrow> 'a list \<Rightarrow> (key \<times> 'a) list" where
  "sink_entries k name [] = []"
| "sink_entries k name (e # es) = (sink_key (k + 1) (name e), e) # sink_entries (k + 1) name es"

definition put_entries :: "collection_name \<Rightarrow> (key \<times> json) list \<Rightarrow> doc_view \<Rightarrow> doc_view" where
  "put_entries c es v = fold (\<lambda>(k, d). view_put c k d) es v"

text \<open>The keys a counter at \<open>k\<close> has issued.\<close>

definition issued :: "64 word \<Rightarrow> key \<Rightarrow> bool" where
  "issued k key \<longleftrightarrow> (\<exists>i name. key = sink_key i name \<and> i \<le> k)"

lemma sink_key_index: "sink_key i a = sink_key j b \<Longrightarrow> i = j"
  using last_segment [of "to_string_u64 i" "to_string_u64 j" a b] to_string_u64_no_colon
  by (simp add: sink_key_def to_string_u64_inject)

lemma put_entries_lookup:
  "distinct (map fst es) \<Longrightarrow>
   put_entries c es v c k = (case map_of es k of None \<Rightarrow> v c k | Some d \<Rightarrow> Some d)"
proof (induction es arbitrary: v)
  case (Cons e es)
  then show ?case
    by (cases e) (force simp: put_entries_def map_of_eq_None_iff split: option.split)
qed (simp add: put_entries_def)

lemma sink_entries_keys:
  assumes "unat k + length es < 2 ^ 64" and "key \<in> fst ` set (sink_entries k name es)"
  shows "\<not> issued k key"
  using assms
proof (induction es arbitrary: k)
  case (Cons e es)
  have k1: "unat (k + 1) = Suc (unat k)"
    using Cons.prems(1) by (simp add: unat_word_ariths)
  then have lt: "k < k + 1"
    by (simp add: word_less_nat_alt)
  have "i \<le> k \<Longrightarrow> i \<le> k + 1" for i
    using lt by (meson order.trans order_less_imp_le)
  then have step: "issued k key \<Longrightarrow> issued (k + 1) key"
    unfolding issued_def by blast
  have "\<not> issued k (sink_key (k + 1) (name e))"
    using lt sink_key_index unfolding issued_def by (metis linorder_not_le)
  moreover have "\<not> issued k key" if "key \<in> fst ` set (sink_entries (k + 1) name es)"
    using Cons.IH [OF _ that] Cons.prems(1) step k1 by auto
  ultimately show ?case
    using Cons.prems(2) by auto
qed simp

lemma sink_entries_distinct:
  assumes "unat k + length es < 2 ^ 64"
  shows "distinct (map fst (sink_entries k name es))"
  using assms
proof (induction es arbitrary: k)
  case (Cons e es)
  have k1: "unat (k + 1) = Suc (unat k)"
    using Cons.prems by (simp add: unat_word_ariths)
  have "issued (k + 1) (sink_key (k + 1) (name e))"
    unfolding issued_def by blast
  then have "sink_key (k + 1) (name e) \<notin> fst ` set (sink_entries (k + 1) name es)"
    using sink_entries_keys [of "k + 1" es] Cons.prems k1 by auto
  then show ?case
    using Cons k1 by simp
qed simp

text \<open>The table of a collection after the entries have been put: none of them is lost.\<close>

lemma put_entries_table:
  assumes "distinct (map fst es)" and "\<And>k x. (k, x) \<in> set es \<Longrightarrow> dec (enc x) = Inr x"
  shows "doc_table c dec (put_entries c (map (\<lambda>(k, x). (k, enc x)) es) v) = doc_table c dec v ++ map_of es"
proof
  fix k
  have d: "distinct (map fst (map (\<lambda>(k, x). (k, enc x)) es))"
    using assms(1) by (simp add: comp_def case_prod_beta)
  have m: "map_of (map (\<lambda>(k, x). (k, enc x)) es) k = map_option enc (map_of es k)"
    by (simp add: map_of_map)
  have "dec (enc x) = Inr x" if "map_of es k = Some x" for x
    using assms(2) map_of_SomeD [OF that] by blast
  then show "doc_table c dec (put_entries c (map (\<lambda>(k, x). (k, enc x)) es) v) k = (doc_table c dec v ++ map_of es) k"
    by (simp add: doc_table_def put_entries_lookup [OF d] m map_add_def split: option.split)
qed

section \<open>The sinks over any transaction\<close>

abbreviation log_document :: "log_event \<Rightarrow> json" where
  "log_document e \<equiv> projr (log_event_to_json e)"

abbreviation sample_document :: "metric_sample \<Rightarrow> json" where
  "sample_document s \<equiv> projr (metric_sample_to_json s)"

lemma log_emit_step:
  "log_emitTx I e (\<lparr>next_event_id = k\<rparr>, tx) =
     (case it_put I LogEvents (sink_key (k + 1) (le_name e)) (log_document e) tx of
        (r, tx') \<Rightarrow> (r, (\<lparr>next_event_id = k + 1\<rparr>, tx')))"
proof -
  obtain j where "log_event_to_json e = Inr j"
    by (rule log_event.enc_cases [OF TrueI])
  then show ?thesis
    by (simp add: log_emitTx_def bindM_def next_event_key_def with_tx_def sink_key_def split: prod.split)
qed

lemma metric_record_step:
  assumes "is_finite (me_value s)"
  shows "metric_recordTx key_first I s (\<lparr>next_sample_id = k\<rparr>, tx) =
     (case it_put I MetricSamples (sink_key (k + 1) (me_name s)) (sample_document s) tx of
        (r, tx') \<Rightarrow> (r, (\<lparr>next_sample_id = k + 1\<rparr>, tx')))"
proof -
  obtain j where "metric_sample_to_json s = Inr j"
    by (rule metric_sample.enc_cases [OF assms])
  then show ?thesis
    by (simp add: metric_recordTx_def bindM_def next_sample_key_def with_tx_def sink_key_def split: prod.split)
qed

text \<open>A sample that is not a number is refused: nothing is put, though its key may be used up.\<close>

lemma metric_record_not_finite:
  assumes "\<not> is_finite (me_value s)"
  obtains e k' where "metric_recordTx key_first I s (\<lparr>next_sample_id = k\<rparr>, tx) = (Inl e, (\<lparr>next_sample_id = k'\<rparr>, tx))"
    and "k' = (if key_first then k + 1 else k)"
  using assms
  by (auto simp: metric_recordTx_def bindM_def next_sample_key_def metric_sample_to_json_def json_of_double_def)

context occ_transaction
begin

lemma log_emit_run:
  assumes "names LogEvents" and "usable tx"
  shows "\<exists>tx'. forM es (log_emitTx I) (\<lparr>next_event_id = k\<rparr>, tx) = (Inr (), (\<lparr>next_event_id = k + of_nat (length es)\<rparr>, tx')) \<and>
    usable tx' \<and> view tx' = put_entries LogEvents (map (\<lambda>(k, e). (k, log_document e)) (sink_entries k le_name es)) (view tx)"
  using assms(2)
proof (induction es arbitrary: k tx)
  case (Cons e es)
  obtain tx1 where 1: "it_put I LogEvents (sink_key (k + 1) (le_name e)) (log_document e) tx = (Inr (), tx1)" "usable tx1"
      "view tx1 = view_put LogEvents (sink_key (k + 1) (le_name e)) (log_document e) (view tx)"
    using put_cases [OF Cons.prems assms(1)] .
  then show ?case
    using Cons.IH [OF 1(2), of "k + 1"] by (simp add: bindM_def log_emit_step put_entries_def ac_simps del: view_put_apply)
qed (simp add: put_entries_def)

lemma metric_record_run:
  assumes "names MetricSamples" and "usable tx" and "list_all (\<lambda>s. is_finite (me_value s)) ss"
  shows "\<exists>tx'. forM ss (metric_recordTx key_first I) (\<lparr>next_sample_id = k\<rparr>, tx) =
      (Inr (), (\<lparr>next_sample_id = k + of_nat (length ss)\<rparr>, tx')) \<and>
    usable tx' \<and> view tx' = put_entries MetricSamples (map (\<lambda>(k, s). (k, sample_document s)) (sink_entries k me_name ss)) (view tx)"
  using assms(2,3)
proof (induction ss arbitrary: k tx)
  case (Cons s ss)
  have fin: "is_finite (me_value s)" "list_all (\<lambda>s. is_finite (me_value s)) ss"
    using Cons.prems(2) by simp_all
  obtain tx1 where 1: "it_put I MetricSamples (sink_key (k + 1) (me_name s)) (sample_document s) tx = (Inr (), tx1)"
      "usable tx1" "view tx1 = view_put MetricSamples (sink_key (k + 1) (me_name s)) (sample_document s) (view tx)"
    using put_cases [OF Cons.prems(1) assms(1)] .
  then show ?case
    using Cons.IH [OF 1(2) fin(2), of "k + 1"] fin(1)
    by (simp add: bindM_def metric_record_step put_entries_def ac_simps del: view_put_apply)
qed (simp add: put_entries_def)

end

section \<open>Properties\<close>

abbreviation logged_events :: "doc_view \<Rightarrow> key \<rightharpoonup> log_event" where
  "logged_events \<equiv> doc_table LogEvents log_event_from_json"

abbreviation recorded_samples :: "doc_view \<Rightarrow> key \<rightharpoonup> metric_sample" where
  "recorded_samples \<equiv> doc_table MetricSamples metric_sample_from_json"

lemma sink_entries_length [simp]: "length (sink_entries k name es) = length es"
  by (induction es arbitrary: k) simp_all

lemma sink_entries_values [simp]: "map snd (sink_entries k name es) = es"
  by (induction es arbitrary: k) simp_all

lemma observation_collections_plain [simp]:
  "plain_name LogEvents" "plain_name MetricSamples" "plain_name LogDefinitions" "plain_name MetricDefinitions"
  by (simp_all add: plain_name_def collection_names)

text \<open>A sink loses no event. After any number of emits of one log sink whose counter has issued every
  key stored so far, all of them succeed, every event stored before is still there, and each emitted
  event is stored under a key of its own: the stored events are the old ones and exactly the
  emitted ones, up to \<open>2 ^ 64\<close> events per sink.\<close>

theorem log_sink_loses_nothing:
  assumes "usable m" and "\<And>key. logged_events (mem_view m) key \<noteq> None \<Longrightarrow> issued k key"
    and "unat k + length es < 2 ^ 64"
  shows "\<exists>m' new. forM es (log_emitTx memory_transaction) (\<lparr>next_event_id = k\<rparr>, m) =
      (Inr (), (\<lparr>next_event_id = k + of_nat (length es)\<rparr>, m')) \<and>
    map snd new = es \<and> distinct (map fst new) \<and>
    (\<forall>key \<in> fst ` set new. logged_events (mem_view m) key = None) \<and>
    logged_events (mem_view m') = logged_events (mem_view m) ++ map_of new"
proof -
  let ?new = "sink_entries k le_name es"
  obtain m' where m': "forM es (log_emitTx memory_transaction) (\<lparr>next_event_id = k\<rparr>, m) =
      (Inr (), (\<lparr>next_event_id = k + of_nat (length es)\<rparr>, m'))"
    "mem_view m' = put_entries LogEvents (map (\<lambda>(k, e). (k, log_document e)) ?new) (mem_view m)"
    using memory_at.log_emit_run [of m "fst m" es k] assms(1) by auto
  have d: "distinct (map fst ?new)"
    by (rule sink_entries_distinct [OF assms(3)])
  have "logged_events (mem_view m') = logged_events (mem_view m) ++ map_of ?new"
    unfolding m'(2) by (rule put_entries_table [OF d]) (metis log_event.enc_cases sum.sel(2))
  moreover have "\<forall>key \<in> fst ` set ?new. logged_events (mem_view m) key = None"
    using sink_entries_keys [OF assms(3)] assms(2) by blast
  ultimately show ?thesis
    using m'(1) d by (intro exI [of _ m'] exI [of _ ?new]) simp
qed

text \<open>The same of the metric sink and its samples.\<close>

lemma metric_sink_loses_nothing:
  assumes "usable m" and "\<And>key. recorded_samples (mem_view m) key \<noteq> None \<Longrightarrow> issued k key"
    and "unat k + length ss < 2 ^ 64" and fin: "list_all (\<lambda>s. is_finite (me_value s)) ss"
  shows "\<exists>m' new. forM ss (metric_recordTx key_first memory_transaction) (\<lparr>next_sample_id = k\<rparr>, m) =
      (Inr (), (\<lparr>next_sample_id = k + of_nat (length ss)\<rparr>, m')) \<and>
    map snd new = ss \<and> distinct (map fst new) \<and>
    (\<forall>key \<in> fst ` set new. recorded_samples (mem_view m) key = None) \<and>
    recorded_samples (mem_view m') = recorded_samples (mem_view m) ++ map_of new"
proof -
  let ?new = "sink_entries k me_name ss"
  obtain m' where m': "forM ss (metric_recordTx key_first memory_transaction) (\<lparr>next_sample_id = k\<rparr>, m) =
      (Inr (), (\<lparr>next_sample_id = k + of_nat (length ss)\<rparr>, m'))"
    "mem_view m' = put_entries MetricSamples (map (\<lambda>(k, e). (k, sample_document e)) ?new) (mem_view m)"
    using memory_at.metric_record_run [of m "fst m" ss key_first k] assms(1) fin by auto
  have d: "distinct (map fst ?new)"
    by (rule sink_entries_distinct [OF assms(3)])
  have "s \<in> set ss" if "(key, s) \<in> set ?new" for key s
    using that sink_entries_values [of k me_name ss] by (metis image_eqI image_set snd_conv)
  then have "metric_sample_from_json (sample_document s) = Inr s" if "(key, s) \<in> set ?new" for key s
    using that fin metric_sample.enc_cases [of s] by (metis list_all_iff sum.sel(2))
  then have "recorded_samples (mem_view m') = recorded_samples (mem_view m) ++ map_of ?new"
    unfolding m'(2) by (rule put_entries_table [OF d])
  moreover have "\<forall>key \<in> fst ` set ?new. recorded_samples (mem_view m) key = None"
    using sink_entries_keys [OF assms(3)] assms(2) by blast
  ultimately show ?thesis
    using m'(1) d by (intro exI [of _ m'] exI [of _ ?new]) simp
qed

definition started_event :: log_event where
  "started_event = \<lparr>le_name = ''order'', le_level = LL_Info, le_event_name = ''started'', le_fields = JObject []\<rparr>"

definition failed_event :: log_event where
  "failed_event = \<lparr>le_name = ''order'', le_level = LL_Error, le_event_name = ''failed'', le_fields = JObject []\<rparr>"

lemma initial_docs [simp]: "mem_view (begin_tx initial_state) = (\<lambda>c k. None)"
  unfolding begin_view by (simp add: committed_docs_def lookup_record_def initial_state_def fun_eq_iff)

theorem log_sink_loses_nothing_witness:
  "\<exists>m' new. forM [started_event, failed_event] (log_emitTx memory_transaction) (new_log_sink, begin_tx initial_state) =
      (Inr (), (\<lparr>next_event_id = 2\<rparr>, m')) \<and>
    map snd new = [started_event, failed_event] \<and> distinct (map fst new) \<and>
    logged_events (mem_view m') = map_of new"
proof -
  have "usable (begin_tx initial_state)"
    by (rule begin_usable) (rule initial_state_ok)
  moreover have "logged_events (\<lambda>c k. None) = Map.empty"
    by (simp add: doc_table_def fun_eq_iff)
  ultimately show ?thesis
    using log_sink_loses_nothing [of "begin_tx initial_state" 0 "[started_event, failed_event]"]
    by (simp add: new_log_sink_def del: forM.simps)
qed

text \<open>A second sink, as a restarted process has, starts its counter again: its first event
  overwrites the first event of the same name that the other sink emitted, which is then gone.\<close>

theorem second_sink_overwrites:
  assumes "usable m" and "le_name e = le_name f"
  shows "\<exists>m1 m2. log_emitTx memory_transaction e (new_log_sink, m) = (Inr (), (\<lparr>next_event_id = 1\<rparr>, m1)) \<and>
    log_emitTx memory_transaction f (new_log_sink, m1) = (Inr (), (\<lparr>next_event_id = 1\<rparr>, m2)) \<and>
    logged_events (mem_view m1) = (logged_events (mem_view m))(sink_key 1 (le_name e) \<mapsto> e) \<and>
    logged_events (mem_view m2) = (logged_events (mem_view m))(sink_key 1 (le_name e) \<mapsto> f)"
proof -
  have put: "logged_events (view_put LogEvents key (log_document e) v) = (logged_events v)(key \<mapsto> e)" for key e v
    using put_entries_table [of "[(key, e)]" log_event_from_json log_document LogEvents v] log_event.enc_cases [of e]
    by (simp add: put_entries_def del: view_put_apply) (metis sum.sel(2))
  have emit: "\<exists>m'. log_emitTx memory_transaction e (new_log_sink, m) = (Inr (), (\<lparr>next_event_id = 1\<rparr>, m')) \<and>
      usable m' \<and> mem_view m' = view_put LogEvents (sink_key 1 (le_name e)) (log_document e) (mem_view m)"
    if "usable m" for e m
    using memory_at.log_emit_run [of m "fst m" "[e]" 0] that
    by (auto simp: bindM_def put_entries_def new_log_sink_def split: prod.splits sum.splits)
  obtain m1 where m1: "log_emitTx memory_transaction e (new_log_sink, m) = (Inr (), (\<lparr>next_event_id = 1\<rparr>, m1))" "usable m1"
      "mem_view m1 = view_put LogEvents (sink_key 1 (le_name e)) (log_document e) (mem_view m)"
    using emit [OF assms(1)] by blast
  obtain m2 where m2: "log_emitTx memory_transaction f (new_log_sink, m1) = (Inr (), (\<lparr>next_event_id = 1\<rparr>, m2))"
      "mem_view m2 = view_put LogEvents (sink_key 1 (le_name f)) (log_document f) (mem_view m1)"
    using emit [OF m1(2)] by blast
  show ?thesis
    using m1(1,3) m2 put assms(2) by (intro exI [of _ m1] exI [of _ m2]) (simp del: view_put_apply)
qed

theorem second_sink_overwrites_witness:
  "\<exists>m1 m2. log_emitTx memory_transaction failed_event (new_log_sink, begin_tx initial_state) =
      (Inr (), (\<lparr>next_event_id = 1\<rparr>, m1)) \<and>
    log_emitTx memory_transaction started_event (new_log_sink, m1) = (Inr (), (\<lparr>next_event_id = 1\<rparr>, m2)) \<and>
    logged_events (mem_view m2) = [sink_key 1 ''order'' \<mapsto> started_event]"
proof -
  have "usable (begin_tx initial_state)"
    by (rule begin_usable) (rule initial_state_ok)
  moreover have "logged_events (\<lambda>c k. None) = Map.empty"
    by (simp add: doc_table_def fun_eq_iff)
  ultimately show ?thesis
    using second_sink_overwrites [of "begin_tx initial_state" failed_event started_event]
    by (auto simp: started_event_def failed_event_def)
qed

text \<open>Registering another definition under a name that is taken succeeds and replaces the first, for
  logs and for metrics.\<close>

lemma log_redefinition_accepted:
  assumes "log_definition_to_json d0 = Inr j0" and "v LogDefinitions (lo_name d) = Some j0"
    and "log_definition_to_json d = Inr j"
  shows "log_register_definitionTx view_transaction d v =
    (Inr \<lparr>lor_registered_new = False, lor_definition = d\<rparr>, view_put LogDefinitions (lo_name d) j v)"
proof -
  have "log_definition_from_json j0 = Inr (log_definition_norm d0)"
    by (rule log_definition.dec_enc [OF TrueI assms(1)])
  then show ?thesis
    using assms(2,3) by (simp add: log_register_definitionTx_def log_inspect_definitionTx_def bindM_def del: view_put_apply)
qed

lemma metric_redefinition_accepted:
  assumes "metric_definition_to_json d0 = Inr j0" and "v MetricDefinitions (md_name d) = Some j0"
    and "metric_definition_to_json d = Inr j"
  shows "metric_register_definitionTx view_transaction d v =
    (Inr \<lparr>mdr_registered_new = False, mdr_definition = d\<rparr>, view_put MetricDefinitions (md_name d) j v)"
proof -
  have "metric_definition_from_json j0 = Inr (metric_definition_norm d0)"
    by (rule metric_definition.dec_enc [OF TrueI assms(1)])
  then show ?thesis
    using assms(2,3) by (simp add: metric_register_definitionTx_def metric_inspect_definitionTx_def bindM_def del: view_put_apply)
qed

end
