(* ===== verification/Entity_Gc.thy ===== *)
theory Entity_Gc
  imports Store_Refinement
begin

text \<open>
  The entity garbage collector of \<open>bindings/cpp/runtime\<close>: \<open>entity_gc_repository.hpp\<close>,
  \<open>entity_gc_workers.hpp\<close> and \<open>entity_gc_registration.hpp\<close>, with the descriptors of
  \<open>entity_gc_types.hpp\<close>. A worker is written against the interface \<open>IEntityGcRepository\<close>; what it
  relies on is the locale \<open>gc_repository\<close>, which the default repository satisfies over any
  transaction.
\<close>

section \<open>Descriptors and requests\<close>

record gc_terminal_state =
  gct_state :: string
  gct_after :: string
  gct_mode :: string

record gc_descriptor =
  gcd_entity :: string
  gcd_collection :: string
  gcd_status_field :: string
  gcd_terminal_states :: "gc_terminal_state list"

record gc_eligibility_request =
  gce_descriptor :: gc_descriptor
  gce_now :: string
  gce_limit :: "64 word"

record gc_finalize_request =
  gcf_descriptor :: gc_descriptor
  gcf_key :: key
  gcf_now :: string

record 'tx gc_repository =
  gcr_list :: "'tx itransaction \<Rightarrow> gc_eligibility_request \<Rightarrow> ('tx, versioned_record list) action"
  gcr_finalize :: "'tx itransaction \<Rightarrow> gc_finalize_request \<Rightarrow> ('tx, unit) action"

record gc_worker_config =
  gcc_batch_limit :: "64 word"

definition default_gc_config :: gc_worker_config where
  "default_gc_config = \<lparr>gcc_batch_limit = 100\<rparr>"

record gc_run_result =
  gcs_scanned :: "64 word"
  gcs_finalized :: "64 word"

record 'tx gc_worker =
  gcw_descriptor :: gc_descriptor
  gcw_repository :: "'tx gc_repository"
  gcw_config :: gc_worker_config

section \<open>The default repository\<close>

definition is_terminal_gc_state :: "gc_descriptor \<Rightarrow> string \<Rightarrow> bool" where
  "is_terminal_gc_state d status \<longleftrightarrow> list_ex (\<lambda>t. gct_state t = status) (gcd_terminal_states d)"

fun eligible_loop ::
    "gc_eligibility_request \<Rightarrow> versioned_record list \<Rightarrow> versioned_record list \<Rightarrow> versioned_record list" where
  "eligible_loop q [] eligible = eligible"
| "eligible_loop q (r # rs) eligible =
     (if length eligible \<ge> unat (gce_limit q) then eligible
      else case json_find (vr_document r) (gcd_status_field (gce_descriptor q)) of
          Some (JString status) \<Rightarrow>
            (if is_terminal_gc_state (gce_descriptor q) status
             then eligible_loop q rs (eligible @ [r])
             else eligible_loop q rs eligible)
        | _ \<Rightarrow> eligible_loop q rs eligible)"

definition list_gc_eligibleTx ::
    "'tx itransaction \<Rightarrow> gc_eligibility_request \<Rightarrow> ('tx, versioned_record list) action" where
  "list_gc_eligibleTx I q =
     bindM (it_query I (gcd_collection (gce_descriptor q)) query_all) (\<lambda>records.
       returnM (eligible_loop q records []))"

definition finalize_gcTx :: "'tx itransaction \<Rightarrow> gc_finalize_request \<Rightarrow> ('tx, unit) action" where
  "finalize_gcTx I q = it_erase I (gcd_collection (gcf_descriptor q)) (gcf_key q)"

definition default_gc_repository :: "'tx gc_repository" where
  "default_gc_repository = \<lparr>gcr_list = list_gc_eligibleTx, gcr_finalize = finalize_gcTx\<rparr>"

section \<open>The worker\<close>

fun finalize_loop ::
    "'tx gc_worker \<Rightarrow> 'tx itransaction \<Rightarrow> string \<Rightarrow> versioned_record list \<Rightarrow> gc_run_result \<Rightarrow>
     ('tx, gc_run_result) action" where
  "finalize_loop w I now [] result = returnM result"
| "finalize_loop w I now (r # rs) result =
     bindM (gcr_finalize (gcw_repository w) I
         \<lparr>gcf_descriptor = gcw_descriptor w, gcf_key = vr_key r, gcf_now = now\<rparr>) (\<lambda>_.
       finalize_loop w I now rs (result\<lparr>gcs_finalized := gcs_finalized result + 1\<rparr>))"

definition gc_run_onceTx :: "'tx gc_worker \<Rightarrow> 'tx itransaction \<Rightarrow> string \<Rightarrow> ('tx, gc_run_result) action" where
  "gc_run_onceTx w I now =
     bindM (gcr_list (gcw_repository w) I
         \<lparr>gce_descriptor = gcw_descriptor w, gce_now = now, gce_limit = gcc_batch_limit (gcw_config w)\<rparr>) (\<lambda>records.
       finalize_loop w I now records \<lparr>gcs_scanned = of_nat (length records), gcs_finalized = 0\<rparr>)"

text \<open>\<open>run_once\<close> aborts the transaction and rethrows when the run or the commit throws.\<close>

definition gc_run_once ::
    "'tx gc_worker \<Rightarrow> ('s, 'tx) ibackend \<Rightarrow> string \<Rightarrow> ('s, gc_run_result) action" where
  "gc_run_once w B now s =
     (case bindM (gc_run_onceTx w (ib_tx B) now) (\<lambda>result. bindM (ib_commit B) (\<lambda>_. returnM result)) (ib_begin B s) of
        (Inr result, tx) \<Rightarrow> (Inr result, ib_shared B tx)
      | (Inl e, tx) \<Rightarrow>
          (case it_abort (ib_tx B) tx of
             (Inl e', tx') \<Rightarrow> (Inl e', ib_shared B tx')
           | (Inr _, tx') \<Rightarrow> (Inl e, ib_shared B tx')))"

text \<open>The tasks that \<open>register_entity_gc_workers\<close> hands to the process, one per descriptor. A task
  drops the counts.\<close>

definition gc_worker_for :: "gc_descriptor \<Rightarrow> 'tx gc_worker" where
  "gc_worker_for d =
     \<lparr>gcw_descriptor = d, gcw_repository = default_gc_repository, gcw_config = default_gc_config\<rparr>"

definition entity_gc_tasks :: "('s, 'tx) ibackend \<Rightarrow> gc_descriptor list \<Rightarrow> (string \<Rightarrow> ('s, unit) action) list" where
  "entity_gc_tasks B ds =
     map (\<lambda>d now. bindM (gc_run_once (gc_worker_for d) B now) (\<lambda>_. returnM ())) ds"

section \<open>What a worker relies on\<close>

text \<open>A document that may be collected: its status field is a string that names a terminal state.\<close>

definition gc_terminal :: "gc_descriptor \<Rightarrow> json \<Rightarrow> bool" where
  "gc_terminal d doc \<longleftrightarrow>
     (\<exists>status. json_find doc (gcd_status_field d) = Some (JString status) \<and>
        (\<exists>t \<in> set (gcd_terminal_states d). gct_state t = status))"

text \<open>A batch over the documents of a collection: at most \<open>n\<close> keys, each once, all terminal, and all of
  them when fewer than \<open>n\<close>.\<close>

definition gc_batch :: "gc_descriptor \<Rightarrow> nat \<Rightarrow> (key \<rightharpoonup> json) \<Rightarrow> key list \<Rightarrow> bool" where
  "gc_batch d n docs ks \<longleftrightarrow>
     distinct ks \<and> length ks \<le> n \<and> (\<forall>k \<in> set ks. \<exists>doc. docs k = Some doc \<and> gc_terminal d doc) \<and>
     (length ks < n \<longrightarrow> (\<forall>k doc. docs k = Some doc \<and> gc_terminal d doc \<longrightarrow> k \<in> set ks))"

locale gc_contract = occ_transaction I usable view names
  for I :: "'tx itransaction"
    and usable :: "'tx \<Rightarrow> bool"
    and view :: "'tx \<Rightarrow> doc_view"
    and names :: "collection_name \<Rightarrow> bool" +
  fixes R :: "'tx gc_repository"
  assumes list_law: "usable tx \<Longrightarrow> names (gcd_collection (gce_descriptor q)) \<Longrightarrow>
      \<exists>rs tx'. gcr_list R I q tx = (Inr rs, tx') \<and> usable tx' \<and> view tx' = view tx \<and>
        gc_batch (gce_descriptor q) (unat (gce_limit q)) (view tx (gcd_collection (gce_descriptor q))) (map vr_key rs)"
    and finalize_law: "usable tx \<Longrightarrow> names (gcd_collection (gcf_descriptor f)) \<Longrightarrow>
      \<exists>tx'. gcr_finalize R I f tx = (Inr (), tx') \<and> usable tx' \<and>
        view tx' = view_erase (gcd_collection (gcf_descriptor f)) (gcf_key f) (view tx)"
begin

lemma finalize_loop_erases:
  assumes "usable tx" and "names (gcd_collection (gcw_descriptor w))" and "gcw_repository w = R"
  shows "\<exists>tx'. finalize_loop w I now rs result tx =
      (Inr (result\<lparr>gcs_finalized := gcs_finalized result + of_nat (length rs)\<rparr>), tx') \<and> usable tx' \<and>
    view tx' = (view tx)(gcd_collection (gcw_descriptor w) :=
      view tx (gcd_collection (gcw_descriptor w)) |` (- vr_key ` set rs))"
  using assms(1)
proof (induction rs arbitrary: result tx)
  case (Cons r rs)
  let ?c = "gcd_collection (gcw_descriptor w)"
  obtain tx1 where 1: "gcr_finalize R I \<lparr>gcf_descriptor = gcw_descriptor w, gcf_key = vr_key r, gcf_now = now\<rparr> tx = (Inr (), tx1)"
      "usable tx1" "view tx1 = view_erase ?c (vr_key r) (view tx)"
    using finalize_law [OF Cons.prems, of "\<lparr>gcf_descriptor = gcw_descriptor w, gcf_key = vr_key r, gcf_now = now\<rparr>"]
      assms(2) by auto
  have eq: "(view tx1)(?c := view tx1 ?c |` (- vr_key ` set rs)) = (view tx)(?c := view tx ?c |` (- vr_key ` set (r # rs)))"
    by (auto simp: 1(3) fun_eq_iff restrict_map_def)
  show ?case
    using Cons.IH [OF 1(2), of "result\<lparr>gcs_finalized := gcs_finalized result + 1\<rparr>"] unfolding eq
    by (simp add: bindM_def assms(3) 1(1) ac_simps)
qed (auto simp: fun_eq_iff)

text \<open>One run of a worker removes a batch and changes nothing else.\<close>

lemma run_onceTx_law:
  assumes "usable tx" and "names (gcd_collection (gcw_descriptor w))" and "gcw_repository w = R"
  shows "\<exists>ks tx'. gc_run_onceTx w I now tx =
      (Inr \<lparr>gcs_scanned = of_nat (length ks), gcs_finalized = of_nat (length ks)\<rparr>, tx') \<and> usable tx' \<and>
    gc_batch (gcw_descriptor w) (unat (gcc_batch_limit (gcw_config w)))
      (view tx (gcd_collection (gcw_descriptor w))) ks \<and>
    view tx' = (view tx)(gcd_collection (gcw_descriptor w) :=
      view tx (gcd_collection (gcw_descriptor w)) |` (- set ks))"
proof -
  let ?q = "\<lparr>gce_descriptor = gcw_descriptor w, gce_now = now, gce_limit = gcc_batch_limit (gcw_config w)\<rparr>"
  obtain rs tx1 where 1: "gcr_list R I ?q tx = (Inr rs, tx1)" "usable tx1" "view tx1 = view tx"
      "gc_batch (gcw_descriptor w) (unat (gcc_batch_limit (gcw_config w)))
        (view tx (gcd_collection (gcw_descriptor w))) (map vr_key rs)"
    using list_law [OF assms(1), of ?q] assms(2) by auto
  obtain tx2 where 2: "finalize_loop w I now rs \<lparr>gcs_scanned = of_nat (length rs), gcs_finalized = 0\<rparr> tx1 =
      (Inr \<lparr>gcs_scanned = of_nat (length rs), gcs_finalized = of_nat (length rs)\<rparr>, tx2)" "usable tx2"
      "view tx2 = (view tx)(gcd_collection (gcw_descriptor w) :=
        view tx (gcd_collection (gcw_descriptor w)) |` (- vr_key ` set rs))"
    using finalize_loop_erases [OF 1(2) assms(2,3), of now rs "\<lparr>gcs_scanned = of_nat (length rs), gcs_finalized = 0\<rparr>"]
    unfolding 1(3) by auto
  show ?thesis
    by (intro exI [of _ "map vr_key rs"] exI [of _ tx2])
      (use 1(1,4) 2 in \<open>simp add: gc_run_onceTx_def bindM_def assms(3)\<close>)
qed

end

section \<open>The default repository keeps the contract\<close>

lemma gc_terminal_find:
  "gc_terminal d doc \<longleftrightarrow>
     (case json_find doc (gcd_status_field d) of Some (JString status) \<Rightarrow> is_terminal_gc_state d status | _ \<Rightarrow> False)"
  by (auto simp: gc_terminal_def is_terminal_gc_state_def list_ex_iff split: option.split json.split)

lemma eligible_loop_take:
  "length acc \<le> unat (gce_limit q) \<Longrightarrow>
   eligible_loop q rs acc = acc @ take (unat (gce_limit q) - length acc)
     (filter (\<lambda>r. gc_terminal (gce_descriptor q) (vr_document r)) rs)"
proof (induction rs arbitrary: acc)
  case (Cons r rs)
  show ?case
  proof (cases "length acc \<ge> unat (gce_limit q)")
    case False
    then have "unat (gce_limit q) - length acc = Suc (unat (gce_limit q) - Suc (length acc))"
      by simp
    then show ?thesis
      using False Cons.IH [of acc] Cons.IH [of "acc @ [r]"]
      by (auto simp: gc_terminal_find split: option.split json.split)
  qed simp
qed simp

context occ_transaction
begin

lemma default_list_law:
  assumes "usable tx" and "names (gcd_collection (gce_descriptor q))"
  shows "\<exists>rs tx'. list_gc_eligibleTx I q tx = (Inr rs, tx') \<and> usable tx' \<and> view tx' = view tx \<and>
    gc_batch (gce_descriptor q) (unat (gce_limit q)) (view tx (gcd_collection (gce_descriptor q))) (map vr_key rs)"
proof -
  let ?P = "\<lambda>r. gc_terminal (gce_descriptor q) (vr_document r)"
  obtain rs tx1 where 1: "it_query I (gcd_collection (gce_descriptor q)) query_all tx = (Inr rs, tx1)" "usable tx1"
      "view tx1 = view tx" "distinct (map vr_key rs)"
      "map_of (map (\<lambda>r. (vr_key r, vr_document r)) rs) = view tx (gcd_collection (gce_descriptor q))"
    using query_cases [OF assms] .
  let ?ks = "map vr_key (take (unat (gce_limit q)) (filter ?P rs))"
  have mem: "view tx (gcd_collection (gce_descriptor q)) (vr_key r) = Some (vr_document r)" if "r \<in> set rs" for r
    unfolding 1(5) [symmetric] using that 1(4) by (intro map_of_is_SomeI) (auto simp: comp_def)
  have "gc_batch (gce_descriptor q) (unat (gce_limit q)) (view tx (gcd_collection (gce_descriptor q))) ?ks"
    unfolding gc_batch_def
  proof (intro conjI ballI allI impI)
    show "distinct ?ks"
      using 1(4) by (simp add: take_map [symmetric] distinct_map_filter)
    show "\<exists>doc. view tx (gcd_collection (gce_descriptor q)) k = Some doc \<and> gc_terminal (gce_descriptor q) doc"
      if "k \<in> set ?ks" for k
      using that mem by (auto dest: in_set_takeD)
    show "k \<in> set ?ks"
      if "length ?ks < unat (gce_limit q)"
        and "view tx (gcd_collection (gce_descriptor q)) k = Some doc \<and> gc_terminal (gce_descriptor q) doc" for k doc
      using that unfolding 1(5) [symmetric] by (force dest: map_of_SomeD)
  qed simp
  then show ?thesis
    using 1(1-3) by (simp add: list_gc_eligibleTx_def bindM_def eligible_loop_take)
qed

lemma default_finalize_law:
  "usable tx \<Longrightarrow> names (gcd_collection (gcf_descriptor f)) \<Longrightarrow>
   \<exists>tx'. finalize_gcTx I f tx = (Inr (), tx') \<and> usable tx' \<and>
     view tx' = view_erase (gcd_collection (gcf_descriptor f)) (gcf_key f) (view tx)"
  unfolding finalize_gcTx_def using erase_cases by metis

end

interpretation memory_gc: gc_contract memory_transaction "\<lambda>m. usable m \<and> fst m = s" mem_view plain_name
    default_gc_repository for s
  unfolding default_gc_repository_def
  by unfold_locales (simp_all only: gc_repository.simps memory_at.default_list_law memory_at.default_finalize_law)

section \<open>Properties\<close>

lemma gc_run_once_managed:
  "gc_run_once w in_memory_backend now = managed in_memory_backend (gc_run_onceTx w memory_transaction now)"
  by (simp add: gc_run_once_def managed_def fun_eq_iff memory_transaction_def [THEN arg_cong, of it_abort]
      tx_abort_def case_prod_beta split: prod.split sum.split)

lemma gc_worker_refines:
  assumes "plain_name (gcd_collection d)"
  shows "refines_rel (\<lambda>m. usable m \<and> fst m = s) mem_view (gc_run_onceTx (gc_worker_for d) memory_transaction now)
    (\<lambda>v r v'. \<exists>ks. r = Inr \<lparr>gcs_scanned = of_nat (length ks), gcs_finalized = of_nat (length ks)\<rparr> \<and>
      gc_batch d 100 (v (gcd_collection d)) ks \<and>
      v' = v(gcd_collection d := v (gcd_collection d) |` (- set ks)))"
  unfolding refines_rel_def
proof (intro allI impI)
  fix m assume "usable m \<and> fst m = s"
  from memory_gc.run_onceTx_law [OF this, of "gc_worker_for d" now] assms
  show "\<exists>r m'. gc_run_onceTx (gc_worker_for d) memory_transaction now m = (r, m') \<and> (usable m' \<and> fst m' = s) \<and>
      (\<exists>ks. r = Inr \<lparr>gcs_scanned = of_nat (length ks), gcs_finalized = of_nat (length ks)\<rparr> \<and>
        gc_batch d 100 (mem_view m (gcd_collection d)) ks \<and>
        mem_view m' = (mem_view m)(gcd_collection d := mem_view m (gcd_collection d) |` (- set ks)))"
    by (force simp: gc_worker_for_def default_gc_config_def)
qed

text \<open>C18: A run of the garbage collector of an entity on the in-memory backend either throws and changes
  nothing, or removes a batch of records of its collection and reports their number: at most
  100 records, every one of them in a terminal state, and all such records when fewer than 100
  are removed. No other record of any collection changes.\<close>

theorem gc_removes_terminal_batch:
  assumes "state_ok s" and "plain_name (gcd_collection d)"
    and "gc_run_once (gc_worker_for d) in_memory_backend now s = (r, s')"
  shows "case r of
      Inl _ \<Rightarrow> s' = s
    | Inr result \<Rightarrow> state_ok s' \<and>
        (\<exists>ks. gc_batch d 100 (committed_docs s (gcd_collection d)) ks \<and>
          result = \<lparr>gcs_scanned = of_nat (length ks), gcs_finalized = of_nat (length ks)\<rparr> \<and>
          committed_docs s' = (committed_docs s)(gcd_collection d := committed_docs s (gcd_collection d) |` (- set ks)))"
proof (cases r)
  case (Inl e)
  have "managed in_memory_backend (gc_run_onceTx (gc_worker_for d) memory_transaction now) s = (Inl e, s')"
    using assms(3) Inl by (simp add: gc_run_once_managed)
  then have "s' = s"
    by (rule managed_memory_throws [OF assms(1) gc_worker_refines [OF assms(2)]])
  then show ?thesis by (simp add: Inl)
next
  case (Inr result)
  have "managed in_memory_backend (gc_run_onceTx (gc_worker_for d) memory_transaction now) s = (Inr result, s')"
    using assms(3) Inr by (simp add: gc_run_once_managed)
  from managed_memory_rel [OF assms(1) gc_worker_refines [OF assms(2)] this]
  obtain ks where ks: "result = \<lparr>gcs_scanned = of_nat (length ks), gcs_finalized = of_nat (length ks)\<rparr>"
      "gc_batch d 100 (committed_docs s (gcd_collection d)) ks" "state_ok s'"
      "\<And>c. plain_name c \<Longrightarrow> committed_docs s' c =
        ((committed_docs s)(gcd_collection d := committed_docs s (gcd_collection d) |` (- set ks))) c"
    by auto
  have "committed_docs s' c = ((committed_docs s)(gcd_collection d := committed_docs s (gcd_collection d) |` (- set ks))) c" for c
    using ks(4) [of c] assms(2) by (cases "plain_name c") (auto simp: committed_docs_def fun_eq_iff)
  then have "committed_docs s' = (committed_docs s)(gcd_collection d := committed_docs s (gcd_collection d) |` (- set ks))"
    by (rule ext)
  then show ?thesis
    unfolding Inr sum.case using ks(1-3) by blast
qed

definition closed_orders :: gc_descriptor where
  "closed_orders = \<lparr>gcd_entity = ''Order'', gcd_collection = ''orders'', gcd_status_field = ''status'',
     gcd_terminal_states = [\<lparr>gct_state = ''closed'', gct_after = ''30d'', gct_mode = ''delete''\<rparr>]\<rparr>"

definition order_state :: in_memory_state where
  "order_state = snd (managed in_memory_backend
     (bindM (tx_put ''orders'' ''a'' (JObject [(''status'', JString ''open'')])) (\<lambda>_.
        tx_put ''orders'' ''b'' (JObject [(''status'', JString ''closed'')]))) initial_state)"

theorem gc_removes_terminal_batch_witness:
  "\<exists>s'. gc_run_once (gc_worker_for closed_orders) in_memory_backend ''2026-01-01'' order_state =
      (Inr \<lparr>gcs_scanned = 1, gcs_finalized = 1\<rparr>, s') \<and>
    committed_docs s' ''orders'' ''a'' = Some (JObject [(''status'', JString ''open'')]) \<and>
    committed_docs s' ''orders'' ''b'' = None"
proof -
  have ok: "state_ok order_state"
    unfolding order_state_def
    by (rule managed_state_ok [OF initial_state_ok], rule refines_bindM)
      (rule memory_at.refines_put [unfolded memory_selectors], simp add: plain_name_def)+
  have plain: "plain_name (gcd_collection closed_orders)"
    by (simp add: plain_name_def closed_orders_def)
  have docs: "committed_docs order_state ''orders'' ''a'' = Some (JObject [(''status'', JString ''open'')])"
    "committed_docs order_state ''orders'' ''b'' = Some (JObject [(''status'', JString ''closed'')])"
    by code_simp+
  have r: "fst (gc_run_once (gc_worker_for closed_orders) in_memory_backend ''2026-01-01'' order_state) =
      Inr \<lparr>gcs_scanned = 1, gcs_finalized = 1\<rparr>"
    by code_simp
  then obtain s' where run: "gc_run_once (gc_worker_for closed_orders) in_memory_backend ''2026-01-01'' order_state =
      (Inr \<lparr>gcs_scanned = 1, gcs_finalized = 1\<rparr>, s')"
    by (metis prod.collapse)
  obtain ks where ks: "gc_batch closed_orders 100 (committed_docs order_state ''orders'') ks" "of_nat (length ks) = (1 :: 64 word)"
      "committed_docs s' ''orders'' = committed_docs order_state ''orders'' |` (- set ks)"
    using gc_removes_terminal_batch [OF ok plain run] by (auto simp: closed_orders_def)
  have "length ks \<le> 100"
    using ks(1) by (simp add: gc_batch_def)
  then have "length ks = 1"
    using arg_cong [OF ks(2), of unat] by (simp add: unat_of_nat)
  then have "''b'' \<in> set ks"
    using ks(1) docs(2) by (simp add: gc_batch_def gc_terminal_def closed_orders_def)
  moreover have "''a'' \<notin> set ks"
    using ks(1) docs(1) by (auto simp: gc_batch_def gc_terminal_def closed_orders_def)
  ultimately show ?thesis
    using run docs(1) ks(3) by simp
qed

text \<open>The collector does not look at the clock or at the retention period: whatever \<open>now\<close> is, and
  whatever \<open>after\<close> and \<open>mode\<close> the terminal states carry, a run does the same. A record is removed
  by the first run that finds it in a terminal state.\<close>

theorem gc_ignores_retention:
  fixes B :: "('s, 'tx) ibackend"
  shows "gc_run_once (gc_worker_for (d\<lparr>gcd_terminal_states :=
       map (\<lambda>t. t\<lparr>gct_after := after t, gct_mode := mode t\<rparr>) (gcd_terminal_states d)\<rparr>)) B now' =
   gc_run_once (gc_worker_for d) B now"
proof -
  let ?d = "d\<lparr>gcd_terminal_states := map (\<lambda>t. t\<lparr>gct_after := after t, gct_mode := mode t\<rparr>) (gcd_terminal_states d)\<rparr>"
  have "is_terminal_gc_state ?d = is_terminal_gc_state d"
    by (simp add: is_terminal_gc_state_def fun_eq_iff list_ex_iff)
  then have loop: "eligible_loop (q\<lparr>gce_descriptor := ?d, gce_now := now'\<rparr>) rs acc =
      eligible_loop (q\<lparr>gce_descriptor := d, gce_now := now\<rparr>) rs acc" for q rs acc
    by (induction rs arbitrary: acc) (auto split: option.split json.split)
  have list: "list_gc_eligibleTx I \<lparr>gce_descriptor = ?d, gce_now = now', gce_limit = n\<rparr> =
      list_gc_eligibleTx I \<lparr>gce_descriptor = d, gce_now = now, gce_limit = n\<rparr>" for I :: "'tx itransaction" and n
    using loop [of "\<lparr>gce_descriptor = d, gce_now = now, gce_limit = n\<rparr>"] by (simp add: list_gc_eligibleTx_def)
  have final: "finalize_loop (gc_worker_for ?d) I now' rs x = finalize_loop (gc_worker_for d) I now rs x"
    for I :: "'tx itransaction" and rs x
    by (induction rs arbitrary: x) (simp_all add: gc_worker_for_def default_gc_repository_def finalize_gcTx_def)
  have "gc_run_onceTx (gc_worker_for ?d) I now' = gc_run_onceTx (gc_worker_for d) I now" for I :: "'tx itransaction"
    using list final by (simp add: gc_run_onceTx_def gc_worker_for_def default_gc_repository_def)
  then show ?thesis
    by (intro ext) (simp only: gc_run_once_def)
qed

end
