(* ===== verification/External_System.thy ===== *)
theory External_System
  imports Backend
begin

text \<open>
  \<open>bindings/cpp/external_system.hpp\<close>: the lookup of the metadata an external system is called
  with, and the two checks that a resolver makes, of the lookup's key and of the record it found.
  The resolver itself is an interface that the generated service implements.
\<close>

record metadata_key_value =
  mkv_field :: string
  mkv_value :: json

record metadata_lookup =
  mlk_external_system :: string
  mlk_metadata_entity :: string
  mlk_tenant_field :: "string option"
  mlk_profile_field :: string
  mlk_key_fields :: "string list"
  mlk_key_values :: "metadata_key_value list"
  mlk_required_fields :: "string list"

record metadata_resolution =
  mrs_record :: versioned_record
  mrs_missing_required_fields :: "string list"

definition resolution_complete :: "metadata_resolution \<Rightarrow> bool" where
  "resolution_complete r \<longleftrightarrow> mrs_missing_required_fields r = []"

fun missing_loop :: "(string \<Rightarrow> bool) \<Rightarrow> string list \<Rightarrow> string list \<Rightarrow> string list" where
  "missing_loop present [] missing = missing"
| "missing_loop present (f # fs) missing = missing_loop present fs (if present f then missing else missing @ [f])"

definition missing_required_metadata_fields :: "json \<Rightarrow> string list \<Rightarrow> string list" where
  "missing_required_metadata_fields document required = missing_loop (json_contains document) required []"

definition missing_metadata_key_fields :: "metadata_lookup \<Rightarrow> string list" where
  "missing_metadata_key_fields l =
     (let provided = set (map mkv_field (mlk_key_values l)) in
      missing_loop (\<lambda>f. f \<in> provided) (mlk_key_fields l) [])"

definition key_complete :: "metadata_lookup \<Rightarrow> bool" where
  "key_complete l \<longleftrightarrow> missing_metadata_key_fields l = []"

lemma missing_loop_filter: "missing_loop present fs missing = missing @ filter (\<lambda>f. \<not> present f) fs"
  by (induction fs arbitrary: missing) simp_all

text \<open>A key is complete when each of its fields has a value; a resolution made with the check is
  complete when the record holds each required field. Both report exactly what is missing, in the
  declared order.\<close>

lemma key_complete_iff:
  "key_complete l \<longleftrightarrow> (\<forall>f \<in> set (mlk_key_fields l). \<exists>kv \<in> set (mlk_key_values l). mkv_field kv = f)"
  by (force simp: key_complete_def missing_metadata_key_fields_def missing_loop_filter filter_empty_conv Let_def)

lemma resolution_complete_iff:
  "resolution_complete \<lparr>mrs_record = r, mrs_missing_required_fields =
     missing_required_metadata_fields (vr_document r) required\<rparr> \<longleftrightarrow>
   (\<forall>f \<in> set required. json_contains (vr_document r) f)"
  by (auto simp: resolution_complete_def missing_required_metadata_fields_def missing_loop_filter filter_empty_conv)

end
