(* ===== verification/Ascii.thy ===== *)
theory Ascii
  imports Decimal
begin

text \<open>
  Text helpers of the compiler: the character classes of \<open>cctype\<close> in the C locale, which the
  program never leaves, \<open>src/string_utils.cpp\<close>, \<open>src/identifier_case.cpp\<close> and
  \<open>src/type_syntax.cpp\<close>.
\<close>

section \<open>Character classes\<close>

definition is_lower :: "char \<Rightarrow> bool" where
  "is_lower c \<longleftrightarrow> (97::nat) \<le> of_char c \<and> of_char c \<le> (122::nat)"

definition is_upper :: "char \<Rightarrow> bool" where
  "is_upper c \<longleftrightarrow> (65::nat) \<le> of_char c \<and> of_char c \<le> (90::nat)"

definition is_alpha :: "char \<Rightarrow> bool" where
  "is_alpha c \<longleftrightarrow> is_lower c \<or> is_upper c"

definition is_alnum :: "char \<Rightarrow> bool" where
  "is_alnum c \<longleftrightarrow> is_alpha c \<or> is_digit c"

definition is_space :: "char \<Rightarrow> bool" where
  "is_space c \<longleftrightarrow> of_char c = (32::nat) \<or> ((9::nat) \<le> of_char c \<and> of_char c \<le> (13::nat))"

definition to_lower :: "char \<Rightarrow> char" where
  "to_lower c = (if is_upper c then char_of (of_char c + (32::nat)) else c)"

definition to_upper :: "char \<Rightarrow> char" where
  "to_upper c = (if is_lower c then char_of (of_char c - (32::nat)) else c)"

lemmas char_classes = is_alnum_def is_alpha_def is_lower_def is_upper_def is_digit_def is_space_def

lemma of_char_case:
  "is_lower c \<Longrightarrow> of_char (to_upper c) = (of_char c - 32 :: nat)"
  "is_upper c \<Longrightarrow> of_char (to_lower c) = (of_char c + 32 :: nat)"
  by (auto simp: to_upper_def to_lower_def char_classes)

lemma case_classes [simp]:
  "is_alnum (to_lower c) = is_alnum c" "is_alnum (to_upper c) = is_alnum c"
  "\<not> is_upper (to_lower c)" "\<not> is_lower (to_upper c)"
  by (auto simp: to_lower_def to_upper_def char_classes)

lemma case_idem [simp]:
  "to_lower (to_lower c) = to_lower c" "to_upper (to_upper c) = to_upper c"
  by (simp_all add: to_lower_def [of "to_lower c"] to_upper_def [of "to_upper c"])

lemma to_lower_upper [simp]: "to_lower (to_upper c) = to_lower c"
proof (cases "is_lower c")
  case True
  then have "is_upper (to_upper c)" "\<not> is_upper c"
    using of_char_case(1) [OF True] by (auto simp: char_classes)
  then show ?thesis
    using True of_char_case(1) [OF True] by (simp add: to_lower_def char_classes)
qed (simp add: to_upper_def)

section \<open>String utilities\<close>

text \<open>\<open>value.rfind(prefix, 0) == 0\<close>: the only position searched is the first.\<close>

definition starts_with :: "string \<Rightarrow> string \<Rightarrow> bool" where
  "starts_with v p \<longleftrightarrow> take (length p) v = p"

definition ends_with :: "string \<Rightarrow> string \<Rightarrow> bool" where
  "ends_with v s \<longleftrightarrow> length s \<le> length v \<and> drop (length v - length s) v = s"

definition lower_ascii :: "string \<Rightarrow> string" where
  "lower_ascii = map to_lower"

text \<open>The two loops drop the spaces at the front, then those at the back of what is left.\<close>

definition trim_ascii_copy :: "string \<Rightarrow> string" where
  "trim_ascii_copy v = rev (dropWhile is_space (rev (dropWhile is_space v)))"

lemma starts_with_append [simp]: "starts_with (p @ t) p"
  by (simp add: starts_with_def)

lemma ends_with_append [simp]: "ends_with (t @ s) s"
  by (simp add: ends_with_def)

lemma ends_with_iff: "ends_with v s \<longleftrightarrow> (\<exists>t. v = t @ s)"
  by (metis append_take_drop_id ends_with_append ends_with_def)

lemma starts_with_iff: "starts_with v p \<longleftrightarrow> (\<exists>t. v = p @ t)"
  by (metis append_take_drop_id starts_with_append starts_with_def)

lemma trim_idem: "trim_ascii_copy (trim_ascii_copy v) = trim_ascii_copy v"
proof -
  have *: "dropWhile is_space (rev (dropWhile is_space (rev w))) = rev (dropWhile is_space (rev w))"
    if "w = [] \<or> \<not> is_space (hd w)" for w
  proof (cases w)
    case (Cons c cs)
    then have "\<not> is_space c" using that by simp
    then have "dropWhile is_space (rev w) = dropWhile is_space (rev cs) @ [c]"
      using Cons by (induction "rev cs" arbitrary: cs) (auto simp: dropWhile_append1 dropWhile_append)
    then show ?thesis using \<open>\<not> is_space c\<close> by simp
  qed simp
  have "dropWhile is_space v = [] \<or> \<not> is_space (hd (dropWhile is_space v))"
    using hd_dropWhile by blast
  from * [OF this] show ?thesis
    by (simp add: trim_ascii_copy_def)
qed

section \<open>Identifier case\<close>

definition or_fallback :: "string \<Rightarrow> string \<Rightarrow> string" where
  "or_fallback result fallback = (if result = [] then fallback else result)"

fun pascal_loop :: "string \<Rightarrow> bool \<Rightarrow> string \<Rightarrow> string" where
  "pascal_loop [] upper_next result = result"
| "pascal_loop (ch # cs) upper_next result =
     (if \<not> is_alnum ch then pascal_loop cs True result
      else pascal_loop cs False (result @ [if upper_next then to_upper ch else ch]))"

definition pascal_identifier :: "string \<Rightarrow> string \<Rightarrow> string" where
  "pascal_identifier v fallback = or_fallback (pascal_loop v True []) fallback"

definition lower_camel_identifier :: "string \<Rightarrow> string \<Rightarrow> string" where
  "lower_camel_identifier v fallback =
     or_fallback (case pascal_identifier v fallback of [] \<Rightarrow> [] | c # cs \<Rightarrow> to_lower c # cs) fallback"

fun snake_loop :: "string \<Rightarrow> bool \<Rightarrow> string \<Rightarrow> string" where
  "snake_loop [] separator result = result"
| "snake_loop (ch # cs) separator result =
     (if \<not> is_alnum ch
      then snake_loop cs True (if result \<noteq> [] \<and> \<not> separator then result @ ''_'' else result)
      else
        let result' = (if is_upper ch \<and> \<not> separator \<and> result \<noteq> [] then result @ ''_'' else result)
        in snake_loop cs False (result' @ [to_lower ch]))"

definition snake_identifier :: "string \<Rightarrow> string \<Rightarrow> string" where
  "snake_identifier v fallback = or_fallback (snake_loop v True []) fallback"

definition upper_snake_identifier :: "string \<Rightarrow> string \<Rightarrow> string" where
  "upper_snake_identifier v fallback = or_fallback (map to_upper (snake_identifier v fallback)) fallback"

section \<open>Type syntax\<close>

definition trim_wrapped_type :: "string \<Rightarrow> string \<Rightarrow> string" where
  "trim_wrapped_type v p = take (length v - length p - 1) (drop (length p) v)"

definition is_optional_type :: "string \<Rightarrow> bool" where
  "is_optional_type t \<longleftrightarrow> starts_with t ''optional<'' \<and> ends_with t ''>'' \<or> ends_with t ''?''"

definition strip_optional_type :: "string \<Rightarrow> string" where
  "strip_optional_type t =
     (if starts_with t ''optional<'' \<and> ends_with t ''>'' then trim_wrapped_type t ''optional<''
      else if ends_with t ''?'' then take (length t - 1) t
      else t)"

lemma strip_optional_wrapped [simp]: "strip_optional_type (''optional<'' @ t @ ''>'') = t"
  by (simp add: strip_optional_type_def starts_with_def ends_with_def trim_wrapped_type_def)

lemma strip_optional_question: "t @ ''?'' \<noteq> [] \<Longrightarrow> strip_optional_type (t @ ''?'') = t"
  by (simp add: strip_optional_type_def ends_with_def)

lemma strip_optional_other: "\<not> is_optional_type t \<Longrightarrow> strip_optional_type t = t"
  by (auto simp: strip_optional_type_def is_optional_type_def)

end
