(* ===== verification/Source_Text.thy ===== *)
theory Source_Text
  imports Ascii
begin

text \<open>
  \<open>include/statespec/source.hpp\<close>, \<open>diagnostic.hpp\<close> and \<open>token.hpp\<close>: positions in a source
  text, diagnostics, tokens. Offsets, lines and columns are \<open>size_t\<close> in the code; they are bounded
  by the length of the text, so naturals stand for them.
\<close>

section \<open>Source\<close>

record source_location =
  sl_offset :: nat
  sl_line :: nat
  sl_column :: nat

record source_range =
  sr_begin :: source_location
  sr_end :: source_location

record source_file =
  sf_path :: string
  sf_text :: string

definition start_location :: source_location where
  "start_location = \<lparr>sl_offset = 0, sl_line = 1, sl_column = 1\<rparr>"

definition empty_range :: source_range where
  "empty_range = \<lparr>sr_begin = start_location, sr_end = start_location\<rparr>"

section \<open>Diagnostics\<close>

datatype severity = Info | Warning | Error

record diagnostic =
  dg_severity :: severity
  dg_range :: source_range
  dg_code :: string
  dg_message :: string

text \<open>A bag only grows: \<open>info\<close>, \<open>warning\<close> and \<open>error\<close> append.\<close>

type_synonym diagnostic_bag = "diagnostic list"

definition add_info :: "source_range \<Rightarrow> string \<Rightarrow> string \<Rightarrow> diagnostic_bag \<Rightarrow> diagnostic_bag" where
  "add_info r code message ds =
     ds @ [\<lparr>dg_severity = Info, dg_range = r, dg_code = code, dg_message = message\<rparr>]"

definition add_warning :: "source_range \<Rightarrow> string \<Rightarrow> string \<Rightarrow> diagnostic_bag \<Rightarrow> diagnostic_bag" where
  "add_warning r code message ds =
     ds @ [\<lparr>dg_severity = Warning, dg_range = r, dg_code = code, dg_message = message\<rparr>]"

definition add_error :: "source_range \<Rightarrow> string \<Rightarrow> string \<Rightarrow> diagnostic_bag \<Rightarrow> diagnostic_bag" where
  "add_error r code message ds =
     ds @ [\<lparr>dg_severity = Error, dg_range = r, dg_code = code, dg_message = message\<rparr>]"

definition has_errors :: "diagnostic_bag \<Rightarrow> bool" where
  "has_errors ds \<longleftrightarrow> list_ex (\<lambda>d. dg_severity d = Error) ds"

lemma has_errors_simps [simp]:
  "\<not> has_errors []" "has_errors (ds @ es) \<longleftrightarrow> has_errors ds \<or> has_errors es"
  "has_errors (add_error r c m ds)"
  "has_errors (add_warning r c m ds) \<longleftrightarrow> has_errors ds"
  "has_errors (add_info r c m ds) \<longleftrightarrow> has_errors ds"
  by (simp_all add: has_errors_def add_error_def add_warning_def add_info_def)

section \<open>Tokens\<close>

text \<open>The enumeration has one enumerator per keyword; here a keyword is \<open>TK_Keyword\<close> of its spelling
  in the source language, and \<open>keyword_names\<close> is the table of spellings and enumerators.\<close>

datatype (plugins only: code size) token_kind =
    TK_EndOfFile | TK_Identifier | TK_StringLiteral | TK_IntegerLiteral | TK_DecimalLiteral
  | TK_BooleanLiteral | TK_DurationLiteral | TK_LeftBrace | TK_RightBrace | TK_LeftParen
  | TK_RightParen | TK_LeftBracket | TK_RightBracket | TK_Less | TK_Greater | TK_Comma | TK_Colon
  | TK_Semicolon | TK_Dot | TK_Question | TK_Arrow | TK_Equals | TK_EqualEqual | TK_BangEqual
  | TK_LessEqual | TK_GreaterEqual | TK_Plus | TK_Minus | TK_Star | TK_Slash | TK_Percent
  | TK_Bang | TK_AndAnd | TK_OrOr | TK_Unknown | TK_Keyword string

record token =
  tok_kind :: token_kind
  tok_lexeme :: string
  tok_range :: source_range

definition keyword_names :: "(string \<times> string) list" where
  "keyword_names =
    [(''statespec'', ''KeywordStatespec''), (''include'', ''KeywordInclude''),
     (''as'', ''KeywordAs''), (''system'', ''KeywordSystem''),
     (''namespace'', ''KeywordNamespace''), (''value'', ''KeywordValue''),
     (''enum'', ''KeywordEnum''), (''shape'', ''KeywordShape''),
     (''external_system'', ''KeywordExternalSystem''), (''feature_flag'', ''KeywordFeatureFlag''),
     (''log'', ''KeywordLog''), (''metric'', ''KeywordMetric''), (''entity'', ''KeywordEntity''),
     (''key'', ''KeywordKey''), (''version'', ''KeywordVersion''),
     (''fields'', ''KeywordFields''), (''state_machine'', ''KeywordStateMachine''),
     (''state'', ''KeywordState''), (''initial'', ''KeywordInitial''),
     (''terminal'', ''KeywordTerminal''), (''ownership'', ''KeywordOwnership''),
     (''authority'', ''KeywordAuthority''), (''system_of_record'', ''KeywordSystemOfRecord''),
     (''lifecycle'', ''KeywordLifecycle''), (''control'', ''KeywordControl''),
     (''relations'', ''KeywordRelations''), (''parent'', ''KeywordParent''),
     (''ref'', ''KeywordRef''), (''optional'', ''KeywordOptional''),
     (''children'', ''KeywordChildren''), (''invariants'', ''KeywordInvariants''),
     (''indexes'', ''KeywordIndexes''), (''annotations'', ''KeywordAnnotations''),
     (''event'', ''KeywordEvent''), (''queue'', ''KeywordQueue''),
     (''message'', ''KeywordMessage''), (''payload'', ''KeywordPayload''),
     (''lease'', ''KeywordLease''), (''worker'', ''KeywordWorker''),
     (''api_server'', ''KeywordApiServer''), (''api'', ''KeywordApi''),
     (''behavior'', ''KeywordBehavior''), (''workflow'', ''KeywordWorkflow''),
     (''step'', ''KeywordStep''), (''child_set'', ''KeywordChildSet''),
     (''child_workflow'', ''KeywordChildWorkflow''), (''policy'', ''KeywordPolicy''),
     (''on'', ''KeywordOn''), (''when'', ''KeywordWhen''), (''where'', ''KeywordWhere''),
     (''require'', ''KeywordRequire''), (''set'', ''KeywordSet''), (''emit'', ''KeywordEmit''),
     (''emits'', ''KeywordEmits''), (''enqueue'', ''KeywordEnqueue''),
     (''acquire'', ''KeywordAcquire''), (''renew'', ''KeywordRenew''),
     (''release'', ''KeywordRelease''), (''start'', ''KeywordStart''),
     (''load'', ''KeywordLoad''), (''allocates'', ''KeywordAllocates''),
     (''returns'', ''KeywordReturns''), (''atomic'', ''KeywordAtomic''),
     (''for_each'', ''KeywordForEach''), (''in'', ''KeywordIn''), (''create'', ''KeywordCreate''),
     (''child'', ''KeywordChild''), (''observe'', ''KeywordObserve''),
     (''move'', ''KeywordMove''), (''from'', ''KeywordFrom''), (''to'', ''KeywordTo''),
     (''transition_to'', ''KeywordTransitionTo''), (''complete'', ''KeywordComplete''),
     (''fail'', ''KeywordFail''), (''reserve'', ''KeywordReserve''),
     (''materialize'', ''KeywordMaterialize''), (''reconcile'', ''KeywordReconcile''),
     (''allow'', ''KeywordAllow''), (''deny'', ''KeywordDeny''), (''quota'', ''KeywordQuota''),
     (''audit'', ''KeywordAudit''), (''tenant'', ''KeywordTenant''),
     (''scoped_by'', ''KeywordScopedBy''), (''method'', ''KeywordMethod''),
     (''path'', ''KeywordPath''), (''input'', ''KeywordInput''), (''output'', ''KeywordOutput''),
     (''error'', ''KeywordError''), (''authz'', ''KeywordAuthz''),
     (''starts'', ''KeywordStarts''), (''enqueues'', ''KeywordEnqueues''),
     (''serves'', ''KeywordServes''), (''polls'', ''KeywordPolls''),
     (''executes'', ''KeywordExecutes''), (''singleton'', ''KeywordSingleton''),
     (''concurrency'', ''KeywordConcurrency'')]"

fun token_kind_name :: "token_kind \<Rightarrow> string" where
  "token_kind_name TK_EndOfFile = ''EndOfFile''"
| "token_kind_name TK_Identifier = ''Identifier''"
| "token_kind_name TK_StringLiteral = ''StringLiteral''"
| "token_kind_name TK_IntegerLiteral = ''IntegerLiteral''"
| "token_kind_name TK_DecimalLiteral = ''DecimalLiteral''"
| "token_kind_name TK_BooleanLiteral = ''BooleanLiteral''"
| "token_kind_name TK_DurationLiteral = ''DurationLiteral''"
| "token_kind_name TK_LeftBrace = ''LeftBrace''"
| "token_kind_name TK_RightBrace = ''RightBrace''"
| "token_kind_name TK_LeftParen = ''LeftParen''"
| "token_kind_name TK_RightParen = ''RightParen''"
| "token_kind_name TK_LeftBracket = ''LeftBracket''"
| "token_kind_name TK_RightBracket = ''RightBracket''"
| "token_kind_name TK_Less = ''Less''"
| "token_kind_name TK_Greater = ''Greater''"
| "token_kind_name TK_Comma = ''Comma''"
| "token_kind_name TK_Colon = ''Colon''"
| "token_kind_name TK_Semicolon = ''Semicolon''"
| "token_kind_name TK_Dot = ''Dot''"
| "token_kind_name TK_Question = ''Question''"
| "token_kind_name TK_Arrow = ''Arrow''"
| "token_kind_name TK_Equals = ''Equals''"
| "token_kind_name TK_EqualEqual = ''EqualEqual''"
| "token_kind_name TK_BangEqual = ''BangEqual''"
| "token_kind_name TK_LessEqual = ''LessEqual''"
| "token_kind_name TK_GreaterEqual = ''GreaterEqual''"
| "token_kind_name TK_Plus = ''Plus''"
| "token_kind_name TK_Minus = ''Minus''"
| "token_kind_name TK_Star = ''Star''"
| "token_kind_name TK_Slash = ''Slash''"
| "token_kind_name TK_Percent = ''Percent''"
| "token_kind_name TK_Bang = ''Bang''"
| "token_kind_name TK_AndAnd = ''AndAnd''"
| "token_kind_name TK_OrOr = ''OrOr''"
| "token_kind_name TK_Unknown = ''Unknown''"
| "token_kind_name (TK_Keyword t) = (case map_of keyword_names t of None \<Rightarrow> ''Unknown'' | Some n \<Rightarrow> n)"

text \<open>The spellings and the enumerators of the keywords are in bijection.\<close>

lemma keyword_names_distinct: "distinct (map fst keyword_names)" "distinct (map snd keyword_names)"
  by code_simp+

end
