(* ===== verification/Lexer.thy ===== *)
theory Lexer
  imports Source_Text
begin

text \<open>
  \<open>src/lexer.cpp\<close>. The scanner keeps a position in the text, the tokens found so far and the
  diagnostics. The index-based scanner is shown equivalent to a reference lexer on the list of
  remaining characters; from that follow where tokens lie in the source, and that a token depends
  only on its own characters.
\<close>

section \<open>The scanner\<close>

definition is_identifier_start :: "char \<Rightarrow> bool" where
  "is_identifier_start c \<longleftrightarrow> is_alpha c"

definition is_identifier_part :: "char \<Rightarrow> bool" where
  "is_identifier_part c \<longleftrightarrow> is_alnum c \<or> c = CHR ''_''"

definition keyword_kind :: "string \<Rightarrow> token_kind" where
  "keyword_kind t =
     (if t = ''true'' \<or> t = ''false'' then TK_BooleanLiteral
      else case map_of keyword_names t of
        None \<Rightarrow> TK_Identifier
      | Some _ \<Rightarrow> TK_Keyword t)"

fun duration_loop :: "string \<Rightarrow> bool \<Rightarrow> bool \<Rightarrow> bool \<Rightarrow> bool" where
  "duration_loop [] has_digit has_unit in_time = (has_digit \<and> has_unit)"
| "duration_loop (ch # cs) has_digit has_unit in_time =
     (if is_digit ch then duration_loop cs True has_unit in_time
      else if ch = CHR ''T'' then (if in_time then False else duration_loop cs has_digit has_unit True)
      else if ch = CHR ''D'' \<or> ch = CHR ''H'' \<or> ch = CHR ''M'' \<or> ch = CHR ''S''
        then duration_loop cs has_digit True in_time
      else False)"

definition looks_like_duration :: "string \<Rightarrow> bool" where
  "looks_like_duration t =
     (case t of [] \<Rightarrow> False | c # cs \<Rightarrow> if c \<noteq> CHR ''P'' then False else duration_loop cs False False False)"

record scanner =
  sc_text :: string
  sc_location :: source_location
  sc_tokens :: "token list"
  sc_diagnostics :: diagnostic_bag

definition new_scanner :: "source_file \<Rightarrow> diagnostic_bag \<Rightarrow> scanner" where
  "new_scanner source ds =
     \<lparr>sc_text = sf_text source, sc_location = start_location, sc_tokens = [], sc_diagnostics = ds\<rparr>"

definition at_end :: "scanner \<Rightarrow> bool" where
  "at_end sc \<longleftrightarrow> sl_offset (sc_location sc) \<ge> length (sc_text sc)"

definition peek :: "nat \<Rightarrow> scanner \<Rightarrow> char" where
  "peek n sc =
     (let index = sl_offset (sc_location sc) + n in
      if index \<ge> length (sc_text sc) then CHR 0x00 else sc_text sc ! index)"

definition next_location :: "char \<Rightarrow> source_location \<Rightarrow> source_location" where
  "next_location ch l =
     (if ch = CHR 0x0A
      then \<lparr>sl_offset = sl_offset l + 1, sl_line = sl_line l + 1, sl_column = 1\<rparr>
      else l\<lparr>sl_offset := sl_offset l + 1, sl_column := sl_column l + 1\<rparr>)"

text \<open>\<open>advance\<close> returns the character it steps over: here the callers peek it first.\<close>

definition advance :: "scanner \<Rightarrow> scanner" where
  "advance sc = sc\<lparr>sc_location := next_location (peek 0 sc) (sc_location sc)\<rparr>"

definition match_char :: "char \<Rightarrow> scanner \<Rightarrow> bool \<times> scanner" where
  "match_char expected sc = (if peek 0 sc \<noteq> expected then (False, sc) else (True, advance sc))"

lemma advance_fields [simp]:
  "sc_text (advance sc) = sc_text sc" "sc_tokens (advance sc) = sc_tokens sc"
  "sc_diagnostics (advance sc) = sc_diagnostics sc"
  "sl_offset (sc_location (advance sc)) = Suc (sl_offset (sc_location sc))"
  by (simp_all add: advance_def next_location_def)

text \<open>The loops \<open>while (!is_at_end() && p(peek())) advance();\<close>. Where the code leaves out the first
  test, \<open>p\<close> is false of the NUL that \<open>peek\<close> returns at the end.\<close>

function advance_while :: "(char \<Rightarrow> bool) \<Rightarrow> scanner \<Rightarrow> scanner" where
  "advance_while p sc = (if \<not> at_end sc \<and> p (peek 0 sc) then advance_while p (advance sc) else sc)"
  by pat_completeness auto
termination
  by (relation "measure (\<lambda>(p, sc). length (sc_text sc) - sl_offset (sc_location sc))") (auto simp: at_end_def)

declare advance_while.simps [simp del]

definition add_token :: "token_kind \<Rightarrow> source_location \<Rightarrow> scanner \<Rightarrow> scanner" where
  "add_token kind start sc =
     sc\<lparr>sc_tokens := sc_tokens sc @
       [\<lparr>tok_kind = kind,
         tok_lexeme = take (sl_offset (sc_location sc) - sl_offset start) (drop (sl_offset start) (sc_text sc)),
         tok_range = \<lparr>sr_begin = start, sr_end = sc_location sc\<rparr>\<rparr>]\<rparr>"

definition report :: "source_location \<Rightarrow> string \<Rightarrow> string \<Rightarrow> scanner \<Rightarrow> scanner" where
  "report start code message sc =
     sc\<lparr>sc_diagnostics :=
       add_error \<lparr>sr_begin = start, sr_end = sc_location sc\<rparr> code message (sc_diagnostics sc)\<rparr>"

definition unknown_token :: "source_location \<Rightarrow> string \<Rightarrow> scanner \<Rightarrow> scanner" where
  "unknown_token start message sc = report start ''SSPEC0100'' message (add_token TK_Unknown start sc)"

subsection \<open>Trivia\<close>

definition is_blank :: "char \<Rightarrow> bool" where
  "is_blank c \<longleftrightarrow> c = CHR '' '' \<or> c = CHR 0x09 \<or> c = CHR 0x0D \<or> c = CHR 0x0A"

function skip_block_comment :: "source_location \<Rightarrow> scanner \<Rightarrow> scanner" where
  "skip_block_comment start sc =
     (if at_end sc then report start ''SSPEC0101'' ''unterminated block comment'' sc
      else if peek 0 sc = CHR ''*'' \<and> peek 1 sc = CHR ''/'' then advance (advance sc)
      else skip_block_comment start (advance sc))"
  by pat_completeness auto
termination
  by (relation "measure (\<lambda>(l, sc). length (sc_text sc) - sl_offset (sc_location sc))") (auto simp: at_end_def)

declare skip_block_comment.simps [simp del]

text \<open>One round of the outer loop: whether it consumed anything, and the state.\<close>

definition skip_trivia_round :: "scanner \<Rightarrow> bool \<times> scanner" where
  "skip_trivia_round sc =
     (let sc1 = advance_while is_blank sc;
          blanks = sl_offset (sc_location sc) < sl_offset (sc_location sc1)
      in if peek 0 sc1 = CHR ''/'' \<and> peek 1 sc1 = CHR ''/''
         then (True, advance_while (\<lambda>c. c \<noteq> CHR 0x0A) sc1)
         else if peek 0 sc1 = CHR ''/'' \<and> peek 1 sc1 = CHR ''*''
         then (True, skip_block_comment (sc_location sc1) (advance (advance sc1)))
         else (blanks, sc1))"

lemma advance_while_fields [simp]:
  "sc_text (advance_while p sc) = sc_text sc" "sc_tokens (advance_while p sc) = sc_tokens sc"
  "sc_diagnostics (advance_while p sc) = sc_diagnostics sc"
  by (induction p sc rule: advance_while.induct, subst advance_while.simps, simp)+

lemma advance_while_offset: "sl_offset (sc_location sc) \<le> sl_offset (sc_location (advance_while p sc))"
proof (induction p sc rule: advance_while.induct)
  case (1 p sc)
  then show ?case by (subst advance_while.simps) auto
qed

lemma report_fields [simp]:
  "sc_text (report l c m sc) = sc_text sc" "sc_location (report l c m sc) = sc_location sc"
  "sc_tokens (report l c m sc) = sc_tokens sc"
  by (simp_all add: report_def)

lemma skip_block_comment_fields [simp]:
  "sc_text (skip_block_comment l sc) = sc_text sc" "sc_tokens (skip_block_comment l sc) = sc_tokens sc"
  by (induction l sc rule: skip_block_comment.induct, subst skip_block_comment.simps, simp)+

lemma skip_block_comment_offset: "sl_offset (sc_location sc) \<le> sl_offset (sc_location (skip_block_comment l sc))"
proof (induction l sc rule: skip_block_comment.induct)
  case (1 l sc)
  then show ?case by (subst skip_block_comment.simps) auto
qed

lemma peek_not_end: "peek n sc \<noteq> CHR 0x00 \<Longrightarrow> \<not> at_end sc"
  by (auto simp: peek_def at_end_def Let_def split: if_splits)

lemma advance_while_step: "\<not> at_end sc \<Longrightarrow> p (peek 0 sc) \<Longrightarrow>
   sl_offset (sc_location sc) < sl_offset (sc_location (advance_while p sc))"
  using advance_while_offset [of "advance sc" p] by (subst advance_while.simps) simp

lemma skip_trivia_round_text [simp]: "sc_text (snd (skip_trivia_round sc)) = sc_text sc"
  by (simp add: skip_trivia_round_def Let_def)

lemma skip_trivia_round_offset:
  "if fst (skip_trivia_round sc)
   then sl_offset (sc_location sc) < sl_offset (sc_location (snd (skip_trivia_round sc)))
   else snd (skip_trivia_round sc) = sc"
proof -
  let ?sc1 = "advance_while is_blank sc"
  have 1: "sl_offset (sc_location sc) \<le> sl_offset (sc_location ?sc1)"
    by (rule advance_while_offset)
  have stay: "?sc1 = sc" if "\<not> sl_offset (sc_location sc) < sl_offset (sc_location ?sc1)"
    using that advance_while_step [of sc is_blank] by (subst advance_while.simps) auto
  have line: "sl_offset (sc_location ?sc1) < sl_offset (sc_location (advance_while (\<lambda>c. c \<noteq> CHR 0x0A) ?sc1))"
    if "peek 0 ?sc1 = CHR ''/''"
    using that peek_not_end [of 0 ?sc1] by (intro advance_while_step) auto
  have block: "sl_offset (sc_location ?sc1) < sl_offset (sc_location (skip_block_comment l (advance (advance ?sc1))))" for l
    using skip_block_comment_offset [of "advance (advance ?sc1)" l] by simp
  show ?thesis
    using 1 stay line block by (auto simp: skip_trivia_round_def Let_def intro: le_less_trans)
qed

function skip_trivia :: "scanner \<Rightarrow> scanner" where
  "skip_trivia sc =
     (if at_end sc then sc
      else case skip_trivia_round sc of (consumed, sc') \<Rightarrow> if consumed then skip_trivia sc' else sc')"
  by pat_completeness auto
termination
proof (relation "measure (\<lambda>sc. length (sc_text sc) - sl_offset (sc_location sc))", goal_cases)
  case (2 sc x y)
  then show ?case
    using skip_trivia_round_offset [of sc] skip_trivia_round_text [of sc]
    by (cases "skip_trivia_round sc") (auto simp: at_end_def)
qed simp

declare skip_trivia.simps [simp del]

subsection \<open>Tokens\<close>

function scan_string_body :: "scanner \<Rightarrow> bool \<times> scanner" where
  "scan_string_body sc =
     (if at_end sc then (False, sc)
      else
        let ch = peek 0 sc; sc1 = advance sc in
        if ch = CHR 0x5C \<and> \<not> at_end sc1 then scan_string_body (advance sc1)
        else if ch = CHR 0x22 then (True, sc1)
        else scan_string_body sc1)"
  by pat_completeness auto
termination
  by (relation "measure (\<lambda>sc. length (sc_text sc) - sl_offset (sc_location sc))") (auto simp: at_end_def)

declare scan_string_body.simps [simp del]

definition scan_string :: "source_location \<Rightarrow> scanner \<Rightarrow> scanner" where
  "scan_string start sc =
     (case scan_string_body sc of (closed, sc1) \<Rightarrow>
        add_token TK_StringLiteral start
          (if closed then sc1 else report start ''SSPEC0102'' ''unterminated string literal'' sc1))"

definition scan_number :: "source_location \<Rightarrow> scanner \<Rightarrow> scanner" where
  "scan_number start sc =
     (let sc1 = advance_while is_digit sc in
      if peek 0 sc1 = CHR ''.'' \<and> is_digit (peek 1 sc1)
      then add_token TK_DecimalLiteral start (advance_while is_digit (advance sc1))
      else add_token TK_IntegerLiteral start sc1)"

definition scan_identifier_or_duration :: "source_location \<Rightarrow> scanner \<Rightarrow> scanner" where
  "scan_identifier_or_duration start sc =
     (let sc1 = advance_while is_identifier_part sc;
          lexeme = take (sl_offset (sc_location sc1) - sl_offset start) (drop (sl_offset start) (sc_text sc1))
      in if looks_like_duration lexeme then add_token TK_DurationLiteral start sc1
         else add_token (keyword_kind lexeme) start sc1)"

text \<open>The tokens of one character that no longer token starts with.\<close>

definition single_tokens :: "(char \<times> token_kind) list" where
  "single_tokens =
     [(CHR ''{'', TK_LeftBrace), (CHR ''}'', TK_RightBrace), (CHR ''('', TK_LeftParen),
      (CHR '')'', TK_RightParen), (CHR ''['', TK_LeftBracket), (CHR '']'', TK_RightBracket),
      (CHR '','', TK_Comma), (CHR '':'', TK_Colon), (CHR '';'', TK_Semicolon), (CHR ''.'', TK_Dot),
      (CHR ''?'', TK_Question), (CHR ''+'', TK_Plus), (CHR ''*'', TK_Star), (CHR ''%'', TK_Percent),
      (CHR ''/'', TK_Slash)]"

definition scan_either :: "char \<Rightarrow> token_kind \<Rightarrow> token_kind \<Rightarrow> source_location \<Rightarrow> scanner \<Rightarrow> scanner" where
  "scan_either expected yes no start sc =
     (case match_char expected sc of (matched, sc1) \<Rightarrow> add_token (if matched then yes else no) start sc1)"

definition scan_pair :: "char \<Rightarrow> token_kind \<Rightarrow> string \<Rightarrow> source_location \<Rightarrow> scanner \<Rightarrow> scanner" where
  "scan_pair expected kind message start sc =
     (case match_char expected sc of (matched, sc1) \<Rightarrow>
        if matched then add_token kind start sc1 else unknown_token start message sc1)"

definition scan_token :: "scanner \<Rightarrow> scanner" where
  "scan_token sc0 =
     (let start = sc_location sc0; ch = peek 0 sc0; sc = advance sc0 in
      case map_of single_tokens ch of Some kind \<Rightarrow> add_token kind start sc
      | None \<Rightarrow>
      if ch = CHR ''-''
        then if is_digit (peek 0 sc) then scan_number start sc else scan_either (CHR ''>'') TK_Arrow TK_Minus start sc
      else if ch = CHR ''='' then scan_either (CHR ''='') TK_EqualEqual TK_Equals start sc
      else if ch = CHR ''!'' then scan_either (CHR ''='') TK_BangEqual TK_Bang start sc
      else if ch = CHR ''<'' then scan_either (CHR ''='') TK_LessEqual TK_Less start sc
      else if ch = CHR ''>'' then scan_either (CHR ''='') TK_GreaterEqual TK_Greater start sc
      else if ch = CHR ''&''
        then scan_pair (CHR ''&'') TK_AndAnd (''unexpected '' @ quoted ''&'' @ ''; did you mean '' @ quoted ''&&'' @ ''?'') start sc
      else if ch = CHR ''|''
        then scan_pair (CHR ''|'') TK_OrOr (''unexpected '' @ quoted ''|'' @ ''; did you mean '' @ quoted ''||'' @ ''?'') start sc
      else if ch = CHR 0x22 then scan_string start sc
      else if is_digit ch then scan_number start sc
      else if is_identifier_start ch then scan_identifier_or_duration start sc
      else unknown_token start (''unexpected character '' @ quoted [ch]) sc)"


section \<open>Positions\<close>

text \<open>What is left of the text, and stepping over a piece of it.\<close>

definition rest :: "scanner \<Rightarrow> string" where
  "rest sc = drop (sl_offset (sc_location sc)) (sc_text sc)"

definition location_after :: "string \<Rightarrow> source_location \<Rightarrow> source_location" where
  "location_after w l = fold next_location w l"

definition step_over :: "string \<Rightarrow> scanner \<Rightarrow> scanner" where
  "step_over w sc = sc\<lparr>sc_location := location_after w (sc_location sc)\<rparr>"

lemma location_after_simps [simp]:
  "location_after [] l = l" "location_after (c # w) l = location_after w (next_location c l)"
  "location_after (v @ w) l = location_after w (location_after v l)"
  by (simp_all add: location_after_def)

lemma next_location_offset [simp]: "sl_offset (next_location c l) = Suc (sl_offset l)"
  by (simp add: next_location_def)

lemma location_after_offset [simp]: "sl_offset (location_after w l) = sl_offset l + length w"
  by (induction w arbitrary: l) (simp_all add: next_location_def)

lemma location_after_line: "sl_line (location_after w l) = sl_line l + length (filter (\<lambda>c. c = CHR 0x0A) w)"
  by (induction w arbitrary: l) (simp_all add: next_location_def)

lemma location_after_column_line: "CHR 0x0A \<notin> set w \<Longrightarrow> sl_column (location_after w l) = sl_column l + length w"
  by (induction w arbitrary: l) (auto simp: next_location_def)

lemma location_after_column:
  "sl_column (location_after w start_location) = 1 + length (takeWhile (\<lambda>c. c \<noteq> CHR 0x0A) (rev w))"
proof (cases "CHR 0x0A \<in> set w")
  case True
  then obtain u v where w: "w = u @ CHR 0x0A # v" "CHR 0x0A \<notin> set v"
    by (meson split_list_last)
  then have "takeWhile (\<lambda>c. c \<noteq> CHR 0x0A) (rev w) = rev v"
    by (auto simp: takeWhile_tail)
  then show ?thesis
    using w by (simp add: location_after_column_line next_location_def)
next
  case False
  then have all: "takeWhile (\<lambda>c. c \<noteq> CHR 0x0A) (rev w) = rev w"
    by (auto simp: takeWhile_eq_all_conv)
  show ?thesis
    unfolding all using False by (simp add: location_after_column_line start_location_def)
qed

lemma step_over_simps [simp]:
  "step_over [] sc = sc" "step_over v (step_over w sc) = step_over (w @ v) sc"
  "sc_text (step_over w sc) = sc_text sc" "sc_tokens (step_over w sc) = sc_tokens sc"
  "sc_diagnostics (step_over w sc) = sc_diagnostics sc"
  "sc_location (step_over w sc) = location_after w (sc_location sc)"
  "rest (step_over w sc) = drop (length w) (rest sc)"
  by (simp_all add: step_over_def rest_def add.commute)

lemma at_end_rest: "at_end sc \<longleftrightarrow> rest sc = []"
  by (simp add: at_end_def rest_def)

lemma peek_rest: "peek n sc = (if n < length (rest sc) then rest sc ! n else CHR 0x00)"
  by (auto simp: peek_def rest_def Let_def add.commute)

lemma peek_zero_rest: "peek 0 sc = (case rest sc of [] \<Rightarrow> CHR 0x00 | c # cs \<Rightarrow> c)"
  by (simp add: peek_rest split: list.split)

lemma peek_head [simp]: "rest sc = c # cs \<Longrightarrow> peek 0 sc = c"
  by (simp add: peek_rest)

lemma peek_one_rest: "peek (Suc 0) sc = (case rest sc of c # d # cs \<Rightarrow> d | _ \<Rightarrow> CHR 0x00)"
  by (simp add: peek_rest split: list.split)

lemma advance_step: "rest sc = c # cs \<Longrightarrow> advance sc = step_over [c] sc"
  by (simp add: advance_def step_over_def)

lemma advance_rest: "rest sc = c # cs \<Longrightarrow> rest (advance sc) = cs"
  by (simp add: advance_step)

lemma advance_while_rest: "advance_while p sc = step_over (takeWhile p (rest sc)) sc"
proof (induction p sc rule: advance_while.induct)
  case (1 p sc)
  show ?case
  proof (cases "rest sc")
    case Nil
    then show ?thesis by (subst advance_while.simps) (simp add: at_end_rest)
  next
    case (Cons c cs)
    then show ?thesis
      using 1 by (subst advance_while.simps) (simp add: at_end_rest advance_step)
  qed
qed

lemma add_token_step:
  "take (length w) (rest sc) = w \<Longrightarrow> add_token k (sc_location sc) (step_over w sc) =
   (step_over w sc)\<lparr>sc_tokens := sc_tokens sc @
     [\<lparr>tok_kind = k, tok_lexeme = w,
       tok_range = \<lparr>sr_begin = sc_location sc, sr_end = location_after w (sc_location sc)\<rparr>\<rparr>]\<rparr>"
  by (simp add: add_token_def rest_def)

section \<open>The reference lexer\<close>

text \<open>The text as a list of items: trivia and lexemes, each as long as it can be. An item carries its
  text; a faulty one carries the code and the message of its diagnostic.\<close>

type_synonym fault = "(string \<times> string) option"

datatype item = Blank string | Comment string fault | Lexeme token_kind string fault

fun item_text :: "item \<Rightarrow> string" where
  "item_text (Blank w) = w"
| "item_text (Comment w f) = w"
| "item_text (Lexeme k w f) = w"

fun item_fault :: "item \<Rightarrow> fault" where
  "item_fault (Blank w) = None"
| "item_fault (Comment w f) = f"
| "item_fault (Lexeme k w f) = f"

text \<open>The body of a block comment up to its first \<open>*/\<close>, and whether there is one.\<close>

fun munch_block :: "string \<Rightarrow> string \<times> bool" where
  "munch_block (c # d # cs) =
     (if c = CHR ''*'' \<and> d = CHR ''/'' then ([c, d], True)
      else (case munch_block (d # cs) of (w, closed) \<Rightarrow> (c # w, closed)))"
| "munch_block cs = (cs, False)"

text \<open>The body of a string up to the first quote that no backslash precedes.\<close>

fun munch_string :: "string \<Rightarrow> string \<times> bool" where
  "munch_string [] = ([], False)"
| "munch_string [c] = ([c], c = CHR 0x22)"
| "munch_string (c # d # cs) =
     (if c = CHR 0x5C then (case munch_string cs of (w, closed) \<Rightarrow> (c # d # w, closed))
      else if c = CHR 0x22 then ([c], True)
      else (case munch_string (d # cs) of (w, closed) \<Rightarrow> (c # w, closed)))"

definition munch_number :: "string \<Rightarrow> token_kind \<times> string" where
  "munch_number cs =
     (let ds = takeWhile is_digit cs in
      case dropWhile is_digit cs of
        p # d # r \<Rightarrow>
          if p = CHR ''.'' \<and> is_digit d then (TK_DecimalLiteral, ds @ p # takeWhile is_digit (d # r))
          else (TK_IntegerLiteral, ds)
      | _ \<Rightarrow> (TK_IntegerLiteral, ds))"

definition word_kind :: "string \<Rightarrow> token_kind" where
  "word_kind w = (if looks_like_duration w then TK_DurationLiteral else keyword_kind w)"

definition munch_either :: "char \<Rightarrow> char \<Rightarrow> token_kind \<Rightarrow> token_kind \<Rightarrow> string \<Rightarrow> item" where
  "munch_either c d yes no cs =
     (case cs of e # _ \<Rightarrow> if e = d then Lexeme yes [c, d] None else Lexeme no [c] None
      | [] \<Rightarrow> Lexeme no [c] None)"

definition munch_pair :: "char \<Rightarrow> token_kind \<Rightarrow> string \<Rightarrow> item" where
  "munch_pair c kind cs =
     (case cs of e # _ \<Rightarrow> if e = c then Lexeme kind [c, c] None else Lexeme TK_Unknown [c]
        (Some (''SSPEC0100'', ''unexpected '' @ quoted [c] @ ''; did you mean '' @ quoted [c, c] @ ''?''))
      | [] \<Rightarrow> Lexeme TK_Unknown [c]
        (Some (''SSPEC0100'', ''unexpected '' @ quoted [c] @ ''; did you mean '' @ quoted [c, c] @ ''?'')))"

definition munch :: "char \<Rightarrow> string \<Rightarrow> item" where
  "munch c cs =
     (case map_of single_tokens c of Some kind \<Rightarrow> Lexeme kind [c] None
      | None \<Rightarrow>
      if c = CHR ''-'' then
        (if cs \<noteq> [] \<and> is_digit (hd cs)
         then (case munch_number cs of (k, w) \<Rightarrow> Lexeme k (c # w) None)
         else munch_either c (CHR ''>'') TK_Arrow TK_Minus cs)
      else if c = CHR ''='' then munch_either c (CHR ''='') TK_EqualEqual TK_Equals cs
      else if c = CHR ''!'' then munch_either c (CHR ''='') TK_BangEqual TK_Bang cs
      else if c = CHR ''<'' then munch_either c (CHR ''='') TK_LessEqual TK_Less cs
      else if c = CHR ''>'' then munch_either c (CHR ''='') TK_GreaterEqual TK_Greater cs
      else if c = CHR ''&'' then munch_pair c TK_AndAnd cs
      else if c = CHR ''|'' then munch_pair c TK_OrOr cs
      else if c = CHR 0x22 then
        (case munch_string cs of (w, closed) \<Rightarrow> Lexeme TK_StringLiteral (c # w)
          (if closed then None else Some (''SSPEC0102'', ''unterminated string literal'')))
      else if is_digit c then (case munch_number (c # cs) of (k, w) \<Rightarrow> Lexeme k w None)
      else if is_alpha c
        then (let w = c # takeWhile is_identifier_part cs in Lexeme (word_kind w) w None)
      else Lexeme TK_Unknown [c] (Some (''SSPEC0100'', ''unexpected character '' @ quoted [c])))"

definition first_item :: "char \<Rightarrow> string \<Rightarrow> item" where
  "first_item c cs =
     (if is_blank c then Blank (c # takeWhile is_blank cs)
      else if c = CHR ''/'' \<and> cs \<noteq> [] \<and> hd cs = CHR ''/''
        then Comment (c # takeWhile (\<lambda>d. d \<noteq> CHR 0x0A) cs) None
      else if c = CHR ''/'' \<and> cs \<noteq> [] \<and> hd cs = CHR ''*''
        then (case munch_block (tl cs) of (w, closed) \<Rightarrow> Comment (c # CHR ''*'' # w)
          (if closed then None else Some (''SSPEC0101'', ''unterminated block comment'')))
      else munch c cs)"

function items :: "string \<Rightarrow> item list" where
  "items [] = []"
| "items (c # cs) = first_item c cs # items (drop (length (item_text (first_item c cs)) - 1) cs)"
  by pat_completeness auto
termination by (relation "measure length") auto

text \<open>What the scanner does with an item.\<close>

definition take_item :: "item \<Rightarrow> scanner \<Rightarrow> scanner" where
  "take_item i sc =
     (let l = sc_location sc; l' = location_after (item_text i) l in
      sc\<lparr>sc_location := l',
         sc_tokens := sc_tokens sc @
           (case i of Lexeme k w f \<Rightarrow> [\<lparr>tok_kind = k, tok_lexeme = w, tok_range = \<lparr>sr_begin = l, sr_end = l'\<rparr>\<rparr>] | _ \<Rightarrow> []),
         sc_diagnostics :=
           (case item_fault i of None \<Rightarrow> sc_diagnostics sc
            | Some (code, message) \<Rightarrow> add_error \<lparr>sr_begin = l, sr_end = l'\<rparr> code message (sc_diagnostics sc))\<rparr>)"

section \<open>The scanner takes the items of the reference lexer\<close>

lemma take_item_step:
  "take_item i sc = (step_over (item_text i) sc)\<lparr>
     sc_tokens := sc_tokens (take_item i sc), sc_diagnostics := sc_diagnostics (take_item i sc)\<rparr>"
  by (simp add: take_item_def step_over_def Let_def)

lemma take_item_rest [simp]:
  "rest (take_item i sc) = drop (length (item_text i)) (rest sc)" "sc_text (take_item i sc) = sc_text sc"
  "sc_location (take_item i sc) = location_after (item_text i) (sc_location sc)"
  by (simp_all add: take_item_def rest_def Let_def add.commute)

lemma take_blank: "take_item (Blank w) sc = step_over w sc"
  by (simp add: take_item_def step_over_def)

lemma take_comment: "take_item (Comment w None) sc = step_over w sc"
  by (simp add: take_item_def step_over_def)

lemma take_lexeme:
  "take (length w) (rest sc) = w \<Longrightarrow> take_item (Lexeme k w None) sc = add_token k (sc_location sc) (step_over w sc)"
  by (simp add: add_token_step) (simp add: take_item_def step_over_def Let_def)

lemma take_unknown:
  "take (length w) (rest sc) = w \<Longrightarrow>
   take_item (Lexeme TK_Unknown w (Some (''SSPEC0100'', m))) sc = unknown_token (sc_location sc) m (step_over w sc)"
  by (simp add: unknown_token_def add_token_step) (simp add: take_item_def step_over_def report_def Let_def)

lemma munch_block_text: "fst (munch_block cs) = take (length (fst (munch_block cs))) cs"
  by (induction cs rule: munch_block.induct) (auto split: prod.splits)

lemma skip_block_comment_munch:
  "skip_block_comment l sc =
     (case munch_block (rest sc) of (w, closed) \<Rightarrow>
        if closed then step_over w sc
        else report l ''SSPEC0101'' ''unterminated block comment'' (step_over w sc))"
proof (induction l sc rule: skip_block_comment.induct)
  case (1 l sc)
  show ?case
  proof (cases "rest sc")
    case Nil
    then show ?thesis by (subst skip_block_comment.simps) (simp add: at_end_rest)
  next
    case (Cons c cs)
    then show ?thesis
    proof (cases cs)
      case Nil
      then show ?thesis
        using 1 Cons by (subst skip_block_comment.simps) (simp add: at_end_rest advance_step peek_one_rest)
    next
      case (Cons d ds)
      have r: "rest sc = c # d # ds" using \<open>rest sc = c # cs\<close> Cons by simp
      have a: "advance sc = step_over [c] sc" by (rule advance_step [OF r])
      have "advance (step_over [c] sc) = step_over [c, d] sc"
        using advance_step [of "step_over [c] sc" d ds] r by simp
      then show ?thesis
        using 1 r a
        by (subst skip_block_comment.simps) (auto simp: at_end_rest peek_zero_rest peek_one_rest split: prod.split)
    qed
  qed
qed

lemma scan_string_body_munch:
  "rest sc = cs \<Longrightarrow>
   scan_string_body sc = (case munch_string cs of (w, closed) \<Rightarrow> (closed, step_over w sc))"
proof (induction cs arbitrary: sc rule: munch_string.induct)
  case 1
  then show ?case by (subst scan_string_body.simps) (simp add: at_end_rest)
next
  case (2 c)
  then have "advance sc = step_over [c] sc" by (rule advance_step)
  moreover have "scan_string_body (step_over [c] sc) = (False, step_over [c] sc)"
    using 2 by (subst scan_string_body.simps) (simp add: at_end_rest)
  ultimately show ?case
    using 2 by (subst scan_string_body.simps) (simp add: at_end_rest Let_def)
next
  case (3 c d ds)
  have a: "advance sc = step_over [c] sc" "advance (step_over [c] sc) = step_over [c, d] sc"
    using advance_step [OF 3(3)] advance_step [of "step_over [c] sc" d ds] 3(3) by simp_all
  have r: "rest (step_over [c] sc) = d # ds" "rest (step_over [c, d] sc) = ds"
    using 3(3) by simp_all
  show ?case
  proof (cases "c = CHR 0x5C")
    case True
    then show ?thesis
      using 3(1) [OF True r(2)] 3(3) a by (subst scan_string_body.simps) (simp add: at_end_rest Let_def split: prod.split)
  next
    case False
    then show ?thesis
      using 3(2) [OF False _ r(1)] 3(3) a
      by (subst scan_string_body.simps) (simp add: at_end_rest Let_def split: prod.split)
  qed
qed

lemma munch_string_text: "fst (munch_string cs) = take (length (fst (munch_string cs))) cs"
  by (induction cs rule: munch_string.induct) (auto split: prod.splits)

lemma munch_number_prefix: "\<exists>r. cs = snd (munch_number cs) @ r"
proof -
  have cs: "cs = takeWhile is_digit cs @ dropWhile is_digit cs"
    by simp
  have dec: "\<exists>r'. cs = (takeWhile is_digit cs @ p # takeWhile is_digit r) @ r'" if "dropWhile is_digit cs = p # r" for p r
  proof
    have "r = takeWhile is_digit r @ dropWhile is_digit r" by simp
    then show "cs = (takeWhile is_digit cs @ p # takeWhile is_digit r) @ dropWhile is_digit r"
      using cs that by (metis append_Cons append_assoc)
  qed
  have int: "\<exists>r. cs = takeWhile is_digit cs @ r"
    by (rule exI [of _ "dropWhile is_digit cs"]) simp
  show ?thesis
  proof (cases "\<exists>p d r. dropWhile is_digit cs = p # d # r \<and> p = CHR ''.'' \<and> is_digit d")
    case True
    then obtain d r where r: "dropWhile is_digit cs = CHR ''.'' # d # r" "is_digit d"
      by blast
    then show ?thesis
      using dec [OF r(1)] by (simp add: munch_number_def Let_def)
  next
    case False
    then have "snd (munch_number cs) = takeWhile is_digit cs"
      by (auto simp: munch_number_def Let_def split: list.split)
    then show ?thesis
      using int by simp
  qed
qed

lemma prefix_take: "cs = w @ r \<Longrightarrow> take (length w) cs = w"
  by simp

lemma scan_number_munch:
  assumes "rest sc = pre @ cs" and "munch_number cs = (k, w)"
  shows "scan_number (sc_location sc) (step_over pre sc) = take_item (Lexeme k (pre @ w) None) sc"
proof -
  let ?sc1 = "step_over (pre @ takeWhile is_digit cs) sc"
  have 1: "advance_while is_digit (step_over pre sc) = ?sc1"
    using assms(1) by (simp add: advance_while_rest)
  have drop: "drop (length (takeWhile is_digit cs)) cs = dropWhile is_digit cs"
    by (metis dropWhile_eq_drop)
  then have r: "rest ?sc1 = dropWhile is_digit cs"
    using assms(1) by simp
  obtain t where t: "cs = w @ t"
    using munch_number_prefix [of cs] assms(2) by auto
  have lex: "add_token k (sc_location sc) (step_over (pre @ w) sc) = take_item (Lexeme k (pre @ w) None) sc"
    by (rule take_lexeme [symmetric]) (simp add: assms(1) t)
  show ?thesis
  proof (cases "\<exists>d r. dropWhile is_digit cs = CHR ''.'' # d # r \<and> is_digit d")
    case True
    then obtain d ds where d: "dropWhile is_digit cs = CHR ''.'' # d # ds" "is_digit d"
      by blast
    then have kw: "k = TK_DecimalLiteral" "w = takeWhile is_digit cs @ CHR ''.'' # takeWhile is_digit (d # ds)"
      using assms(2) by (auto simp: munch_number_def)
    have r': "rest ?sc1 = CHR ''.'' # d # ds"
      using r d(1) by (simp only:)
    have "advance_while is_digit (advance ?sc1) = step_over (takeWhile is_digit (d # ds)) (step_over ''.'' ?sc1)"
      by (subst advance_while_rest, subst advance_rest [OF r'], subst advance_step [OF r'], rule refl)
    then have "advance_while is_digit (advance ?sc1) = step_over (pre @ w) sc"
      by (simp add: kw(2))
    then show ?thesis
      using r d lex kw(1) by (simp add: scan_number_def 1 Let_def peek_zero_rest peek_one_rest)
  next
    case False
    then have kw: "k = TK_IntegerLiteral" "w = takeWhile is_digit cs"
      using assms(2) by (auto simp: munch_number_def Let_def split: list.splits if_splits)
    have "\<not> (peek 0 ?sc1 = CHR ''.'' \<and> is_digit (peek 1 ?sc1))"
      using False r by (auto simp: peek_zero_rest peek_one_rest is_digit_def split: list.splits)
    then show ?thesis
      using lex kw by (auto simp: scan_number_def 1 Let_def)
  qed
qed

lemma scan_either_munch:
  assumes "rest sc = c # cs" and "d \<noteq> CHR 0x00"
  shows "scan_either d yes no (sc_location sc) (step_over [c] sc) = take_item (munch_either c d yes no cs) sc"
proof (cases cs)
  case Nil
  then show ?thesis
    using assms take_lexeme [of "[c]" sc no]
    by (simp add: scan_either_def match_char_def munch_either_def peek_zero_rest)
next
  case (Cons e r)
  have "advance (step_over [c] sc) = step_over [c, e] sc"
    using assms(1) Cons by (simp add: advance_step)
  then show ?thesis
    using assms Cons take_lexeme [of "[c]" sc no] take_lexeme [of "[c, e]" sc yes]
    by (auto simp: scan_either_def match_char_def munch_either_def peek_zero_rest)
qed

lemma scan_pair_munch:
  assumes "rest sc = c # cs" and "c \<noteq> CHR 0x00"
    and "m = ''unexpected '' @ quoted [c] @ ''; did you mean '' @ quoted [c, c] @ ''?''"
  shows "scan_pair c k m (sc_location sc) (step_over [c] sc) = take_item (munch_pair c k cs) sc"
proof (cases cs)
  case Nil
  then show ?thesis
    using assms take_unknown [of "[c]" sc m]
    by (simp add: scan_pair_def match_char_def munch_pair_def peek_zero_rest)
next
  case (Cons e r)
  have "advance (step_over [c] sc) = step_over [c, e] sc"
    using assms(1) Cons by (simp add: advance_step)
  then show ?thesis
    using assms Cons take_unknown [of "[c]" sc m] take_lexeme [of "[c, e]" sc k]
    by (auto simp: scan_pair_def match_char_def munch_pair_def peek_zero_rest)
qed

lemma scan_string_munch:
  assumes "rest sc = c # cs" and "munch_string cs = (w, closed)"
  shows "scan_string (sc_location sc) (step_over [c] sc) =
    take_item (Lexeme TK_StringLiteral (c # w)
      (if closed then None else Some (''SSPEC0102'', ''unterminated string literal''))) sc"
proof -
  have t: "take (length (c # w)) (rest sc) = c # w"
    using assms munch_string_text [of cs] by simp
  have body: "scan_string_body (step_over [c] sc) = (closed, step_over (c # w) sc)"
    using assms scan_string_body_munch [of "step_over [c] sc" cs] by simp
  show ?thesis
    using add_token_step [OF t, of TK_StringLiteral] t
    by (simp add: scan_string_def body)
      (simp add: take_item_def add_token_def report_def step_over_def rest_def Let_def)
qed

lemma scan_word_munch:
  assumes "rest sc = c # cs"
  shows "scan_identifier_or_duration (sc_location sc) (step_over [c] sc) =
    (let w = c # takeWhile is_identifier_part cs in take_item (Lexeme (word_kind w) w None) sc)"
proof -
  let ?w = "c # takeWhile is_identifier_part cs"
  have 1: "advance_while is_identifier_part (step_over [c] sc) = step_over ?w sc"
    using assms by (simp add: advance_while_rest)
  have t: "take (length ?w) (rest sc) = ?w"
    using assms takeWhile_eq_take [of is_identifier_part cs] by simp
  then have l: "take (length ?w) (drop (sl_offset (sc_location sc)) (sc_text sc)) = ?w"
    by (simp add: rest_def)
  show ?thesis
    using take_lexeme [OF t] l
    by (cases "looks_like_duration ?w") (simp_all add: scan_identifier_or_duration_def 1 Let_def word_kind_def)
qed

lemma scan_token_munch:
  assumes r: "rest sc = c # cs"
  shows "scan_token sc = take_item (munch c cs) sc"
proof -
  have a: "advance sc = step_over [c] sc" by (rule advance_step [OF r])
  have one: "take (length [c]) (rest sc) = [c]" using r by simp
  have digit: "is_digit (peek 0 (step_over [c] sc)) \<longleftrightarrow> cs \<noteq> [] \<and> is_digit (hd cs)"
    using r by (cases cs) (simp_all add: peek_zero_rest is_digit_def)
  have number: "scan_number (sc_location sc) (step_over [c] sc) =
      (case munch_number cs of (k, w) \<Rightarrow> take_item (Lexeme k (c # w) None) sc)"
    using scan_number_munch [of sc "[c]" cs] r by (simp split: prod.split)
  have number': "scan_number (sc_location sc) (step_over [c] sc) =
      (case munch_number (c # cs) of (k, w) \<Rightarrow> take_item (Lexeme k w None) sc)" if "is_digit c"
  proof -
    have "scan_number (sc_location sc) (step_over [c] sc) = scan_number (sc_location sc) sc"
      using r that by (simp add: scan_number_def advance_while_rest)
    then show ?thesis
      using scan_number_munch [of sc "[]" "c # cs"] r by (simp split: prod.split)
  qed
  have single: "add_token k (sc_location sc) (step_over [c] sc) = take_item (Lexeme k [c] None) sc" for k
    using take_lexeme [OF one] by simp
  have unknown: "unknown_token (sc_location sc) m (step_over [c] sc) =
      take_item (Lexeme TK_Unknown [c] (Some (''SSPEC0100'', m))) sc" for m
    using take_unknown [OF one] by simp
  have either: "c = c' \<Longrightarrow> d \<noteq> CHR 0x00 \<Longrightarrow> scan_either d yes no (sc_location sc) (step_over [c] sc) =
      take_item (munch_either c d yes no cs) sc" for c' d yes no
    by (rule scan_either_munch [OF r])
  have pair: "scan_pair d k (''unexpected '' @ quoted [d] @ ''; did you mean '' @ quoted [d, d] @ ''?'')
        (sc_location sc) (step_over [c] sc) = take_item (munch_pair c k cs) sc" if "c = d" "d \<noteq> CHR 0x00" for d k
    using scan_pair_munch [OF r] that by simp
  have string: "scan_string (sc_location sc) (step_over [c] sc) = (case munch_string cs of (w, closed) \<Rightarrow>
      take_item (Lexeme TK_StringLiteral (c # w)
        (if closed then None else Some (''SSPEC0102'', ''unterminated string literal''))) sc)"
    using scan_string_munch [OF r] by (simp split: prod.split)
  note distrib = if_distrib [of "\<lambda>i. take_item i sc"] prod.case_distrib [of "\<lambda>i. take_item i sc"]
  show ?thesis
  proof (cases "map_of single_tokens c")
    case (Some k)
    then show ?thesis
      unfolding scan_token_def munch_def Let_def a peek_head [OF r] by (simp add: single)
  next
    case None
    show ?thesis
      unfolding scan_token_def munch_def Let_def a peek_head [OF r] None option.case digit is_identifier_start_def distrib
      by (intro if_cong refl number number' string unknown scan_word_munch [OF r, unfolded Let_def]; (rule either pair)?; simp)
  qed
qed

definition item_starts :: "char \<Rightarrow> item \<Rightarrow> bool" where
  "item_starts c i \<longleftrightarrow> (\<exists>w. item_text i = c # w)"

lemma item_starts_if: "(Q \<Longrightarrow> item_starts c i) \<Longrightarrow> (\<not> Q \<Longrightarrow> item_starts c j) \<Longrightarrow> item_starts c (if Q then i else j)"
  by simp

lemma item_starts_simps [simp]:
  "item_starts c (Blank (c # w))" "item_starts c (Comment (c # w) f)" "item_starts c (Lexeme k (c # w) f)"
  "item_starts c (munch_either c d yes no cs)" "item_starts c (munch_pair c k cs)"
  by (auto simp: item_starts_def munch_either_def munch_pair_def split: list.split)

lemma munch_starts: "item_starts c (munch c cs)"
proof (cases "map_of single_tokens c")
  case None
  have num: "item_starts c (case munch_number (c # cs) of (k, w) \<Rightarrow> Lexeme k w None)" if "is_digit c"
    using that by (auto simp: munch_number_def Let_def item_starts_def split: list.split)
  show ?thesis
    unfolding munch_def None option.case Let_def
    by (intro item_starts_if num; simp split: prod.split)
qed (simp add: munch_def)

lemma first_item_starts: "item_starts c (first_item c cs)"
  unfolding first_item_def by (intro item_starts_if munch_starts; simp split: prod.split)

lemma item_text_first: "\<exists>w. item_text (first_item c cs) = c # w"
  using first_item_starts by (simp add: item_starts_def)

lemma fold_take_step:
  assumes "rest sc = c # cs"
  shows "fold take_item (items (rest sc)) sc =
    fold take_item (items (rest (take_item (first_item c cs) sc))) (take_item (first_item c cs) sc)"
proof -
  obtain w where "item_text (first_item c cs) = c # w"
    using item_text_first by blast
  then show ?thesis
    using assms by simp
qed

definition scans :: "scanner \<Rightarrow> scanner" where
  "scans sc = fold take_item (items (rest sc)) sc"

lemma scans_end: "at_end sc \<Longrightarrow> scans sc = sc"
  by (simp add: scans_def at_end_rest)

lemma scans_step: "rest sc = c # cs \<Longrightarrow> scans sc = scans (take_item (first_item c cs) sc)"
  unfolding scans_def by (rule fold_take_step)

lemma advance_while_blank:
  "rest sc = c # cs \<Longrightarrow> advance_while is_blank sc = (if is_blank c then take_item (first_item c cs) sc else sc)"
  by (simp add: advance_while_rest first_item_def take_blank)

lemma scans_blank: "scans (advance_while is_blank sc) = scans sc"
  by (cases "rest sc") (simp_all add: advance_while_blank scans_step, simp add: advance_while_rest)

lemma blank_done: "rest (advance_while is_blank sc) = c # cs \<Longrightarrow> \<not> is_blank c"
proof -
  assume "rest (advance_while is_blank sc) = c # cs"
  then have "dropWhile is_blank (rest sc) = c # cs"
    by (simp add: advance_while_rest dropWhile_eq_drop)
  then show ?thesis by (metis hd_dropWhile list.discI list.sel(1))
qed

lemma scans_round: "scans (snd (skip_trivia_round sc)) = scans sc"
proof -
  let ?sc1 = "advance_while is_blank sc"
  have line: "scans (advance_while (\<lambda>c. c \<noteq> CHR 0x0A) ?sc1) = scans ?sc1" if "rest ?sc1 = CHR ''/'' # CHR ''/'' # cs" for cs
    using scans_step [OF that] that by (simp add: first_item_def is_blank_def advance_while_rest [of _ ?sc1] take_comment)
  have block: "scans (skip_block_comment (sc_location ?sc1) (advance (advance ?sc1))) = scans ?sc1"
    if r: "rest ?sc1 = CHR ''/'' # CHR ''*'' # cs" for cs
  proof -
    obtain w closed where m: "munch_block cs = (w, closed)" by force
    have a: "advance (advance ?sc1) = step_over ''/*'' ?sc1"
      using advance_step [OF r] advance_step [of "step_over ''/'' ?sc1" "CHR ''*''" cs] r by simp
    have "rest (step_over ''/*'' ?sc1) = cs"
      using arg_cong [OF r, of "drop 2"] by (simp add: numeral_2_eq_2)
    then have "skip_block_comment (sc_location ?sc1) (step_over ''/*'' ?sc1) =
        take_item (first_item (CHR ''/'') (CHR ''*'' # cs)) ?sc1"
      using m by (simp add: skip_block_comment_munch first_item_def is_blank_def del: step_over_simps(7))
        (simp add: take_item_def step_over_def report_def Let_def)
    then show ?thesis
      using scans_step [OF r] a by simp
  qed
  show ?thesis
    using line block scans_blank [of sc]
    by (cases "rest ?sc1") (auto simp: skip_trivia_round_def Let_def peek_zero_rest peek_one_rest split: list.splits)
qed

lemma scans_skip: "scans (skip_trivia sc) = scans sc"
proof (induction sc rule: skip_trivia.induct)
  case (1 sc)
  then show ?case
    using scans_round [of sc] by (subst skip_trivia.simps) (auto split: prod.split)
qed

text \<open>Where trivia ends, a token starts.\<close>

lemma skip_trivia_done: "\<not> at_end (skip_trivia sc) \<Longrightarrow> \<not> fst (skip_trivia_round (skip_trivia sc))"
proof (induction sc rule: skip_trivia.induct)
  case (1 sc)
  show ?case
  proof (cases "at_end sc \<or> fst (skip_trivia_round sc)")
    case True
    then show ?thesis
    proof (cases "at_end sc")
      case True
      then show ?thesis using 1(2) by (simp add: skip_trivia.simps [of sc])
    next
      case False
      then obtain sc' where "skip_trivia_round sc = (True, sc')"
        using \<open>at_end sc \<or> fst (skip_trivia_round sc)\<close> by (cases "skip_trivia_round sc") simp
      moreover from this have "skip_trivia sc = skip_trivia sc'"
        using False by (subst skip_trivia.simps) simp
      ultimately show ?thesis
        using 1(1) [OF False, of True sc'] 1(2) by simp
    qed
  next
    case False
    then have "skip_trivia sc = sc"
      using skip_trivia_round_offset [of sc] by (subst skip_trivia.simps) (auto split: prod.split)
    then show ?thesis using False by simp
  qed
qed

lemma no_trivia_munch:
  assumes "rest sc = c # cs" and "\<not> fst (skip_trivia_round sc)"
  shows "first_item c cs = munch c cs"
proof -
  have "\<not> is_blank c"
    using assms advance_while_step [of sc is_blank] by (auto simp: skip_trivia_round_def Let_def at_end_rest split: if_splits)
  then have "advance_while is_blank sc = sc"
    using assms(1) by (simp add: advance_while_blank)
  then show ?thesis
    using assms \<open>\<not> is_blank c\<close>
    by (cases cs) (auto simp: skip_trivia_round_def Let_def first_item_def peek_zero_rest peek_one_rest split: if_splits)
qed

lemma scan_token_scans: "\<not> at_end (skip_trivia sc) \<Longrightarrow> scans (scan_token (skip_trivia sc)) = scans sc"
proof -
  assume e: "\<not> at_end (skip_trivia sc)"
  then obtain c cs where r: "rest (skip_trivia sc) = c # cs"
    by (cases "rest (skip_trivia sc)") (auto simp: at_end_rest)
  have "scan_token (skip_trivia sc) = take_item (first_item c cs) (skip_trivia sc)"
    unfolding scan_token_munch [OF r] no_trivia_munch [OF r skip_trivia_done [OF e]] by (rule refl)
  then show ?thesis
    using scans_step [OF r] scans_skip by simp
qed

section \<open>The whole text\<close>

lemma skip_trivia_offset: "sl_offset (sc_location sc) \<le> sl_offset (sc_location (skip_trivia sc))"
proof (induction sc rule: skip_trivia.induct)
  case (1 sc)
  then show ?case
    using skip_trivia_round_offset [of sc] by (subst skip_trivia.simps) (fastforce split: prod.split if_splits)
qed

lemma skip_trivia_text [simp]: "sc_text (skip_trivia sc) = sc_text sc"
proof (induction sc rule: skip_trivia.induct)
  case (1 sc)
  then show ?case
    using skip_trivia_round_text [of sc] by (cases "skip_trivia_round sc") (simp add: skip_trivia.simps [of sc])
qed

lemma scan_token_offset:
  assumes "\<not> at_end sc"
  shows "sl_offset (sc_location sc) < sl_offset (sc_location (scan_token sc))" and "sc_text (scan_token sc) = sc_text sc"
proof -
  obtain c cs where r: "rest sc = c # cs"
    using assms by (cases "rest sc") (auto simp: at_end_rest)
  obtain w where "item_text (munch c cs) = c # w"
    using munch_starts [of c cs] by (auto simp: item_starts_def)
  then show "sl_offset (sc_location sc) < sl_offset (sc_location (scan_token sc))" "sc_text (scan_token sc) = sc_text sc"
    by (simp_all add: scan_token_munch [OF r])
qed

text \<open>\<open>Scanner::scan\<close>; each round of its loop moves forward.\<close>

function scan_loop :: "scanner \<Rightarrow> scanner" where
  "scan_loop sc =
     (if at_end sc then sc
      else let sc1 = skip_trivia sc in
        if at_end sc1 then sc1 else scan_loop (scan_token sc1))"
  by pat_completeness auto
termination
proof (relation "measure (\<lambda>sc. length (sc_text sc) - sl_offset (sc_location sc))", goal_cases)
  case (2 sc sc1)
  then show ?case
    using skip_trivia_offset [of sc] scan_token_offset [of sc1] by (auto simp: at_end_def)
qed simp

declare scan_loop.simps [simp del]

definition lex :: "source_file \<Rightarrow> diagnostic_bag \<Rightarrow> token list \<times> diagnostic_bag" where
  "lex source ds =
     (let sc = scan_loop (new_scanner source ds) in
      (sc_tokens sc @
         [\<lparr>tok_kind = TK_EndOfFile, tok_lexeme = [], tok_range = \<lparr>sr_begin = sc_location sc, sr_end = sc_location sc\<rparr>\<rparr>],
       sc_diagnostics sc))"

lemma scan_loop_scans: "scan_loop sc = scans sc"
proof (induction sc rule: scan_loop.induct)
  case (1 sc)
  show ?case
  proof (cases "at_end sc")
    case False
    then show ?thesis
      using 1 [OF False refl] scans_end [of "skip_trivia sc"] scans_skip [of sc] scan_token_scans [of sc]
      by (subst scan_loop.simps) (auto simp: Let_def)
  qed (simp add: scan_loop.simps scans_end)
qed

text \<open>The tokens and the diagnostics of a list of items placed from a position on.\<close>

fun item_tokens :: "source_location \<Rightarrow> item list \<Rightarrow> token list" where
  "item_tokens l [] = []"
| "item_tokens l (i # is) =
     (let l' = location_after (item_text i) l in
      (case i of Lexeme k w f \<Rightarrow> [\<lparr>tok_kind = k, tok_lexeme = w, tok_range = \<lparr>sr_begin = l, sr_end = l'\<rparr>\<rparr>] | _ \<Rightarrow> []) @
      item_tokens l' is)"

fun item_diagnostics :: "source_location \<Rightarrow> item list \<Rightarrow> diagnostic_bag" where
  "item_diagnostics l [] = []"
| "item_diagnostics l (i # is) =
     (let l' = location_after (item_text i) l in
      (case item_fault i of None \<Rightarrow> []
       | Some (code, message) \<Rightarrow>
           [\<lparr>dg_severity = Error, dg_range = \<lparr>sr_begin = l, sr_end = l'\<rparr>, dg_code = code, dg_message = message\<rparr>]) @
      item_diagnostics l' is)"

lemma fold_take_items:
  "fold take_item is sc = sc\<lparr>
     sc_location := location_after (concat (map item_text is)) (sc_location sc),
     sc_tokens := sc_tokens sc @ item_tokens (sc_location sc) is,
     sc_diagnostics := sc_diagnostics sc @ item_diagnostics (sc_location sc) is\<rparr>"
proof (induction "is" arbitrary: sc)
  case (Cons i "is")
  show ?case
    using Cons [of "take_item i sc"]
    by (simp add: Let_def, simp add: take_item_def Let_def add_error_def split: option.split)
qed simp

lemma first_item_prefix: "take (length (item_text (first_item c cs))) (c # cs) = item_text (first_item c cs)"
proof -
  have pre: "take (length (c # takeWhile p cs)) (c # cs) = c # takeWhile p cs" for p
    using takeWhile_eq_take [of p cs] by simp
  have either: "take (length (item_text (munch_either c d yes no cs))) (c # cs) = item_text (munch_either c d yes no cs)" for c d yes no
    by (auto simp: munch_either_def split: list.split)
  have pair: "take (length (item_text (munch_pair c k cs))) (c # cs) = item_text (munch_pair c k cs)" for c k
    by (auto simp: munch_pair_def split: list.split)
  have num: "take (length w) xs = w" if "munch_number xs = (k, w)" for xs k w
    using munch_number_prefix [of xs] that by auto
  have str: "take (length w) xs = w" if "munch_string xs = (w, b)" for xs w b
    using munch_string_text [of xs] that by simp
  have blk: "take (length w) xs = w" if "munch_block xs = (w, b)" for xs w b
    using munch_block_text [of xs] that by simp
  define good where "good i \<longleftrightarrow> take (length (item_text i)) (c # cs) = item_text i" for i
  have goodI: "(Q \<Longrightarrow> good i) \<Longrightarrow> (\<not> Q \<Longrightarrow> good j) \<Longrightarrow> good (if Q then i else j)" for Q i j
    by simp
  have munch: "good (munch c cs)"
  proof (cases "map_of single_tokens c")
    case None
    show ?thesis
      unfolding munch_def None option.case Let_def
      by (intro goodI; simp add: good_def either pair pre [simplified] num str split: prod.split)
  qed (simp add: munch_def good_def)
  have "good (first_item c cs)"
    unfolding first_item_def
    by (intro goodI munch; simp add: good_def pre [simplified] split: prod.split)
      (cases cs; use blk in force)
  then show ?thesis by (simp add: good_def)
qed

lemma items_tile: "concat (map item_text (items cs)) = cs"
proof (induction cs rule: items.induct)
  case (2 c cs)
  obtain w where w: "item_text (first_item c cs) = c # w" using item_text_first by blast
  then have "take (length w) cs = w"
    using first_item_prefix [of c cs] by simp
  then show ?case
    using 2 w by (metis append_Cons append_take_drop_id concat.simps(2) diff_Suc_1 items.simps(2) length_Cons list.simps(9))
qed simp

lemma lex_items:
  "lex source ds =
     (item_tokens start_location (items (sf_text source)) @
        [\<lparr>tok_kind = TK_EndOfFile, tok_lexeme = [], tok_range =
          \<lparr>sr_begin = location_after (sf_text source) start_location,
           sr_end = location_after (sf_text source) start_location\<rparr>\<rparr>],
      ds @ item_diagnostics start_location (items (sf_text source)))"
proof -
  have "rest (new_scanner source ds) = sf_text source"
    by (simp add: rest_def new_scanner_def start_location_def)
  then show ?thesis
    by (simp add: lex_def scan_loop_scans scans_def fold_take_items items_tile) (simp add: new_scanner_def)
qed

section \<open>Tokens in the source\<close>

text \<open>The position reached after a piece of text, computed from the text alone: its length, one more
  than its line feeds, one more than what follows the last of them.\<close>

definition position_of :: "string \<Rightarrow> source_location" where
  "position_of w =
     \<lparr>sl_offset = length w, sl_line = 1 + length (filter (\<lambda>c. c = CHR 0x0A) w),
      sl_column = 1 + length (takeWhile (\<lambda>c. c \<noteq> CHR 0x0A) (rev w))\<rparr>"

lemma location_after_start: "location_after w start_location = position_of w"
proof -
  have "sl_line (location_after w start_location) = 1 + length (filter (\<lambda>c. c = CHR 0x0A) w)"
    "sl_offset (location_after w start_location) = length w"
    by (simp_all add: location_after_line start_location_def)
  then show ?thesis
    using location_after_column [of w] by (simp add: position_of_def)
qed

text \<open>A token placed between two pieces of the text.\<close>

definition token_at :: "string \<Rightarrow> token \<Rightarrow> string \<Rightarrow> string \<Rightarrow> bool" where
  "token_at text t pre post \<longleftrightarrow>
     text = pre @ tok_lexeme t @ post \<and>
     tok_range t = \<lparr>sr_begin = position_of pre, sr_end = position_of (pre @ tok_lexeme t)\<rparr>"

lemma item_tokens_at:
  "\<forall>i < length (item_tokens (position_of pre) is). \<exists>p q.
     token_at (pre @ concat (map item_text is) @ post) (item_tokens (position_of pre) is ! i) p q \<and>
     length pre \<le> length p \<and>
     (\<forall>j < i. sl_offset (sr_end (tok_range (item_tokens (position_of pre) is ! j))) \<le> length p)"
proof (induction "is" arbitrary: pre)
  case (Cons x xs)
  let ?pre = "pre @ item_text x"
  let ?ts = "item_tokens (position_of ?pre) xs"
  have loc: "location_after (item_text x) (position_of pre) = position_of ?pre"
    by (simp only: location_after_start [symmetric] location_after_simps)
  note IH = Cons [of ?pre, simplified]
  show ?case
  proof (cases x)
    case (Lexeme k w f)
    let ?t = "\<lparr>tok_kind = k, tok_lexeme = w, tok_range = \<lparr>sr_begin = position_of pre, sr_end = position_of ?pre\<rparr>\<rparr>"
    have ts: "item_tokens (position_of pre) (x # xs) = ?t # ?ts"
      using loc Lexeme by (simp add: Let_def)
    let ?text = "pre @ concat (map item_text (x # xs)) @ post"
    have first: "token_at ?text ?t pre (concat (map item_text xs) @ post)"
      using Lexeme by (simp add: token_at_def)
    have off: "sl_offset (position_of ?pre) = length ?pre"
      by (simp add: position_of_def)
    have whole: "?pre @ concat (map item_text xs) @ post = ?text"
      by simp
    show ?thesis
      unfolding ts
    proof (intro allI impI)
      fix i assume i: "i < length (?t # ?ts)"
      show "\<exists>p q. token_at ?text ((?t # ?ts) ! i) p q \<and> length pre \<le> length p \<and>
          (\<forall>j<i. sl_offset (sr_end (tok_range ((?t # ?ts) ! j))) \<le> length p)"
      proof (cases i)
        case 0
        then show ?thesis using first by auto
      next
        case (Suc m)
        then obtain p q where pq: "token_at ?text (?ts ! m) p q" "length ?pre \<le> length p"
            "\<forall>j<m. sl_offset (sr_end (tok_range (?ts ! j))) \<le> length p"
          using Cons [of ?pre, rule_format, of m] i unfolding whole by auto
        have "sl_offset (sr_end (tok_range ((?t # ?ts) ! j))) \<le> length p" if "j < Suc m" for j
          using that pq(2,3) off by (cases j) simp_all
        then show ?thesis
          using pq(1,2) Suc by (intro exI [of _ p] exI [of _ q]) auto
      qed
    qed
  qed (use IH loc in \<open>auto; metis add_leE\<close>)+
qed simp

text \<open>C34: The scanner computes the reference lexer: the tokens and the diagnostics it produces are those
  of the longest-match decomposition of the text into blanks, comments and lexemes, placed one
  after the other, followed by the end-of-file token; earlier diagnostics are kept. The
  decomposition loses nothing: the texts of its items make up the source.\<close>

theorem lexer_equals_reference:
  "lex source ds =
     (item_tokens start_location (items (sf_text source)) @
        [\<lparr>tok_kind = TK_EndOfFile, tok_lexeme = [], tok_range =
          \<lparr>sr_begin = position_of (sf_text source), sr_end = position_of (sf_text source)\<rparr>\<rparr>],
      ds @ item_diagnostics start_location (items (sf_text source))) \<and>
   concat (map item_text (items (sf_text source))) = sf_text source"
  by (simp add: lex_items items_tile location_after_start)

text \<open>C35: Every token is a piece of the source: its lexeme stands in the text exactly at its range,
  whose offsets, lines and columns are those of the text before and up to its end; and a token
  starts no earlier than where the tokens before it end.\<close>

theorem token_positions:
  assumes "fst (lex source ds) = ts" and "i < length ts"
  shows "\<exists>pre post. token_at (sf_text source) (ts ! i) pre post \<and>
    (\<forall>j < i. sl_offset (sr_end (tok_range (ts ! j))) \<le> length pre)"
proof -
  let ?text = "sf_text source"
  let ?is = "item_tokens start_location (items ?text)"
  have start: "start_location = position_of []"
    by (simp add: position_of_def start_location_def)
  have at: "\<forall>i < length ?is. \<exists>p q. token_at ?text (?is ! i) p q \<and>
      (\<forall>j < i. sl_offset (sr_end (tok_range (?is ! j))) \<le> length p)"
    using item_tokens_at [of "[]" "items ?text" "[]"] by (auto simp: start items_tile)
  have ends: "sl_offset (sr_end (tok_range (?is ! j))) \<le> length ?text" if j: "j < length ?is" for j
  proof -
    obtain p q where "token_at ?text (?is ! j) p q"
      using at [rule_format, OF j] by blast
    then have "?text = p @ tok_lexeme (?is ! j) @ q"
      and r: "tok_range (?is ! j) = \<lparr>sr_begin = position_of p, sr_end = position_of (p @ tok_lexeme (?is ! j))\<rparr>"
      by (simp_all only: token_at_def)
    then have "length ?text = length p + (length (tok_lexeme (?is ! j)) + length q)"
      by (metis length_append)
    then show ?thesis
      unfolding r by (simp add: position_of_def)
  qed
  have ts: "ts = ?is @ [\<lparr>tok_kind = TK_EndOfFile, tok_lexeme = [], tok_range =
      \<lparr>sr_begin = position_of ?text, sr_end = position_of ?text\<rparr>\<rparr>]"
    using assms(1) by (auto simp: lex_items location_after_start)
  show ?thesis
  proof (cases "i < length ?is")
    case True
    then show ?thesis using at by (auto simp: ts nth_append)
  next
    case False
    then have "i = length ?is" using assms(2) by (simp add: ts)
    then show ?thesis
      using ends by (intro exI [of _ ?text] exI [of _ "[]"]) (auto simp: ts nth_append token_at_def)
  qed
qed


section \<open>Layout\<close>

text \<open>A lexeme does not depend on what stands behind it, once a blank follows.\<close>

lemma munch_number_local:
  assumes "munch_number cs = (k, w)"
  shows "munch_number (w @ CHR '' '' # r) = (k, w)"
proof -
  have blank: "\<not> is_digit (CHR '' '')" by code_simp
  have all: "takeWhile is_digit (takeWhile is_digit xs @ c # r) = takeWhile is_digit xs"
    "dropWhile is_digit (takeWhile is_digit xs @ c # r) = c # r" if "\<not> is_digit c" for xs c r
    using that by (simp_all add: takeWhile_append dropWhile_append)
       (metis set_takeWhileD dropWhile_eq_Nil_conv)+
  show ?thesis
  proof (cases "k = TK_DecimalLiteral")
    case True
    then obtain p d q where "dropWhile is_digit cs = p # d # q" "p = CHR ''.''" "is_digit d"
        "w = takeWhile is_digit cs @ p # takeWhile is_digit (d # q)"
      using assms by (auto simp: munch_number_def Let_def split: list.splits if_splits)
    moreover have "\<not> is_digit (CHR ''.'')" by code_simp
    ultimately show ?thesis
      using all [of "CHR ''.''" cs] all [OF blank, of "d # q" r] True by (simp add: munch_number_def Let_def)
  next
    case False
    then have "w = takeWhile is_digit cs" "k = TK_IntegerLiteral"
      using assms by (auto simp: munch_number_def Let_def split: list.splits if_splits)
    then show ?thesis
      using all [OF blank, of cs r] by (simp add: munch_number_def Let_def split: list.split)
  qed
qed

lemma munch_number_digit:
  "is_digit c \<Longrightarrow> munch_number (c # cs) = (k, w) \<Longrightarrow> \<exists>u. w = c # u"
  by (auto simp: munch_number_def Let_def split: list.splits if_splits)

lemma munch_string_local: "munch_string cs = (w, True) \<Longrightarrow> munch_string (w @ r) = (w, True)"
proof (induction cs arbitrary: w rule: munch_string.induct)
  case (2 c)
  then show ?case by (cases r) auto
next
  case (3 c d cs)
  show ?case
  proof (cases "c = CHR 0x5C \<or> c = CHR 0x22")
    case True
    then show ?thesis
      using 3 by (cases r) (auto split: prod.splits if_splits)
  next
    case False
    then obtain v where v: "munch_string (d # cs) = (v, True)" "w = c # v"
      using 3(3) by (auto split: prod.splits)
    then obtain e u where "v @ r = e # u"
      by (cases v) (auto split: prod.splits if_splits elim!: munch_string.elims)
    then show ?thesis
      using 3(2) [of v] False v by simp
  qed
qed simp

lemma word_local:
  "takeWhile is_identifier_part (takeWhile is_identifier_part cs @ CHR '' '' # r) = takeWhile is_identifier_part cs"
proof -
  have "\<not> is_identifier_part (CHR '' '')" by code_simp
  then show ?thesis
    by (simp add: takeWhile_append)
qed

lemma munch_local:
  assumes "munch c cs = Lexeme k w None"
  shows "\<exists>u. w = c # u \<and> munch c (u @ CHR '' '' # r) = Lexeme k w None"
proof (cases "map_of single_tokens c")
  case (Some kind)
  then show ?thesis using assms by (auto simp: munch_def)
next
  case single: None
  show ?thesis
  proof (cases "c = CHR ''-'' \<and> cs \<noteq> [] \<and> is_digit (hd cs)")
    case True
    then obtain v where v: "munch_number cs = (k, v)" "w = c # v"
      using assms single by (auto simp: munch_def split: prod.splits)
    then obtain u where "v = hd cs # u"
      using True munch_number_digit [of "hd cs" "tl cs"] by auto
    then show ?thesis
      using True single munch_number_local [OF v(1), of r] v by (simp add: munch_def)
  next
    case minus: False
    show ?thesis
    proof (cases "c = CHR 0x22")
      case True
      then obtain v where v: "munch_string cs = (v, True)" "w = c # v" "k = TK_StringLiteral"
        using assms single by (auto simp: munch_def split: prod.splits if_splits)
      then show ?thesis
        using True single munch_string_local [OF v(1)] by (simp add: munch_def)
    next
      case quote: False
      let ?heads = "[CHR ''-'', CHR ''='', CHR ''!'', CHR ''<'', CHR ''>'', CHR ''&'', CHR ''|'']"
      show ?thesis
      proof (cases "c \<in> set ?heads")
        case True
        have blank: "\<not> is_digit (CHR '' '')" by code_simp
        have "w = c # tl w \<and> munch c (tl w @ CHR '' '' # r) = Lexeme k w None"
          using True assms minus blank single
          by (simp, elim disjE; auto simp: munch_def munch_either_def munch_pair_def split: list.splits if_splits)
        then show ?thesis by blast
      next
        case False
        show ?thesis
        proof (cases "is_digit c")
          case True
          then have m: "munch_number (c # cs) = (k, w)"
            using assms single quote False by (auto simp: munch_def split: prod.splits)
          then obtain u where "w = c # u" using munch_number_digit [OF True] by blast
          then show ?thesis
            using munch_number_local [OF m, of r] True single quote False by (auto simp: munch_def)
        next
          case nodigit: False
          then show ?thesis
            using assms single quote False by (auto simp: munch_def Let_def word_local split: if_splits)
        qed
      qed
    qed
  qed
qed

lemma munch_not_blank:
  assumes "first_item c cs = Lexeme k w f"
  shows "munch c cs = Lexeme k w f" "\<not> is_blank c"
  using assms by (auto simp: first_item_def split: if_splits prod.splits)

lemma first_item_local:
  assumes "first_item c cs = Lexeme k w None"
  shows "\<exists>u. w = c # u \<and> \<not> is_blank c \<and> first_item c (u @ CHR '' '' # r) = Lexeme k w None"
proof -
  obtain u where u: "w = c # u" "munch c (u @ CHR '' '' # r) = Lexeme k w None"
    using munch_local [OF munch_not_blank(1) [OF assms], of r] by blast
  have "take (length w) (c # cs) = w"
    using first_item_prefix [of c cs] assms by simp
  then have "u = take (length u) cs"
    using u(1) by simp
  moreover have "c = CHR ''/'' \<longrightarrow> \<not> (cs \<noteq> [] \<and> (hd cs = CHR ''/'' \<or> hd cs = CHR ''*''))"
    using assms by (auto simp: first_item_def split: if_splits prod.splits)
  ultimately have "c = CHR ''/'' \<longrightarrow> hd (u @ CHR '' '' # r) \<notin> {CHR ''/'', CHR ''*''}"
    by (cases u; cases cs) auto
  then show ?thesis
    using u munch_not_blank(2) [OF assms] by (auto simp: first_item_def)
qed

text \<open>The lexemes among the items, and the text with one blank behind each lexeme.\<close>

fun lexemes :: "item list \<Rightarrow> (token_kind \<times> string) list" where
  "lexemes [] = []"
| "lexemes (Lexeme k w f # is) = (k, w) # lexemes is"
| "lexemes (i # is) = lexemes is"

definition spaced :: "string list \<Rightarrow> string" where
  "spaced ws = concat (map (\<lambda>w. w @ '' '') ws)"

lemma spaced_simps [simp]: "spaced [] = []" "spaced (w # ws) = w @ CHR '' '' # spaced ws"
  by (simp_all add: spaced_def)

lemma item_tokens_lexemes: "map (\<lambda>t. (tok_kind t, tok_lexeme t)) (item_tokens l is) = lexemes is"
  by (induction "is" arbitrary: l rule: lexemes.induct) (simp_all add: Let_def)

lemma item_lexemes: "map tok_lexeme (item_tokens l is) = map snd (lexemes is)"
  by (simp add: item_tokens_lexemes [of l, symmetric])

lemma item_diagnostics_none: "item_diagnostics l is = [] \<longleftrightarrow> (\<forall>i \<in> set is. item_fault i = None)"
  by (induction "is" arbitrary: l) (auto simp: Let_def split: option.splits)

lemma items_lexemes_local:
  "(k, w) \<in> set (lexemes (items cs)) \<Longrightarrow> \<forall>i \<in> set (items cs). item_fault i = None \<Longrightarrow>
   \<exists>c u. w = c # u \<and> \<not> is_blank c \<and> (\<forall>r. first_item c (u @ CHR '' '' # r) = Lexeme k w None)"
proof (induction cs rule: items.induct)
  case (2 c cs)
  show ?case
  proof (cases "first_item c cs = Lexeme k w None")
    case True
    then show ?thesis
      using first_item_local [OF True] by blast
  next
    case False
    then show ?thesis
      using 2 by (cases "first_item c cs") auto
  qed
qed simp

lemma items_spaced:
  assumes "\<forall>(k, w) \<in> set ws. \<exists>c u. w = c # u \<and> \<not> is_blank c \<and> (\<forall>r. first_item c (u @ CHR '' '' # r) = Lexeme k w None)"
  shows "items (spaced (map snd ws)) = concat (map (\<lambda>(k, w). [Lexeme k w None, Blank '' '']) ws)"
  using assms
proof (induction ws)
  case (Cons x ws)
  obtain k c u where x: "x = (k, c # u)" "\<forall>r. first_item c (u @ CHR '' '' # r) = Lexeme k (c # u) None"
    using Cons(2) by (cases x) auto
  have "takeWhile is_blank (spaced (map snd ws)) = []"
    using Cons(2) by (cases ws) (auto split: prod.splits)
  moreover have "is_blank (CHR '' '')" by code_simp
  ultimately have "items (CHR '' '' # spaced (map snd ws)) = Blank '' '' # items (spaced (map snd ws))"
    by (simp add: first_item_def)
  then show ?case
    using Cons x by simp
qed simp

text \<open>C36: The layout of a source is irrelevant: if a source has no lexical fault, then writing its
  lexemes one after the other with a blank between them, whatever comments, line breaks or
  missing blanks there were, gives tokens of the same kinds and lexemes and again no fault.\<close>

theorem lexer_layout_irrelevant:
  assumes "lex source [] = (ts, [])"
    and "lex \<lparr>sf_path = path, sf_text = spaced (map tok_lexeme (butlast ts))\<rparr> [] = (ts', ds')"
  shows "ds' = [] \<and>
    map (\<lambda>t. (tok_kind t, tok_lexeme t)) ts' = map (\<lambda>t. (tok_kind t, tok_lexeme t)) ts"
proof -
  let ?is = "items (sf_text source)" and ?kw = "\<lambda>t. (tok_kind t, tok_lexeme t)"
  let ?ws = "lexemes ?is"
  have ok: "\<forall>i \<in> set ?is. item_fault i = None"
    using assms(1) by (simp add: lex_items item_diagnostics_none)
  have kw: "map ?kw ts = ?ws @ [(TK_EndOfFile, [])]" "map ?kw (butlast ts) = ?ws"
    using assms(1) by (auto simp: lex_items item_tokens_lexemes)
  have "map tok_lexeme (butlast ts) = map snd (map ?kw (butlast ts))"
    by simp
  then have layout: "sf_text \<lparr>sf_path = path, sf_text = spaced (map tok_lexeme (butlast ts))\<rparr> = spaced (map snd ?ws)"
    unfolding kw by simp
  have items': "items (spaced (map snd ?ws)) = concat (map (\<lambda>(k, w). [Lexeme k w None, Blank '' '']) ?ws)"
    by (rule items_spaced) (use items_lexemes_local ok in blast)
  have lx: "lexemes (concat (map (\<lambda>(k, w). [Lexeme k w None, Blank '' '']) ws)) = ws" for ws
    by (induction ws) auto
  have "\<forall>i \<in> set (items (spaced (map snd ?ws))). item_fault i = None"
    unfolding items' by auto
  then show ?thesis
    using assms(2) kw(1) lx unfolding lex_items layout
    by (auto simp: item_tokens_lexemes items' item_diagnostics_none)
qed

text \<open>A small source: \<open>a/*x*/b // y\<close> over two lines.\<close>

definition sample_source :: source_file where
  "sample_source = \<lparr>sf_path = [], sf_text = ''a/*x*/b'' @ [CHR 0x0A] @ ''-1.5==''\<rparr>"




lemma sample_items:
  "items (sf_text sample_source) =
     [Lexeme TK_Identifier ''a'' None, Comment ''/*x*/'' None, Lexeme TK_Identifier ''b'' None,
      Blank [CHR 0x0A], Lexeme TK_DecimalLiteral ''-1.5'' None, Lexeme TK_EqualEqual ''=='' None]"
  unfolding sample_source_def source_file.simps append.simps by code_simp

lemma sample_lex:
  "snd (lex sample_source []) = []"
  "map tok_lexeme (fst (lex sample_source [])) = [''a'', ''b'', ''-1.5'', ''=='', []]"
  unfolding lex_items sample_items
  by (simp_all only: fst_conv snd_conv append_Nil map_append item_lexemes item_diagnostics_none) simp_all

lemma token_positions_witness:
  "\<exists>pre post. token_at (sf_text sample_source) (fst (lex sample_source []) ! 2) pre post \<and>
    (\<forall>j < 2. sl_offset (sr_end (tok_range (fst (lex sample_source []) ! j))) \<le> length pre)"
  by (rule token_positions [OF refl]) (simp add: arg_cong [OF sample_lex(2), of length, simplified])

lemma lexer_layout_irrelevant_witness:
  "snd (lex \<lparr>sf_path = [], sf_text = ''a b -1.5 == ''\<rparr> []) = [] \<and>
   map (\<lambda>t. (tok_kind t, tok_lexeme t)) (fst (lex \<lparr>sf_path = [], sf_text = ''a b -1.5 == ''\<rparr> [])) =
   map (\<lambda>t. (tok_kind t, tok_lexeme t)) (fst (lex sample_source []))"
proof -
  have 1: "lex sample_source [] = (fst (lex sample_source []), [])"
    using sample_lex(1) by (metis prod.collapse)
  have "map tok_lexeme (butlast (fst (lex sample_source []))) = [''a'', ''b'', ''-1.5'', ''=='']"
    by (simp add: map_butlast sample_lex(2))
  then have 2: "spaced (map tok_lexeme (butlast (fst (lex sample_source [])))) = ''a b -1.5 == ''"
    by simp
  show ?thesis
    by (rule lexer_layout_irrelevant [OF 1, unfolded 2, OF surjective_pairing])
qed

end
