(* ===== verification/Parser_Core.thy ===== *)
theory Parser_Core
  imports Lexer "HOL-Library.Monad_Syntax" "HOL-Library.Sublist"
begin

text \<open>
  \<open>src/parser_context.cpp\<close> and \<open>src/parser_helpers.hpp\<close>: the state of the parser and its moves.
  An operation of the parser takes the state and returns a result with the new state; one that
  contains a loop returns an option, and is \<open>None\<close> exactly when the loop never ends. \<open>while_loop\<close> is
  the loop, \<open>moves\<close> the judgement with which the operations are shown to return, to keep the tokens,
  to leave the position inside them, never to go back, and only to add diagnostics.
\<close>

section \<open>The state\<close>

record parser_state =
  ps_tokens :: "token list"
  ps_current :: nat
  ps_diagnostics :: diagnostic_bag

definition new_parser :: "token list \<Rightarrow> diagnostic_bag \<Rightarrow> parser_state" where
  "new_parser ts ds = \<lparr>ps_tokens = ts, ps_current = 0, ps_diagnostics = ds\<rparr>"

definition peek_token :: "nat \<Rightarrow> parser_state \<Rightarrow> token" where
  "peek_token n s =
     (let index = ps_current s + n in
      if index \<ge> length (ps_tokens s) then last (ps_tokens s) else ps_tokens s ! index)"

definition previous :: "parser_state \<Rightarrow> token" where
  "previous s = (if ps_current s = 0 then hd (ps_tokens s) else ps_tokens s ! (ps_current s - 1))"

definition is_at_end :: "parser_state \<Rightarrow> bool" where
  "is_at_end s \<longleftrightarrow> tok_kind (peek_token 0 s) = TK_EndOfFile"

definition check :: "token_kind \<Rightarrow> parser_state \<Rightarrow> bool" where
  "check k s \<longleftrightarrow> \<not> is_at_end s \<and> tok_kind (peek_token 0 s) = k"

definition check_any :: "token_kind list \<Rightarrow> parser_state \<Rightarrow> bool" where
  "check_any ks s \<longleftrightarrow> list_ex (\<lambda>k. check k s) ks"

definition advance_token :: "parser_state \<Rightarrow> token \<times> parser_state" where
  "advance_token s =
     (let s' = (if is_at_end s then s else s\<lparr>ps_current := ps_current s + 1\<rparr>) in (previous s', s'))"

definition match_token :: "token_kind \<Rightarrow> parser_state \<Rightarrow> bool \<times> parser_state" where
  "match_token k s = (if check k s then (True, snd (advance_token s)) else (False, s))"

fun match_any :: "token_kind list \<Rightarrow> parser_state \<Rightarrow> bool \<times> parser_state" where
  "match_any [] s = (False, s)"
| "match_any (k # ks) s = (case match_token k s of (True, s') \<Rightarrow> (True, s') | (False, s') \<Rightarrow> match_any ks s')"

definition parse_error :: "source_range \<Rightarrow> string \<Rightarrow> string \<Rightarrow> parser_state \<Rightarrow> parser_state" where
  "parse_error r code message s = s\<lparr>ps_diagnostics := add_error r code message (ps_diagnostics s)\<rparr>"

definition consume :: "token_kind \<Rightarrow> string \<Rightarrow> parser_state \<Rightarrow> token \<times> parser_state" where
  "consume k message s =
     (if check k s then advance_token s
      else
        let r = tok_range (peek_token 0 s) in
        (\<lparr>tok_kind = k, tok_lexeme = [], tok_range = r\<rparr>, parse_error r ''SSPEC0200'' message s))"

definition rewind_one :: "parser_state \<Rightarrow> parser_state" where
  "rewind_one s = (if ps_current s > 0 then s\<lparr>ps_current := ps_current s - 1\<rparr> else s)"

definition consume_optional_semicolon :: "parser_state \<Rightarrow> parser_state" where
  "consume_optional_semicolon s = snd (match_token TK_Semicolon s)"

subsection \<open>Helpers\<close>

text \<open>\<open>std::stoi\<close>: spaces, a sign, digits; what follows is ignored. It throws when there is no digit
  and when the number is no 32-bit \<open>int\<close>; the helper then returns 0.\<close>

definition digits_value :: "string \<Rightarrow> int" where
  "digits_value ds = foldl (\<lambda>n c. 10 * n + (of_char c - 48)) 0 ds"

definition stoi :: "string \<Rightarrow> int option" where
  "stoi t =
     (let u = dropWhile is_space t;
          negative = u \<noteq> [] \<and> hd u = CHR ''-'';
          v = (if u \<noteq> [] \<and> (hd u = CHR ''-'' \<or> hd u = CHR ''+'') then tl u else u);
          ds = takeWhile is_digit v;
          n = (if negative then - digits_value ds else digits_value ds)
      in if ds = [] \<or> n < - (2 ^ 31) \<or> n \<ge> 2 ^ 31 then None else Some n)"

definition parse_int_or_zero :: "token \<Rightarrow> int" where
  "parse_int_or_zero t = (case stoi (tok_lexeme t) of None \<Rightarrow> 0 | Some n \<Rightarrow> n)"

definition strip_quotes :: "string \<Rightarrow> string" where
  "strip_quotes v =
     (if length v \<ge> 2 \<and> hd v = CHR 0x22 \<and> last v = CHR 0x22 then take (length v - 2) (drop 1 v) else v)"

definition is_named_identifier :: "token \<Rightarrow> string \<Rightarrow> bool" where
  "is_named_identifier t name \<longleftrightarrow> tok_kind t = TK_Identifier \<and> tok_lexeme t = name"

text \<open>The range of a declaration: from a first token to the last one that was taken.\<close>

definition range_from :: "token \<Rightarrow> parser_state \<Rightarrow> source_range" where
  "range_from start s = \<lparr>sr_begin = sr_begin (tok_range start), sr_end = sr_end (tok_range (previous s))\<rparr>"

text \<open>\<open>if (match(k)) A else B\<close> is written as a test \<open>check k s\<close> with \<open>A\<close> on \<open>next_token s\<close>.\<close>

abbreviation next_token :: "parser_state \<Rightarrow> parser_state" where
  "next_token s \<equiv> snd (advance_token s)"

lemma match_token_if: "match_token k s = (check k s, if check k s then next_token s else s)"
  by (simp add: match_token_def)

section \<open>Loops\<close>

partial_function (option) while_loop ::
  "('a \<Rightarrow> parser_state \<Rightarrow> bool) \<Rightarrow> ('a \<Rightarrow> parser_state \<Rightarrow> ('a \<times> parser_state) option) \<Rightarrow>
   'a \<Rightarrow> parser_state \<Rightarrow> ('a \<times> parser_state) option" where
  "while_loop c b x s =
     (if c x s then Option.bind (b x s) (\<lambda>(x', s'). while_loop c b x' s') else Some (x, s))"

text \<open>\<open>while (!check(RightBrace) && !is_at_end())\<close>\<close>

definition block_loop ::
  "('a \<Rightarrow> parser_state \<Rightarrow> ('a \<times> parser_state) option) \<Rightarrow> 'a \<Rightarrow> parser_state \<Rightarrow> ('a \<times> parser_state) option" where
  "block_loop = while_loop (\<lambda>_ s. \<not> check TK_RightBrace s \<and> \<not> is_at_end s)"

definition balanced_step :: "int \<Rightarrow> parser_state \<Rightarrow> (int \<times> parser_state) option" where
  "balanced_step depth s =
     (if check TK_LeftBrace s then Some (depth + 1, next_token s)
      else if check TK_RightBrace s then Some (depth - 1, next_token s)
      else Some (depth, next_token s))"

definition skip_balanced_block :: "parser_state \<Rightarrow> parser_state option" where
  "skip_balanced_block s =
     (if \<not> check TK_LeftBrace s then Some s
      else map_option snd (while_loop (\<lambda>depth s. depth > 0 \<and> \<not> is_at_end s) balanced_step 1 (next_token s)))"

partial_function (option) synchronize_to_member_boundary :: "parser_state \<Rightarrow> parser_state option" where
  "synchronize_to_member_boundary s =
     (if is_at_end s then Some s
      else if check TK_Semicolon s then Some (snd (advance_token s))
      else if check TK_RightBrace s then Some s
      else synchronize_to_member_boundary (snd (advance_token s)))"

definition skip_unknown_declaration :: "parser_state \<Rightarrow> parser_state option" where
  "skip_unknown_declaration s =
     (let s = s\<lparr>ps_diagnostics := add_warning (tok_range (peek_token 0 s)) ''SSPEC0299''
                ''skipping unsupported declaration in current parser milestone'' (ps_diagnostics s)\<rparr>
      in if check TK_LeftBrace s then skip_balanced_block s
         else
           let s = snd (advance_token s) in
           if check TK_LeftBrace s then skip_balanced_block s else synchronize_to_member_boundary s)"


section \<open>How the parser moves\<close>

text \<open>The lexer ends its tokens with the end-of-file token (\<open>lexer_equals_reference\<close>).\<close>

definition valid_state :: "parser_state \<Rightarrow> bool" where
  "valid_state s \<longleftrightarrow> ps_tokens s \<noteq> [] \<and> tok_kind (last (ps_tokens s)) = TK_EndOfFile \<and>
     ps_current s < length (ps_tokens s)"

definition moved :: "bool \<Rightarrow> parser_state \<Rightarrow> parser_state \<Rightarrow> bool" where
  "moved strictly s s' \<longleftrightarrow>
     ps_tokens s' = ps_tokens s \<and> valid_state s' \<and> ps_current s \<le> ps_current s' \<and>
     (strictly \<longrightarrow> ps_current s < ps_current s') \<and> prefix (ps_diagnostics s) (ps_diagnostics s')"

lemma moved_refl [intro]: "valid_state s \<Longrightarrow> moved False s s"
  by (simp add: moved_def)

lemma moved_trans: "moved b s t \<Longrightarrow> moved c t u \<Longrightarrow> moved (b \<or> c) s u"
  by (auto simp: moved_def)

lemma moved_weaken: "moved c s t \<Longrightarrow> (b \<Longrightarrow> c) \<Longrightarrow> moved b s t"
  by (auto simp: moved_def)

lemma moved_valid: "moved b s t \<Longrightarrow> valid_state t"
  by (simp add: moved_def)

text \<open>Of a new state, of a result with a new state, of an option of either.\<close>

definition moves_state :: "bool \<Rightarrow> parser_state \<Rightarrow> parser_state \<Rightarrow> bool" where
  "moves_state b s s' \<longleftrightarrow> (valid_state s \<longrightarrow> moved b s s')"

definition moves_pair :: "bool \<Rightarrow> parser_state \<Rightarrow> 'a \<times> parser_state \<Rightarrow> bool" where
  "moves_pair b s r \<longleftrightarrow> (valid_state s \<longrightarrow> moved b s (snd r))"

definition moves_opt :: "bool \<Rightarrow> parser_state \<Rightarrow> parser_state option \<Rightarrow> bool" where
  "moves_opt b s r \<longleftrightarrow> (valid_state s \<longrightarrow> (\<exists>s'. r = Some s' \<and> moved b s s'))"

text \<open>Four of the loops can hang; they are entered at one of these keywords only.\<close>

definition hanging_keywords :: "token_kind list" where
  "hanging_keywords = map TK_Keyword [''enum'', ''external_system'', ''children'', ''indexes'']"

definition may_hang :: "token list \<Rightarrow> bool" where
  "may_hang ts \<longleftrightarrow> (\<exists>t \<in> set ts. tok_kind t \<in> set hanging_keywords)"

definition reaches :: "bool \<Rightarrow> parser_state \<Rightarrow> ('a \<times> parser_state) option \<Rightarrow> bool" where
  "reaches b s r \<longleftrightarrow> (case r of None \<Rightarrow> may_hang (ps_tokens s) | Some (x, s') \<Rightarrow> moved b s s')"

definition moves :: "bool \<Rightarrow> parser_state \<Rightarrow> ('a \<times> parser_state) option \<Rightarrow> bool" where
  "moves b s r \<longleftrightarrow> (valid_state s \<longrightarrow> reaches b s r)"

named_theorems parser_moves

lemma reaches_simps [simp]:
  "reaches b s None = may_hang (ps_tokens s)" "reaches b s (Some (x, t)) = moved b s t"
  by (simp_all add: reaches_def)

lemma moves_weaken: "moves c s r \<Longrightarrow> (b \<Longrightarrow> c) \<Longrightarrow> moves b s r"
  by (auto simp: moves_def reaches_def intro: moved_weaken split: option.split)

lemma moved_tokens: "moved b s t \<Longrightarrow> ps_tokens t = ps_tokens s"
  by (simp add: moved_def)

text \<open>The rest of an operation at state \<open>s\<close>, after moving from \<open>s0\<close> to \<open>s\<close>, ahead if \<open>c\<close>.\<close>

definition finishes :: "bool \<Rightarrow> bool \<Rightarrow> parser_state \<Rightarrow> parser_state \<Rightarrow> ('a \<times> parser_state) option \<Rightarrow> bool" where
  "finishes b c s0 s r \<longleftrightarrow> (moved c s0 s \<longrightarrow> reaches b s0 r)"

lemma movesI: "finishes b False s s r \<Longrightarrow> moves b s r"
  by (auto simp: moves_def finishes_def)

lemma moves_False_I: "finishes False False s s r \<Longrightarrow> moves False s r"
  by (rule movesI)

lemma moves_True_I: "finishes True False s s r \<Longrightarrow> moves True s r"
  by (rule movesI)

text \<open>A step that does not go ahead leaves the current token; what follows may use it.\<close>

definition same_or_ahead :: "parser_state \<Rightarrow> parser_state \<Rightarrow> bool" where
  "same_or_ahead s s' \<longleftrightarrow> ps_tokens s' = ps_tokens s \<and>
     (ps_current s < ps_current s' \<or> peek_token 0 s' = peek_token 0 s)"

lemma moved_same_or_ahead: "moved b s s' \<Longrightarrow> same_or_ahead s s'"
  by (cases "ps_current s = ps_current s'") (auto simp: moved_def same_or_ahead_def peek_token_def Let_def valid_state_def)

lemma moved_further:
  assumes "moved c s0 s" and "moved b s s'"
  shows "moved (c \<or> b \<or> ps_current s < ps_current s') s0 s'"
  using moved_trans [OF assms] assms by (auto simp: moved_def)

lemma finishes_bind:
  assumes "moves b' s r"
    and "\<And>x s'. same_or_ahead s s' \<Longrightarrow> finishes b (c \<or> b' \<or> ps_current s < ps_current s') s0 s' (f x s')"
  shows "finishes b c s0 s (Option.bind r (\<lambda>(x, s'). f x s'))"
  unfolding finishes_def
proof
  assume m: "moved c s0 s"
  then have "reaches b' s r"
    using assms(1) moved_valid by (simp add: moves_def)
  then show "reaches b s0 (Option.bind r (\<lambda>(x, s'). f x s'))"
    using assms(2) moved_further [OF m] moved_same_or_ahead moved_tokens [OF m]
    by (cases r) (auto simp: finishes_def)
qed

lemma finishes_bind_state:
  assumes "moves_opt b' s r"
    and "\<And>s'. same_or_ahead s s' \<Longrightarrow> finishes b (c \<or> b' \<or> ps_current s < ps_current s') s0 s' (f s')"
  shows "finishes b c s0 s (Option.bind r f)"
  unfolding finishes_def
proof
  assume m: "moved c s0 s"
  then obtain s' where "r = Some s'" "moved b' s s'"
    using assms(1) moved_valid by (auto simp: moves_opt_def)
  then show "reaches b s0 (Option.bind r f)"
    using assms(2) moved_further [OF m] moved_same_or_ahead by (simp add: finishes_def)
qed

lemma finishes_let_state:
  assumes "moves_state b' s t"
    and "\<And>s'. same_or_ahead s s' \<Longrightarrow> finishes b (c \<or> b' \<or> ps_current s < ps_current s') s0 s' (f s')"
  shows "finishes b c s0 s (let s' = t in f s')"
proof -
  have "moved c s0 s \<Longrightarrow> moved b' s t"
    using assms(1) by (auto simp: moves_state_def dest: moved_valid)
  then show ?thesis
    using assms(2) [of t] moved_further [of c s0 s b' t] moved_same_or_ahead by (auto simp: finishes_def)
qed

lemma finishes_let:
  assumes "moves_pair b' s r"
    and "\<And>x s'. same_or_ahead s s' \<Longrightarrow> finishes b (c \<or> b' \<or> ps_current s < ps_current s') s0 s' (f x s')"
  shows "finishes b c s0 s (let (x, s') = r in f x s')"
  using finishes_let_state [of b' s "snd r" b c s0 "f (fst r)"] assms
  by (simp add: moves_pair_def moves_state_def case_prod_beta)

lemma finishes_if:
  "(d \<Longrightarrow> finishes b c s0 s r) \<Longrightarrow> (\<not> d \<Longrightarrow> finishes b c s0 s r') \<Longrightarrow> finishes b c s0 s (if d then r else r')"
  by simp

lemma finishes_Some: "moves_state b' s t \<Longrightarrow> (b \<Longrightarrow> c \<or> b') \<Longrightarrow> finishes b c s0 s (Some (x, t))"
  using moved_trans [of c s0 s b' t]
  by (auto simp: finishes_def moves_state_def reaches_def dest: moved_valid intro: moved_weaken)

lemma finishes_tail:
  assumes "moves b' s r" and "b \<Longrightarrow> c \<or> b'"
  shows "finishes b c s0 s r"
  unfolding finishes_def
proof
  assume m: "moved c s0 s"
  then have "reaches b' s r"
    using assms(1) moved_valid by (simp add: moves_def)
  then show "reaches b s0 r"
    using assms(2) moved_weaken [OF moved_trans [OF m]] moved_tokens [OF m] by (cases r) auto
qed

lemma moves_after:
  assumes "moves b t r" and "moves_state b' s t"
  shows "moves (b' \<or> b) s r"
  using finishes_tail [OF assms(1), of "b' \<or> b" b' s] assms(2) by (auto simp: finishes_def moves_def moves_state_def)

subsection \<open>The moves of the context\<close>

lemma check_not_end: "check k s \<Longrightarrow> \<not> is_at_end s"
  by (simp add: check_def)

lemma check_any_not_end: "check_any ks s \<Longrightarrow> \<not> is_at_end s"
  by (auto simp: check_any_def list_ex_iff check_def)

lemma named_not_end: "is_named_identifier (peek_token 0 s) n \<Longrightarrow> \<not> is_at_end s"
  by (auto simp: is_named_identifier_def is_at_end_def)

lemma valid_next:
  assumes "valid_state s" and "\<not> is_at_end s"
  shows "Suc (ps_current s) < length (ps_tokens s)"
proof (rule ccontr)
  assume "\<not> ?thesis"
  then have "ps_current s = length (ps_tokens s) - 1"
    using assms(1) unfolding valid_state_def by linarith
  then show False
    using assms by (auto simp: valid_state_def is_at_end_def peek_token_def last_conv_nth)
qed

lemma next_token_fields [simp]:
  "ps_tokens (next_token s) = ps_tokens s" "ps_diagnostics (next_token s) = ps_diagnostics s"
  "ps_current (next_token s) = (if is_at_end s then ps_current s else Suc (ps_current s))"
  by (simp_all add: advance_token_def Let_def)

lemma advance_moves [parser_moves]: "moves_pair (\<not> is_at_end s) s (advance_token s)"
  using valid_next [of s] by (auto simp: moves_pair_def moved_def) (auto simp: valid_state_def)

lemma next_moves [parser_moves]: "moves_state (\<not> is_at_end s) s (next_token s)"
  using advance_moves [of s] by (simp add: moves_pair_def moves_state_def)

lemma error_moves [parser_moves]: "moves_state False s (parse_error r c m s)"
  by (simp add: moves_state_def moved_def parse_error_def valid_state_def add_error_def)

lemma consume_moves [parser_moves]: "moves_pair (check k s) s (consume k m s)"
  using advance_moves [of s] error_moves [of s]
  by (auto simp: consume_def Let_def moves_pair_def moves_state_def check_not_end elim: moved_weaken)

lemma semicolon_moves [parser_moves]: "moves_state (check TK_Semicolon s) s (consume_optional_semicolon s)"
  using next_moves [of s]
  by (auto simp: consume_optional_semicolon_def match_token_if moves_state_def check_not_end)

subsection \<open>Loops\<close>

lemma while_loop_moves:
  assumes body: "\<And>y t. c y t \<Longrightarrow> moves True t (b y t)"
  shows "moves False s (while_loop c b x s)"
proof (induction "length (ps_tokens s) - ps_current s" arbitrary: x s rule: less_induct)
  case less
  show ?case
  proof (cases "valid_state s \<and> c x s")
    case True
    then have r: "reaches True s (b x s)"
      using body by (simp add: moves_def)
    show ?thesis
    proof (cases "b x s")
      case (Some z)
      obtain y t where z: "z = (y, t)" by (cases z)
      then have t: "moved True s t" using r Some by simp
      then have "length (ps_tokens t) - ps_current t < length (ps_tokens s) - ps_current s"
        by (auto simp: moved_def valid_state_def)
      from less [OF this, of y] have "finishes False True s t (while_loop c b y t)"
        by (rule finishes_tail) simp
      then show ?thesis
        using True Some z t by (simp add: while_loop.simps [of c b x s] moves_def finishes_def)
    qed (use True r in \<open>simp add: while_loop.simps [of c b x s] moves_def\<close>)
  next
    case False
    then show ?thesis
      by (auto simp: while_loop.simps [of c b x s] moves_def)
  qed
qed

text \<open>A loop whose body may stand still: it hangs, or it moves.\<close>

lemma while_loop_induct [consumes 1, case_names step]:
  assumes "while_loop c b x s = Some r"
    and "\<And>f c b x s r. (\<And>c b x s r. f c b x s = Some r \<Longrightarrow> P c b x s r) \<Longrightarrow>
      (if c x s then Option.bind (b x s) (\<lambda>(y, t). f c b y t) else Some (x, s)) = Some r \<Longrightarrow> P c b x s r"
  shows "P c b x s r"
  by (rule while_loop.raw_induct [of P "(((c, b), x), s)" r, simplified]) (use assms in blast)+

lemma while_loop_moved:
  "while_loop c b x s = Some r \<Longrightarrow> (\<forall>y t. c y t \<longrightarrow> moves False t (b y t)) \<longrightarrow> valid_state s \<longrightarrow>
   moved False s (snd r)"
proof (induction rule: while_loop_induct)
  case (step loop c b x s r)
  show ?case
  proof (intro impI)
    assume b: "\<forall>y t. c y t \<longrightarrow> moves False t (b y t)" and v: "valid_state s"
    show "moved False s (snd r)"
    proof (cases "c x s")
      case True
      then obtain y t where t: "b x s = Some (y, t)" "loop c b y t = Some r"
        using step(2) by (auto simp: bind_eq_Some_conv)
      have m: "moved False s t"
        using b [rule_format, OF True] v t(1) by (simp add: moves_def)
      then show ?thesis
        using step(1) [OF t(2)] b moved_trans [OF m] moved_valid [OF m] by fastforce
    qed (use step(2) v in auto)
  qed
qed

lemma while_loop_may_hang:
  assumes "\<And>y t. c y t \<Longrightarrow> moves False t (b y t)" and "may_hang (ps_tokens s)"
  shows "moves False s (while_loop c b x s)"
  using while_loop_moved [of c b x s] assms by (cases "while_loop c b x s") (auto simp: moves_def)

lemma block_loop_moves:
  assumes "\<And>y t. \<not> check TK_RightBrace t \<Longrightarrow> \<not> is_at_end t \<Longrightarrow> moves True t (b y t)"
  shows "moves False s (block_loop b x s)"
  unfolding block_loop_def by (rule while_loop_moves) (use assms in blast)

text \<open>Skipping tokens always returns.\<close>

lemma balanced_loop_moves:
  "valid_state s \<Longrightarrow>
   \<exists>d' t. while_loop (\<lambda>depth s. depth > 0 \<and> \<not> is_at_end s) balanced_step d s = Some (d', t) \<and> moved False s t"
proof (induction "length (ps_tokens s) - ps_current s" arbitrary: d s rule: less_induct)
  case less
  let ?c = "\<lambda>(depth :: int) s. depth > 0 \<and> \<not> is_at_end s"
  show ?case
  proof (cases "?c d s")
    case True
    have "\<exists>e. balanced_step d s = Some (e, next_token s)"
      by (simp add: balanced_step_def)
    then obtain e where e: "balanced_step d s = Some (e, next_token s)" ..
    have t: "moved True s (next_token s)"
      using next_moves [of s] True less(2) by (simp add: moves_state_def)
    then have "length (ps_tokens (next_token s)) - ps_current (next_token s) < length (ps_tokens s) - ps_current s"
      by (auto simp: moved_def valid_state_def)
    from less(1) [OF this moved_valid [OF t]]
    obtain d' u where u: "while_loop ?c balanced_step e (next_token s) = Some (d', u)" "moved False (next_token s) u"
      by blast
    show ?thesis
      unfolding while_loop.simps [of ?c _ d s] using True e u moved_trans [OF t u(2)] by (auto intro: moved_weaken)
  next
    case False
    then show ?thesis
      unfolding while_loop.simps [of ?c _ d s] using less(2) by auto
  qed
qed

lemma synchronize_moves [parser_moves]: "moves_opt False s (synchronize_to_member_boundary s)"
proof (induction "length (ps_tokens s) - ps_current s" arbitrary: s rule: less_induct)
  case less
  show ?case
  proof (cases "valid_state s \<and> \<not> is_at_end s")
    case True
    have t: "moved True s (next_token s)"
      using next_moves [of s] True by (simp add: moves_state_def)
    then have "length (ps_tokens (next_token s)) - ps_current (next_token s) < length (ps_tokens s) - ps_current s"
      by (auto simp: moved_def valid_state_def)
    from less [OF this] have "moves_opt False (next_token s) (synchronize_to_member_boundary (next_token s))" .
    then show ?thesis
      using t moved_trans [OF t] moved_valid [OF t]
      by (subst synchronize_to_member_boundary.simps) (fastforce simp: moves_opt_def True intro: moved_weaken)
  next
    case False
    then show ?thesis
      by (subst synchronize_to_member_boundary.simps) (auto simp: moves_opt_def)
  qed
qed

lemma skip_balanced_moves [parser_moves]: "moves_opt (check TK_LeftBrace s) s (skip_balanced_block s)"
proof (cases "valid_state s \<and> check TK_LeftBrace s")
  case True
  then have t: "moved True s (next_token s)"
    using next_moves [of s] check_not_end [of TK_LeftBrace s] by (simp add: moves_state_def)
  obtain d u where "while_loop (\<lambda>depth s. depth > 0 \<and> \<not> is_at_end s) balanced_step 1 (next_token s) = Some (d, u)"
      "moved False (next_token s) u"
    using balanced_loop_moves [OF moved_valid [OF t]] by blast
  then show ?thesis
    using True moved_trans [OF t] by (auto simp: skip_balanced_block_def moves_opt_def)
next
  case False
  then show ?thesis
    by (auto simp: skip_balanced_block_def moves_opt_def)
qed

text \<open>Skipping an unknown declaration always takes at least one token.\<close>

lemma skip_unknown_moves [parser_moves]: "moves_opt (\<not> is_at_end s) s (skip_unknown_declaration s)"
proof (cases "valid_state s")
  case True
  let ?w = "s\<lparr>ps_diagnostics := add_warning (tok_range (peek_token 0 s)) ''SSPEC0299''
              ''skipping unsupported declaration in current parser milestone'' (ps_diagnostics s)\<rparr>"
  have w: "moved False s ?w" "check k ?w = check k s" "is_at_end ?w = is_at_end s" for k
    using True by (simp_all add: moved_def valid_state_def add_warning_def check_def is_at_end_def peek_token_def)
  have n: "moved (\<not> is_at_end s) s (next_token ?w)"
    using next_moves [of ?w] moved_trans [OF w(1)] moved_valid [OF w(1)] by (auto simp: moves_state_def w)
  have then_moves: "\<exists>u. r = Some u \<and> moved (\<not> is_at_end s) s u"
    if "moved c s t" "moves_opt c' t r" "\<not> is_at_end s \<longrightarrow> c \<or> c'" for c c' t r
    using that moved_trans [OF that(1)] moved_valid [OF that(1)] by (fastforce simp: moves_opt_def intro: moved_weaken)
  show ?thesis
    unfolding skip_unknown_declaration_def Let_def moves_opt_def
    using then_moves [OF w(1) skip_balanced_moves] then_moves [OF n skip_balanced_moves]
      then_moves [OF n synchronize_moves] w by simp
qed (simp add: moves_opt_def)

subsection \<open>Rules for blocks\<close>

lemma moves_opt_if:
  "(c \<Longrightarrow> moves_opt b s r) \<Longrightarrow> (\<not> c \<Longrightarrow> moves_opt b' s r') \<Longrightarrow> moves_opt (c \<and> b \<or> \<not> c \<and> b') s (if c then r else r')"
  by (auto simp: moves_opt_def elim: moved_weaken)

lemma moves_state_if:
  "(c \<Longrightarrow> moves_state b s r) \<Longrightarrow> (\<not> c \<Longrightarrow> moves_state b' s r') \<Longrightarrow> moves_state (c \<and> b \<or> \<not> c \<and> b') s (if c then r else r')"
  by (auto simp: moves_state_def elim: moved_weaken)

lemma moves_state_refl: "moves_state False s s"
  by (auto simp: moves_state_def)

lemma moves_opt_Some: "moves_opt False s (Some s)"
  by (auto simp: moves_opt_def)

lemma moves_pair_match [parser_moves]: "moves_pair (check k s) s (match_token k s)"
  using next_moves [of s] by (auto simp: moves_pair_def match_token_if moves_state_def check_not_end)

lemma moves_opt_tail: "moves_opt b t r \<Longrightarrow> moves_state b' s t \<Longrightarrow> moves_opt (b' \<or> b) s r"
  using moved_trans [of b' s t b] by (auto simp: moves_opt_def moves_state_def dest: moved_valid)

lemmas parser_ends = check_not_end check_any_not_end named_not_end

lemmas parser_unfold = same_or_ahead_def check_def is_at_end_def

text \<open>The rules, in the order in which they are tried on a goal: \<open>(rule parser_moves parser_rules |
  (simp add: parser_ends; fail) | (auto simp: parser_unfold; fail))+\<close> takes a definition apart call by call.\<close>

lemmas parser_rules = finishes_bind finishes_bind_state finishes_let finishes_let_state
  finishes_if finishes_Some finishes_tail moves_opt_if moves_opt_Some moves_opt_tail moves_state_if
  moves_state_refl while_loop_moves block_loop_moves moves_False_I moves_True_I

end
