(* ===== verification/Ast.thy ===== *)
theory Ast
  imports Source_Text
begin

text \<open>
  \<open>include/statespec/ast_*.hpp\<close>: the syntax tree. One record per struct, the fields in the order of
  the code behind a prefix of two letters; \<open>new_\<close> of a struct is the value that its default
  constructor makes. An \<open>int\<close> that is parsed is within 32 bits (\<open>Parser_Core.stoi\<close>).
\<close>

record IncludeDecl =
  in_path :: string
  in_range :: source_range

definition new_IncludeDecl :: IncludeDecl where
  "new_IncludeDecl =
    \<lparr>in_path = [], in_range = empty_range\<rparr>"

record FieldDecl =
  fd_name :: string
  fd_type :: string
  fd_range :: source_range

definition new_FieldDecl :: FieldDecl where
  "new_FieldDecl =
    \<lparr>fd_name = [], fd_type = [], fd_range = empty_range\<rparr>"

record TenantScopeDecl =
  ts_field_name :: string
  ts_range :: source_range

definition new_TenantScopeDecl :: TenantScopeDecl where
  "new_TenantScopeDecl =
    \<lparr>ts_field_name = ''tenant_id'', ts_range = empty_range\<rparr>"

datatype SystemTenantSource = Configured

record SystemTenantDecl =
  st_source :: SystemTenantSource
  st_config_key :: string
  st_range :: source_range

definition new_SystemTenantDecl :: SystemTenantDecl where
  "new_SystemTenantDecl =
    \<lparr>st_source = Configured, st_config_key = ''STATESPEC_SYSTEM_TENANT_ID'',
     st_range = empty_range\<rparr>"

record BlockMemberOrder =
  mo_kind :: string
  mo_range :: source_range

definition new_BlockMemberOrder :: BlockMemberOrder where
  "new_BlockMemberOrder =
    \<lparr>mo_kind = [], mo_range = empty_range\<rparr>"

record ValueDecl =
  vd_name :: string
  vd_type :: string
  vd_constraint :: "string option"
  vd_range :: source_range

definition new_ValueDecl :: ValueDecl where
  "new_ValueDecl =
    \<lparr>vd_name = [], vd_type = [], vd_constraint = None, vd_range = empty_range\<rparr>"

record EnumMemberDecl =
  em_name :: string
  em_value :: "string option"
  em_value_kind :: "string option"
  em_range :: source_range

definition new_EnumMemberDecl :: EnumMemberDecl where
  "new_EnumMemberDecl =
    \<lparr>em_name = [], em_value = None, em_value_kind = None, em_range = empty_range\<rparr>"

record EnumDecl =
  en_name :: string
  en_members :: "EnumMemberDecl list"
  en_range :: source_range

definition new_EnumDecl :: EnumDecl where
  "new_EnumDecl =
    \<lparr>en_name = [], en_members = [], en_range = empty_range\<rparr>"

record EventDecl =
  ev_name :: string
  ev_fields :: "FieldDecl list"
  ev_range :: source_range

definition new_EventDecl :: EventDecl where
  "new_EventDecl =
    \<lparr>ev_name = [], ev_fields = [], ev_range = empty_range\<rparr>"

record FeatureFlagDecl =
  ff_name :: string
  ff_type :: "string option"
  ff_default_value :: "string option"
  ff_default_value_kind :: "string option"
  ff_scope :: "string option"
  ff_owner :: "string option"
  ff_description :: "string option"
  ff_expires :: "string option"
  ff_range :: source_range

definition new_FeatureFlagDecl :: FeatureFlagDecl where
  "new_FeatureFlagDecl =
    \<lparr>ff_name = [], ff_type = None, ff_default_value = None, ff_default_value_kind = None,
     ff_scope = None, ff_owner = None, ff_description = None, ff_expires = None,
     ff_range = empty_range\<rparr>"

record ShapeDecl =
  sh_name :: string
  sh_fields :: "FieldDecl list"
  sh_range :: source_range

definition new_ShapeDecl :: ShapeDecl where
  "new_ShapeDecl =
    \<lparr>sh_name = [], sh_fields = [], sh_range = empty_range\<rparr>"

record GarbageCollectionPolicyDecl =
  gc_after :: "string option"
  gc_mode :: "string option"
  gc_range :: source_range

definition new_GarbageCollectionPolicyDecl :: GarbageCollectionPolicyDecl where
  "new_GarbageCollectionPolicyDecl =
    \<lparr>gc_after = None, gc_mode = None, gc_range = empty_range\<rparr>"

record StateDecl =
  sd_name :: string
  sd_terminal :: bool
  sd_garbage_collection :: "GarbageCollectionPolicyDecl option"
  sd_duplicate_garbage_collection_range :: "source_range option"
  sd_range :: source_range

definition new_StateDecl :: StateDecl where
  "new_StateDecl =
    \<lparr>sd_name = [], sd_terminal = False, sd_garbage_collection = None,
     sd_duplicate_garbage_collection_range = None, sd_range = empty_range\<rparr>"

record TransitionDecl =
  td_from :: string
  td_to :: string
  td_range :: source_range

definition new_TransitionDecl :: TransitionDecl where
  "new_TransitionDecl =
    \<lparr>td_from = [], td_to = [], td_range = empty_range\<rparr>"

record StateMachineDecl =
  sm_states :: "StateDecl list"
  sm_initial_state :: "string option"
  sm_terminal_states :: "string list"
  sm_transitions :: "TransitionDecl list"
  sm_range :: source_range

definition new_StateMachineDecl :: StateMachineDecl where
  "new_StateMachineDecl =
    \<lparr>sm_states = [], sm_initial_state = None, sm_terminal_states = [], sm_transitions = [],
     sm_range = empty_range\<rparr>"

record IndexDecl =
  ix_name :: string
  ix_fields :: "string list"
  ix_unique :: bool
  ix_range :: source_range

definition new_IndexDecl :: IndexDecl where
  "new_IndexDecl =
    \<lparr>ix_name = [], ix_fields = [], ix_unique = False, ix_range = empty_range\<rparr>"

record OwnershipDecl =
  ow_authority :: "string option"
  ow_system_of_record :: "string option"
  ow_lifecycle :: "string option"
  ow_range :: source_range

definition new_OwnershipDecl :: OwnershipDecl where
  "new_OwnershipDecl =
    \<lparr>ow_authority = None, ow_system_of_record = None, ow_lifecycle = None,
     ow_range = empty_range\<rparr>"

record RelationDecl =
  re_kind :: string
  re_name :: string
  re_target :: string
  re_optional :: bool
  re_relation_kind :: "string option"
  re_on_parent_delete :: "string option"
  re_parent_must_be_in :: "string list"
  re_unique_within_parent :: "string list"
  re_range :: source_range

definition new_RelationDecl :: RelationDecl where
  "new_RelationDecl =
    \<lparr>re_kind = [], re_name = [], re_target = [], re_optional = False, re_relation_kind = None,
     re_on_parent_delete = None, re_parent_must_be_in = [], re_unique_within_parent = [],
     re_range = empty_range\<rparr>"

record ChildDecl =
  ch_name :: string
  ch_target_entity :: string
  ch_relation :: string
  ch_range :: source_range

definition new_ChildDecl :: ChildDecl where
  "new_ChildDecl =
    \<lparr>ch_name = [], ch_target_entity = [], ch_relation = [], ch_range = empty_range\<rparr>"

record InvariantDecl =
  iv_name :: string
  iv_expression :: string
  iv_range :: source_range

definition new_InvariantDecl :: InvariantDecl where
  "new_InvariantDecl =
    \<lparr>iv_name = [], iv_expression = [], iv_range = empty_range\<rparr>"

record EntityApiCreateDecl =
  ac_name :: "string option"
  ac_fields :: "string list"
  ac_response_fields :: "string list"
  ac_range :: source_range

definition new_EntityApiCreateDecl :: EntityApiCreateDecl where
  "new_EntityApiCreateDecl =
    \<lparr>ac_name = None, ac_fields = [], ac_response_fields = [], ac_range = empty_range\<rparr>"

record EntityApiOperationDecl =
  ao_name :: "string option"
  ao_response_fields :: "string list"
  ao_range :: source_range

definition new_EntityApiOperationDecl :: EntityApiOperationDecl where
  "new_EntityApiOperationDecl =
    \<lparr>ao_name = None, ao_response_fields = [], ao_range = empty_range\<rparr>"

record EntityApiListDecl =
  al_name :: "string option"
  al_path :: "string option"
  al_by :: "string list"
  al_response_fields :: "string list"
  al_range :: source_range

definition new_EntityApiListDecl :: EntityApiListDecl where
  "new_EntityApiListDecl =
    \<lparr>al_name = None, al_path = None, al_by = [], al_response_fields = [],
     al_range = empty_range\<rparr>"

record EntityApiDecl =
  ea_resource :: "string option"
  ea_create :: "EntityApiCreateDecl option"
  ea_get :: "EntityApiOperationDecl option"
  ea_lists :: "EntityApiListDecl list"
  ea_update_status :: "EntityApiOperationDecl option"
  ea_delete :: "EntityApiOperationDecl option"
  ea_range :: source_range

definition new_EntityApiDecl :: EntityApiDecl where
  "new_EntityApiDecl =
    \<lparr>ea_resource = None, ea_create = None, ea_get = None, ea_lists = [],
     ea_update_status = None, ea_delete = None, ea_range = empty_range\<rparr>"

record EntityDecl =
  et_name :: string
  et_key_fields :: "string list"
  et_fields :: "FieldDecl list"
  et_indexes :: "IndexDecl list"
  et_ownership :: "OwnershipDecl option"
  et_relations :: "RelationDecl list"
  et_children :: "ChildDecl list"
  et_invariants :: "InvariantDecl list"
  et_state_machine :: "StateMachineDecl option"
  et_api :: "EntityApiDecl option"
  et_member_order :: "BlockMemberOrder list"
  et_range :: source_range

definition new_EntityDecl :: EntityDecl where
  "new_EntityDecl =
    \<lparr>et_name = [], et_key_fields = [], et_fields = [], et_indexes = [], et_ownership = None,
     et_relations = [], et_children = [], et_invariants = [], et_state_machine = None,
     et_api = None, et_member_order = [], et_range = empty_range\<rparr>"

record ExternalSystemPropertyDecl =
  xp_name :: string
  xp_value :: string
  xp_value_kind :: "string option"
  xp_range :: source_range

definition new_ExternalSystemPropertyDecl :: ExternalSystemPropertyDecl where
  "new_ExternalSystemPropertyDecl =
    \<lparr>xp_name = [], xp_value = [], xp_value_kind = None, xp_range = empty_range\<rparr>"

record ExternalSystemMetadataMappingDecl =
  xm_source :: string
  xm_target :: string
  xm_range :: source_range

definition new_ExternalSystemMetadataMappingDecl :: ExternalSystemMetadataMappingDecl where
  "new_ExternalSystemMetadataMappingDecl =
    \<lparr>xm_source = [], xm_target = [], xm_range = empty_range\<rparr>"

record ExternalSystemMetadataDecl =
  xd_entity :: "string option"
  xd_profile_field :: "string option"
  xd_required_fields :: "string list"
  xd_mappings :: "ExternalSystemMetadataMappingDecl list"
  xd_range :: source_range

definition new_ExternalSystemMetadataDecl :: ExternalSystemMetadataDecl where
  "new_ExternalSystemMetadataDecl =
    \<lparr>xd_entity = None, xd_profile_field = None, xd_required_fields = [], xd_mappings = [],
     xd_range = empty_range\<rparr>"

record ExternalSystemDecl =
  xs_name :: string
  xs_properties :: "ExternalSystemPropertyDecl list"
  xs_metadata :: "ExternalSystemMetadataDecl option"
  xs_range :: source_range

definition new_ExternalSystemDecl :: ExternalSystemDecl where
  "new_ExternalSystemDecl =
    \<lparr>xs_name = [], xs_properties = [], xs_metadata = None, xs_range = empty_range\<rparr>"

record LogDecl =
  lg_name :: string
  lg_level :: "string option"
  lg_event_name :: "string option"
  lg_fields :: "FieldDecl list"
  lg_member_order :: "BlockMemberOrder list"
  lg_range :: source_range

definition new_LogDecl :: LogDecl where
  "new_LogDecl =
    \<lparr>lg_name = [], lg_level = None, lg_event_name = None, lg_fields = [],
     lg_member_order = [], lg_range = empty_range\<rparr>"

record MetricDecl =
  mt_name :: string
  mt_kind :: "string option"
  mt_backend_name :: "string option"
  mt_unit :: "string option"
  mt_labels :: "FieldDecl list"
  mt_member_order :: "BlockMemberOrder list"
  mt_range :: source_range

definition new_MetricDecl :: MetricDecl where
  "new_MetricDecl =
    \<lparr>mt_name = [], mt_kind = None, mt_backend_name = None, mt_unit = None, mt_labels = [],
     mt_member_order = [], mt_range = empty_range\<rparr>"

record MessageDecl =
  ms_name :: string
  ms_idempotency_key :: "string option"
  ms_payload_fields :: "FieldDecl list"
  ms_range :: source_range

definition new_MessageDecl :: MessageDecl where
  "new_MessageDecl =
    \<lparr>ms_name = [], ms_idempotency_key = None, ms_payload_fields = [], ms_range = empty_range\<rparr>"

record QueueDecl =
  qu_name :: string
  qu_namespace_name :: "string option"
  qu_channel :: "string option"
  qu_visibility_timeout :: "string option"
  qu_max_attempts :: "int option"
  qu_dead_letter :: "string option"
  qu_messages :: "MessageDecl list"
  qu_range :: source_range

definition new_QueueDecl :: QueueDecl where
  "new_QueueDecl =
    \<lparr>qu_name = [], qu_namespace_name = None, qu_channel = None, qu_visibility_timeout = None,
     qu_max_attempts = None, qu_dead_letter = None, qu_messages = [], qu_range = empty_range\<rparr>"

record LeaseDecl =
  ls_name :: string
  ls_resource :: "string option"
  ls_ttl :: "string option"
  ls_renew_every :: "string option"
  ls_holder :: "string option"
  ls_fencing_token :: "bool option"
  ls_max_ttl :: "string option"
  ls_range :: source_range

definition new_LeaseDecl :: LeaseDecl where
  "new_LeaseDecl =
    \<lparr>ls_name = [], ls_resource = None, ls_ttl = None, ls_renew_every = None, ls_holder = None,
     ls_fencing_token = None, ls_max_ttl = None, ls_range = empty_range\<rparr>"

record WorkerDecl =
  wk_name :: string
  wk_singleton :: "bool option"
  wk_lease :: "string option"
  wk_polls :: "string option"
  wk_executes :: "string option"
  wk_concurrency :: "int option"
  wk_range :: source_range

definition new_WorkerDecl :: WorkerDecl where
  "new_WorkerDecl =
    \<lparr>wk_name = [], wk_singleton = None, wk_lease = None, wk_polls = None, wk_executes = None,
     wk_concurrency = None, wk_range = empty_range\<rparr>"

record ApiServerDecl =
  as_name :: string
  as_serves :: "string list"
  as_concurrency :: "int option"
  as_range :: source_range

definition new_ApiServerDecl :: ApiServerDecl where
  "new_ApiServerDecl =
    \<lparr>as_name = [], as_serves = [], as_concurrency = None, as_range = empty_range\<rparr>"

record ApiDecl =
  ap_name :: string
  ap_method :: "string option"
  ap_path :: "string option"
  ap_input :: "string option"
  ap_output :: "string option"
  ap_error :: "string option"
  ap_starts_workflow :: "string option"
  ap_enqueues :: "string option"
  ap_range :: source_range

definition new_ApiDecl :: ApiDecl where
  "new_ApiDecl =
    \<lparr>ap_name = [], ap_method = None, ap_path = None, ap_input = None, ap_output = None,
     ap_error = None, ap_starts_workflow = None, ap_enqueues = None, ap_range = empty_range\<rparr>"

record WorkflowLoadDecl =
  wl_entity :: string
  wl_key_field :: string
  wl_binding :: string
  wl_range :: source_range

definition new_WorkflowLoadDecl :: WorkflowLoadDecl where
  "new_WorkflowLoadDecl =
    \<lparr>wl_entity = [], wl_key_field = [], wl_binding = [], wl_range = empty_range\<rparr>"

record WorkflowAssignmentDecl =
  wa_name :: string
  wa_expression :: string
  wa_range :: source_range

definition new_WorkflowAssignmentDecl :: WorkflowAssignmentDecl where
  "new_WorkflowAssignmentDecl =
    \<lparr>wa_name = [], wa_expression = [], wa_range = empty_range\<rparr>"

text \<open>A statement contains statements, so it is a datatype and no record.\<close>

datatype (plugins only: code size) WorkflowStatementDecl = WorkflowStatementDecl
  (ws_kind: string)
  (ws_target: "string option")
  (ws_expression: "string option")
  (ws_assignable: "string option")
  (ws_from_assignable: "string option")
  (ws_to_assignable: "string option")
  (ws_binding: "string option")
  (ws_payload: "WorkflowAssignmentDecl list")
  (ws_statements: "WorkflowStatementDecl list")
  (ws_range: source_range)

definition new_WorkflowStatementDecl :: "string \<Rightarrow> WorkflowStatementDecl" where
  "new_WorkflowStatementDecl kind = WorkflowStatementDecl kind None None None None None None [] [] empty_range"

record WorkflowChildSetDecl =
  cs_name :: string
  cs_entity :: "string option"
  cs_parent_field :: "string option"
  cs_id_type :: "string option"
  cs_pending :: "string option"
  cs_creating :: "string option"
  cs_succeeded :: "string option"
  cs_failed :: "string option"
  cs_desired_count :: "string option"
  cs_range :: source_range

definition new_WorkflowChildSetDecl :: WorkflowChildSetDecl where
  "new_WorkflowChildSetDecl =
    \<lparr>cs_name = [], cs_entity = None, cs_parent_field = None, cs_id_type = None,
     cs_pending = None, cs_creating = None, cs_succeeded = None, cs_failed = None,
     cs_desired_count = None, cs_range = empty_range\<rparr>"

record WorkflowChildWorkflowDecl =
  cw_name :: string
  cw_child_entity :: "string option"
  cw_child_workflow :: "string option"
  cw_child_id_field :: "string option"
  cw_child_id_type :: "string option"
  cw_parent_ref_field :: "string option"
  cw_parent_ref_expression :: "string option"
  cw_desired_count :: "string option"
  cw_create_assignments :: "WorkflowAssignmentDecl list"
  cw_success_expression :: "string option"
  cw_failure_expression :: "string option"
  cw_range :: source_range

definition new_WorkflowChildWorkflowDecl :: WorkflowChildWorkflowDecl where
  "new_WorkflowChildWorkflowDecl =
    \<lparr>cw_name = [], cw_child_entity = None, cw_child_workflow = None, cw_child_id_field = None,
     cw_child_id_type = None, cw_parent_ref_field = None, cw_parent_ref_expression = None,
     cw_desired_count = None, cw_create_assignments = [], cw_success_expression = None,
     cw_failure_expression = None, cw_range = empty_range\<rparr>"

record WorkflowStepDecl =
  wp_name :: string
  wp_expected_execution_time :: "string option"
  wp_max_retries :: "int option"
  wp_statements :: "WorkflowStatementDecl list"
  wp_range :: source_range

definition new_WorkflowStepDecl :: WorkflowStepDecl where
  "new_WorkflowStepDecl =
    \<lparr>wp_name = [], wp_expected_execution_time = None, wp_max_retries = None,
     wp_statements = [], wp_range = empty_range\<rparr>"

record WorkflowDecl =
  wf_name :: string
  wf_version :: "int option"
  wf_singleton :: "bool option"
  wf_expected_execution_time :: "string option"
  wf_start_step :: "string option"
  wf_on :: "string option"
  wf_input :: "string option"
  wf_state :: "string option"
  wf_loads :: "WorkflowLoadDecl list"
  wf_child_sets :: "WorkflowChildSetDecl list"
  wf_child_workflows :: "WorkflowChildWorkflowDecl list"
  wf_steps :: "WorkflowStepDecl list"
  wf_member_order :: "BlockMemberOrder list"
  wf_range :: source_range

definition new_WorkflowDecl :: WorkflowDecl where
  "new_WorkflowDecl =
    \<lparr>wf_name = [], wf_version = None, wf_singleton = None, wf_expected_execution_time = None,
     wf_start_step = None, wf_on = None, wf_input = None, wf_state = None, wf_loads = [],
     wf_child_sets = [], wf_child_workflows = [], wf_steps = [], wf_member_order = [],
     wf_range = empty_range\<rparr>"

record PolicyRuleDecl =
  pr_action :: string
  pr_condition :: string
  pr_range :: source_range

definition new_PolicyRuleDecl :: PolicyRuleDecl where
  "new_PolicyRuleDecl =
    \<lparr>pr_action = [], pr_condition = [], pr_range = empty_range\<rparr>"

record QuotaDecl =
  qt_name :: string
  qt_expression :: string
  qt_range :: source_range

definition new_QuotaDecl :: QuotaDecl where
  "new_QuotaDecl =
    \<lparr>qt_name = [], qt_expression = [], qt_range = empty_range\<rparr>"

record PolicyDecl =
  po_name :: string
  po_tenant_scoped_by :: "string option"
  po_allows :: "PolicyRuleDecl list"
  po_denies :: "PolicyRuleDecl list"
  po_quotas :: "QuotaDecl list"
  po_audits :: "string list"
  po_member_order :: "BlockMemberOrder list"
  po_range :: source_range

definition new_PolicyDecl :: PolicyDecl where
  "new_PolicyDecl =
    \<lparr>po_name = [], po_tenant_scoped_by = None, po_allows = [], po_denies = [], po_quotas = [],
     po_audits = [], po_member_order = [], po_range = empty_range\<rparr>"

record SystemDecl =
  sy_name :: string
  sy_tenant_scope :: "TenantScopeDecl option"
  sy_system_tenant :: "SystemTenantDecl option"
  sy_values :: "ValueDecl list"
  sy_enums :: "EnumDecl list"
  sy_events :: "EventDecl list"
  sy_shapes :: "ShapeDecl list"
  sy_external_systems :: "ExternalSystemDecl list"
  sy_feature_flags :: "FeatureFlagDecl list"
  sy_logs :: "LogDecl list"
  sy_metrics :: "MetricDecl list"
  sy_entities :: "EntityDecl list"
  sy_queues :: "QueueDecl list"
  sy_leases :: "LeaseDecl list"
  sy_workers :: "WorkerDecl list"
  sy_api_servers :: "ApiServerDecl list"
  sy_apis :: "ApiDecl list"
  sy_workflows :: "WorkflowDecl list"
  sy_policies :: "PolicyDecl list"
  sy_member_order :: "BlockMemberOrder list"
  sy_range :: source_range

definition new_SystemDecl :: SystemDecl where
  "new_SystemDecl =
    \<lparr>sy_name = [], sy_tenant_scope = None, sy_system_tenant = None, sy_values = [],
     sy_enums = [], sy_events = [], sy_shapes = [], sy_external_systems = [],
     sy_feature_flags = [], sy_logs = [], sy_metrics = [], sy_entities = [], sy_queues = [],
     sy_leases = [], sy_workers = [], sy_api_servers = [], sy_apis = [], sy_workflows = [],
     sy_policies = [], sy_member_order = [], sy_range = empty_range\<rparr>"

record Spec =
  sp_version :: "string option"
  sp_includes :: "IncludeDecl list"
  sp_system :: "SystemDecl option"

definition new_Spec :: Spec where
  "new_Spec =
    \<lparr>sp_version = None, sp_includes = [], sp_system = None\<rparr>"

end
