(* ===== verification/Parser_Common.thy ===== *)
theory Parser_Common
  imports Parser_Core Ast
begin

text \<open>
  \<open>src/parser_common.cpp\<close> and \<open>src/parser_values.cpp\<close>: names, types, lists, values and expressions;
  the declarations of values, enumerations, events, external systems and shapes, with
  \<open>parse_field_decl\<close> and \<open>parse_index_decl\<close> of \<open>src/parser_entities.cpp\<close>.
\<close>

abbreviation KW :: "string \<Rightarrow> token_kind" where
  "KW \<equiv> TK_Keyword"

abbreviation at_named :: "string \<Rightarrow> parser_state \<Rightarrow> bool" where
  "at_named name s \<equiv> is_named_identifier (peek_token 0 s) name"

abbreviation here :: "parser_state \<Rightarrow> source_range" where
  "here s \<equiv> tok_range (peek_token 0 s)"

definition member :: "string \<Rightarrow> source_range \<Rightarrow> BlockMemberOrder" where
  "member kind r = \<lparr>mo_kind = kind, mo_range = r\<rparr>"

text \<open>\<open>while (!check(RightBrace) && !is_at_end()) xs.push_back(p());\<close>\<close>

definition push_loop ::
  "(parser_state \<Rightarrow> ('a \<times> parser_state) option) \<Rightarrow> 'a list \<Rightarrow> parser_state \<Rightarrow> ('a list \<times> parser_state) option" where
  "push_loop p = block_loop (\<lambda>xs s. do { (x, s) \<leftarrow> p s; Some (xs @ [x], s) })"

section \<open>Blocks\<close>

text \<open>Three patterns of the declarations. A branch of a block takes its word, reads a value and takes
  an optional semicolon; a braced block is a loop between braces; anything else is skipped. After a
  word has been matched, \<open>previous()\<close> is that word, here the token before the match.\<close>

definition branch ::
  "(parser_state \<Rightarrow> ('v \<times> parser_state) option) \<Rightarrow> ('v \<Rightarrow> 'd) \<Rightarrow> parser_state \<Rightarrow> ('d \<times> parser_state) option" where
  "branch p put s = do {
     let s = next_token s;
     (v, s) \<leftarrow> p s;
     let s = consume_optional_semicolon s;
     Some (put v, s) }"

definition braced ::
  "string \<Rightarrow> string \<Rightarrow> (parser_state \<Rightarrow> ('a \<times> parser_state) option) \<Rightarrow> parser_state \<Rightarrow> ('a \<times> parser_state) option" where
  "braced a b p s = do {
     let (_, s) = consume TK_LeftBrace (''expected '' @ quoted ''{'' @ '' after '' @ a) s;
     (x, s) \<leftarrow> p s;
     let (_, s) = consume TK_RightBrace (''expected '' @ quoted ''}'' @ '' after '' @ b) s;
     Some (x, s) }"

definition skipping :: "'a \<Rightarrow> parser_state \<Rightarrow> ('a \<times> parser_state) option" where
  "skipping x s = do { s \<leftarrow> skip_unknown_declaration s; Some (x, s) }"

definition an_identifier :: "string \<Rightarrow> parser_state \<Rightarrow> (string \<times> parser_state) option" where
  "an_identifier message s = do {
     let (t, s) = consume TK_Identifier message s;
     Some (tok_lexeme t, s) }"

definition a_boolean :: "string \<Rightarrow> parser_state \<Rightarrow> (bool \<times> parser_state) option" where
  "a_boolean message s = do {
     let (t, s) = consume TK_BooleanLiteral message s;
     Some (tok_lexeme t = ''true'', s) }"

definition an_integer :: "string \<Rightarrow> parser_state \<Rightarrow> (int \<times> parser_state) option" where
  "an_integer message s = do {
     let (t, s) = consume TK_IntegerLiteral message s;
     Some (parse_int_or_zero t, s) }"

definition after_colon ::
  "string \<Rightarrow> (parser_state \<Rightarrow> ('a \<times> parser_state) option) \<Rightarrow> parser_state \<Rightarrow> ('a \<times> parser_state) option" where
  "after_colon a p s = do {
     let (_, s) = consume TK_Colon (''expected '' @ quoted '':'' @ '' after '' @ a) s;
     p s }"

text \<open>The frame of a declaration: its keyword, its name, the braced body, the range.\<close>

definition decl_frame ::
  "string \<Rightarrow> string \<Rightarrow> string \<Rightarrow> (string \<Rightarrow> parser_state \<Rightarrow> ('a \<times> parser_state) option) \<Rightarrow>
   (source_range \<Rightarrow> 'a \<Rightarrow> 'a) \<Rightarrow> parser_state \<Rightarrow> ('a \<times> parser_state) option" where
  "decl_frame keyword expected what body ranged s = do {
     let (start, s) = consume (KW keyword) expected s;
     let (name, s) = consume TK_Identifier (''expected '' @ what @ '' name'') s;
     (d, s) \<leftarrow> braced (what @ '' name'') (what @ '' block'') (body (tok_lexeme name)) s;
     Some (ranged (range_from start s) d, s) }"

section \<open>Names, types, values, expressions\<close>

definition parse_qualified_name :: "string \<Rightarrow> parser_state \<Rightarrow> (string \<times> parser_state) option" where
  "parse_qualified_name context s = do {
     let (t, s) = consume TK_Identifier (''expected '' @ context) s;
     while_loop (\<lambda>_. check TK_Dot)
       (\<lambda>name s. do {
          let s = next_token s;
          let (t, s) = consume TK_Identifier (''expected name after '' @ quoted ''.'') s;
          Some (name @ ''.'' @ tok_lexeme t, s) })
       (tok_lexeme t) s }"

text \<open>The text of a type between \<open><\<close> and the \<open>>\<close> that closes it; the accumulator is the depth and
  the text.\<close>

definition type_argument_step :: "int \<times> string \<Rightarrow> parser_state \<Rightarrow> ((int \<times> string) \<times> parser_state) option" where
  "type_argument_step a s =
     (if check TK_Less s then Some ((fst a + 1, snd a @ ''<''), next_token s)
      else if check TK_Greater s then Some ((fst a - 1, snd a @ ''>''), next_token s)
      else do {
        let (t, s) = advance_token s;
        Some ((fst a, snd a @ tok_lexeme t), s) })"

definition parse_type_name :: "parser_state \<Rightarrow> (string \<times> parser_state) option" where
  "parse_type_name s =
     (if \<not> check_any [TK_Identifier, KW ''optional'', KW ''ref''] s then do {
        let s = parse_error (here s) ''SSPEC0200'' ''expected type name'' s;
        let s = (if \<not> is_at_end s then next_token s else s);
        Some ([], s) }
      else do {
        let (t, s) = advance_token s;
        (type, s) \<leftarrow>
          (if check TK_Less s then do {
             let s = next_token s;
             (a, s) \<leftarrow> while_loop (\<lambda>a s. fst a > 0 \<and> \<not> is_at_end s) type_argument_step (1, tok_lexeme t @ ''<'') s;
             Some (snd a, s) }
           else Some (tok_lexeme t, s));
        (type, s) \<leftarrow>
          (if check TK_LeftBracket s then do {
             let s = next_token s;
             let (_, s) = consume TK_RightBracket (''expected '' @ quoted '']'' @ '' after array type'') s;
             Some (type @ ''[]'', s) }
           else Some (type, s));
        if check TK_Question s then Some (type @ ''?'', next_token s) else Some (type, s) })"

definition parse_identifier_list :: "parser_state \<Rightarrow> (string list \<times> parser_state) option" where
  "parse_identifier_list s = do {
     let (bracketed, s) = match_token TK_LeftBracket s;
     let (t, s) = consume TK_Identifier ''expected identifier'' s;
     (names, s) \<leftarrow> while_loop (\<lambda>_. check TK_Comma)
       (\<lambda>names s. do {
          let s = next_token s;
          let (t, s) = consume TK_Identifier (''expected identifier after '' @ quoted '','') s;
          Some (names @ [tok_lexeme t], s) })
       [tok_lexeme t] s;
     if bracketed then do {
       let (_, s) = consume TK_RightBracket (''expected '' @ quoted '']'' @ '' after identifier list'') s;
       Some (names, s) }
     else Some (names, s) }"

definition literal_kinds :: "token_kind list" where
  "literal_kinds = [TK_StringLiteral, TK_DurationLiteral, TK_IntegerLiteral, TK_DecimalLiteral, TK_BooleanLiteral]"

definition parse_simple_value :: "string \<Rightarrow> parser_state \<Rightarrow> (string \<times> parser_state) option" where
  "parse_simple_value context s =
     (if check TK_Identifier s then parse_qualified_name context s
      else if check_any literal_kinds s then do {
        let s = next_token s;
        Some (strip_quotes (tok_lexeme (previous s)), s) }
      else do {
        let s = parse_error (here s) ''SSPEC0203'' (''expected '' @ context) s;
        Some ([], s) })"

definition at_boundary :: "parser_state \<Rightarrow> bool" where
  "at_boundary s \<longleftrightarrow> is_at_end s \<or> check TK_Semicolon s \<or> check TK_RightBrace s"

definition spaced_lexeme :: "string \<Rightarrow> parser_state \<Rightarrow> string" where
  "spaced_lexeme e s = (if e = [] then [] else e @ '' '') @ tok_lexeme (peek_token 0 s)"

definition parse_simple_expression_until_boundary :: "parser_state \<Rightarrow> (string \<times> parser_state) option" where
  "parse_simple_expression_until_boundary =
     while_loop (\<lambda>_ s. \<not> at_boundary s) (\<lambda>e s. Some (spaced_lexeme e s, next_token s)) []"

text \<open>\<open>break\<close> in the loop is a conjunct of its condition.\<close>

definition parse_simple_expression_until_line_boundary :: "parser_state \<Rightarrow> (string \<times> parser_state) option" where
  "parse_simple_expression_until_line_boundary =
     while_loop
       (\<lambda>e s. \<not> at_boundary s \<and>
          \<not> (e \<noteq> [] \<and> sl_line (sr_begin (here s)) > sl_line (sr_end (tok_range (previous s)))))
       (\<lambda>e s. Some (spaced_lexeme e s, next_token s)) []"

definition parse_expression_until :: "token_kind \<Rightarrow> parser_state \<Rightarrow> (string \<times> parser_state) option" where
  "parse_expression_until k =
     while_loop (\<lambda>_ s. \<not> at_boundary s \<and> \<not> check k s) (\<lambda>e s. Some (spaced_lexeme e s, next_token s)) []"

section \<open>Fields and indexes\<close>

definition parse_field_decl :: "parser_state \<Rightarrow> (FieldDecl \<times> parser_state) option" where
  "parse_field_decl s = do {
     let (name, s) = consume TK_Identifier ''expected field name'' s;
     (type, s) \<leftarrow> parse_type_name s;
     s \<leftarrow> (if check TK_LeftBrace s then skip_balanced_block s else Some s);
     s \<leftarrow> (if check (KW ''where'') s then synchronize_to_member_boundary (next_token s) else Some s);
     let s = consume_optional_semicolon s;
     Some (\<lparr>fd_name = tok_lexeme name, fd_type = type, fd_range = range_from name s\<rparr>, s) }"

definition parse_index_decl :: "parser_state \<Rightarrow> (IndexDecl \<times> parser_state) option" where
  "parse_index_decl s = do {
     let (kind, s) = consume TK_Identifier ''expected index kind'' s;
     let s = (if tok_lexeme kind \<noteq> ''index'' \<and> tok_lexeme kind \<noteq> ''unique''
              then parse_error (tok_range kind) ''SSPEC0200'' (''expected '' @ quoted ''index'' @ '' or '' @ quoted ''unique'') s
              else s);
     let (name, s) = consume TK_Identifier ''expected index name'' s;
     let s = (if \<not> at_named ''on'' s \<and> \<not> check (KW ''on'') s
              then parse_error (here s) ''SSPEC0200'' (''expected '' @ quoted ''on'' @ '' after index name'') s
              else next_token s);
     let (field, s) = consume TK_Identifier ''expected index field'' s;
     (fields, s) \<leftarrow> while_loop (\<lambda>_. check TK_Comma)
       (\<lambda>fields s. do {
          let s = next_token s;
          let (t, s) = consume TK_Identifier (''expected index field after '' @ quoted '','') s;
          Some (fields @ [tok_lexeme t], s) })
       [tok_lexeme field] s;
     s \<leftarrow> (if check TK_LeftBrace s then skip_balanced_block s else Some s);
     let s = consume_optional_semicolon s;
     Some (\<lparr>ix_name = tok_lexeme name, ix_fields = fields, ix_unique = (tok_lexeme kind = ''unique''),
            ix_range = range_from kind s\<rparr>, s) }"


lemma push_loop_moves:
  assumes "\<And>t. \<not> check TK_RightBrace t \<Longrightarrow> \<not> is_at_end t \<Longrightarrow> moves True t (p t)"
  shows "moves False s (push_loop p xs s)"
  unfolding push_loop_def
  by (rule assms parser_rules | (simp; fail))+

lemma type_argument_step_moves: "\<not> is_at_end s \<Longrightarrow> moves True s (type_argument_step a s)"
  unfolding type_argument_step_def
  by (rule parser_moves parser_rules | (simp add: parser_ends; fail) | (auto simp: parser_unfold; fail))+

lemma name_moves [parser_moves]:
  "moves (check TK_Identifier s) s (parse_qualified_name context s)"
  "moves False s (parse_identifier_list s)"
  unfolding parse_qualified_name_def parse_identifier_list_def
  by (rule movesI, (rule parser_moves parser_rules | (simp add: parser_ends; fail) | (auto simp: parser_unfold; fail))+)+

lemma parse_type_name_moves [parser_moves]: "moves (\<not> is_at_end s) s (parse_type_name s)"
  unfolding parse_type_name_def
  apply (rule movesI, (rule type_argument_step_moves parser_moves parser_rules | (simp add: parser_ends; fail) | (auto simp: parser_unfold; fail))+)
  done

lemma parse_simple_value_moves [parser_moves]: "moves False s (parse_simple_value context s)"
  unfolding parse_simple_value_def
  by (rule movesI, (rule parser_moves parser_rules | (simp add: parser_ends; fail) | (auto simp: parser_unfold; fail))+)

lemma until_moves:
  assumes "\<And>e t. c e t \<Longrightarrow> \<not> is_at_end t"
  shows "moves (c [] s) s (while_loop c (\<lambda>e s. Some (spaced_lexeme e s, next_token s)) [] s)"
proof -
  have rest: "moves False t (while_loop c (\<lambda>e s. Some (spaced_lexeme e s, next_token s)) x t)" for x t
    by (rule parser_moves parser_rules | (simp add: assms; fail))+
  show ?thesis
    using moves_after [OF rest next_moves, of s] rest [of s "[]"] assms [of "[]" s]
    by (cases "c [] s") (simp_all add: while_loop.simps [of c _ "[]" s])
qed

lemma expression_moves [parser_moves]:
  "moves (\<not> at_boundary s) s (parse_simple_expression_until_boundary s)"
  "moves (\<not> at_boundary s) s (parse_simple_expression_until_line_boundary s)"
  "moves (\<not> at_boundary s \<and> \<not> check k s) s (parse_expression_until k s)"
  unfolding parse_simple_expression_until_boundary_def parse_simple_expression_until_line_boundary_def
    parse_expression_until_def
  by (rule moves_weaken, rule until_moves; auto simp: at_boundary_def)+

lemma parse_field_moves [parser_moves]: "moves (\<not> is_at_end s) s (parse_field_decl s)"
  unfolding parse_field_decl_def
  apply (rule movesI, (rule parser_moves parser_rules | (simp add: parser_ends; fail) | (auto simp: parser_unfold; fail))+)
  done

lemma parse_index_moves [parser_moves]: "moves (check TK_Identifier s) s (parse_index_decl s)"
  unfolding parse_index_decl_def
  apply (rule movesI, (rule parser_moves parser_rules | (simp add: parser_ends; fail) | (auto simp: parser_unfold; fail))+)
  done
section \<open>The blocks return\<close>

lemma branch_moves:
  assumes "\<And>t. moves False t (p t)"
  shows "moves (\<not> is_at_end s) s (branch p put s)"
  unfolding branch_def by (rule movesI, (rule assms parser_moves parser_rules | (simp; fail))+)

lemma braced_moves:
  assumes "\<And>t. moves False t (p t)"
  shows "moves False s (braced a b p s)"
  unfolding braced_def by (rule movesI, (rule assms parser_moves parser_rules | (simp; fail))+)

lemma after_colon_moves:
  assumes "\<And>t. moves False t (p t)"
  shows "moves False s (after_colon a p s)"
  unfolding after_colon_def by (rule movesI, (rule assms parser_moves parser_rules | (simp; fail))+)

lemma decl_frame_moves:
  assumes "\<And>n t. moves False t (body n t)"
  shows "moves (check (KW k) s) s (decl_frame k e w body ranged s)"
  unfolding decl_frame_def by (rule movesI, (rule assms braced_moves parser_moves parser_rules | (simp; fail))+)

lemma item_moves [parser_moves]:
  "moves (\<not> is_at_end s) s (skipping x s)" "moves (check TK_Identifier s) s (an_identifier m s)"
  "moves (check TK_BooleanLiteral s) s (a_boolean m s)" "moves (check TK_IntegerLiteral s) s (an_integer m s)"
  unfolding skipping_def an_identifier_def a_boolean_def an_integer_def
  by (rule movesI, (rule parser_moves parser_rules | (simp; fail))+)+

section \<open>Loops that may hang\<close>

text \<open>The members of an enumeration, the properties of an external system, the children and the indexes
  of an entity may stand still; their loops are entered at a hanging keyword.\<close>

lemma check_may_hang: "check k s \<Longrightarrow> k \<in> set hanging_keywords \<Longrightarrow> valid_state s \<Longrightarrow> may_hang (ps_tokens s)"
  by (auto simp: check_def may_hang_def peek_token_def valid_state_def Let_def split: if_splits)

lemma hanging_block:
  assumes "check k s" and "k \<in> set hanging_keywords" and "may_hang (ps_tokens s) \<Longrightarrow> moves b s r"
  shows "moves b s r"
  using assms check_may_hang by (auto simp: moves_def)

lemma push_loop_may_hang:
  assumes "\<And>t. \<not> check TK_RightBrace t \<Longrightarrow> \<not> is_at_end t \<Longrightarrow> moves False t (p t)" and "may_hang (ps_tokens s)"
  shows "moves False s (push_loop p xs s)"
  unfolding push_loop_def block_loop_def
  by (rule while_loop_may_hang finishes_bind assms parser_rules | (simp; fail))+

lemma check_any_iff: "check_any ks s \<longleftrightarrow> \<not> is_at_end s \<and> tok_kind (peek_token 0 s) \<in> set ks"
  by (auto simp: check_any_def check_def list_ex_iff)

lemma hanging_frame:
  assumes "check (KW k) s" and "KW k \<in> set hanging_keywords"
    and "\<And>n t. may_hang (ps_tokens t) \<Longrightarrow> moves False t (body n t)"
  shows "moves True s (decl_frame k e w body ranged s)"
proof (rule hanging_block [OF assms(1,2)])
  assume h: "may_hang (ps_tokens s)"
  show ?thesis
    unfolding decl_frame_def braced_def
    by (rule movesI, (rule assms(3) parser_moves parser_rules | (simp add: assms(1); fail) | (use h in \<open>auto simp: parser_unfold; fail\<close>))+)
qed

lemmas block_moves = branch_moves braced_moves after_colon_moves decl_frame_moves push_loop_moves

end
