(* ===== verification/Parser_Values.thy ===== *)
theory Parser_Values
  imports Parser_Common
begin

text \<open>
  \<open>src/parser_values.cpp\<close>: the declarations of values, enumerations, events, external systems and
  shapes.
\<close>

definition parse_value_decl :: "parser_state \<Rightarrow> (ValueDecl \<times> parser_state) option" where
  "parse_value_decl s = do {
     let (start, s) = consume (KW ''value'') ''expected value declaration'' s;
     let (name, s) = consume TK_Identifier ''expected value name'' s;
     let (_, s) = consume TK_Colon (''expected '' @ quoted '':'' @ '' after value name'') s;
     (type, s) \<leftarrow> parse_type_name s;
     (con, s) \<leftarrow>
       (if check (KW ''where'') s \<or> at_named ''where'' s then do {
          let s = next_token s;
          (e, s) \<leftarrow> parse_simple_expression_until_boundary s;
          Some (Some e, s) }
        else Some (None, s));
     let s = consume_optional_semicolon s;
     Some (\<lparr>vd_name = tok_lexeme name, vd_type = type, vd_constraint = con, vd_range = range_from start s\<rparr>, s) }"

subsection \<open>Enumerations\<close>

definition member_value_kinds :: "token_kind list" where
  "member_value_kinds = [TK_StringLiteral, TK_IntegerLiteral, TK_DecimalLiteral, TK_BooleanLiteral, TK_Identifier]"

definition parse_enum_value :: "parser_state \<Rightarrow> (token option \<times> parser_state) option" where
  "parse_enum_value s =
     (if check TK_Equals s then do {
        let s = next_token s;
        if check_any member_value_kinds s then do {
          let (v, s) = advance_token s;
          Some (Some v, s) }
        else do {
          let s = parse_error (here s) ''SSPEC0200'' ''expected enum member value'' s;
          Some (None, s) } }
      else Some (None, s))"

definition parse_enum_member :: "parser_state \<Rightarrow> (EnumMemberDecl \<times> parser_state) option" where
  "parse_enum_member s = do {
     let (start, s) = consume TK_Identifier ''expected enum member name'' s;
     (v, s) \<leftarrow> parse_enum_value s;
     let s = consume_optional_semicolon s;
     Some (\<lparr>em_name = tok_lexeme start, em_value = map_option (\<lambda>v. strip_quotes (tok_lexeme v)) v,
            em_value_kind = map_option (\<lambda>v. token_kind_name (tok_kind v)) v, em_range = range_from start s\<rparr>, s) }"

definition parse_enum_decl :: "parser_state \<Rightarrow> (EnumDecl \<times> parser_state) option" where
  "parse_enum_decl = decl_frame ''enum'' ''expected enum declaration'' ''enum''
     (\<lambda>name s. do {
        (ms, s) \<leftarrow> push_loop parse_enum_member [] s;
        Some (new_EnumDecl\<lparr>en_name := name, en_members := ms\<rparr>, s) })
     (\<lambda>r d. d\<lparr>en_range := r\<rparr>)"

subsection \<open>Events and shapes\<close>

definition event_step :: "EventDecl \<Rightarrow> parser_state \<Rightarrow> (EventDecl \<times> parser_state) option" where
  "event_step event s =
     (if check (KW ''fields'') s then do {
        let s = next_token s;
        (fields, s) \<leftarrow> braced ''event fields'' ''event fields block'' (push_loop parse_field_decl (ev_fields event)) s;
        Some (event\<lparr>ev_fields := fields\<rparr>, s) }
      else if check (KW ''annotations'') s then do {
        let s = next_token s;
        s \<leftarrow> skip_balanced_block s;
        Some (event, s) }
      else skipping event s)"

definition parse_event_decl :: "parser_state \<Rightarrow> (EventDecl \<times> parser_state) option" where
  "parse_event_decl = decl_frame ''event'' ''expected event declaration'' ''event''
     (\<lambda>name. block_loop event_step (new_EventDecl\<lparr>ev_name := name\<rparr>)) (\<lambda>r d. d\<lparr>ev_range := r\<rparr>)"

definition parse_shape_decl :: "parser_state \<Rightarrow> (ShapeDecl \<times> parser_state) option" where
  "parse_shape_decl = decl_frame ''shape'' ''expected shape declaration'' ''shape''
     (\<lambda>name s. do {
        (fields, s) \<leftarrow> push_loop parse_field_decl [] s;
        Some (new_ShapeDecl\<lparr>sh_name := name, sh_fields := fields\<rparr>, s) })
     (\<lambda>r d. d\<lparr>sh_range := r\<rparr>)"

subsection \<open>External systems\<close>

definition is_metadata_mapping_path_segment :: "token_kind \<Rightarrow> bool" where
  "is_metadata_mapping_path_segment k \<longleftrightarrow>
     k = TK_Identifier \<or> k = KW ''entity'' \<or> k = KW ''event'' \<or> k = KW ''input'' \<or> k = KW ''workflow''"

abbreviation at_segment :: "parser_state \<Rightarrow> bool" where
  "at_segment s \<equiv> is_metadata_mapping_path_segment (tok_kind (peek_token 0 s))"

text \<open>The loop over the dots of a path; its \<open>break\<close> is the second component of the accumulator.\<close>

definition mapping_path_step :: "string \<times> bool \<Rightarrow> parser_state \<Rightarrow> ((string \<times> bool) \<times> parser_state) option" where
  "mapping_path_step a s = do {
     let s = next_token s;
     if \<not> at_segment s then do {
       let s = parse_error (here s) ''SSPEC0200'' (''expected name after '' @ quoted ''.'') s;
       let s = (if \<not> is_at_end s then next_token s else s);
       Some ((fst a, True), s) }
     else do {
       let (t, s) = advance_token s;
       Some ((fst a @ ''.'' @ tok_lexeme t, False), s) } }"

definition parse_mapping_path :: "string \<Rightarrow> parser_state \<Rightarrow> (string \<times> parser_state) option" where
  "parse_mapping_path context s =
     (if \<not> at_segment s then do {
        let s = parse_error (here s) ''SSPEC0200'' (''expected '' @ context) s;
        let s = (if \<not> is_at_end s then next_token s else s);
        Some ([], s) }
      else do {
        let (t, s) = advance_token s;
        (a, s) \<leftarrow> while_loop (\<lambda>a s. \<not> snd a \<and> check TK_Dot s) mapping_path_step (tok_lexeme t, False) s;
        Some (fst a, s) })"

definition parse_external_system_metadata_mapping_decl ::
  "parser_state \<Rightarrow> (ExternalSystemMetadataMappingDecl \<times> parser_state) option" where
  "parse_external_system_metadata_mapping_decl s0 = do {
     (source, s) \<leftarrow> parse_mapping_path ''metadata mapping source'' s0;
     let (_, s) = consume TK_Arrow (''expected '' @ quoted ''->'' @ '' in metadata mapping'') s;
     (target, s) \<leftarrow> parse_mapping_path ''metadata mapping target'' s;
     let s = consume_optional_semicolon s;
     Some (\<lparr>xm_source = source, xm_target = target, xm_range = range_from (peek_token 0 s0) s\<rparr>, s) }"

definition metadata_step ::
  "ExternalSystemMetadataDecl \<Rightarrow> parser_state \<Rightarrow> (ExternalSystemMetadataDecl \<times> parser_state) option" where
  "metadata_step d s =
     (if check (KW ''entity'') s then
        branch (parse_qualified_name ''external_system metadata entity'') (\<lambda>e. d\<lparr>xd_entity := Some e\<rparr>) s
      else if at_named ''profile_field'' s then
        branch (an_identifier ''expected metadata profile_field'') (\<lambda>f. d\<lparr>xd_profile_field := Some f\<rparr>) s
      else if at_named ''required_fields'' s then
        branch parse_identifier_list (\<lambda>fs. d\<lparr>xd_required_fields := fs\<rparr>) s
      else if at_named ''mappings'' s then do {
        let s = next_token s;
        (ms, s) \<leftarrow> braced ''metadata mappings'' ''metadata mappings block''
           (push_loop parse_external_system_metadata_mapping_decl (xd_mappings d)) s;
        Some (d\<lparr>xd_mappings := ms\<rparr>, s) }
      else do {
        let s = parse_error (here s) ''SSPEC0200'' ''unexpected external_system metadata member'' s;
        let s = next_token s;
        Some (d, s) })"

definition parse_external_system_metadata_decl ::
  "parser_state \<Rightarrow> (ExternalSystemMetadataDecl \<times> parser_state) option" where
  "parse_external_system_metadata_decl s = do {
     let (start, s) = consume TK_Identifier ''expected metadata block'' s;
     (d, s) \<leftarrow> braced ''external_system metadata'' ''external_system metadata block''
        (block_loop metadata_step new_ExternalSystemMetadataDecl) s;
     Some (d\<lparr>xd_range := range_from start s\<rparr>, s) }"

definition parse_property_value :: "parser_state \<Rightarrow> (token option \<times> parser_state) option" where
  "parse_property_value s =
     (if check_any (literal_kinds @ [TK_Identifier]) s then do {
        let (v, s) = advance_token s;
        Some (Some v, s) }
      else do {
        let s = parse_error (here s) ''SSPEC0200'' ''expected external_system property value'' s;
        Some (None, s) })"

definition parse_external_system_property ::
  "ExternalSystemDecl \<Rightarrow> parser_state \<Rightarrow> (ExternalSystemDecl \<times> parser_state) option" where
  "parse_external_system_property d s = do {
     let (start, s) = consume TK_Identifier ''expected external_system property'' s;
     let (_, s) = consume TK_Colon (''expected '' @ quoted '':'' @ '' after external_system property'') s;
     (v, s) \<leftarrow> parse_property_value s;
     let s = consume_optional_semicolon s;
     Some (d\<lparr>xs_properties := xs_properties d @
         [\<lparr>xp_name = tok_lexeme start,
           xp_value = (case v of None \<Rightarrow> [] | Some v \<Rightarrow> strip_quotes (tok_lexeme v)),
           xp_value_kind = map_option (\<lambda>v. token_kind_name (tok_kind v)) v,
           xp_range = range_from start s\<rparr>]\<rparr>, s) }"

definition external_system_step ::
  "ExternalSystemDecl \<Rightarrow> parser_state \<Rightarrow> (ExternalSystemDecl \<times> parser_state) option" where
  "external_system_step d s =
     (if check (KW ''annotations'') s then do {
        let s = next_token s;
        s \<leftarrow> skip_balanced_block s;
        Some (d, s) }
      else if at_named ''metadata'' s then do {
        (metadata, s) \<leftarrow> parse_external_system_metadata_decl s;
        if xs_metadata d \<noteq> None then do {
          let s = parse_error (xd_range metadata) ''SSPEC0200'' ''duplicate external_system metadata block'' s;
          Some (d, s) }
        else Some (d\<lparr>xs_metadata := Some metadata\<rparr>, s) }
      else parse_external_system_property d s)"

definition parse_external_system_decl :: "parser_state \<Rightarrow> (ExternalSystemDecl \<times> parser_state) option" where
  "parse_external_system_decl =
     decl_frame ''external_system'' ''expected external_system declaration'' ''external_system''
       (\<lambda>name. block_loop external_system_step (new_ExternalSystemDecl\<lparr>xs_name := name\<rparr>)) (\<lambda>r d. d\<lparr>xs_range := r\<rparr>)"


section \<open>They return\<close>

lemma value_moves [parser_moves]: "moves (check (KW ''value'') s) s (parse_value_decl s)"
  unfolding parse_value_decl_def
  by (rule movesI, (rule parser_moves parser_rules | (simp add: parser_ends; fail) | (auto simp: parser_unfold; fail))+)


lemma optional_value_moves [parser_moves]:
  "moves (check TK_Equals s) s (parse_enum_value s)"
  "moves (check_any (literal_kinds @ [TK_Identifier]) s) s (parse_property_value s)"
  unfolding parse_enum_value_def parse_property_value_def
  by (rule movesI, (rule parser_moves block_moves parser_rules | (simp add: parser_ends; fail) | (auto simp: parser_unfold; fail))+)+

text \<open>A member goes ahead exactly from these tokens.\<close>

lemma enum_member_moves [parser_moves]:
  "moves (check_any [TK_Identifier, TK_Equals, TK_Semicolon] s) s (parse_enum_member s)"
  unfolding parse_enum_member_def
  by (rule movesI, (rule parser_moves parser_rules | (simp add: parser_ends; fail) | (auto simp: parser_unfold check_any_iff; fail))+)

lemma external_property_moves:
  "moves (check_any (literal_kinds @ [TK_Identifier, TK_Colon, TK_Semicolon]) s) s (parse_external_system_property d s)"
  unfolding parse_external_system_property_def
  by (rule movesI, (rule parser_moves parser_rules | (simp add: parser_ends; fail) | (auto simp: parser_unfold check_any_iff; fail))+)

lemma event_step_moves [parser_moves]: "moves (\<not> is_at_end s) s (event_step d s)"
  unfolding event_step_def
  by (rule movesI, (rule parser_moves block_moves parser_rules | (simp add: parser_ends; fail) | (auto simp: parser_unfold; fail))+)

lemma mapping_path_step_moves [parser_moves]: "moves (\<not> is_at_end s) s (mapping_path_step a s)"
  unfolding mapping_path_step_def
  by (rule movesI, (rule parser_moves block_moves parser_rules | (simp add: parser_ends; fail) | (auto simp: parser_unfold; fail))+)

lemma mapping_path_moves [parser_moves]: "moves (\<not> is_at_end s) s (parse_mapping_path context s)"
  unfolding parse_mapping_path_def
  by (rule movesI, (rule parser_moves block_moves parser_rules | (simp add: parser_ends; fail) | (auto simp: parser_unfold; fail))+)

lemma mapping_moves [parser_moves]: "moves (\<not> is_at_end s) s (parse_external_system_metadata_mapping_decl s)"
  unfolding parse_external_system_metadata_mapping_decl_def
  by (rule movesI, (rule parser_moves block_moves parser_rules | (simp add: parser_ends; fail) | (auto simp: parser_unfold; fail))+)

lemma metadata_step_moves [parser_moves]: "moves (\<not> is_at_end s) s (metadata_step d s)"
  unfolding metadata_step_def
  by (rule movesI, (rule parser_moves block_moves parser_rules | (simp add: parser_ends; fail) | (auto simp: parser_unfold; fail))+)

lemma metadata_moves [parser_moves]:
  "moves (check TK_Identifier s) s (parse_external_system_metadata_decl s)"
  unfolding parse_external_system_metadata_decl_def
  by (rule movesI, (rule parser_moves block_moves parser_rules | (simp add: parser_ends; fail) | (auto simp: parser_unfold; fail))+)

lemma external_system_step_moves [parser_moves]: "moves False s (external_system_step d s)"
  unfolding external_system_step_def
  by (rule movesI, (rule external_property_moves parser_moves parser_rules | (simp add: parser_ends; fail) | (auto simp: parser_unfold; fail))+)

lemma event_shape_moves [parser_moves]:
  "moves (check (KW ''event'') s) s (parse_event_decl s)"
  "moves (check (KW ''shape'') s) s (parse_shape_decl s)"
  unfolding parse_event_decl_def parse_shape_decl_def
  by (rule movesI, (rule parser_moves block_moves parser_rules | (simp add: parser_ends; fail) | (auto simp: parser_unfold; fail))+)+


lemma enum_moves [parser_moves]: "check (KW ''enum'') s \<Longrightarrow> moves True s (parse_enum_decl s)"
  unfolding parse_enum_decl_def
  by (rule hanging_frame, assumption, simp add: hanging_keywords_def)
    (rule push_loop_may_hang parser_moves parser_rules | (simp add: parser_ends; fail) | (auto simp: parser_unfold; fail))+

lemma external_system_moves [parser_moves]:
  "check (KW ''external_system'') s \<Longrightarrow> moves True s (parse_external_system_decl s)"
  unfolding block_loop_def parse_external_system_decl_def
  by (rule hanging_frame, assumption, simp add: hanging_keywords_def)
    (rule while_loop_may_hang parser_moves parser_rules | (simp add: parser_ends; fail) | (auto simp: parser_unfold; fail))+

end
