(* ===== verification/Parser_Entities.thy ===== *)
theory Parser_Entities
  imports Parser_Values
begin

text \<open>
  \<open>src/parser_state_machine.cpp\<close> and \<open>src/parser_entities.cpp\<close>: entities and what they are made of.
\<close>

section \<open>State machines\<close>

definition garbage_collection_step ::
  "GarbageCollectionPolicyDecl \<Rightarrow> parser_state \<Rightarrow> (GarbageCollectionPolicyDecl \<times> parser_state) option" where
  "garbage_collection_step d s =
     (if at_named ''after'' s then
        branch (after_colon ''garbage_collection.after'' (parse_simple_value ''garbage_collection.after''))
          (\<lambda>v. d\<lparr>gc_after := Some v\<rparr>) s
      else if at_named ''mode'' s then
        branch (after_colon ''garbage_collection.mode'' (parse_simple_value ''garbage_collection.mode''))
          (\<lambda>v. d\<lparr>gc_mode := Some v\<rparr>) s
      else skipping d s)"

definition parse_garbage_collection_policy_decl ::
  "parser_state \<Rightarrow> (GarbageCollectionPolicyDecl \<times> parser_state) option" where
  "parse_garbage_collection_policy_decl s = do {
     let (start, s) = consume TK_Identifier ''expected garbage_collection block'' s;
     (d, s) \<leftarrow> braced ''garbage_collection'' ''garbage_collection block''
        (block_loop garbage_collection_step new_GarbageCollectionPolicyDecl) s;
     Some (d\<lparr>gc_range := range_from start s\<rparr>, s) }"

definition state_step :: "StateDecl \<Rightarrow> parser_state \<Rightarrow> (StateDecl \<times> parser_state) option" where
  "state_step d s =
     (if check (KW ''terminal'') s then
        branch (after_colon ''terminal'' (a_boolean ''expected terminal boolean'')) (\<lambda>b. d\<lparr>sd_terminal := b\<rparr>) s
      else if at_named ''garbage_collection'' s then do {
        (policy, s) \<leftarrow> parse_garbage_collection_policy_decl s;
        Some (if sd_garbage_collection d \<noteq> None
              then d\<lparr>sd_duplicate_garbage_collection_range := Some (gc_range policy)\<rparr>
              else d\<lparr>sd_garbage_collection := Some policy\<rparr>, s) }
      else skipping d s)"

definition parse_state_decl :: "parser_state \<Rightarrow> (StateDecl \<times> parser_state) option" where
  "parse_state_decl s = do {
     let (name, s) = consume TK_Identifier ''expected state name'' s;
     (d, s) \<leftarrow>
       (if check TK_LeftBrace s then do {
          let s = next_token s;
          (d, s) \<leftarrow> block_loop state_step (new_StateDecl\<lparr>sd_name := tok_lexeme name, sd_range := tok_range name\<rparr>) s;
          let (_, s) = consume TK_RightBrace (''expected '' @ quoted ''}'' @ '' after state options'') s;
          Some (d\<lparr>sd_range := range_from name s\<rparr>, s) }
        else Some (new_StateDecl\<lparr>sd_name := tok_lexeme name, sd_range := tok_range name\<rparr>, s));
     let s = consume_optional_semicolon s;
     Some (d, s) }"

definition parse_transition :: "parser_state \<Rightarrow> (TransitionDecl \<times> parser_state) option" where
  "parse_transition s = do {
     let (from_state, s) = advance_token s;
     let s = next_token s;
     let (to_state, s) = consume TK_Identifier ''expected transition target state'' s;
     s \<leftarrow> (if check TK_LeftBrace s then skip_balanced_block s else Some s);
     let s = consume_optional_semicolon s;
     Some (\<lparr>td_from = tok_lexeme from_state, td_to = tok_lexeme to_state,
            td_range = \<lparr>sr_begin = sr_begin (tok_range from_state), sr_end = sr_end (tok_range to_state)\<rparr>\<rparr>, s) }"

definition terminal_states :: "StateMachineDecl \<Rightarrow> parser_state \<Rightarrow> (string list \<times> parser_state) option" where
  "terminal_states d s =
     (if check TK_LeftBracket s then parse_identifier_list s
      else do {
        (t, s) \<leftarrow> an_identifier ''expected terminal state'' s;
        Some (sm_terminal_states d @ [t], s) })"

definition state_machine_step ::
  "StateMachineDecl \<Rightarrow> parser_state \<Rightarrow> (StateMachineDecl \<times> parser_state) option" where
  "state_machine_step d s =
     (if check (KW ''state'') s then do {
        let s = next_token s;
        (x, s) \<leftarrow> parse_state_decl s;
        Some (d\<lparr>sm_states := sm_states d @ [x]\<rparr>, s) }
      else if check (KW ''initial'') s then
        branch (an_identifier ''expected initial state'') (\<lambda>i. d\<lparr>sm_initial_state := Some i\<rparr>) s
      else if check (KW ''terminal'') s then
        branch (terminal_states d) (\<lambda>ts. d\<lparr>sm_terminal_states := ts\<rparr>) s
      else if check TK_Identifier s \<and> tok_kind (peek_token 1 s) = TK_Arrow then do {
        (t, s) \<leftarrow> parse_transition s;
        Some (d\<lparr>sm_transitions := sm_transitions d @ [t]\<rparr>, s) }
      else skipping d s)"

definition parse_state_machine_decl :: "parser_state \<Rightarrow> (StateMachineDecl \<times> parser_state) option" where
  "parse_state_machine_decl s = do {
     let (start, s) = consume (KW ''state_machine'') ''expected state_machine block'' s;
     (d, s) \<leftarrow> braced ''state_machine'' ''state_machine block'' (block_loop state_machine_step new_StateMachineDecl) s;
     Some (d\<lparr>sm_range := range_from start s\<rparr>, s) }"

section \<open>Ownership, relations, children, invariants\<close>

definition ownership_authority :: "OwnershipDecl \<Rightarrow> parser_state \<Rightarrow> (OwnershipDecl \<times> parser_state) option" where
  "ownership_authority d s = do {
     let (_, s) = consume TK_Colon (''expected '' @ quoted '':'' @ '' after authority'') s;
     if check (KW ''system'') s \<or> check TK_Identifier s then do {
       let s = next_token s;
       Some (d\<lparr>ow_authority := Some (tok_lexeme (previous s))\<rparr>, s) }
     else do {
       let s = parse_error (here s) ''SSPEC0200'' ''expected ownership authority'' s;
       Some (d, s) } }"

definition ownership_step :: "OwnershipDecl \<Rightarrow> parser_state \<Rightarrow> (OwnershipDecl \<times> parser_state) option" where
  "ownership_step d s =
     (if check (KW ''authority'') s then branch (ownership_authority d) (\<lambda>d. d) s
      else if check (KW ''system_of_record'') s then
        branch (after_colon ''system_of_record'' (parse_qualified_name ''system_of_record''))
          (\<lambda>n. d\<lparr>ow_system_of_record := Some n\<rparr>) s
      else if check (KW ''lifecycle'') s then
        branch (after_colon ''lifecycle'' (an_identifier ''expected lifecycle mode'')) (\<lambda>m. d\<lparr>ow_lifecycle := Some m\<rparr>) s
      else skipping d s)"

definition parse_ownership_decl :: "parser_state \<Rightarrow> (OwnershipDecl \<times> parser_state) option" where
  "parse_ownership_decl s = do {
     let (start, s) = consume (KW ''ownership'') ''expected ownership'' s;
     (d, s) \<leftarrow> braced ''ownership'' ''ownership block'' (block_loop ownership_step new_OwnershipDecl) s;
     Some (d\<lparr>ow_range := range_from start s\<rparr>, s) }"

definition relation_step :: "RelationDecl \<Rightarrow> parser_state \<Rightarrow> (RelationDecl \<times> parser_state) option" where
  "relation_step d s =
     (if at_named ''kind'' s then
        branch (after_colon ''relation kind'' (an_identifier ''expected relation kind'')) (\<lambda>k. d\<lparr>re_relation_kind := Some k\<rparr>) s
      else if at_named ''on_parent_delete'' s then
        branch (after_colon ''on_parent_delete'' (an_identifier ''expected parent delete behavior''))
          (\<lambda>b. d\<lparr>re_on_parent_delete := Some b\<rparr>) s
      else if at_named ''parent_must_be_in'' s then
        branch (after_colon ''parent_must_be_in'' parse_identifier_list) (\<lambda>xs. d\<lparr>re_parent_must_be_in := xs\<rparr>) s
      else if at_named ''unique_within_parent'' s then
        branch (after_colon ''unique_within_parent'' parse_identifier_list) (\<lambda>xs. d\<lparr>re_unique_within_parent := xs\<rparr>) s
      else skipping d s)"

text \<open>A relation after its first word.\<close>

definition relation_options :: "RelationDecl \<Rightarrow> parser_state \<Rightarrow> (RelationDecl \<times> parser_state) option" where
  "relation_options d s =
     (if check TK_LeftBrace s then do {
        let s = next_token s;
        (d, s) \<leftarrow> block_loop relation_step d s;
        let (_, s) = consume TK_RightBrace (''expected '' @ quoted ''}'' @ '' after relation options'') s;
        Some (d, s) }
      else Some (d, s))"

definition relation_rest :: "string \<Rightarrow> parser_state \<Rightarrow> (RelationDecl \<times> parser_state) option" where
  "relation_rest kind s = do {
     let (name, s) = consume TK_Identifier ''expected relation name'' s;
     let (_, s) = consume TK_Colon (''expected '' @ quoted '':'' @ '' after relation name'') s;
     let (opt, s) = (if kind = ''parent'' then match_token (KW ''optional'') s else (False, s));
     (target, s) \<leftarrow> parse_type_name s;
     let (question, s) = match_token TK_Question s;
     (d, s) \<leftarrow> relation_options
       (new_RelationDecl\<lparr>re_kind := kind, re_name := tok_lexeme name,
          re_target := (if question then target @ ''?'' else target),
          re_optional := (opt \<or> (target \<noteq> [] \<and> last target = CHR ''?'') \<or> question)\<rparr>) s;
     let s = consume_optional_semicolon s;
     Some (d, s) }"

definition parse_relation_decl :: "parser_state \<Rightarrow> (RelationDecl \<times> parser_state) option" where
  "parse_relation_decl s = do {
     let (start, s) = advance_token s;
     if tok_kind start = KW ''parent'' \<or> tok_kind start = KW ''ref'' then do {
       (d, s) \<leftarrow> relation_rest (if tok_kind start = KW ''parent'' then ''parent'' else ''ref'') s;
       Some (d\<lparr>re_range := range_from start s\<rparr>, s) }
     else do {
       let s = parse_error (tok_range start) ''SSPEC0200'' ''expected relation declaration'' s;
       s \<leftarrow> synchronize_to_member_boundary s;
       Some (new_RelationDecl\<lparr>re_range := tok_range start\<rparr>, s) } }"

definition parse_child_decl :: "parser_state \<Rightarrow> (ChildDecl \<times> parser_state) option" where
  "parse_child_decl s = do {
     let (start, s) = consume TK_Identifier ''expected child collection name'' s;
     let (_, s) = consume TK_Colon (''expected '' @ quoted '':'' @ '' after child collection name'') s;
     (target, s) \<leftarrow> parse_qualified_name ''child entity'' s;
     let (by_token, s) = consume TK_Identifier ''expected by in child collection'' s;
     let s = (if tok_lexeme by_token \<noteq> ''by''
              then parse_error (tok_range by_token) ''SSPEC0200'' ''expected by in child collection'' s else s);
     let (relation, s) = consume TK_Identifier ''expected child relation name'' s;
     let s = consume_optional_semicolon s;
     Some (\<lparr>ch_name = tok_lexeme start, ch_target_entity = target, ch_relation = tok_lexeme relation,
            ch_range = range_from start s\<rparr>, s) }"

definition parse_invariant_decl :: "parser_state \<Rightarrow> (InvariantDecl \<times> parser_state) option" where
  "parse_invariant_decl s = do {
     let (start, s) = consume TK_Identifier ''expected invariant name'' s;
     let (_, s) = consume TK_Colon (''expected '' @ quoted '':'' @ '' after invariant name'') s;
     (e, s) \<leftarrow> parse_simple_expression_until_boundary s;
     let s = consume_optional_semicolon s;
     Some (\<lparr>iv_name = tok_lexeme start, iv_expression = e, iv_range = range_from start s\<rparr>, s) }"

section \<open>Entity APIs\<close>

definition is_entity_api_member_identifier :: "token \<Rightarrow> bool" where
  "is_entity_api_member_identifier t \<longleftrightarrow>
     list_ex (is_named_identifier t) [''resource'', ''get'', ''list'', ''update_status'', ''delete'']"

definition can_parse_entity_api_override_name :: "token \<Rightarrow> bool" where
  "can_parse_entity_api_override_name t \<longleftrightarrow> tok_kind t = TK_Identifier \<and> \<not> is_entity_api_member_identifier t"

definition override_name :: "parser_state \<Rightarrow> (string option \<times> parser_state) option" where
  "override_name s =
     (if can_parse_entity_api_override_name (peek_token 0 s)
      then do { let (t, s) = advance_token s; Some (Some (tok_lexeme t), s) }
      else Some (None, s))"

definition entity_api_create_step ::
  "EntityApiCreateDecl \<Rightarrow> parser_state \<Rightarrow> (EntityApiCreateDecl \<times> parser_state) option" where
  "entity_api_create_step d s =
     (if check (KW ''fields'') s then branch parse_identifier_list (\<lambda>fs. d\<lparr>ac_fields := fs\<rparr>) s
      else skipping d s)"

definition parse_entity_api_create_decl :: "parser_state \<Rightarrow> (EntityApiCreateDecl \<times> parser_state) option" where
  "parse_entity_api_create_decl s = do {
     let (start, s) = consume (KW ''create'') ''expected create'' s;
     (name, s) \<leftarrow> override_name s;
     (d, s) \<leftarrow>
       (if check TK_LeftBrace s then do {
          let s = next_token s;
          (d, s) \<leftarrow> block_loop entity_api_create_step (new_EntityApiCreateDecl\<lparr>ac_name := name\<rparr>) s;
          let (_, s) = consume TK_RightBrace (''expected '' @ quoted ''}'' @ '' after create block'') s;
          Some (d, s) }
        else Some (new_EntityApiCreateDecl\<lparr>ac_name := name\<rparr>, s));
     let s = consume_optional_semicolon s;
     Some (d\<lparr>ac_range := range_from start s\<rparr>, s) }"

definition parse_entity_api_operation_decl ::
  "string \<Rightarrow> parser_state \<Rightarrow> (EntityApiOperationDecl \<times> parser_state) option" where
  "parse_entity_api_operation_decl operation s = do {
     let (start, s) = consume TK_Identifier ''expected entity api operation'' s;
     let s = (if tok_lexeme start \<noteq> operation
              then parse_error (tok_range start) ''SSPEC0200'' ''expected entity api operation'' s else s);
     (name, s) \<leftarrow> override_name s;
     let s = consume_optional_semicolon s;
     Some (new_EntityApiOperationDecl\<lparr>ao_name := name, ao_range := range_from start s\<rparr>, s) }"

definition entity_api_list_step ::
  "EntityApiListDecl \<Rightarrow> parser_state \<Rightarrow> (EntityApiListDecl \<times> parser_state) option" where
  "entity_api_list_step d s =
     (if check (KW ''path'') s then
        branch (parse_simple_value ''entity API list path'') (\<lambda>p. d\<lparr>al_path := Some p\<rparr>) s
      else if at_named ''by'' s then branch parse_identifier_list (\<lambda>xs. d\<lparr>al_by := xs\<rparr>) s
      else skipping d s)"

definition parse_entity_api_list_decl :: "parser_state \<Rightarrow> (EntityApiListDecl \<times> parser_state) option" where
  "parse_entity_api_list_decl s = do {
     let (start, s) = consume TK_Identifier ''expected list declaration'' s;
     (name, s) \<leftarrow> override_name s;
     (d, s) \<leftarrow> braced ''list declaration'' ''list block''
        (block_loop entity_api_list_step (new_EntityApiListDecl\<lparr>al_name := name\<rparr>)) s;
     Some (d\<lparr>al_range := range_from start s\<rparr>, s) }"

definition entity_api_step :: "EntityApiDecl \<Rightarrow> parser_state \<Rightarrow> (EntityApiDecl \<times> parser_state) option" where
  "entity_api_step d s =
     (if at_named ''resource'' s then
        branch (parse_simple_value ''entity API resource path'') (\<lambda>p. d\<lparr>ea_resource := Some p\<rparr>) s
      else if check (KW ''create'') s then do {
        (x, s) \<leftarrow> parse_entity_api_create_decl s;
        Some (d\<lparr>ea_create := Some x\<rparr>, s) }
      else if at_named ''get'' s then do {
        (x, s) \<leftarrow> parse_entity_api_operation_decl ''get'' s;
        Some (d\<lparr>ea_get := Some x\<rparr>, s) }
      else if at_named ''list'' s then do {
        (x, s) \<leftarrow> parse_entity_api_list_decl s;
        Some (d\<lparr>ea_lists := ea_lists d @ [x]\<rparr>, s) }
      else if at_named ''update_status'' s then do {
        (x, s) \<leftarrow> parse_entity_api_operation_decl ''update_status'' s;
        Some (d\<lparr>ea_update_status := Some x\<rparr>, s) }
      else if at_named ''delete'' s then do {
        (x, s) \<leftarrow> parse_entity_api_operation_decl ''delete'' s;
        Some (d\<lparr>ea_delete := Some x\<rparr>, s) }
      else skipping d s)"

definition parse_entity_api_decl :: "parser_state \<Rightarrow> (EntityApiDecl \<times> parser_state) option" where
  "parse_entity_api_decl s = do {
     let (start, s) = consume (KW ''api'') ''expected entity api block'' s;
     (d, s) \<leftarrow> braced ''entity api'' ''entity api block'' (block_loop entity_api_step new_EntityApiDecl) s;
     Some (d\<lparr>ea_range := range_from start s\<rparr>, s) }"

section \<open>Entities\<close>

text \<open>A section of an entity: its word, noted in the order of the members, and a braced list.\<close>

definition in_order :: "string \<Rightarrow> source_range \<Rightarrow> EntityDecl \<Rightarrow> EntityDecl" where
  "in_order kind r d = d\<lparr>et_member_order := et_member_order d @ [member kind r]\<rparr>"

definition entity_section ::
  "string \<Rightarrow> (parser_state \<Rightarrow> ('a \<times> parser_state) option) \<Rightarrow> 'a list \<Rightarrow> ('a list \<Rightarrow> EntityDecl \<Rightarrow> EntityDecl) \<Rightarrow>
   EntityDecl \<Rightarrow> parser_state \<Rightarrow> (EntityDecl \<times> parser_state) option" where
  "entity_section word p xs put d s = do {
     let (start, s) = advance_token s;
     (xs, s) \<leftarrow> braced word (word @ '' block'') (push_loop p xs) s;
     Some (put xs (in_order word (tok_range start) d), s) }"

definition entity_step :: "EntityDecl \<Rightarrow> parser_state \<Rightarrow> (EntityDecl \<times> parser_state) option" where
  "entity_step d s =
     (if check (KW ''key'') s then
        branch parse_identifier_list (\<lambda>ks. (in_order ''key'' (here s) d)\<lparr>et_key_fields := ks\<rparr>) s
      else if check (KW ''fields'') s then
        entity_section ''fields'' parse_field_decl (et_fields d) (\<lambda>xs d. d\<lparr>et_fields := xs\<rparr>) d s
      else if check (KW ''state_machine'') s then do {
        (x, s) \<leftarrow> parse_state_machine_decl s;
        Some (in_order ''state_machine'' (sm_range x) (d\<lparr>et_state_machine := Some x\<rparr>), s) }
      else if check (KW ''ownership'') s then do {
        (x, s) \<leftarrow> parse_ownership_decl s;
        Some (in_order ''ownership'' (ow_range x) (d\<lparr>et_ownership := Some x\<rparr>), s) }
      else if check (KW ''relations'') s then
        entity_section ''relations'' parse_relation_decl (et_relations d) (\<lambda>xs d. d\<lparr>et_relations := xs\<rparr>) d s
      else if check (KW ''children'') s then
        entity_section ''children'' parse_child_decl (et_children d) (\<lambda>xs d. d\<lparr>et_children := xs\<rparr>) d s
      else if check (KW ''invariants'') s then
        entity_section ''invariants'' parse_invariant_decl (et_invariants d) (\<lambda>xs d. d\<lparr>et_invariants := xs\<rparr>) d s
      else if check (KW ''indexes'') s then
        entity_section ''indexes'' parse_index_decl (et_indexes d) (\<lambda>xs d. d\<lparr>et_indexes := xs\<rparr>) d s
      else if check (KW ''api'') s then do {
        (x, s) \<leftarrow> parse_entity_api_decl s;
        Some (in_order ''api'' (ea_range x) (d\<lparr>et_api := Some x\<rparr>), s) }
      else skipping d s)"

definition parse_entity_decl :: "parser_state \<Rightarrow> (EntityDecl \<times> parser_state) option" where
  "parse_entity_decl = decl_frame ''entity'' ''expected entity declaration'' ''entity''
     (\<lambda>name. block_loop entity_step (new_EntityDecl\<lparr>et_name := name\<rparr>)) (\<lambda>r d. d\<lparr>et_range := r\<rparr>)"


section \<open>They return\<close>

lemma moves_pair_if [parser_moves]:
  "(c \<Longrightarrow> moves_pair b s r) \<Longrightarrow> (\<not> c \<Longrightarrow> moves_pair b' s r') \<Longrightarrow>
   moves_pair (c \<and> b \<or> \<not> c \<and> b') s (if c then r else r')"
  by simp

lemma moves_pair_refl [parser_moves]: "moves_pair False s (x, s)"
  by (auto simp: moves_pair_def)

lemma garbage_collection_step_moves [parser_moves]: "moves (\<not> is_at_end s) s (garbage_collection_step d s)"
  unfolding garbage_collection_step_def
  by (rule movesI, (rule parser_moves block_moves parser_rules | (simp add: parser_ends; fail) | (auto simp: parser_unfold; fail))+)

lemma garbage_collection_moves [parser_moves]:
  "moves (check TK_Identifier s) s (parse_garbage_collection_policy_decl s)"
  unfolding parse_garbage_collection_policy_decl_def
  by (rule movesI, (rule parser_moves block_moves parser_rules | (simp add: parser_ends; fail) | (auto simp: parser_unfold; fail))+)

lemma named_check: "at_named n s \<Longrightarrow> check TK_Identifier s"
  by (auto simp: is_named_identifier_def check_def is_at_end_def)

lemma state_step_moves [parser_moves]: "moves (\<not> is_at_end s) s (state_step d s)"
  unfolding state_step_def
  by (rule movesI, (rule parser_moves block_moves parser_rules | (simp add: parser_ends named_check; fail) | (auto simp: parser_unfold; fail))+)

lemma state_moves [parser_moves]: "moves (check TK_Identifier s) s (parse_state_decl s)"
  unfolding parse_state_decl_def
  by (rule movesI, (rule parser_moves block_moves parser_rules | (simp add: parser_ends; fail) | (auto simp: parser_unfold; fail))+)

lemma state_machine_part_moves [parser_moves]:
  "moves (\<not> is_at_end s) s (parse_transition s)" "moves False s (terminal_states d s)"
  unfolding parse_transition_def terminal_states_def
  by (rule movesI, (rule parser_moves block_moves parser_rules | (simp add: parser_ends; fail) | (auto simp: parser_unfold; fail))+)+

lemma state_machine_step_moves [parser_moves]: "moves (\<not> is_at_end s) s (state_machine_step d s)"
  unfolding state_machine_step_def
  by (rule movesI, (rule parser_moves block_moves parser_rules | (simp add: parser_ends; fail) | (auto simp: parser_unfold; fail))+)

lemma state_machine_moves [parser_moves]: "moves (check (KW ''state_machine'') s) s (parse_state_machine_decl s)"
  unfolding parse_state_machine_decl_def
  by (rule movesI, (rule parser_moves block_moves parser_rules | (simp add: parser_ends; fail) | (auto simp: parser_unfold; fail))+)

lemma ownership_step_moves [parser_moves]:
  "moves False s (ownership_authority d s)"
  unfolding ownership_authority_def
  by (rule movesI, (rule parser_moves block_moves parser_rules | (simp add: parser_ends; fail) | (auto simp: parser_unfold; fail))+)

lemma entity_part_step_moves [parser_moves]:
  "moves (\<not> is_at_end s) s (ownership_step w s)" "moves (\<not> is_at_end s) s (relation_step r s)"
  "moves (\<not> is_at_end s) s (entity_api_create_step c s)" "moves (\<not> is_at_end s) s (entity_api_list_step l s)"
  "moves False s (override_name s)"
  unfolding ownership_step_def relation_step_def entity_api_create_step_def entity_api_list_step_def override_name_def
  by (rule movesI, (rule parser_moves block_moves parser_rules | (simp add: parser_ends; fail) | (auto simp: parser_unfold; fail))+)+

lemma relation_part_moves [parser_moves]:
  "moves False s (relation_options d s)"
  unfolding relation_options_def
  by (rule movesI, (rule parser_moves block_moves parser_rules | (simp add: parser_ends; fail) | (auto simp: parser_unfold; fail))+)+

lemma relation_rest_moves [parser_moves]: "moves False s (relation_rest k s)"
  unfolding relation_rest_def
  by (rule movesI, (rule parser_moves block_moves parser_rules | (simp add: parser_ends; fail) | (auto simp: parser_unfold; fail))+)+

lemma relation_moves [parser_moves]: "moves (\<not> is_at_end s) s (parse_relation_decl s)"
  unfolding parse_relation_decl_def
  by (rule movesI, (rule parser_moves block_moves parser_rules | (simp add: parser_ends; fail) | (auto simp: parser_unfold; fail))+)

text \<open>A child and an index go ahead from these tokens at least.\<close>

lemma child_moves [parser_moves]: "moves (check TK_Identifier s) s (parse_child_decl s)"
  unfolding parse_child_decl_def
  by (rule movesI, (rule parser_moves block_moves parser_rules | (simp add: parser_ends; fail) | (auto simp: parser_unfold; fail))+)

lemma invariant_moves [parser_moves]:
  "moves (\<not> check TK_RightBrace s \<and> \<not> is_at_end s) s (parse_invariant_decl s)"
  unfolding parse_invariant_decl_def
  by (rule movesI, (rule parser_moves block_moves parser_rules | (simp add: parser_ends; fail) |
      (auto simp: parser_unfold at_boundary_def; fail))+)

lemma entity_api_part_moves [parser_moves]:
  "moves (check (KW ''create'') s) s (parse_entity_api_create_decl s)"
  "moves (check TK_Identifier s) s (parse_entity_api_operation_decl n s)"
  "moves (check TK_Identifier s) s (parse_entity_api_list_decl s)"
  unfolding parse_entity_api_create_decl_def parse_entity_api_operation_decl_def parse_entity_api_list_decl_def
  by (rule movesI, (rule parser_moves block_moves parser_rules | (simp add: parser_ends; fail) | (auto simp: parser_unfold; fail))+)+

lemma entity_api_step_moves [parser_moves]: "moves (\<not> is_at_end s) s (entity_api_step d s)"
  unfolding entity_api_step_def
  by (rule movesI, (rule parser_moves block_moves parser_rules | (simp add: parser_ends named_check; fail) | (auto simp: parser_unfold; fail))+)

lemma entity_block_moves [parser_moves]:
  "moves (check (KW ''api'') s) s (parse_entity_api_decl s)"
  "moves (check (KW ''ownership'') s) s (parse_ownership_decl s)"
  unfolding parse_entity_api_decl_def parse_ownership_decl_def
  by (rule movesI, (rule parser_moves block_moves parser_rules | (simp add: parser_ends; fail) | (auto simp: parser_unfold; fail))+)+

lemma entity_section_moves:
  assumes "\<And>t. \<not> check TK_RightBrace t \<Longrightarrow> \<not> is_at_end t \<Longrightarrow> moves True t (p t)"
  shows "moves (\<not> is_at_end s) s (entity_section w p xs put d s)"
  unfolding entity_section_def
  by (rule movesI, (rule assms parser_moves block_moves parser_rules | (simp; fail))+)

lemma entity_section_may_hang:
  assumes "\<And>t. moves False t (p t)" and "check (KW w) s" and "KW w \<in> set hanging_keywords"
  shows "moves True s (entity_section w p xs put d s)"
proof (rule hanging_block [OF assms(2,3)])
  assume h: "may_hang (ps_tokens s)"
  show ?thesis
    unfolding entity_section_def braced_def
    by (rule movesI, (rule push_loop_may_hang assms(1) parser_moves parser_rules | (simp add: check_not_end [OF assms(2)]; fail) |
        (use h in \<open>auto simp: parser_unfold; fail\<close>))+)
qed

lemma entity_hanging_sections [parser_moves]:
  "check (KW ''children'') s \<Longrightarrow> moves True s (entity_section ''children'' parse_child_decl xs put d s)"
  "check (KW ''indexes'') s \<Longrightarrow> moves True s (entity_section ''indexes'' parse_index_decl ys put' d s)"
  by (rule entity_section_may_hang, (rule parser_moves moves_False_I finishes_tail | assumption | (simp add: hanging_keywords_def; fail))+)+

lemma entity_step_moves [parser_moves]: "moves (\<not> is_at_end s) s (entity_step d s)"
  unfolding entity_step_def
  by (rule movesI, (rule parser_moves entity_section_moves block_moves parser_rules | (simp add: parser_ends; fail) | (auto simp: parser_unfold; fail))+)

lemma entity_moves [parser_moves]: "moves (check (KW ''entity'') s) s (parse_entity_decl s)"
  unfolding parse_entity_decl_def
  by (rule parser_moves block_moves parser_rules | (simp add: parser_ends; fail) | (auto simp: parser_unfold; fail))+

end
