(* ===== verification/Parser_Runtime.thy ===== *)
theory Parser_Runtime
  imports Parser_Entities
begin

text \<open>
  \<open>src/parser_observability.cpp\<close>, \<open>src/parser_runtime.cpp\<close> and \<open>src/parser_apis.cpp\<close>: feature flags,
  logs, metrics, queues, leases, workers, API servers, APIs and policies.
\<close>

section \<open>Feature flags, logs, metrics\<close>

definition feature_flag_default :: "FeatureFlagDecl \<Rightarrow> parser_state \<Rightarrow> (FeatureFlagDecl \<times> parser_state) option" where
  "feature_flag_default d s =
     (if check_any (literal_kinds @ [TK_Identifier]) s then do {
        let (v, s) = advance_token s;
        Some (d\<lparr>ff_default_value := Some (strip_quotes (tok_lexeme v)),
                ff_default_value_kind := Some (token_kind_name (tok_kind v))\<rparr>, s) }
      else do {
        let s = parse_error (here s) ''SSPEC0203'' ''expected feature flag default value'' s;
        Some (d, s) })"

definition feature_flag_scope :: "FeatureFlagDecl \<Rightarrow> parser_state \<Rightarrow> (FeatureFlagDecl \<times> parser_state) option" where
  "feature_flag_scope d s =
     (if check (KW ''system'') s then Some (d\<lparr>ff_scope := Some ''system''\<rparr>, next_token s)
      else if check (KW ''tenant'') s then Some (d\<lparr>ff_scope := Some ''tenant''\<rparr>, next_token s)
      else if at_named ''user'' s then Some (d\<lparr>ff_scope := Some ''user''\<rparr>, next_token s)
      else if check (KW ''entity'') s then do {
        let s = next_token s;
        (n, s) \<leftarrow> parse_qualified_name ''feature flag entity scope'' s;
        Some (d\<lparr>ff_scope := Some (''entity '' @ n)\<rparr>, s) }
      else do {
        let s = parse_error (here s) ''SSPEC0203'' ''expected feature flag scope'' s;
        Some (d, s) })"

definition feature_flag_step :: "FeatureFlagDecl \<Rightarrow> parser_state \<Rightarrow> (FeatureFlagDecl \<times> parser_state) option" where
  "feature_flag_step d s =
     (if at_named ''type'' s then
        branch (an_identifier ''expected feature flag type'') (\<lambda>t. d\<lparr>ff_type := Some t\<rparr>) s
      else if at_named ''default'' s then branch (feature_flag_default d) (\<lambda>d. d) s
      else if at_named ''scope'' s then branch (feature_flag_scope d) (\<lambda>d. d) s
      else if at_named ''owner'' s then
        branch (parse_simple_value ''feature flag owner'') (\<lambda>v. d\<lparr>ff_owner := Some v\<rparr>) s
      else if at_named ''description'' s then
        branch (parse_simple_value ''feature flag description'') (\<lambda>v. d\<lparr>ff_description := Some v\<rparr>) s
      else if at_named ''expires'' s then
        branch (parse_simple_value ''feature flag expiration'') (\<lambda>v. d\<lparr>ff_expires := Some v\<rparr>) s
      else skipping d s)"

definition parse_feature_flag_decl :: "parser_state \<Rightarrow> (FeatureFlagDecl \<times> parser_state) option" where
  "parse_feature_flag_decl = decl_frame ''feature_flag'' ''expected feature_flag declaration'' ''feature flag''
     (\<lambda>name. block_loop feature_flag_step (new_FeatureFlagDecl\<lparr>ff_name := name\<rparr>)) (\<lambda>r d. d\<lparr>ff_range := r\<rparr>)"

definition log_member :: "string \<Rightarrow> parser_state \<Rightarrow> LogDecl \<Rightarrow> LogDecl" where
  "log_member kind s d = d\<lparr>lg_member_order := lg_member_order d @ [member kind (here s)]\<rparr>"

definition log_step :: "LogDecl \<Rightarrow> parser_state \<Rightarrow> (LogDecl \<times> parser_state) option" where
  "log_step d s =
     (if at_named ''level'' s then
        branch (an_identifier ''expected log level'') (\<lambda>l. (log_member ''level'' s d)\<lparr>lg_level := Some l\<rparr>) s
      else if at_named ''event_name'' s then
        branch (parse_simple_value ''log event_name'') (\<lambda>v. (log_member ''event_name'' s d)\<lparr>lg_event_name := Some v\<rparr>) s
      else if check (KW ''fields'') s then do {
        let (start, s) = advance_token s;
        (fs, s) \<leftarrow> braced ''log fields'' ''log fields block'' (push_loop parse_field_decl (lg_fields d)) s;
        Some (d\<lparr>lg_member_order := lg_member_order d @ [member ''fields'' (tok_range start)], lg_fields := fs\<rparr>, s) }
      else skipping d s)"

definition parse_log_decl :: "parser_state \<Rightarrow> (LogDecl \<times> parser_state) option" where
  "parse_log_decl = decl_frame ''log'' ''expected log declaration'' ''log''
     (\<lambda>name. block_loop log_step (new_LogDecl\<lparr>lg_name := name\<rparr>)) (\<lambda>r d. d\<lparr>lg_range := r\<rparr>)"

definition metric_member :: "string \<Rightarrow> parser_state \<Rightarrow> MetricDecl \<Rightarrow> MetricDecl" where
  "metric_member kind s d = d\<lparr>mt_member_order := mt_member_order d @ [member kind (here s)]\<rparr>"

definition metric_step :: "MetricDecl \<Rightarrow> parser_state \<Rightarrow> (MetricDecl \<times> parser_state) option" where
  "metric_step d s =
     (if at_named ''kind'' s then
        branch (an_identifier ''expected metric kind'') (\<lambda>k. (metric_member ''kind'' s d)\<lparr>mt_kind := Some k\<rparr>) s
      else if at_named ''name'' s then
        branch (parse_simple_value ''metric name'') (\<lambda>v. (metric_member ''name'' s d)\<lparr>mt_backend_name := Some v\<rparr>) s
      else if at_named ''unit'' s then
        branch (parse_simple_value ''metric unit'') (\<lambda>v. (metric_member ''unit'' s d)\<lparr>mt_unit := Some v\<rparr>) s
      else if at_named ''labels'' s then do {
        let (start, s) = advance_token s;
        (ls, s) \<leftarrow> braced ''metric labels'' ''metric labels block'' (push_loop parse_field_decl (mt_labels d)) s;
        Some (d\<lparr>mt_member_order := mt_member_order d @ [member ''labels'' (tok_range start)], mt_labels := ls\<rparr>, s) }
      else skipping d s)"

definition parse_metric_decl :: "parser_state \<Rightarrow> (MetricDecl \<times> parser_state) option" where
  "parse_metric_decl = decl_frame ''metric'' ''expected metric declaration'' ''metric''
     (\<lambda>name. block_loop metric_step (new_MetricDecl\<lparr>mt_name := name\<rparr>)) (\<lambda>r d. d\<lparr>mt_range := r\<rparr>)"

section \<open>Queues, leases, workers, servers\<close>

definition message_step :: "MessageDecl \<Rightarrow> parser_state \<Rightarrow> (MessageDecl \<times> parser_state) option" where
  "message_step d s =
     (if at_named ''idempotency_key'' s then
        branch (an_identifier ''expected idempotency key field'') (\<lambda>k. d\<lparr>ms_idempotency_key := Some k\<rparr>) s
      else if check (KW ''payload'') s then do {
        let s = next_token s;
        (fs, s) \<leftarrow> braced ''payload'' ''payload block'' (push_loop parse_field_decl (ms_payload_fields d)) s;
        Some (d\<lparr>ms_payload_fields := fs\<rparr>, s) }
      else skipping d s)"

definition parse_message_decl :: "parser_state \<Rightarrow> (MessageDecl \<times> parser_state) option" where
  "parse_message_decl = decl_frame ''message'' ''expected message declaration'' ''message''
     (\<lambda>name. block_loop message_step (new_MessageDecl\<lparr>ms_name := name\<rparr>)) (\<lambda>r d. d\<lparr>ms_range := r\<rparr>)"

definition queue_step :: "QueueDecl \<Rightarrow> parser_state \<Rightarrow> (QueueDecl \<times> parser_state) option" where
  "queue_step d s =
     (if check (KW ''namespace'') s then
        branch (parse_simple_value ''queue namespace'') (\<lambda>v. d\<lparr>qu_namespace_name := Some v\<rparr>) s
      else if at_named ''channel'' s then
        branch (parse_simple_value ''queue channel'') (\<lambda>v. d\<lparr>qu_channel := Some v\<rparr>) s
      else if at_named ''visibility_timeout'' s then
        branch (parse_simple_value ''visibility timeout'') (\<lambda>v. d\<lparr>qu_visibility_timeout := Some v\<rparr>) s
      else if at_named ''max_attempts'' s then
        branch (an_integer ''expected max_attempts integer'') (\<lambda>n. d\<lparr>qu_max_attempts := Some n\<rparr>) s
      else if at_named ''dead_letter'' s then
        branch (parse_qualified_name ''dead_letter target'') (\<lambda>v. d\<lparr>qu_dead_letter := Some v\<rparr>) s
      else if check (KW ''message'') s then do {
        (m, s) \<leftarrow> parse_message_decl s;
        Some (d\<lparr>qu_messages := qu_messages d @ [m]\<rparr>, s) }
      else skipping d s)"

definition parse_queue_decl :: "parser_state \<Rightarrow> (QueueDecl \<times> parser_state) option" where
  "parse_queue_decl = decl_frame ''queue'' ''expected queue declaration'' ''queue''
     (\<lambda>name. block_loop queue_step (new_QueueDecl\<lparr>qu_name := name\<rparr>)) (\<lambda>r d. d\<lparr>qu_range := r\<rparr>)"

definition lease_step :: "LeaseDecl \<Rightarrow> parser_state \<Rightarrow> (LeaseDecl \<times> parser_state) option" where
  "lease_step d s =
     (if at_named ''resource'' s then
        branch (parse_simple_value ''lease resource'') (\<lambda>v. d\<lparr>ls_resource := Some v\<rparr>) s
      else if at_named ''ttl'' s then
        branch (parse_simple_value ''lease ttl'') (\<lambda>v. d\<lparr>ls_ttl := Some v\<rparr>) s
      else if at_named ''renew_every'' s then
        branch (parse_simple_value ''lease renew_every'') (\<lambda>v. d\<lparr>ls_renew_every := Some v\<rparr>) s
      else if at_named ''holder'' s then
        branch (parse_simple_value ''lease holder'') (\<lambda>v. d\<lparr>ls_holder := Some v\<rparr>) s
      else if at_named ''fencing_token'' s then
        branch (a_boolean ''expected fencing_token boolean'') (\<lambda>b. d\<lparr>ls_fencing_token := Some b\<rparr>) s
      else if at_named ''max_ttl'' s then
        branch (parse_simple_value ''lease max_ttl'') (\<lambda>v. d\<lparr>ls_max_ttl := Some v\<rparr>) s
      else skipping d s)"

definition parse_lease_decl :: "parser_state \<Rightarrow> (LeaseDecl \<times> parser_state) option" where
  "parse_lease_decl = decl_frame ''lease'' ''expected lease declaration'' ''lease''
     (\<lambda>name. block_loop lease_step (new_LeaseDecl\<lparr>ls_name := name\<rparr>)) (\<lambda>r d. d\<lparr>ls_range := r\<rparr>)"

definition worker_step :: "WorkerDecl \<Rightarrow> parser_state \<Rightarrow> (WorkerDecl \<times> parser_state) option" where
  "worker_step d s =
     (if check (KW ''singleton'') s then
        branch (a_boolean ''expected singleton boolean'') (\<lambda>b. d\<lparr>wk_singleton := Some b\<rparr>) s
      else if check (KW ''lease'') s then
        branch (parse_qualified_name ''worker lease'') (\<lambda>v. d\<lparr>wk_lease := Some v\<rparr>) s
      else if check (KW ''polls'') s then
        branch (parse_qualified_name ''worker polls target'') (\<lambda>v. d\<lparr>wk_polls := Some v\<rparr>) s
      else if check (KW ''executes'') s then
        branch (parse_qualified_name ''worker executes target'') (\<lambda>v. d\<lparr>wk_executes := Some v\<rparr>) s
      else if check (KW ''concurrency'') s then
        branch (an_integer ''expected concurrency integer'') (\<lambda>n. d\<lparr>wk_concurrency := Some n\<rparr>) s
      else skipping d s)"

definition parse_worker_decl :: "parser_state \<Rightarrow> (WorkerDecl \<times> parser_state) option" where
  "parse_worker_decl = decl_frame ''worker'' ''expected worker declaration'' ''worker''
     (\<lambda>name. block_loop worker_step (new_WorkerDecl\<lparr>wk_name := name\<rparr>)) (\<lambda>r d. d\<lparr>wk_range := r\<rparr>)"

definition api_server_step :: "ApiServerDecl \<Rightarrow> parser_state \<Rightarrow> (ApiServerDecl \<times> parser_state) option" where
  "api_server_step d s =
     (if check (KW ''serves'') s then
        branch (parse_qualified_name ''served API'') (\<lambda>v. d\<lparr>as_serves := as_serves d @ [v]\<rparr>) s
      else if check (KW ''concurrency'') s then
        branch (an_integer ''expected concurrency integer'') (\<lambda>n. d\<lparr>as_concurrency := Some n\<rparr>) s
      else skipping d s)"

definition parse_api_server_decl :: "parser_state \<Rightarrow> (ApiServerDecl \<times> parser_state) option" where
  "parse_api_server_decl = decl_frame ''api_server'' ''expected api_server declaration'' ''api_server''
     (\<lambda>name. block_loop api_server_step (new_ApiServerDecl\<lparr>as_name := name\<rparr>)) (\<lambda>r d. d\<lparr>as_range := r\<rparr>)"

section \<open>APIs and policies\<close>

definition started_workflow :: "parser_state \<Rightarrow> (string \<times> parser_state) option" where
  "started_workflow s = do {
     let (_, s) = consume (KW ''workflow'') ''expected workflow after starts'' s;
     parse_qualified_name ''started workflow'' s }"

definition api_step :: "ApiDecl \<Rightarrow> parser_state \<Rightarrow> (ApiDecl \<times> parser_state) option" where
  "api_step d s =
     (if check (KW ''method'') s then branch (parse_simple_value ''HTTP method'') (\<lambda>v. d\<lparr>ap_method := Some v\<rparr>) s
      else if check (KW ''path'') s then branch (parse_simple_value ''API path'') (\<lambda>v. d\<lparr>ap_path := Some v\<rparr>) s
      else if check (KW ''input'') s then branch (parse_qualified_name ''API input'') (\<lambda>v. d\<lparr>ap_input := Some v\<rparr>) s
      else if check (KW ''output'') s then branch (parse_qualified_name ''API output'') (\<lambda>v. d\<lparr>ap_output := Some v\<rparr>) s
      else if check (KW ''error'') s then branch (parse_qualified_name ''API error'') (\<lambda>v. d\<lparr>ap_error := Some v\<rparr>) s
      else if check (KW ''starts'') s then branch started_workflow (\<lambda>v. d\<lparr>ap_starts_workflow := Some v\<rparr>) s
      else if check (KW ''enqueues'') s then
        branch (parse_qualified_name ''enqueued message'') (\<lambda>v. d\<lparr>ap_enqueues := Some v\<rparr>) s
      else skipping d s)"

definition parse_api_decl :: "parser_state \<Rightarrow> (ApiDecl \<times> parser_state) option" where
  "parse_api_decl = decl_frame ''api'' ''expected api declaration'' ''api''
     (\<lambda>name. block_loop api_step (new_ApiDecl\<lparr>ap_name := name\<rparr>)) (\<lambda>r d. d\<lparr>ap_range := r\<rparr>)"

definition policy_rule :: "string \<Rightarrow> parser_state \<Rightarrow> (PolicyRuleDecl \<times> parser_state) option" where
  "policy_rule context s = do {
     let (start, s) = advance_token s;
     (action, s) \<leftarrow> parse_qualified_name context s;
     (con, s) \<leftarrow>
       (if check (KW ''when'') s then do {
          let s = next_token s;
          parse_simple_expression_until_boundary s }
        else Some ([], s));
     let s = consume_optional_semicolon s;
     Some (\<lparr>pr_action = action, pr_condition = con, pr_range = range_from start s\<rparr>, s) }"

definition policy_quota :: "parser_state \<Rightarrow> (QuotaDecl \<times> parser_state) option" where
  "policy_quota s = do {
     let (start, s) = advance_token s;
     (name, s) \<leftarrow> an_identifier ''expected quota name'' s;
     (e, s) \<leftarrow> after_colon ''quota name'' parse_simple_expression_until_boundary s;
     let s = consume_optional_semicolon s;
     Some (\<lparr>qt_name = name, qt_expression = e, qt_range = range_from start s\<rparr>, s) }"

definition policy_tenant :: "parser_state \<Rightarrow> (string \<times> parser_state) option" where
  "policy_tenant s = do {
     let (_, s) = consume (KW ''scoped_by'') ''expected scoped_by after tenant'' s;
     an_identifier ''expected tenant scope field'' s }"

definition policy_member :: "string \<Rightarrow> parser_state \<Rightarrow> PolicyDecl \<Rightarrow> PolicyDecl" where
  "policy_member kind s d = d\<lparr>po_member_order := po_member_order d @ [member kind (here s)]\<rparr>"

definition policy_step :: "PolicyDecl \<Rightarrow> parser_state \<Rightarrow> (PolicyDecl \<times> parser_state) option" where
  "policy_step d s0 =
     (if check (KW ''tenant'') s0 then
        branch policy_tenant (\<lambda>f. (policy_member ''tenant'' s0 d)\<lparr>po_tenant_scoped_by := Some f\<rparr>) s0
      else if check (KW ''allow'') s0 then do {
        (r, s) \<leftarrow> policy_rule ''allow action'' s0;
        Some ((policy_member ''allow'' s0 d)\<lparr>po_allows := po_allows d @ [r]\<rparr>, s) }
      else if check (KW ''deny'') s0 then do {
        (r, s) \<leftarrow> policy_rule ''deny action'' s0;
        Some ((policy_member ''deny'' s0 d)\<lparr>po_denies := po_denies d @ [r]\<rparr>, s) }
      else if check (KW ''quota'') s0 then do {
        (q, s) \<leftarrow> policy_quota s0;
        Some ((policy_member ''quota'' s0 d)\<lparr>po_quotas := po_quotas d @ [q]\<rparr>, s) }
      else if check (KW ''audit'') s0 then
        branch (parse_qualified_name ''audit action'')
          (\<lambda>a. (policy_member ''audit'' s0 d)\<lparr>po_audits := po_audits d @ [a]\<rparr>) s0
      else skipping d s0)"

definition parse_policy_decl :: "parser_state \<Rightarrow> (PolicyDecl \<times> parser_state) option" where
  "parse_policy_decl = decl_frame ''policy'' ''expected policy declaration'' ''policy''
     (\<lambda>name. block_loop policy_step (new_PolicyDecl\<lparr>po_name := name\<rparr>)) (\<lambda>r d. d\<lparr>po_range := r\<rparr>)"

section \<open>They return\<close>

lemma runtime_part_moves [parser_moves]:
  "moves False s (feature_flag_default ff s)" "moves False s (feature_flag_scope ff s)"
  "moves False s (started_workflow s)" "moves False s (policy_tenant s)"
  "moves (\<not> is_at_end s) s (policy_rule c s)" "moves (\<not> is_at_end s) s (policy_quota s)"
  unfolding feature_flag_default_def feature_flag_scope_def started_workflow_def policy_tenant_def policy_rule_def
    policy_quota_def
  by (rule movesI, (rule parser_moves block_moves parser_rules | (simp add: parser_ends; fail) | (auto simp: parser_unfold; fail))+)+

lemma runtime_step_moves [parser_moves]:
  "moves (\<not> is_at_end s) s (feature_flag_step ff s)" "moves (\<not> is_at_end s) s (log_step lg s)"
  "moves (\<not> is_at_end s) s (metric_step mt s)" "moves (\<not> is_at_end s) s (message_step ms s)"
  "moves (\<not> is_at_end s) s (lease_step ls s)" "moves (\<not> is_at_end s) s (worker_step wk s)"
  "moves (\<not> is_at_end s) s (api_server_step as s)" "moves (\<not> is_at_end s) s (api_step ap s)"
  "moves (\<not> is_at_end s) s (policy_step po s)"
  unfolding feature_flag_step_def log_step_def metric_step_def message_step_def lease_step_def worker_step_def
    api_server_step_def api_step_def policy_step_def
  by (rule movesI, (rule parser_moves block_moves parser_rules | (simp add: parser_ends; fail) | (auto simp: parser_unfold; fail))+)+

lemma message_moves [parser_moves]: "moves (check (KW ''message'') s) s (parse_message_decl s)"
  unfolding parse_message_decl_def
  by (rule parser_moves block_moves parser_rules | (simp add: parser_ends; fail))+

lemma queue_step_moves [parser_moves]: "moves (\<not> is_at_end s) s (queue_step qu s)"
  unfolding queue_step_def
  by (rule movesI, (rule parser_moves block_moves parser_rules | (simp add: parser_ends; fail) | (auto simp: parser_unfold; fail))+)

lemma runtime_moves [parser_moves]:
  "moves (check (KW ''feature_flag'') s) s (parse_feature_flag_decl s)"
  "moves (check (KW ''log'') s) s (parse_log_decl s)" "moves (check (KW ''metric'') s) s (parse_metric_decl s)"
  "moves (check (KW ''queue'') s) s (parse_queue_decl s)" "moves (check (KW ''lease'') s) s (parse_lease_decl s)"
  "moves (check (KW ''worker'') s) s (parse_worker_decl s)"
  "moves (check (KW ''api_server'') s) s (parse_api_server_decl s)"
  "moves (check (KW ''api'') s) s (parse_api_decl s)" "moves (check (KW ''policy'') s) s (parse_policy_decl s)"
  unfolding parse_feature_flag_decl_def parse_log_decl_def parse_metric_decl_def parse_queue_decl_def
    parse_lease_decl_def parse_worker_decl_def parse_api_server_decl_def parse_api_decl_def parse_policy_decl_def
  by (rule parser_moves block_moves parser_rules | (simp add: parser_ends; fail))+

end
