(* ===== verification/Parser_Workflows.thy ===== *)
theory Parser_Workflows
  imports Parser_Runtime
begin

text \<open>
  \<open>src/parser_workflows.cpp\<close>. A statement may contain a block of statements, so
  \<open>parse_workflow_statement_decl\<close> is recursive; it is total on valid states, as the depth of the
  blocks is bounded by the tokens left.
\<close>

section \<open>Statements\<close>

definition payload_name :: "parser_state \<Rightarrow> token \<times> parser_state" where
  "payload_name s =
     (if check (KW ''key'') s \<or> check (KW ''parent'') s then advance_token s
      else consume TK_Identifier ''expected payload field'' s)"

definition payload_assignment :: "parser_state \<Rightarrow> (WorkflowAssignmentDecl \<times> parser_state) option" where
  "payload_assignment s = do {
     let (name, s) = payload_name s;
     let (_, s) = consume TK_Equals (''expected '' @ quoted ''='' @ '' in payload assignment'') s;
     (e, s) \<leftarrow> parse_simple_expression_until_boundary s;
     let s = consume_optional_semicolon s;
     Some (\<lparr>wa_name = tok_lexeme name, wa_expression = e, wa_range = range_from name s\<rparr>, s) }"

definition parse_workflow_payload :: "parser_state \<Rightarrow> (WorkflowAssignmentDecl list \<times> parser_state) option" where
  "parse_workflow_payload s =
     (if \<not> check TK_LeftBrace s then Some ([], s)
      else do {
        let s = next_token s;
        (xs, s) \<leftarrow> push_loop payload_assignment [] s;
        let (_, s) = consume TK_RightBrace (''expected '' @ quoted ''}'' @ '' after workflow payload'') s;
        Some (xs, s) })"

definition statement_keywords :: "token_kind list" where
  "statement_keywords = map TK_Keyword
     [''require'', ''set'', ''emit'', ''enqueue'', ''acquire'', ''renew'', ''release'', ''start'',
      ''transition_to'', ''complete'', ''fail'', ''atomic'', ''for_each'', ''when'', ''create'', ''observe'',
      ''move'', ''reserve'', ''materialize'', ''reconcile'']"

text \<open>The block, over the parser of a statement.\<close>

definition statement_block_step ::
  "(parser_state \<Rightarrow> (WorkflowStatementDecl \<times> parser_state) option) \<Rightarrow>
   WorkflowStatementDecl list \<Rightarrow> parser_state \<Rightarrow> (WorkflowStatementDecl list \<times> parser_state) option" where
  "statement_block_step p xs s =
     (if check_any statement_keywords s then do {
        (x, s) \<leftarrow> p s;
        Some (xs @ [x], s) }
      else skipping xs s)"

definition statement_block ::
  "(parser_state \<Rightarrow> (WorkflowStatementDecl \<times> parser_state) option) \<Rightarrow>
   parser_state \<Rightarrow> (WorkflowStatementDecl list \<times> parser_state) option" where
  "statement_block p s = do {
     let (_, s) = consume TK_LeftBrace ''expected workflow statement block'' s;
     (xs, s) \<leftarrow> block_loop (statement_block_step p) [] s;
     let (_, s) = consume TK_RightBrace (''expected '' @ quoted ''}'' @ '' after workflow statement block'') s;
     Some (xs, s) }"

text \<open>A statement after its first word: the cases without a block, and the three with one.\<close>

abbreviation sets ::
  "(parser_state \<Rightarrow> ('v \<times> parser_state) option) \<Rightarrow> ('v \<Rightarrow> 'd) \<Rightarrow> parser_state \<Rightarrow> ('d \<times> parser_state) option" where
  "sets p put s \<equiv> Option.bind (p s) (\<lambda>(v, s). Some (put v, s))"

definition after_word ::
  "string \<Rightarrow> string \<Rightarrow> (parser_state \<Rightarrow> ('v \<times> parser_state) option) \<Rightarrow> parser_state \<Rightarrow> ('v \<times> parser_state) option" where
  "after_word w message p s = do {
     let (_, s) = consume (KW w) message s;
     p s }"

definition named_with_payload ::
  "string \<Rightarrow> (string \<Rightarrow> WorkflowAssignmentDecl list \<Rightarrow> WorkflowStatementDecl) \<Rightarrow> parser_state \<Rightarrow>
   (WorkflowStatementDecl \<times> parser_state) option" where
  "named_with_payload context put s = do {
     (n, s) \<leftarrow> parse_qualified_name context s;
     (ps, s) \<leftarrow> parse_workflow_payload s;
     Some (put n ps, s) }"

abbreviation with_target :: "string \<Rightarrow> string \<Rightarrow> WorkflowAssignmentDecl list \<Rightarrow> WorkflowStatementDecl" where
  "with_target kind n ps \<equiv> WorkflowStatementDecl kind (Some n) None None None None None ps [] empty_range"

definition parse_set :: "parser_state \<Rightarrow> (WorkflowStatementDecl \<times> parser_state) option" where
  "parse_set s = do {
     (a, s) \<leftarrow> parse_expression_until TK_Equals s;
     let (_, s) = consume TK_Equals (''expected '' @ quoted ''='' @ '' in set statement'') s;
     (e, s) \<leftarrow> parse_simple_expression_until_boundary s;
     Some (WorkflowStatementDecl ''set'' None (Some e) (Some a) None None None [] [] empty_range, s) }"

definition parse_acquire :: "parser_state \<Rightarrow> (WorkflowStatementDecl \<times> parser_state) option" where
  "parse_acquire s = do {
     (n, s) \<leftarrow> after_word ''lease'' ''expected lease after acquire'' (parse_qualified_name ''acquired lease'') s;
     (b, s) \<leftarrow>
       (if check (KW ''as'') s then do {
          let s = next_token s;
          (b, s) \<leftarrow> an_identifier ''expected lease binding'' s;
          Some (Some b, s) }
        else Some (None, s));
     Some (WorkflowStatementDecl ''acquire_lease'' (Some n) None None None None b [] [] empty_range, s) }"

definition parse_fail :: "parser_state \<Rightarrow> (WorkflowStatementDecl \<times> parser_state) option" where
  "parse_fail s =
     (if \<not> check TK_Semicolon s \<and> \<not> check TK_RightBrace s then do {
        (e, s) \<leftarrow> parse_simple_expression_until_boundary s;
        Some (WorkflowStatementDecl ''fail'' None (Some e) None None None None [] [] empty_range, s) }
      else Some (new_WorkflowStatementDecl ''fail'', s))"

definition parse_observe :: "parser_state \<Rightarrow> (WorkflowStatementDecl \<times> parser_state) option" where
  "parse_observe s = do {
     (n, s) \<leftarrow> after_word ''child'' ''expected child after observe'' (parse_qualified_name ''observed child entity'') s;
     let s = (if \<not> at_named ''by'' s then parse_error (here s) ''SSPEC0200'' ''expected by in observe child'' s
              else next_token s);
     (b, s) \<leftarrow> an_identifier ''expected observe child field'' s;
     let (_, s) = consume TK_Equals (''expected '' @ quoted ''='' @ '' in observe child'') s;
     (e, s) \<leftarrow> parse_simple_expression_until_boundary s;
     Some (WorkflowStatementDecl ''observe_child'' (Some n) (Some e) None None None (Some b) [] [] empty_range, s) }"

definition parse_move :: "parser_state \<Rightarrow> (WorkflowStatementDecl \<times> parser_state) option" where
  "parse_move s = do {
     (e, s) \<leftarrow> parse_expression_until (KW ''from'') s;
     (f, s) \<leftarrow> after_word ''from'' ''expected from in move statement'' (parse_expression_until (KW ''to'')) s;
     (t, s) \<leftarrow> after_word ''to'' ''expected to in move statement'' parse_simple_expression_until_boundary s;
     Some (WorkflowStatementDecl ''move'' None (Some e) None (Some f) (Some t) None [] [] empty_range, s) }"

definition parse_child_set_statement :: "string \<Rightarrow> string \<Rightarrow> parser_state \<Rightarrow> (WorkflowStatementDecl \<times> parser_state) option" where
  "parse_child_set_statement kind word s = do {
     (n, s) \<leftarrow> after_word ''child_set'' (''expected child_set after '' @ word) (an_identifier ''expected child_set name'') s;
     Some (with_target kind n [], s) }"

definition simple_statement :: "token_kind \<Rightarrow> parser_state \<Rightarrow> (WorkflowStatementDecl \<times> parser_state) option" where
  "simple_statement k s =
     (if k = KW ''require'' then
        sets parse_simple_expression_until_boundary
          (\<lambda>e. WorkflowStatementDecl ''require'' None (Some e) None None None None [] [] empty_range) s
      else if k = KW ''set'' then parse_set s
      else if k = KW ''emit'' then named_with_payload ''emitted event'' (with_target ''emit'') s
      else if k = KW ''enqueue'' then named_with_payload ''enqueued message'' (with_target ''enqueue'') s
      else if k = KW ''acquire'' then parse_acquire s
      else if k = KW ''renew'' then
        sets (after_word ''lease'' ''expected lease after renew'' (parse_qualified_name ''renewed lease''))
          (\<lambda>n. with_target ''renew_lease'' n []) s
      else if k = KW ''release'' then
        sets (after_word ''lease'' ''expected lease after release'' (parse_qualified_name ''released lease''))
          (\<lambda>n. with_target ''release_lease'' n []) s
      else if k = KW ''start'' then
        after_word ''workflow'' ''expected workflow after start''
          (named_with_payload ''started workflow'' (with_target ''start_workflow'')) s
      else if k = KW ''transition_to'' then
        sets (an_identifier ''expected transition_to target'') (\<lambda>n. with_target ''transition_to'' n []) s
      else if k = KW ''complete'' then Some (new_WorkflowStatementDecl ''complete'', s)
      else if k = KW ''fail'' then parse_fail s
      else if k = KW ''create'' then
        after_word ''child'' ''expected child after create''
          (named_with_payload ''created child entity'' (with_target ''create_child'')) s
      else if k = KW ''observe'' then parse_observe s
      else if k = KW ''move'' then parse_move s
      else if k = KW ''reserve'' then parse_child_set_statement ''reserve_child_set'' ''reserve'' s
      else if k = KW ''materialize'' then parse_child_set_statement ''materialize_child_set'' ''materialize'' s
      else if k = KW ''reconcile'' then parse_child_set_statement ''reconcile_child_set'' ''reconcile'' s
      else do {
        s \<leftarrow> synchronize_to_member_boundary s;
        Some (new_WorkflowStatementDecl ''unknown'', s) })"

definition for_each_header :: "parser_state \<Rightarrow> ((string \<times> string) \<times> parser_state) option" where
  "for_each_header s = do {
     (b, s) \<leftarrow> an_identifier ''expected for_each iterator name'' s;
     (e, s) \<leftarrow> after_word ''in'' ''expected in after for_each iterator'' (parse_expression_until TK_LeftBrace) s;
     Some ((b, e), s) }"

definition with_range :: "token \<Rightarrow> parser_state \<Rightarrow> WorkflowStatementDecl \<Rightarrow> WorkflowStatementDecl \<times> parser_state" where
  "with_range start s x =
     (WorkflowStatementDecl (ws_kind x) (ws_target x) (ws_expression x) (ws_assignable x) (ws_from_assignable x)
        (ws_to_assignable x) (ws_binding x) (ws_payload x) (ws_statements x) (range_from start s), s)"

definition statement_after ::
  "(parser_state \<Rightarrow> (WorkflowStatementDecl \<times> parser_state) option) \<Rightarrow> token_kind \<Rightarrow>
   parser_state \<Rightarrow> (WorkflowStatementDecl \<times> parser_state) option" where
  "statement_after p k s =
     (if k = KW ''atomic'' then
        sets (statement_block p) (\<lambda>xs. WorkflowStatementDecl ''atomic'' None None None None None None [] xs empty_range) s
      else if k = KW ''for_each'' then do {
        (h, s) \<leftarrow> for_each_header s;
        (xs, s) \<leftarrow> statement_block p s;
        Some (WorkflowStatementDecl ''for_each'' None (Some (snd h)) None None None (Some (fst h)) [] xs empty_range, s) }
      else if k = KW ''when'' then do {
        (e, s) \<leftarrow> parse_expression_until TK_LeftBrace s;
        (xs, s) \<leftarrow> statement_block p s;
        Some (WorkflowStatementDecl ''when'' None (Some e) None None None None [] xs empty_range, s) }
      else simple_statement k s)"


text \<open>The recursion through the blocks is monotone.\<close>

lemma while_loop_mono [partial_function_mono]:
  fixes b :: "('u \<Rightarrow> 'v option) \<Rightarrow> 'a \<Rightarrow> parser_state \<Rightarrow> ('a \<times> parser_state) option"
  assumes b: "\<And>y t. monotone (fun_ord option_ord) option_ord (\<lambda>f. b f y t)"
  shows "monotone (fun_ord option_ord) option_ord (\<lambda>f. while_loop c (b f) x s)"
proof (rule monotoneI)
  fix f g :: "'u \<Rightarrow> 'v option" assume le: "fun_ord option_ord f g"
  have "while_loop c b' x s = Some r \<Longrightarrow> b' = b f \<longrightarrow> while_loop c (b g) x s = Some r" for b' x s r
  proof (induction rule: while_loop_induct)
    case (step loop c b' x s r)
    show ?case
    proof
      assume eq: "b' = b f"
      show "while_loop c (b g) x s = Some r"
      proof (cases "c x s")
        case True
        then obtain y t where t: "b f x s = Some (y, t)" "loop c b' y t = Some r"
          using step(2) eq by (auto simp: bind_eq_Some_conv)
        have "option_ord (b f x s) (b g x s)"
          using b [of x s] le unfolding monotone_def by blast
        then have "b g x s = Some (y, t)"
          using t(1) by (simp add: flat_ord_def)
        then show ?thesis
          using step(1) [OF t(2)] eq True by (simp add: while_loop.simps [of c _ x s])
      qed (use step(2) in \<open>simp add: while_loop.simps [of c _ x s]\<close>)
    qed
  qed
  then have "while_loop c (b f) x s = Some r \<Longrightarrow> while_loop c (b g) x s = Some r" for r
    by blast
  then show "option_ord (while_loop c (b f) x s) (while_loop c (b g) x s)"
    by (cases "while_loop c (b f) x s") (simp_all add: flat_ord_def)
qed

lemma statement_block_mono [partial_function_mono]:
  assumes "\<And>t. monotone (fun_ord option_ord) option_ord (\<lambda>f. p f t)"
  shows "monotone (fun_ord option_ord) option_ord (\<lambda>f. statement_block (p f) s)"
  unfolding statement_block_def block_loop_def statement_block_step_def case_prod_unfold
  by (intro partial_function_mono assms)

lemma statement_after_mono [partial_function_mono]:
  assumes "\<And>t. monotone (fun_ord option_ord) option_ord (\<lambda>f. p f t)"
  shows "monotone (fun_ord option_ord) option_ord (\<lambda>f. statement_after (p f) k s)"
  unfolding statement_after_def case_prod_unfold
  by (intro partial_function_mono assms)

text \<open>The code takes the optional semicolon and sets the range after the switch.\<close>

partial_function (option) parse_workflow_statement_decl ::
  "parser_state \<Rightarrow> (WorkflowStatementDecl \<times> parser_state) option" where
  "parse_workflow_statement_decl s = do {
     (x, t) \<leftarrow> statement_after parse_workflow_statement_decl (tok_kind (fst (advance_token s))) (next_token s);
     let t = consume_optional_semicolon t;
     Some (with_range (fst (advance_token s)) t x) }"

definition parse_workflow_statement_block ::
  "parser_state \<Rightarrow> (WorkflowStatementDecl list \<times> parser_state) option" where
  "parse_workflow_statement_block = statement_block parse_workflow_statement_decl"

section \<open>Workflows\<close>

definition parse_workflow_load_decl :: "token \<Rightarrow> parser_state \<Rightarrow> (WorkflowLoadDecl \<times> parser_state) option" where
  "parse_workflow_load_decl start s = do {
     (entity, s) \<leftarrow> parse_qualified_name ''workflow load entity'' s;
     let s = (if \<not> at_named ''by'' s then parse_error (here s) ''SSPEC0200'' ''expected by in workflow load'' s
              else next_token s);
     (key, s) \<leftarrow> an_identifier ''expected workflow load key'' s;
     (binding, s) \<leftarrow> after_word ''as'' ''expected as in workflow load'' (an_identifier ''expected workflow load binding'') s;
     let s = consume_optional_semicolon s;
     Some (\<lparr>wl_entity = entity, wl_key_field = key, wl_binding = binding, wl_range = range_from start s\<rparr>, s) }"

definition child_set_step :: "WorkflowChildSetDecl \<Rightarrow> parser_state \<Rightarrow> (WorkflowChildSetDecl \<times> parser_state) option" where
  "child_set_step d s =
     (if check (KW ''entity'') s then
        branch (parse_qualified_name ''child_set entity'') (\<lambda>v. d\<lparr>cs_entity := Some v\<rparr>) s
      else if at_named ''parent_field'' s then
        branch (an_identifier ''expected child_set parent field'') (\<lambda>v. d\<lparr>cs_parent_field := Some v\<rparr>) s
      else if at_named ''id_type'' s then branch parse_type_name (\<lambda>v. d\<lparr>cs_id_type := Some v\<rparr>) s
      else if at_named ''pending'' s then
        branch (an_identifier ''expected child_set pending field'') (\<lambda>v. d\<lparr>cs_pending := Some v\<rparr>) s
      else if at_named ''creating'' s then
        branch (an_identifier ''expected child_set creating field'') (\<lambda>v. d\<lparr>cs_creating := Some v\<rparr>) s
      else if at_named ''succeeded'' s then
        branch (an_identifier ''expected child_set succeeded field'') (\<lambda>v. d\<lparr>cs_succeeded := Some v\<rparr>) s
      else if at_named ''failed'' s then
        branch (an_identifier ''expected child_set failed field'') (\<lambda>v. d\<lparr>cs_failed := Some v\<rparr>) s
      else if at_named ''desired_count'' s then
        branch parse_simple_expression_until_boundary (\<lambda>v. d\<lparr>cs_desired_count := Some v\<rparr>) s
      else if check (KW ''annotations'') s then do {
        let s = next_token s;
        s \<leftarrow> skip_balanced_block s;
        Some (d, s) }
      else skipping d s)"

definition parse_workflow_child_set_decl :: "parser_state \<Rightarrow> (WorkflowChildSetDecl \<times> parser_state) option" where
  "parse_workflow_child_set_decl = decl_frame ''child_set'' ''expected child_set'' ''child_set''
     (\<lambda>name. block_loop child_set_step (new_WorkflowChildSetDecl\<lparr>cs_name := name\<rparr>)) (\<lambda>r d. d\<lparr>cs_range := r\<rparr>)"

definition create_assignment :: "parser_state \<Rightarrow> (WorkflowAssignmentDecl \<times> parser_state) option" where
  "create_assignment s = do {
     let (field, s) = consume TK_Identifier ''expected create field name'' s;
     let (_, s) = consume TK_Colon (''expected '' @ quoted '':'' @ '' after create field name'') s;
     (e, s) \<leftarrow> parse_simple_expression_until_line_boundary s;
     let s = consume_optional_semicolon s;
     Some (\<lparr>wa_name = tok_lexeme field, wa_expression = e, wa_range = range_from field s\<rparr>, s) }"

definition child_id :: "parser_state \<Rightarrow> ((string \<times> string) \<times> parser_state) option" where
  "child_id s = do {
     (f, s) \<leftarrow> an_identifier ''expected child_id field'' s;
     (t, s) \<leftarrow> parse_type_name s;
     Some ((f, t), s) }"

definition parent_ref :: "parser_state \<Rightarrow> ((string \<times> string) \<times> parser_state) option" where
  "parent_ref s = do {
     (f, s) \<leftarrow> an_identifier ''expected parent_ref field'' s;
     let (_, s) = consume TK_Equals (''expected '' @ quoted ''='' @ '' after parent_ref field'') s;
     (e, s) \<leftarrow> parse_simple_expression_until_line_boundary s;
     Some ((f, e), s) }"

definition child_workflow_step ::
  "WorkflowChildWorkflowDecl \<Rightarrow> parser_state \<Rightarrow> (WorkflowChildWorkflowDecl \<times> parser_state) option" where
  "child_workflow_step d s =
     (if at_named ''child_entity'' s then
        branch (parse_qualified_name ''child entity'') (\<lambda>v. d\<lparr>cw_child_entity := Some v\<rparr>) s
      else if check (KW ''child_workflow'') s then
        branch (parse_qualified_name ''child workflow'') (\<lambda>v. d\<lparr>cw_child_workflow := Some v\<rparr>) s
      else if at_named ''child_id'' s then
        branch child_id (\<lambda>v. d\<lparr>cw_child_id_field := Some (fst v), cw_child_id_type := Some (snd v)\<rparr>) s
      else if at_named ''parent_ref'' s then
        branch parent_ref (\<lambda>v. d\<lparr>cw_parent_ref_field := Some (fst v), cw_parent_ref_expression := Some (snd v)\<rparr>) s
      else if at_named ''desired_count'' s then
        branch parse_simple_expression_until_line_boundary (\<lambda>v. d\<lparr>cw_desired_count := Some v\<rparr>) s
      else if check (KW ''create'') s then do {
        let s = next_token s;
        (xs, s) \<leftarrow> braced ''child_workflow create'' ''child_workflow create''
           (push_loop create_assignment (cw_create_assignments d)) s;
        Some (d\<lparr>cw_create_assignments := xs\<rparr>, s) }
      else if at_named ''success'' s then
        branch (after_word ''when'' ''expected when after success'' parse_simple_expression_until_line_boundary)
          (\<lambda>v. d\<lparr>cw_success_expression := Some v\<rparr>) s
      else if at_named ''failure'' s then
        branch (after_word ''when'' ''expected when after failure'' parse_simple_expression_until_line_boundary)
          (\<lambda>v. d\<lparr>cw_failure_expression := Some v\<rparr>) s
      else if check (KW ''annotations'') s then do {
        let s = next_token s;
        s \<leftarrow> skip_balanced_block s;
        Some (d, s) }
      else skipping d s)"

definition parse_workflow_child_workflow_decl ::
  "parser_state \<Rightarrow> (WorkflowChildWorkflowDecl \<times> parser_state) option" where
  "parse_workflow_child_workflow_decl = decl_frame ''child_workflow'' ''expected child_workflow'' ''child_workflow''
     (\<lambda>name. block_loop child_workflow_step (new_WorkflowChildWorkflowDecl\<lparr>cw_name := name\<rparr>))
     (\<lambda>r d. d\<lparr>cw_range := r\<rparr>)"

definition a_duration :: "string \<Rightarrow> parser_state \<Rightarrow> (string \<times> parser_state) option" where
  "a_duration message s = do {
     let (t, s) = consume TK_DurationLiteral message s;
     Some (tok_lexeme t, s) }"

definition workflow_step_step :: "WorkflowStepDecl \<Rightarrow> parser_state \<Rightarrow> (WorkflowStepDecl \<times> parser_state) option" where
  "workflow_step_step d s =
     (if at_named ''expected_execution_time'' s then
        branch (a_duration ''expected step duration'') (\<lambda>v. d\<lparr>wp_expected_execution_time := Some v\<rparr>) s
      else if at_named ''max_retries'' s then
        branch (an_integer ''expected max_retries integer'') (\<lambda>n. d\<lparr>wp_max_retries := Some n\<rparr>) s
      else if check_any statement_keywords s then do {
        (x, s) \<leftarrow> parse_workflow_statement_decl s;
        Some (d\<lparr>wp_statements := wp_statements d @ [x]\<rparr>, s) }
      else skipping d s)"

definition parse_workflow_step_decl :: "parser_state \<Rightarrow> (WorkflowStepDecl \<times> parser_state) option" where
  "parse_workflow_step_decl = decl_frame ''step'' ''expected workflow step'' ''workflow step''
     (\<lambda>name. block_loop workflow_step_step (new_WorkflowStepDecl\<lparr>wp_name := name\<rparr>)) (\<lambda>r d. d\<lparr>wp_range := r\<rparr>)"

definition workflow_member :: "string \<Rightarrow> source_range \<Rightarrow> WorkflowDecl \<Rightarrow> WorkflowDecl" where
  "workflow_member kind r d = d\<lparr>wf_member_order := wf_member_order d @ [member kind r]\<rparr>"

definition workflow_step :: "WorkflowDecl \<Rightarrow> parser_state \<Rightarrow> (WorkflowDecl \<times> parser_state) option" where
  "workflow_step d s =
     (if check (KW ''version'') s then
        branch (an_integer ''expected workflow version integer'')
          (\<lambda>n. (workflow_member ''version'' (here s) d)\<lparr>wf_version := Some n\<rparr>) s
      else if check (KW ''singleton'') s then
        branch (a_boolean ''expected singleton boolean'')
          (\<lambda>b. (workflow_member ''singleton'' (here s) d)\<lparr>wf_singleton := Some b\<rparr>) s
      else if at_named ''expected_execution_time'' s then
        branch (a_duration ''expected workflow duration'')
          (\<lambda>v. (workflow_member ''expected_execution_time'' (here s) d)\<lparr>wf_expected_execution_time := Some v\<rparr>) s
      else if check (KW ''start'') s then
        branch (an_identifier ''expected start step name'')
          (\<lambda>v. (workflow_member ''start'' (here s) d)\<lparr>wf_start_step := Some v\<rparr>) s
      else if check (KW ''on'') s then
        branch (parse_qualified_name ''workflow trigger'') (\<lambda>v. (workflow_member ''on'' (here s) d)\<lparr>wf_on := Some v\<rparr>) s
      else if check (KW ''input'') s then
        branch (parse_qualified_name ''workflow input'') (\<lambda>v. (workflow_member ''input'' (here s) d)\<lparr>wf_input := Some v\<rparr>) s
      else if check (KW ''state'') s then
        branch (parse_qualified_name ''workflow state'') (\<lambda>v. (workflow_member ''state'' (here s) d)\<lparr>wf_state := Some v\<rparr>) s
      else if check (KW ''load'') s then do {
        let (start, s) = advance_token s;
        (x, s) \<leftarrow> parse_workflow_load_decl start s;
        Some ((workflow_member ''load'' (wl_range x) d)\<lparr>wf_loads := wf_loads d @ [x]\<rparr>, s) }
      else if check (KW ''child_set'') s then do {
        (x, s) \<leftarrow> parse_workflow_child_set_decl s;
        Some ((workflow_member ''child_set'' (cs_range x) d)\<lparr>wf_child_sets := wf_child_sets d @ [x]\<rparr>, s) }
      else if check (KW ''child_workflow'') s then do {
        (x, s) \<leftarrow> parse_workflow_child_workflow_decl s;
        Some ((workflow_member ''child_workflow'' (cw_range x) d)\<lparr>wf_child_workflows := wf_child_workflows d @ [x]\<rparr>, s) }
      else if check (KW ''step'') s then do {
        (x, s) \<leftarrow> parse_workflow_step_decl s;
        Some ((workflow_member ''step'' (wp_range x) d)\<lparr>wf_steps := wf_steps d @ [x]\<rparr>, s) }
      else skipping d s)"

definition parse_workflow_decl :: "parser_state \<Rightarrow> (WorkflowDecl \<times> parser_state) option" where
  "parse_workflow_decl = decl_frame ''workflow'' ''expected workflow declaration'' ''workflow''
     (\<lambda>name. block_loop workflow_step (new_WorkflowDecl\<lparr>wf_name := name\<rparr>)) (\<lambda>r d. d\<lparr>wf_range := r\<rparr>)"


section \<open>They return\<close>

lemma after_word_moves:
  assumes "\<And>t. moves False t (p t)"
  shows "moves False s (after_word w m p s)"
  unfolding after_word_def
  by (rule movesI, (rule assms parser_moves parser_rules | (simp; fail))+)

lemmas workflow_rules = after_word_moves block_moves parser_rules

lemma payload_name_moves [parser_moves]: "moves_pair (check TK_Identifier s) s (payload_name s)"
  unfolding payload_name_def
  using advance_moves [of s] consume_moves [of TK_Identifier s]
  by (auto simp: moves_pair_def check_not_end elim!: moved_weaken)

lemma payload_assignment_moves [parser_moves]:
  "moves (\<not> check TK_RightBrace s \<and> \<not> is_at_end s) s (payload_assignment s)"
  unfolding payload_assignment_def
  by (rule movesI, (rule parser_moves workflow_rules | (simp add: parser_ends; fail) | (auto simp: parser_unfold at_boundary_def; fail))+)

lemma payload_moves [parser_moves]:
  "moves False s (parse_workflow_payload s)"
  unfolding parse_workflow_payload_def
  by (rule movesI, (rule parser_moves workflow_rules | (simp add: parser_ends; fail) | (auto simp: parser_unfold; fail))+)

lemma statement_part_moves [parser_moves]:
  "moves False s (named_with_payload c put s)" "moves False s (parse_set s)" "moves False s (parse_acquire s)"
  "moves False s (parse_fail s)" "moves False s (parse_observe s)" "moves False s (parse_move s)"
  "moves False s (parse_child_set_statement k w s)" "moves False s (for_each_header s)"
  unfolding named_with_payload_def parse_set_def parse_acquire_def parse_fail_def parse_observe_def parse_move_def
    parse_child_set_statement_def for_each_header_def
  by (rule movesI, (rule parser_moves workflow_rules | (simp add: parser_ends; fail) | (auto simp: parser_unfold; fail))+)+

lemma simple_statement_moves [parser_moves]: "moves False s (simple_statement k s)"
  unfolding simple_statement_def
  by (rule movesI, (rule parser_moves workflow_rules | (simp add: parser_ends; fail) | (auto simp: parser_unfold; fail))+)

subsection \<open>Blocks of statements\<close>

lemma finishes_given: "(moved c s0 s \<Longrightarrow> finishes b c s0 s r) \<Longrightarrow> finishes b c s0 s r"
  by (auto simp: finishes_def)

text \<open>The body has to move from the states only that the loop comes to.\<close>

lemma while_loop_moves_from:
  assumes body: "\<And>y t. c y t \<Longrightarrow> moved False s t \<Longrightarrow> moves True t (b y t)"
  shows "moves False s (while_loop c b x s)"
proof -
  have "moved False s t \<Longrightarrow> moves False t (while_loop c b x t)" for x t
  proof (induction "length (ps_tokens t) - ps_current t" arbitrary: x t rule: less_induct)
    case less
    show ?case
    proof (cases "c x t")
      case True
      then have r: "reaches True t (b x t)"
        using body [OF True less(2)] moved_valid [OF less(2)] by (simp add: moves_def)
      show ?thesis
      proof (cases "b x t")
        case (Some z)
        obtain y u where z: "z = (y, u)" by (cases z)
        then have u: "moved True t u" using r Some by simp
        then have m: "length (ps_tokens u) - ps_current u < length (ps_tokens t) - ps_current t"
          by (auto simp: moved_def valid_state_def)
        have "moved False s u"
          using moved_weaken [OF moved_trans [OF less(2) u]] by simp
        from less(1) [OF m this, of y] have "finishes False True t u (while_loop c b y u)"
          by (rule finishes_tail) simp
        then show ?thesis
          using True Some z u by (simp add: while_loop.simps [of c b x t] moves_def finishes_def)
      qed (use True r in \<open>simp add: while_loop.simps [of c b x t] moves_def\<close>)
    next
      case False
      then show ?thesis
        by (auto simp: while_loop.simps [of c b x t] moves_def)
    qed
  qed
  then show ?thesis
    by (cases "valid_state s") (auto simp: moves_def)
qed

lemma statement_block_moves:
  assumes p: "\<And>t. moved False s t \<Longrightarrow> \<not> is_at_end t \<Longrightarrow> moves True t (p t)"
  shows "moves False s (statement_block p s)"
proof -
  have step: "moves True t (statement_block_step p xs t)" if "moved False s t" "\<not> is_at_end t" for xs t
    unfolding statement_block_step_def
    by (rule movesI, (rule p [OF that] parser_moves parser_rules | (simp add: that(2); fail))+)
  have "moves False t (block_loop (statement_block_step p) xs t)" if t: "moved c s t" for c xs t
    unfolding block_loop_def
  proof (rule while_loop_moves_from)
    fix y u assume "\<not> check TK_RightBrace u \<and> \<not> is_at_end u" "moved False t u"
    then show "moves True u (statement_block_step p y u)"
      using step moved_weaken [OF moved_trans [OF t], of False u False] by simp
  qed
  note loop = this
  show ?thesis
    unfolding statement_block_def
    by (rule movesI, rule finishes_let, rule consume_moves, rule finishes_given, rule finishes_bind, erule loop)
      (rule parser_moves parser_rules | (simp; fail))+
qed

lemma statement_after_moves:
  assumes p: "\<And>t. moved False s t \<Longrightarrow> \<not> is_at_end t \<Longrightarrow> moves True t (p t)"
  shows "moves False s (statement_after p k s)"
proof -
  have block: "moves False t (statement_block p t)" if t: "moved c s t" for c t
    by (rule statement_block_moves) (use p moved_weaken [OF moved_trans [OF t], of False _ False] in simp)
  have block_after: "finishes False c s t (Option.bind (statement_block p t) (\<lambda>(xs, t). Some (put xs, t)))" for c t put
    by (rule finishes_given, rule finishes_bind, erule block, rule finishes_Some, rule moves_state_refl, simp)
  show ?thesis
    unfolding statement_after_def
    by (rule movesI, (rule block_after parser_moves parser_rules | (simp; fail))+)
qed

lemma statement_moves [parser_moves]: "\<not> is_at_end s \<Longrightarrow> moves True s (parse_workflow_statement_decl s)"
proof (induction "length (ps_tokens s) - ps_current s" arbitrary: s rule: less_induct)
  case less
  show ?case
  proof (cases "valid_state s")
    case True
    let ?n = "next_token s"
    have n: "moved True s ?n"
      using next_moves [of s] True less(2) by (simp add: moves_state_def)
    have later: "moves True t (parse_workflow_statement_decl t)" if "moved False ?n t" "\<not> is_at_end t" for t
      using moved_trans [OF n that(1)] that(2) by (intro less(1)) (auto simp: moved_def valid_state_def)
    have "finishes True True s ?n
        (do { (x, t) \<leftarrow> statement_after parse_workflow_statement_decl (tok_kind (fst (advance_token s))) ?n;
              let t = consume_optional_semicolon t;
              Some (with_range (fst (advance_token s)) t x) })"
      unfolding with_range_def
      by (rule finishes_bind, rule statement_after_moves, erule later, assumption)
        (rule parser_moves parser_rules | (simp; fail))+
    then show ?thesis
      using n True by (subst parse_workflow_statement_decl.simps) (simp add: finishes_def moves_def)
  qed (simp add: moves_def)
qed

lemma load_moves [parser_moves]: "moves False s (parse_workflow_load_decl t s)" 
  unfolding parse_workflow_load_decl_def
  by (rule movesI, (rule parser_moves workflow_rules | (simp add: parser_ends; fail) | (auto simp: parser_unfold at_boundary_def; fail))+)
lemma child_set_step_moves [parser_moves]: "moves (\<not> is_at_end s) s (child_set_step cs s)"
  unfolding child_set_step_def
  by (rule movesI, (rule parser_moves workflow_rules | (simp add: parser_ends; fail) | (auto simp: parser_unfold at_boundary_def; fail))+)
lemma child_field_moves [parser_moves]:  "moves False s (child_id s)" "moves False s (parent_ref s)" "moves False s (a_duration m s)"
  unfolding child_id_def parent_ref_def a_duration_def
  by (rule movesI, (rule parser_moves workflow_rules | (simp add: parser_ends; fail) | (auto simp: parser_unfold at_boundary_def; fail))+)+
lemma create_assignment_moves [parser_moves]:  "moves (\<not> check TK_RightBrace s \<and> \<not> is_at_end s) s (create_assignment s)"
  unfolding create_assignment_def
  by (rule movesI, (rule parser_moves workflow_rules | (simp add: parser_ends; fail) | (auto simp: parser_unfold at_boundary_def; fail))+)
lemma workflow_step_moves [parser_moves]:
  "moves (\<not> is_at_end s) s (child_workflow_step cw s)" "moves (\<not> is_at_end s) s (workflow_step_step wp s)"
  unfolding child_workflow_step_def workflow_step_step_def
  by (rule movesI, (rule parser_moves workflow_rules | (simp add: parser_ends; fail) | (auto simp: parser_unfold; fail))+)+

lemma workflow_block_moves [parser_moves]:
  "moves (check (KW ''child_set'') s) s (parse_workflow_child_set_decl s)"
  "moves (check (KW ''child_workflow'') s) s (parse_workflow_child_workflow_decl s)"
  "moves (check (KW ''step'') s) s (parse_workflow_step_decl s)"
  unfolding parse_workflow_child_set_decl_def parse_workflow_child_workflow_decl_def parse_workflow_step_decl_def
  by (rule parser_moves block_moves parser_rules | (simp add: parser_ends; fail))+

lemma workflow_moves [parser_moves]:
  "moves (\<not> is_at_end s) s (workflow_step d s)"
  unfolding workflow_step_def
  by (rule movesI, (rule parser_moves workflow_rules | (simp add: parser_ends; fail) | (auto simp: parser_unfold; fail))+)

lemma parse_workflow_moves [parser_moves]: "moves (check (KW ''workflow'') s) s (parse_workflow_decl s)"
  unfolding parse_workflow_decl_def
  by (rule parser_moves block_moves parser_rules | (simp add: parser_ends; fail))+

end
