(* ===== verification/Parser_Top.thy ===== *)
theory Parser_Top
  imports Parser_Workflows
begin

text \<open>
  \<open>src/parser_top_level.cpp\<close> and \<open>src/parser.cpp\<close>: the whole specification.
\<close>

definition parse_include_decl :: "parser_state \<Rightarrow> (IncludeDecl \<times> parser_state) option" where
  "parse_include_decl s = do {
     let (start, s) = consume (KW ''include'') ''expected include declaration'' s;
     let (path, s) = consume TK_StringLiteral ''expected include path'' s;
     let (_, s) = consume TK_Semicolon (''expected '' @ quoted '';'' @ '' after include declaration'') s;
     Some (\<lparr>in_path = strip_quotes (tok_lexeme path), in_range = range_from start s\<rparr>, s) }"

definition include_step :: "IncludeDecl list \<Rightarrow> parser_state \<Rightarrow> (IncludeDecl list \<times> parser_state) option" where
  "include_step xs s = do {
     let s = rewind_one (next_token s);
     (x, s) \<leftarrow> parse_include_decl s;
     Some (xs @ [x], s) }"

definition system_member :: "string \<Rightarrow> parser_state \<Rightarrow> SystemDecl \<Rightarrow> SystemDecl" where
  "system_member kind s d = d\<lparr>sy_member_order := sy_member_order d @ [member kind (here s)]\<rparr>"

definition tenant_scope :: "parser_state \<Rightarrow> (TenantScopeDecl \<times> parser_state) option" where
  "tenant_scope s = do {
     let (start, s) = advance_token s;
     (f, s) \<leftarrow> after_word ''scoped_by'' ''expected scoped_by after tenant'' (an_identifier ''expected tenant scope field'') s;
     Some (\<lparr>ts_field_name = f, ts_range = range_from start s\<rparr>, consume_optional_semicolon s) }"

definition system_tenant :: "parser_state \<Rightarrow> (SystemTenantDecl \<times> parser_state) option" where
  "system_tenant s = do {
     let (start, s) = advance_token s;
     let s = (if \<not> at_named ''configured'' s
              then parse_error (here s) ''SSPEC0200'' ''expected configured after system_tenant'' s
              else next_token s);
     Some (new_SystemTenantDecl\<lparr>st_range := range_from start s\<rparr>, consume_optional_semicolon s) }"

text \<open>A member that is a declaration: its kind is noted, then it is parsed and added.\<close>

definition system_decl ::
  "string \<Rightarrow> (parser_state \<Rightarrow> ('a \<times> parser_state) option) \<Rightarrow> ('a \<Rightarrow> SystemDecl \<Rightarrow> SystemDecl) \<Rightarrow> SystemDecl \<Rightarrow>
   parser_state \<Rightarrow> (SystemDecl \<times> parser_state) option" where
  "system_decl kind p add d s = Option.bind (p s) (\<lambda>(x, t). Some (add x (system_member kind s d), t))"

definition system_step :: "SystemDecl \<Rightarrow> parser_state \<Rightarrow> (SystemDecl \<times> parser_state) option" where
  "system_step d s =
     (if check (KW ''tenant'') s then
        system_decl ''tenant'' tenant_scope (\<lambda>x d. d\<lparr>sy_tenant_scope := Some x\<rparr>) d s
      else if at_named ''system_tenant'' s then
        system_decl ''system_tenant'' system_tenant (\<lambda>x d. d\<lparr>sy_system_tenant := Some x\<rparr>) d s
      else if check (KW ''entity'') s then
        system_decl ''entity'' parse_entity_decl (\<lambda>x d. d\<lparr>sy_entities := sy_entities d @ [x]\<rparr>) d s
      else if check (KW ''value'') s then
        system_decl ''value'' parse_value_decl (\<lambda>x d. d\<lparr>sy_values := sy_values d @ [x]\<rparr>) d s
      else if check (KW ''enum'') s then
        system_decl ''enum'' parse_enum_decl (\<lambda>x d. d\<lparr>sy_enums := sy_enums d @ [x]\<rparr>) d s
      else if check (KW ''event'') s then
        system_decl ''event'' parse_event_decl (\<lambda>x d. d\<lparr>sy_events := sy_events d @ [x]\<rparr>) d s
      else if check (KW ''shape'') s then
        system_decl ''shape'' parse_shape_decl (\<lambda>x d. d\<lparr>sy_shapes := sy_shapes d @ [x]\<rparr>) d s
      else if check (KW ''external_system'') s then
        system_decl ''external_system'' parse_external_system_decl
          (\<lambda>x d. d\<lparr>sy_external_systems := sy_external_systems d @ [x]\<rparr>) d s
      else if check (KW ''feature_flag'') s then
        system_decl ''feature_flag'' parse_feature_flag_decl (\<lambda>x d. d\<lparr>sy_feature_flags := sy_feature_flags d @ [x]\<rparr>) d s
      else if check (KW ''log'') s then
        system_decl ''log'' parse_log_decl (\<lambda>x d. d\<lparr>sy_logs := sy_logs d @ [x]\<rparr>) d s
      else if check (KW ''metric'') s then
        system_decl ''metric'' parse_metric_decl (\<lambda>x d. d\<lparr>sy_metrics := sy_metrics d @ [x]\<rparr>) d s
      else if check (KW ''queue'') s then
        system_decl ''queue'' parse_queue_decl (\<lambda>x d. d\<lparr>sy_queues := sy_queues d @ [x]\<rparr>) d s
      else if check (KW ''lease'') s then
        system_decl ''lease'' parse_lease_decl (\<lambda>x d. d\<lparr>sy_leases := sy_leases d @ [x]\<rparr>) d s
      else if check (KW ''worker'') s then
        system_decl ''worker'' parse_worker_decl (\<lambda>x d. d\<lparr>sy_workers := sy_workers d @ [x]\<rparr>) d s
      else if check (KW ''api_server'') s then
        system_decl ''api_server'' parse_api_server_decl (\<lambda>x d. d\<lparr>sy_api_servers := sy_api_servers d @ [x]\<rparr>) d s
      else if check (KW ''api'') s then
        system_decl ''api'' parse_api_decl (\<lambda>x d. d\<lparr>sy_apis := sy_apis d @ [x]\<rparr>) d s
      else if check (KW ''workflow'') s then
        system_decl ''workflow'' parse_workflow_decl (\<lambda>x d. d\<lparr>sy_workflows := sy_workflows d @ [x]\<rparr>) d s
      else if check (KW ''policy'') s then
        system_decl ''policy'' parse_policy_decl (\<lambda>x d. d\<lparr>sy_policies := sy_policies d @ [x]\<rparr>) d s
      else skipping d s)"

definition parse_system_decl :: "parser_state \<Rightarrow> (SystemDecl \<times> parser_state) option" where
  "parse_system_decl = decl_frame ''system'' ''expected system declaration'' ''system''
     (\<lambda>name. block_loop system_step (new_SystemDecl\<lparr>sy_name := name\<rparr>)) (\<lambda>r d. d\<lparr>sy_range := r\<rparr>)"

definition parse_version :: "parser_state \<Rightarrow> (string option \<times> parser_state) option" where
  "parse_version s =
     (if check (KW ''statespec'') s then do {
        let s = next_token s;
        let (version, s) = consume TK_DecimalLiteral ''expected StateSpec version'' s;
        let (_, s) = consume TK_Semicolon (''expected '' @ quoted '';'' @ '' after StateSpec version'') s;
        Some (Some (tok_lexeme version), s) }
      else Some (None, s))"

definition parse_system :: "parser_state \<Rightarrow> (SystemDecl option \<times> parser_state) option" where
  "parse_system s =
     (if check (KW ''system'') s then do {
        (d, s) \<leftarrow> parse_system_decl s;
        Some (Some d, s) }
      else do {
        let s = parse_error (here s) ''SSPEC0201'' ''expected system declaration'' s;
        Some (None, s) })"

definition trailing_step :: "unit \<Rightarrow> parser_state \<Rightarrow> (unit \<times> parser_state) option" where
  "trailing_step _ s = do {
     let s = parse_error (here s) ''SSPEC0202'' ''unexpected token after system declaration'' s;
     let s = next_token s;
     Some ((), s) }"

definition parse_spec :: "parser_state \<Rightarrow> (Spec \<times> parser_state) option" where
  "parse_spec s = do {
     (version, s) \<leftarrow> parse_version s;
     (includes, s) \<leftarrow> while_loop (\<lambda>_. check (KW ''include'')) include_step [] s;
     (system, s) \<leftarrow> parse_system s;
     (u, s) \<leftarrow> while_loop (\<lambda>_ s. \<not> is_at_end s) trailing_step () s;
     Some (\<lparr>sp_version = version, sp_includes = includes, sp_system = system\<rparr>, s) }"

text \<open>\<open>Parser::parse\<close> on the tokens and the diagnostics so far: the tree and all diagnostics.\<close>

definition parse :: "token list \<Rightarrow> diagnostic_bag \<Rightarrow> (Spec \<times> diagnostic_bag) option" where
  "parse ts ds = map_option (\<lambda>(spec, s). (spec, ps_diagnostics s)) (parse_spec (new_parser ts ds))"

section \<open>It returns\<close>

lemma include_moves [parser_moves]:
  "moves (check (KW ''include'') s) s (parse_include_decl s)"
  unfolding parse_include_decl_def
  by (rule movesI, (rule parser_moves parser_rules | (simp add: parser_ends; fail))+)

lemma rewind_next: "\<not> is_at_end s \<Longrightarrow> rewind_one (next_token s) = s"
  by (simp add: rewind_one_def advance_token_def Let_def)

lemma include_step_moves [parser_moves]: "check (KW ''include'') s \<Longrightarrow> moves True s (include_step xs s)"
  unfolding include_step_def
  by (simp only: rewind_next check_not_end Let_def not_False_eq_True)
    (rule parser_moves parser_rules | (simp; fail))+

lemma system_part_moves [parser_moves]:
  "moves (\<not> is_at_end s) s (tenant_scope s)" "moves (\<not> is_at_end s) s (system_tenant s)"
  "moves False s (parse_version s)"
  unfolding tenant_scope_def system_tenant_def parse_version_def
  by (rule movesI, (rule parser_moves workflow_rules | (simp add: parser_ends; fail))+)+

lemma system_decl_moves: "moves b s (p s) \<Longrightarrow> moves b s (system_decl k p add d s)"
  unfolding system_decl_def
  by (rule movesI, rule finishes_bind, assumption) (rule parser_moves parser_rules | (simp; fail))+

lemma system_step_moves [parser_moves]: "moves (\<not> is_at_end s) s (system_step d s)"
  unfolding system_step_def
  by (rule movesI, (rule system_decl_moves parser_moves parser_rules | (simp add: parser_ends; fail))+)

lemma system_moves [parser_moves]: "moves (check (KW ''system'') s) s (parse_system_decl s)"
  unfolding parse_system_decl_def
  by (rule parser_moves block_moves parser_rules | (simp add: parser_ends; fail))+

lemma optional_system_moves [parser_moves]:
  "moves False s (parse_system s)" "moves (\<not> is_at_end s) s (trailing_step u s)"
  unfolding parse_system_def trailing_step_def
  by (rule movesI, (rule parser_moves parser_rules | (simp add: parser_ends; fail) | (auto simp: parser_unfold; fail))+)+

lemma spec_moves: "moves False s (parse_spec s)"
  unfolding parse_spec_def
  by (rule movesI, (rule parser_moves parser_rules | (simp add: parser_ends; fail))+)

end
