(* ===== verification/Parser_Reads.thy ===== *)
theory Parser_Reads
  imports Parser_Top
begin

text \<open>
  What the parser makes of tokens that it accepts. \<open>reads\<close> says that an operation takes exactly these
  words, without a diagnostic, and that its result has a property; its rules follow the combinators of
  \<open>Parser_Core\<close> and \<open>Parser_Common\<close>.
\<close>

section \<open>The words ahead\<close>

text \<open>A word is the kind and the lexeme of a token.\<close>

type_synonym word = "token_kind \<times> string"

definition words :: "token list \<Rightarrow> word list" where
  "words = map (\<lambda>t. (tok_kind t, tok_lexeme t))"

lemma words_simps [simp]: "words [] = []" "words (t # ts) = (tok_kind t, tok_lexeme t) # words ts"
    "words (ts @ us) = words ts @ words us" "length (words ts) = length ts"
  by (simp_all add: words_def)

definition stands :: "word list \<Rightarrow> diagnostic_bag \<Rightarrow> parser_state \<Rightarrow> bool" where
  "stands ws ds s \<longleftrightarrow> valid_state s \<and> words (drop (ps_current s) (ps_tokens s)) = ws \<and> ps_diagnostics s = ds"

definition reads ::
  "(parser_state \<Rightarrow> ('a \<times> parser_state) option) \<Rightarrow> word list \<Rightarrow> (word list \<Rightarrow> bool) \<Rightarrow> ('a \<Rightarrow> bool) \<Rightarrow> bool" where
  "reads p ws Q P \<longleftrightarrow>
     (\<forall>s r ds. stands (ws @ r) ds s \<longrightarrow> Q r \<longrightarrow> (\<exists>x s'. p s = Some (x, s') \<and> P x \<and> stands r ds s'))"

lemma reads_intro:
  "(\<And>s r ds. stands (ws @ r) ds s \<Longrightarrow> Q r \<Longrightarrow> \<exists>x s'. p s = Some (x, s') \<and> P x \<and> stands r ds s') \<Longrightarrow> reads p ws Q P"
  by (simp add: reads_def)

lemma reads_elim:
  "reads p ws Q P \<Longrightarrow> stands (ws @ r) ds s \<Longrightarrow> Q r \<Longrightarrow> \<exists>x s'. p s = Some (x, s') \<and> P x \<and> stands r ds s'"
  by (simp add: reads_def)

lemma stands_ne: "stands ws ds s \<Longrightarrow> ws \<noteq> []"
  by (auto simp: stands_def valid_state_def words_def)

lemma stands_peek:
  assumes "stands ((k, w) # r) ds s"
  shows "tok_kind (peek_token 0 s) = k" "tok_lexeme (peek_token 0 s) = w"
  using assms by (auto simp: stands_def valid_state_def peek_token_def words_def Cons_nth_drop_Suc [symmetric])

lemma stands_peek_1:
  assumes "stands ((k, w) # (k', w') # r) ds s"
  shows "tok_kind (peek_token 1 s) = k'"
proof -
  have "length (words (drop (ps_current s) (ps_tokens s))) = Suc (Suc (length r))"
    using assms by (simp add: stands_def)
  then have l: "Suc (ps_current s) < length (ps_tokens s)"
    by simp
  then have "drop (ps_current s) (ps_tokens s) = ps_tokens s ! ps_current s # ps_tokens s ! Suc (ps_current s) # drop (Suc (Suc (ps_current s))) (ps_tokens s)"
    by (metis Cons_nth_drop_Suc Suc_lessD)
  then show ?thesis
    using assms l by (auto simp: stands_def peek_token_def)
qed

lemma stands_tests:
  assumes "stands ((k, w) # r) ds s"
  shows "is_at_end s \<longleftrightarrow> k = TK_EndOfFile" "check k' s \<longleftrightarrow> k \<noteq> TK_EndOfFile \<and> k' = k"
    "is_named_identifier (peek_token 0 s) n \<longleftrightarrow> k = TK_Identifier \<and> w = n"
    "check_any ks s \<longleftrightarrow> k \<noteq> TK_EndOfFile \<and> k \<in> set ks"
  using stands_peek [OF assms]
  by (auto simp: is_at_end_def check_def is_named_identifier_def check_any_def list_ex_iff)

lemma stands_next:
  assumes s: "stands ((k, w) # r) ds s" and k: "k \<noteq> TK_EndOfFile"
  shows "stands r ds (next_token s)" "tok_kind (fst (advance_token s)) = k" "tok_lexeme (fst (advance_token s)) = w"
    "previous (next_token s) = fst (advance_token s)"
proof -
  have e: "\<not> is_at_end s"
    using stands_tests(1) [OF s] k by simp
  have v: "valid_state s"
    using s by (simp add: stands_def)
  have l: "Suc (ps_current s) < length (ps_tokens s)"
    using valid_next [OF v e] .
  then have d: "drop (ps_current s) (ps_tokens s) = ps_tokens s ! ps_current s # drop (Suc (ps_current s)) (ps_tokens s)"
    by (simp add: Cons_nth_drop_Suc)
  show "stands r ds (next_token s)"
    using s e l d by (simp add: stands_def valid_state_def)
  show "tok_kind (fst (advance_token s)) = k" "tok_lexeme (fst (advance_token s)) = w"
    using s e d by (simp_all add: stands_def advance_token_def Let_def previous_def)
  show "previous (next_token s) = fst (advance_token s)"
    by (simp add: advance_token_def Let_def)
qed

section \<open>Rules\<close>

named_theorems reads_rules

lemma reads_weaken:
  "reads p ws Q P \<Longrightarrow> (\<And>r. Q' r \<Longrightarrow> Q r) \<Longrightarrow> (\<And>x. P x \<Longrightarrow> P' x) \<Longrightarrow> reads p ws Q' P'"
  unfolding reads_def by blast

lemma reads_cong:
  assumes "reads q ws Q P" and "\<And>s r ds. stands (ws @ r) ds s \<Longrightarrow> Q r \<Longrightarrow> p s = q s"
  shows "reads p ws Q P"
  using assms unfolding reads_def by metis

lemma reads_bind:
  assumes "reads p ws S R" and "\<And>x. R x \<Longrightarrow> reads (f x) vs Q P" and "\<And>r. Q r \<Longrightarrow> S (vs @ r)"
  shows "reads (\<lambda>s. Option.bind (p s) (\<lambda>(x, s). f x s)) (ws @ vs) Q P"
proof (rule reads_intro)
  fix s r ds assume s: "stands ((ws @ vs) @ r) ds s" "Q r"
  obtain x t where x: "p s = Some (x, t)" "R x" "stands (vs @ r) ds t"
    using reads_elim [OF assms(1), of "vs @ r" ds s] s assms(3) by auto
  then show "\<exists>x s'. Option.bind (p s) (\<lambda>(x, s). f x s) = Some (x, s') \<and> P x \<and> stands r ds s'"
    using reads_elim [OF assms(2) [OF x(2)] x(3) s(2)] by simp
qed

lemma reads_bind_tail:
  assumes "reads p ws Q R" and "\<And>x. R x \<Longrightarrow> reads (f x) [] Q P"
  shows "reads (\<lambda>s. Option.bind (p s) (\<lambda>(x, s). f x s)) ws Q P"
  using reads_bind [of p ws Q R f "[]" Q P] assms by simp

lemma reads_advance [reads_rules]:
  assumes "k \<noteq> TK_EndOfFile" and "\<And>t. tok_kind t = k \<Longrightarrow> tok_lexeme t = w \<Longrightarrow> reads (f t) vs Q P"
  shows "reads (\<lambda>s. let (t, s) = advance_token s in f t s) ((k, w) # vs) Q P"
proof (rule reads_intro)
  fix s r ds assume s: "stands (((k, w) # vs) @ r) ds s" "Q r"
  then have "stands ((k, w) # vs @ r) ds s" by simp
  note n = stands_next [OF this assms(1)]
  have "\<exists>x s'. f (fst (advance_token s)) (next_token s) = Some (x, s') \<and> P x \<and> stands r ds s'"
    using reads_elim [OF assms(2) [OF n(2,3)] n(1) s(2)] .
  then show "\<exists>x s'. (let (t, s) = advance_token s in f t s) = Some (x, s') \<and> P x \<and> stands r ds s'"
    by (simp add: case_prod_beta)
qed

lemma reads_consume [reads_rules]:
  assumes "k \<noteq> TK_EndOfFile" and "\<And>t. tok_kind t = k \<Longrightarrow> tok_lexeme t = w \<Longrightarrow> reads (f t) vs Q P"
  shows "reads (\<lambda>s. let (t, s) = consume k m s in f t s) ((k, w) # vs) Q P"
proof (rule reads_cong [OF reads_advance [OF assms]])
  fix s r ds assume "stands (((k, w) # vs) @ r) ds s"
  then have "check k s"
    using stands_tests(2) [of k w "vs @ r" ds s k] assms(1) by simp
  then show "(let (t, s) = consume k m s in f t s) = (let (t, s) = advance_token s in f t s)"
    by (simp add: consume_def)
qed

lemma reads_next [reads_rules]:
  assumes "k \<noteq> TK_EndOfFile" and "reads f vs Q P"
  shows "reads (\<lambda>s. let s = next_token s in f s) ((k, w) # vs) Q P"
proof (rule reads_intro)
  fix s r ds assume s: "stands (((k, w) # vs) @ r) ds s" "Q r"
  then have "stands (vs @ r) ds (next_token s)"
    using stands_next(1) [of k w "vs @ r" ds s] assms(1) by simp
  then show "\<exists>x s'. (let s = next_token s in f s) = Some (x, s') \<and> P x \<and> stands r ds s'"
    using reads_elim [OF assms(2) _ s(2)] by simp
qed

lemma reads_Some: "(\<And>s. P (x s)) \<Longrightarrow> reads (\<lambda>s. Some (x s, s)) [] Q P"
  by (rule reads_intro) simp

text \<open>What may follow a member or a declaration: a word that starts another one, or the end of the block.\<close>

definition starts_line :: "word list \<Rightarrow> bool" where
  "starts_line ws \<longleftrightarrow> ws \<noteq> [] \<and>
     (case fst (hd ws) of TK_Identifier \<Rightarrow> True | TK_RightBrace \<Rightarrow> True | TK_EndOfFile \<Rightarrow> True
      | TK_Keyword t \<Rightarrow> t \<noteq> ''where'' \<and> t \<noteq> ''when'' \<and> t \<noteq> ''as'' | _ \<Rightarrow> False)"

definition closes :: "word list \<Rightarrow> bool" where
  "closes ws \<longleftrightarrow> ws \<noteq> [] \<and> fst (hd ws) = TK_RightBrace"

lemma closes_starts_line: "closes r \<Longrightarrow> starts_line r"
  by (simp add: closes_def starts_line_def)

lemma starts_line_append: "starts_line ws \<Longrightarrow> starts_line (ws @ r)"
  by (cases ws) (simp_all add: starts_line_def)

text \<open>The optional semicolon, there or not.\<close>

lemma reads_semicolon [reads_rules]:
  assumes "reads f vs Q P"
  shows "reads (\<lambda>s. let s = consume_optional_semicolon s in f s) ((TK_Semicolon, w) # vs) Q P"
proof (rule reads_cong [OF reads_next [OF _ assms]])
  show "TK_Semicolon \<noteq> TK_EndOfFile" by simp
  fix s r ds assume "stands (((TK_Semicolon, w) # vs) @ r) ds s"
  then show "(let s = consume_optional_semicolon s in f s) = (let s = next_token s in f s)"
    using stands_tests(2) [of TK_Semicolon w "vs @ r" ds s TK_Semicolon]
    by (simp add: consume_optional_semicolon_def match_token_if)
qed

lemma reads_no_semicolon:
  assumes "reads f [] Q P" and "\<And>r. Q r \<Longrightarrow> starts_line r"
  shows "reads (\<lambda>s. let s = consume_optional_semicolon s in f s) [] Q P"
proof (rule reads_cong [OF assms(1)])
  fix s r ds assume s: "stands ([] @ r) ds s" and "Q r"
  then have "starts_line r"
    using assms(2) by blast
  then obtain k w u where r: "r = (k, w) # u" "k \<noteq> TK_Semicolon"
    by (cases r) (auto simp: starts_line_def split: token_kind.splits)
  then show "(let s = consume_optional_semicolon s in f s) = f s"
    using stands_tests(2) [of k w u ds s TK_Semicolon] s
    by (simp add: consume_optional_semicolon_def match_token_if)
qed

subsection \<open>Branches and loops\<close>

lemma reads_branch:
  assumes "k \<noteq> TK_EndOfFile" and "reads p vs starts_line P" and "\<And>v. P v \<Longrightarrow> P' (put v)"
  shows "reads (branch p put) ((k, w) # vs) starts_line P'"
proof -
  have "reads (\<lambda>s. Option.bind (p s) (\<lambda>(v, s). let s = consume_optional_semicolon s in Some (put v, s))) vs starts_line P'"
    by (rule reads_bind_tail [OF assms(2)] reads_no_semicolon reads_Some assms(3) | assumption)+
  from reads_next [OF assms(1) this] show ?thesis
    unfolding branch_def .
qed

text \<open>A part of a block: its words, and what it does to the declaration, ranges erased.\<close>

type_synonym 'd part = "word list \<times> ('d \<Rightarrow> 'd)"

definition reads_part ::
  "('d \<Rightarrow> parser_state \<Rightarrow> ('d \<times> parser_state) option) \<Rightarrow> ('d \<Rightarrow> 'e) \<Rightarrow> 'e part \<Rightarrow> bool" where
  "reads_part step erase = (\<lambda>(ws, u).
     starts_line ws \<and> fst (hd ws) \<noteq> TK_RightBrace \<and> fst (hd ws) \<noteq> TK_EndOfFile \<and>
     (\<forall>d. reads (step d) ws starts_line (\<lambda>d'. erase d' = u (erase d))))"

lemma reads_block_loop:
  assumes "list_all (reads_part step erase) ps"
  shows "reads (block_loop step d) (concat (map fst ps)) closes (\<lambda>d'. erase d' = fold snd ps (erase d))"
  using assms
proof (induction ps arbitrary: d)
  case Nil
  show ?case
  proof (rule reads_cong)
    show "reads (\<lambda>s. Some (d, s)) (concat (map fst [])) closes (\<lambda>d'. erase d' = fold snd [] (erase d))"
      using reads_Some [of "\<lambda>d'. erase d' = erase d" "\<lambda>_. d"] by simp
  next
    fix s r ds assume s: "stands (concat (map fst []) @ r) ds s" "closes r"
    then obtain w u where "r = (TK_RightBrace, w) # u"
      by (cases r) (auto simp: closes_def)
    then have "check TK_RightBrace s"
      using stands_tests(2) [of TK_RightBrace w u ds s TK_RightBrace] s(1) by simp
    then show "block_loop step d s = Some (d, s)"
      by (simp add: block_loop_def while_loop.simps)
  qed
next
  case (Cons p ps)
  obtain ws u where p: "p = (ws, u)" by (cases p)
  have ws: "starts_line ws" "fst (hd ws) \<noteq> TK_RightBrace" "fst (hd ws) \<noteq> TK_EndOfFile"
    and step: "reads (step d) ws starts_line (\<lambda>d'. erase d' = u (erase d))" for d
    using Cons.prems p by (simp_all add: reads_part_def)
  have more: "starts_line (concat (map fst ps) @ r)" if "closes r" for r
    using Cons.prems that by (cases ps) (auto simp: reads_part_def closes_starts_line starts_line_append)
  have "reads (\<lambda>s. Option.bind (step d s) (\<lambda>(d', s). block_loop step d' s)) (ws @ concat (map fst ps)) closes
      (\<lambda>d'. erase d' = fold snd ps (u (erase d)))"
  proof (rule reads_bind [OF step])
    fix d' assume "erase d' = u (erase d)"
    then show "reads (block_loop step d') (concat (map fst ps)) closes (\<lambda>d'. erase d' = fold snd ps (u (erase d)))"
      using Cons.IH [of d'] Cons.prems by simp
  qed (use more in blast)
  then have "reads (block_loop step d) (ws @ concat (map fst ps)) closes (\<lambda>d'. erase d' = fold snd ps (u (erase d)))"
  proof (rule reads_cong)
    fix s r ds assume s: "stands ((ws @ concat (map fst ps)) @ r) ds s"
    obtain k w vs where k: "ws = (k, w) # vs" "k \<noteq> TK_RightBrace" "k \<noteq> TK_EndOfFile"
      using ws by (cases ws) (auto simp: starts_line_def)
    have "\<not> check TK_RightBrace s \<and> \<not> is_at_end s"
      using stands_tests(1,2) [of k w "(vs @ concat (map fst ps)) @ r" ds s] s k by simp
    then show "block_loop step d s = Option.bind (step d s) (\<lambda>(d', s). block_loop step d' s)"
      by (simp add: block_loop_def while_loop.simps [of _ step d s])
  qed
  then show ?case
    by (simp add: p)
qed

lemma fold_push: "fold snd (map (\<lambda>x. (w x, \<lambda>ys. ys @ [e x])) xs) ys = ys @ map e xs"
  by (induction xs arbitrary: ys) simp_all

lemma reads_push_loop:
  assumes "\<And>x. x \<in> set xs \<Longrightarrow> starts_line (w x) \<and> fst (hd (w x)) \<noteq> TK_RightBrace \<and> fst (hd (w x)) \<noteq> TK_EndOfFile \<and>
      reads p (w x) starts_line (\<lambda>y. erase y = e x)"
  shows "reads (push_loop p ys) (concat (map w xs)) closes (\<lambda>zs. map erase zs = map erase ys @ map e xs)"
proof -
  let ?ps = "map (\<lambda>x. (w x, \<lambda>ys. ys @ [e x])) xs"
  have "list_all (reads_part (\<lambda>xs s. Option.bind (p s) (\<lambda>(x, s). Some (xs @ [x], s))) (map erase)) ?ps"
    unfolding list_all_iff
  proof
    fix q assume "q \<in> set ?ps"
    then obtain x where x: "x \<in> set xs" "q = (w x, \<lambda>ys. ys @ [e x])"
      by auto
    note a = assms [OF x(1)]
    have "reads (\<lambda>s. Option.bind (p s) (\<lambda>(y, s). Some (zs @ [y], s))) (w x) starts_line
        (\<lambda>zs'. map erase zs' = map erase zs @ [e x])" for zs
      by (rule reads_bind_tail [where R = "\<lambda>y. erase y = e x"]) (use a in \<open>auto intro: reads_Some\<close>)
    then show "reads_part (\<lambda>xs s. Option.bind (p s) (\<lambda>(x, s). Some (xs @ [x], s))) (map erase) q"
      using a x(2) by (simp add: reads_part_def)
  qed
  from reads_block_loop [OF this, of ys] show ?thesis
    by (simp add: push_loop_def fold_push comp_def)
qed

definition block_words :: "word list \<Rightarrow> word list" where
  "block_words ws = (TK_LeftBrace, ''{'') # ws @ [(TK_RightBrace, ''}'')]"

lemma reads_closing: "k \<noteq> TK_EndOfFile \<Longrightarrow> P x \<Longrightarrow> reads (\<lambda>s. let (_, s) = consume k m s in Some (x, s)) [(k, w)] Q P"
  by (rule reads_consume, assumption, rule reads_Some)

lemma reads_braced:
  assumes "reads p ws closes P"
  shows "reads (braced a b p) (block_words ws) Q P"
proof -
  have "reads (\<lambda>s. Option.bind (p s) (\<lambda>(x, s). let (_, s) = consume TK_RightBrace m s in Some (x, s)))
      (ws @ [(TK_RightBrace, ''}'')]) Q P" for m
    by (rule reads_bind [OF assms]) (rule reads_closing, simp_all add: closes_def)
  then show ?thesis
    unfolding braced_def block_words_def by (intro reads_consume) simp_all
qed

definition decl_words :: "string \<Rightarrow> string \<Rightarrow> word list \<Rightarrow> word list" where
  "decl_words keyword name ws = (KW keyword, keyword) # (TK_Identifier, name) # block_words ws"

lemma reads_decl_frame:
  assumes "reads (body name) ws closes P" and "\<And>r d. P d \<Longrightarrow> P' (ranged r d)"
  shows "reads (decl_frame keyword expected what body ranged) (decl_words keyword name ws) Q P'"
proof -
  have b: "reads (\<lambda>s. Option.bind (braced a c (body name) s) (\<lambda>(d, s). Some (ranged (range_from start s) d, s)))
      (block_words ws) Q P'" for a c start
    by (rule reads_bind_tail [OF reads_braced [OF assms(1)]] reads_Some assms(2) | assumption)+
  show ?thesis
    unfolding decl_frame_def decl_words_def
    by (rule reads_consume, simp, rule reads_consume, simp) (use b in simp)
qed

section \<open>Names, values, types\<close>

text \<open>A test of the current token, decided by the words or by what follows them.\<close>

lemma reads_if_head [reads_rules]:
  assumes "k \<noteq> TK_EndOfFile" and "reads A ((k, w) # ws) Q P"
  shows "reads (\<lambda>s. if check k s then A s else B s) ((k, w) # ws) Q P"
proof (rule reads_cong [OF assms(2)])
  fix s r ds assume "stands (((k, w) # ws) @ r) ds s"
  then have "check k s"
    using stands_tests(2) [of k w "ws @ r" ds s k] assms(1) by simp
  then show "(if check k s then A s else B s) = A s" by simp
qed

lemma reads_if_not:
  assumes "reads B ws Q P" and "\<And>r. Q r \<Longrightarrow> ws @ r \<noteq> [] \<Longrightarrow> fst (hd (ws @ r)) \<noteq> k"
  shows "reads (\<lambda>s. if check k s then A s else B s) ws Q P"
proof (rule reads_cong [OF assms(1)])
  fix s r ds assume s: "stands (ws @ r) ds s" and "Q r"
  then have "fst (hd (ws @ r)) \<noteq> k"
    using assms(2) stands_ne by blast
  then have "\<not> check k s"
    using s stands_tests(2) [of "fst (hd (ws @ r))" "snd (hd (ws @ r))" "tl (ws @ r)" ds s k] stands_ne [OF s] by simp
  then show "(if check k s then A s else B s) = B s" by simp
qed

lemma reads_identifier: "reads (an_identifier m) [(TK_Identifier, n)] Q (\<lambda>x. x = n)"
  unfolding an_identifier_def by (rule reads_consume, simp, rule reads_Some) simp

lemma reads_boolean: "reads (a_boolean m) [(TK_BooleanLiteral, w)] Q (\<lambda>x. x = (w = ''true''))"
  unfolding a_boolean_def by (rule reads_consume, simp, rule reads_Some) simp

lemma reads_integer: "stoi w = Some n \<Longrightarrow> reads (an_integer m) [(TK_IntegerLiteral, w)] Q (\<lambda>x. x = n)"
  unfolding an_integer_def parse_int_or_zero_def by (rule reads_consume, simp, rule reads_Some) simp

lemma reads_duration: "reads (a_duration m) [(TK_DurationLiteral, w)] Q (\<lambda>x. x = w)"
  unfolding a_duration_def by (rule reads_consume, simp, rule reads_Some) simp

fun qualified_words :: "word list \<Rightarrow> bool" where
  "qualified_words [(k, w)] \<longleftrightarrow> k = TK_Identifier"
| "qualified_words ((k, w) # (l, v) # ws) \<longleftrightarrow> k = TK_Identifier \<and> l = TK_Dot \<and> v = ''.'' \<and> qualified_words ws"
| "qualified_words _ \<longleftrightarrow> False"

definition no_dot :: "word list \<Rightarrow> bool" where
  "no_dot r \<longleftrightarrow> r \<noteq> [] \<and> fst (hd r) \<noteq> TK_Dot"

definition no_comma :: "word list \<Rightarrow> bool" where
  "no_comma r \<longleftrightarrow> r \<noteq> [] \<and> fst (hd r) \<noteq> TK_Comma"

lemma starts_line_not:
  "starts_line r \<Longrightarrow> no_dot r \<and> no_comma r \<and>
     fst (hd r) \<notin> {TK_Semicolon, TK_Less, TK_LeftBracket, TK_Question, TK_LeftBrace, TK_Equals, KW ''where'', KW ''when'', KW ''as''}"
  by (auto simp: starts_line_def no_dot_def no_comma_def split: token_kind.splits)

text \<open>A loop over pairs of a separator and an identifier.\<close>

lemma reads_separated:
  assumes sep: "k \<noteq> TK_EndOfFile" and Q: "\<And>r. Q r \<Longrightarrow> r \<noteq> [] \<and> fst (hd r) \<noteq> k"
  shows "reads (while_loop (\<lambda>_. check k) (\<lambda>a s. let s = next_token s; (t, s) = consume TK_Identifier m s in Some (f a (tok_lexeme t), s)) a)
     (concat (map (\<lambda>n. [(k, w), (TK_Identifier, n)]) ns)) Q (\<lambda>x. x = foldl f a ns)"
proof (induction ns arbitrary: a)
  case Nil
  show ?case
  proof (rule reads_cong)
    show "reads (\<lambda>s. Some (a, s)) (concat (map (\<lambda>n. [(k, w), (TK_Identifier, n)]) [])) Q (\<lambda>x. x = foldl f a [])"
      using reads_Some [of "\<lambda>x. x = a" "\<lambda>_. a"] by simp
  next
    fix s r ds assume s: "stands (concat (map (\<lambda>n. [(k, w), (TK_Identifier, n)]) []) @ r) ds s" "Q r"
    then have "\<not> check k s"
      using Q [OF s(2)] stands_tests(2) [of "fst (hd r)" "snd (hd r)" "tl r" ds s k] by auto
    then show "while_loop (\<lambda>_. check k) (\<lambda>a s. let s = next_token s; (t, s) = consume TK_Identifier m s in Some (f a (tok_lexeme t), s)) a s = Some (a, s)"
      by (simp add: while_loop.simps)
  qed
next
  case (Cons n ns)
  let ?b = "\<lambda>a s. let s = next_token s; (t, s) = consume TK_Identifier m s in Some (f a (tok_lexeme t), s)"
  have b: "reads (?b a) [(k, w), (TK_Identifier, n)] (\<lambda>_. True) (\<lambda>x. x = f a n)"
    by (rule reads_next [OF sep], rule reads_consume, simp, rule reads_Some) simp
  have "reads (\<lambda>s. Option.bind (?b a s) (\<lambda>(x, s). while_loop (\<lambda>_. check k) ?b x s))
      ([(k, w), (TK_Identifier, n)] @ concat (map (\<lambda>n. [(k, w), (TK_Identifier, n)]) ns)) Q (\<lambda>x. x = foldl f a (n # ns))"
    by (rule reads_bind [OF b]) (use Cons.IH in simp_all)
  then show ?case
    unfolding list.map concat.simps
  proof (rule reads_cong)
    fix s r ds assume "stands (([(k, w), (TK_Identifier, n)] @ concat (map (\<lambda>n. [(k, w), (TK_Identifier, n)]) ns)) @ r) ds s"
    then have "check k s"
      using stands_tests(2) [of k w "(TK_Identifier, n) # concat (map (\<lambda>n. [(k, w), (TK_Identifier, n)]) ns) @ r" ds s k] sep by simp
    then show "while_loop (\<lambda>_. check k) ?b a s = Option.bind (?b a s) (\<lambda>(x, s). while_loop (\<lambda>_. check k) ?b x s)"
      by (subst while_loop.simps) simp
  qed
qed

lemma qualified_words_split:
  "qualified_words ws \<Longrightarrow> \<exists>n ns. ws = (TK_Identifier, n) # concat (map (\<lambda>n. [(TK_Dot, ''.''), (TK_Identifier, n)]) ns) \<and>
     concat (map snd ws) = foldl (\<lambda>a n. a @ ''.'' @ n) n ns"
proof (induction ws rule: qualified_words.induct)
  case (1 k w)
  then show ?case by (intro exI [of _ w] exI [of _ "[]"]) simp
next
  case (2 k w l v ws)
  then obtain n ns where n: "ws = (TK_Identifier, n) # concat (map (\<lambda>n. [(TK_Dot, ''.''), (TK_Identifier, n)]) ns)"
      "concat (map snd ws) = foldl (\<lambda>a n. a @ ''.'' @ n) n ns"
    by auto
  have "foldl (\<lambda>a n. a @ ''.'' @ n) (p @ q) ns = p @ foldl (\<lambda>a n. a @ ''.'' @ n) q ns" for p q
    by (induction ns arbitrary: q) simp_all
  from this [of "w @ ''.''" n] this [of w "''.'' @ n"]
  show ?case
    using 2(2) n by (intro exI [of _ w] exI [of _ "n # ns"]) simp
qed simp_all

lemma reads_qualified_name:
  assumes "qualified_words ws"
  shows "reads (parse_qualified_name c) ws no_dot (\<lambda>x. x = concat (map snd ws))"
proof -
  obtain n ns where n: "ws = (TK_Identifier, n) # concat (map (\<lambda>n. [(TK_Dot, ''.''), (TK_Identifier, n)]) ns)"
      "concat (map snd ws) = foldl (\<lambda>a n. a @ ''.'' @ n) n ns"
    using qualified_words_split [OF assms] by blast
  show ?thesis
    unfolding n(2) parse_qualified_name_def
  proof (subst n(1), rule reads_consume)
    fix t :: token assume "tok_lexeme t = n"
    then show "reads (while_loop (\<lambda>_. check TK_Dot)
          (\<lambda>name s. let s = next_token s; (t, s) = consume TK_Identifier (''expected name after '' @ quoted ''.'') s
             in Some (name @ ''.'' @ tok_lexeme t, s)) (tok_lexeme t))
        (concat (map (\<lambda>n. [(TK_Dot, ''.''), (TK_Identifier, n)]) ns)) no_dot (\<lambda>x. x = foldl (\<lambda>a n. a @ ''.'' @ n) n ns)"
      using reads_separated [of TK_Dot no_dot _ "\<lambda>a n. a @ ''.'' @ n" n "''.''" ns] by (simp add: no_dot_def)
  qed simp
qed

definition simple_words :: "word list \<Rightarrow> bool" where
  "simple_words ws \<longleftrightarrow> qualified_words ws \<or>
     (case ws of [(k, w)] \<Rightarrow> k \<in> set literal_kinds | _ \<Rightarrow> False)"

lemma reads_simple_value:
  assumes "simple_words ws"
  shows "reads (parse_simple_value c) ws no_dot (\<lambda>x. x = (if qualified_words ws then concat (map snd ws) else strip_quotes (snd (hd ws))))"
proof (cases "qualified_words ws")
  case True
  then obtain w us where ws: "ws = (TK_Identifier, w) # us"
    using qualified_words_split by blast
  show ?thesis
    unfolding parse_simple_value_def ws
    by (rule reads_if_head, simp) (use reads_qualified_name [OF True, of c] True ws in simp)
next
  case False
  then obtain k w where ws: "ws = [(k, w)]" "k \<in> set literal_kinds"
    using assms by (auto simp: simple_words_def split: list.splits)
  then have k: "k \<noteq> TK_EndOfFile" "k \<noteq> TK_Identifier"
    by (auto simp: literal_kinds_def)
  have v: "(if qualified_words ws then concat (map snd ws) else strip_quotes (snd (hd ws))) = strip_quotes w"
    using False ws by simp
  show ?thesis
    unfolding v
  proof (rule reads_intro)
    fix s r ds assume "stands (ws @ r) ds s" "no_dot r"
    then have s: "stands ((k, w) # r) ds s"
      using ws by simp
    show "\<exists>x s'. parse_simple_value c s = Some (x, s') \<and> x = strip_quotes w \<and> stands r ds s'"
      using stands_tests [OF s] stands_next [OF s k(1)] k ws(2) by (simp add: parse_simple_value_def)
  qed
qed

definition list_words :: "string list \<Rightarrow> word list" where
  "list_words ns = (TK_Identifier, hd ns) # concat (map (\<lambda>n. [(TK_Comma, '',''), (TK_Identifier, n)]) (tl ns))"

definition bracketed_words :: "string list \<Rightarrow> word list" where
  "bracketed_words ns = (TK_LeftBracket, ''['') # list_words ns @ [(TK_RightBracket, '']'')]"

lemma bracketed_words_unfold:
  "bracketed_words ns = (TK_LeftBracket, ''['') # (TK_Identifier, hd ns) #
     concat (map (\<lambda>n. [(TK_Comma, '',''), (TK_Identifier, n)]) (tl ns)) @ [(TK_RightBracket, '']'')]"
  by (simp add: bracketed_words_def list_words_def)

lemma reads_comma_loop:
  "reads (while_loop (\<lambda>_. check TK_Comma)
       (\<lambda>names s. let s = next_token s; (t, s) = consume TK_Identifier m s in Some (names @ [tok_lexeme t], s)) a)
     (concat (map (\<lambda>n. [(TK_Comma, '',''), (TK_Identifier, n)]) ns)) no_comma (\<lambda>x. x = a @ ns)"
proof -
  have "foldl (\<lambda>a n. a @ [n]) a ns = a @ ns"
    by (induction ns arbitrary: a) simp_all
  then show ?thesis
    using reads_separated [of TK_Comma no_comma m "\<lambda>a n. a @ [n]" a "'',''" ns] by (simp add: no_comma_def)
qed

lemma reads_identifier_list:
  assumes "ns \<noteq> []"
  shows "reads parse_identifier_list (list_words ns) no_comma (\<lambda>x. x = ns)"
    and "reads parse_identifier_list (bracketed_words ns) Q (\<lambda>x. x = ns)"
proof -
  let ?loop = "\<lambda>a. while_loop (\<lambda>_. check TK_Comma)
       (\<lambda>names s. let s = next_token s; (t, s) = consume TK_Identifier (''expected identifier after '' @ quoted '','') s in Some (names @ [tok_lexeme t], s)) a"
  have loop: "reads (?loop [hd ns]) (concat (map (\<lambda>n. [(TK_Comma, '',''), (TK_Identifier, n)]) (tl ns))) no_comma (\<lambda>x. x = ns)"
    using reads_comma_loop [of _ "[hd ns]" "tl ns"] assms by simp
  have plain: "reads (\<lambda>s. let (t, s) = consume TK_Identifier m s in Option.bind (?loop [tok_lexeme t] s) (\<lambda>(names, s). Some (names, s)))
      (list_words ns) no_comma (\<lambda>x. x = ns)" for m
    unfolding list_words_def
  proof (rule reads_consume)
    fix t :: token assume t: "tok_lexeme t = hd ns"
    show "reads (\<lambda>s. Option.bind (?loop [tok_lexeme t] s) (\<lambda>(names, s). Some (names, s)))
        (concat (map (\<lambda>n. [(TK_Comma, '',''), (TK_Identifier, n)]) (tl ns))) no_comma (\<lambda>x. x = ns)"
      unfolding t by (rule reads_bind_tail [OF loop]) (auto intro: reads_Some)
  qed simp
  show "reads parse_identifier_list (list_words ns) no_comma (\<lambda>x. x = ns)"
  proof (rule reads_cong [OF plain])
    fix s r ds assume "stands (list_words ns @ r) ds s"
    then have "\<not> check TK_LeftBracket s"
      using stands_tests(2) [of TK_Identifier "hd ns" _ ds s TK_LeftBracket] by (simp add: list_words_def)
    then show "parse_identifier_list s = (let (t, s) = consume TK_Identifier ''expected identifier'' s
        in Option.bind (?loop [tok_lexeme t] s) (\<lambda>(names, s). Some (names, s)))"
      by (simp add: parse_identifier_list_def match_token_if)
  qed
  have "reads (\<lambda>s. let (t, s) = consume TK_Identifier m s in Option.bind (?loop [tok_lexeme t] s)
        (\<lambda>(names, s). let (_, s) = consume TK_RightBracket m' s in Some (names, s)))
      ((TK_Identifier, hd ns) # concat (map (\<lambda>n. [(TK_Comma, '',''), (TK_Identifier, n)]) (tl ns)) @ [(TK_RightBracket, '']'')])
      Q (\<lambda>x. x = ns)" for m m'
  proof (rule reads_consume)
    fix t :: token assume t: "tok_lexeme t = hd ns"
    show "reads (\<lambda>s. Option.bind (?loop [tok_lexeme t] s) (\<lambda>(names, s). let (_, s) = consume TK_RightBracket m' s in Some (names, s)))
        (concat (map (\<lambda>n. [(TK_Comma, '',''), (TK_Identifier, n)]) (tl ns)) @ [(TK_RightBracket, '']'')]) Q (\<lambda>x. x = ns)"
      unfolding t by (rule reads_bind [OF loop], rule reads_closing) (simp_all add: no_comma_def)
  qed simp
  from reads_next [OF _ this, of TK_LeftBracket]
  have b: "reads (\<lambda>s. let s = next_token s; (t, s) = consume TK_Identifier m s in Option.bind (?loop [tok_lexeme t] s)
        (\<lambda>(names, s). let (_, s) = consume TK_RightBracket m' s in Some (names, s))) (bracketed_words ns) Q (\<lambda>x. x = ns)" for m m'
    unfolding bracketed_words_unfold by blast
  show "reads parse_identifier_list (bracketed_words ns) Q (\<lambda>x. x = ns)"
  proof (rule reads_cong [OF b])
    fix s r ds assume "stands (bracketed_words ns @ r) ds s"
    then have "check TK_LeftBracket s"
      using stands_tests(2) [of TK_LeftBracket "''[''" _ ds s TK_LeftBracket] by (simp add: bracketed_words_def)
    then show "parse_identifier_list s = (let s = next_token s; (t, s) = consume TK_Identifier ''expected identifier'' s
        in Option.bind (?loop [tok_lexeme t] s) (\<lambda>(names, s). let (_, s) = consume TK_RightBracket (''expected '' @ quoted '']'' @ '' after identifier list'') s in Some (names, s)))"
      by (simp add: parse_identifier_list_def match_token_if)
  qed
qed

text \<open>Types: an identifier or one of two keywords, arguments in angle brackets, brackets, a question mark.
  Inside the angle brackets everything is taken up to the one that closes them.\<close>

fun closes_arguments :: "nat \<Rightarrow> word list \<Rightarrow> bool" where
  "closes_arguments 0 ws \<longleftrightarrow> ws = []"
| "closes_arguments (Suc d) [] \<longleftrightarrow> False"
| "closes_arguments (Suc d) ((k, w) # ws) \<longleftrightarrow>
     (if k = TK_Less then w = ''<'' \<and> closes_arguments (Suc (Suc d)) ws
      else if k = TK_Greater then w = ''>'' \<and> closes_arguments d ws
      else k \<noteq> TK_EndOfFile \<and> closes_arguments (Suc d) ws)"

definition type_arguments :: "word list \<Rightarrow> bool" where
  "type_arguments ws \<longleftrightarrow> ws = [] \<or> hd ws = (TK_Less, ''<'') \<and> closes_arguments 1 (tl ws)"

definition type_suffix :: "word list \<Rightarrow> bool" where
  "type_suffix ws \<longleftrightarrow>
     ws \<in> {[], [(TK_Question, ''?'')], [(TK_LeftBracket, ''[''), (TK_RightBracket, '']'')],
          [(TK_LeftBracket, ''[''), (TK_RightBracket, '']''), (TK_Question, ''?'')]}"

definition type_words :: "word list \<Rightarrow> bool" where
  "type_words ws \<longleftrightarrow> ws \<noteq> [] \<and> fst (hd ws) \<in> {TK_Identifier, KW ''optional'', KW ''ref''} \<and>
     list_ex (\<lambda>n. type_arguments (take n (tl ws)) \<and> type_suffix (drop n (tl ws))) [0..<Suc (length ws)]"

definition type_end :: "word list \<Rightarrow> bool" where
  "type_end r \<longleftrightarrow> r \<noteq> [] \<and> fst (hd r) \<notin> {TK_Less, TK_LeftBracket, TK_Question}"

lemma reads_arguments:
  "closes_arguments d ws \<Longrightarrow>
   reads (while_loop (\<lambda>a s. fst a > 0 \<and> \<not> is_at_end s) type_argument_step (int d, t)) ws Q
     (\<lambda>x. snd x = t @ concat (map snd ws))"
proof (induction d ws arbitrary: t rule: closes_arguments.induct)
  case (1 ws)
  show ?case
  proof (rule reads_cong)
    show "reads (\<lambda>s. Some ((int 0, t), s)) ws Q (\<lambda>x. snd x = t @ concat (map snd ws))"
      using reads_Some [of "\<lambda>x. snd x = t" "\<lambda>_. (int 0, t)"] 1 by simp
  qed (simp add: while_loop.simps)
next
  case (3 d k w ws)
  let ?c = "\<lambda>a s. fst (a :: int \<times> string) > 0 \<and> \<not> is_at_end s"
  let ?e = "if k = TK_Less then Suc (Suc d) else if k = TK_Greater then d else Suc d"
  have k: "k \<noteq> TK_EndOfFile" "k = TK_Less \<Longrightarrow> w = ''<''" "k = TK_Greater \<Longrightarrow> w = ''>''"
    using 3(4) by (auto split: if_splits)
  have step: "reads (type_argument_step (int (Suc d), t)) [(k, w)] (\<lambda>_. True) (\<lambda>x. x = (int ?e, t @ w))"
  proof (rule reads_intro)
    fix s r ds assume "stands ([(k, w)] @ r) ds s"
    then have s: "stands ((k, w) # r) ds s" by simp
    show "\<exists>x s'. type_argument_step (int (Suc d), t) s = Some (x, s') \<and> x = (int ?e, t @ w) \<and> stands r ds s'"
      using stands_tests(2) [OF s] stands_next [OF s k(1)] k
      by (auto simp: type_argument_step_def case_prod_beta)
  qed
  have rest: "reads (while_loop ?c type_argument_step (int ?e, t @ w)) ws Q (\<lambda>x. snd x = (t @ w) @ concat (map snd ws))"
    using 3(1) [of "t @ w"] 3(2) [of "t @ w"] 3(3) [of "t @ w"] 3(4)
    by (auto split: if_splits simp del: append_assoc of_nat_Suc)
  have "reads (\<lambda>s. Option.bind (type_argument_step (int (Suc d), t) s) (\<lambda>(x, s). while_loop ?c type_argument_step x s))
      ([(k, w)] @ ws) Q (\<lambda>x. snd x = t @ concat (map snd ((k, w) # ws)))"
    by (rule reads_bind [OF step]) (use rest in simp_all)
  then show ?case
    unfolding append.simps
  proof (rule reads_cong)
    fix s r ds assume "stands (((k, w) # ws) @ r) ds s"
    then have "\<not> is_at_end s"
      using stands_tests(1) [of k w "ws @ r" ds s] k(1) by simp
    then show "while_loop ?c type_argument_step (int (Suc d), t) s =
        Option.bind (type_argument_step (int (Suc d), t) s) (\<lambda>(x, s). while_loop ?c type_argument_step x s)"
      by (subst while_loop.simps) simp
  qed
qed simp

text \<open>The suffixes.\<close>

lemma reads_type_suffix:
  assumes "type_suffix ws"
  shows "reads (\<lambda>s. Option.bind (if check TK_LeftBracket s then do {
             let s = next_token s;
             let (_, s) = consume TK_RightBracket m s;
             Some (t @ ''[]'', s) }
           else Some (t, s)) (\<lambda>(t, s). if check TK_Question s then Some (t @ ''?'', next_token s) else Some (t, s)))
     ws type_end (\<lambda>x. x = t @ concat (map snd ws))"
proof (rule reads_intro)
  fix s r ds assume s: "stands (ws @ r) ds s" and r: "type_end r"
  then obtain k w u where k: "r = (k, w) # u" "k \<notin> {TK_Less, TK_LeftBracket, TK_Question}"
    by (cases r) (auto simp: type_end_def)
  have question: "\<exists>x s'. (if check TK_Question s then Some (t @ ''?'', next_token s) else Some (t, s)) = Some (x, s') \<and>
      x = t @ concat (map snd vs) \<and> stands r ds s'"
    if "stands (vs @ r) ds s" "vs \<in> {[], [(TK_Question, ''?'')]}" for s t vs
    using that k stands_tests(2) [of k w u ds s] stands_tests(2) [of TK_Question "''?''" r ds s]
      stands_next(1) [of TK_Question "''?''" r ds s] by auto
  show "\<exists>x s'. Option.bind (if check TK_LeftBracket s then do {
             let s = next_token s;
             let (_, s) = consume TK_RightBracket m s;
             Some (t @ ''[]'', s) }
           else Some (t, s)) (\<lambda>(t, s). if check TK_Question s then Some (t @ ''?'', next_token s) else Some (t, s)) = Some (x, s') \<and>
      x = t @ concat (map snd ws) \<and> stands r ds s'"
  proof (cases "ws \<in> {[], [(TK_Question, ''?'')]}")
    case True
    then have "\<not> check TK_LeftBracket s"
      using s k stands_tests(2) [of k w u ds s] stands_tests(2) [of TK_Question "''?''" r ds s] by auto
    then show ?thesis
      using question [OF s True, of t] by simp
  next
    case False
    then obtain vs where vs: "ws = (TK_LeftBracket, ''['') # (TK_RightBracket, '']'') # vs" "vs \<in> {[], [(TK_Question, ''?'')]}"
      using assms by (auto simp: type_suffix_def)
    have s1: "stands ((TK_LeftBracket, ''['') # (TK_RightBracket, '']'') # vs @ r) ds s"
      using s vs(1) by simp
    then have s2: "stands ((TK_RightBracket, '']'') # vs @ r) ds (next_token s)"
      using stands_next(1) by blast
    then have s3: "stands (vs @ r) ds (next_token (next_token s))"
      using stands_next(1) by blast
    have "check TK_LeftBracket s" "check TK_RightBracket (next_token s)"
      using stands_tests(2) [OF s1] stands_tests(2) [OF s2] by simp_all
    then have eq: "Option.bind (if check TK_LeftBracket s then do {
             let s = next_token s;
             let (_, s) = consume TK_RightBracket m s;
             Some (t @ ''[]'', s) }
           else Some (t, s)) (\<lambda>(t, s). if check TK_Question s then Some (t @ ''?'', next_token s) else Some (t, s)) =
        (if check TK_Question (next_token (next_token s)) then Some ((t @ ''[]'') @ ''?'', next_token (next_token (next_token s)))
         else Some (t @ ''[]'', next_token (next_token s)))"
      by (simp add: consume_def case_prod_beta)
    obtain x s' where q: "(if check TK_Question (next_token (next_token s)) then Some ((t @ ''[]'') @ ''?'', next_token (next_token (next_token s)))
         else Some (t @ ''[]'', next_token (next_token s))) = Some (x, s')" "x = (t @ ''[]'') @ concat (map snd vs)" "stands r ds s'"
      using question [OF s3 vs(2), of "t @ ''[]''"] by blast
    show ?thesis
      unfolding eq q(1) using q(2,3) vs(1) by simp
  qed
qed

lemma reads_type_name:
  assumes "type_words ws"
  shows "reads parse_type_name ws type_end (\<lambda>x. x = concat (map snd ws))"
proof -
  obtain k w r where r: "ws = (k, w) # r"
    using assms by (cases ws) (auto simp: type_words_def)
  obtain n where n: "type_arguments (take n r)" "type_suffix (drop n r)"
    using assms unfolding type_words_def list_ex_iff r list.sel by blast
  define as where "as = take n r"
  define ss where "ss = drop n r"
  have ws: "ws = (k, w) # as @ ss" "k \<in> {TK_Identifier, KW ''optional'', KW ''ref''}" "type_arguments as" "type_suffix ss"
    using assms n by (simp_all add: r as_def ss_def type_words_def)
  have k: "k \<noteq> TK_EndOfFile" using ws(2) by auto
  let ?suffix = "\<lambda>t s. Option.bind (if check TK_LeftBracket s then do {
             let s = next_token s;
             let (_, s) = consume TK_RightBracket (''expected '' @ quoted '']'' @ '' after array type'') s;
             Some (t @ ''[]'', s) }
           else Some (t, s)) (\<lambda>(t, s). if check TK_Question s then Some (t @ ''?'', next_token s) else Some (t, s))"
  let ?args = "\<lambda>t s. if check TK_Less s then do {
             let s = next_token s;
             (a, s) \<leftarrow> while_loop (\<lambda>a s. fst a > 0 \<and> \<not> is_at_end s) type_argument_step (1, tok_lexeme t @ ''<'') s;
             Some (snd a, s) }
           else Some (tok_lexeme t, s)"
  have args: "reads (?args t) as (\<lambda>r. r \<noteq> [] \<and> fst (hd r) \<noteq> TK_Less) (\<lambda>x. x = tok_lexeme t @ concat (map snd as))" for t
  proof (cases as)
    case Nil
    show ?thesis
      unfolding Nil by (rule reads_if_not, rule reads_Some) simp_all
  next
    case (Cons a vs)
    then have a: "a = (TK_Less, ''<'')" "closes_arguments (Suc 0) vs"
      using ws(3) by (auto simp: type_arguments_def)
    show ?thesis
      unfolding Cons a(1)
      by (rule reads_if_head, simp, rule reads_next, simp,
          rule reads_bind_tail [where R = "\<lambda>x. snd x = (tok_lexeme t @ ''<'') @ concat (map snd vs)"])
        (use reads_arguments [OF a(2), of "tok_lexeme t @ ''<''"] in \<open>auto intro: reads_Some\<close>)
  qed
  have "reads (\<lambda>s. let (t, s) = advance_token s in Option.bind (?args t s) (\<lambda>(x, s). ?suffix x s)) ws type_end
      (\<lambda>x. x = concat (map snd ws))"
    unfolding ws(1)
  proof (rule reads_advance [OF k])
    fix t :: token assume t: "tok_lexeme t = w"
    show "reads (\<lambda>s. Option.bind (?args t s) (\<lambda>(x, s). ?suffix x s)) (as @ ss) type_end (\<lambda>x. x = concat (map snd ((k, w) # as @ ss)))"
    proof (rule reads_bind [OF args])
      fix x assume "x = tok_lexeme t @ concat (map snd as)"
      then show "reads (?suffix x) ss type_end (\<lambda>x. x = concat (map snd ((k, w) # as @ ss)))"
        using reads_type_suffix [OF ws(4), of _ x] t by simp
    next
      fix r assume "type_end r"
      then show "ss @ r \<noteq> [] \<and> fst (hd (ss @ r)) \<noteq> TK_Less"
        using ws(4) by (auto simp: type_suffix_def type_end_def)
    qed
  qed
  then show ?thesis
  proof (rule reads_cong)
    fix s r ds assume "stands (ws @ r) ds s"
    then have "check_any [TK_Identifier, KW ''optional'', KW ''ref''] s"
      using ws(1,2) k stands_tests(4) [of k w "as @ ss @ r" ds s] by auto
    then show "parse_type_name s = (let (t, s) = advance_token s in Option.bind (?args t s) (\<lambda>(x, s). ?suffix x s))"
      by (simp add: parse_type_name_def)
  qed
qed

end
