(* ===== verification/Parser_Props.thy ===== *)
theory Parser_Props
  imports Parser_Reads
begin

text \<open>
  What the parser guarantees: it returns on every source without a hanging keyword, and the four loops
  that hang, with a source on which the whole parser hangs.
\<close>

section \<open>Returning\<close>

text \<open>C37: Parsing what the lexer makes of any source returns a tree and keeps the diagnostics there were,
  unless one of the keywords enum, external_system, children and indexes occurs among the tokens.
  So a specification without these four blocks is parsed in finitely many steps whatever its faults.\<close>

theorem parse_returns:
  "case parse (fst (lex source ds)) (snd (lex source ds)) of
     None \<Rightarrow> may_hang (fst (lex source ds))
   | Some (spec, ds') \<Rightarrow> prefix (snd (lex source ds)) ds'"
proof -
  let ?s = "new_parser (fst (lex source ds)) (snd (lex source ds))"
  have "valid_state ?s"
    by (simp add: lex_items valid_state_def new_parser_def)
  then have "reaches False ?s (parse_spec ?s)"
    using spec_moves [of ?s] by (simp add: moves_def)
  then show ?thesis
    by (cases "parse_spec ?s") (auto simp: parse_def new_parser_def moved_def)
qed

section \<open>Hanging\<close>

lemma while_loop_stuck:
  assumes "I s" and body: "\<And>y t. I t \<Longrightarrow> c y t \<and> (\<exists>y' t'. b y t = Some (y', t') \<and> I t')"
  shows "while_loop c b x s = None"
proof -
  have "while_loop c' b' x s = Some r \<Longrightarrow> c' = c \<and> b' = b \<longrightarrow> \<not> I s" for c' b' x s r
  proof (induction rule: while_loop_induct)
    case (step loop c' b' x s r)
    show ?case
    proof (intro impI notI)
      assume eq: "c' = c \<and> b' = b" and i: "I s"
      obtain y t where t: "c x s" "b x s = Some (y, t)" "I t"
        using body [OF i] by blast
      then have "loop c b y t = Some r"
        using step(2) eq by simp
      then show False
        using step(1) t(3) by blast
    qed
  qed
  then show ?thesis
    using assms(1) by (cases "while_loop c b x s") blast+
qed

text \<open>The current token cannot be changed by a diagnostic.\<close>

lemma parse_error_same [simp]:
  "peek_token n (parse_error r c m s) = peek_token n s" "previous (parse_error r c m s) = previous s"
  "is_at_end (parse_error r c m s) = is_at_end s" "check k (parse_error r c m s) = check k s"
  "check_any ks (parse_error r c m s) = check_any ks s"
  by (simp_all add: parse_error_def peek_token_def previous_def is_at_end_def check_def check_any_def Let_def)

text \<open>Inside a block, at none of these tokens.\<close>

definition stuck_outside :: "token_kind list \<Rightarrow> parser_state \<Rightarrow> bool" where
  "stuck_outside ks s \<longleftrightarrow> \<not> is_at_end s \<and> tok_kind (peek_token 0 s) \<notin> set (TK_RightBrace # ks)"

lemma stuck_check: "stuck_outside ks s \<Longrightarrow> \<not> is_at_end s \<and> \<not> check TK_RightBrace s \<and> (\<forall>k \<in> set ks. \<not> check k s)"
  by (auto simp: stuck_outside_def check_def)

lemma stuck_error [simp]: "stuck_outside ks (parse_error r c m s) = stuck_outside ks s"
  by (simp add: stuck_outside_def)

lemma block_loop_stuck:
  assumes "stuck_outside ks s" and "\<And>y t. stuck_outside ks t \<Longrightarrow> \<exists>y' t'. b y t = Some (y', t') \<and> stuck_outside ks t'"
  shows "block_loop b x s = None"
  unfolding block_loop_def
  by (rule while_loop_stuck [where I = "stuck_outside ks"]) (use assms stuck_check in blast)+

lemma push_loop_stuck:
  assumes "stuck_outside ks s" and "\<And>t. stuck_outside ks t \<Longrightarrow> \<exists>y' t'. p t = Some (y', t') \<and> stuck_outside ks t'"
  shows "push_loop p xs s = None"
  unfolding push_loop_def using assms(2)
  by (intro block_loop_stuck [OF assms(1)]) fastforce

lemma consume_fails: "\<not> check k s \<Longrightarrow> \<exists>t. consume k m s = (t, parse_error (here s) ''SSPEC0200'' m s) \<and> tok_lexeme t = []"
  by (simp add: consume_def Let_def)

text \<open>The tokens from which a member, a property, a child and an index go ahead.\<close>

definition enum_member_starts :: "token_kind list" where
  "enum_member_starts = [TK_Identifier, TK_Equals, TK_Semicolon]"

definition external_system_starts :: "token_kind list" where
  "external_system_starts = literal_kinds @ [TK_Identifier, TK_Colon, TK_Semicolon, KW ''annotations'']"

definition child_starts :: "token_kind list" where
  "child_starts = [TK_Identifier, TK_Colon, TK_Dot, TK_Semicolon]"

definition index_starts :: "token_kind list" where
  "index_starts = [TK_Identifier, KW ''on'', TK_Comma, TK_LeftBrace, TK_Semicolon]"

lemmas stuck_simps = consume_def consume_optional_semicolon_def match_token_if Let_def check_any_iff

lemma not_named: "\<not> check TK_Identifier s \<Longrightarrow> \<not> at_named n s"
  by (auto simp: check_def is_named_identifier_def is_at_end_def)

lemma enum_member_stuck:
  assumes "stuck_outside enum_member_starts s"
  shows "\<exists>m s'. parse_enum_member s = Some (m, s') \<and> stuck_outside enum_member_starts s'"
  using assms stuck_check [OF assms]
  by (simp add: parse_enum_member_def parse_enum_value_def stuck_simps enum_member_starts_def)

lemma external_system_stuck:
  assumes "stuck_outside external_system_starts s"
  shows "\<exists>d' s'. external_system_step d s = Some (d', s') \<and> stuck_outside external_system_starts s'"
proof -
  have no: "\<not> check TK_Identifier s" "\<not> check TK_Colon s" "\<not> check TK_Semicolon s" "\<not> check (KW ''annotations'') s"
      "\<not> check_any (literal_kinds @ [TK_Identifier]) s"
    using assms by (auto simp: stuck_outside_def external_system_starts_def check_def check_any_iff)
  show ?thesis
    using assms no not_named [OF no(1)]
    by (simp add: external_system_step_def parse_external_system_property_def parse_property_value_def consume_def
        consume_optional_semicolon_def match_token_if Let_def)
qed

lemma child_stuck:
  assumes "stuck_outside child_starts s"
  shows "\<exists>d' s'. parse_child_decl s = Some (d', s') \<and> stuck_outside child_starts s'"
  using assms stuck_check [OF assms]
  by (simp add: parse_child_decl_def parse_qualified_name_def while_loop.simps stuck_simps child_starts_def)

lemma index_stuck:
  assumes "stuck_outside index_starts s"
  shows "\<exists>d' s'. parse_index_decl s = Some (d', s') \<and> stuck_outside index_starts s'"
  using assms stuck_check [OF assms] not_named [of s "''on''"]
  by (simp add: parse_index_decl_def while_loop.simps stuck_simps index_starts_def)


text \<open>C38: The four loops never end from a token they do not know: when, inside the block, the current token is
  none of those with which a member of an enumeration, a property of an external system, a child or
  an index can go ahead, the loop body reports an error and leaves the position, so that the loop
  runs for ever (and its list of diagnostics grows).\<close>

theorem stuck_blocks_hang:
  "(stuck_outside enum_member_starts s \<longrightarrow> push_loop parse_enum_member ms s = None) \<and>
   (stuck_outside external_system_starts s \<longrightarrow> block_loop external_system_step d s = None) \<and>
   (stuck_outside child_starts s \<longrightarrow> push_loop parse_child_decl cs s = None) \<and>
   (stuck_outside index_starts s \<longrightarrow> push_loop parse_index_decl xs s = None)"
  by (intro conjI impI; (rule push_loop_stuck | rule block_loop_stuck), assumption;
      rule enum_member_stuck external_system_stuck child_stuck index_stuck, assumption)

text \<open>A position in a list of tokens.\<close>

abbreviation at_token :: "token list \<Rightarrow> diagnostic_bag \<Rightarrow> nat \<Rightarrow> parser_state" where
  "at_token ts ds i \<equiv> \<lparr>ps_tokens = ts, ps_current = i, ps_diagnostics = ds\<rparr>"

lemma peek_at: "i < length ts \<Longrightarrow> peek_token 0 (at_token ts ds i) = ts ! i"
  by (simp add: peek_token_def)

lemma check_at: "i < length ts \<Longrightarrow> check k (at_token ts ds i) \<longleftrightarrow> tok_kind (ts ! i) \<noteq> TK_EndOfFile \<and> tok_kind (ts ! i) = k"
  by (simp add: check_def is_at_end_def peek_at)

lemma next_at: "i < length ts \<Longrightarrow> tok_kind (ts ! i) \<noteq> TK_EndOfFile \<Longrightarrow> advance_token (at_token ts ds i) = (ts ! i, at_token ts ds (Suc i))"
  by (simp add: advance_token_def is_at_end_def peek_at previous_def)

lemma consume_at: "i < length ts \<Longrightarrow> tok_kind (ts ! i) = k \<Longrightarrow> k \<noteq> TK_EndOfFile \<Longrightarrow>
    consume k m (at_token ts ds i) = (ts ! i, at_token ts ds (Suc i))"
  by (simp add: consume_def check_at next_at)

lemma enum_hangs_at:
  assumes "i + 3 < length ts" and "tok_kind (ts ! i) = KW ''enum''" and "tok_kind (ts ! (i + 1)) = TK_Identifier"
    and "tok_kind (ts ! (i + 2)) = TK_LeftBrace"
    and "tok_kind (ts ! (i + 3)) \<notin> set (TK_EndOfFile # TK_RightBrace # enum_member_starts)"
  shows "parse_enum_decl (at_token ts ds i) = None"
proof -
  have "stuck_outside enum_member_starts (at_token ts ds (Suc (Suc (Suc i))))"
    using assms(1,5) by (auto simp: stuck_outside_def is_at_end_def peek_at numeral_3_eq_3)
  then have "push_loop parse_enum_member [] (at_token ts ds (Suc (Suc (Suc i)))) = None"
    by (rule push_loop_stuck) (rule enum_member_stuck)
  then show ?thesis
    using assms(1-4) by (simp add: parse_enum_decl_def decl_frame_def braced_def consume_at Let_def numeral_3_eq_3)
qed

text \<open>A specification that begins with a system whose first declaration is an enumeration whose first
  member is a keyword, as in \<open>system S { enum Kind { queue; } }\<close>, is never parsed to the end, whatever
  follows; the tokens are those that the lexer makes.\<close>

theorem keyword_as_enum_member_hangs:
  assumes "fst (lex source ds) = ts" and "6 < length ts"
    and "map tok_kind (take 6 ts) = [KW ''system'', TK_Identifier, TK_LeftBrace, KW ''enum'', TK_Identifier, TK_LeftBrace]"
    and "tok_kind (ts ! 6) = KW w"
  shows "parse ts ds' = None"
proof -
  have "tok_kind (ts ! i) = map tok_kind (take 6 ts) ! i" if "i < 6" for i
    using that assms(2) by simp
  then have k: "tok_kind (ts ! 0) = KW ''system''" "tok_kind (ts ! 1) = TK_Identifier" "tok_kind (ts ! 2) = TK_LeftBrace"
      "tok_kind (ts ! 3) = KW ''enum''" "tok_kind (ts ! 4) = TK_Identifier" "tok_kind (ts ! 5) = TK_LeftBrace"
    unfolding assms(3) by simp_all
  have ne: "ts \<noteq> []" "0 < length ts"
    using assms(2) by auto
  have enum: "parse_enum_decl (at_token ts ds' 3) = None"
    using assms(2,4) k by (intro enum_hangs_at) (simp_all add: enum_member_starts_def)
  have step: "system_step d (at_token ts ds' 3) = None" for d
    using assms(2) k enum not_named [of "at_token ts ds' 3"]
    by (simp add: system_step_def system_decl_def check_at)
  have "block_loop system_step d (at_token ts ds' 3) = None" for d
    using assms(2) k step by (simp add: block_loop_def while_loop.simps [of _ system_step] check_at is_at_end_def peek_at)
  then have "parse_system_decl (at_token ts ds' 0) = None"
    using assms(2) k ne by (simp add: parse_system_decl_def decl_frame_def braced_def consume_at Let_def numeral_eq_Suc)
  then show ?thesis
    using assms(2) k ne
    by (simp add: parse_def parse_spec_def new_parser_def parse_version_def parse_system_def
        while_loop.simps [of "\<lambda>_. check (KW ''include'')"] check_at)
qed


text \<open>The witnesses: a position at a keyword, and the source of the text above.\<close>

lemma stuck_blocks_hang_witness:
  "push_loop parse_enum_member [] (at_token [\<lparr>tok_kind = KW ''queue'', tok_lexeme = ''queue'', tok_range = empty_range\<rparr>] [] 0) = None"
proof -
  have "stuck_outside enum_member_starts (at_token [\<lparr>tok_kind = KW ''queue'', tok_lexeme = ''queue'', tok_range = empty_range\<rparr>] [] 0)"
    by (simp add: stuck_outside_def is_at_end_def peek_token_def enum_member_starts_def)
  then show ?thesis
    using stuck_blocks_hang by blast
qed

definition hanging_source :: source_file where
  "hanging_source = \<lparr>sf_path = [], sf_text = ''system S{enum K{queue;}}''\<rparr>"

lemma hanging_items:
  "lexemes (items (sf_text hanging_source)) =
     [(KW ''system'', ''system''), (TK_Identifier, ''S''), (TK_LeftBrace, ''{''), (KW ''enum'', ''enum''),
      (TK_Identifier, ''K''), (TK_LeftBrace, ''{''), (KW ''queue'', ''queue''), (TK_Semicolon, '';''),
      (TK_RightBrace, ''}''), (TK_RightBrace, ''}'')]"
  unfolding hanging_source_def source_file.simps by code_simp

lemma keyword_as_enum_member_hangs_witness: "parse (fst (lex hanging_source [])) [] = None"
proof -
  let ?ts = "fst (lex hanging_source [])"
  have "map tok_kind ?ts = map fst (lexemes (items (sf_text hanging_source))) @ [TK_EndOfFile]"
    by (simp add: lex_items item_tokens_lexemes [of start_location, symmetric])
  then have kinds: "map tok_kind ?ts = [KW ''system'', TK_Identifier, TK_LeftBrace, KW ''enum'', TK_Identifier,
      TK_LeftBrace, KW ''queue'', TK_Semicolon, TK_RightBrace, TK_RightBrace, TK_EndOfFile]"
    by (simp add: hanging_items)
  have len: "length ?ts = 11"
    using arg_cong [OF kinds, of length] by simp
  have "tok_kind (?ts ! 6) = KW ''queue''"
    using arg_cong [OF kinds, of "\<lambda>xs. xs ! 6"] len by simp
  moreover have "map tok_kind (take 6 ?ts) = take 6 (map tok_kind ?ts)"
    by (simp only: take_map)
  ultimately show ?thesis
    using len by (intro keyword_as_enum_member_hangs [OF refl]) (simp_all add: kinds)
qed


section \<open>A declaration that is read back\<close>

text \<open>The tokens of an enumeration, each as its kind and its lexeme.\<close>

fun member_words :: "string \<times> word option \<Rightarrow> word list" where
  "member_words (m, None) = [(TK_Identifier, m), (TK_Semicolon, '';'')]"
| "member_words (m, Some v) = [(TK_Identifier, m), (TK_Equals, ''=''), v, (TK_Semicolon, '';'')]"

definition enum_words :: "string \<Rightarrow> (string \<times> word option) list \<Rightarrow> word list" where
  "enum_words n ms =
     [(KW ''enum'', ''enum''), (TK_Identifier, n), (TK_LeftBrace, ''{'')] @ concat (map member_words ms) @ [(TK_RightBrace, ''}'')]"

text \<open>What the tree holds of an enumeration, ranges apart.\<close>

definition enum_content :: "EnumDecl \<Rightarrow> string \<times> (string \<times> string option \<times> string option) list" where
  "enum_content d = (en_name d, map (\<lambda>m. (em_name m, em_value m, em_value_kind m)) (en_members d))"

lemma words_split:
  "words ts = xs @ ys \<Longrightarrow> \<exists>us vs. ts = us @ vs \<and> words us = xs \<and> words vs = ys"
  by (auto simp: words_def map_eq_append_conv)

lemma member_without_value:
  assumes "Suc i < length ts" and "tok_kind (ts ! i) = TK_Identifier" and "tok_kind (ts ! Suc i) = TK_Semicolon"
  shows "\<exists>r. parse_enum_member (at_token ts ds i) =
    Some (\<lparr>em_name = tok_lexeme (ts ! i), em_value = None, em_value_kind = None, em_range = r\<rparr>, at_token ts ds (i + 2))"
  using assms
  by (simp add: parse_enum_member_def parse_enum_value_def consume_at check_at next_at
      consume_optional_semicolon_def match_token_if Let_def)

lemma member_with_value:
  assumes "Suc (Suc (Suc i)) < length ts" and "tok_kind (ts ! i) = TK_Identifier" and "tok_kind (ts ! Suc i) = TK_Equals"
    and "tok_kind (ts ! Suc (Suc i)) \<in> set member_value_kinds" and "tok_kind (ts ! Suc (Suc (Suc i))) = TK_Semicolon"
  shows "\<exists>r. parse_enum_member (at_token ts ds i) =
    Some (\<lparr>em_name = tok_lexeme (ts ! i), em_value = Some (strip_quotes (tok_lexeme (ts ! Suc (Suc i)))),
            em_value_kind = Some (token_kind_name (tok_kind (ts ! Suc (Suc i)))), em_range = r\<rparr>, at_token ts ds (i + 4))"
proof -
  have v: "tok_kind (ts ! Suc (Suc i)) \<noteq> TK_EndOfFile"
    using assms(4) by (auto simp: member_value_kinds_def)
  then have "check_any member_value_kinds (at_token ts ds (Suc (Suc i)))"
    using assms(1,4) by (simp add: check_any_iff is_at_end_def peek_at)
  then show ?thesis
    using assms v
    by (simp add: parse_enum_member_def parse_enum_value_def consume_at check_at next_at
        consume_optional_semicolon_def match_token_if Let_def)
qed

lemma parse_enum_member_words:
  assumes "words ts = member_words (m, v)" and "\<forall>w. v = Some w \<longrightarrow> fst w \<in> set member_value_kinds"
  shows "\<exists>d. parse_enum_member (at_token (pre @ ts @ post) ds (length pre)) =
      Some (d, at_token (pre @ ts @ post) ds (length (pre @ ts))) \<and>
    em_name d = m \<and> em_value d = map_option (\<lambda>w. strip_quotes (snd w)) v \<and>
    em_value_kind d = map_option (\<lambda>w. token_kind_name (fst w)) v"
proof (cases v)
  case None
  then obtain a b where ts: "ts = [a, b]" "tok_kind a = TK_Identifier" "tok_lexeme a = m" "tok_kind b = TK_Semicolon"
    using assms(1) by (auto simp: words_def map_eq_Cons_conv)
  define T where "T = pre @ ts @ post"
  have T: "T ! length pre = a" "T ! Suc (length pre) = b" "Suc (length pre) < length T"
    using ts by (simp_all add: T_def nth_append)
  obtain r where "parse_enum_member (at_token T ds (length pre)) =
      Some (\<lparr>em_name = m, em_value = None, em_value_kind = None, em_range = r\<rparr>, at_token T ds (length pre + 2))"
    using member_without_value [of "length pre" T ds] ts(2-) T by auto
  moreover have "length pre + 2 = length (pre @ ts)"
    using ts(1) by simp
  ultimately show ?thesis
    unfolding T_def [symmetric] using None by simp
next
  case (Some w)
  then obtain a b c e where ts: "ts = [a, b, c, e]" "tok_kind a = TK_Identifier" "tok_lexeme a = m" "tok_kind b = TK_Equals"
      "tok_kind c = fst w" "tok_lexeme c = snd w" "tok_kind e = TK_Semicolon"
    using assms(1) by (cases w) (auto simp: words_def map_eq_Cons_conv)
  define T where "T = pre @ ts @ post"
  have T: "T ! length pre = a" "T ! Suc (length pre) = b" "T ! Suc (Suc (length pre)) = c"
      "T ! Suc (Suc (Suc (length pre))) = e" "Suc (Suc (Suc (length pre))) < length T"
    using ts by (simp_all add: T_def nth_append)
  have "fst w \<in> set member_value_kinds"
    using assms(2) Some by simp
  then obtain r where "parse_enum_member (at_token T ds (length pre)) =
      Some (\<lparr>em_name = m, em_value = Some (strip_quotes (snd w)), em_value_kind = Some (token_kind_name (fst w)),
              em_range = r\<rparr>, at_token T ds (length pre + 4))"
    using member_with_value [of "length pre" T ds] ts(2-) T by auto
  moreover have "length pre + 4 = length (pre @ ts)"
    using ts(1) by simp
  ultimately show ?thesis
    unfolding T_def [symmetric] using Some by simp
qed

text \<open>Between the braces.\<close>

lemma push_loop_members:
  assumes "words ts = concat (map member_words ms)"
    and "\<forall>(m, v) \<in> set ms. \<forall>w. v = Some w \<longrightarrow> fst w \<in> set member_value_kinds"
    and "post \<noteq> []" and "tok_kind (hd post) = TK_RightBrace"
  shows "\<exists>xs. push_loop parse_enum_member acc (at_token (pre @ ts @ post) ds (length pre)) =
      Some (acc @ xs, at_token (pre @ ts @ post) ds (length (pre @ ts))) \<and>
    map (\<lambda>m. (em_name m, em_value m, em_value_kind m)) xs =
    map (\<lambda>(m, v). (m, map_option (\<lambda>w. strip_quotes (snd w)) v, map_option (\<lambda>w. token_kind_name (fst w)) v)) ms"
  using assms
proof (induction ms arbitrary: pre ts acc)
  case Nil
  have "check TK_RightBrace (at_token (pre @ ts @ post) ds (length pre))"
    using Nil by (cases post) (simp_all add: check_at words_def)
  then show ?case
    using Nil by (simp add: push_loop_def block_loop_def while_loop.simps [of "\<lambda>_ s. \<not> check TK_RightBrace s \<and> \<not> is_at_end s"] words_def)
next
  case (Cons x ms)
  obtain m v where x: "x = (m, v)" by (cases x)
  obtain us vs where uv: "ts = us @ vs" "words us = member_words (m, v)" "words vs = concat (map member_words ms)"
    using Cons(2) words_split [of ts "member_words (m, v)"] x by auto
  obtain d where d: "parse_enum_member (at_token (pre @ us @ vs @ post) ds (length pre)) =
      Some (d, at_token (pre @ us @ vs @ post) ds (length (pre @ us)))" "em_name d = m"
      "em_value d = map_option (\<lambda>w. strip_quotes (snd w)) v" "em_value_kind d = map_option (\<lambda>w. token_kind_name (fst w)) v"
    using parse_enum_member_words [OF uv(2), of pre "vs @ post" ds] Cons(3) x by auto
  obtain xs where xs: "push_loop parse_enum_member (acc @ [d]) (at_token ((pre @ us) @ vs @ post) ds (length (pre @ us))) =
      Some ((acc @ [d]) @ xs, at_token ((pre @ us) @ vs @ post) ds (length ((pre @ us) @ vs)))"
      "map (\<lambda>m. (em_name m, em_value m, em_value_kind m)) xs =
       map (\<lambda>(m, v). (m, map_option (\<lambda>w. strip_quotes (snd w)) v, map_option (\<lambda>w. token_kind_name (fst w)) v)) ms"
    using Cons(1) [OF uv(3) _ Cons(4,5), of "acc @ [d]" "pre @ us"] Cons(3) by auto
  have "tok_kind (hd us) = TK_Identifier" "us \<noteq> []"
    using uv(2) by (cases v; auto simp: words_def map_eq_Cons_conv)+
  then have at: "\<not> check TK_RightBrace (at_token (pre @ us @ vs @ post) ds (length pre))"
      "\<not> is_at_end (at_token (pre @ us @ vs @ post) ds (length pre))"
    by (cases us; simp add: check_at is_at_end_def peek_at)+
  show ?case
    using d xs at unfolding uv(1) x push_loop_def block_loop_def
    by (subst while_loop.simps) (intro exI [of _ "d # xs"], simp)
qed

text \<open>C39: An enumeration is read back: from the tokens of its keyword, name, braces and members, each with or
  without a literal value and with a semicolon, whatever precedes and follows them, the parser returns
  a declaration with exactly that name and these members, values unquoted and with their kinds,
  stops right behind the closing brace and reports nothing.\<close>

theorem enum_read_back:
  assumes "words ts = enum_words n ms"
    and "\<forall>(m, v) \<in> set ms. \<forall>w. v = Some w \<longrightarrow> fst w \<in> set member_value_kinds"
  shows "\<exists>d. parse_enum_decl (at_token (pre @ ts @ post) ds (length pre)) =
      Some (d, at_token (pre @ ts @ post) ds (length (pre @ ts))) \<and>
    enum_content d =
      (n, map (\<lambda>(m, v). (m, map_option (\<lambda>w. strip_quotes (snd w)) v, map_option (\<lambda>w. token_kind_name (fst w)) v)) ms)"
proof -
  obtain hs vs where hv: "ts = hs @ vs" "words hs = [(KW ''enum'', ''enum''), (TK_Identifier, n), (TK_LeftBrace, ''{'')]"
      "words vs = concat (map member_words ms) @ [(TK_RightBrace, ''}'')]"
    using words_split assms(1) unfolding enum_words_def by blast
  obtain us es where ue: "vs = us @ es" "words us = concat (map member_words ms)" "words es = [(TK_RightBrace, ''}'')]"
    using words_split [OF hv(3)] by blast
  obtain a b c where hs: "hs = [a, b, c]" "tok_kind a = KW ''enum''" "tok_kind b = TK_Identifier" "tok_lexeme b = n"
      "tok_kind c = TK_LeftBrace"
    using hv(2) by (auto simp: words_def map_eq_Cons_conv)
  obtain e where es: "es = [e]" "tok_kind e = TK_RightBrace"
    using ue(3) by (auto simp: words_def map_eq_Cons_conv)
  define T where "T = pre @ ts @ post"
  have T: "T = (pre @ hs) @ us @ (es @ post)"
    by (simp add: T_def hv(1) ue(1))
  have nth: "T ! length pre = a" "T ! Suc (length pre) = b" "T ! Suc (Suc (length pre)) = c" "T ! length (pre @ hs @ us) = e"
      "Suc (Suc (length pre)) < length T" "length (pre @ hs @ us) < length T"
    unfolding T by (simp_all add: hs(1) es(1) nth_append)
  obtain xs where xs: "push_loop parse_enum_member [] (at_token T ds (length (pre @ hs))) =
      Some (xs, at_token T ds (length (pre @ hs @ us)))"
      "map (\<lambda>m. (em_name m, em_value m, em_value_kind m)) xs =
       map (\<lambda>(m, v). (m, map_option (\<lambda>w. strip_quotes (snd w)) v, map_option (\<lambda>w. token_kind_name (fst w)) v)) ms"
    using push_loop_members [OF ue(2) assms(2), of "es @ post" "[]" "pre @ hs" ds] es unfolding T by auto
  have at: "length (pre @ hs) = Suc (Suc (Suc (length pre)))" "length (pre @ ts) = Suc (length (pre @ hs @ us))"
    by (simp_all add: hs(1) es(1) hv(1) ue(1))
  have head: "consume (KW ''enum'') m1 (at_token T ds (length pre)) = (a, at_token T ds (Suc (length pre)))"
      "consume TK_Identifier m2 (at_token T ds (Suc (length pre))) = (b, at_token T ds (Suc (Suc (length pre))))"
      "consume TK_LeftBrace m3 (at_token T ds (Suc (Suc (length pre)))) = (c, at_token T ds (length (pre @ hs)))"
      "consume TK_RightBrace m4 (at_token T ds (length (pre @ hs @ us))) = (e, at_token T ds (length (pre @ ts)))" for m1 m2 m3 m4
    unfolding at using nth hs es by (simp_all only: consume_at token_kind.distinct not_False_eq_True Suc_lessD)
  show ?thesis
    unfolding T_def [symmetric] parse_enum_decl_def decl_frame_def braced_def
    by (simp only: head xs(1) Let_def prod.case bind.bind_lunit) (simp add: enum_content_def xs(2) hs(4))
qed

text \<open>\<open>enum K{a; b = 1;}\<close>\<close>

lemma enum_read_back_witness:
  "\<exists>d. parse_enum_decl (at_token (map (\<lambda>(k, w). \<lparr>tok_kind = k, tok_lexeme = w, tok_range = empty_range\<rparr>)
        (enum_words ''K'' [(''a'', None), (''b'', Some (TK_IntegerLiteral, ''1''))])) [] 0) =
      Some (d, at_token (map (\<lambda>(k, w). \<lparr>tok_kind = k, tok_lexeme = w, tok_range = empty_range\<rparr>)
        (enum_words ''K'' [(''a'', None), (''b'', Some (TK_IntegerLiteral, ''1''))])) [] 10) \<and>
    enum_content d = (''K'', [(''a'', None, None), (''b'', Some ''1'', Some ''IntegerLiteral'')])"
  using enum_read_back [of "map (\<lambda>(k, w). \<lparr>tok_kind = k, tok_lexeme = w, tok_range = empty_range\<rparr>)
        (enum_words ''K'' [(''a'', None), (''b'', Some (TK_IntegerLiteral, ''1''))])" "''K''"
        "[(''a'', None), (''b'', Some (TK_IntegerLiteral, ''1''))]" "[]" "[]" "[]"]
  by (simp add: enum_words_def words_def member_value_kinds_def strip_quotes_def numeral_eq_Suc)

end
