(* ===== verification/Validator_Core.thy ===== *)
theory Validator_Core
  imports Ast Prelude
begin

text \<open>
  \<open>src/symbol_table.cpp\<close>, \<open>src/validator_helpers.hpp\<close> and \<open>src/validator_symbols.cpp\<close>: the symbol
  table and what the validators share. A validator writes to a bag of diagnostics that it never
  reads, so that its definition is the list of diagnostics that it appends; \<open>clean\<close> lists have no
  error among them.
\<close>

named_theorems clean_simps "when a validator reports no error"

section \<open>Diagnostics\<close>

definition error_at :: "source_range \<Rightarrow> string \<Rightarrow> string \<Rightarrow> diagnostic list" where
  "error_at r code message = add_error r code message []"

definition warning_at :: "source_range \<Rightarrow> string \<Rightarrow> string \<Rightarrow> diagnostic list" where
  "warning_at r code message = add_warning r code message []"

abbreviation clean :: "diagnostic list \<Rightarrow> bool" where
  "clean ds \<equiv> \<not> has_errors ds"

text \<open>\<open>if (b) report\<close>, and a loop that reports for each element.\<close>

abbreviation unless :: "bool \<Rightarrow> diagnostic list \<Rightarrow> diagnostic list" where
  "unless b ds \<equiv> (if b then [] else ds)"

abbreviation each :: "('a \<Rightarrow> diagnostic list) \<Rightarrow> 'a list \<Rightarrow> diagnostic list" where
  "each f xs \<equiv> concat (map f xs)"

text \<open>\<open>value.has_value()\<close>, then something about the value.\<close>

abbreviation given :: "'a option \<Rightarrow> ('a \<Rightarrow> diagnostic list) \<Rightarrow> diagnostic list" where
  "given v f \<equiv> (case v of None \<Rightarrow> [] | Some x \<Rightarrow> f x)"

text \<open>A loop that inserts the name of each element into a set; the first occurrence of a name is new.\<close>

fun each_named :: "('a \<Rightarrow> string) \<Rightarrow> (bool \<Rightarrow> 'a \<Rightarrow> diagnostic list) \<Rightarrow> string list \<Rightarrow> 'a list \<Rightarrow> diagnostic list" where
  "each_named n f seen [] = []"
| "each_named n f seen (x # xs) = f (n x \<notin> set seen) x @ each_named n f (n x # seen) xs"

definition duplicate_error :: "source_range \<Rightarrow> string \<Rightarrow> diagnostic list" where
  "duplicate_error r name = error_at r ''SSPEC3001'' (''duplicate declaration '' @ quoted name)"

definition unknown_reference_error :: "source_range \<Rightarrow> string \<Rightarrow> string \<Rightarrow> diagnostic list" where
  "unknown_reference_error r kind name =
     error_at r ''SSPEC3002'' (''unknown '' @ kind @ '' reference '' @ quoted name)"

definition required_error :: "source_range \<Rightarrow> string \<Rightarrow> string \<Rightarrow> diagnostic list" where
  "required_error r subject field = error_at r ''SSPEC4001'' (subject @ '' must declare '' @ field)"

definition positive_integer_error :: "source_range \<Rightarrow> string \<Rightarrow> string \<Rightarrow> diagnostic list" where
  "positive_integer_error r subject field =
     error_at r ''SSPEC4002'' (subject @ '' '' @ field @ '' must be a positive integer'')"

definition non_negative_integer_error :: "source_range \<Rightarrow> string \<Rightarrow> string \<Rightarrow> diagnostic list" where
  "non_negative_integer_error r subject field =
     error_at r ''SSPEC4003'' (subject @ '' '' @ field @ '' must be non-negative'')"

definition duration_error :: "source_range \<Rightarrow> string \<Rightarrow> string \<Rightarrow> diagnostic list" where
  "duration_error r subject field =
     error_at r ''SSPEC4004'' (subject @ '' '' @ field @ '' must be an ISO-8601 duration'')"

lemmas error_defs = duplicate_error_def unknown_reference_error_def required_error_def
  positive_integer_error_def non_negative_integer_error_def duration_error_def

lemma clean_basic [simp]:
  "clean []" "clean (xs @ ys) \<longleftrightarrow> clean xs \<and> clean ys" "clean (concat (map f zs)) \<longleftrightarrow> (\<forall>z \<in> set zs. clean (f z))"
  "has_errors (error_at r c m)" "clean (warning_at r c m)"
  by (auto simp: has_errors_def error_at_def warning_at_def add_error_def add_warning_def list_ex_iff)

lemma clean_errors [simp]:
  "has_errors (duplicate_error r n)" "has_errors (unknown_reference_error r k n)" "has_errors (required_error r s f)"
  "has_errors (positive_integer_error r s f)" "has_errors (non_negative_integer_error r s f)" "has_errors (duration_error r s f)"
  by (simp_all add: error_defs)

lemma clean_if [simp]: "clean (if b then xs else ys) \<longleftrightarrow> (if b then clean xs else clean ys)"
  by simp

lemma clean_given: "clean (given v f) \<longleftrightarrow> (\<forall>x. v = Some x \<longrightarrow> clean (f x))"
  by (cases v) auto

text \<open>The loop with a set of seen names is clean when the names are distinct and the rest is.\<close>

lemma each_named_seen:
  assumes "\<And>b x. clean (f b x) \<longleftrightarrow> b \<and> clean (g x)"
  shows "clean (each_named n f seen xs) \<longleftrightarrow>
    distinct (map n xs) \<and> set seen \<inter> n ` set xs = {} \<and> (\<forall>x \<in> set xs. clean (g x))"
  by (induction xs arbitrary: seen) (auto simp: assms)

lemma each_named_clean:
  assumes "\<And>b x. clean (f b x) \<longleftrightarrow> b \<and> clean (g x)"
  shows "clean (each_named n f [] xs) \<longleftrightarrow> distinct (map n xs) \<and> (\<forall>x \<in> set xs. clean (g x))"
  using each_named_seen [where f = f and g = g and seen = "[]", OF assms] by simp

text \<open>The names alone.\<close>

definition duplicates :: "('a \<Rightarrow> string) \<Rightarrow> ('a \<Rightarrow> diagnostic list) \<Rightarrow> 'a list \<Rightarrow> diagnostic list" where
  "duplicates n e = each_named n (\<lambda>fresh x. unless fresh (e x)) []"

lemma duplicates_clean [clean_simps]:
  assumes "\<And>x. has_errors (e x)"
  shows "clean (duplicates n e xs) \<longleftrightarrow> distinct (map n xs)"
  using each_named_clean [where f = "\<lambda>fresh x. unless fresh (e x)" and g = "\<lambda>_. []"] assms
  by (simp add: duplicates_def)

section \<open>Symbols\<close>

datatype SymbolKind =
    SK_System
  | SK_Value
  | SK_Enum
  | SK_Shape
  | SK_ExternalSystem
  | SK_FeatureFlag
  | SK_Log
  | SK_Metric
  | SK_Entity
  | SK_Event
  | SK_Queue
  | SK_Message
  | SK_Lease
  | SK_Worker
  | SK_ApiServer
  | SK_Api
  | SK_Workflow
  | SK_WorkflowStep
  | SK_Policy
  | SK_GenerateTarget

record Symbol =
  sb_kind :: SymbolKind
  sb_name :: string
  sb_range :: source_range

type_synonym symbol_table = "string \<rightharpoonup> Symbol"

definition symbol_table_insert :: "Symbol \<Rightarrow> symbol_table \<Rightarrow> bool \<times> symbol_table" where
  "symbol_table_insert y t =
     (case t (sb_name y) of None \<Rightarrow> (True, t(sb_name y \<mapsto> y)) | Some _ \<Rightarrow> (False, t))"

definition symbol_table_find :: "symbol_table \<Rightarrow> string \<Rightarrow> Symbol option" where
  "symbol_table_find t name = t name"

definition is_declared :: "symbol_table \<Rightarrow> string \<Rightarrow> bool" where
  "is_declared t name \<longleftrightarrow> symbol_table_find t name \<noteq> None"

definition symbol_is_one_of :: "Symbol \<Rightarrow> SymbolKind list \<Rightarrow> bool" where
  "symbol_is_one_of y kinds \<longleftrightarrow> sb_kind y \<in> set kinds"

definition validate_symbol_reference ::
  "symbol_table \<Rightarrow> source_range \<Rightarrow> string \<Rightarrow> string \<Rightarrow> SymbolKind list \<Rightarrow> diagnostic list" where
  "validate_symbol_reference t r kind name allowed_kinds =
     unless (case symbol_table_find t name of None \<Rightarrow> False | Some y \<Rightarrow> symbol_is_one_of y allowed_kinds)
       (unknown_reference_error r kind name)"

definition queue_message_name :: "QueueDecl \<Rightarrow> MessageDecl \<Rightarrow> string" where
  "queue_message_name q m = qu_name q @ ''.'' @ ms_name m"

definition workflow_step_name :: "WorkflowDecl \<Rightarrow> WorkflowStepDecl \<Rightarrow> string" where
  "workflow_step_name w p = wf_name w @ ''.'' @ wp_name p"

text \<open>The declarations in the order in which the code inserts them.\<close>

definition declared_symbols :: "SystemDecl \<Rightarrow> Symbol list" where
  "declared_symbols sys =
     \<lparr>sb_kind = SK_System, sb_name = sy_name sys, sb_range = sy_range sys\<rparr> #
     map (\<lambda>x. \<lparr>sb_kind = SK_Entity, sb_name = et_name x, sb_range = et_range x\<rparr>) (sy_entities sys) @
     map (\<lambda>x. \<lparr>sb_kind = SK_Value, sb_name = vd_name x, sb_range = vd_range x\<rparr>) (sy_values sys) @
     map (\<lambda>x. \<lparr>sb_kind = SK_Enum, sb_name = en_name x, sb_range = en_range x\<rparr>) (sy_enums sys) @
     map (\<lambda>x. \<lparr>sb_kind = SK_Event, sb_name = ev_name x, sb_range = ev_range x\<rparr>) (sy_events sys) @
     map (\<lambda>x. \<lparr>sb_kind = SK_Shape, sb_name = sh_name x, sb_range = sh_range x\<rparr>) (sy_shapes sys) @
     map (\<lambda>x. \<lparr>sb_kind = SK_ExternalSystem, sb_name = xs_name x, sb_range = xs_range x\<rparr>) (sy_external_systems sys) @
     map (\<lambda>x. \<lparr>sb_kind = SK_FeatureFlag, sb_name = ff_name x, sb_range = ff_range x\<rparr>) (sy_feature_flags sys) @
     map (\<lambda>x. \<lparr>sb_kind = SK_Log, sb_name = lg_name x, sb_range = lg_range x\<rparr>) (sy_logs sys) @
     map (\<lambda>x. \<lparr>sb_kind = SK_Metric, sb_name = mt_name x, sb_range = mt_range x\<rparr>) (sy_metrics sys) @
     concat (map (\<lambda>q. \<lparr>sb_kind = SK_Queue, sb_name = qu_name q, sb_range = qu_range q\<rparr> #
       map (\<lambda>m. \<lparr>sb_kind = SK_Message, sb_name = queue_message_name q m, sb_range = ms_range m\<rparr>) (qu_messages q))
       (sy_queues sys)) @
     map (\<lambda>x. \<lparr>sb_kind = SK_Lease, sb_name = ls_name x, sb_range = ls_range x\<rparr>) (sy_leases sys) @
     map (\<lambda>x. \<lparr>sb_kind = SK_Worker, sb_name = wk_name x, sb_range = wk_range x\<rparr>) (sy_workers sys) @
     map (\<lambda>x. \<lparr>sb_kind = SK_ApiServer, sb_name = as_name x, sb_range = as_range x\<rparr>) (sy_api_servers sys) @
     map (\<lambda>x. \<lparr>sb_kind = SK_Api, sb_name = ap_name x, sb_range = ap_range x\<rparr>) (sy_apis sys) @
     concat (map (\<lambda>w. \<lparr>sb_kind = SK_Workflow, sb_name = wf_name w, sb_range = wf_range w\<rparr> #
       map (\<lambda>p. \<lparr>sb_kind = SK_WorkflowStep, sb_name = workflow_step_name w p, sb_range = wp_range p\<rparr>) (wf_steps w))
       (sy_workflows sys)) @
     map (\<lambda>x. \<lparr>sb_kind = SK_Policy, sb_name = po_name x, sb_range = po_range x\<rparr>) (sy_policies sys)"

definition add_symbol :: "Symbol \<Rightarrow> symbol_table \<times> diagnostic list \<Rightarrow> symbol_table \<times> diagnostic list" where
  "add_symbol y td = (case symbol_table_insert y (fst td) of (new, t) \<Rightarrow>
     (t, snd td @ unless new (duplicate_error (sb_range y) (sb_name y))))"

definition build_symbol_table :: "SystemDecl \<Rightarrow> symbol_table \<times> diagnostic list" where
  "build_symbol_table sys = fold add_symbol (declared_symbols sys) (Map.empty, [])"

lemma add_symbol_simps:
  "t (sb_name y) = None \<Longrightarrow> add_symbol y (t, ds) = (t(sb_name y \<mapsto> y), ds)"
  "t (sb_name y) = Some z \<Longrightarrow> add_symbol y (t, ds) = (t, ds @ duplicate_error (sb_range y) (sb_name y))"
  by (simp_all add: add_symbol_def symbol_table_insert_def)

lemma fold_add_symbol:
  "clean (snd (fold add_symbol ys (t, ds))) \<longleftrightarrow>
     clean ds \<and> distinct (map sb_name ys) \<and> dom t \<inter> sb_name ` set ys = {}"
proof (induction ys arbitrary: t ds)
  case (Cons y ys)
  show ?case
    by (cases "t (sb_name y)") (auto simp: add_symbol_simps Cons.IH disjoint_iff domIff split: if_splits)
qed simp

text \<open>The first declaration of a name stays in the table.\<close>

lemma fold_add_symbol_table:
  "fst (fold add_symbol ys (t, ds)) = map_of (map (\<lambda>y. (sb_name y, y)) ys) ++ t"
proof (induction ys arbitrary: t ds)
  case (Cons y ys)
  show ?case
    by (cases "t (sb_name y)")
      (auto simp: add_symbol_simps Cons.IH map_add_def fun_eq_iff split: option.splits)
qed simp

lemma build_symbol_table_table:
  "fst (build_symbol_table sys) = map_of (map (\<lambda>y. (sb_name y, y)) (declared_symbols sys))"
  by (simp add: build_symbol_table_def fold_add_symbol_table)

lemma build_symbol_table_clean:
  "clean (snd (build_symbol_table sys)) \<longleftrightarrow> distinct (map sb_name (declared_symbols sys))"
  by (simp add: build_symbol_table_def fold_add_symbol)

section \<open>Lookups\<close>

definition find_entity :: "SystemDecl \<Rightarrow> string \<Rightarrow> EntityDecl option" where
  "find_entity sys name = find (\<lambda>e. et_name e = name) (sy_entities sys)"

definition find_field :: "FieldDecl list \<Rightarrow> string \<Rightarrow> FieldDecl option" where
  "find_field fs name = find (\<lambda>f. fd_name f = name) fs"

definition entity_state_names :: "EntityDecl \<Rightarrow> string set" where
  "entity_state_names e = (case et_state_machine e of None \<Rightarrow> {} | Some m \<Rightarrow> sd_name ` set (sm_states m))"

definition field_names :: "FieldDecl list \<Rightarrow> string set" where
  "field_names fs = fd_name ` set fs"

text \<open>The position of a word in a string, \<open>find\<close>.\<close>

fun find_word :: "string \<Rightarrow> string \<Rightarrow> nat option" where
  "find_word p [] = (if p = [] then Some 0 else None)"
| "find_word p (c # cs) = (if starts_with (c # cs) p then Some 0 else map_option Suc (find_word p cs))"

definition has_word :: "string \<Rightarrow> string \<Rightarrow> bool" where
  "has_word p t \<longleftrightarrow> find_word p t \<noteq> None"

lemma has_word_iff: "has_word p t \<longleftrightarrow> (\<exists>a b. t = a @ p @ b)"
proof (induction t)
  case (Cons c cs)
  have "has_word p (c # cs) \<longleftrightarrow> starts_with (c # cs) p \<or> has_word p cs"
    by (simp add: has_word_def)
  also have "\<dots> \<longleftrightarrow> (\<exists>a b. c # cs = a @ p @ b)"
    unfolding Cons.IH starts_with_iff by (metis append_Cons append_Nil list.inject list.exhaust)
  finally show ?case .
qed (auto simp: has_word_def)

section \<open>Names, types, literals\<close>

lemma length_tl_dropWhile: "xs \<noteq> [] \<Longrightarrow> length (tl (dropWhile P xs)) < length xs"
proof -
  assume "xs \<noteq> []"
  then have "0 < length xs"
    by simp
  then show ?thesis
    using length_dropWhile_le [of P xs] unfolding length_tl by linarith
qed

definition builtin_types :: "string list" where
  "builtin_types = [''string'', ''bool'', ''int'', ''int32'', ''int64'', ''long'', ''double'', ''decimal'', ''json'',
     ''timestamp'', ''duration'', ''uuid'', ''list'', ''set'', ''map'', ''optional'', ''ref'']"

definition is_builtin_type :: "string \<Rightarrow> bool" where
  "is_builtin_type t \<longleftrightarrow>
     (if t \<noteq> [] \<and> last t = CHR ''?'' then butlast t \<in> set builtin_types else t \<in> set builtin_types)"

definition base_type_name :: "string \<Rightarrow> string" where
  "base_type_name t =
     (if CHR ''<'' \<in> set t then takeWhile (\<lambda>c. c \<noteq> CHR ''<'') t
      else if ends_with t ''[]'' then take (length t - 2) t
      else if t \<noteq> [] \<and> last t = CHR ''?'' then butlast t
      else t)"

definition is_known_type_reference :: "string \<Rightarrow> symbol_table \<Rightarrow> bool" where
  "is_known_type_reference t symbols \<longleftrightarrow>
     is_builtin_type (base_type_name t) \<or> is_declared symbols (base_type_name t)"

definition is_supported_feature_flag_type :: "string \<Rightarrow> bool" where
  "is_supported_feature_flag_type t \<longleftrightarrow> t \<in> {''bool'', ''string'', ''int'', ''decimal''}"

definition is_supported_log_level :: "string \<Rightarrow> bool" where
  "is_supported_log_level l \<longleftrightarrow> l \<in> {''debug'', ''info'', ''warn'', ''error''}"

definition is_supported_metric_kind :: "string \<Rightarrow> bool" where
  "is_supported_metric_kind k \<longleftrightarrow> k \<in> {''counter'', ''gauge'', ''histogram''}"

definition is_supported_metric_label_type :: "string \<Rightarrow> bool" where
  "is_supported_metric_label_type t \<longleftrightarrow> base_type_name t \<in> {''string'', ''bool'', ''int''}"

definition is_pascal_case_name :: "string \<Rightarrow> bool" where
  "is_pascal_case_name n \<longleftrightarrow> n \<noteq> [] \<and> is_upper (hd n) \<and> list_all is_alnum n"

function qualified_pascal_loop :: "string \<Rightarrow> bool" where
  "qualified_pascal_loop n =
     (if n = [] then False
      else if \<not> is_pascal_case_name (takeWhile (\<lambda>c. c \<noteq> CHR ''.'') n) then False
      else if CHR ''.'' \<notin> set n then True
      else qualified_pascal_loop (tl (dropWhile (\<lambda>c. c \<noteq> CHR ''.'') n)))"
  by auto
termination
  by (relation "measure length") (auto simp del: length_tl intro: length_tl_dropWhile)

declare qualified_pascal_loop.simps [simp del]

definition is_qualified_pascal_case_name :: "string \<Rightarrow> bool" where
  "is_qualified_pascal_case_name n \<longleftrightarrow> n \<noteq> [] \<and> qualified_pascal_loop n"

text \<open>The flags of the loop: a digit was seen, a unit was seen, the time part has begun.\<close>

fun duration_literal_loop :: "bool \<Rightarrow> bool \<Rightarrow> bool \<Rightarrow> string \<Rightarrow> bool" where
  "duration_literal_loop has_digit has_unit in_time [] \<longleftrightarrow> has_digit \<and> has_unit"
| "duration_literal_loop has_digit has_unit in_time (ch # cs) \<longleftrightarrow>
     (if is_digit ch then duration_literal_loop True has_unit in_time cs
      else if ch = CHR ''T'' then (if in_time then False else duration_literal_loop has_digit has_unit True cs)
      else if ch \<in> {CHR ''D'', CHR ''H'', CHR ''M'', CHR ''S''} then duration_literal_loop has_digit True in_time cs
      else False)"

definition is_duration_literal :: "string \<Rightarrow> bool" where
  "is_duration_literal v \<longleftrightarrow> length v \<ge> 3 \<and> hd v = CHR ''P'' \<and> duration_literal_loop False False False (tl v)"

definition is_garbage_collection_mode :: "string \<Rightarrow> bool" where
  "is_garbage_collection_mode v \<longleftrightarrow> v = ''delete'' \<or> v = ''tombstone'' \<or> v = ''archive''"

definition is_ownership_authority :: "string \<Rightarrow> bool" where
  "is_ownership_authority v \<longleftrightarrow> v = ''system'' \<or> v = ''external''"

definition is_lifecycle_mode :: "string \<Rightarrow> bool" where
  "is_lifecycle_mode v \<longleftrightarrow> v = ''authoritative'' \<or> v = ''managed'' \<or> v = ''observed'' \<or> v = ''projected''"

definition is_relation_kind :: "string \<Rightarrow> bool" where
  "is_relation_kind v \<longleftrightarrow> v = ''composition'' \<or> v = ''aggregation'' \<or> v = ''reference''"

definition is_parent_delete_behavior :: "string \<Rightarrow> bool" where
  "is_parent_delete_behavior v \<longleftrightarrow> v = ''cascade'' \<or> v = ''block'' \<or> v = ''detach'' \<or> v = ''fail''"

definition is_integer_text :: "string \<Rightarrow> bool" where
  "is_integer_text v \<longleftrightarrow> v \<noteq> [] \<and> list_all is_digit v"

definition feature_flag_default_matches_type :: "FeatureFlagDecl \<Rightarrow> bool" where
  "feature_flag_default_matches_type f =
     (case (ff_type f, ff_default_value f, ff_default_value_kind f) of
        (Some t, Some v, Some k) \<Rightarrow>
          (if t = ''bool'' then k = ''BooleanLiteral''
           else if t = ''string'' then k = ''StringLiteral''
           else if t = ''int'' then k = ''IntegerLiteral'' \<and> is_integer_text v
           else if t = ''decimal'' then k = ''DecimalLiteral'' \<or> k = ''IntegerLiteral''
           else True)
      | _ \<Rightarrow> True)"

definition entity_scope_target :: "string \<Rightarrow> string option" where
  "entity_scope_target scope = (if starts_with scope ''entity '' then Some (drop 7 scope) else None)"

definition relation_target_name :: "string \<Rightarrow> string" where
  "relation_target_name target =
     (let t = (if target \<noteq> [] \<and> last target = CHR ''?'' then butlast target else target);
          t = (if starts_with t ''optional '' then drop 9 t else t)
      in if starts_with t ''ref<'' \<and> last t = CHR ''>'' then take (length t - 5) (drop 4 t) else t)"

section \<open>Fields\<close>

definition validate_field_duplicates :: "FieldDecl list \<Rightarrow> diagnostic list" where
  "validate_field_duplicates = duplicates fd_name (\<lambda>f. duplicate_error (fd_range f) (fd_name f))"

definition validate_field_types :: "FieldDecl list \<Rightarrow> symbol_table \<Rightarrow> diagnostic list" where
  "validate_field_types fs symbols = each (\<lambda>f.
     unless (is_builtin_type (base_type_name (fd_type f)) \<or> is_declared symbols (base_type_name (fd_type f)))
       (unknown_reference_error (fd_range f) ''type'' (base_type_name (fd_type f)))) fs"

text \<open>A member order is accepted up to the first member that comes before an earlier one; it is a
  warning, reported once.\<close>

fun first_out_of_order :: "(string \<Rightarrow> int) \<Rightarrow> int \<Rightarrow> BlockMemberOrder list \<Rightarrow> BlockMemberOrder option" where
  "first_out_of_order index previous_order [] = None"
| "first_out_of_order index previous_order (m # ms) =
     (if index (mo_kind m) < previous_order then Some m else first_out_of_order index (index (mo_kind m)) ms)"

definition validate_member_order ::
  "(string \<Rightarrow> int) \<Rightarrow> string \<Rightarrow> string \<Rightarrow> BlockMemberOrder list \<Rightarrow> diagnostic list" where
  "validate_member_order index code message ms =
     given (first_out_of_order index (- 1) ms) (\<lambda>m. warning_at (mo_range m) code message)"

text \<open>The chain of \<open>if (kind == ...) return i\<close> of such an order: the groups of kinds, and one more index
  for any other kind.\<close>

fun order_index :: "string list list \<Rightarrow> string \<Rightarrow> int" where
  "order_index [] kind = 0"
| "order_index (g # gs) kind = (if kind \<in> set g then 0 else 1 + order_index gs kind)"

lemma member_order_clean [clean_simps]: "clean (validate_member_order index code message ms)"
  by (auto simp: validate_member_order_def split: option.splits)

lemma field_checks_clean [clean_simps]:
  "clean (validate_field_duplicates fs) \<longleftrightarrow> distinct (map fd_name fs)"
  "clean (validate_field_types fs symbols) \<longleftrightarrow> (\<forall>f \<in> set fs. is_known_type_reference (fd_type f) symbols)"
  by (auto simp: validate_field_duplicates_def validate_field_types_def is_known_type_reference_def clean_simps)

lemma symbol_reference_clean [clean_simps]:
  "clean (validate_symbol_reference t r kind name kinds) \<longleftrightarrow> (\<exists>y. t name = Some y \<and> sb_kind y \<in> set kinds)"
  by (auto simp: validate_symbol_reference_def symbol_table_find_def symbol_is_one_of_def split: option.splits)

lemma find_entity_Some: "find_entity sys n = Some e \<Longrightarrow> e \<in> set (sy_entities sys) \<and> et_name e = n"
  by (auto simp: find_entity_def find_Some_iff)

lemma find_field_iff: "find_field fs n \<noteq> None \<longleftrightarrow> n \<in> field_names fs"
  by (auto simp: find_field_def field_names_def find_None_iff)

end
