(* ===== verification/Validator_Expression.thy ===== *)
theory Validator_Expression
  imports Validator_Core Lexer
begin

text \<open>
  \<open>src/validator_expression.cpp\<close>: the syntax check of expressions, a recursive descent over the
  tokens of the expression's text, and the check of feature flag calls. A state holds the tokens
  from the current one on; the last of them is the end-of-file token, which is never taken. As in
  the parser, a function that may not return is an option; \<open>None\<close> is proved not to occur.
\<close>

section \<open>The state of the syntax check\<close>

record expression_state =
  es_range :: source_range
  es_rest :: "token list"
  es_failed :: bool
  es_diagnostics :: "diagnostic list"

definition ex_peek :: "expression_state \<Rightarrow> token" where
  "ex_peek s = hd (es_rest s)"

definition ex_check :: "token_kind \<Rightarrow> expression_state \<Rightarrow> bool" where
  "ex_check k s \<longleftrightarrow> tok_kind (ex_peek s) = k"

definition ex_advance :: "expression_state \<Rightarrow> expression_state" where
  "ex_advance s = (if \<not> ex_check TK_EndOfFile s then s\<lparr>es_rest := tl (es_rest s)\<rparr> else s)"

text \<open>\<open>match(k1) || match(k2) || ...\<close> is \<open>ex_check_any\<close>, followed by \<open>ex_advance\<close>.\<close>

definition ex_check_any :: "token_kind list \<Rightarrow> expression_state \<Rightarrow> bool" where
  "ex_check_any ks s \<longleftrightarrow> list_ex (\<lambda>k. ex_check k s) ks"

definition syntax_error :: "string \<Rightarrow> expression_state \<Rightarrow> expression_state" where
  "syntax_error message s =
     (if es_failed s then s
      else s\<lparr>es_failed := True,
             es_diagnostics := es_diagnostics s @ error_at (es_range s) ''SSPEC5201'' (''invalid expression: '' @ message)\<rparr>)"

definition ex_consume :: "token_kind \<Rightarrow> string \<Rightarrow> expression_state \<Rightarrow> expression_state" where
  "ex_consume k message s = (if ex_check k s then ex_advance s else syntax_error message s)"

definition expression_keywords :: "string list" where
  "expression_keywords = [''system'', ''namespace'', ''value'', ''enum'', ''shape'', ''external_system'',
     ''feature_flag'', ''log'', ''metric'', ''entity'', ''event'', ''queue'', ''message'', ''lease'', ''worker'',
     ''api_server'', ''api'', ''workflow'', ''step'', ''child_set'', ''child_workflow'', ''policy'', ''tenant'',
     ''input'', ''output'', ''error'', ''starts'', ''enqueues'', ''polls'', ''executes'', ''singleton'', ''concurrency'']"

definition is_expression_identifier_token :: "token_kind \<Rightarrow> bool" where
  "is_expression_identifier_token k \<longleftrightarrow> k \<in> set (TK_Identifier # map TK_Keyword expression_keywords)"

definition expression_builtins :: "string list" where
  "expression_builtins = [''count'', ''empty'', ''contains'', ''disjoint'', ''exists'', ''current_state'',
     ''can_transition'', ''changed'', ''generate_ids'', ''ordinal_of'', ''child_state'', ''all_children'', ''any_child'',
     ''now'', ''duration'', ''expired'', ''feature_enabled'', ''feature_value'']"

definition is_allowed_expression_builtin :: "string \<Rightarrow> bool" where
  "is_allowed_expression_builtin name \<longleftrightarrow> name \<in> set expression_builtins"

definition validate_builtin_call :: "string \<Rightarrow> expression_state \<Rightarrow> expression_state" where
  "validate_builtin_call name s =
     (if is_allowed_expression_builtin name then s
      else s\<lparr>es_diagnostics := es_diagnostics s @ error_at (es_range s) ''SSPEC5202''
        (''expression function '' @ quoted name @ '' is not an allowed built-in'')\<rparr>)"

section \<open>The descent\<close>

partial_function (option) repeat_while ::
  "(expression_state \<Rightarrow> bool) \<Rightarrow> (expression_state \<Rightarrow> expression_state option) \<Rightarrow>
   expression_state \<Rightarrow> expression_state option" where
  "repeat_while c b s = (if c s then Option.bind (b s) (repeat_while c b) else Some s)"

text \<open>An operand, then operators each with another operand.\<close>

definition operator_chain ::
  "token_kind list \<Rightarrow> (expression_state \<Rightarrow> expression_state option) \<Rightarrow> expression_state \<Rightarrow> expression_state option" where
  "operator_chain operators operand s =
     Option.bind (operand s) (repeat_while (ex_check_any operators) (\<lambda>s. operand (ex_advance s)))"

text \<open>Expressions separated by commas, none if the closing token is next.\<close>

definition expression_items ::
  "(expression_state \<Rightarrow> expression_state option) \<Rightarrow> token_kind \<Rightarrow> expression_state \<Rightarrow> expression_state option" where
  "expression_items expression close s =
     (if ex_check close s then Some s
      else Option.bind (expression s) (repeat_while (ex_check TK_Comma) (\<lambda>s. expression (ex_advance s))))"

lemma ex_advance_shorter:
  "ex_check k s \<Longrightarrow> k \<noteq> TK_EndOfFile \<Longrightarrow> es_rest s \<noteq> [] \<Longrightarrow> length (es_rest (ex_advance s)) < length (es_rest s)"
  by (simp add: ex_advance_def ex_check_def)

lemma ex_advance_rest:
  "es_rest (ex_advance s) = (if tok_kind (hd (es_rest s)) = TK_EndOfFile then es_rest s else tl (es_rest s))"
  by (simp add: ex_advance_def ex_check_def ex_peek_def)

lemma ex_advance_simps [simp]:
  "es_failed (ex_advance s) = es_failed s" "es_diagnostics (ex_advance s) = es_diagnostics s"
  "es_range (ex_advance s) = es_range s"
  by (simp_all add: ex_advance_def)

function qualified_name_rest :: "string \<Rightarrow> expression_state \<Rightarrow> string \<times> expression_state" where
  "qualified_name_rest name s =
     (if es_rest s \<noteq> [] \<and> ex_check TK_Dot s then
        let s = ex_advance s
        in if \<not> is_expression_identifier_token (tok_kind (ex_peek s))
           then (name, syntax_error (''expected name after '' @ quoted ''.'') s)
           else qualified_name_rest (name @ ''.'' @ tok_lexeme (ex_peek s)) (ex_advance s)
      else (name, s))"
  by auto
termination
  by (relation "measure (\<lambda>(_, s). length (es_rest s))")
    (auto simp: ex_check_def ex_peek_def ex_advance_rest Let_def dest: arg_cong [of _ _ length])

declare qualified_name_rest.simps [simp del]

definition parse_qualified_name :: "expression_state \<Rightarrow> string \<times> expression_state" where
  "parse_qualified_name s = qualified_name_rest (tok_lexeme (ex_peek s)) (ex_advance s)"

partial_function (option) parse_selectors ::
  "(expression_state \<Rightarrow> expression_state option) \<Rightarrow> expression_state \<Rightarrow> expression_state option" where
  "parse_selectors expression s =
     (if ex_check TK_Dot s then
        if \<not> is_expression_identifier_token (tok_kind (ex_peek (ex_advance s)))
        then Some (syntax_error (''expected selector name after '' @ quoted ''.'') (ex_advance s))
        else parse_selectors expression (ex_advance (ex_advance s))
      else if ex_check TK_LeftBracket s then
        Option.bind (expression (ex_advance s)) (\<lambda>s.
          parse_selectors expression (ex_consume TK_RightBracket (''expected '' @ quoted '']'' @ '' after selector expression'') s))
      else Some s)"

definition expression_literals :: "token_kind list" where
  "expression_literals = [TK_StringLiteral, TK_IntegerLiteral, TK_DecimalLiteral, TK_BooleanLiteral, TK_DurationLiteral]"

definition parse_call ::
  "(expression_state \<Rightarrow> expression_state option) \<Rightarrow> string \<Rightarrow> expression_state \<Rightarrow> expression_state option" where
  "parse_call expression name s =
     (if ex_check TK_LeftParen s then
        map_option (ex_consume TK_RightParen (''expected '' @ quoted '')'' @ '' after function arguments''))
          (expression_items expression TK_RightParen (validate_builtin_call name (ex_advance s)))
      else Some s)"

definition parse_primary ::
  "(expression_state \<Rightarrow> expression_state option) \<Rightarrow> expression_state \<Rightarrow> expression_state option" where
  "parse_primary expression s =
     (if ex_check_any expression_literals s then Some (ex_advance s)
      else if ex_check TK_LeftParen s then
        map_option (ex_consume TK_RightParen (''expected '' @ quoted '')'' @ '' after expression'')) (expression (ex_advance s))
      else if ex_check TK_LeftBracket s then
        map_option (ex_consume TK_RightBracket (''expected '' @ quoted '']'' @ '' after list expression''))
          (expression_items expression TK_RightBracket (ex_advance s))
      else if is_expression_identifier_token (tok_kind (ex_peek s)) then
        Option.bind (parse_call expression (fst (parse_qualified_name s)) (snd (parse_qualified_name s)))
          (parse_selectors expression)
      else Some (syntax_error ''expected expression'' s))"

partial_function (option) parse_unary ::
  "(expression_state \<Rightarrow> expression_state option) \<Rightarrow> expression_state \<Rightarrow> expression_state option" where
  "parse_unary expression s =
     (if ex_check_any [TK_Bang, TK_Minus] s then parse_unary expression (ex_advance s)
      else parse_primary expression s)"

definition multiplicative_operators :: "token_kind list" where
  "multiplicative_operators = [TK_Star, TK_Slash, TK_Percent]"

definition additive_operators :: "token_kind list" where
  "additive_operators = [TK_Plus, TK_Minus]"

definition comparison_operators :: "token_kind list" where
  "comparison_operators = [TK_Less, TK_LessEqual, TK_Greater, TK_GreaterEqual, TK_Keyword ''in'']"

definition equality_operators :: "token_kind list" where
  "equality_operators = [TK_EqualEqual, TK_BangEqual]"

definition parse_multiplicative where
  "parse_multiplicative expression = operator_chain multiplicative_operators (parse_unary expression)"

definition parse_additive where
  "parse_additive expression = operator_chain additive_operators (parse_multiplicative expression)"

definition parse_comparison where
  "parse_comparison expression = operator_chain comparison_operators (parse_additive expression)"

definition parse_equality where
  "parse_equality expression = operator_chain equality_operators (parse_comparison expression)"

definition parse_logical_and where
  "parse_logical_and expression = operator_chain [TK_AndAnd] (parse_equality expression)"

definition parse_logical_or where
  "parse_logical_or expression = operator_chain [TK_OrOr] (parse_logical_and expression)"

section \<open>The knot\<close>

text \<open>The three loops with the recursive call as a parameter are monotone in it.\<close>

lemma fun_ord_SomeD: "fun_ord option_ord f g \<Longrightarrow> f s = Some r \<Longrightarrow> g s = Some r"
  unfolding fun_ord_def flat_ord_def by (metis option.distinct(1))

lemma option_monotoneI:
  fixes F :: "('u \<Rightarrow> 'v option) \<Rightarrow> 'w option"
  assumes "\<And>f g r. fun_ord option_ord f g \<Longrightarrow> F f = Some r \<Longrightarrow> F g = Some r"
  shows "monotone (fun_ord option_ord) option_ord F"
proof (rule monotoneI)
  fix f g :: "'u \<Rightarrow> 'v option" assume "fun_ord option_ord f g"
  then show "option_ord (F f) (F g)"
    using assms by (cases "F f") (auto simp: flat_ord_def)
qed

lemma option_monotoneD:
  "monotone (fun_ord option_ord) option_ord F \<Longrightarrow> fun_ord option_ord f g \<Longrightarrow> F f = Some r \<Longrightarrow> F g = Some r"
  by (metis flat_ord_def monotoneD option.distinct(1))

lemma repeat_while_induct [consumes 1, case_names step]:
  assumes "repeat_while c b s = Some r"
    and "\<And>f c b s r. (\<And>c b s r. f c b s = Some r \<Longrightarrow> P c b s r) \<Longrightarrow>
      (if c s then Option.bind (b s) (f c b) else Some s) = Some r \<Longrightarrow> P c b s r"
  shows "P c b s r"
  using assms by (rule repeat_while.raw_induct [rotated])

lemmas selectors_induct [consumes 1, case_names step] = parse_selectors.raw_induct [rotated]

lemmas unary_induct [consumes 1, case_names step] = parse_unary.raw_induct [rotated]

lemma repeat_while_mono [partial_function_mono]:
  fixes b :: "('u \<Rightarrow> 'v option) \<Rightarrow> expression_state \<Rightarrow> expression_state option"
  assumes b: "\<And>t. monotone (fun_ord option_ord) option_ord (\<lambda>f. b f t)"
  shows "monotone (fun_ord option_ord) option_ord (\<lambda>f. repeat_while c (b f) s)"
proof (rule option_monotoneI)
  fix f g :: "'u \<Rightarrow> 'v option" and r
  assume le: "fun_ord option_ord f g" and r: "repeat_while c (b f) s = Some r"
  have "repeat_while c b' s = Some r \<Longrightarrow> b' = b f \<longrightarrow> repeat_while c (b g) s = Some r" for b' s r
  proof (induction rule: repeat_while_induct)
    case (step loop c b' s r)
    then show ?case
      using option_monotoneD [OF b le]
      by (auto simp: repeat_while.simps [of c _ s] bind_eq_Some_conv split: if_splits)
  qed
  then show "repeat_while c (b g) s = Some r"
    using r by blast
qed

lemma operator_chain_mono [partial_function_mono]:
  assumes "\<And>t. monotone (fun_ord option_ord) option_ord (\<lambda>f. p f t)"
  shows "monotone (fun_ord option_ord) option_ord (\<lambda>f. operator_chain ks (p f) s)"
  unfolding operator_chain_def by (intro partial_function_mono assms)

lemma expression_items_mono [partial_function_mono]:
  "monotone (fun_ord option_ord) option_ord (\<lambda>f. expression_items f close s)"
  unfolding expression_items_def by (intro partial_function_mono)

lemma map_option_mono' [partial_function_mono]:
  "monotone (fun_ord option_ord) option_ord F \<Longrightarrow> monotone (fun_ord option_ord) option_ord (\<lambda>f. map_option h (F f))"
  by (rule option_monotoneI) (auto dest: option_monotoneD)

lemma parse_selectors_mono [partial_function_mono]:
  "monotone (fun_ord option_ord) option_ord (\<lambda>f. parse_selectors f s)"
proof (rule option_monotoneI)
  fix f g and r
  assume le: "fun_ord option_ord f g" and r: "parse_selectors f s = Some r"
  have "parse_selectors e s = Some r \<Longrightarrow> e = f \<longrightarrow> parse_selectors g s = Some r" for e s r
  proof (induction rule: selectors_induct)
    case (step loop e s r)
    then show ?case
      using fun_ord_SomeD [OF le]
      by (auto simp: parse_selectors.simps [of _ s] bind_eq_Some_conv split: if_splits)
  qed
  then show "parse_selectors g s = Some r"
    using r by blast
qed

lemma parse_primary_mono [partial_function_mono]:
  "monotone (fun_ord option_ord) option_ord (\<lambda>f. parse_primary f s)"
  unfolding parse_primary_def parse_call_def by (intro partial_function_mono)

lemma parse_unary_mono [partial_function_mono]:
  "monotone (fun_ord option_ord) option_ord (\<lambda>f. parse_unary f s)"
proof (rule option_monotoneI)
  fix f g and r
  assume le: "fun_ord option_ord f g" and r: "parse_unary f s = Some r"
  have "parse_unary e s = Some r \<Longrightarrow> e = f \<longrightarrow> parse_unary g s = Some r" for e s r
  proof (induction rule: unary_induct)
    case (step loop e s r)
    then show ?case
      using option_monotoneD [OF parse_primary_mono le]
      by (auto simp: parse_unary.simps [of _ s] split: if_splits)
  qed
  then show "parse_unary g s = Some r"
    using r by blast
qed

lemma parse_logical_or_mono [partial_function_mono]:
  "monotone (fun_ord option_ord) option_ord (\<lambda>f. parse_logical_or f s)"
  unfolding parse_logical_or_def parse_logical_and_def parse_equality_def parse_comparison_def parse_additive_def
    parse_multiplicative_def
  by (intro partial_function_mono)

partial_function (option) parse_expression :: "expression_state \<Rightarrow> expression_state option" where
  "parse_expression s = parse_logical_or parse_expression s"

declare repeat_while.simps [code] parse_selectors.simps [code] parse_unary.simps [code] parse_expression.simps [code]

definition validate_syntax :: "expression_state \<Rightarrow> expression_state option" where
  "validate_syntax s =
     (if ex_check TK_EndOfFile s then Some (syntax_error ''expression must not be empty'' s)
      else map_option (\<lambda>s.
        if \<not> es_failed s \<and> \<not> ex_check TK_EndOfFile s
        then syntax_error (''unexpected token '' @ quoted (tok_lexeme (ex_peek s)) @ '' in expression'') s
        else s) (parse_expression s))"

section \<open>Feature flag calls\<close>

definition find_feature_flag :: "SystemDecl \<Rightarrow> string \<Rightarrow> FeatureFlagDecl option" where
  "find_feature_flag sys name = find (\<lambda>f. ff_name f = name) (sy_feature_flags sys)"

lemma find_word_Some: "find_word p t = Some k \<Longrightarrow> k + length p \<le> length t"
proof (induction t arbitrary: k)
  case (Cons c cs)
  then show ?case
    by (auto simp: starts_with_iff split: if_splits dest: arg_cong [of _ _ length])
qed (simp split: if_splits)

text \<open>The text is searched, not the tokens: from the offset on, the next place of the name; behind it
  blanks and an opening parenthesis, and up to the next closing one the argument, without its
  blanks. The two names that the code looks for are not empty.\<close>

function feature_flag_function_arguments :: "string \<Rightarrow> string \<Rightarrow> string list" where
  "feature_flag_function_arguments name t =
     (if name = [] then []
      else case find_word name t of
        None \<Rightarrow> []
      | Some k \<Rightarrow>
          (case dropWhile is_space (drop (k + length name) t) of
             [] \<Rightarrow> []
           | c # cs \<Rightarrow>
               if c \<noteq> CHR ''('' then feature_flag_function_arguments name (c # cs)
               else if CHR '')'' \<notin> set cs then []
               else filter (\<lambda>ch. \<not> is_space ch) (takeWhile (\<lambda>ch. ch \<noteq> CHR '')'') cs) #
                 feature_flag_function_arguments name (tl (dropWhile (\<lambda>ch. ch \<noteq> CHR '')'') cs))))"
  by auto
termination
proof (relation "measure (\<lambda>(_, t). length t)", goal_cases)
  case (2 name t k c cs)
  then show ?case
    using find_word_Some [of name t k] length_dropWhile_le [of is_space "drop (k + length name) t"]
    by (cases name) auto
next
  case (3 name t k c cs)
  have "length (tl (dropWhile (\<lambda>ch. ch \<noteq> CHR '')'') cs)) \<le> length cs"
    using length_dropWhile_le [of "\<lambda>ch. ch \<noteq> CHR '')''" cs] by simp
  then show ?case
    using 3 find_word_Some [of name t k] length_dropWhile_le [of is_space "drop (k + length name) t"]
    by auto
qed simp

declare feature_flag_function_arguments.simps [simp del]

definition validate_feature_flag_expression :: "SystemDecl \<Rightarrow> source_range \<Rightarrow> string \<Rightarrow> diagnostic list" where
  "validate_feature_flag_expression sys r expression =
     each (\<lambda>name. case find_feature_flag sys name of
         None \<Rightarrow> unknown_reference_error r ''feature flag'' name
       | Some f \<Rightarrow> unless (ff_type f = Some ''bool'')
           (error_at r ''SSPEC4204'' (''feature_enabled requires bool feature flag '' @ quoted name)))
       (feature_flag_function_arguments ''feature_enabled'' expression) @
     each (\<lambda>name. unless (find_feature_flag sys name \<noteq> None) (unknown_reference_error r ''feature flag'' name))
       (feature_flag_function_arguments ''feature_value'' expression)"

definition new_expression_state :: "source_range \<Rightarrow> token list \<Rightarrow> expression_state" where
  "new_expression_state r ts = \<lparr>es_range = r, es_rest = ts, es_failed = False, es_diagnostics = []\<rparr>"

text \<open>The diagnostics of the syntax check; \<open>None\<close> does not occur (\<open>validate_syntax_returns\<close>).\<close>

definition syntax_diagnostics :: "source_range \<Rightarrow> token list \<Rightarrow> diagnostic list" where
  "syntax_diagnostics r ts = es_diagnostics (the (validate_syntax (new_expression_state r ts)))"

definition validate_expression :: "SystemDecl \<Rightarrow> source_range \<Rightarrow> string \<Rightarrow> diagnostic list" where
  "validate_expression sys r expression =
     (case lex \<lparr>sf_path = ''<expression>'', sf_text = expression\<rparr> [] of (tokens, ds) \<Rightarrow>
        if has_errors ds then error_at r ''SSPEC5201'' (''invalid expression: '' @ ''lexer rejected expression'')
        else syntax_diagnostics r tokens @ validate_feature_flag_expression sys r expression)"

end
