(* ===== verification/Validator_Declarations.thy ===== *)
theory Validator_Declarations
  imports Validator_Expression
begin

text \<open>
  \<open>src/validator_declarations.cpp\<close>, \<open>src/validator_ordering.cpp\<close>, \<open>src/validator_feature_flags.cpp\<close>,
  \<open>src/validator_shapes_values_events.cpp\<close>, \<open>src/validator_observability.cpp\<close>, \<open>src/validator_policies.cpp\<close> and
  \<open>src/validator_external_systems.cpp\<close>: the checks of the declarations that are not entities or
  runtime objects. One definition checks one declaration; the code's function is \<open>each\<close> of it.
\<close>

section \<open>The system\<close>

definition validate_system_tenancy :: "SystemDecl \<Rightarrow> diagnostic list" where
  "validate_system_tenancy sys =
     unless (sy_tenant_scope sys \<noteq> None)
       (required_error (sy_range sys) (''system '' @ quoted (sy_name sys)) ''tenant scoped_by'') @
     unless (sy_system_tenant sys \<noteq> None)
       (required_error (sy_range sys) (''system '' @ quoted (sy_name sys)) ''system_tenant configured'')"

definition system_member_order_index :: "string \<Rightarrow> int" where
  "system_member_order_index = order_index [[''tenant''], [''system_tenant''],
     [''value'', ''enum'', ''shape'', ''external_system'', ''event''], [''feature_flag''], [''log'', ''metric''],
     [''entity''], [''queue''], [''lease''], [''worker''], [''workflow''], [''api_server'', ''api''], [''policy'']]"

definition validate_system_member_order :: "SystemDecl \<Rightarrow> diagnostic list" where
  "validate_system_member_order sys = validate_member_order system_member_order_index ''SSPEC6106''
     (''system '' @ quoted (sy_name sys) @ '' members should use canonical order: tenant, system_tenant, '' @
      ''values/enums/shapes/events, feature_flags, logs/metrics, '' @
      ''entities, queues, leases, workers, workflows, APIs, policies'') (sy_member_order sys)"

definition pascal_case_error :: "source_range \<Rightarrow> string \<Rightarrow> string \<Rightarrow> string \<Rightarrow> diagnostic list" where
  "pascal_case_error r code kind name = error_at r code (kind @ '' '' @ quoted name @ '' must use PascalCase'')"

lemma pascal_case_error_clean [simp]: "has_errors (pascal_case_error r c k n)"
  by (simp add: pascal_case_error_def)

section \<open>Feature flags\<close>

definition validate_feature_flag :: "symbol_table \<Rightarrow> FeatureFlagDecl \<Rightarrow> diagnostic list" where
  "validate_feature_flag symbols f =
     unless (is_qualified_pascal_case_name (ff_name f))
       (pascal_case_error (ff_range f) ''SSPEC4201'' ''feature flag'' (ff_name f)) @
     (case ff_type f of
        None \<Rightarrow> required_error (ff_range f) (''feature_flag '' @ quoted (ff_name f)) ''type''
      | Some t \<Rightarrow> unless (is_supported_feature_flag_type t)
          (error_at (ff_range f) ''SSPEC4202''
            (''feature flag '' @ quoted (ff_name f) @ '' has unsupported type '' @ quoted t))) @
     (case ff_default_value f of
        None \<Rightarrow> required_error (ff_range f) (''feature_flag '' @ quoted (ff_name f)) ''default''
      | Some _ \<Rightarrow> unless (feature_flag_default_matches_type f)
          (error_at (ff_range f) ''SSPEC4203''
            (''feature flag '' @ quoted (ff_name f) @ '' default must match declared type''))) @
     given (ff_scope f) (\<lambda>scope. given (entity_scope_target scope) (\<lambda>entity.
       unless (case symbol_table_find symbols entity of None \<Rightarrow> False | Some y \<Rightarrow> sb_kind y = SK_Entity)
         (unknown_reference_error (ff_range f) ''feature flag entity scope'' entity)))"

definition validate_feature_flags :: "SystemDecl \<Rightarrow> symbol_table \<Rightarrow> diagnostic list" where
  "validate_feature_flags sys symbols = each (validate_feature_flag symbols) (sy_feature_flags sys)"

section \<open>Values, enums, events, shapes\<close>

definition validate_value :: "SystemDecl \<Rightarrow> symbol_table \<Rightarrow> ValueDecl \<Rightarrow> diagnostic list" where
  "validate_value sys symbols v =
     unless (is_qualified_pascal_case_name (vd_name v)) (pascal_case_error (vd_range v) ''SSPEC4501'' ''value'' (vd_name v)) @
     (if vd_type v = [] then required_error (vd_range v) (''value '' @ quoted (vd_name v)) ''type''
      else unless (is_known_type_reference (vd_type v) symbols)
        (unknown_reference_error (vd_range v) ''value type'' (vd_type v))) @
     given (vd_constraint v) (validate_expression sys (vd_range v))"

definition validate_values :: "SystemDecl \<Rightarrow> symbol_table \<Rightarrow> diagnostic list" where
  "validate_values sys symbols = each (validate_value sys symbols) (sy_values sys)"

definition validate_enum_member :: "EnumDecl \<Rightarrow> bool \<Rightarrow> EnumMemberDecl \<Rightarrow> diagnostic list" where
  "validate_enum_member e fresh m =
     unless (is_pascal_case_name (em_name m))
       (pascal_case_error (em_range m) ''SSPEC4602'' ''enum member'' (en_name e @ ''.'' @ em_name m)) @
     unless fresh (duplicate_error (em_range m) (en_name e @ ''.'' @ em_name m))"

definition validate_enum :: "EnumDecl \<Rightarrow> diagnostic list" where
  "validate_enum e =
     unless (is_qualified_pascal_case_name (en_name e)) (pascal_case_error (en_range e) ''SSPEC4601'' ''enum'' (en_name e)) @
     unless (en_members e \<noteq> []) (required_error (en_range e) (''enum '' @ quoted (en_name e)) ''member'') @
     each_named em_name (validate_enum_member e) [] (en_members e)"

definition validate_enums :: "SystemDecl \<Rightarrow> diagnostic list" where
  "validate_enums sys = each validate_enum (sy_enums sys)"

definition validate_event :: "symbol_table \<Rightarrow> EventDecl \<Rightarrow> diagnostic list" where
  "validate_event symbols e =
     unless (is_qualified_pascal_case_name (ev_name e)) (pascal_case_error (ev_range e) ''SSPEC4701'' ''event'' (ev_name e)) @
     unless (ev_fields e \<noteq> []) (required_error (ev_range e) (''event '' @ quoted (ev_name e)) ''fields'') @
     validate_field_duplicates (ev_fields e) @
     validate_field_types (ev_fields e) symbols"

definition validate_events :: "SystemDecl \<Rightarrow> symbol_table \<Rightarrow> diagnostic list" where
  "validate_events sys symbols = each (validate_event symbols) (sy_events sys)"

definition validate_shape :: "symbol_table \<Rightarrow> ShapeDecl \<Rightarrow> diagnostic list" where
  "validate_shape symbols e =
     unless (is_qualified_pascal_case_name (sh_name e)) (pascal_case_error (sh_range e) ''SSPEC3201'' ''shape'' (sh_name e)) @
     unless (sh_fields e \<noteq> []) (required_error (sh_range e) (''shape '' @ quoted (sh_name e)) ''fields'') @
     validate_field_duplicates (sh_fields e) @
     validate_field_types (sh_fields e) symbols"

definition validate_shapes :: "SystemDecl \<Rightarrow> symbol_table \<Rightarrow> diagnostic list" where
  "validate_shapes sys symbols = each (validate_shape symbols) (sy_shapes sys)"

section \<open>Logs and metrics\<close>

definition log_member_order_index :: "string \<Rightarrow> int" where
  "log_member_order_index = order_index [[''level''], [''event_name''], [''fields'']]"

definition metric_member_order_index :: "string \<Rightarrow> int" where
  "metric_member_order_index = order_index [[''kind''], [''name''], [''unit''], [''labels'']]"

definition validate_log_member_order :: "LogDecl \<Rightarrow> diagnostic list" where
  "validate_log_member_order l = validate_member_order log_member_order_index ''SSPEC6104''
     (''log '' @ quoted (lg_name l) @ '' members should use canonical order: level, event_name, fields'') (lg_member_order l)"

definition validate_metric_member_order :: "MetricDecl \<Rightarrow> diagnostic list" where
  "validate_metric_member_order m = validate_member_order metric_member_order_index ''SSPEC6105''
     (''metric '' @ quoted (mt_name m) @ '' members should use canonical order: kind, name, unit, labels'') (mt_member_order m)"

definition is_high_cardinality_metric_label_name :: "SystemDecl \<Rightarrow> string \<Rightarrow> bool" where
  "is_high_cardinality_metric_label_name sys label_name =
     (if label_name = ''tenant_id'' then False
      else if (case sy_tenant_scope sys of None \<Rightarrow> False | Some s \<Rightarrow> label_name = ts_field_name s) then False
      else let name = lower_ascii label_name in
        name \<in> {''id'', ''uuid'', ''guid''} \<or>
        list_ex (ends_with name) [''_id'', ''_ids'', ''_uuid'', ''_guid'', ''_at'', ''_time'', ''_timestamp''] \<or>
        has_word ''payload'' name \<or> has_word ''error_message'' name)"

definition validate_log_tenant_field :: "SystemDecl \<Rightarrow> LogDecl \<Rightarrow> diagnostic list" where
  "validate_log_tenant_field sys l = given (sy_tenant_scope sys) (\<lambda>s.
     unless (ts_field_name s \<in> field_names (lg_fields l))
       (error_at (lg_range l) ''SSPEC3407''
         (''log '' @ quoted (lg_name l) @ '' fields must declare tenant field '' @ quoted (ts_field_name s))))"

definition validate_metric_tenant_label :: "SystemDecl \<Rightarrow> MetricDecl \<Rightarrow> diagnostic list" where
  "validate_metric_tenant_label sys m = given (sy_tenant_scope sys) (\<lambda>s.
     unless (ts_field_name s \<in> field_names (mt_labels m))
       (error_at (mt_range m) ''SSPEC3408''
         (''metric '' @ quoted (mt_name m) @ '' labels must declare tenant field '' @ quoted (ts_field_name s))))"

text \<open>The event names and the backend names seen so far run through the logs and the metrics; a
  declaration without one adds none.\<close>

definition seen_after :: "string list \<Rightarrow> string option \<Rightarrow> string list" where
  "seen_after seen name = (case name of None \<Rightarrow> seen | Some n \<Rightarrow> n # seen)"

definition validate_log :: "SystemDecl \<Rightarrow> symbol_table \<Rightarrow> string list \<Rightarrow> LogDecl \<Rightarrow> diagnostic list" where
  "validate_log sys symbols event_names l =
     validate_log_member_order l @
     unless (is_qualified_pascal_case_name (lg_name l)) (pascal_case_error (lg_range l) ''SSPEC4301'' ''log'' (lg_name l)) @
     (case lg_level l of
        None \<Rightarrow> required_error (lg_range l) (''log '' @ quoted (lg_name l)) ''level''
      | Some v \<Rightarrow> unless (is_supported_log_level v)
          (error_at (lg_range l) ''SSPEC4302'' (''log '' @ quoted (lg_name l) @ '' has unsupported level '' @ quoted v))) @
     (case lg_event_name l of
        None \<Rightarrow> required_error (lg_range l) (''log '' @ quoted (lg_name l)) ''event_name''
      | Some n \<Rightarrow> unless (n \<notin> set event_names)
          (error_at (lg_range l) ''SSPEC4303'' (''duplicate log event_name '' @ quoted n))) @
     validate_field_duplicates (lg_fields l) @
     validate_field_types (lg_fields l) symbols @
     validate_log_tenant_field sys l"

fun validate_logs_from :: "SystemDecl \<Rightarrow> symbol_table \<Rightarrow> string list \<Rightarrow> LogDecl list \<Rightarrow> diagnostic list" where
  "validate_logs_from sys symbols event_names [] = []"
| "validate_logs_from sys symbols event_names (l # ls) =
     validate_log sys symbols event_names l @
     validate_logs_from sys symbols (seen_after event_names (lg_event_name l)) ls"

definition validate_logs :: "SystemDecl \<Rightarrow> symbol_table \<Rightarrow> diagnostic list" where
  "validate_logs sys symbols = validate_logs_from sys symbols [] (sy_logs sys)"

definition validate_metric_label :: "SystemDecl \<Rightarrow> MetricDecl \<Rightarrow> FieldDecl \<Rightarrow> diagnostic list" where
  "validate_metric_label sys m f =
     unless (is_supported_metric_label_type (fd_type f))
       (error_at (fd_range f) ''SSPEC4404'' (''metric '' @ quoted (mt_name m) @ '' label '' @ quoted (fd_name f) @
         '' must use low-cardinality type string, bool, or int'')) @
     unless (\<not> is_high_cardinality_metric_label_name sys (fd_name f))
       (error_at (fd_range f) ''SSPEC4405'' (''metric '' @ quoted (mt_name m) @ '' label '' @ quoted (fd_name f) @
         '' looks high-cardinality; use a log field or aggregate dimension instead''))"

definition validate_metric :: "SystemDecl \<Rightarrow> symbol_table \<Rightarrow> string list \<Rightarrow> MetricDecl \<Rightarrow> diagnostic list" where
  "validate_metric sys symbols backend_names m =
     validate_metric_member_order m @
     unless (is_qualified_pascal_case_name (mt_name m)) (pascal_case_error (mt_range m) ''SSPEC4401'' ''metric'' (mt_name m)) @
     (case mt_kind m of
        None \<Rightarrow> required_error (mt_range m) (''metric '' @ quoted (mt_name m)) ''kind''
      | Some k \<Rightarrow> unless (is_supported_metric_kind k)
          (error_at (mt_range m) ''SSPEC4402'' (''metric '' @ quoted (mt_name m) @ '' has unsupported kind '' @ quoted k))) @
     (case mt_backend_name m of
        None \<Rightarrow> required_error (mt_range m) (''metric '' @ quoted (mt_name m)) ''name''
      | Some n \<Rightarrow> unless (n \<notin> set backend_names)
          (error_at (mt_range m) ''SSPEC4403'' (''duplicate metric name '' @ quoted n))) @
     unless (mt_unit m \<noteq> None) (required_error (mt_range m) (''metric '' @ quoted (mt_name m)) ''unit'') @
     validate_field_duplicates (mt_labels m) @
     validate_field_types (mt_labels m) symbols @
     validate_metric_tenant_label sys m @
     each (validate_metric_label sys m) (mt_labels m)"

fun validate_metrics_from :: "SystemDecl \<Rightarrow> symbol_table \<Rightarrow> string list \<Rightarrow> MetricDecl list \<Rightarrow> diagnostic list" where
  "validate_metrics_from sys symbols backend_names [] = []"
| "validate_metrics_from sys symbols backend_names (m # ms) =
     validate_metric sys symbols backend_names m @
     validate_metrics_from sys symbols (seen_after backend_names (mt_backend_name m)) ms"

definition validate_metrics :: "SystemDecl \<Rightarrow> symbol_table \<Rightarrow> diagnostic list" where
  "validate_metrics sys symbols = validate_metrics_from sys symbols [] (sy_metrics sys)"

section \<open>Policies\<close>

definition policy_member_order_index :: "string \<Rightarrow> int" where
  "policy_member_order_index = order_index [[''tenant''], [''allow''], [''deny''], [''quota''], [''audit'']]"

definition validate_policy_member_order :: "PolicyDecl \<Rightarrow> diagnostic list" where
  "validate_policy_member_order p = validate_member_order policy_member_order_index ''SSPEC6103''
     (''policy '' @ quoted (po_name p) @ '' members should use canonical order: tenant, allow, deny, quota, audit'')
     (po_member_order p)"

definition validate_policy_rule :: "SystemDecl \<Rightarrow> symbol_table \<Rightarrow> string \<Rightarrow> PolicyRuleDecl \<Rightarrow> diagnostic list" where
  "validate_policy_rule sys symbols kind rule =
     unless (is_declared symbols (pr_action rule)) (unknown_reference_error (pr_range rule) kind (pr_action rule)) @
     validate_expression sys (pr_range rule) (pr_condition rule)"

definition validate_policy :: "SystemDecl \<Rightarrow> symbol_table \<Rightarrow> PolicyDecl \<Rightarrow> diagnostic list" where
  "validate_policy sys symbols p =
     validate_policy_member_order p @
     unless (po_tenant_scoped_by p \<noteq> None) (required_error (po_range p) (''policy '' @ quoted (po_name p)) ''tenant scoped_by'') @
     given (po_tenant_scoped_by p) (\<lambda>f. given (sy_tenant_scope sys) (\<lambda>s.
       unless (f = ts_field_name s)
         (error_at (po_range p) ''SSPEC3405'' (''policy '' @ quoted (po_name p) @ '' tenant field '' @ quoted f @
           '' must match system tenant field '' @ quoted (ts_field_name s))))) @
     unless (\<not> (po_allows p = [] \<and> po_denies p = [] \<and> po_quotas p = [] \<and> po_audits p = []))
       (required_error (po_range p) (''policy '' @ quoted (po_name p))
         ''at least one allow, deny, quota, or audit declaration'') @
     each (validate_policy_rule sys symbols ''policy allow action'') (po_allows p) @
     each (validate_policy_rule sys symbols ''policy deny action'') (po_denies p) @
     each (\<lambda>q. validate_expression sys (qt_range q) (qt_expression q)) (po_quotas p) @
     each (\<lambda>a. unless (is_declared symbols a) (unknown_reference_error (po_range p) ''policy audit action'' a)) (po_audits p)"

definition validate_policies :: "SystemDecl \<Rightarrow> symbol_table \<Rightarrow> diagnostic list" where
  "validate_policies sys symbols = each (validate_policy sys symbols) (sy_policies sys)"

end
