(* ===== verification/Validator_External.thy ===== *)
theory Validator_External
  imports Validator_Declarations
begin

text \<open>
  \<open>src/validator_external_systems.cpp\<close>: the metadata of an external system, its mappings and the life
  cycle of the entity that holds the metadata.
\<close>

fun split_path_loop :: "string \<Rightarrow> string \<Rightarrow> string list" where
  "split_path_loop current [] = [current]"
| "split_path_loop current (ch # cs) =
     (if ch = CHR ''.'' then current # split_path_loop [] cs else split_path_loop (current @ [ch]) cs)"

definition split_path :: "string \<Rightarrow> string list" where
  "split_path = split_path_loop []"

definition has_state :: "StateMachineDecl \<Rightarrow> string \<Rightarrow> bool" where
  "has_state m name \<longleftrightarrow> list_ex (\<lambda>s. sd_name s = name) (sm_states m)"

definition find_state :: "StateMachineDecl \<Rightarrow> string \<Rightarrow> StateDecl option" where
  "find_state m name = find (\<lambda>s. sd_name s = name) (sm_states m)"

definition has_transition :: "StateMachineDecl \<Rightarrow> string \<Rightarrow> string \<Rightarrow> bool" where
  "has_transition m a b \<longleftrightarrow> list_ex (\<lambda>t. td_from t = a \<and> td_to t = b) (sm_transitions m)"

definition has_unique_index_on_fields :: "EntityDecl \<Rightarrow> string list \<Rightarrow> bool" where
  "has_unique_index_on_fields e fs \<longleftrightarrow> list_ex (\<lambda>i. ix_unique i \<and> ix_fields i = fs) (et_indexes e)"

definition xs_subject :: "ExternalSystemDecl \<Rightarrow> string" where
  "xs_subject x = ''external_system '' @ quoted (xs_name x) @ '' metadata ''"

definition validate_metadata_mapping_path_shape ::
  "ExternalSystemDecl \<Rightarrow> ExternalSystemMetadataMappingDecl \<Rightarrow> string \<Rightarrow> string \<Rightarrow> string list \<Rightarrow> diagnostic list" where
  "validate_metadata_mapping_path_shape x m side path allowed_roots =
     (let segments = split_path path in
      if length segments < 2 then
        error_at (xm_range m) ''SSPEC4906''
          (xs_subject x @ ''mapping '' @ side @ '' '' @ quoted path @ '' must include a root and field'')
      else unless (hd segments \<in> set allowed_roots)
        (error_at (xm_range m) ''SSPEC4907''
          (xs_subject x @ ''mapping '' @ side @ '' '' @ quoted path @ '' uses unsupported root '' @ quoted (hd segments))))"

definition validate_mapping :: "ExternalSystemDecl \<Rightarrow> string list \<Rightarrow> ExternalSystemMetadataMappingDecl \<Rightarrow> diagnostic list" where
  "validate_mapping x targets m =
     validate_metadata_mapping_path_shape x m ''source'' (xm_source m) [''input'', ''entity'', ''workflow'', ''metadata''] @
     validate_metadata_mapping_path_shape x m ''target'' (xm_target m) [''client'', ''request''] @
     unless (xm_target m = [] \<or> xm_target m \<notin> set targets)
       (error_at (xm_range m) ''SSPEC4908''
         (xs_subject x @ ''mapping target '' @ quoted (xm_target m) @ '' is mapped more than once''))"

fun validate_mappings ::
  "ExternalSystemDecl \<Rightarrow> string list \<Rightarrow> ExternalSystemMetadataMappingDecl list \<Rightarrow> diagnostic list" where
  "validate_mappings x targets [] = []"
| "validate_mappings x targets (m # ms) =
     validate_mapping x targets m @
     validate_mappings x (if xm_target m = [] then targets else xm_target m # targets) ms"

definition has_system_ownership :: "EntityDecl \<Rightarrow> bool" where
  "has_system_ownership e \<longleftrightarrow> (case et_ownership e of None \<Rightarrow> False | Some w \<Rightarrow>
     ow_authority w = Some ''system'' \<and> ow_system_of_record w = Some ''self'' \<and> ow_lifecycle w = Some ''authoritative'')"

definition has_field_of_type :: "EntityDecl \<Rightarrow> string \<Rightarrow> string \<Rightarrow> bool" where
  "has_field_of_type e name t \<longleftrightarrow> (case find_field (et_fields e) name of None \<Rightarrow> False | Some f \<Rightarrow> fd_type f = t)"

definition validate_metadata_states ::
  "ExternalSystemDecl \<Rightarrow> ExternalSystemMetadataDecl \<Rightarrow> EntityDecl \<Rightarrow> StateMachineDecl \<Rightarrow> diagnostic list" where
  "validate_metadata_states x d e m =
     each (\<lambda>s. unless (has_state m s)
       (error_at (xd_range d) ''SSPEC4915''
         (xs_subject x @ ''entity '' @ quoted (et_name e) @ '' must declare state '' @ s)))
       [''Active'', ''Disabled'', ''Deleted''] @
     unless (case find_state m ''Deleted'' of None \<Rightarrow> False | Some s \<Rightarrow>
         sd_terminal s \<and> ''Deleted'' \<in> set (sm_terminal_states m) \<and> sd_garbage_collection s \<noteq> None)
       (error_at (xd_range d) ''SSPEC4916''
         (xs_subject x @ ''entity '' @ quoted (et_name e) @
           '' state Deleted must be terminal and declare garbage_collection'')) @
     each (\<lambda>(a, b). unless (has_transition m a b)
       (error_at (xd_range d) ''SSPEC4917''
         (xs_subject x @ ''entity '' @ quoted (et_name e) @ '' state_machine must declare transition '' @ a @ '' -> '' @ b)))
       [(''Active'', ''Disabled''), (''Disabled'', ''Active''), (''Active'', ''Deleted''), (''Disabled'', ''Deleted'')]"

definition validate_external_system_metadata_entity_lifecycle ::
  "ExternalSystemDecl \<Rightarrow> ExternalSystemMetadataDecl \<Rightarrow> EntityDecl \<Rightarrow> diagnostic list" where
  "validate_external_system_metadata_entity_lifecycle x d e =
     unless (has_system_ownership e)
       (error_at (xd_range d) ''SSPEC4911''
         (xs_subject x @ ''entity '' @ quoted (et_name e) @ '' must use authoritative system ownership'')) @
     unless (has_field_of_type e ''created_at'' ''timestamp'' \<and> has_field_of_type e ''updated_at'' ''timestamp'' \<and>
         has_field_of_type e ''status'' ''string'')
       (error_at (xd_range d) ''SSPEC4912''
         (xs_subject x @ ''entity '' @ quoted (et_name e) @
           '' must declare created_at timestamp, updated_at timestamp, and status string'')) @
     given (xd_profile_field d) (\<lambda>p. unless (p \<in> set (et_key_fields e))
       (error_at (xd_range d) ''SSPEC4913''
         (xs_subject x @ ''profile_field '' @ quoted p @ '' must be part of metadata entity '' @ quoted (et_name e) @ '' key''))) @
     unless (has_unique_index_on_fields e (et_key_fields e))
       (error_at (xd_range d) ''SSPEC4914''
         (xs_subject x @ ''entity '' @ quoted (et_name e) @ '' must declare a unique index on its key fields'')) @
     (case et_state_machine e of
        None \<Rightarrow> error_at (xd_range d) ''SSPEC4915''
          (xs_subject x @ ''entity '' @ quoted (et_name e) @ '' must declare states Active, Disabled, and Deleted'')
      | Some m \<Rightarrow> validate_metadata_states x d e m)"

definition validate_mapping_source ::
  "ExternalSystemDecl \<Rightarrow> ExternalSystemMetadataDecl \<Rightarrow> EntityDecl \<Rightarrow> ExternalSystemMetadataMappingDecl \<Rightarrow> diagnostic list" where
  "validate_mapping_source x d e m =
     (case split_path (xm_source m) of
        root # field # _ \<Rightarrow>
          unless (root \<noteq> ''metadata'')
            (unless (field \<in> field_names (et_fields e))
               (error_at (xm_range m) ''SSPEC4909''
                 (xs_subject x @ ''mapping source field '' @ quoted field @ '' must exist on entity '' @ quoted (et_name e))) @
             unless (field \<in> set (xd_required_fields d))
               (error_at (xm_range m) ''SSPEC4910''
                 (xs_subject x @ ''mapping source field '' @ quoted field @ '' must be listed in required_fields'')))
      | _ \<Rightarrow> [])"

definition validate_metadata_tenant ::
  "SystemDecl \<Rightarrow> ExternalSystemDecl \<Rightarrow> ExternalSystemMetadataDecl \<Rightarrow> EntityDecl \<Rightarrow> diagnostic list" where
  "validate_metadata_tenant sys x d e = given (sy_tenant_scope sys) (\<lambda>s.
     unless (ts_field_name s \<in> field_names (et_fields e))
       (error_at (xd_range d) ''SSPEC4904''
         (xs_subject x @ ''entity '' @ quoted (et_name e) @ '' must declare tenant field '' @ quoted (ts_field_name s))) @
     unless (ts_field_name s \<in> set (et_key_fields e))
       (error_at (xd_range d) ''SSPEC4905''
         (xs_subject x @ ''entity '' @ quoted (et_name e) @ '' key must include tenant field '' @ quoted (ts_field_name s))))"

text \<open>What is checked against the metadata entity, once it is found.\<close>

definition validate_metadata_entity ::
  "SystemDecl \<Rightarrow> ExternalSystemDecl \<Rightarrow> ExternalSystemMetadataDecl \<Rightarrow> EntityDecl \<Rightarrow> diagnostic list" where
  "validate_metadata_entity sys x d e =
     given (xd_profile_field d) (\<lambda>p. unless (p \<in> field_names (et_fields e))
       (error_at (xd_range d) ''SSPEC4902''
         (xs_subject x @ ''profile_field '' @ quoted p @ '' must exist on entity '' @ quoted (et_name e)))) @
     each (\<lambda>f. unless (f \<in> field_names (et_fields e))
       (error_at (xd_range d) ''SSPEC4903''
         (xs_subject x @ ''required field '' @ quoted f @ '' must exist on entity '' @ quoted (et_name e))))
       (xd_required_fields d) @
     each (validate_mapping_source x d e) (xd_mappings d) @
     validate_metadata_tenant sys x d e @
     validate_external_system_metadata_entity_lifecycle x d e"

definition validate_metadata ::
  "SystemDecl \<Rightarrow> symbol_table \<Rightarrow> ExternalSystemDecl \<Rightarrow> ExternalSystemMetadataDecl \<Rightarrow> diagnostic list" where
  "validate_metadata sys symbols x d =
     unless (xd_entity d \<noteq> None) (required_error (xd_range d) ''external_system metadata'' ''entity'') @
     unless (xd_profile_field d \<noteq> None) (required_error (xd_range d) ''external_system metadata'' ''profile_field'') @
     unless (xd_required_fields d \<noteq> []) (required_error (xd_range d) ''external_system metadata'' ''required_fields'') @
     duplicates id (duplicate_error (xd_range d)) (xd_required_fields d) @
     validate_mappings x [] (xd_mappings d) @
     given (xd_entity d) (\<lambda>name.
       validate_symbol_reference symbols (xd_range d) ''external_system metadata entity'' name [SK_Entity] @
       given (find_entity sys name) (validate_metadata_entity sys x d))"

definition validate_external_system :: "SystemDecl \<Rightarrow> symbol_table \<Rightarrow> ExternalSystemDecl \<Rightarrow> diagnostic list" where
  "validate_external_system sys symbols x =
     unless (is_qualified_pascal_case_name (xs_name x))
       (error_at (xs_range x) ''SSPEC4901'' (''external_system '' @ quoted (xs_name x) @ '' must use PascalCase segments'')) @
     duplicates xp_name (\<lambda>p. duplicate_error (xp_range p) (xp_name p)) (xs_properties x) @
     given (xs_metadata x) (validate_metadata sys symbols x)"

definition validate_external_systems :: "SystemDecl \<Rightarrow> symbol_table \<Rightarrow> diagnostic list" where
  "validate_external_systems sys symbols = each (validate_external_system sys symbols) (sy_external_systems sys)"

end
