(* ===== verification/Validator_Entities.thy ===== *)
theory Validator_Entities
  imports Validator_External
begin

text \<open>
  \<open>src/validator_entities.cpp\<close>: the checks of an entity, its state machine, relations, children,
  invariants, indexes and derived API. The code walks over one unordered set, the declared
  terminal states; the order in which it does is the parameter \<open>order\<close>.
\<close>

section \<open>The state machine\<close>

definition entity_member_order_index :: "string \<Rightarrow> int" where
  "entity_member_order_index = order_index [[''key''], [''ownership''], [''version''], [''fields''], [''state_machine''],
     [''relations''], [''children''], [''invariants''], [''indexes''], [''api'']]"

definition validate_entity_member_order :: "EntityDecl \<Rightarrow> diagnostic list" where
  "validate_entity_member_order e = validate_member_order entity_member_order_index ''SSPEC6101''
     (''entity '' @ quoted (et_name e) @ '' members should use canonical order: key, ownership, version, fields, '' @
      ''state_machine, relations, children, invariants, indexes, api'') (et_member_order e)"

definition state_names :: "StateMachineDecl \<Rightarrow> string list" where
  "state_names m = map sd_name (sm_states m)"

definition inline_terminal_states :: "StateMachineDecl \<Rightarrow> string list" where
  "inline_terminal_states m = map sd_name (filter sd_terminal (sm_states m))"

definition declared_terminal_states :: "StateMachineDecl \<Rightarrow> string list" where
  "declared_terminal_states m = filter (\<lambda>t. t \<in> set (state_names m)) (sm_terminal_states m)"

definition is_terminal_state :: "StateMachineDecl \<Rightarrow> StateDecl \<Rightarrow> bool" where
  "is_terminal_state m s \<longleftrightarrow> sd_name s \<in> set (inline_terminal_states m) \<or> sd_name s \<in> set (declared_terminal_states m)"

definition garbage_collected_states :: "StateMachineDecl \<Rightarrow> string list" where
  "garbage_collected_states m =
     map sd_name (filter (\<lambda>s. sd_garbage_collection s \<noteq> None \<and> is_terminal_state m s) (sm_states m))"

definition validate_initial_state :: "EntityDecl \<Rightarrow> StateMachineDecl \<Rightarrow> diagnostic list" where
  "validate_initial_state e m =
     unless (sm_states m \<noteq> [])
       (required_error (sm_range m) (''state_machine for entity '' @ quoted (et_name e)) ''at least one state'') @
     (case sm_initial_state m of
        None \<Rightarrow> required_error (sm_range m) (''state_machine for entity '' @ quoted (et_name e)) ''an initial state''
      | Some i \<Rightarrow> unless (i \<in> set (state_names m)) (unknown_reference_error (sm_range m) ''initial state'' i))"

definition validate_terminal_states :: "(string list \<Rightarrow> string list) \<Rightarrow> StateMachineDecl \<Rightarrow> diagnostic list" where
  "validate_terminal_states order m =
     each (\<lambda>t. unless (t \<in> set (state_names m)) (unknown_reference_error (sm_range m) ''terminal state'' t))
       (sm_terminal_states m) @
     each (\<lambda>s. unless (\<not> (sd_name s \<in> set (inline_terminal_states m) \<and> sd_name s \<notin> set (declared_terminal_states m)))
       (error_at (sd_range s) ''SSPEC3107''
         (''terminal state '' @ quoted (sd_name s) @ '' must also appear in the terminal list''))) (sm_states m) @
     each (\<lambda>t. unless (t \<in> set (inline_terminal_states m))
       (error_at (sm_range m) ''SSPEC3108'' (''terminal state '' @ quoted t @ '' must declare terminal: true'')))
       (order (remdups (declared_terminal_states m)))"

definition validate_gc_policy :: "string \<Rightarrow> GarbageCollectionPolicyDecl \<Rightarrow> diagnostic list" where
  "validate_gc_policy state p =
     (case gc_after p of
        None \<Rightarrow> required_error (gc_range p) (''garbage_collection for state '' @ quoted state) ''after''
      | Some a \<Rightarrow> unless (is_duration_literal a)
          (duration_error (gc_range p) (''garbage_collection for state '' @ quoted state) ''after'')) @
     (case gc_mode p of
        None \<Rightarrow> required_error (gc_range p) (''garbage_collection for state '' @ quoted state) ''mode''
      | Some k \<Rightarrow> unless (is_garbage_collection_mode k)
          (error_at (gc_range p) ''SSPEC3104''
            (''garbage_collection for state '' @ quoted state @ '' mode must be delete, tombstone, or archive'')))"

definition validate_state_gc :: "StateMachineDecl \<Rightarrow> StateDecl \<Rightarrow> diagnostic list" where
  "validate_state_gc m s =
     unless (\<not> (is_terminal_state m s \<and> sd_garbage_collection s = None))
       (error_at (sd_range s) ''SSPEC3109'' (''terminal state '' @ quoted (sd_name s) @ '' must declare garbage_collection'')) @
     given (sd_garbage_collection s) (\<lambda>p.
       unless (is_terminal_state m s)
         (error_at (gc_range p) ''SSPEC3103''
           (''garbage_collection for state '' @ quoted (sd_name s) @ '' is valid only on terminal states'')) @
       validate_gc_policy (sd_name s) p)"

definition validate_transition :: "StateMachineDecl \<Rightarrow> TransitionDecl \<Rightarrow> diagnostic list" where
  "validate_transition m t =
     unless (td_from t \<in> set (state_names m)) (unknown_reference_error (td_range t) ''transition source state'' (td_from t)) @
     unless (td_to t \<in> set (state_names m)) (unknown_reference_error (td_range t) ''transition target state'' (td_to t)) @
     unless (td_from t \<notin> set (garbage_collected_states m))
       (error_at (td_range t) ''SSPEC3105''
         (''garbage-collected terminal state '' @ quoted (td_from t) @ '' must not have outgoing transitions''))"

definition validate_state_machine :: "(string list \<Rightarrow> string list) \<Rightarrow> EntityDecl \<Rightarrow> diagnostic list" where
  "validate_state_machine order e =
     (case et_state_machine e of
        None \<Rightarrow> required_error (et_range e) (''entity '' @ quoted (et_name e)) ''state_machine''
      | Some m \<Rightarrow>
          duplicates sd_name (\<lambda>s. duplicate_error (sd_range s) (sd_name s)) (sm_states m) @
          validate_initial_state e m @
          validate_terminal_states order m @
          each (validate_state_gc m) (sm_states m) @
          each (\<lambda>s. given (sd_duplicate_garbage_collection_range s) (\<lambda>r.
            error_at r ''SSPEC3001'' (''duplicate declaration '' @ quoted ''garbage_collection''))) (sm_states m) @
          each (validate_transition m) (sm_transitions m))"

section \<open>Fields, keys, indexes\<close>

definition validate_required_entity_field :: "EntityDecl \<Rightarrow> string \<Rightarrow> string \<Rightarrow> diagnostic list" where
  "validate_required_entity_field e name t =
     (case find_field (et_fields e) name of
        None \<Rightarrow> required_error (et_range e) (''entity '' @ quoted (et_name e)) (''field '' @ quoted name)
      | Some f \<Rightarrow> unless (fd_type f = t)
          (error_at (fd_range f) ''SSPEC3102''
            (''entity '' @ quoted (et_name e) @ '' field '' @ quoted name @ '' must have type '' @ t)))"

text \<open>The loop over the first three fields stops at the first one that is not the canonical one.\<close>

fun first_not_canonical :: "FieldDecl list \<Rightarrow> string list \<Rightarrow> FieldDecl option" where
  "first_not_canonical (f # fs) (n # ns) = (if fd_name f \<noteq> n then Some f else first_not_canonical fs ns)"
| "first_not_canonical _ _ = None"

definition validate_entity_management_fields :: "EntityDecl \<Rightarrow> diagnostic list" where
  "validate_entity_management_fields e =
     validate_required_entity_field e ''created_at'' ''timestamp'' @
     validate_required_entity_field e ''updated_at'' ''timestamp'' @
     validate_required_entity_field e ''status'' ''string'' @
     unless (length (et_fields e) < 3)
       (given (first_not_canonical (et_fields e) [''created_at'', ''updated_at'', ''status'']) (\<lambda>f.
         error_at (fd_range f) ''SSPEC3106''
           (''entity '' @ quoted (et_name e) @ '' fields must begin with canonical management fields: created_at '' @
            ''timestamp, updated_at timestamp, status string'')))"

definition validate_entity_tenant_field :: "SystemDecl \<Rightarrow> EntityDecl \<Rightarrow> diagnostic list" where
  "validate_entity_tenant_field sys e = given (sy_tenant_scope sys) (\<lambda>s.
     unless (ts_field_name s \<in> field_names (et_fields e))
       (error_at (et_range e) ''SSPEC3401''
         (''entity '' @ quoted (et_name e) @ '' must declare tenant field '' @ quoted (ts_field_name s))))"

definition validate_entity_tenant_key :: "SystemDecl \<Rightarrow> EntityDecl \<Rightarrow> diagnostic list" where
  "validate_entity_tenant_key sys e = given (sy_tenant_scope sys) (\<lambda>s.
     unless (ts_field_name s \<in> set (et_key_fields e))
       (error_at (et_range e) ''SSPEC3404''
         (''entity '' @ quoted (et_name e) @ '' key must include tenant field '' @ quoted (ts_field_name s))))"

definition validate_index_field :: "EntityDecl \<Rightarrow> IndexDecl \<Rightarrow> bool \<Rightarrow> string \<Rightarrow> diagnostic list" where
  "validate_index_field e i fresh f =
     unless (f \<in> field_names (et_fields e)) (unknown_reference_error (ix_range i) ''index field'' f) @
     unless fresh (duplicate_error (ix_range i) f)"

definition validate_index :: "EntityDecl \<Rightarrow> bool \<Rightarrow> IndexDecl \<Rightarrow> diagnostic list" where
  "validate_index e fresh i =
     unless fresh (duplicate_error (ix_range i) (ix_name i)) @
     unless (ix_fields i \<noteq> []) (required_error (ix_range i) (''index '' @ quoted (ix_name i)) ''at least one field'') @
     each_named id (validate_index_field e i) [] (ix_fields i)"

definition validate_indexes :: "EntityDecl \<Rightarrow> diagnostic list" where
  "validate_indexes e = each_named ix_name (validate_index e) [] (et_indexes e)"

section \<open>Ownership, relations, children, invariants\<close>

definition validate_ownership :: "EntityDecl \<Rightarrow> diagnostic list" where
  "validate_ownership e =
     (case et_ownership e of
        None \<Rightarrow> required_error (et_range e) (''entity '' @ quoted (et_name e)) ''ownership''
      | Some w \<Rightarrow>
          (case ow_authority w of
             None \<Rightarrow> required_error (ow_range w) (''ownership for entity '' @ quoted (et_name e)) ''authority''
           | Some a \<Rightarrow> unless (is_ownership_authority a)
               (error_at (ow_range w) ''SSPEC3301'' ''ownership authority must be system or external'')) @
          unless (ow_system_of_record w \<noteq> None)
            (required_error (ow_range w) (''ownership for entity '' @ quoted (et_name e)) ''system_of_record'') @
          (case ow_lifecycle w of
             None \<Rightarrow> required_error (ow_range w) (''ownership for entity '' @ quoted (et_name e)) ''lifecycle''
           | Some l \<Rightarrow> unless (is_lifecycle_mode l)
               (error_at (ow_range w) ''SSPEC3302''
                 ''ownership lifecycle must be authoritative, managed, observed, or projected'')))"

definition validate_relation :: "SystemDecl \<Rightarrow> EntityDecl \<Rightarrow> bool \<Rightarrow> RelationDecl \<Rightarrow> diagnostic list" where
  "validate_relation sys e fresh r =
     (let target = find_entity sys (relation_target_name (re_target r)) in
      unless fresh (duplicate_error (re_range r) (re_name r)) @
      unless (re_name r \<in> field_names (et_fields e)) (unknown_reference_error (re_range r) ''relation field'' (re_name r)) @
      unless (target \<noteq> None)
        (unknown_reference_error (re_range r) ''relation target entity'' (relation_target_name (re_target r))) @
      given (re_relation_kind r) (\<lambda>k. unless (is_relation_kind k)
        (error_at (re_range r) ''SSPEC3303'' ''relation kind must be composition, aggregation, or reference'')) @
      given (re_on_parent_delete r) (\<lambda>b. unless (is_parent_delete_behavior b)
        (error_at (re_range r) ''SSPEC3304'' ''on_parent_delete must be cascade, block, detach, or fail'')) @
      given (re_on_parent_delete r) (\<lambda>b. unless (\<not> (b = ''detach'' \<and> \<not> re_optional r))
        (error_at (re_range r) ''SSPEC3305'' ''detach parent delete behavior requires an optional parent relation'')) @
      each (\<lambda>f. unless (f \<in> field_names (et_fields e))
        (unknown_reference_error (re_range r) ''unique_within_parent field'' f)) (re_unique_within_parent r) @
      given target (\<lambda>t. each (\<lambda>s. unless (s \<in> entity_state_names t)
        (unknown_reference_error (re_range r) ''parent state'' s)) (re_parent_must_be_in r)))"

definition validate_relations :: "SystemDecl \<Rightarrow> EntityDecl \<Rightarrow> diagnostic list" where
  "validate_relations sys e = each_named re_name (validate_relation sys e) [] (et_relations e)"

definition validate_child :: "SystemDecl \<Rightarrow> EntityDecl \<Rightarrow> bool \<Rightarrow> ChildDecl \<Rightarrow> diagnostic list" where
  "validate_child sys e fresh c =
     unless fresh (duplicate_error (ch_range c) (ch_name c)) @
     (case find_entity sys (ch_target_entity c) of
        None \<Rightarrow> unknown_reference_error (ch_range c) ''child entity'' (ch_target_entity c)
      | Some t \<Rightarrow>
          (case find (\<lambda>r. re_kind r = ''parent'' \<and> re_name r = ch_relation c) (et_relations t) of
             None \<Rightarrow> unknown_reference_error (ch_range c) ''child parent relation'' (ch_relation c)
           | Some r \<Rightarrow> unless (relation_target_name (re_target r) = et_name e)
               (error_at (ch_range c) ''SSPEC3306''
                 (''child collection '' @ quoted (ch_name c) @ '' must reference a parent relation to entity '' @
                  quoted (et_name e)))))"

definition validate_children :: "SystemDecl \<Rightarrow> EntityDecl \<Rightarrow> diagnostic list" where
  "validate_children sys e = each_named ch_name (validate_child sys e) [] (et_children e)"

definition validate_invariant :: "SystemDecl \<Rightarrow> bool \<Rightarrow> InvariantDecl \<Rightarrow> diagnostic list" where
  "validate_invariant sys fresh i =
     unless fresh (duplicate_error (iv_range i) (iv_name i)) @
     (if iv_expression i = [] then required_error (iv_range i) (''invariant '' @ quoted (iv_name i)) ''expression''
      else validate_expression sys (iv_range i) (iv_expression i))"

definition validate_invariants :: "SystemDecl \<Rightarrow> EntityDecl \<Rightarrow> diagnostic list" where
  "validate_invariants sys e = each_named iv_name (validate_invariant sys) [] (et_invariants e)"

section \<open>The derived API\<close>

definition is_prefix :: "string list \<Rightarrow> string list \<Rightarrow> bool" where
  "is_prefix p xs \<longleftrightarrow> p \<noteq> [] \<and> length p \<le> length xs \<and> take (length p) xs = p"

function path_parameters :: "string \<Rightarrow> string list" where
  "path_parameters path =
     (if CHR ''{'' \<notin> set path then []
      else let rest = tl (dropWhile (\<lambda>c. c \<noteq> CHR ''{'') path) in
        if CHR ''}'' \<notin> set rest then []
        else (case takeWhile (\<lambda>c. c \<noteq> CHR ''}'') rest of [] \<Rightarrow> [] | p \<Rightarrow> [p]) @
          path_parameters (tl (dropWhile (\<lambda>c. c \<noteq> CHR ''}'') rest)))"
  by auto
termination
proof (relation "measure length", goal_cases)
  case (2 path rest)
  have "length rest < length path"
    unfolding 2(2) by (rule length_tl_dropWhile) (use 2(1) in auto)
  moreover have "length (tl (dropWhile (\<lambda>c. c \<noteq> CHR ''}'') rest)) < length rest"
    by (rule length_tl_dropWhile) (use 2(3) in auto)
  ultimately show ?case
    by simp
qed simp

declare path_parameters.simps [simp del]

definition path_parameter_set :: "string option \<Rightarrow> string list" where
  "path_parameter_set path = (case path of None \<Rightarrow> [] | Some p \<Rightarrow> path_parameters p)"

definition has_all_key_fields :: "string list \<Rightarrow> EntityDecl \<Rightarrow> bool" where
  "has_all_key_fields path_fields e \<longleftrightarrow> list_all (\<lambda>k. k \<in> set path_fields) (et_key_fields e)"

definition entity_api_list_selector_is_allowed :: "EntityDecl \<Rightarrow> EntityApiListDecl \<Rightarrow> bool" where
  "entity_api_list_selector_is_allowed e l \<longleftrightarrow>
     is_prefix (al_by l) (et_key_fields e) \<or>
     list_ex (\<lambda>i. al_by l = [ix_name i] \<or> is_prefix (al_by l) (ix_fields i)) (et_indexes e)"

definition validate_entity_api_path_parameters :: "EntityDecl \<Rightarrow> string option \<Rightarrow> source_range \<Rightarrow> diagnostic list" where
  "validate_entity_api_path_parameters e path r = given path (\<lambda>p.
     each (\<lambda>q. unless (q \<in> field_names (et_fields e))
       (unknown_reference_error r ''entity api path parameter'' q)) (path_parameters p))"

definition needs_resource :: "EntityApiDecl \<Rightarrow> bool" where
  "needs_resource a \<longleftrightarrow> ea_get a \<noteq> None \<or> ea_update_status a \<noteq> None \<or> ea_delete a \<noteq> None"

definition validate_entity_api_resource_path :: "EntityDecl \<Rightarrow> EntityApiDecl \<Rightarrow> diagnostic list" where
  "validate_entity_api_resource_path e a =
     validate_entity_api_path_parameters e (ea_resource a) (ea_range a) @
     (if ea_resource a = None then
        unless (\<not> needs_resource a) (required_error (ea_range a) ''entity api'' ''resource'')
      else
        unless (has_all_key_fields (path_parameter_set (ea_resource a)) e)
          (error_at (ea_range a) ''SSPEC3002''
            (''entity api resource path for entity '' @ quoted (et_name e) @ '' must include all key fields'')) @
        unless (\<not> (needs_resource a \<and> \<not> has_all_key_fields (path_parameter_set (ea_resource a)) e))
          (error_at (ea_range a) ''SSPEC3002''
            (''entity api get, update_status, and delete require key fields resolvable from resource '' @ ''path'')))"

definition validate_entity_api_create :: "EntityDecl \<Rightarrow> EntityApiCreateDecl \<Rightarrow> diagnostic list" where
  "validate_entity_api_create e c = each (\<lambda>f.
     unless (f \<in> field_names (et_fields e)) (unknown_reference_error (ac_range c) ''entity api create field'' f) @
     unless (f \<notin> set [''created_at'', ''updated_at'', ''status''])
       (error_at (ac_range c) ''SSPEC3106''
         (''entity api create for entity '' @ quoted (et_name e) @ '' must not supply created_at, updated_at, or status'')))
     (ac_fields c)"

definition has_conventional_delete_terminal_state :: "EntityDecl \<Rightarrow> bool" where
  "has_conventional_delete_terminal_state e \<longleftrightarrow> (case et_state_machine e of None \<Rightarrow> False | Some m \<Rightarrow>
     list_ex (\<lambda>s. sd_name s = ''Deleted'' \<and> sd_terminal s \<and> sd_garbage_collection s \<noteq> None) (sm_states m))"

definition validate_entity_api_list :: "EntityDecl \<Rightarrow> EntityApiListDecl \<Rightarrow> diagnostic list" where
  "validate_entity_api_list e l =
     validate_entity_api_path_parameters e (al_path l) (al_range l) @
     (case al_by l of
        [] \<Rightarrow> required_error (al_range l) ''entity api list'' ''by''
      | b # _ \<Rightarrow> unless (entity_api_list_selector_is_allowed e l)
          (unknown_reference_error (al_range l) ''entity api list selector'' b))"

definition validate_entity_api_update_status :: "EntityDecl \<Rightarrow> EntityApiOperationDecl \<Rightarrow> diagnostic list" where
  "validate_entity_api_update_status e u =
     unless (find_field (et_fields e) ''status'' \<noteq> None)
       (required_error (ao_range u) (''entity api update_status for entity '' @ quoted (et_name e)) ''status field'') @
     unless (et_state_machine e \<noteq> None)
       (required_error (ao_range u) (''entity api update_status for entity '' @ quoted (et_name e)) ''state_machine'')"

definition validate_entity_api :: "EntityDecl \<Rightarrow> diagnostic list" where
  "validate_entity_api e = given (et_api e) (\<lambda>a.
     validate_entity_api_resource_path e a @
     given (ea_create a) (validate_entity_api_create e) @
     each (validate_entity_api_list e) (ea_lists a) @
     given (ea_update_status a) (validate_entity_api_update_status e) @
     given (ea_delete a) (\<lambda>d. unless (has_conventional_delete_terminal_state e)
       (error_at (ao_range d) ''SSPEC3109''
         (''entity api delete for entity '' @ quoted (et_name e) @
          '' requires terminal state Deleted with garbage_collection''))))"

section \<open>Entities\<close>

definition validate_entity :: "(string list \<Rightarrow> string list) \<Rightarrow> SystemDecl \<Rightarrow> symbol_table \<Rightarrow> EntityDecl \<Rightarrow> diagnostic list" where
  "validate_entity order sys symbols e =
     validate_entity_member_order e @
     unless (et_key_fields e \<noteq> [])
       (error_at (et_range e) ''SSPEC3101'' (''entity '' @ quoted (et_name e) @ '' must declare a key'')) @
     unless (et_fields e \<noteq> []) (required_error (et_range e) (''entity '' @ quoted (et_name e)) ''fields'') @
     validate_field_duplicates (et_fields e) @
     validate_field_types (et_fields e) symbols @
     validate_entity_management_fields e @
     validate_entity_tenant_field sys e @
     validate_entity_tenant_key sys e @
     each (\<lambda>k. unless (k \<in> field_names (et_fields e)) (unknown_reference_error (et_range e) ''entity key field'' k))
       (et_key_fields e) @
     validate_ownership e @
     validate_relations sys e @
     validate_children sys e @
     validate_invariants sys e @
     validate_indexes e @
     validate_entity_api e @
     validate_state_machine order e"

definition validate_entities :: "(string list \<Rightarrow> string list) \<Rightarrow> SystemDecl \<Rightarrow> symbol_table \<Rightarrow> diagnostic list" where
  "validate_entities order sys symbols = each (validate_entity order sys symbols) (sy_entities sys)"

end
