(* ===== verification/Validator_Runtime.thy ===== *)
theory Validator_Runtime
  imports Validator_Entities
begin

text \<open>
  \<open>src/validator_queues.cpp\<close>, \<open>src/validator_leases.cpp\<close>, \<open>src/validator_workers.cpp\<close>,
  \<open>src/validator_apis.cpp\<close>, \<open>src/validator_api_servers.cpp\<close> and \<open>src/validator_runtime_dependencies.cpp\<close>.
  The length of a duration is computed in \<open>int64_t\<close>; its overflow, undefined in the code, is the
  error \<open>Undefined_Behaviour\<close>, so that the check of the leases is a result.
\<close>

section \<open>Queues\<close>

definition validate_queue_message_tenant_field :: "SystemDecl \<Rightarrow> QueueDecl \<Rightarrow> MessageDecl \<Rightarrow> diagnostic list" where
  "validate_queue_message_tenant_field sys q m = given (sy_tenant_scope sys) (\<lambda>s.
     unless (ts_field_name s \<in> field_names (ms_payload_fields m))
       (error_at (ms_range m) ''SSPEC3402''
         (''message '' @ quoted (queue_message_name q m) @ '' payload must declare tenant field '' @
          quoted (ts_field_name s))))"

definition validate_message :: "SystemDecl \<Rightarrow> symbol_table \<Rightarrow> QueueDecl \<Rightarrow> bool \<Rightarrow> MessageDecl \<Rightarrow> diagnostic list" where
  "validate_message sys symbols q fresh m =
     unless fresh (duplicate_error (ms_range m) (queue_message_name q m)) @
     unless (ms_idempotency_key m \<noteq> None)
       (required_error (ms_range m) (''message '' @ quoted (queue_message_name q m)) ''idempotency_key'') @
     unless (ms_payload_fields m \<noteq> [])
       (required_error (ms_range m) (''message '' @ quoted (queue_message_name q m)) ''payload'') @
     validate_field_duplicates (ms_payload_fields m) @
     validate_field_types (ms_payload_fields m) symbols @
     validate_queue_message_tenant_field sys q m @
     given (ms_idempotency_key m) (\<lambda>k. unless (k \<in> field_names (ms_payload_fields m))
       (unknown_reference_error (ms_range m) ''message idempotency_key field'' k))"

definition validate_queue :: "SystemDecl \<Rightarrow> symbol_table \<Rightarrow> QueueDecl \<Rightarrow> diagnostic list" where
  "validate_queue sys symbols q =
     (let subject = ''queue '' @ quoted (qu_name q) in
      unless (qu_namespace_name q \<noteq> None) (required_error (qu_range q) subject ''namespace'') @
      unless (qu_channel q \<noteq> None) (required_error (qu_range q) subject ''channel'') @
      (case qu_visibility_timeout q of
         None \<Rightarrow> required_error (qu_range q) subject ''visibility_timeout''
       | Some v \<Rightarrow> unless (is_duration_literal v) (duration_error (qu_range q) subject ''visibility_timeout'')) @
      (case qu_max_attempts q of
         None \<Rightarrow> required_error (qu_range q) subject ''max_attempts''
       | Some n \<Rightarrow> unless (n > 0) (positive_integer_error (qu_range q) subject ''max_attempts'')) @
      unless (qu_messages q \<noteq> []) (required_error (qu_range q) subject ''at least one message'') @
      each_named ms_name (validate_message sys symbols q) [] (qu_messages q) @
      given (qu_dead_letter q) (\<lambda>d. unless (is_declared symbols d) (unknown_reference_error (qu_range q) ''dead_letter'' d)))"

definition validate_queues :: "SystemDecl \<Rightarrow> symbol_table \<Rightarrow> diagnostic list" where
  "validate_queues sys symbols = each (validate_queue sys symbols) (sy_queues sys)"

section \<open>Leases\<close>

definition in_range_64 :: "int \<Rightarrow> bool" where
  "in_range_64 i \<longleftrightarrow> - (2 ^ 63) \<le> i \<and> i < 2 ^ 63"

definition checked :: "int \<Rightarrow> int result" where
  "checked i = (if in_range_64 i then Inr i else Inl Undefined_Behaviour)"

text \<open>A digit in front of a unit, and the number of seconds of a unit; \<open>None\<close> for a unit that the code
  does not count, like hours before the \<open>T\<close>.\<close>

definition unit_seconds :: "bool \<Rightarrow> char \<Rightarrow> int option" where
  "unit_seconds in_time ch =
     (if ch = CHR ''D'' then Some 86400
      else if in_time \<and> ch = CHR ''H'' then Some 3600
      else if in_time \<and> ch = CHR ''M'' then Some 60
      else if in_time \<and> ch = CHR ''S'' then Some 1
      else None)"

definition digit_value :: "char \<Rightarrow> int" where
  "digit_value ch = of_char ch - 48"

text \<open>The products by 24, 60 and 60 of the code are not negative, so that one of them overflows exactly
  when the last does.\<close>

fun duration_seconds_loop :: "int \<Rightarrow> int \<Rightarrow> bool \<Rightarrow> string \<Rightarrow> int option result" where
  "duration_seconds_loop seconds current in_time [] = Inr (Some seconds)"
| "duration_seconds_loop seconds current in_time (ch # cs) =
     (if is_digit ch then
        andThen (checked (current * 10)) (\<lambda>c. andThen (checked (c + digit_value ch)) (\<lambda>c.
          duration_seconds_loop seconds c in_time cs))
      else if ch = CHR ''T'' then duration_seconds_loop seconds current True cs
      else case unit_seconds in_time ch of
        None \<Rightarrow> Inr None
      | Some u \<Rightarrow> andThen (checked (current * u)) (\<lambda>c. andThen (checked (seconds + c)) (\<lambda>t.
          duration_seconds_loop t 0 in_time cs)))"

definition duration_seconds :: "string \<Rightarrow> int option result" where
  "duration_seconds t = (if \<not> is_duration_literal t then Inr None else duration_seconds_loop 0 0 False (tl t))"

text \<open>Two durations that are both present and literals are compared if both have a length.\<close>

definition compare_durations :: "string option \<Rightarrow> string option \<Rightarrow> (int \<Rightarrow> int \<Rightarrow> bool) \<Rightarrow> diagnostic list \<Rightarrow> diagnostic list result" where
  "compare_durations a b bad ds =
     (case (a, b) of
        (Some x, Some y) \<Rightarrow>
          (if is_duration_literal x \<and> is_duration_literal y then
             andThen (duration_seconds x) (\<lambda>dx. andThen (duration_seconds y) (\<lambda>dy.
               Inr (case (dx, dy) of (Some m, Some n) \<Rightarrow> if bad m n then ds else [] | _ \<Rightarrow> [])))
           else Inr [])
      | _ \<Rightarrow> Inr [])"

definition validate_lease_duration :: "LeaseDecl \<Rightarrow> string \<Rightarrow> string option \<Rightarrow> diagnostic list" where
  "validate_lease_duration l name v =
     (case v of
        None \<Rightarrow> required_error (ls_range l) (''lease '' @ quoted (ls_name l)) name
      | Some t \<Rightarrow> unless (is_duration_literal t) (duration_error (ls_range l) (''lease '' @ quoted (ls_name l)) name))"

definition validate_lease_members :: "LeaseDecl \<Rightarrow> diagnostic list" where
  "validate_lease_members l =
     (let subject = ''lease '' @ quoted (ls_name l) in
      unless (ls_resource l \<noteq> None) (required_error (ls_range l) subject ''resource'') @
      validate_lease_duration l ''ttl'' (ls_ttl l) @
      validate_lease_duration l ''renew_every'' (ls_renew_every l) @
      unless (ls_holder l \<noteq> None) (required_error (ls_range l) subject ''holder'') @
      unless (ls_fencing_token l \<noteq> None) (required_error (ls_range l) subject ''fencing_token'') @
      validate_lease_duration l ''max_ttl'' (ls_max_ttl l))"

definition validate_lease :: "LeaseDecl \<Rightarrow> diagnostic list result" where
  "validate_lease l =
     andThen (compare_durations (ls_ttl l) (ls_renew_every l) (\<lambda>ttl renew_every. renew_every \<ge> ttl)
       (error_at (ls_range l) ''SSPEC3501'' (''lease '' @ quoted (ls_name l) @ '' renew_every must be less than ttl'')))
     (\<lambda>d1. andThen (compare_durations (ls_ttl l) (ls_max_ttl l) (\<lambda>ttl max_ttl. ttl > max_ttl)
       (error_at (ls_range l) ''SSPEC3502''
         (''lease '' @ quoted (ls_name l) @ '' ttl must be less than or equal to max_ttl'')))
     (\<lambda>d2. Inr (validate_lease_members l @ d1 @ d2)))"

fun each_result :: "('a \<Rightarrow> diagnostic list result) \<Rightarrow> 'a list \<Rightarrow> diagnostic list result" where
  "each_result f [] = Inr []"
| "each_result f (x # xs) = andThen (f x) (\<lambda>d. andThen (each_result f xs) (\<lambda>ds. Inr (d @ ds)))"

definition validate_leases :: "SystemDecl \<Rightarrow> diagnostic list result" where
  "validate_leases sys = each_result validate_lease (sy_leases sys)"

section \<open>Workers and API servers\<close>

definition validate_worker :: "symbol_table \<Rightarrow> WorkerDecl \<Rightarrow> diagnostic list" where
  "validate_worker symbols w =
     unless (\<not> (wk_singleton w = Some True \<and> wk_lease w = None))
       (error_at (wk_range w) ''SSPEC3301'' (''singleton worker '' @ quoted (wk_name w) @ '' must declare a lease'')) @
     given (wk_concurrency w) (\<lambda>n. unless (n > 0)
       (positive_integer_error (wk_range w) (''worker '' @ quoted (wk_name w)) ''concurrency'')) @
     given (wk_lease w) (\<lambda>n. unless (is_declared symbols n) (unknown_reference_error (wk_range w) ''worker lease'' n)) @
     given (wk_polls w) (\<lambda>n. unless (is_declared symbols n) (unknown_reference_error (wk_range w) ''worker polls target'' n)) @
     given (wk_executes w) (\<lambda>n. unless (is_declared symbols n) (unknown_reference_error (wk_range w) ''worker executes target'' n))"

definition validate_workers :: "SystemDecl \<Rightarrow> symbol_table \<Rightarrow> diagnostic list" where
  "validate_workers sys symbols = each (validate_worker symbols) (sy_workers sys)"

definition validate_api_server :: "symbol_table \<Rightarrow> ApiServerDecl \<Rightarrow> diagnostic list" where
  "validate_api_server symbols a =
     given (as_concurrency a) (\<lambda>n. unless (n > 0)
       (positive_integer_error (as_range a) (''api_server '' @ quoted (as_name a)) ''concurrency'')) @
     each (\<lambda>n. validate_symbol_reference symbols (as_range a) ''api_server served API'' n [SK_Api]) (as_serves a)"

definition validate_api_servers :: "SystemDecl \<Rightarrow> symbol_table \<Rightarrow> diagnostic list" where
  "validate_api_servers sys symbols = each (validate_api_server symbols) (sy_api_servers sys)"

section \<open>APIs\<close>

definition find_shape :: "SystemDecl \<Rightarrow> string \<Rightarrow> ShapeDecl option" where
  "find_shape sys name = find (\<lambda>x. sh_name x = name) (sy_shapes sys)"

definition validate_api_input_tenant_field :: "SystemDecl \<Rightarrow> ApiDecl \<Rightarrow> diagnostic list" where
  "validate_api_input_tenant_field sys a = given (sy_tenant_scope sys) (\<lambda>s. given (ap_input a) (\<lambda>i.
     given (find_shape sys i) (\<lambda>x. unless (ts_field_name s \<in> field_names (sh_fields x))
       (error_at (sh_range x) ''SSPEC3403''
         (''API '' @ quoted (ap_name a) @ '' input shape '' @ quoted (sh_name x) @ '' must declare tenant field '' @
          quoted (ts_field_name s))))))"

definition is_mutating_method :: "string \<Rightarrow> bool" where
  "is_mutating_method m \<longleftrightarrow> m = ''POST'' \<or> m = ''PUT'' \<or> m = ''PATCH''"

fun lower_camel_loop :: "bool \<Rightarrow> string \<Rightarrow> string" where
  "lower_camel_loop uppercase_next [] = []"
| "lower_camel_loop uppercase_next (ch # cs) =
     (if ch = CHR ''_'' then lower_camel_loop True cs
      else if uppercase_next then to_upper ch # lower_camel_loop False cs
      else ch # lower_camel_loop uppercase_next cs)"

definition lower_camel_field_name :: "string \<Rightarrow> string" where
  "lower_camel_field_name = lower_camel_loop False"

definition validate_api_tenant_path :: "SystemDecl \<Rightarrow> ApiDecl \<Rightarrow> diagnostic list" where
  "validate_api_tenant_path sys a = given (sy_tenant_scope sys) (\<lambda>s. given (ap_path a) (\<lambda>path.
     unless (has_word ''/tenants/'' path \<or> has_word (''{'' @ ts_field_name s @ ''}'') path \<or>
         has_word (''{'' @ lower_camel_field_name (ts_field_name s) @ ''}'') path)
       (error_at (ap_range a) ''SSPEC3406''
         (''API '' @ quoted (ap_name a) @ '' path must include tenant identity for tenant field '' @
          quoted (ts_field_name s)))))"

definition validate_api :: "SystemDecl \<Rightarrow> symbol_table \<Rightarrow> ApiDecl \<Rightarrow> diagnostic list" where
  "validate_api sys symbols a =
     (let subject = ''api '' @ quoted (ap_name a);
          known = (\<lambda>what t. unless (is_known_type_reference t symbols) (unknown_reference_error (ap_range a) what t));
          target = (\<lambda>what n. unless (is_declared symbols n) (unknown_reference_error (ap_range a) what n))
      in
      unless (ap_method a \<noteq> None) (required_error (ap_range a) subject ''method'') @
      unless (ap_path a \<noteq> None) (required_error (ap_range a) subject ''path'') @
      validate_api_tenant_path sys a @
      given (ap_method a) (\<lambda>m. unless (\<not> (is_mutating_method m \<and> ap_input a = None))
        (required_error (ap_range a) subject ''input'')) @
      given (ap_input a) (known ''API input'') @
      validate_api_input_tenant_field sys a @
      given (ap_method a) (\<lambda>m. unless (\<not> (m \<noteq> ''DELETE'' \<and> ap_output a = None))
        (required_error (ap_range a) subject ''output'')) @
      given (ap_output a) (known ''API output'') @
      given (ap_error a) (known ''API error'') @
      unless (\<not> (ap_starts_workflow a \<noteq> None \<and> ap_enqueues a \<noteq> None))
        (error_at (ap_range a) ''SSPEC4101''
          (''api '' @ quoted (ap_name a) @ '' must choose one primary action: starts workflow or enqueues'')) @
      given (ap_starts_workflow a) (target ''API starts workflow'') @
      given (ap_enqueues a) (target ''API enqueues target''))"

definition validate_apis :: "SystemDecl \<Rightarrow> symbol_table \<Rightarrow> diagnostic list" where
  "validate_apis sys symbols = each (validate_api sys symbols) (sy_apis sys)"

section \<open>Dependencies between the domains of the runtime\<close>

datatype RuntimeDomain =
    RD_Occ
  | RD_FeatureFlags
  | RD_Queues
  | RD_Leases
  | RD_Workflows
  | RD_Logs
  | RD_Metrics
  | RD_EntityGc

record RuntimeDependency =
  dp_from :: RuntimeDomain
  dp_to :: RuntimeDomain
  dp_range :: source_range
  dp_subject :: string

fun runtime_domain_name :: "RuntimeDomain \<Rightarrow> string" where
  "runtime_domain_name RD_Occ = ''OCC''"
| "runtime_domain_name RD_FeatureFlags = ''feature_flags''"
| "runtime_domain_name RD_Queues = ''queues''"
| "runtime_domain_name RD_Leases = ''leases''"
| "runtime_domain_name RD_Workflows = ''workflows''"
| "runtime_domain_name RD_Logs = ''logs''"
| "runtime_domain_name RD_Metrics = ''metrics''"
| "runtime_domain_name RD_EntityGc = ''entity_gc''"

definition runtime_dependency_allowed :: "RuntimeDomain \<Rightarrow> RuntimeDomain \<Rightarrow> bool" where
  "runtime_dependency_allowed a b \<longleftrightarrow>
     (if b = RD_Occ \<or> a = b then True
      else if a = RD_Workflows then b \<in> {RD_FeatureFlags, RD_Queues, RD_Leases, RD_Logs, RD_Metrics}
      else False)"

definition expression_uses_feature_flags :: "string \<Rightarrow> bool" where
  "expression_uses_feature_flags e \<longleftrightarrow> has_word ''feature_enabled'' e \<or> has_word ''feature_value'' e"

fun runtime_domain_for_kind :: "SymbolKind \<Rightarrow> RuntimeDomain option" where
  "runtime_domain_for_kind SK_FeatureFlag = Some RD_FeatureFlags"
| "runtime_domain_for_kind SK_Message = Some RD_Queues"
| "runtime_domain_for_kind SK_Queue = Some RD_Queues"
| "runtime_domain_for_kind SK_Lease = Some RD_Leases"
| "runtime_domain_for_kind SK_Workflow = Some RD_Workflows"
| "runtime_domain_for_kind SK_Log = Some RD_Logs"
| "runtime_domain_for_kind SK_Metric = Some RD_Metrics"
| "runtime_domain_for_kind _ = None"

definition runtime_domain_for_symbol :: "Symbol \<Rightarrow> RuntimeDomain option" where
  "runtime_domain_for_symbol y = runtime_domain_for_kind (sb_kind y)"

definition symbol_dependency :: "RuntimeDomain \<Rightarrow> symbol_table \<Rightarrow> source_range \<Rightarrow> string \<Rightarrow> string \<Rightarrow> RuntimeDependency list" where
  "symbol_dependency a symbols r subject target =
     (case Option.bind (symbol_table_find symbols target) runtime_domain_for_symbol of
        None \<Rightarrow> []
      | Some b \<Rightarrow> [\<lparr>dp_from = a, dp_to = b, dp_range = r, dp_subject = subject\<rparr>])"

definition flag_dependency :: "string \<Rightarrow> source_range \<Rightarrow> string \<Rightarrow> RuntimeDependency list" where
  "flag_dependency subject r e =
     (if expression_uses_feature_flags e
      then [\<lparr>dp_from = RD_Workflows, dp_to = RD_FeatureFlags, dp_range = r, dp_subject = subject\<rparr>] else [])"

definition statement_dependencies :: "symbol_table \<Rightarrow> string \<Rightarrow> WorkflowStatementDecl \<Rightarrow> RuntimeDependency list" where
  "statement_dependencies symbols subject x =
     (case ws_expression x of None \<Rightarrow> [] | Some e \<Rightarrow> flag_dependency subject (ws_range x) e) @
     concat (map (\<lambda>a. flag_dependency subject (wa_range a) (wa_expression a)) (ws_payload x)) @
     (case ws_target x of None \<Rightarrow> [] | Some t \<Rightarrow> symbol_dependency RD_Workflows symbols (ws_range x) subject t)"

definition runtime_domain_dependencies :: "SystemDecl \<Rightarrow> symbol_table \<Rightarrow> RuntimeDependency list" where
  "runtime_domain_dependencies sys symbols =
     concat (map (\<lambda>q. case qu_dead_letter q of None \<Rightarrow> [] | Some d \<Rightarrow>
       symbol_dependency RD_Queues symbols (qu_range q) (''queue '' @ quoted (qu_name q) @ '' dead_letter'') d)
       (sy_queues sys)) @
     concat (map (\<lambda>w. concat (map (\<lambda>p.
         concat (map (statement_dependencies symbols (''workflow step '' @ quoted (workflow_step_name w p))) (wp_statements p)))
       (wf_steps w))) (sy_workflows sys)) @
     concat (map (\<lambda>e. case et_state_machine e of None \<Rightarrow> [] | Some m \<Rightarrow>
       concat (map (\<lambda>s. case sd_garbage_collection s of None \<Rightarrow> [] | Some p \<Rightarrow>
         [\<lparr>dp_from = RD_EntityGc, dp_to = RD_Occ, dp_range = gc_range p,
           dp_subject = ''entity '' @ quoted (et_name e) @ '' garbage_collection''\<rparr>]) (sm_states m))) (sy_entities sys))"

definition validate_runtime_domain_dependencies :: "SystemDecl \<Rightarrow> symbol_table \<Rightarrow> diagnostic list" where
  "validate_runtime_domain_dependencies sys symbols = each (\<lambda>d.
     unless (runtime_dependency_allowed (dp_from d) (dp_to d))
       (error_at (dp_range d) ''SSPEC3601''
         (dp_subject d @ '' creates disallowed runtime domain dependency '' @ runtime_domain_name (dp_from d) @ '' -> '' @
          runtime_domain_name (dp_to d)))) (runtime_domain_dependencies sys symbols)"

end
