(* ===== verification/Validator_Workflows.thy ===== *)
theory Validator_Workflows
  imports Validator_Runtime
begin

text \<open>
  \<open>src/validator_workflows.cpp\<close> and \<open>include/statespec/child_workflow_names.hpp\<close>: workflows, their
  child sets and child workflows, and their statements, nested in blocks.
\<close>

section \<open>Names that are derived for a child workflow\<close>

record ChildWorkflowDerivedNames =
  dn_id_bucket_base :: string
  dn_pending_bucket :: string
  dn_creating_bucket :: string
  dn_succeeded_bucket :: string
  dn_failed_bucket :: string
  dn_generate_ids_step :: string
  dn_create_children_step :: string
  dn_wait_children_step :: string

definition derive_child_workflow_id_bucket_base :: "string \<Rightarrow> string" where
  "derive_child_workflow_id_bucket_base f =
     (if f = ''id'' then ''ids''
      else if length f > 3 \<and> ends_with f ''_id'' then take (length f - 3) f @ ''_ids''
      else f @ ''_ids'')"

definition derive_child_workflow_names :: "string \<Rightarrow> string \<Rightarrow> ChildWorkflowDerivedNames" where
  "derive_child_workflow_names name f =
     (let base = derive_child_workflow_id_bucket_base f in
      \<lparr>dn_id_bucket_base = base,
       dn_pending_bucket = ''pending_'' @ base,
       dn_creating_bucket = ''creating_'' @ base,
       dn_succeeded_bucket = ''succeeded_'' @ base,
       dn_failed_bucket = ''failed_'' @ base,
       dn_generate_ids_step = ''generate_'' @ base,
       dn_create_children_step = ''create_'' @ name,
       dn_wait_children_step = ''wait_for_'' @ name\<rparr>)"

definition generated_steps :: "ChildWorkflowDerivedNames \<Rightarrow> string list" where
  "generated_steps d = [dn_generate_ids_step d, dn_create_children_step d, dn_wait_children_step d]"

definition derived_buckets :: "ChildWorkflowDerivedNames \<Rightarrow> string list" where
  "derived_buckets d = [dn_pending_bucket d, dn_creating_bucket d, dn_succeeded_bucket d, dn_failed_bucket d]"

section \<open>Child workflows\<close>

definition workflow_member_order_index :: "string \<Rightarrow> int" where
  "workflow_member_order_index = order_index [[''version''], [''singleton''], [''expected_execution_time''], [''start''],
     [''on''], [''input''], [''state''], [''load''], [''child_set''], [''child_workflow''], [''step'']]"

definition validate_workflow_member_order :: "WorkflowDecl \<Rightarrow> diagnostic list" where
  "validate_workflow_member_order w = validate_member_order workflow_member_order_index ''SSPEC6102''
     (''workflow '' @ quoted (wf_name w) @ '' members should use canonical order: version, singleton, '' @
      ''expected_execution_time, start, on, input, state, load, child_set, '' @
      ''child_workflow, step'') (wf_member_order w)"

definition entity_has_parent_relation :: "EntityDecl \<Rightarrow> string \<Rightarrow> bool" where
  "entity_has_parent_relation e name \<longleftrightarrow> list_ex (\<lambda>r. re_name r = name \<and> re_kind r = ''parent'') (et_relations e)"

definition validate_child_workflow_derived_name_collisions ::
  "WorkflowDecl \<Rightarrow> WorkflowChildWorkflowDecl \<Rightarrow> string list \<Rightarrow> string list \<Rightarrow> diagnostic list" where
  "validate_child_workflow_derived_name_collisions w c step_names bucket_names =
     given (cw_child_id_field c) (\<lambda>f.
       let names = derive_child_workflow_names (cw_name c) f in
       each (\<lambda>g. unless (g \<notin> set step_names)
         (duplicate_error (cw_range c) (wf_name w @ ''.'' @ cw_name c @ '' derived step '' @ quoted g))) (generated_steps names) @
       each (\<lambda>b. unless (b \<notin> set bucket_names)
         (duplicate_error (cw_range c) (wf_name w @ ''.'' @ cw_name c @ '' derived bucket '' @ quoted b))) (derived_buckets names))"

definition child_workflow_required :: "WorkflowChildWorkflowDecl \<Rightarrow> (bool \<times> string) list" where
  "child_workflow_required c =
     [(cw_child_entity c \<noteq> None, ''child_entity''), (cw_child_workflow c \<noteq> None, ''child_workflow''),
      (cw_child_id_field c \<noteq> None, ''child_id''), (cw_child_id_type c \<noteq> None, ''child_id type''),
      (cw_parent_ref_field c \<noteq> None, ''parent_ref''), (cw_parent_ref_expression c \<noteq> None, ''parent_ref expression''),
      (cw_desired_count c \<noteq> None, ''desired_count''), (cw_create_assignments c \<noteq> [], ''create''),
      (cw_success_expression c \<noteq> None, ''success''), (cw_failure_expression c \<noteq> None, ''failure'')]"

definition child_workflow_subject :: "WorkflowChildWorkflowDecl \<Rightarrow> string" where
  "child_workflow_subject c = ''workflow child_workflow '' @ quoted (cw_name c)"

definition validate_child_id :: "WorkflowChildWorkflowDecl \<Rightarrow> EntityDecl \<Rightarrow> diagnostic list" where
  "validate_child_id c e = given (cw_child_id_field c) (\<lambda>f.
     case find_field (et_fields e) f of
       None \<Rightarrow> unknown_reference_error (cw_range c) ''workflow child_workflow child_id field'' f
     | Some d \<Rightarrow> given (cw_child_id_type c) (\<lambda>t. unless (fd_type d = t)
         (error_at (cw_range c) ''SSPEC3002''
           (child_workflow_subject c @ '' child_id field '' @ quoted f @ '' must have type '' @ t))))"

definition validate_parent_ref :: "WorkflowChildWorkflowDecl \<Rightarrow> EntityDecl \<Rightarrow> diagnostic list" where
  "validate_parent_ref c e = given (cw_parent_ref_field c) (\<lambda>f.
     unless (find_field (et_fields e) f \<noteq> None)
       (unknown_reference_error (cw_range c) ''workflow child_workflow parent_ref field'' f) @
     unless (entity_has_parent_relation e f)
       (unknown_reference_error (cw_range c) ''workflow child_workflow parent_ref relation'' f))"

definition validate_create_assignment ::
  "SystemDecl \<Rightarrow> EntityDecl option \<Rightarrow> bool \<Rightarrow> WorkflowAssignmentDecl \<Rightarrow> diagnostic list" where
  "validate_create_assignment sys entity fresh a =
     unless fresh (duplicate_error (wa_range a) (wa_name a)) @
     given entity (\<lambda>e. unless (find_field (et_fields e) (wa_name a) \<noteq> None)
       (unknown_reference_error (wa_range a) ''workflow child_workflow create field'' (wa_name a))) @
     validate_expression sys (wa_range a) (wa_expression a)"

definition validate_workflow_child_workflow ::
  "SystemDecl \<Rightarrow> symbol_table \<Rightarrow> WorkflowDecl \<Rightarrow> string list \<Rightarrow> string list \<Rightarrow> WorkflowChildWorkflowDecl \<Rightarrow> diagnostic list" where
  "validate_workflow_child_workflow sys symbols w step_names bucket_names c =
     (let subject = child_workflow_subject c;
          entity = Option.bind (cw_child_entity c) (find_entity sys);
          assigned = map wa_name (cw_create_assignments c)
      in
      each (\<lambda>(present, field). unless present (required_error (cw_range c) subject field)) (child_workflow_required c) @
      given (cw_child_workflow c) (\<lambda>n.
        validate_symbol_reference symbols (cw_range c) ''workflow child_workflow target'' n [SK_Workflow]) @
      given (cw_child_entity c) (\<lambda>n. unless (find_entity sys n \<noteq> None)
        (unknown_reference_error (cw_range c) ''workflow child_workflow child_entity'' n)) @
      given entity (validate_child_id c) @
      given entity (validate_parent_ref c) @
      given (cw_parent_ref_expression c) (validate_expression sys (cw_range c)) @
      given (cw_desired_count c) (validate_expression sys (cw_range c)) @
      given (cw_success_expression c) (validate_expression sys (cw_range c)) @
      given (cw_failure_expression c) (validate_expression sys (cw_range c)) @
      each_named wa_name (validate_create_assignment sys entity) [] (cw_create_assignments c) @
      given (cw_child_id_field c) (\<lambda>f. unless (f \<in> set assigned)
        (required_error (cw_range c) subject (''create assignment for child_id field '' @ quoted f))) @
      given (cw_parent_ref_field c) (\<lambda>f. unless (f \<in> set assigned)
        (required_error (cw_range c) subject (''create assignment for parent_ref field '' @ quoted f))) @
      validate_child_workflow_derived_name_collisions w c step_names bucket_names)"

text \<open>The buckets of the child workflows that come before.\<close>

fun validate_child_workflows ::
  "SystemDecl \<Rightarrow> symbol_table \<Rightarrow> WorkflowDecl \<Rightarrow> string list \<Rightarrow> string list \<Rightarrow> WorkflowChildWorkflowDecl list \<Rightarrow>
   diagnostic list" where
  "validate_child_workflows sys symbols w step_names bucket_names [] = []"
| "validate_child_workflows sys symbols w step_names bucket_names (c # cs) =
     validate_workflow_child_workflow sys symbols w step_names bucket_names c @
     validate_child_workflows sys symbols w step_names
       (case cw_child_id_field c of
          None \<Rightarrow> bucket_names
        | Some f \<Rightarrow> derived_buckets (derive_child_workflow_names (cw_name c) f) @ bucket_names) cs"

section \<open>Statements\<close>

definition workflow_statement_is_child_set_operation :: "WorkflowStatementDecl \<Rightarrow> bool" where
  "workflow_statement_is_child_set_operation x \<longleftrightarrow>
     ws_kind x = ''reserve_child_set'' \<or> ws_kind x = ''materialize_child_set'' \<or> ws_kind x = ''reconcile_child_set''"

text \<open>The kinds of symbols that the target of a statement may have.\<close>

definition target_kinds :: "string \<Rightarrow> (string \<times> SymbolKind list) option" where
  "target_kinds kind =
     (if kind = ''emit'' then Some (''workflow emit target'', [SK_Event, SK_Log])
      else if kind = ''enqueue'' then Some (''workflow enqueue target'', [SK_Message])
      else if kind = ''acquire_lease'' \<or> kind = ''renew_lease'' \<or> kind = ''release_lease''
        then Some (''workflow lease target'', [SK_Lease])
      else if kind = ''start_workflow'' then Some (''workflow start target'', [SK_Workflow])
      else if kind = ''create_child'' \<or> kind = ''observe_child'' then Some (''workflow child entity target'', [SK_Entity])
      else None)"

definition validate_statement_target ::
  "symbol_table \<Rightarrow> string list \<Rightarrow> string list \<Rightarrow> WorkflowStatementDecl \<Rightarrow> string \<Rightarrow> diagnostic list" where
  "validate_statement_target symbols steps child_sets x t =
     given (target_kinds (ws_kind x)) (\<lambda>(what, kinds). validate_symbol_reference symbols (ws_range x) what t kinds) @
     unless (\<not> (ws_kind x = ''transition_to'' \<and> t \<notin> set steps))
       (unknown_reference_error (ws_range x) ''workflow transition target'' t) @
     unless (\<not> (workflow_statement_is_child_set_operation x \<and> t \<notin> set child_sets))
       (unknown_reference_error (ws_range x) ''workflow child_set target'' t)"

definition present :: "string option \<Rightarrow> bool" where
  "present v \<longleftrightarrow> (case v of None \<Rightarrow> False | Some t \<Rightarrow> t \<noteq> [])"

definition validate_statement_members :: "WorkflowStatementDecl \<Rightarrow> diagnostic list" where
  "validate_statement_members x =
     unless (\<not> (ws_kind x = ''for_each'' \<and> ws_binding x = None))
       (required_error (ws_range x) ''workflow for_each statement'' ''iterator'') @
     unless (\<not> (ws_kind x \<in> {''atomic'', ''for_each'', ''when''} \<and> ws_statements x = []))
       (required_error (ws_range x) (''workflow '' @ ws_kind x @ '' block'') ''at least one statement'') @
     (if ws_kind x = ''move'' then
        unless (present (ws_expression x)) (required_error (ws_range x) ''workflow move statement'' ''expression'') @
        unless (present (ws_from_assignable x)) (required_error (ws_range x) ''workflow move statement'' ''from'') @
        unless (present (ws_to_assignable x)) (required_error (ws_range x) ''workflow move statement'' ''to'')
      else [])"

text \<open>The function calls itself for the nested statements, in the middle of its checks.\<close>

fun validate_workflow_statement ::
  "SystemDecl \<Rightarrow> symbol_table \<Rightarrow> string list \<Rightarrow> string list \<Rightarrow> WorkflowStatementDecl \<Rightarrow> diagnostic list" where
  "validate_workflow_statement sys symbols steps child_sets (WorkflowStatementDecl k t e a f g b p xs r) =
     given e (validate_expression sys r) @
     each (\<lambda>y. validate_expression sys (wa_range y) (wa_expression y)) p @
     concat (map (validate_workflow_statement sys symbols steps child_sets) xs) @
     given t (validate_statement_target symbols steps child_sets (WorkflowStatementDecl k t e a f g b p xs r)) @
     validate_statement_members (WorkflowStatementDecl k t e a f g b p xs r)"

section \<open>Workflows\<close>

definition validate_workflow_header :: "symbol_table \<Rightarrow> WorkflowDecl \<Rightarrow> diagnostic list" where
  "validate_workflow_header symbols w =
     (let subject = ''workflow '' @ quoted (wf_name w) in
      validate_workflow_member_order w @
      (case wf_version w of
         None \<Rightarrow> required_error (wf_range w) subject ''version''
       | Some n \<Rightarrow> unless (n > 0) (positive_integer_error (wf_range w) subject ''version'')) @
      unless (wf_start_step w \<noteq> None) (required_error (wf_range w) subject ''start step'') @
      unless (wf_singleton w \<noteq> None) (required_error (wf_range w) subject ''singleton'') @
      unless (wf_steps w \<noteq> []) (required_error (wf_range w) subject ''at least one step'') @
      (case wf_expected_execution_time w of
         None \<Rightarrow> required_error (wf_range w) subject ''expected_execution_time''
       | Some v \<Rightarrow> unless (is_duration_literal v) (duration_error (wf_range w) subject ''expected_execution_time'')) @
      given (wf_on w) (\<lambda>n.
        validate_symbol_reference symbols (wf_range w) ''workflow trigger'' n [SK_Api, SK_Event, SK_Message]) @
      given (wf_input w) (\<lambda>n. unless (is_known_type_reference n symbols)
        (unknown_reference_error (wf_range w) ''workflow input'' n)) @
      given (wf_state w) (\<lambda>n. unless (is_known_type_reference n symbols)
        (unknown_reference_error (wf_range w) ''workflow state'' n)))"

definition validate_load :: "SystemDecl \<Rightarrow> bool \<Rightarrow> WorkflowLoadDecl \<Rightarrow> diagnostic list" where
  "validate_load sys fresh l =
     unless fresh (duplicate_error (wl_range l) (wl_binding l)) @
     (case find_entity sys (wl_entity l) of
        None \<Rightarrow> unknown_reference_error (wl_range l) ''workflow load entity'' (wl_entity l)
      | Some e \<Rightarrow> unless (wl_key_field l \<in> set (et_key_fields e))
          (unknown_reference_error (wl_range l) ''workflow load key field'' (wl_key_field l)))"

definition validate_child_set :: "SystemDecl \<Rightarrow> bool \<Rightarrow> WorkflowChildSetDecl \<Rightarrow> diagnostic list" where
  "validate_child_set sys fresh c =
     unless fresh (duplicate_error (cs_range c) (cs_name c)) @
     (case cs_entity c of
        None \<Rightarrow> required_error (cs_range c) (''workflow child_set '' @ quoted (cs_name c)) ''entity''
      | Some n \<Rightarrow>
          (case find_entity sys n of
             None \<Rightarrow> unknown_reference_error (cs_range c) ''workflow child_set entity'' n
           | Some e \<Rightarrow>
               given (cs_parent_field c) (\<lambda>f. unless (f \<in> field_names (et_fields e))
                 (unknown_reference_error (cs_range c) ''workflow child_set parent field'' f)) @
               given (cs_desired_count c) (validate_expression sys (cs_range c))))"

definition validate_step :: "WorkflowDecl \<Rightarrow> bool \<Rightarrow> WorkflowStepDecl \<Rightarrow> diagnostic list" where
  "validate_step w fresh p =
     (let subject = ''workflow step '' @ quoted (workflow_step_name w p) in
      unless fresh (duplicate_error (wp_range p) (workflow_step_name w p)) @
      (case wp_expected_execution_time p of
         None \<Rightarrow> required_error (wp_range p) subject ''expected_execution_time''
       | Some v \<Rightarrow> unless (is_duration_literal v) (duration_error (wp_range p) subject ''expected_execution_time'')) @
      (case wp_max_retries p of
         None \<Rightarrow> required_error (wp_range p) subject ''max_retries''
       | Some n \<Rightarrow> unless (n \<ge> 0) (non_negative_integer_error (wp_range p) subject ''max_retries'')))"

definition validate_workflow :: "SystemDecl \<Rightarrow> symbol_table \<Rightarrow> WorkflowDecl \<Rightarrow> diagnostic list" where
  "validate_workflow sys symbols w =
     (let steps = map wp_name (wf_steps w); child_sets = map cs_name (wf_child_sets w) in
      validate_workflow_header symbols w @
      each_named wl_binding (validate_load sys) [] (wf_loads w) @
      each_named cs_name (validate_child_set sys) [] (wf_child_sets w) @
      duplicates cw_name (\<lambda>c. duplicate_error (cw_range c) (cw_name c)) (wf_child_workflows w) @
      each_named wp_name (validate_step w) [] (wf_steps w) @
      validate_child_workflows sys symbols w steps [] (wf_child_workflows w) @
      given (wf_start_step w) (\<lambda>n. unless (n \<in> set steps) (unknown_reference_error (wf_range w) ''workflow start step'' n)) @
      each (\<lambda>p. each (validate_workflow_statement sys symbols steps child_sets) (wp_statements p)) (wf_steps w))"

definition validate_workflows :: "SystemDecl \<Rightarrow> symbol_table \<Rightarrow> diagnostic list" where
  "validate_workflows sys symbols = each (validate_workflow sys symbols) (sy_workflows sys)"

end
