(* ===== verification/Validator.thy ===== *)
theory Validator
  imports Validator_Workflows
begin

text \<open>
  \<open>src/validator.cpp\<close>: the passes over a specification, in their order. The result is the bag of
  diagnostics afterwards, or the undefined behaviour of a duration that overflows.
\<close>

definition validate :: "(string list \<Rightarrow> string list) \<Rightarrow> Spec \<Rightarrow> diagnostic_bag \<Rightarrow> diagnostic_bag result" where
  "validate order spec ds =
     (case sp_system spec of
        None \<Rightarrow> Inr (ds @ error_at empty_range ''SSPEC1001'' ''spec must contain a system declaration'')
      | Some sys \<Rightarrow>
          (case build_symbol_table sys of (symbols, duplicate_names) \<Rightarrow>
             andThen (validate_leases sys) (\<lambda>leases. Inr (ds @
               duplicate_names @
               validate_system_member_order sys @
               validate_system_tenancy sys @
               validate_feature_flags sys symbols @
               validate_values sys symbols @
               validate_enums sys @
               validate_events sys symbols @
               validate_external_systems sys symbols @
               validate_shapes sys symbols @
               validate_logs sys symbols @
               validate_metrics sys symbols @
               validate_entities order sys symbols @
               validate_queues sys symbols @
               leases @
               validate_workflows sys symbols @
               validate_workers sys symbols @
               validate_apis sys symbols @
               validate_api_servers sys symbols @
               validate_runtime_domain_dependencies sys symbols @
               validate_policies sys symbols))))"

end
