(* ===== verification/Validator_Grammar.thy ===== *)
theory Validator_Grammar
  imports Validator_Expression
begin

text \<open>
  The expression grammar of \<open>grammar/statespec.ebnf\<close>, on the kinds of the tokens, and the proof that the
  syntax check of \<open>src/validator_expression.cpp\<close> accepts exactly its expressions and always returns.
  The grammar here is that of the code where the two differ: literals are not objects, and a call
  may be followed by selectors.
\<close>

section \<open>The grammar\<close>

datatype category =
    Expression
  | Logical_or
  | Logical_and
  | Equality
  | Comparison
  | Additive
  | Multiplicative
  | Unary
  | Primary
  | Qualified_name
  | Selectors
  | Items

fun operators :: "category \<Rightarrow> token_kind list" where
  "operators Logical_or = [TK_OrOr]"
| "operators Logical_and = [TK_AndAnd]"
| "operators Equality = [TK_EqualEqual, TK_BangEqual]"
| "operators Comparison = [TK_Less, TK_LessEqual, TK_Greater, TK_GreaterEqual, TK_Keyword ''in'']"
| "operators Additive = [TK_Plus, TK_Minus]"
| "operators Multiplicative = [TK_Star, TK_Slash, TK_Percent]"
| "operators _ = []"

fun operand :: "category \<Rightarrow> category" where
  "operand Logical_or = Logical_and"
| "operand Logical_and = Equality"
| "operand Equality = Comparison"
| "operand Comparison = Additive"
| "operand Additive = Multiplicative"
| "operand Multiplicative = Unary"
| "operand N = N"

definition binary_levels :: "category set" where
  "binary_levels = {Logical_or, Logical_and, Equality, Comparison, Additive, Multiplicative}"

inductive derives :: "category \<Rightarrow> token_kind list \<Rightarrow> bool" where
  expression: "derives Logical_or ts \<Longrightarrow> derives Expression ts"
| operand: "N \<in> binary_levels \<Longrightarrow> derives (operand N) ts \<Longrightarrow> derives N ts"
| operator: "N \<in> binary_levels \<Longrightarrow> derives (operand N) xs \<Longrightarrow> k \<in> set (operators N) \<Longrightarrow> derives N ys \<Longrightarrow>
    derives N (xs @ k # ys)"
| prefix_operator: "k \<in> {TK_Bang, TK_Minus} \<Longrightarrow> derives Unary ts \<Longrightarrow> derives Unary (k # ts)"
| no_prefix: "derives Primary ts \<Longrightarrow> derives Unary ts"
| literal: "k \<in> {TK_StringLiteral, TK_IntegerLiteral, TK_DecimalLiteral, TK_BooleanLiteral, TK_DurationLiteral} \<Longrightarrow>
    derives Primary [k]"
| parentheses: "derives Expression ts \<Longrightarrow> derives Primary (TK_LeftParen # ts @ [TK_RightParen])"
| empty_list: "derives Primary [TK_LeftBracket, TK_RightBracket]"
| list: "derives Items ts \<Longrightarrow> derives Primary (TK_LeftBracket # ts @ [TK_RightBracket])"
| path: "derives Qualified_name xs \<Longrightarrow> derives Selectors ys \<Longrightarrow> derives Primary (xs @ ys)"
| empty_call: "derives Qualified_name xs \<Longrightarrow> derives Selectors ys \<Longrightarrow>
    derives Primary (xs @ TK_LeftParen # TK_RightParen # ys)"
| call: "derives Qualified_name xs \<Longrightarrow> derives Items ts \<Longrightarrow> derives Selectors ys \<Longrightarrow>
    derives Primary (xs @ TK_LeftParen # ts @ TK_RightParen # ys)"
| name: "is_expression_identifier_token k \<Longrightarrow> derives Qualified_name [k]"
| qualified_name: "is_expression_identifier_token k \<Longrightarrow> derives Qualified_name xs \<Longrightarrow>
    derives Qualified_name (k # TK_Dot # xs)"
| no_selectors: "derives Selectors []"
| field_selector: "is_expression_identifier_token k \<Longrightarrow> derives Selectors ys \<Longrightarrow> derives Selectors (TK_Dot # k # ys)"
| index_selector: "derives Expression ts \<Longrightarrow> derives Selectors ys \<Longrightarrow>
    derives Selectors (TK_LeftBracket # ts @ TK_RightBracket # ys)"
| item: "derives Expression ts \<Longrightarrow> derives Items ts"
| items: "derives Expression xs \<Longrightarrow> derives Items ys \<Longrightarrow> derives Items (xs @ TK_Comma # ys)"

section \<open>States\<close>

text \<open>The tokens end with the end-of-file token and have no other; the syntax error is reported once if
  the check has failed.\<close>

definition syntax_reports :: "diagnostic list \<Rightarrow> nat" where
  "syntax_reports ds = length (filter (\<lambda>d. dg_code d = ''SSPEC5201'') ds)"

definition valid_expression_state :: "expression_state \<Rightarrow> bool" where
  "valid_expression_state s \<longleftrightarrow>
     (\<exists>ts t. es_rest s = ts @ [t] \<and> tok_kind t = TK_EndOfFile \<and> TK_EndOfFile \<notin> tok_kind ` set ts) \<and>
     syntax_reports (es_diagnostics s) = (if es_failed s then 1 else 0)"

abbreviation kinds :: "token list \<Rightarrow> token_kind list" where
  "kinds ts \<equiv> map tok_kind ts"

text \<open>What a parsing function does: it takes tokens, and unless it has failed their kinds form a phrase
  of the language \<open>L\<close>. \<open>parses\<close> bounds the number of tokens that are left.\<close>

definition took :: "(token_kind list \<Rightarrow> bool) \<Rightarrow> expression_state \<Rightarrow> expression_state \<Rightarrow> bool" where
  "took L s t \<longleftrightarrow> valid_expression_state t \<and> (es_failed s \<longrightarrow> es_failed t) \<and>
     (\<exists>cs. es_rest s = cs @ es_rest t \<and> (\<not> es_failed t \<longrightarrow> L (kinds cs)))"

definition parses :: "(token_kind list \<Rightarrow> bool) \<Rightarrow> (expression_state \<Rightarrow> expression_state option) \<Rightarrow> nat \<Rightarrow> bool" where
  "parses L p n \<longleftrightarrow> (\<forall>s. valid_expression_state s \<longrightarrow> length (es_rest s) < n \<longrightarrow> (\<exists>t. p s = Some t \<and> took L s t))"

lemma valid_ne [simp]: "valid_expression_state s \<Longrightarrow> es_rest s \<noteq> []"
  by (auto simp: valid_expression_state_def)

lemma valid_advance:
  assumes "valid_expression_state s" and "ex_check k s" and "k \<noteq> TK_EndOfFile"
  shows "valid_expression_state (ex_advance s) \<and> kinds (es_rest s) = k # kinds (es_rest (ex_advance s)) \<and>
    es_rest s = hd (es_rest s) # es_rest (ex_advance s) \<and> tok_kind (hd (es_rest s)) = k"
proof -
  obtain ts t where ts: "es_rest s = ts @ [t]" "tok_kind t = TK_EndOfFile" "TK_EndOfFile \<notin> tok_kind ` set ts"
    using assms(1) by (auto simp: valid_expression_state_def)
  then obtain u us where "ts = u # us"
    using assms(2,3) by (cases ts) (auto simp: ex_check_def ex_peek_def)
  then show ?thesis
    using ts assms by (auto simp: valid_expression_state_def ex_check_def ex_peek_def ex_advance_rest)
qed

lemma error_state [simp]:
  "es_rest (syntax_error m s) = es_rest s" "es_failed (syntax_error m s)"
  "es_rest (validate_builtin_call n s) = es_rest s" "es_failed (validate_builtin_call n s) = es_failed s"
  by (auto simp: syntax_error_def validate_builtin_call_def)

lemma syntax_reports_simps [simp]:
  "syntax_reports [] = 0" "syntax_reports (ds @ es) = syntax_reports ds + syntax_reports es"
  "syntax_reports (error_at r c m) = (if c = ''SSPEC5201'' then 1 else 0)"
  by (simp_all add: syntax_reports_def error_at_def add_error_def)

lemma valid_error [simp]: "valid_expression_state s \<Longrightarrow> valid_expression_state (syntax_error m s)"
  by (simp add: valid_expression_state_def syntax_error_def)

lemma valid_builtin_call [simp]: "valid_expression_state (validate_builtin_call n s) = valid_expression_state s"
  by (simp add: valid_expression_state_def validate_builtin_call_def)

section \<open>The check returns, and what it accepts is a phrase\<close>

lemma tookI:
  "valid_expression_state t \<Longrightarrow> (es_failed s \<Longrightarrow> es_failed t) \<Longrightarrow> es_rest s = cs @ es_rest t \<Longrightarrow>
   (\<not> es_failed t \<Longrightarrow> L (kinds cs)) \<Longrightarrow> took L s t"
  by (auto simp: took_def)

lemma tookE:
  assumes "took L s t"
  obtains cs where "valid_expression_state t" "es_failed s \<Longrightarrow> es_failed t" "es_rest s = cs @ es_rest t"
    "\<not> es_failed t \<Longrightarrow> L (kinds cs)"
  using assms by (auto simp: took_def)

lemma took_shorter: "took L s t \<Longrightarrow> length (es_rest t) \<le> length (es_rest s)"
  by (auto simp: took_def)

lemma parsesD: "parses L p n \<Longrightarrow> valid_expression_state s \<Longrightarrow> length (es_rest s) < n \<Longrightarrow> \<exists>t. p s = Some t \<and> took L s t"
  by (simp add: parses_def)

text \<open>One phrase after another, with a token in between.\<close>

lemma took_append:
  assumes "took L s t" and "took M t u" and "\<And>xs ys. L xs \<Longrightarrow> M ys \<Longrightarrow> K (xs @ ys)"
  shows "took K s u"
proof -
  obtain cs where cs: "es_failed s \<Longrightarrow> es_failed t" "es_rest s = cs @ es_rest t" "\<not> es_failed t \<Longrightarrow> L (kinds cs)"
    using assms(1) by (auto simp: took_def)
  obtain ds where ds: "valid_expression_state u" "es_failed t \<Longrightarrow> es_failed u" "es_rest t = ds @ es_rest u" "\<not> es_failed u \<Longrightarrow> M (kinds ds)"
    using assms(2) by (auto simp: took_def)
  show ?thesis
  proof (rule tookI [where cs = "cs @ ds"])
    show "es_rest s = (cs @ ds) @ es_rest u"
      using cs(2) ds(3) by simp
    show "K (kinds (cs @ ds))" if "\<not> es_failed u"
      using assms(3) cs(3) ds(2,4) that by auto
  qed (use cs(1) ds(1,2) in auto)
qed

lemma took_advance:
  assumes "valid_expression_state s" and "ex_check k s" and "k \<noteq> TK_EndOfFile"
  shows "took (\<lambda>ks. ks = [k]) s (ex_advance s)"
  by (rule tookI [where cs = "[hd (es_rest s)]"]) (use valid_advance [OF assms] in simp_all)

lemma took_consume:
  assumes "valid_expression_state s" and "k \<noteq> TK_EndOfFile"
  shows "took (\<lambda>ks. ks = [k]) s (ex_consume k m s)"
proof (cases "ex_check k s")
  case True
  then show ?thesis
    using took_advance assms by (simp add: ex_consume_def)
next
  case False
  then show ?thesis
    using assms by (auto simp: ex_consume_def took_def)
qed

lemma took_error: "valid_expression_state s \<Longrightarrow> took L s (syntax_error m s)"
  by (auto simp: took_def)

lemma took_refl: "valid_expression_state s \<Longrightarrow> (\<not> es_failed s \<Longrightarrow> L []) \<Longrightarrow> took L s s"
  by (auto simp: took_def)

lemma took_valid: "took L s t \<Longrightarrow> valid_expression_state t"
  by (simp add: took_def)

lemma took_weaken: "took L s t \<Longrightarrow> (\<And>xs. L xs \<Longrightarrow> M xs) \<Longrightarrow> took M s t"
  by (auto simp: took_def)

lemma advance_shorter:
  "valid_expression_state s \<Longrightarrow> ex_check k s \<Longrightarrow> k \<noteq> TK_EndOfFile \<Longrightarrow> length (es_rest (ex_advance s)) < length (es_rest s)"
  by (rule ex_advance_shorter) simp_all

lemma ex_check_any_iff: "ex_check_any ks s \<longleftrightarrow> tok_kind (ex_peek s) \<in> set ks"
  by (auto simp: ex_check_any_def ex_check_def list_ex_iff)

lemma check_iff: "ex_check k s \<longleftrightarrow> tok_kind (ex_peek s) = k"
  by (simp add: ex_check_def)

lemma operators_not_end: "k \<in> set (operators N) \<Longrightarrow> k \<noteq> TK_EndOfFile"
  by (cases N) (auto simp: multiplicative_operators_def additive_operators_def comparison_operators_def equality_operators_def)

lemma chain_unfold:
  "operator_chain ks p s = Option.bind (p s) (\<lambda>t. if ex_check_any ks t then operator_chain ks p (ex_advance t) else Some t)"
  unfolding operator_chain_def
  by (rule arg_cong [of _ _ "Option.bind (p s)"], rule ext, subst repeat_while.simps) simp

lemma chain_parses:
  assumes p: "parses (derives (operand N)) p n" and N: "N \<in> binary_levels"
  shows "parses (derives N) (operator_chain (operators N) p) n"
proof -
  have "valid_expression_state s \<Longrightarrow> length (es_rest s) < n \<Longrightarrow>
    \<exists>t. operator_chain (operators N) p s = Some t \<and> took (derives N) s t" for s
  proof (induction "length (es_rest s)" arbitrary: s rule: less_induct)
    case less
    obtain t where t: "p s = Some t" "took (derives (operand N)) s t"
      using parsesD [OF p] less.prems by blast
    have vt: "valid_expression_state t" and len: "length (es_rest t) \<le> length (es_rest s)"
      using t(2) took_shorter by (auto simp: took_def)
    show ?case
    proof (cases "ex_check_any (operators N) t")
      case True
      define k where "k = tok_kind (ex_peek t)"
      have k: "k \<in> set (operators N)" "ex_check k t" "k \<noteq> TK_EndOfFile"
        using True operators_not_end by (auto simp: k_def ex_check_any_iff check_iff)
      have shorter: "length (es_rest (ex_advance t)) < length (es_rest s)"
        using advance_shorter [OF vt k(2,3)] len by simp
      moreover have "valid_expression_state (ex_advance t)"
        using valid_advance [OF vt k(2,3)] by simp
      ultimately obtain u where u: "operator_chain (operators N) p (ex_advance t) = Some u" "took (derives N) (ex_advance t) u"
        using less by (meson order.strict_trans)
      have "took (\<lambda>ks. \<exists>ys. ks = k # ys \<and> derives N ys) t u"
        by (rule took_append [OF took_advance [OF vt k(2,3)] u(2)]) simp
      then have "took (derives N) s u"
        by (rule took_append [OF t(2)]) (use k(1) N in \<open>auto intro: derives.operator\<close>)
      then show ?thesis
        using t(1) u(1) True by (subst chain_unfold) simp
    next
      case False
      then show ?thesis
        using t N by (subst chain_unfold) (auto intro: took_weaken derives.operand)
    qed
  qed
  then show ?thesis
    by (simp add: parses_def)
qed

lemma parses_mono: "parses L p n \<Longrightarrow> m \<le> n \<Longrightarrow> parses L p m"
  by (auto simp: parses_def)

lemma items_loop_unfold:
  "Option.bind (e s) (repeat_while (ex_check TK_Comma) (\<lambda>s. e (ex_advance s))) =
   Option.bind (e s) (\<lambda>t. if ex_check TK_Comma t
     then Option.bind (e (ex_advance t)) (repeat_while (ex_check TK_Comma) (\<lambda>s. e (ex_advance s))) else Some t)"
  by (rule arg_cong [of _ _ "Option.bind (e s)"], rule ext, subst repeat_while.simps) simp

lemma items_loop_parses:
  assumes e: "parses (derives Expression) e n"
  shows "parses (derives Items) (\<lambda>s. Option.bind (e s) (repeat_while (ex_check TK_Comma) (\<lambda>s. e (ex_advance s)))) n"
proof -
  let ?p = "\<lambda>s. Option.bind (e s) (repeat_while (ex_check TK_Comma) (\<lambda>s. e (ex_advance s)))"
  have "valid_expression_state s \<Longrightarrow> length (es_rest s) < n \<Longrightarrow> \<exists>t. ?p s = Some t \<and> took (derives Items) s t" for s
  proof (induction "length (es_rest s)" arbitrary: s rule: less_induct)
    case less
    obtain t where t: "e s = Some t" "took (derives Expression) s t"
      using parsesD [OF e] less.prems by blast
    have vt: "valid_expression_state t" and len: "length (es_rest t) \<le> length (es_rest s)"
      using t(2) took_shorter by (auto simp: took_def)
    show ?case
    proof (cases "ex_check TK_Comma t")
      case True
      have shorter: "length (es_rest (ex_advance t)) < length (es_rest s)"
        using advance_shorter [OF vt True] len by simp
      moreover have "valid_expression_state (ex_advance t)"
        using valid_advance [OF vt True] by simp
      ultimately obtain u where u: "?p (ex_advance t) = Some u" "took (derives Items) (ex_advance t) u"
        using less by (meson order.strict_trans)
      have "took (\<lambda>ks. \<exists>ys. ks = TK_Comma # ys \<and> derives Items ys) t u"
        by (rule took_append [OF took_advance [OF vt True] u(2)]) simp_all
      then have "took (derives Items) s u"
        by (rule took_append [OF t(2)]) (auto intro: derives.items)
      then show ?thesis
        using t(1) u(1) True by (subst items_loop_unfold) simp
    next
      case False
      then show ?thesis
        using t by (subst items_loop_unfold) (auto intro: took_weaken derives.item)
    qed
  qed
  then show ?thesis
    by (simp add: parses_def)
qed

lemma items_parses:
  assumes "parses (derives Expression) e n"
  shows "parses (\<lambda>ks. ks = [] \<or> derives Items ks) (expression_items e close) n"
  unfolding parses_def expression_items_def
  using parsesD [OF items_loop_parses [OF assms]] by (auto intro: took_refl took_weaken)

text \<open>What comes between brackets: a token, a phrase, the closing token.\<close>

lemma bracketed:
  assumes p: "parses L p n" and s: "valid_expression_state s" "length (es_rest s) \<le> n"
    and k: "ex_check k s" "k \<noteq> TK_EndOfFile" and k': "k' \<noteq> TK_EndOfFile"
    and f: "es_rest (f (ex_advance s)) = es_rest (ex_advance s)" "es_failed (f (ex_advance s)) = es_failed s"
      "valid_expression_state (f (ex_advance s)) = valid_expression_state (ex_advance s)"
  shows "\<exists>t. map_option (ex_consume k' m) (p (f (ex_advance s))) = Some t \<and>
    took (\<lambda>ks. \<exists>xs. ks = k # xs @ [k'] \<and> L xs) s t \<and> length (es_rest t) < length (es_rest s)"
proof -
  have va: "valid_expression_state (ex_advance s)" and sh: "length (es_rest (ex_advance s)) < length (es_rest s)"
    using valid_advance [OF s(1) k] advance_shorter [OF s(1) k] by simp_all
  then have "valid_expression_state (f (ex_advance s))" "length (es_rest (f (ex_advance s))) < n"
    using s(2) f(1,3) by auto
  then obtain t where t: "p (f (ex_advance s)) = Some t" "took L (f (ex_advance s)) t"
    using parsesD [OF p] by blast
  have "took L (ex_advance s) t"
    using t(2) f by (auto simp: took_def)
  then have t': "took (\<lambda>ks. \<exists>xs. ks = xs @ [k'] \<and> L xs) (ex_advance s) (ex_consume k' m t)"
    by (rule took_append [OF _ took_consume [OF took_valid [OF t(2)] k']]) simp
  have "took (\<lambda>ks. \<exists>xs. ks = k # xs @ [k'] \<and> L xs) s (ex_consume k' m t)"
    by (rule took_append [OF took_advance [OF s(1) k] t']) auto
  moreover have "length (es_rest (ex_consume k' m t)) < length (es_rest s)"
    using took_shorter [OF t'] sh by simp
  ultimately show ?thesis
    using t(1) by simp
qed

lemma name_rest_took:
  "valid_expression_state s \<Longrightarrow>
   took (\<lambda>ks. ks = [] \<or> (\<exists>xs. ks = TK_Dot # xs \<and> derives Qualified_name xs)) s (snd (qualified_name_rest n s))"
proof (induction n s rule: qualified_name_rest.induct)
  case (1 n s)
  show ?case
  proof (cases "ex_check TK_Dot s")
    case True
    let ?a = "ex_advance s" and ?k = "tok_kind (ex_peek (ex_advance s))"
    have va: "valid_expression_state ?a"
      using valid_advance [OF 1(2) True] by simp
    show ?thesis
    proof (cases "is_expression_identifier_token ?k")
      case id: True
      have k: "ex_check ?k ?a" "?k \<noteq> TK_EndOfFile"
        using id by (auto simp: check_iff is_expression_identifier_token_def)
      have vb: "valid_expression_state (ex_advance ?a)"
        using valid_advance [OF va k] by simp
      have IH: "took (\<lambda>ks. ks = [] \<or> (\<exists>xs. ks = TK_Dot # xs \<and> derives Qualified_name xs)) (ex_advance ?a)
          (snd (qualified_name_rest (n @ ''.'' @ tok_lexeme (ex_peek ?a)) (ex_advance ?a)))" (is "took _ _ ?u")
        using 1(1) [OF _ refl] True id vb 1(2) by simp
      have name: "took (derives Qualified_name) ?a ?u"
        by (rule took_append [OF took_advance [OF va k] IH]) (use id in \<open>auto intro: derives.intros\<close>)
      have "took (\<lambda>ks. ks = [] \<or> (\<exists>xs. ks = TK_Dot # xs \<and> derives Qualified_name xs)) s ?u"
        by (rule took_append [OF took_advance [OF 1(2) True] name]) auto
      then show ?thesis
        using True id 1(2) by (subst qualified_name_rest.simps) (simp add: Let_def)
    next
      case False
      have "took (\<lambda>ks. ks = [] \<or> (\<exists>xs. ks = TK_Dot # xs \<and> derives Qualified_name xs)) s (syntax_error m ?a)" for m
        by (rule took_append [OF took_advance [OF 1(2) True] took_error [OF va, of "\<lambda>_. False"]]) auto
      then show ?thesis
        using True False 1(2) by (subst qualified_name_rest.simps) (simp add: Let_def)
    qed
  next
    case False
    then show ?thesis
      using 1(2) by (subst qualified_name_rest.simps) (auto intro: took_refl)
  qed
qed

lemma qualified_name_took:
  assumes "valid_expression_state s" and "is_expression_identifier_token (tok_kind (ex_peek s))"
  shows "took (derives Qualified_name) s (snd (parse_qualified_name s)) \<and>
    length (es_rest (snd (parse_qualified_name s))) < length (es_rest s)"
proof -
  let ?k = "tok_kind (ex_peek s)"
  have k: "ex_check ?k s" "?k \<noteq> TK_EndOfFile"
    using assms(2) by (auto simp: check_iff is_expression_identifier_token_def)
  have va: "valid_expression_state (ex_advance s)"
    using valid_advance [OF assms(1) k] by simp
  show ?thesis
    unfolding parse_qualified_name_def
  proof
    show "took (derives Qualified_name) s (snd (qualified_name_rest (tok_lexeme (ex_peek s)) (ex_advance s)))"
      by (rule took_append [OF took_advance [OF assms(1) k] name_rest_took [OF va]])
        (use assms(2) in \<open>auto intro: derives.intros\<close>)
    show "length (es_rest (snd (qualified_name_rest (tok_lexeme (ex_peek s)) (ex_advance s)))) < length (es_rest s)"
      using took_shorter [OF name_rest_took [OF va]] advance_shorter [OF assms(1) k] by (meson le_less_trans)
  qed
qed

lemma selectors_parses:
  assumes e: "parses (derives Expression) e n"
  shows "parses (derives Selectors) (parse_selectors e) n"
proof -
  have "valid_expression_state s \<Longrightarrow> length (es_rest s) < n \<Longrightarrow> \<exists>t. parse_selectors e s = Some t \<and> took (derives Selectors) s t" for s
  proof (induction "length (es_rest s)" arbitrary: s rule: less_induct)
    case less
    note v = less.prems(1)
    consider (dot) "ex_check TK_Dot s" | (bracket) "\<not> ex_check TK_Dot s" "ex_check TK_LeftBracket s"
      | (none) "\<not> ex_check TK_Dot s" "\<not> ex_check TK_LeftBracket s"
      by blast
    then show ?case
    proof cases
      case dot
      let ?a = "ex_advance s" and ?k = "tok_kind (ex_peek (ex_advance s))"
      have va: "valid_expression_state ?a" and la: "length (es_rest ?a) < length (es_rest s)"
        using valid_advance [OF v dot] advance_shorter [OF v dot] by simp_all
      show ?thesis
      proof (cases "is_expression_identifier_token ?k")
        case id: True
        have k: "ex_check ?k ?a" "?k \<noteq> TK_EndOfFile"
          using id by (auto simp: check_iff is_expression_identifier_token_def)
        have vb: "valid_expression_state (ex_advance ?a)" "length (es_rest (ex_advance ?a)) < length (es_rest s)"
          using valid_advance [OF va k] advance_shorter [OF va k] la by auto
        then obtain u where u: "parse_selectors e (ex_advance ?a) = Some u" "took (derives Selectors) (ex_advance ?a) u"
          using less by (meson order.strict_trans)
        have ku: "took (\<lambda>ks. \<exists>ys. ks = ?k # ys \<and> derives Selectors ys) ?a u"
          by (rule took_append [OF took_advance [OF va k] u(2)]) simp
        have "took (derives Selectors) s u"
          by (rule took_append [OF took_advance [OF v dot] ku]) (use id in \<open>auto intro: derives.intros\<close>)
        then show ?thesis
          using u(1) dot id by (subst parse_selectors.simps) simp
      next
        case False
        have "took (derives Selectors) s (syntax_error m ?a)" for m
          by (rule took_append [OF took_advance [OF v dot] took_error [OF va, of "\<lambda>_. False"]]) auto
        then show ?thesis
          using dot False by (subst parse_selectors.simps) simp
      qed
    next
      case bracket
      obtain t where t: "map_option (ex_consume TK_RightBracket (''expected '' @ quoted '']'' @ '' after selector expression'')) (e (ex_advance s)) = Some t"
          "took (\<lambda>ks. \<exists>xs. ks = TK_LeftBracket # xs @ [TK_RightBracket] \<and> derives Expression xs) s t"
          "length (es_rest t) < length (es_rest s)"
        using bracketed [OF e v less_imp_le [OF less.prems(2)] bracket(2), of TK_RightBracket "\<lambda>s. s"
          "''expected '' @ quoted '']'' @ '' after selector expression''"] by auto
      then obtain u where u: "parse_selectors e t = Some u" "took (derives Selectors) t u"
        using less took_valid by (meson order.strict_trans)
      have "took (derives Selectors) s u"
        by (rule took_append [OF t(2) u(2)]) (auto intro: derives.intros)
      then show ?thesis
        using t(1) u(1) bracket by (subst parse_selectors.simps) auto
    next
      case none
      then show ?thesis
        using v by (subst parse_selectors.simps) (auto intro: took_refl derives.intros)
    qed
  qed
  then show ?thesis
    by (simp add: parses_def)
qed

lemma call_parses:
  assumes e: "parses (derives Expression) e n" and s: "valid_expression_state s" "length (es_rest s) \<le> n"
  shows "\<exists>t. parse_call e name s = Some t \<and>
    took (\<lambda>ks. ks = [] \<or> (\<exists>xs. ks = TK_LeftParen # xs @ [TK_RightParen] \<and> (xs = [] \<or> derives Items xs))) s t \<and>
    length (es_rest t) \<le> length (es_rest s)"
proof (cases "ex_check TK_LeftParen s")
  case True
  then show ?thesis
    using bracketed [OF items_parses [OF e, where close = TK_RightParen] s True, of TK_RightParen "validate_builtin_call name"
        "''expected '' @ quoted '')'' @ '' after function arguments''"]
    by (auto simp: parse_call_def elim!: took_weaken)
qed (use s in \<open>auto simp: parse_call_def intro: took_refl\<close>)

lemma primary_parses:
  assumes e: "parses (derives Expression) e n" and s: "valid_expression_state s" "length (es_rest s) \<le> n"
  shows "\<exists>t. parse_primary e s = Some t \<and> took (derives Primary) s t"
proof -
  let ?k = "tok_kind (ex_peek s)"
  consider (literal) "ex_check_any expression_literals s"
    | (paren) "\<not> ex_check_any expression_literals s" "ex_check TK_LeftParen s"
    | (bracket) "\<not> ex_check_any expression_literals s" "\<not> ex_check TK_LeftParen s" "ex_check TK_LeftBracket s"
    | (name) "\<not> ex_check_any expression_literals s" "\<not> ex_check TK_LeftParen s" "\<not> ex_check TK_LeftBracket s"
        "is_expression_identifier_token ?k"
    | (none) "\<not> ex_check_any expression_literals s" "\<not> ex_check TK_LeftParen s" "\<not> ex_check TK_LeftBracket s"
        "\<not> is_expression_identifier_token ?k"
    by blast
  then show ?thesis
  proof cases
    case literal
    then have k: "ex_check ?k s" "?k \<noteq> TK_EndOfFile" "?k \<in> set expression_literals"
      by (auto simp: ex_check_any_iff check_iff expression_literals_def)
    have "took (derives Primary) s (ex_advance s)"
      by (rule took_weaken [OF took_advance [OF s(1) k(1,2)]]) (use k(3) in \<open>auto simp: expression_literals_def intro: derives.literal\<close>)
    then show ?thesis
      using literal by (simp add: parse_primary_def)
  next
    case paren
    then show ?thesis
      using bracketed [OF e s paren(2), of TK_RightParen "\<lambda>s. s" "''expected '' @ quoted '')'' @ '' after expression''"]
      by (auto simp: parse_primary_def intro: derives.parentheses elim!: took_weaken)
  next
    case bracket
    then show ?thesis
      using bracketed [OF items_parses [OF e, where close = TK_RightBracket] s bracket(3), of TK_RightBracket "\<lambda>s. s"
          "''expected '' @ quoted '']'' @ '' after list expression''"]
      by (auto simp: parse_primary_def derives.list derives.empty_list elim!: took_weaken)
  next
    case name
    let ?q = "snd (parse_qualified_name s)"
    have q: "took (derives Qualified_name) s ?q" "length (es_rest ?q) < length (es_rest s)"
      using qualified_name_took [OF s(1) name(4)] by simp_all
    obtain t where t: "parse_call e (fst (parse_qualified_name s)) ?q = Some t"
        "took (\<lambda>ks. ks = [] \<or> (\<exists>xs. ks = TK_LeftParen # xs @ [TK_RightParen] \<and> (xs = [] \<or> derives Items xs))) ?q t"
        "length (es_rest t) \<le> length (es_rest ?q)"
      using call_parses [OF e took_valid [OF q(1)]] q(2) s(2) by (meson less_imp_le less_le_trans)
    obtain u where u: "parse_selectors e t = Some u" "took (derives Selectors) t u"
      using parsesD [OF selectors_parses [OF e] took_valid [OF t(2)]] t(3) q(2) s(2) by force
    note qt = took_append [OF q(1) t(2), where K = "\<lambda>ks. \<exists>xs ys. ks = xs @ ys \<and> derives Qualified_name xs \<and>
      (ys = [] \<or> (\<exists>zs. ys = TK_LeftParen # zs @ [TK_RightParen] \<and> (zs = [] \<or> derives Items zs)))"]
    have "took (derives Primary) s u"
      by (rule took_append [OF qt u(2)]) (auto intro: derives.path derives.call derives.empty_call)
    then show ?thesis
      using t(1) u(1) name by (simp add: parse_primary_def)
  next
    case none
    then show ?thesis
      using s(1) by (auto simp: parse_primary_def intro: took_error)
  qed
qed

lemma unary_parses:
  assumes e: "parses (derives Expression) e n"
  shows "parses (derives Unary) (parse_unary e) (Suc n)"
proof -
  have "valid_expression_state s \<Longrightarrow> length (es_rest s) \<le> n \<Longrightarrow> \<exists>t. parse_unary e s = Some t \<and> took (derives Unary) s t" for s
  proof (induction "length (es_rest s)" arbitrary: s rule: less_induct)
    case less
    note v = less.prems(1)
    let ?k = "tok_kind (ex_peek s)"
    show ?case
    proof (cases "ex_check_any [TK_Bang, TK_Minus] s")
      case True
      then have k: "ex_check ?k s" "?k \<noteq> TK_EndOfFile" "?k \<in> {TK_Bang, TK_Minus}"
        by (auto simp: ex_check_any_iff check_iff)
      have "valid_expression_state (ex_advance s)" "length (es_rest (ex_advance s)) < length (es_rest s)"
        using valid_advance [OF v k(1,2)] advance_shorter [OF v k(1,2)] by simp_all
      then obtain u where u: "parse_unary e (ex_advance s) = Some u" "took (derives Unary) (ex_advance s) u"
        using less by (meson less_le_trans less_imp_le)
      have "took (derives Unary) s u"
        by (rule took_append [OF took_advance [OF v k(1,2)] u(2)]) (use k(3) in \<open>auto intro: derives.prefix_operator\<close>)
      then show ?thesis
        using u(1) True by (subst parse_unary.simps) simp
    next
      case False
      then show ?thesis
        using primary_parses [OF e less.prems] by (subst parse_unary.simps) (auto intro: took_weaken derives.no_prefix)
    qed
  qed
  then show ?thesis
    by (simp add: parses_def less_Suc_eq_le)
qed

lemma logical_or_parses:
  assumes e: "parses (derives Expression) e n"
  shows "parses (derives Logical_or) (parse_logical_or e) (Suc n)"
proof -
  have "parses (derives Multiplicative) (parse_multiplicative e) (Suc n)"
    using chain_parses [of Multiplicative, simplified] unary_parses [OF e] by (simp add: parse_multiplicative_def multiplicative_operators_def binary_levels_def)
  then have "parses (derives Additive) (parse_additive e) (Suc n)"
    using chain_parses [of Additive, simplified] by (simp add: parse_additive_def additive_operators_def binary_levels_def)
  then have "parses (derives Comparison) (parse_comparison e) (Suc n)"
    using chain_parses [of Comparison, simplified] by (simp add: parse_comparison_def comparison_operators_def binary_levels_def)
  then have "parses (derives Equality) (parse_equality e) (Suc n)"
    using chain_parses [of Equality, simplified] by (simp add: parse_equality_def equality_operators_def binary_levels_def)
  then have "parses (derives Logical_and) (parse_logical_and e) (Suc n)"
    using chain_parses [of Logical_and, simplified] by (simp add: parse_logical_and_def binary_levels_def)
  then show ?thesis
    using chain_parses [of Logical_or, simplified] by (simp add: parse_logical_or_def binary_levels_def)
qed

lemma expression_parses: "parses (derives Expression) parse_expression n"
proof (induction n)
  case (Suc n)
  show ?case
    unfolding parses_def
  proof (intro allI impI)
    fix s assume "valid_expression_state s" "length (es_rest s) < Suc n"
    from parsesD [OF logical_or_parses [OF Suc] this]
    show "\<exists>t. parse_expression s = Some t \<and> took (derives Expression) s t"
      by (subst parse_expression.simps) (auto intro: took_weaken derives.expression)
  qed
qed (simp add: parses_def)

lemma parse_expression_took:
  "valid_expression_state s \<Longrightarrow> \<exists>t. parse_expression s = Some t \<and> took (derives Expression) s t"
  using expression_parses [of "Suc (length (es_rest s))"] by (simp add: parses_def)

lemma validate_syntax_took:
  assumes "valid_expression_state s"
  shows "\<exists>t. validate_syntax s = Some t \<and> valid_expression_state t \<and>
    (\<not> es_failed t \<longrightarrow> (\<exists>ks. kinds (es_rest s) = ks @ [TK_EndOfFile] \<and> derives Expression ks))"
proof (cases "ex_check TK_EndOfFile s")
  case False
  obtain t where t: "parse_expression s = Some t" "took (derives Expression) s t"
    using parse_expression_took [OF assms] by blast
  have v: "valid_expression_state t"
    using t(2) by (rule took_valid)
  show ?thesis
  proof (cases "\<not> es_failed t \<and> \<not> ex_check TK_EndOfFile t")
    case True
    then show ?thesis
      using t(1) False v by (auto simp: validate_syntax_def)
  next
    case end_: False
    have "\<exists>ks. kinds (es_rest s) = ks @ [TK_EndOfFile] \<and> derives Expression ks" if nf: "\<not> es_failed t"
    proof -
      obtain cs where cs: "es_rest s = cs @ es_rest t" "derives Expression (kinds cs)"
        using t(2) nf by (auto simp: took_def)
      obtain us u where us: "es_rest t = us @ [u]" "tok_kind u = TK_EndOfFile" "TK_EndOfFile \<notin> tok_kind ` set us"
        using v by (auto simp: valid_expression_state_def)
      have "us = []"
        using end_ nf us by (cases us) (auto simp: ex_check_def ex_peek_def)
      then show ?thesis
        using cs us by simp
    qed
    then show ?thesis
      using t(1) False v end_ by (auto simp: validate_syntax_def)
  qed
qed (use assms in \<open>simp add: validate_syntax_def\<close>)

lemma validate_syntax_returns: "valid_expression_state s \<Longrightarrow> validate_syntax s \<noteq> None"
  using validate_syntax_took [of s] by auto

section \<open>Every expression is accepted\<close>

text \<open>The kinds a phrase must not be followed by: the function would go on with them.\<close>

definition selector_start :: "token_kind set" where
  "selector_start = {TK_Dot, TK_LeftBracket, TK_LeftParen}"

fun extends :: "category \<Rightarrow> token_kind set" where
  "extends Multiplicative = set multiplicative_operators \<union> selector_start"
| "extends Additive = set (additive_operators @ multiplicative_operators) \<union> selector_start"
| "extends Comparison = set (comparison_operators @ additive_operators @ multiplicative_operators) \<union> selector_start"
| "extends Equality = set (equality_operators @ comparison_operators @ additive_operators @ multiplicative_operators) \<union>
    selector_start"
| "extends Logical_and = set (TK_AndAnd # equality_operators @ comparison_operators @ additive_operators @
    multiplicative_operators) \<union> selector_start"
| "extends Logical_or = set (TK_OrOr # TK_AndAnd # equality_operators @ comparison_operators @ additive_operators @
    multiplicative_operators) \<union> selector_start"
| "extends Expression = set (TK_OrOr # TK_AndAnd # equality_operators @ comparison_operators @ additive_operators @
    multiplicative_operators) \<union> selector_start"
| "extends Items = set (TK_Comma # TK_OrOr # TK_AndAnd # equality_operators @ comparison_operators @ additive_operators @
    multiplicative_operators) \<union> selector_start"
| "extends _ = selector_start"

fun reader :: "category \<Rightarrow> expression_state \<Rightarrow> expression_state option" where
  "reader Expression = parse_expression"
| "reader Logical_or = parse_logical_or parse_expression"
| "reader Logical_and = parse_logical_and parse_expression"
| "reader Equality = parse_equality parse_expression"
| "reader Comparison = parse_comparison parse_expression"
| "reader Additive = parse_additive parse_expression"
| "reader Multiplicative = parse_multiplicative parse_expression"
| "reader Unary = parse_unary parse_expression"
| "reader Primary = parse_primary parse_expression"
| "reader Selectors = parse_selectors parse_expression"
| "reader Items = (\<lambda>s. Option.bind (parse_expression s) (repeat_while (ex_check TK_Comma) (\<lambda>s. parse_expression (ex_advance s))))"
| "reader Qualified_name = (\<lambda>s. Some (snd (parse_qualified_name s)))"

lemmas operator_defs = multiplicative_operators_def additive_operators_def comparison_operators_def
  equality_operators_def selector_start_def

text \<open>The check has not failed and the tokens ahead are of these kinds.\<close>

definition ahead :: "token_kind list \<Rightarrow> expression_state \<Rightarrow> bool" where
  "ahead ks s \<longleftrightarrow> \<not> es_failed s \<and> kinds (es_rest s) = ks"

definition reads :: "(expression_state \<Rightarrow> expression_state option) \<Rightarrow> token_kind list \<Rightarrow> token_kind set \<Rightarrow> bool" where
  "reads p ts F \<longleftrightarrow> (\<forall>s k ks. ahead (ts @ k # ks) s \<longrightarrow> k \<notin> F \<longrightarrow> (\<exists>t. p s = Some t \<and> ahead (k # ks) t))"

lemma readsD: "reads p ts F \<Longrightarrow> ahead (ts @ k # ks) s \<Longrightarrow> k \<notin> F \<Longrightarrow> \<exists>t. p s = Some t \<and> ahead (k # ks) t"
  by (simp add: reads_def)

lemma readsI:
  "(\<And>s k ks. ahead (ts @ k # ks) s \<Longrightarrow> k \<notin> F \<Longrightarrow> \<exists>t. p s = Some t \<and> ahead (k # ks) t) \<Longrightarrow> reads p ts F"
  by (simp add: reads_def)

lemma ahead_peek: "ahead (k # ks) s \<Longrightarrow> tok_kind (ex_peek s) = k \<and> es_rest s \<noteq> []"
  by (auto simp: ahead_def ex_peek_def)

lemma ahead_check: "ahead (k # ks) s \<Longrightarrow> ex_check k' s \<longleftrightarrow> k' = k"
  by (auto simp: check_iff dest: ahead_peek)

lemma ahead_check_any: "ahead (k # ks) s \<Longrightarrow> ex_check_any ls s \<longleftrightarrow> k \<in> set ls"
  by (auto simp: ex_check_any_iff dest: ahead_peek)

lemma ahead_advance: "ahead (k # ks) s \<Longrightarrow> k \<noteq> TK_EndOfFile \<Longrightarrow> ahead ks (ex_advance s)"
  by (auto simp: ahead_def ex_advance_rest)

lemma ahead_consume: "ahead (k # ks) s \<Longrightarrow> k \<noteq> TK_EndOfFile \<Longrightarrow> ahead ks (ex_consume k m s)"
  by (simp add: ex_consume_def ahead_check ahead_advance)

lemma ahead_builtin_call [simp]: "ahead ks (validate_builtin_call n s) = ahead ks s"
  by (simp add: ahead_def)

text \<open>How a phrase starts.\<close>

definition starts :: "token_kind set" where
  "starts = set expression_literals \<union> {TK_LeftParen, TK_LeftBracket, TK_Bang, TK_Minus} \<union>
     Collect is_expression_identifier_token"

lemma derives_starts: "derives N ts \<Longrightarrow> N \<noteq> Selectors \<Longrightarrow> ts \<noteq> [] \<and> hd ts \<in> starts"
proof (induction rule: derives.induct)
  case (operand N ts)
  then show ?case
    by (cases N) (auto simp: binary_levels_def)
next
  case (operator N xs k ys)
  then show ?case
    by (cases N) (auto simp: binary_levels_def)
qed (auto simp: starts_def expression_literals_def)

lemma starts_exclude: "k \<in> starts \<Longrightarrow> k \<notin> {TK_RightParen, TK_RightBracket, TK_Comma, TK_Dot, TK_EndOfFile}"
  by (auto simp: starts_def expression_literals_def is_expression_identifier_token_def)

lemma identifier_exclude:
  "is_expression_identifier_token k \<Longrightarrow> k \<notin> set expression_literals \<union> {TK_LeftParen, TK_LeftBracket, TK_EndOfFile, TK_Bang, TK_Minus}"
  by (auto simp: expression_literals_def is_expression_identifier_token_def)

lemma closing_not_extends:
  "k \<in> {TK_RightParen, TK_RightBracket, TK_EndOfFile} \<Longrightarrow> k \<notin> extends N" "TK_Comma \<notin> extends Expression"
  by (cases N; auto simp: operator_defs) (auto simp: operator_defs)

lemma operand_extends: "N \<in> binary_levels \<Longrightarrow> extends N = set (operators N) \<union> extends (operand N)"
  by (auto simp: binary_levels_def operator_defs)

lemma operators_not_extend: "N \<in> binary_levels \<Longrightarrow> k \<in> set (operators N) \<Longrightarrow> k \<notin> extends (operand N)"
  by (auto simp: binary_levels_def operator_defs)

lemma reader_chain: "N \<in> binary_levels \<Longrightarrow> reader N = operator_chain (operators N) (reader (operand N))"
  by (auto simp: binary_levels_def parse_multiplicative_def parse_additive_def parse_comparison_def parse_equality_def
      parse_logical_and_def parse_logical_or_def operator_defs fun_eq_iff)

text \<open>The name of a path takes the selectors with a dot, so the two are read together.\<close>

definition after_name :: "string \<Rightarrow> expression_state \<Rightarrow> expression_state option" where
  "after_name n s = Option.bind (parse_call parse_expression (fst (qualified_name_rest n s)) (snd (qualified_name_rest n s)))
     (parse_selectors parse_expression)"

fun complete :: "category \<Rightarrow> token_kind list \<Rightarrow> bool" where
  "complete Qualified_name ts \<longleftrightarrow> (\<forall>s n ks. ahead (ts @ ks) s \<longrightarrow>
     (\<exists>m t. qualified_name_rest (n @ tok_lexeme (ex_peek s)) (ex_advance s) = qualified_name_rest m t \<and> ahead ks t))"
| "complete Selectors ts \<longleftrightarrow> reads (parse_selectors parse_expression) ts selector_start \<and>
     (\<forall>n. reads (after_name n) ts selector_start)"
| "complete N ts \<longleftrightarrow> reads (reader N) ts (extends N)"

lemma complete_reads: "N \<noteq> Qualified_name \<Longrightarrow> complete N ts \<Longrightarrow> reads (reader N) ts (extends N)"
  by (cases N) auto

lemma reads_complete: "N \<notin> {Qualified_name, Selectors} \<Longrightarrow> reads (reader N) ts (extends N) \<Longrightarrow> complete N ts"
  by (cases N) auto

lemma binary_neq: "N \<in> binary_levels \<Longrightarrow> N \<notin> {Qualified_name, Selectors} \<and> operand N \<noteq> Qualified_name"
  by (auto simp: binary_levels_def)

lemma name_rest_stops: "ahead (k # ks) s \<Longrightarrow> k \<noteq> TK_Dot \<Longrightarrow> qualified_name_rest n s = (n, s)"
  by (subst qualified_name_rest.simps) (simp add: ahead_check)

lemma name_rest_goes_on:
  assumes "ahead (TK_Dot # k # ks) s" and "is_expression_identifier_token k"
  shows "qualified_name_rest n s =
      qualified_name_rest (n @ ''.'' @ tok_lexeme (ex_peek (ex_advance s))) (ex_advance (ex_advance s)) \<and>
    ahead ks (ex_advance (ex_advance s))"
proof -
  have a: "ahead (k # ks) (ex_advance s)"
    using ahead_advance [OF assms(1)] by simp
  then show ?thesis
    using assms identifier_exclude [OF assms(2)] ahead_peek [OF assms(1)] ahead_peek [OF a] ahead_advance [OF a]
    by (subst qualified_name_rest.simps) (simp add: ahead_check Let_def)
qed

lemma reads_operand:
  assumes N: "N \<in> binary_levels" and r: "reads (reader (operand N)) ts (extends (operand N))"
  shows "reads (reader N) ts (extends N)"
proof (rule readsI)
  fix s k ks assume a: "ahead (ts @ k # ks) s" and k: "k \<notin> extends N"
  then obtain t where "reader (operand N) s = Some t" "ahead (k # ks) t"
    using readsD [OF r a] operand_extends [OF N] by auto
  then show "\<exists>t. reader N s = Some t \<and> ahead (k # ks) t"
    using k operand_extends [OF N] by (subst reader_chain [OF N], subst chain_unfold) (simp add: ahead_check_any)
qed

lemma reads_operator:
  assumes N: "N \<in> binary_levels" and x: "reads (reader (operand N)) xs (extends (operand N))"
    and k: "k \<in> set (operators N)" and y: "reads (reader N) ys (extends N)"
  shows "reads (reader N) (xs @ k # ys) (extends N)"
proof (rule readsI)
  fix s j ks assume a: "ahead ((xs @ k # ys) @ j # ks) s" and j: "j \<notin> extends N"
  obtain t where t: "reader (operand N) s = Some t" "ahead (k # ys @ j # ks) t"
    using readsD [OF x, of k "ys @ j # ks"] a operators_not_extend [OF N k] by auto
  have "ahead (ys @ j # ks) (ex_advance t)"
    using ahead_advance [OF t(2)] operators_not_end [OF k] by simp
  from readsD [OF y this j] obtain u where "reader N (ex_advance t) = Some u" "ahead (j # ks) u"
    by blast
  then show "\<exists>t. reader N s = Some t \<and> ahead (j # ks) t"
    using t k unfolding reader_chain [OF N] by (subst chain_unfold) (simp add: ahead_check_any)
qed

lemma reads_prefix:
  assumes "k \<in> {TK_Bang, TK_Minus}" and "reads (parse_unary parse_expression) ts selector_start"
  shows "reads (parse_unary parse_expression) (k # ts) selector_start"
proof (rule readsI)
  fix s j ks assume a: "ahead ((k # ts) @ j # ks) s" and j: "j \<notin> selector_start"
  then have "ahead (ts @ j # ks) (ex_advance s)"
    using assms(1) by (auto intro: ahead_advance)
  from readsD [OF assms(2) this j] show "\<exists>t. parse_unary parse_expression s = Some t \<and> ahead (j # ks) t"
    using a assms(1) by (subst parse_unary.simps) (auto simp: ahead_check_any)
qed

lemma starts_cons:
  assumes "derives N ts" and "N \<noteq> Selectors"
  obtains k ks where "ts = k # ks" "k \<in> starts"
  using derives_starts [OF assms] by (cases ts) auto

lemma reads_no_prefix:
  assumes "derives Primary ts" and "reads (parse_primary parse_expression) ts selector_start"
    and "hd ts \<notin> {TK_Bang, TK_Minus}"
  shows "reads (parse_unary parse_expression) ts selector_start"
proof (rule readsI)
  fix s j ks assume a: "ahead (ts @ j # ks) s" and j: "j \<notin> selector_start"
  obtain l ls where l: "ts = l # ls"
    using assms(1) by (rule starts_cons) auto
  from readsD [OF assms(2) a j] show "\<exists>t. parse_unary parse_expression s = Some t \<and> ahead (j # ks) t"
    using a assms(3) l by (subst parse_unary.simps) (auto simp: ahead_check_any)
qed

lemma name_start: "derives Qualified_name xs \<Longrightarrow> \<exists>k ks. xs = k # ks \<and> is_expression_identifier_token k"
  by (erule derives.cases) (auto simp: binary_levels_def)

lemma primary_start: "derives Primary ts \<Longrightarrow> hd ts \<notin> {TK_Bang, TK_Minus}"
proof (erule derives.cases, goal_cases)
  case (6 k)
  then show ?case
    by (auto simp: expression_literals_def)
qed (auto simp: binary_levels_def is_expression_identifier_token_def dest!: name_start)

lemma bracketed_reads:
  assumes "ahead (k # ts @ k' # ks) s" and "k \<noteq> TK_EndOfFile" "k' \<noteq> TK_EndOfFile"
    and "\<And>s. ahead (ts @ k' # ks) s \<Longrightarrow> \<exists>t. p s = Some t \<and> ahead (k' # ks) t"
    and "\<And>s. ahead (ts @ k' # ks) (f s) = ahead (ts @ k' # ks) s"
  shows "\<exists>t. map_option (ex_consume k' m) (p (f (ex_advance s))) = Some t \<and> ahead ks t"
proof -
  obtain t where "p (f (ex_advance s)) = Some t" "ahead (k' # ks) t"
    using assms(4) [of "f (ex_advance s)"] assms(5) ahead_advance [OF assms(1,2)] by blast
  then show ?thesis
    using ahead_consume assms(3) by auto
qed

lemma items_read:
  assumes "derives Items ts" and "reads (reader Items) ts (extends Items)" and "k \<in> {TK_RightParen, TK_RightBracket}"
    and a: "ahead (ts @ k # ks) s"
  shows "\<exists>t. expression_items parse_expression k s = Some t \<and> ahead (k # ks) t"
proof -
  obtain l ls where l: "ts = l # ls" "l \<in> starts"
    using assms(1) by (rule starts_cons) auto
  have "k \<notin> extends Items"
    using closing_not_extends(1) assms(3) by blast
  from readsD [OF assms(2) a this] show ?thesis
    using l a starts_exclude [OF l(2)] assms(3) by (auto simp: expression_items_def ahead_check)
qed

lemma no_items_read: "ahead (k # ks) s \<Longrightarrow> \<exists>t. expression_items parse_expression k s = Some t \<and> ahead (k # ks) t"
  by (simp add: expression_items_def ahead_check)

lemma reads_call:
  assumes items: "\<And>s ks. ahead (ts @ TK_RightParen # ks) s \<Longrightarrow>
      \<exists>t. expression_items parse_expression TK_RightParen s = Some t \<and> ahead (TK_RightParen # ks) t"
    and y: "reads (parse_selectors parse_expression) ys selector_start"
  shows "reads (after_name n) (TK_LeftParen # ts @ TK_RightParen # ys) selector_start"
proof (rule readsI)
  fix s k ks assume a: "ahead ((TK_LeftParen # ts @ TK_RightParen # ys) @ k # ks) s" and k: "k \<notin> selector_start"
  then have a': "ahead (TK_LeftParen # ts @ TK_RightParen # ys @ k # ks) s"
    by simp
  have "\<exists>t. parse_call parse_expression n s = Some t \<and> ahead (ys @ k # ks) t"
    using bracketed_reads [OF a' _ _ items, where f = "validate_builtin_call n"
        and m = "''expected '' @ quoted '')'' @ '' after function arguments''"]
      a' by (simp add: parse_call_def ahead_check)
  then obtain t where t: "parse_call parse_expression n s = Some t" "ahead (ys @ k # ks) t"
    by blast
  from readsD [OF y t(2) k] show "\<exists>t. after_name n s = Some t \<and> ahead (k # ks) t"
    using t(1) name_rest_stops [OF a'] by (simp add: after_name_def)
qed

lemma reads_path:
  assumes x: "derives Qualified_name xs" "complete Qualified_name xs" and y: "\<And>n. reads (after_name n) ys selector_start"
  shows "reads (parse_primary parse_expression) (xs @ ys) selector_start"
proof (rule readsI)
  fix s k ks assume a: "ahead ((xs @ ys) @ k # ks) s" and k: "k \<notin> selector_start"
  obtain l ls where l: "xs = l # ls" "is_expression_identifier_token l"
    using name_start [OF x(1)] by blast
  obtain m t where t: "qualified_name_rest (tok_lexeme (ex_peek s)) (ex_advance s) = qualified_name_rest m t" "ahead (ys @ k # ks) t"
    using x(2) [unfolded complete.simps, rule_format, of "ys @ k # ks" s "[]"] a by auto
  have "parse_primary parse_expression s = after_name m t"
    using a l identifier_exclude [OF l(2)] ahead_peek [of l _ s] t(1)
    by (auto simp: parse_primary_def ahead_check ahead_check_any after_name_def parse_qualified_name_def)
  with readsD [OF y t(2) k] show "\<exists>t. parse_primary parse_expression s = Some t \<and> ahead (k # ks) t"
    by simp
qed

lemma reads_parentheses:
  assumes "reads parse_expression ts (extends Expression)"
  shows "reads (parse_primary parse_expression) (TK_LeftParen # ts @ [TK_RightParen]) selector_start"
proof (rule readsI)
  fix s k ks assume "ahead ((TK_LeftParen # ts @ [TK_RightParen]) @ k # ks) s"
  then have a: "ahead (TK_LeftParen # ts @ TK_RightParen # k # ks) s"
    by simp
  have "\<exists>t. map_option (ex_consume TK_RightParen m) (parse_expression (ex_advance s)) = Some t \<and> ahead (k # ks) t" for m
    using bracketed_reads [OF a, where p = parse_expression and f = "\<lambda>s. s" and m = m] readsD [OF assms] closing_not_extends(1) by blast
  then show "\<exists>t. parse_primary parse_expression s = Some t \<and> ahead (k # ks) t"
    using a by (simp add: parse_primary_def ahead_check ahead_check_any expression_literals_def)
qed

lemma reads_list:
  assumes "\<And>s ks. ahead (ts @ TK_RightBracket # ks) s \<Longrightarrow>
      \<exists>t. expression_items parse_expression TK_RightBracket s = Some t \<and> ahead (TK_RightBracket # ks) t"
  shows "reads (parse_primary parse_expression) (TK_LeftBracket # ts @ [TK_RightBracket]) selector_start"
proof (rule readsI)
  fix s k ks assume "ahead ((TK_LeftBracket # ts @ [TK_RightBracket]) @ k # ks) s"
  then have a: "ahead (TK_LeftBracket # ts @ TK_RightBracket # k # ks) s"
    by simp
  have "\<exists>t. map_option (ex_consume TK_RightBracket m) (expression_items parse_expression TK_RightBracket (ex_advance s)) =
      Some t \<and> ahead (k # ks) t" for m
    using bracketed_reads [OF a, where p = "expression_items parse_expression TK_RightBracket" and f = "\<lambda>s. s" and m = m]
      assms by blast
  then show "\<exists>t. parse_primary parse_expression s = Some t \<and> ahead (k # ks) t"
    using a by (simp add: parse_primary_def ahead_check ahead_check_any expression_literals_def)
qed

lemma after_name_selectors:
  "ahead (k # ks) s \<Longrightarrow> k \<notin> {TK_Dot, TK_LeftParen} \<Longrightarrow> after_name n s = parse_selectors parse_expression s"
  using name_rest_stops [of k ks s] by (auto simp: after_name_def parse_call_def ahead_check)

lemma no_selectors_complete: "complete Selectors []"
proof -
  have r: "reads (parse_selectors parse_expression) [] selector_start"
    by (rule readsI, subst parse_selectors.simps) (auto simp: ahead_check selector_start_def)
  moreover have "reads (after_name n) [] selector_start" for n
  proof (rule readsI)
    fix s k ks assume a: "ahead ([] @ k # ks) s" and k: "k \<notin> selector_start"
    then have "after_name n s = parse_selectors parse_expression s"
      using after_name_selectors [of k ks s] by (simp add: selector_start_def)
    with readsD [OF r a k] show "\<exists>t. after_name n s = Some t \<and> ahead (k # ks) t"
      by simp
  qed
  ultimately show ?thesis
    by simp
qed

lemma field_selector_complete:
  assumes k: "is_expression_identifier_token k" and ys: "complete Selectors ys"
  shows "complete Selectors (TK_Dot # k # ys)"
proof -
  have "\<exists>t. parse_selectors parse_expression s = Some t \<and> ahead (j # ks) t" and
      "\<exists>t. after_name n s = Some t \<and> ahead (j # ks) t"
    if a: "ahead ((TK_Dot # k # ys) @ j # ks) s" and j: "j \<notin> selector_start" for n s j ks
  proof -
    have a1: "ahead (k # ys @ j # ks) (ex_advance s)"
      using ahead_advance a by simp
    have a2: "ahead (ys @ j # ks) (ex_advance (ex_advance s))"
      using ahead_advance [OF a1] identifier_exclude [OF k] by simp
    show "\<exists>t. parse_selectors parse_expression s = Some t \<and> ahead (j # ks) t"
      using readsD [OF _ a2 j, of "parse_selectors parse_expression"] ys a ahead_peek [OF a1] k
      by (subst parse_selectors.simps) (simp add: ahead_check)
    have "after_name n s = after_name (n @ ''.'' @ tok_lexeme (ex_peek (ex_advance s))) (ex_advance (ex_advance s))"
      using name_rest_goes_on [of k _ s n] a k by (simp add: after_name_def)
    then show "\<exists>t. after_name n s = Some t \<and> ahead (j # ks) t"
      using readsD [OF _ a2 j] ys by simp
  qed
  then show ?thesis
    by (simp add: reads_def)
qed

lemma index_selector_complete:
  assumes ts: "reads parse_expression ts (extends Expression)" and ys: "complete Selectors ys"
  shows "complete Selectors (TK_LeftBracket # ts @ TK_RightBracket # ys)"
proof -
  have "(\<exists>t. parse_selectors parse_expression s = Some t \<and> ahead (j # ks) t) \<and>
      (\<exists>t. after_name n s = Some t \<and> ahead (j # ks) t)"
    if a': "ahead ((TK_LeftBracket # ts @ TK_RightBracket # ys) @ j # ks) s" and j: "j \<notin> selector_start" for n s j ks
  proof -
    have a: "ahead (TK_LeftBracket # ts @ TK_RightBracket # ys @ j # ks) s"
      using a' by simp
    have "\<exists>t. map_option (ex_consume TK_RightBracket m) (parse_expression (ex_advance s)) = Some t \<and> ahead (ys @ j # ks) t" for m
      using bracketed_reads [OF a, where p = parse_expression and f = "\<lambda>s. s" and m = m] readsD [OF ts]
        closing_not_extends(1) by blast
    then obtain t where t: "map_option (ex_consume TK_RightBracket (''expected '' @ quoted '']'' @ '' after selector expression''))
        (parse_expression (ex_advance s)) = Some t" "ahead (ys @ j # ks) t"
      by blast
    have "\<exists>t. parse_selectors parse_expression s = Some t \<and> ahead (j # ks) t"
      using readsD [OF _ t(2) j, of "parse_selectors parse_expression"] ys a t(1)
      by (subst parse_selectors.simps) (auto simp: ahead_check)
    then show ?thesis
      using after_name_selectors [OF a] by simp
  qed
  then show ?thesis
    by (simp add: reads_def)
qed

lemma name_complete: "is_expression_identifier_token k \<Longrightarrow> complete Qualified_name [k]"
  using ahead_advance identifier_exclude by (fastforce simp: append_Cons)

lemma qualified_name_complete:
  assumes k: "is_expression_identifier_token k" and x: "derives Qualified_name xs" and xs: "complete Qualified_name xs"
  shows "complete Qualified_name (k # TK_Dot # xs)"
  unfolding complete.simps
proof (intro allI impI)
  fix s n ks assume a: "ahead ((k # TK_Dot # xs) @ ks) s"
  obtain l ls where l: "xs = l # ls" "is_expression_identifier_token l"
    using name_start [OF x] by blast
  have a1: "ahead (TK_Dot # l # ls @ ks) (ex_advance s)"
    using a l ahead_advance identifier_exclude [OF k] by simp
  let ?s = "ex_advance (ex_advance s)" and ?n = "n @ tok_lexeme (ex_peek s)"
  have a2: "ahead (xs @ ks) ?s"
    using ahead_advance [OF a1] l by simp
  have "qualified_name_rest ?n (ex_advance s) = qualified_name_rest ((?n @ ''.'') @ tok_lexeme (ex_peek ?s)) (ex_advance ?s)"
    using name_rest_goes_on [OF a1 l(2)] by simp
  then show "\<exists>m t. qualified_name_rest ?n (ex_advance s) = qualified_name_rest m t \<and> ahead ks t"
    using xs [unfolded complete.simps, rule_format, OF a2, of "?n @ ''.''"] by simp
qed

lemma reads_last_item:
  assumes "reads parse_expression ts (extends Expression)"
  shows "reads (reader Items) ts (extends Items)"
proof (rule readsI)
  fix s k ks assume a: "ahead (ts @ k # ks) s" and k: "k \<notin> extends Items"
  then obtain t where "parse_expression s = Some t" "ahead (k # ks) t"
    using readsD [OF assms a] by auto
  then show "\<exists>t. reader Items s = Some t \<and> ahead (k # ks) t"
    using k unfolding reader.simps by (subst items_loop_unfold) (auto simp: ahead_check)
qed

lemma reads_more_items:
  assumes x: "reads parse_expression xs (extends Expression)" and y: "reads (reader Items) ys (extends Items)"
  shows "reads (reader Items) (xs @ TK_Comma # ys) (extends Items)"
proof (rule readsI)
  fix s j ks assume a: "ahead ((xs @ TK_Comma # ys) @ j # ks) s" and j: "j \<notin> extends Items"
  obtain t where t: "parse_expression s = Some t" "ahead (TK_Comma # ys @ j # ks) t"
    using readsD [OF x, of TK_Comma "ys @ j # ks"] a closing_not_extends(2) by auto
  have "ahead (ys @ j # ks) (ex_advance t)"
    using ahead_advance [OF t(2)] by simp
  from readsD [OF y this j] show "\<exists>t. reader Items s = Some t \<and> ahead (j # ks) t"
    using t unfolding reader.simps by (subst items_loop_unfold) (simp add: ahead_check)
qed

lemma reads_expression:
  assumes "reads (parse_logical_or parse_expression) ts (extends Logical_or)"
  shows "reads parse_expression ts (extends Expression)"
  using assms unfolding reads_def extends.simps by (subst parse_expression.simps) simp

lemma derives_complete: "derives N ts \<Longrightarrow> complete N ts"
proof (induction rule: derives.induct)
  case (expression ts)
  then show ?case using reads_expression by simp
next
  case (operand N ts)
  then show ?case
    using reads_operand complete_reads reads_complete binary_neq by blast
next
  case (operator N xs k ys)
  then show ?case
    using reads_operator [of N xs k ys] complete_reads reads_complete binary_neq by blast
next
  case (prefix_operator k ts)
  then show ?case using reads_prefix by simp
next
  case (no_prefix ts)
  then show ?case using reads_no_prefix primary_start by simp
next
  case (literal k)
  have "reads (parse_primary parse_expression) [k] selector_start"
  proof (rule readsI)
    fix s j ks assume a: "ahead ([k] @ j # ks) s"
    then show "\<exists>t. parse_primary parse_expression s = Some t \<and> ahead (j # ks) t"
      using literal ahead_advance [of k "j # ks" s]
      by (auto simp: parse_primary_def ahead_check_any expression_literals_def)
  qed
  then show ?case by simp
next
  case (parentheses ts)
  then show ?case using reads_parentheses by simp
next
  case empty_list
  then show ?case using reads_list [OF no_items_read, of "[]"] no_items_read by simp
next
  case (list ts)
  then show ?case using reads_list [OF items_read [OF list.hyps]] by simp
next
  case (path xs ys)
  then show ?case using reads_path by simp
next
  case (empty_call xs ys)
  then have "reads (after_name n) (TK_LeftParen # [] @ TK_RightParen # ys) selector_start" for n
    by (intro reads_call) (simp_all add: no_items_read)
  then show ?case using reads_path [OF empty_call.hyps(1)] empty_call.IH(1) by simp
next
  case (call xs ts ys)
  have "reads (after_name n) (TK_LeftParen # ts @ TK_RightParen # ys) selector_start" for n
    by (rule reads_call) (use call items_read [OF call.hyps(2)] in \<open>simp_all\<close>)
  then show ?case using reads_path [OF call.hyps(1)] call.IH(1) by simp
next
  case (name k)
  then show ?case by (rule name_complete)
next
  case (qualified_name k xs)
  then show ?case by (intro qualified_name_complete)
next
  case no_selectors
  then show ?case by (rule no_selectors_complete)
next
  case (field_selector k ys)
  then show ?case by (intro field_selector_complete)
next
  case (index_selector ts ys)
  then show ?case by (intro index_selector_complete) simp_all
next
  case (item ts)
  then show ?case using reads_last_item by simp
next
  case (items xs ys)
  then show ?case using reads_more_items by simp
qed

lemma validate_syntax_complete:
  assumes "derives Expression ts" and a: "ahead (ts @ [TK_EndOfFile]) s"
  shows "\<exists>t. validate_syntax s = Some t \<and> \<not> es_failed t"
proof -
  have "reads parse_expression ts (extends Expression)"
    using derives_complete [OF assms(1)] by simp
  moreover have "TK_EndOfFile \<notin> extends Expression"
    using closing_not_extends(1) by blast
  ultimately obtain t where t: "parse_expression s = Some t" "ahead [TK_EndOfFile] t"
    using readsD a by fastforce
  obtain l ls where l: "ts = l # ls" "l \<in> starts"
    using assms(1) by (rule starts_cons) auto
  have "\<not> ex_check TK_EndOfFile s"
    using a l starts_exclude [OF l(2)] by (auto simp: ahead_check)
  then show ?thesis
    using t by (auto simp: validate_syntax_def ahead_check) (simp add: ahead_def)
qed

section \<open>Expressions in a specification\<close>

lemma munch_number_kind: "munch_number cs = (k, w) \<Longrightarrow> k \<noteq> TK_EndOfFile"
  by (auto simp: munch_number_def Let_def split: list.splits if_splits)

lemma word_kind_not_end: "word_kind w \<noteq> TK_EndOfFile"
  by (auto simp: word_kind_def keyword_kind_def split: option.splits)

lemma single_token_kinds: "(c, TK_EndOfFile) \<notin> set single_tokens"
  by (simp add: single_tokens_def)

lemma munch_kind: "munch c cs = Lexeme k w f \<Longrightarrow> k \<noteq> TK_EndOfFile"
  using single_token_kinds munch_number_kind word_kind_not_end
  by (auto simp: munch_def munch_either_def munch_pair_def Let_def dest!: map_of_SomeD
      split: option.splits if_splits list.splits prod.splits)

lemma lexemes_kinds: "TK_EndOfFile \<notin> fst ` set (lexemes (items cs))"
proof (induction cs rule: items.induct)
  case (2 c cs)
  have "first_item c cs = Lexeme k w f \<Longrightarrow> k \<noteq> TK_EndOfFile" for k w f
    using munch_kind [OF munch_not_blank(1)] .
  then show ?case
    using 2 by (cases "first_item c cs") auto
qed simp

lemma lexed_valid: "valid_expression_state (new_expression_state r (fst (lex source ds)))"
proof -
  have "tok_kind ` set (item_tokens l is) = fst ` set (lexemes is)" for l "is"
    by (simp add: item_tokens_lexemes [of l, symmetric] image_image)
  then show ?thesis
    using lexemes_kinds by (simp add: lex_items valid_expression_state_def new_expression_state_def)
qed

lemma syntax_reports_none: "(\<And>d. d \<in> set ds \<Longrightarrow> dg_code d \<noteq> ''SSPEC5201'') \<Longrightarrow> syntax_reports ds = 0"
  by (auto simp: syntax_reports_def)

lemma syntax_reports_flags: "syntax_reports (validate_feature_flag_expression sys r e) = 0"
  by (rule syntax_reports_none)
    (auto simp: validate_feature_flag_expression_def error_at_def unknown_reference_error_def add_error_def
      split: option.splits if_splits)

lemma syntax_diagnostics_reports:
  assumes "kinds ts = ks @ [TK_EndOfFile]" and v: "valid_expression_state (new_expression_state r ts)"
  shows "syntax_reports (syntax_diagnostics r ts) = (if derives Expression ks then 0 else 1)"
proof -
  let ?s = "new_expression_state r ts"
  obtain t where t: "validate_syntax ?s = Some t" "valid_expression_state t"
      "\<not> es_failed t \<longrightarrow> (\<exists>ks. kinds (es_rest ?s) = ks @ [TK_EndOfFile] \<and> derives Expression ks)"
    using validate_syntax_took [OF v] by blast
  have a: "ahead (ks @ [TK_EndOfFile]) ?s"
    using assms(1) by (simp add: ahead_def new_expression_state_def)
  then have "es_failed t \<longleftrightarrow> \<not> derives Expression ks"
    using validate_syntax_complete [OF _ a] t by (auto simp: ahead_def)
  then show ?thesis
    using t(1,2) by (simp add: syntax_diagnostics_def valid_expression_state_def)
qed

text \<open>The text of an expression, as the validator gives it to the lexer.\<close>

abbreviation expression_source :: "string \<Rightarrow> source_file" where
  "expression_source e \<equiv> \<lparr>sf_path = ''<expression>'', sf_text = e\<rparr>"

lemma lexed_kinds: "\<exists>ks. kinds (fst (lex source ds)) = ks @ [TK_EndOfFile]"
  by (simp add: lex_items)

lemma validate_expression_reports:
  assumes "kinds (fst (lex (expression_source e) [])) = ks @ [TK_EndOfFile]"
  shows "syntax_reports (validate_expression sys r e) =
    (if \<not> has_errors (snd (lex (expression_source e) [])) \<and> derives Expression ks then 0 else 1)"
proof (cases "has_errors (snd (lex (expression_source e) []))")
  case False
  have "validate_expression sys r e = syntax_diagnostics r (fst (lex (expression_source e) [])) @
      validate_feature_flag_expression sys r e"
    using False by (simp add: validate_expression_def case_prod_beta)
  then show ?thesis
    using syntax_diagnostics_reports [OF assms lexed_valid] False by (simp add: syntax_reports_flags)
qed (simp add: validate_expression_def case_prod_beta)

text \<open>C27: The recursive descent that checks expressions returns on every text, reports the syntax error
  at most once, and does not report it exactly if the lexer accepts the text and the kinds of its
  tokens form an expression of the grammar, with the precedences and the brackets it prescribes.\<close>

theorem expression_check_equivalence:
  "validate_syntax (new_expression_state r (fst (lex (expression_source e) []))) \<noteq> None \<and>
   syntax_reports (validate_expression sys r e) \<le> 1 \<and>
   (syntax_reports (validate_expression sys r e) = 0 \<longleftrightarrow>
      \<not> has_errors (snd (lex (expression_source e) [])) \<and>
      (\<exists>ks. map tok_kind (fst (lex (expression_source e) [])) = ks @ [TK_EndOfFile] \<and> derives Expression ks))"
proof -
  obtain ks where ks: "kinds (fst (lex (expression_source e) [])) = ks @ [TK_EndOfFile]"
    using lexed_kinds by blast
  show ?thesis
    using validate_syntax_returns [OF lexed_valid] validate_expression_reports [OF ks, of sys r] ks by auto
qed

text \<open>The lexer takes the minus sign before a digit as a part of the number, so a difference written
  without a blank behind the sign is no expression.\<close>

lemma derives_primary:
  assumes "derives Primary ts"
  shows "derives Expression ts"
proof -
  note up = derives.operand [of _ ts]
  have "derives Unary ts"
    using assms by (rule derives.no_prefix)
  then have "derives Additive ts"
    using up [of Multiplicative] up [of Additive] by (simp add: binary_levels_def)
  then have "derives Equality ts"
    using up [of Comparison] up [of Equality] by (simp add: binary_levels_def)
  then have "derives Logical_or ts"
    using up [of Logical_and] up [of Logical_or] by (simp add: binary_levels_def)
  then show ?thesis
    by (rule derives.expression)
qed

lemma derives_name: "is_expression_identifier_token k \<Longrightarrow> derives Expression [k]"
  using derives.path [OF derives.name derives.no_selectors] by (intro derives_primary) simp

lemma not_an_expression:
  assumes k: "is_expression_identifier_token k" and l: "l \<notin> extends Expression" "l \<noteq> TK_EndOfFile"
    and ks: "map tok_kind ts = k # l # ks @ [TK_EndOfFile]" and v: "valid_expression_state (new_expression_state r ts)"
  shows "\<not> derives Expression (k # l # ks)"
proof
  assume "derives Expression (k # l # ks)"
  then have "syntax_reports (syntax_diagnostics r ts) = 0"
    using syntax_diagnostics_reports [of ts "k # l # ks" r] ks v by simp
  have a: "ahead ([k] @ l # ks @ [TK_EndOfFile]) (new_expression_state r ts)"
    using ks by (simp add: ahead_def new_expression_state_def)
  have "reads parse_expression [k] (extends Expression)"
    using derives_complete [OF derives_name [OF k]] by simp
  from readsD [OF this a l(1)] obtain t where
    t: "parse_expression (new_expression_state r ts) = Some t" "ahead (l # ks @ [TK_EndOfFile]) t"
    by blast
  have "\<not> ex_check TK_EndOfFile (new_expression_state r ts)" "\<not> ex_check TK_EndOfFile t" "\<not> es_failed t"
    using ahead_check a t(2) l(2) identifier_exclude [OF k] by (auto simp: ahead_def ahead_check)
  then have "es_failed (the (validate_syntax (new_expression_state r ts)))"
    using t(1) by (simp add: validate_syntax_def)
  moreover have "valid_expression_state (the (validate_syntax (new_expression_state r ts)))"
    using validate_syntax_took [OF v] by auto
  ultimately show False
    using \<open>syntax_reports (syntax_diagnostics r ts) = 0\<close> by (simp add: syntax_diagnostics_def valid_expression_state_def)
qed

lemma difference_kinds:
  "lexemes (items ''a -1'') = [(TK_Identifier, ''a''), (TK_IntegerLiteral, ''-1'')]"
  "lexemes (items ''a - 1'') = [(TK_Identifier, ''a''), (TK_Minus, ''-''), (TK_IntegerLiteral, ''1'')]"
  by code_simp+

lemma lex_kinds: "map tok_kind (fst (lex source ds)) = map fst (lexemes (items (sf_text source))) @ [TK_EndOfFile]"
  by (simp add: lex_items item_tokens_lexemes [of start_location, symmetric])

lemma difference_without_blank_rejected: "syntax_reports (validate_expression sys r ''a -1'') = 1"
proof -
  have ks: "kinds (fst (lex (expression_source ''a -1'') [])) = [TK_Identifier, TK_IntegerLiteral] @ [TK_EndOfFile]"
    unfolding lex_kinds source_file.simps difference_kinds by simp
  have "\<not> derives Expression [TK_Identifier, TK_IntegerLiteral]"
    using not_an_expression [OF _ _ _ _ lexed_valid, of TK_Identifier TK_IntegerLiteral "expression_source ''a -1''" "[]" "[]"] ks
    by (simp add: is_expression_identifier_token_def operator_defs)
  then show ?thesis
    using validate_expression_reports [OF ks] by simp
qed

end
