(* ===== verification/Validator_Props.thy ===== *)
theory Validator_Props
  imports Validator Validator_Grammar
begin

text \<open>
  What an accepted specification is: a declarative description of the state machines, the workflow
  statements, the leases and the declarations that the validator reports no error for.
\<close>

section \<open>Accepted specifications\<close>

text \<open>The validator returns and no error is among what it reports; warnings may be.\<close>

definition accepted :: "(string list \<Rightarrow> string list) \<Rightarrow> Spec \<Rightarrow> bool" where
  "accepted order spec \<longleftrightarrow> (\<exists>ds. validate order spec [] = Inr ds \<and> clean ds)"

text \<open>An iteration order of a set of names: a list with the same elements.\<close>

definition iteration_order :: "(string list \<Rightarrow> string list) \<Rightarrow> bool" where
  "iteration_order order \<longleftrightarrow> (\<forall>xs. set (order xs) = set xs)"

abbreviation symbols_of :: "SystemDecl \<Rightarrow> symbol_table" where
  "symbols_of sys \<equiv> fst (build_symbol_table sys)"

lemma accepted_passes:
  assumes "accepted order spec"
  shows "\<exists>sys leases. sp_system spec = Some sys \<and> validate_leases sys = Inr leases \<and> clean leases \<and>
    clean (snd (build_symbol_table sys)) \<and> clean (validate_entities order sys (symbols_of sys)) \<and>
    clean (validate_workflows sys (symbols_of sys)) \<and> clean (validate_queues sys (symbols_of sys)) \<and>
    clean (validate_apis sys (symbols_of sys)) \<and> clean (validate_system_tenancy sys) \<and>
    clean (validate_runtime_domain_dependencies sys (symbols_of sys))"
proof (cases "sp_system spec")
  case (Some sys)
  then show ?thesis
    using assms by (cases "validate_leases sys") (auto simp: accepted_def validate_def case_prod_beta andThen_def)
qed (use assms in \<open>simp add: accepted_def validate_def\<close>)

section \<open>Declarations\<close>

text \<open>C32: A lookup in the symbol table gives the first declaration of the name, in the order of the
  passes, and nothing for a name that is not declared; the pass that builds the table reports no
  error exactly if all declared names are different.\<close>

theorem symbol_table_exact:
  "symbol_table_find (symbols_of sys) name = find (\<lambda>y. sb_name y = name) (declared_symbols sys) \<and>
   (clean (snd (build_symbol_table sys)) \<longleftrightarrow> distinct (map sb_name (declared_symbols sys)))"
proof -
  have "map_of (map (\<lambda>y. (sb_name y, y)) ys) name = find (\<lambda>y. sb_name y = name) ys" for ys
    by (induction ys) auto
  then show ?thesis
    by (simp add: symbol_table_find_def build_symbol_table_table build_symbol_table_clean)
qed

lemma found_symbol: "symbols_of sys name = Some y \<Longrightarrow> y \<in> set (declared_symbols sys) \<and> sb_name y = name"
  using map_of_SomeD [of "map (\<lambda>y. (sb_name y, y)) (declared_symbols sys)" name y]
  by (auto simp: build_symbol_table_table)

text \<open>A symbol of a kind comes from a declaration of that kind.\<close>

lemma declared_kinds:
  assumes "y \<in> set (declared_symbols sys)"
  shows "(sb_kind y = SK_Event \<longrightarrow> sb_name y \<in> ev_name ` set (sy_events sys)) \<and>
    (sb_kind y = SK_Log \<longrightarrow> sb_name y \<in> lg_name ` set (sy_logs sys)) \<and>
    (sb_kind y = SK_Message \<longrightarrow> (\<exists>q \<in> set (sy_queues sys). sb_name y \<in> queue_message_name q ` set (qu_messages q))) \<and>
    (sb_kind y = SK_Lease \<longrightarrow> sb_name y \<in> ls_name ` set (sy_leases sys)) \<and>
    (sb_kind y = SK_Workflow \<longrightarrow> sb_name y \<in> wf_name ` set (sy_workflows sys)) \<and>
    (sb_kind y = SK_Entity \<longrightarrow> sb_name y \<in> et_name ` set (sy_entities sys))"
  using assms by (auto simp: declared_symbols_def intro!: bexI)

section \<open>State machines\<close>

definition terminal_names :: "StateMachineDecl \<Rightarrow> string set" where
  "terminal_names m = {sd_name s |s. s \<in> set (sm_states m) \<and> sd_terminal s}"

definition complete_policy :: "GarbageCollectionPolicyDecl \<Rightarrow> bool" where
  "complete_policy p \<longleftrightarrow>
     (\<exists>a. gc_after p = Some a \<and> is_duration_literal a) \<and> (\<exists>k. gc_mode p = Some k \<and> is_garbage_collection_mode k)"

definition wf_state :: "StateDecl \<Rightarrow> bool" where
  "wf_state s \<longleftrightarrow> sd_duplicate_garbage_collection_range s = None \<and>
     (if sd_terminal s then \<exists>p. sd_garbage_collection s = Some p \<and> complete_policy p else sd_garbage_collection s = None)"

definition wf_state_machine :: "StateMachineDecl \<Rightarrow> bool" where
  "wf_state_machine m \<longleftrightarrow>
     distinct (map sd_name (sm_states m)) \<and>
     (\<exists>i \<in> set (state_names m). sm_initial_state m = Some i) \<and>
     set (sm_terminal_states m) = terminal_names m \<and>
     (\<forall>s \<in> set (sm_states m). wf_state s) \<and>
     (\<forall>t \<in> set (sm_transitions m). td_from t \<in> set (state_names m) - terminal_names m \<and> td_to t \<in> set (state_names m))"

lemma policy_clean [clean_simps]: "clean (validate_gc_policy n p) \<longleftrightarrow> complete_policy p"
  by (auto simp: validate_gc_policy_def complete_policy_def split: option.splits)

lemma inline_terminal [simp]: "set (inline_terminal_states m) = terminal_names m"
  by (auto simp: inline_terminal_states_def terminal_names_def)

lemma declared_terminal [simp]: "set (declared_terminal_states m) = set (state_names m) \<inter> set (sm_terminal_states m)"
  by (auto simp: declared_terminal_states_def)

lemma terminal_names_states: "terminal_names m \<subseteq> set (state_names m)"
  by (auto simp: terminal_names_def state_names_def)

lemma terminal_states_clean [clean_simps]:
  assumes "iteration_order order"
  shows "clean (validate_terminal_states order m) \<longleftrightarrow> set (sm_terminal_states m) = terminal_names m"
proof -
  have "set (order xs) = set xs" for xs
    using assms by (simp add: iteration_order_def)
  then have "clean (validate_terminal_states order m) \<longleftrightarrow>
      (\<forall>t \<in> set (sm_terminal_states m). t \<in> set (state_names m)) \<and>
      (\<forall>s \<in> set (sm_states m). sd_name s \<in> terminal_names m \<longrightarrow> sd_name s \<in> set (sm_terminal_states m)) \<and>
      (\<forall>t \<in> set (state_names m) \<inter> set (sm_terminal_states m). t \<in> terminal_names m)"
    by (auto simp: validate_terminal_states_def state_names_def)
  also have "(\<forall>s \<in> set (sm_states m). sd_name s \<in> terminal_names m \<longrightarrow> sd_name s \<in> set (sm_terminal_states m)) \<longleftrightarrow>
      terminal_names m \<subseteq> set (sm_terminal_states m)"
    by (auto simp: terminal_names_def)
  finally show ?thesis
    using terminal_names_states [of m] by blast
qed

lemma initial_state_clean [clean_simps]:
  "clean (validate_initial_state e m) \<longleftrightarrow> (\<exists>i \<in> set (state_names m). sm_initial_state m = Some i)"
  by (auto simp: validate_initial_state_def state_names_def split: option.splits)

text \<open>When the two ways to mark a terminal state agree, terminal is what the state itself says.\<close>

lemma terminal_state:
  assumes "distinct (map sd_name (sm_states m))" and "set (sm_terminal_states m) = terminal_names m" and "s \<in> set (sm_states m)"
  shows "is_terminal_state m s \<longleftrightarrow> sd_terminal s"
proof -
  have "sd_name s \<in> terminal_names m \<longleftrightarrow> sd_terminal s"
    using assms(1,3) by (auto simp: terminal_names_def distinct_map dest: inj_onD)
  then show ?thesis
    using assms(2,3) by (auto simp: is_terminal_state_def)
qed

lemma state_gc_clean:
  "clean (validate_state_gc m s) \<longleftrightarrow> (if is_terminal_state m s then \<exists>p. sd_garbage_collection s = Some p \<and> complete_policy p
     else sd_garbage_collection s = None)"
  by (auto simp: validate_state_gc_def clean_simps split: option.splits)

lemma garbage_collected:
  assumes "distinct (map sd_name (sm_states m))" and "set (sm_terminal_states m) = terminal_names m"
    and "\<forall>s \<in> set (sm_states m). clean (validate_state_gc m s)"
  shows "set (garbage_collected_states m) = terminal_names m"
proof -
  have "sd_garbage_collection s \<noteq> None \<and> is_terminal_state m s \<longleftrightarrow> sd_terminal s" if "s \<in> set (sm_states m)" for s
    using bspec [OF assms(3) that] terminal_state [OF assms(1,2) that] by (auto simp: state_gc_clean split: if_splits)
  then show ?thesis
    by (auto simp: garbage_collected_states_def terminal_names_def)
qed

lemma state_machine_clean:
  assumes "iteration_order order"
  shows "clean (validate_state_machine order e) \<longleftrightarrow> (\<exists>m. et_state_machine e = Some m \<and> wf_state_machine m)"
proof (cases "et_state_machine e")
  case (Some m)
  let ?basic = "distinct (map sd_name (sm_states m)) \<and> set (sm_terminal_states m) = terminal_names m"
  let ?gc = "\<forall>s \<in> set (sm_states m). clean (validate_state_gc m s)"
  have dups: "clean (each (\<lambda>s. given (sd_duplicate_garbage_collection_range s) (\<lambda>r.
      error_at r ''SSPEC3001'' (''duplicate declaration '' @ quoted ''garbage_collection''))) (sm_states m)) \<longleftrightarrow>
      (\<forall>s \<in> set (sm_states m). sd_duplicate_garbage_collection_range s = None)"
    by (auto split: option.splits)
  have gc: "?gc \<longleftrightarrow> (\<forall>s \<in> set (sm_states m). if sd_terminal s then \<exists>p. sd_garbage_collection s = Some p \<and> complete_policy p
      else sd_garbage_collection s = None)" if ?basic
    using terminal_state [of m] that by (simp add: state_gc_clean)
  have trans: "clean (each (validate_transition m) (sm_transitions m)) \<longleftrightarrow>
      (\<forall>t \<in> set (sm_transitions m). td_from t \<in> set (state_names m) - terminal_names m \<and> td_to t \<in> set (state_names m))"
    if ?basic ?gc
    using garbage_collected [of m] that by (auto simp: validate_transition_def)
  have "clean (validate_state_machine order e) \<longleftrightarrow> ?basic \<and> (\<exists>i \<in> set (state_names m). sm_initial_state m = Some i) \<and> ?gc \<and>
      (\<forall>s \<in> set (sm_states m). sd_duplicate_garbage_collection_range s = None) \<and>
      clean (each (validate_transition m) (sm_transitions m))"
    unfolding validate_state_machine_def Some option.case clean_basic(2) dups
    by (auto simp: clean_simps terminal_states_clean [OF assms])
  also have "\<dots> \<longleftrightarrow> wf_state_machine m"
    unfolding wf_state_machine_def wf_state_def using gc trans by blast
  finally show ?thesis
    using Some by simp
qed (simp add: validate_state_machine_def)

text \<open>C28: The pass over a state machine reports no error exactly if the entity has one that is well
  formed: distinct states, an initial one among them, the terminal list and the terminal marks the
  same, each terminal state and no other with a complete garbage collection policy, and every
  transition from a state that is not terminal to a declared one; in whatever order the code
  iterates over its hash sets.\<close>

theorem accepted_state_machine_iff:
  assumes "iteration_order order"
  shows "clean (validate_state_machine order e) \<longleftrightarrow> (\<exists>m. et_state_machine e = Some m \<and> wf_state_machine m)"
  by (rule state_machine_clean [OF assms])

text \<open>The transitions of a state machine as a relation on state names.\<close>

definition moves_of :: "StateMachineDecl \<Rightarrow> (string \<times> string) set" where
  "moves_of m = {(td_from t, td_to t) |t. t \<in> set (sm_transitions m)}"

lemma wf_state_machine_stays:
  assumes "wf_state_machine m" and "(s, t) \<in> (moves_of m)\<^sup>*"
  shows "(s \<in> terminal_names m \<longrightarrow> t = s) \<and> (s \<in> set (state_names m) \<longrightarrow> t \<in> set (state_names m))"
  using assms(2)
proof (induction rule: converse_rtrancl_induct)
  case (step a b)
  then show ?case
    using assms(1) by (auto simp: wf_state_machine_def moves_of_def)
qed simp

lemma accepted_entity:
  assumes "accepted order spec" and "sp_system spec = Some sys" and "e \<in> set (sy_entities sys)"
  shows "clean (validate_entity order sys (symbols_of sys) e)"
  using accepted_passes [OF assms(1)] assms(2,3) by (auto simp: validate_entities_def)

text \<open>C29: In an accepted specification every entity has a state machine, and no run of its transitions
  leads out of a garbage-collected state or into an undeclared one: once a record is up for
  collection its status never changes again.\<close>

theorem accepted_terminal_states_final:
  assumes "iteration_order order" and "accepted order spec" and "sp_system spec = Some sys" and "e \<in> set (sy_entities sys)"
  shows "\<exists>m. et_state_machine e = Some m \<and>
    (\<forall>s \<in> set (sm_states m). \<forall>t. (sd_name s, t) \<in> (moves_of m)\<^sup>* \<longrightarrow>
       t \<in> set (state_names m) \<and> (sd_garbage_collection s \<noteq> None \<longrightarrow> t = sd_name s))"
proof -
  have "clean (validate_state_machine order e)"
    using accepted_entity [OF assms(2-4)] by (simp add: validate_entity_def)
  then obtain m where m: "et_state_machine e = Some m" "wf_state_machine m"
    using state_machine_clean [OF assms(1)] by blast
  then have "sd_name s \<in> terminal_names m" if "s \<in> set (sm_states m)" "sd_garbage_collection s \<noteq> None" for s
    using that by (auto simp: wf_state_machine_def wf_state_def terminal_names_def split: if_splits)
  then show ?thesis
    using m wf_state_machine_stays by (fastforce simp: state_names_def)
qed

section \<open>Entities\<close>

lemma required_field_clean:
  "clean (validate_required_entity_field e n t) \<longleftrightarrow> (\<exists>f. find_field (et_fields e) n = Some f \<and> fd_type f = t)"
  by (auto simp: validate_required_entity_field_def split: option.splits)

lemma find_field_first: "find_field (f # fs) n = (if fd_name f = n then Some f else find_field fs n)"
  by (simp add: find_field_def)

lemma found_field: "find_field fs n = Some f \<Longrightarrow> f \<in> set fs \<and> fd_name f = n"
  by (auto simp: find_field_def find_Some_iff)

lemma three_names:
  assumes "f \<in> set fs" "g \<in> set fs" "h \<in> set fs" and "distinct [fd_name f, fd_name g, fd_name h]"
  shows "\<exists>a b c ds. fs = a # b # c # ds"
proof -
  have "3 \<le> length fs"
    using card_mono [of "fd_name ` set fs" "{fd_name f, fd_name g, fd_name h}"] assms card_image_le [of "set fs" fd_name]
      card_length [of fs] by (auto simp: card_insert_if)
  then show ?thesis
    by (metis Suc_le_length_iff numeral_3_eq_3)
qed

lemma management_clean:
  assumes "clean (validate_entity_management_fields e)"
  shows "\<exists>a b c fs. et_fields e = a # b # c # fs \<and> map (\<lambda>f. (fd_name f, fd_type f)) [a, b, c] =
    [(''created_at'', ''timestamp''), (''updated_at'', ''timestamp''), (''status'', ''string'')]"
proof -
  obtain f g h where find: "find_field (et_fields e) ''created_at'' = Some f" "fd_type f = ''timestamp''"
      "find_field (et_fields e) ''updated_at'' = Some g" "fd_type g = ''timestamp''"
      "find_field (et_fields e) ''status'' = Some h" "fd_type h = ''string''"
    using assms by (auto simp: validate_entity_management_fields_def required_field_clean)
  obtain a b c fs where fs: "et_fields e = a # b # c # fs"
    using three_names [of f "et_fields e" g h] found_field [OF find(1)] found_field [OF find(3)] found_field [OF find(5)] by auto
  have "fd_name a = ''created_at''" "fd_name b = ''updated_at''" "fd_name c = ''status''"
    using assms fs by (auto simp: validate_entity_management_fields_def split: if_splits)
  then show ?thesis
    using find fs by (auto simp: find_field_first)
qed

text \<open>C31: In an accepted specification every entity begins with the fields created_at, updated_at and
  status of their types, its fields have different names and known types, its key is not empty, is
  made of its fields and includes the tenant field that the system declares.\<close>

theorem accepted_entity_fields:
  assumes "accepted order spec" and "sp_system spec = Some sys" and "e \<in> set (sy_entities sys)"
  shows "(\<exists>a b c fs. et_fields e = a # b # c # fs \<and> map (\<lambda>f. (fd_name f, fd_type f)) [a, b, c] =
      [(''created_at'', ''timestamp''), (''updated_at'', ''timestamp''), (''status'', ''string'')]) \<and>
    distinct (map fd_name (et_fields e)) \<and>
    (\<forall>f \<in> set (et_fields e). is_known_type_reference (fd_type f) (symbols_of sys)) \<and>
    set (et_key_fields e) \<subseteq> field_names (et_fields e) \<and>
    (\<exists>s. sy_tenant_scope sys = Some s \<and> ts_field_name s \<in> set (et_key_fields e))"
proof -
  have c: "clean (validate_entity order sys (symbols_of sys) e)" "clean (validate_system_tenancy sys)"
    using accepted_entity [OF assms] accepted_passes [OF assms(1)] assms(2) by auto
  obtain s where s: "sy_tenant_scope sys = Some s"
    using c(2) by (auto simp: validate_system_tenancy_def split: if_splits)
  have "clean (validate_entity_management_fields e)"
    using c(1) by (simp add: validate_entity_def)
  moreover have "distinct (map fd_name (et_fields e)) \<and> (\<forall>f \<in> set (et_fields e). is_known_type_reference (fd_type f) (symbols_of sys))"
    using c(1) by (simp add: validate_entity_def clean_simps)
  moreover have "set (et_key_fields e) \<subseteq> field_names (et_fields e)"
    using c(1) by (auto simp: validate_entity_def split: if_splits)
  moreover have "ts_field_name s \<in> set (et_key_fields e)"
    using c(1) s by (auto simp: validate_entity_def validate_entity_tenant_key_def split: if_splits)
  ultimately show ?thesis
    using management_clean s by blast
qed

section \<open>Workflow statements\<close>

text \<open>A statement and the statements in its blocks, at any depth.\<close>

fun nested_statements :: "WorkflowStatementDecl \<Rightarrow> WorkflowStatementDecl list" where
  "nested_statements (WorkflowStatementDecl k t e a f g b p xs r) =
     WorkflowStatementDecl k t e a f g b p xs r # concat (map nested_statements xs)"

text \<open>The targets that a statement of a kind may name in a system and a workflow of it.\<close>

definition targets :: "SystemDecl \<Rightarrow> WorkflowDecl \<Rightarrow> string \<Rightarrow> string set" where
  "targets sys w kind =
     (if kind = ''transition_to'' then wp_name ` set (wf_steps w)
      else if kind = ''emit'' then ev_name ` set (sy_events sys) \<union> lg_name ` set (sy_logs sys)
      else if kind = ''enqueue'' then (\<Union>q \<in> set (sy_queues sys). queue_message_name q ` set (qu_messages q))
      else if kind \<in> {''acquire_lease'', ''renew_lease'', ''release_lease''} then ls_name ` set (sy_leases sys)
      else if kind = ''start_workflow'' then wf_name ` set (sy_workflows sys)
      else if kind \<in> {''create_child'', ''observe_child''} then et_name ` set (sy_entities sys)
      else if kind \<in> {''reserve_child_set'', ''materialize_child_set'', ''reconcile_child_set''} then cs_name ` set (wf_child_sets w)
      else UNIV)"

lemma symbol_target:
  assumes "target_kinds k = Some (what, ks)" and "y \<in> set (declared_symbols sys)" and "sb_kind y \<in> set ks"
  shows "sb_name y \<in> targets sys w k"
proof -
  consider "k = ''emit''" | "k = ''enqueue''" | "k = ''acquire_lease''" | "k = ''renew_lease''" | "k = ''release_lease''"
    | "k = ''start_workflow''" | "k = ''create_child''" | "k = ''observe_child''"
    using assms(1) unfolding target_kinds_def by (metis option.distinct(1))
  then show ?thesis
    using declared_kinds [OF assms(2)] assms(1,3) by cases (auto simp: target_kinds_def targets_def)
qed

lemma other_target:
  assumes "target_kinds k = None" and "k = ''transition_to'' \<Longrightarrow> t \<in> wp_name ` set (wf_steps w)"
    and "k \<in> {''reserve_child_set'', ''materialize_child_set'', ''reconcile_child_set''} \<Longrightarrow> t \<in> cs_name ` set (wf_child_sets w)"
  shows "t \<in> targets sys w k"
proof -
  have k: "k \<notin> {''emit'', ''enqueue'', ''acquire_lease'', ''renew_lease'', ''release_lease'', ''start_workflow'', ''create_child'', ''observe_child''}"
    using assms(1) unfolding target_kinds_def by (metis insertE empty_iff option.distinct(1))
  then show ?thesis
  proof (cases "k \<in> {''reserve_child_set'', ''materialize_child_set'', ''reconcile_child_set''}")
    case True
    then consider "k = ''reserve_child_set''" | "k = ''materialize_child_set''" | "k = ''reconcile_child_set''"
      by blast
    then show ?thesis
      using assms(3) [OF True] by cases (simp_all add: targets_def)
  next
    case False
    then show ?thesis
      using k assms(2) unfolding targets_def by (cases "k = ''transition_to''") simp_all
  qed
qed

lemma target_clean:
  assumes "clean (validate_statement_target (symbols_of sys) (map wp_name (wf_steps w)) (map cs_name (wf_child_sets w)) x t)"
  shows "t \<in> targets sys w (ws_kind x)"
proof (cases "target_kinds (ws_kind x)")
  case None
  show ?thesis
  proof (rule other_target [OF None])
    show "t \<in> wp_name ` set (wf_steps w)" if "ws_kind x = ''transition_to''"
      using assms that None by (simp add: validate_statement_target_def split: if_splits)
    show "t \<in> cs_name ` set (wf_child_sets w)"
      if "ws_kind x \<in> {''reserve_child_set'', ''materialize_child_set'', ''reconcile_child_set''}"
    proof -
      have "workflow_statement_is_child_set_operation x"
        using that by (simp add: workflow_statement_is_child_set_operation_def)
      then show ?thesis
        using assms None by (simp add: validate_statement_target_def split: if_splits)
    qed
  qed
next
  case (Some v)
  obtain what ks where v: "v = (what, ks)"
    by (cases v)
  then obtain y where y: "symbols_of sys t = Some y" "sb_kind y \<in> set ks"
    using assms Some by (auto simp: validate_statement_target_def clean_simps)
  then show ?thesis
    using found_symbol [OF y(1)] symbol_target [of "ws_kind x" what ks y sys w] Some v by simp
qed

lemma nested_clean:
  "clean (validate_workflow_statement sys (symbols_of sys) (map wp_name (wf_steps w)) (map cs_name (wf_child_sets w)) x) \<Longrightarrow>
   y \<in> set (nested_statements x) \<Longrightarrow> ws_target y = Some t \<Longrightarrow> t \<in> targets sys w (ws_kind y)"
proof (induction x)
  case (WorkflowStatementDecl k u e a f g b p xs r)
  then show ?case
    using target_clean [of sys w "WorkflowStatementDecl k u e a f g b p xs r" t] by auto
qed

lemma accepted_workflow:
  assumes "accepted order spec" and "sp_system spec = Some sys" and "w \<in> set (sy_workflows sys)"
  shows "clean (validate_workflow sys (symbols_of sys) w)"
  using accepted_passes [OF assms(1)] assms(2,3) by (auto simp: validate_workflows_def)

lemma steps_distinct:
  "clean (each_named wp_name (validate_step w) [] ps) \<Longrightarrow> distinct (map wp_name ps)"
  using each_named_clean [where n = wp_name and f = "validate_step w" and g = "validate_step w True" and xs = ps]
  by (simp add: validate_step_def Let_def)

text \<open>C30: In an accepted specification the steps of every workflow have different names, its start step
  is one of them, and the target of every statement, however deep it is nested, is declared and of
  the kind the statement needs: a transition names a step of the same workflow, an enqueue a
  message of a queue, a lease operation a lease, a start a workflow, and so on.\<close>

theorem accepted_workflow_targets:
  assumes "accepted order spec" and "sp_system spec = Some sys" and "w \<in> set (sy_workflows sys)"
  shows "distinct (map wp_name (wf_steps w)) \<and>
    (\<exists>p \<in> set (wf_steps w). wf_start_step w = Some (wp_name p)) \<and>
    (\<forall>p \<in> set (wf_steps w). \<forall>x \<in> set (wp_statements p). \<forall>y \<in> set (nested_statements x).
       \<forall>t. ws_target y = Some t \<longrightarrow> t \<in> targets sys w (ws_kind y))"
proof (intro conjI ballI allI impI)
  note c = accepted_workflow [OF assms, unfolded validate_workflow_def Let_def]
  show "distinct (map wp_name (wf_steps w))"
    using c by (auto intro: steps_distinct)
  show "\<exists>p \<in> set (wf_steps w). wf_start_step w = Some (wp_name p)"
    using c by (auto simp: validate_workflow_header_def Let_def split: option.splits if_splits)
  fix p x y t assume "p \<in> set (wf_steps w)" "x \<in> set (wp_statements p)" "y \<in> set (nested_statements x)" "ws_target y = Some t"
  moreover from this(1,2) have "clean (validate_workflow_statement sys (symbols_of sys) (map wp_name (wf_steps w)) (map cs_name (wf_child_sets w)) x)"
    using c by auto
  ultimately show "t \<in> targets sys w (ws_kind y)"
    using nested_clean by blast
qed

section \<open>Runtime domains\<close>

text \<open>The dependencies between different domains that an accepted specification has.\<close>

definition domain_edges :: "SystemDecl \<Rightarrow> (RuntimeDomain \<times> RuntimeDomain) set" where
  "domain_edges sys = {(dp_from d, dp_to d) |d. d \<in> set (runtime_domain_dependencies sys (symbols_of sys)) \<and> dp_from d \<noteq> dp_to d}"

text \<open>Workflows are above the other domains, and the transactions of the backend below all.\<close>

fun domain_level :: "RuntimeDomain \<Rightarrow> nat" where
  "domain_level RD_Occ = 0"
| "domain_level RD_Workflows = 2"
| "domain_level _ = 1"

lemma allowed_level: "runtime_dependency_allowed a b \<Longrightarrow> a \<noteq> b \<Longrightarrow> a \<noteq> RD_Occ \<Longrightarrow> domain_level b < domain_level a"
  by (cases a; cases b) (auto simp: runtime_dependency_allowed_def)

lemma dependency_sources: "d \<in> set (runtime_domain_dependencies sys symbols) \<Longrightarrow> dp_from d \<noteq> RD_Occ"
  by (auto simp: runtime_domain_dependencies_def statement_dependencies_def symbol_dependency_def flag_dependency_def
      split: option.splits if_splits)

text \<open>The runtime domains of an accepted specification depend on each other without a cycle, so
  that they can be initialised one after the other.\<close>

theorem accepted_domains_acyclic:
  assumes "accepted order spec" and "sp_system spec = Some sys"
  shows "acyclic (domain_edges sys)"
proof -
  have "runtime_dependency_allowed (dp_from d) (dp_to d)" if "d \<in> set (runtime_domain_dependencies sys (symbols_of sys))" for d
    using accepted_passes [OF assms(1)] assms(2) that by (auto simp: validate_runtime_domain_dependencies_def split: if_splits)
  then have "domain_edges sys \<subseteq> (measure domain_level)\<inverse>"
    using allowed_level dependency_sources by (force simp: domain_edges_def)
  moreover have "acyclic ((measure domain_level)\<inverse>)"
    by (simp add: acyclic_converse wf_acyclic)
  ultimately show ?thesis
    by (rule acyclic_subset [rotated])
qed

section \<open>Durations and leases\<close>

lemma unit_seconds_bounds: "unit_seconds b ch = Some u \<Longrightarrow> 1 \<le> u \<and> u \<le> 86400"
  by (auto simp: unit_seconds_def split: if_splits)

lemma digit_value_bounds: "is_digit ch \<Longrightarrow> 0 \<le> digit_value ch \<and> digit_value ch \<le> 9"
proof -
  assume "is_digit ch"
  moreover have "(of_char ch :: int) = int (of_char ch)"
    by (rule of_nat_of_char [symmetric])
  ultimately show ?thesis
    unfolding is_digit_def digit_value_def by linarith
qed

lemma checked_Inr: "0 \<le> i \<Longrightarrow> i < 2 ^ 63 \<Longrightarrow> checked i = Inr i"
  by (simp add: checked_def in_range_64_def)

text \<open>Room for what the rest of the text can still add: a unit takes a character of its own.\<close>

definition room :: "int \<Rightarrow> int \<Rightarrow> nat \<Rightarrow> bool" where
  "room seconds current n \<longleftrightarrow> 0 \<le> seconds \<and> 0 \<le> current \<and> seconds < 2 ^ 63 \<and>
     (n = 0 \<or> seconds + (current + 1) * 10 ^ (n - 1) * 86400 \<le> 2 ^ 63)"

lemma room_digit:
  assumes "room s c (Suc n)" and "0 \<le> d" "d \<le> 9"
  shows "c * 10 + d < 2 ^ 63 \<and> room s (c * 10 + d) n"
proof -
  have p: "1 \<le> (10 :: int) ^ n" by simp
  have b: "s + (c + 1) * 10 ^ n * 86400 \<le> 2 ^ 63" "0 \<le> s" "0 \<le> c"
    using assms(1) by (simp_all add: room_def)
  have "c + 1 \<le> (c + 1) * 10 ^ n"
    using p b(3) mult_left_mono [of 1 "10 ^ n" "c + 1"] by simp
  then have lt: "c * 10 + d < 2 ^ 63"
    using b assms(2,3) by linarith
  have "s + (c * 10 + d + 1) * 10 ^ (n - 1) * 86400 \<le> 2 ^ 63" if "n \<noteq> 0"
  proof -
    have "(c * 10 + d + 1) * 10 ^ (n - 1) \<le> ((c + 1) * 10) * 10 ^ (n - 1)"
      using assms(3) by (intro mult_right_mono) auto
    also have "\<dots> = (c + 1) * 10 ^ n"
      using that by (cases n) auto
    finally show ?thesis
      using b(1) by linarith
  qed
  moreover have "s < 2 ^ 63"
    using assms(1) by (simp add: room_def)
  ultimately show ?thesis
    using b(2,3) lt assms(2) by (auto simp: room_def)
qed

lemma room_unit:
  assumes "room s c (Suc n)" and "1 \<le> u" "u \<le> 86400"
  shows "0 \<le> c * u \<and> c * u < 2 ^ 63 \<and> s + c * u < 2 ^ 63 \<and> room (s + c * u) 0 n"
proof -
  have p: "1 \<le> (10 :: int) ^ n" by simp
  have b: "s + (c + 1) * 10 ^ n * 86400 \<le> 2 ^ 63" "0 \<le> s" "0 \<le> c"
    using assms(1) by (simp_all add: room_def)
  have "c * u \<le> c * 86400"
    using b(3) assms(3) by (intro mult_left_mono) auto
  moreover have "0 \<le> c * u"
    using b(3) assms(2) by simp
  moreover have "c + 10 ^ n \<le> (c + 1) * 10 ^ n"
    using p b(3) mult_left_mono [of 1 "10 ^ n" c] by (simp add: algebra_simps)
  moreover have "(10 :: int) ^ (n - 1) \<le> 10 ^ n"
    by (rule power_increasing) auto
  ultimately have "0 \<le> c * u" "c * u < 2 ^ 63" "s + c * u < 2 ^ 63" "s + c * u + 10 ^ (n - 1) * 86400 \<le> 2 ^ 63" "0 \<le> s + c * u"
    using b p by linarith+
  then show ?thesis
    by (simp add: room_def)
qed

lemma duration_loop_in_range:
  "room s c (length cs) \<Longrightarrow> \<exists>v. duration_seconds_loop s c b cs = Inr v \<and> (\<forall>d. v = Some d \<longrightarrow> 0 \<le> d \<and> d < 2 ^ 63)"
proof (induction cs arbitrary: s c b)
  case Nil
  then show ?case by (simp add: room_def)
next
  case (Cons ch cs)
  have sc: "0 \<le> s" "0 \<le> c" using Cons.prems by (auto simp: room_def)
  show ?case
  proof (cases "is_digit ch")
    case True
    note d = digit_value_bounds [OF True] and r = room_digit [OF Cons.prems [simplified]]
    have "c * 10 < 2 ^ 63"
      using r [of 0] by simp
    then show ?thesis
      using True d r [of "digit_value ch"] Cons.IH sc by (simp add: checked_Inr andThen_def)
  next
    case False
    have t: "room s c (length cs)" if "ch = CHR ''T''"
    proof -
      have "(c + 1) * 10 ^ (length cs - 1) \<le> (c + 1) * 10 ^ length cs"
        using sc by (intro mult_left_mono power_increasing) auto
      moreover have "s + (c + 1) * 10 ^ length cs * 86400 \<le> 2 ^ 63" "s < 2 ^ 63"
        using Cons.prems by (simp_all add: room_def)
      ultimately have "s + (c + 1) * 10 ^ (length cs - 1) * 86400 \<le> 2 ^ 63"
        by linarith
      then show ?thesis
        using sc \<open>s < 2 ^ 63\<close> by (simp add: room_def)
    qed
    show ?thesis
    proof (cases "unit_seconds b ch")
      case None
      then show ?thesis using False t Cons.IH by simp
    next
      case (Some u)
      show ?thesis
        using False Some t sc room_unit [OF Cons.prems [simplified]] unit_seconds_bounds [OF Some] Cons.IH
        by (simp add: checked_Inr andThen_def)
    qed
  qed
qed

text \<open>Measuring a duration of at most 16 characters overflows no 64-bit integer, whatever its
  characters are, and a length in seconds that it gives is not negative.\<close>

theorem duration_in_range:
  assumes "length t \<le> 16"
  shows "\<exists>v. duration_seconds t = Inr v \<and> (\<forall>d. v = Some d \<longrightarrow> 0 \<le> d \<and> d < 2 ^ 63)"
proof -
  have "(10 :: int) ^ (length (tl t) - 1) \<le> 10 ^ 14"
    using assms by (intro power_increasing) auto
  then have "room 0 0 (length (tl t))"
    by (simp add: room_def)
  then show ?thesis
    using duration_loop_in_range [of 0 0 "tl t" False] by (auto simp: duration_seconds_def)
qed

lemma duration_in_range_witness:
  "\<exists>d. duration_seconds ''PT1H30M'' = Inr (Some d) \<and> 0 \<le> d \<and> d < 2 ^ 63"
proof -
  have "duration_seconds ''PT1H30M'' = Inr (Some 5400)"
    by code_simp
  then show ?thesis
    using duration_in_range [of "''PT1H30M''"] by simp
qed

text \<open>With 17 characters it can: the compiler then has undefined behaviour.\<close>

lemma duration_overflow: "duration_seconds ''P999999999999999D'' = Inl Undefined_Behaviour"
  by code_simp

text \<open>Hours outside the time part pass as a duration but have no length, so that the two comparisons of
  a lease are skipped for them.\<close>

lemma hours_without_time: "is_duration_literal ''P1H'' \<and> duration_seconds ''P1H'' = Inr None"
  by code_simp

lemma compare_clean:
  assumes "compare_durations a b bad ds = Inr r" and "clean r" and "has_errors ds"
    and "a = Some x" "b = Some y" "duration_seconds x = Inr (Some m)" "duration_seconds y = Inr (Some n)"
  shows "\<not> bad m n"
proof -
  have "is_duration_literal x" "is_duration_literal y"
    using assms(6,7) by (auto simp: duration_seconds_def split: if_splits)
  then show ?thesis
    using assms by (auto simp: compare_durations_def andThen_def split: if_splits)
qed

lemma each_result_clean:
  "each_result f xs = Inr ds \<Longrightarrow> clean ds \<Longrightarrow> x \<in> set xs \<Longrightarrow> \<exists>d. f x = Inr d \<and> clean d"
  by (induction xs arbitrary: ds) (auto simp: andThen_def split: sum.splits)

lemma lease_duration_clean:
  "clean (validate_lease_duration l n v) \<longleftrightarrow> (\<exists>t. v = Some t \<and> is_duration_literal t)"
  by (auto simp: validate_lease_duration_def split: option.splits)

text \<open>C33: In an accepted specification every lease has its three durations as duration literals, and
  where they have a length, the lease is renewed before it expires and expires no later than its
  maximum.\<close>

theorem accepted_lease_durations:
  assumes "accepted order spec" and "sp_system spec = Some sys" and "l \<in> set (sy_leases sys)"
  shows "\<exists>ttl renew maximum. ls_ttl l = Some ttl \<and> ls_renew_every l = Some renew \<and> ls_max_ttl l = Some maximum \<and>
    is_duration_literal ttl \<and> is_duration_literal renew \<and> is_duration_literal maximum \<and>
    (\<forall>a b. duration_seconds renew = Inr (Some a) \<and> duration_seconds ttl = Inr (Some b) \<longrightarrow> a < b) \<and>
    (\<forall>a b. duration_seconds ttl = Inr (Some a) \<and> duration_seconds maximum = Inr (Some b) \<longrightarrow> a \<le> b)"
proof -
  obtain leases where "validate_leases sys = Inr leases" "clean leases"
    using accepted_passes [OF assms(1)] assms(2) by auto
  then obtain d where d: "validate_lease l = Inr d" "clean d"
    using each_result_clean [OF _ _ assms(3), of validate_lease leases] unfolding validate_leases_def by auto
  obtain d1 d2 where
    c1: "compare_durations (ls_ttl l) (ls_renew_every l) (\<lambda>ttl renew_every. renew_every \<ge> ttl)
       (error_at (ls_range l) ''SSPEC3501'' (''lease '' @ quoted (ls_name l) @ '' renew_every must be less than ttl'')) = Inr d1" and
    c2: "compare_durations (ls_ttl l) (ls_max_ttl l) (\<lambda>ttl max_ttl. ttl > max_ttl)
       (error_at (ls_range l) ''SSPEC3502''
         (''lease '' @ quoted (ls_name l) @ '' ttl must be less than or equal to max_ttl'')) = Inr d2" and
    dd: "d = validate_lease_members l @ d1 @ d2"
    using d(1) unfolding validate_lease_def andThen_def by (auto split: sum.splits)
  have "clean d1" "clean d2" "clean (validate_lease_members l)"
    using d(2) dd by simp_all
  then obtain ttl renew maximum where v: "ls_ttl l = Some ttl" "ls_renew_every l = Some renew" "ls_max_ttl l = Some maximum"
      "is_duration_literal ttl" "is_duration_literal renew" "is_duration_literal maximum"
    by (auto simp: validate_lease_members_def Let_def lease_duration_clean)
  have "a < b" if "duration_seconds renew = Inr (Some a)" "duration_seconds ttl = Inr (Some b)" for a b
    using compare_clean [OF c1 \<open>clean d1\<close> _ v(1,2) that(2,1)] by simp
  moreover have "a \<le> b" if "duration_seconds ttl = Inr (Some a)" "duration_seconds maximum = Inr (Some b)" for a b
    using compare_clean [OF c2 \<open>clean d2\<close> _ v(1,3) that] by simp
  ultimately show ?thesis
    using v by blast
qed

section \<open>A specification that is accepted\<close>

text \<open>One entity with a key and two states, a lease, and a workflow whose only step acquires the lease
  inside a block and returns to itself.\<close>

definition sample_field :: "string \<Rightarrow> string \<Rightarrow> FieldDecl" where
  "sample_field n t = new_FieldDecl\<lparr>fd_name := n, fd_type := t\<rparr>"

definition sample_machine :: StateMachineDecl where
  "sample_machine = new_StateMachineDecl\<lparr>
     sm_states := [new_StateDecl\<lparr>sd_name := ''Open''\<rparr>,
       new_StateDecl\<lparr>sd_name := ''Closed'', sd_terminal := True,
         sd_garbage_collection := Some (new_GarbageCollectionPolicyDecl\<lparr>gc_after := Some ''P1D'', gc_mode := Some ''delete''\<rparr>)\<rparr>],
     sm_initial_state := Some ''Open'', sm_terminal_states := [''Closed''],
     sm_transitions := [new_TransitionDecl\<lparr>td_from := ''Open'', td_to := ''Closed''\<rparr>]\<rparr>"

definition sample_entity :: EntityDecl where
  "sample_entity = new_EntityDecl\<lparr>et_name := ''Order'', et_key_fields := [''tenant_id'', ''id''],
     et_fields := [sample_field ''created_at'' ''timestamp'', sample_field ''updated_at'' ''timestamp'', sample_field ''status'' ''string'', sample_field ''tenant_id'' ''string'', sample_field ''id'' ''string''],
     et_ownership := Some (new_OwnershipDecl\<lparr>ow_authority := Some ''system'', ow_system_of_record := Some ''self'', ow_lifecycle := Some ''authoritative''\<rparr>),
     et_state_machine := Some sample_machine\<rparr>"

definition sample_lease :: LeaseDecl where
  "sample_lease = new_LeaseDecl\<lparr>ls_name := ''OrderLease'', ls_resource := Some ''order'', ls_ttl := Some ''PT30S'',
     ls_renew_every := Some ''PT10S'', ls_holder := Some ''worker'', ls_fencing_token := Some True, ls_max_ttl := Some ''PT1H''\<rparr>"

definition sample_step :: WorkflowStepDecl where
  "sample_step = new_WorkflowStepDecl\<lparr>wp_name := ''begin_work'', wp_expected_execution_time := Some ''PT1M'', wp_max_retries := Some 3,
     wp_statements := [WorkflowStatementDecl ''atomic'' None None None None None None []
       [WorkflowStatementDecl ''acquire_lease'' (Some ''OrderLease'') None None None None None [] [] empty_range] empty_range,
       WorkflowStatementDecl ''transition_to'' (Some ''begin_work'') None None None None None [] [] empty_range]\<rparr>"

definition sample_workflow :: WorkflowDecl where
  "sample_workflow = new_WorkflowDecl\<lparr>wf_name := ''Fulfil'', wf_version := Some 1, wf_singleton := Some False,
     wf_expected_execution_time := Some ''PT5M'', wf_start_step := Some ''begin_work'', wf_steps := [sample_step]\<rparr>"

definition sample_system :: SystemDecl where
  "sample_system = new_SystemDecl\<lparr>sy_name := ''Shop'', sy_tenant_scope := Some (new_TenantScopeDecl\<lparr>ts_field_name := ''tenant_id''\<rparr>),
     sy_system_tenant := Some new_SystemTenantDecl, sy_entities := [sample_entity], sy_leases := [sample_lease],
     sy_workflows := [sample_workflow]\<rparr>"

definition sample_spec :: Spec where
  "sample_spec = new_Spec\<lparr>sp_system := Some sample_system\<rparr>"

lemma sample_validates: "validate (\<lambda>xs. xs) sample_spec [] = Inr []"
  by code_simp

lemma sample_accepted: "accepted (\<lambda>xs. xs) sample_spec"
  by (simp add: accepted_def sample_validates)

lemma sample_parts: "sp_system sample_spec = Some sample_system" "sy_entities sample_system = [sample_entity]"
    "sy_leases sample_system = [sample_lease]" "sy_workflows sample_system = [sample_workflow]"
    "iteration_order (\<lambda>xs. xs)"
  by (simp_all add: sample_spec_def sample_system_def iteration_order_def)

lemma accepted_state_machine_iff_witness:
  "clean (validate_state_machine (\<lambda>xs. xs) sample_entity) \<and> et_state_machine sample_entity = Some sample_machine \<and>
   wf_state_machine sample_machine"
proof -
  have "clean (validate_state_machine (\<lambda>xs. xs) sample_entity)"
    using accepted_entity [OF sample_accepted sample_parts(1)] by (simp add: sample_parts validate_entity_def)
  moreover have "et_state_machine sample_entity = Some sample_machine"
    by (simp add: sample_entity_def)
  ultimately show ?thesis
    using accepted_state_machine_iff [OF sample_parts(5), of sample_entity] by simp
qed

lemma accepted_terminal_states_final_witness:
  "et_state_machine sample_entity = Some sample_machine \<and> (''Closed'', ''Open'') \<notin> (moves_of sample_machine)\<^sup>*"
proof -
  have m: "et_state_machine sample_entity = Some sample_machine"
    by (simp add: sample_entity_def)
  have "\<exists>m. et_state_machine sample_entity = Some m \<and>
    (\<forall>s \<in> set (sm_states m). \<forall>t. (sd_name s, t) \<in> (moves_of m)\<^sup>* \<longrightarrow>
       t \<in> set (state_names m) \<and> (sd_garbage_collection s \<noteq> None \<longrightarrow> t = sd_name s))"
    by (rule accepted_terminal_states_final [OF sample_parts(5) sample_accepted sample_parts(1)]) (simp add: sample_parts)
  then have "\<forall>s \<in> set (sm_states sample_machine). sd_garbage_collection s \<noteq> None \<longrightarrow>
      (\<forall>t. (sd_name s, t) \<in> (moves_of sample_machine)\<^sup>* \<longrightarrow> t = sd_name s)"
    using m by auto
  moreover have "\<exists>s \<in> set (sm_states sample_machine). sd_garbage_collection s \<noteq> None \<and> sd_name s = ''Closed''"
    by (simp add: sample_machine_def)
  ultimately show ?thesis
    using m by fastforce
qed

lemma accepted_entity_fields_witness:
  "distinct (map fd_name (et_fields sample_entity)) \<and> set (et_key_fields sample_entity) = {''tenant_id'', ''id''} \<and>
   set (et_key_fields sample_entity) \<subseteq> field_names (et_fields sample_entity)"
  using accepted_entity_fields [OF sample_accepted sample_parts(1), of sample_entity]
  by (simp add: sample_parts) (simp add: sample_entity_def)

lemma accepted_workflow_targets_witness:
  "distinct (map wp_name (wf_steps sample_workflow)) \<and>
   ''OrderLease'' \<in> targets sample_system sample_workflow ''acquire_lease''"
proof -
  let ?x = "WorkflowStatementDecl ''acquire_lease'' (Some ''OrderLease'') None None None None None [] [] empty_range"
  have "\<exists>p \<in> set (wf_steps sample_workflow). \<exists>x \<in> set (wp_statements p). ?x \<in> set (nested_statements x)"
    by (simp add: sample_workflow_def sample_step_def)
  then show ?thesis
    using accepted_workflow_targets [OF sample_accepted sample_parts(1), of sample_workflow] by (fastforce simp: sample_parts)
qed

lemma accepted_domains_acyclic_witness: "acyclic (domain_edges sample_system)"
  by (rule accepted_domains_acyclic [OF sample_accepted sample_parts(1)])

lemma accepted_lease_durations_witness:
  "ls_ttl sample_lease = Some ''PT30S'' \<and> ls_renew_every sample_lease = Some ''PT10S'' \<and> ls_max_ttl sample_lease = Some ''PT1H'' \<and>
   (\<exists>renew ttl maximum. duration_seconds ''PT10S'' = Inr (Some renew) \<and> duration_seconds ''PT30S'' = Inr (Some ttl) \<and>
     duration_seconds ''PT1H'' = Inr (Some maximum) \<and> renew < ttl \<and> ttl \<le> maximum)"
proof -
  have l: "ls_ttl sample_lease = Some ''PT30S''" "ls_renew_every sample_lease = Some ''PT10S''" "ls_max_ttl sample_lease = Some ''PT1H''"
    by (simp_all add: sample_lease_def)
  have d: "duration_seconds ''PT10S'' = Inr (Some 10)" "duration_seconds ''PT30S'' = Inr (Some 30)" "duration_seconds ''PT1H'' = Inr (Some 3600)"
    by code_simp+
  show ?thesis
    using accepted_lease_durations [OF sample_accepted sample_parts(1), of sample_lease] l d by (simp add: sample_parts)
qed

end
