(* ===== verification/Formatter_Tokens.thy ===== *)
theory Formatter_Tokens
  imports Lexer
begin

text \<open>
  The token formatter of \<open>src/formatter.cpp\<close>: it writes the tokens again with line breaks,
  indentation and blanks of its own. \<open>docs/roadmap.md\<close> promises that it preserves the tokens; here that
  is proved, for all sources but those in which a number, a dot and a number follow each other.
\<close>

section \<open>Classes of tokens\<close>

text \<open>The keyword on is the only one that the code does not count among the words.\<close>

definition is_word_token :: "token_kind \<Rightarrow> bool" where
  "is_word_token k \<longleftrightarrow>
     (case k of TK_Keyword t \<Rightarrow> t \<in> fst ` set keyword_names \<and> t \<noteq> ''on''
      | _ \<Rightarrow> k \<in> {TK_Identifier, TK_StringLiteral, TK_IntegerLiteral, TK_DecimalLiteral, TK_BooleanLiteral, TK_DurationLiteral})"

definition is_binary_operator :: "token_kind \<Rightarrow> bool" where
  "is_binary_operator k \<longleftrightarrow>
     k \<in> {TK_Arrow, TK_Equals, TK_EqualEqual, TK_BangEqual, TK_LessEqual, TK_GreaterEqual, TK_Plus, TK_Minus, TK_Star,
          TK_Slash, TK_Percent, TK_AndAnd, TK_OrOr}"

definition starts_compact :: "token_kind \<Rightarrow> bool" where
  "starts_compact k \<longleftrightarrow>
     k \<in> {TK_LeftParen, TK_LeftBracket, TK_Less, TK_Dot, TK_Comma, TK_Semicolon, TK_Colon, TK_Question, TK_RightParen,
          TK_RightBracket, TK_Greater}"

definition ends_compact :: "token_kind \<Rightarrow> bool" where
  "ends_compact k \<longleftrightarrow> k \<in> {TK_LeftParen, TK_LeftBracket, TK_Less, TK_Dot, TK_Bang}"

definition is_feature_flag_member_start :: "token \<Rightarrow> bool" where
  "is_feature_flag_member_start t \<longleftrightarrow>
     tok_kind t = TK_Identifier \<and>
     tok_lexeme t \<in> {''type'', ''default'', ''scope'', ''owner'', ''description'', ''expires''}"

definition is_state_option_member_start :: "token \<Rightarrow> bool" where
  "is_state_option_member_start t \<longleftrightarrow>
     tok_kind t = TK_Keyword ''terminal'' \<or> (tok_kind t = TK_Identifier \<and> tok_lexeme t = ''garbage_collection'')"

definition is_garbage_collection_member_start :: "token \<Rightarrow> bool" where
  "is_garbage_collection_member_start t \<longleftrightarrow> tok_kind t = TK_Identifier \<and> tok_lexeme t \<in> {''after'', ''mode''}"

section \<open>The loop\<close>

text \<open>The locals of the loop. The back of a stack is the head of its list; the indentation, which the code
  keeps from falling below 0, is a natural number.\<close>

record token_formatter =
  tf_out :: string
  tf_indent :: nat
  tf_at_line_start :: bool
  tf_previous_was_blank_line :: bool
  tf_previous_kind :: token_kind
  tf_previous_source_line :: nat
  tf_block_stack :: "token_kind list"
  tf_block_name_stack :: "string list"

definition new_token_formatter :: token_formatter where
  "new_token_formatter =
    \<lparr>tf_out = [], tf_indent = 0, tf_at_line_start = True, tf_previous_was_blank_line = False,
     tf_previous_kind = TK_EndOfFile, tf_previous_source_line = 0, tf_block_stack = [], tf_block_name_stack = []\<rparr>"

definition write_out :: "string \<Rightarrow> token_formatter \<Rightarrow> token_formatter" where
  "write_out t f = f\<lparr>tf_out := tf_out f @ t\<rparr>"

definition indentation :: "nat \<Rightarrow> string" where
  "indentation n = concat (replicate n ''  '')"

definition format_newline :: "bool \<Rightarrow> token_formatter \<Rightarrow> token_formatter" where
  "format_newline blank_after f =
     (let blank = blank_after \<and> \<not> tf_previous_was_blank_line f in
      f\<lparr>tf_out := tf_out f @ [CHR 0x0A] @ (if blank then [CHR 0x0A] else []), tf_at_line_start := True,
        tf_previous_kind := TK_EndOfFile, tf_previous_was_blank_line := blank\<rparr>)"

text \<open>A token that begins a line of the source begins one of the output, and so do the members of three
  kinds of blocks.\<close>

abbreviation begin_line :: "token \<Rightarrow> nat" where
  "begin_line t \<equiv> sl_line (sr_begin (tok_range t))"

definition starts_member :: "token_formatter \<Rightarrow> token \<Rightarrow> bool" where
  "starts_member f t \<longleftrightarrow> tf_previous_kind f \<noteq> TK_LeftBrace \<and>
     (is_feature_flag_member_start t \<and> tf_block_stack f \<noteq> [] \<and> hd (tf_block_stack f) = TK_Keyword ''feature_flag'' \<or>
      is_state_option_member_start t \<and> tf_block_stack f \<noteq> [] \<and> hd (tf_block_stack f) = TK_Keyword ''state'' \<or>
      is_garbage_collection_member_start t \<and> tf_block_name_stack f \<noteq> [] \<and>
        hd (tf_block_name_stack f) = ''garbage_collection'')"

definition break_line :: "token \<Rightarrow> token_formatter \<Rightarrow> token_formatter" where
  "break_line t f =
     (if \<not> tf_at_line_start f \<and> (begin_line t > tf_previous_source_line f \<or> starts_member f t)
      then format_newline (begin_line t > tf_previous_source_line f + 1) f else f)"

definition format_right_brace :: "token list \<Rightarrow> nat \<Rightarrow> token_formatter \<Rightarrow> token_formatter" where
  "format_right_brace ts i f =
     (let t = ts ! i;
          f = (if \<not> tf_at_line_start f then format_newline False f else f);
          f = f\<lparr>tf_indent := tf_indent f - 1, tf_block_stack := tl (tf_block_stack f),
                tf_block_name_stack := tl (tf_block_name_stack f)\<rparr>;
          f = write_out (indentation (tf_indent f) @ ''}'') f;
          f = f\<lparr>tf_at_line_start := False, tf_previous_kind := tok_kind t\<rparr>;
          f = (if tok_kind (ts ! Suc i) \<noteq> TK_EndOfFile
               then format_newline (tf_indent f = 0 \<or> sl_line (sr_end (tok_range t)) + 1 < begin_line (ts ! Suc i)) f
               else f)
      in f\<lparr>tf_previous_source_line := begin_line t\<rparr>)"

text \<open>What stands before a token in its line.\<close>

definition separator :: "token_kind \<Rightarrow> token_kind \<Rightarrow> string" where
  "separator k p =
     (if is_binary_operator k \<or> is_binary_operator p then '' ''
      else if k = TK_LeftBrace then '' ''
      else if k = TK_Comma then []
      else if p = TK_Comma then '' ''
      else if is_word_token k \<and> is_word_token p then '' ''
      else if \<not> starts_compact k \<and> \<not> ends_compact p then '' ''
      else [])"

definition open_block :: "token list \<Rightarrow> nat \<Rightarrow> token_formatter \<Rightarrow> token_formatter" where
  "open_block ts i f =
     (let named = tf_previous_kind f = TK_Identifier \<and> i \<ge> 2;
          kind = (if named then tok_kind (ts ! (i - 2)) else tf_previous_kind f);
          name = (if named then tok_lexeme (ts ! (i - 1)) else [])
      in format_newline False (f\<lparr>tf_block_stack := kind # tf_block_stack f, tf_block_name_stack := name # tf_block_name_stack f,
           tf_indent := tf_indent f + 1\<rparr>))"

definition format_other_token :: "token list \<Rightarrow> nat \<Rightarrow> token_formatter \<Rightarrow> token_formatter" where
  "format_other_token ts i f =
     (let t = ts ! i;
          f = (if tf_at_line_start f then (write_out (indentation (tf_indent f)) f)\<lparr>tf_at_line_start := False\<rparr>
               else write_out (separator (tok_kind t) (tf_previous_kind f)) f);
          f = write_out (tok_lexeme t) f;
          f = (if tok_kind t = TK_LeftBrace then open_block ts i f
               else if tok_kind t = TK_Semicolon then format_newline False f else f)
      in f\<lparr>tf_previous_kind := tok_kind t, tf_previous_source_line := begin_line t\<rparr>)"

definition format_token :: "token list \<Rightarrow> nat \<Rightarrow> token_formatter \<Rightarrow> token_formatter" where
  "format_token ts i f =
     (let f = break_line (ts ! i) f
      in if tok_kind (ts ! i) = TK_RightBrace then format_right_brace ts i f else format_other_token ts i f)"

text \<open>The loop up to the end-of-file token.\<close>

function format_loop :: "token list \<Rightarrow> nat \<Rightarrow> token_formatter \<Rightarrow> token_formatter" where
  "format_loop ts i f =
     (if i < length ts \<and> tok_kind (ts ! i) \<noteq> TK_EndOfFile then format_loop ts (Suc i) (format_token ts i f) else f)"
  by auto
termination by (relation "measure (\<lambda>(ts, i, f). length ts - i)") auto

declare format_loop.simps [simp del]

text \<open>All newlines at the end are cut off, and one is appended.\<close>

definition end_with_newline :: "string \<Rightarrow> string" where
  "end_with_newline t = rev (dropWhile (\<lambda>ch. ch = CHR 0x0A) (rev t)) @ [CHR 0x0A]"

definition format_tokens :: "token list \<Rightarrow> diagnostic_bag \<Rightarrow> string" where
  "format_tokens ts ds = (if has_errors ds then [] else end_with_newline (tf_out (format_loop ts 0 new_token_formatter)))"

section \<open>Lexemes without a blank behind them\<close>

text \<open>A lexeme that the lexer takes when a blank follows, and the texts before which it also ends.\<close>

definition alone :: "token_kind \<Rightarrow> string \<Rightarrow> bool" where
  "alone k w \<longleftrightarrow> (\<exists>c u. w = c # u \<and> \<not> is_blank c \<and> first_item c (u @ '' '') = Lexeme k w None)"

definition stops :: "token_kind \<Rightarrow> string \<Rightarrow> bool" where
  "stops k r \<longleftrightarrow> r = [] \<or>
     (case k of
        TK_IntegerLiteral \<Rightarrow> \<not> is_digit (hd r) \<and> \<not> (hd r = CHR ''.'' \<and> tl r \<noteq> [] \<and> is_digit (hd (tl r)))
      | TK_DecimalLiteral \<Rightarrow> \<not> is_digit (hd r)
      | TK_Identifier \<Rightarrow> \<not> is_identifier_part (hd r)
      | TK_BooleanLiteral \<Rightarrow> \<not> is_identifier_part (hd r)
      | TK_DurationLiteral \<Rightarrow> \<not> is_identifier_part (hd r)
      | TK_Keyword t \<Rightarrow> \<not> is_identifier_part (hd r)
      | TK_Equals \<Rightarrow> hd r \<noteq> CHR ''=''
      | TK_Bang \<Rightarrow> hd r \<noteq> CHR ''=''
      | TK_Less \<Rightarrow> hd r \<noteq> CHR ''=''
      | TK_Greater \<Rightarrow> hd r \<noteq> CHR ''=''
      | TK_Minus \<Rightarrow> \<not> is_digit (hd r) \<and> hd r \<noteq> CHR ''>''
      | TK_Slash \<Rightarrow> hd r \<noteq> CHR ''/'' \<and> hd r \<noteq> CHR ''*''
      | _ \<Rightarrow> True)"

lemma blank_chars: "\<not> is_digit (CHR '' '')" "\<not> is_identifier_part (CHR '' '')" "\<not> is_digit (CHR ''.'')"
  by code_simp+

lemma takeWhile_all: "takeWhile P (u @ [c]) = u \<Longrightarrow> \<not> P c \<Longrightarrow> \<forall>x \<in> set u. P x"
  by (metis set_takeWhileD)

lemma takeWhile_stop: "\<forall>x \<in> set u. P x \<Longrightarrow> r = [] \<or> \<not> P (hd r) \<Longrightarrow> takeWhile P (u @ r) = u \<and> dropWhile P (u @ r) = r"
  by (cases r) (auto simp: takeWhile_append dropWhile_append)

lemma munch_number_stops:
  assumes "munch_number (u @ '' '') = (k, u)" and "stops k r"
  shows "munch_number (u @ r) = (k, u)"
proof (cases "k = TK_DecimalLiteral")
  case True
  then obtain p d q where pq: "dropWhile is_digit (u @ '' '') = p # d # q" "p = CHR ''.''" "is_digit d"
      "u = takeWhile is_digit (u @ '' '') @ p # takeWhile is_digit (d # q)"
    using assms(1) by (auto simp: munch_number_def Let_def split: list.splits if_splits)
  let ?a = "takeWhile is_digit (u @ '' '')" and ?b = "takeWhile is_digit (d # q)"
  have a: "\<forall>x \<in> set ?a. is_digit x" and b: "\<forall>x \<in> set ?b. is_digit x"
    using set_takeWhileD by fast+
  have r: "r = [] \<or> \<not> is_digit (hd r)"
    using assms(2) True by (simp add: stops_def)
  have "takeWhile is_digit (?a @ p # ?b @ r) = ?a" "dropWhile is_digit (?a @ p # ?b @ r) = p # ?b @ r"
    using takeWhile_stop [OF a, of "p # ?b @ r"] pq(2) blank_chars by simp_all
  moreover have "takeWhile is_digit (?b @ r) = ?b"
    using takeWhile_stop [OF b r] by simp
  moreover have "?b = d # takeWhile is_digit q"
    using pq(3) by simp
  ultimately have "munch_number (?a @ p # ?b @ r) = (TK_DecimalLiteral, ?a @ p # ?b)"
    using pq(2,3) by (simp add: munch_number_def Let_def)
  moreover have "u @ r = ?a @ p # ?b @ r"
    using arg_cong [OF pq(4), of "\<lambda>v. v @ r"] by (simp only: append_assoc append_Cons)
  ultimately show ?thesis
    unfolding True using pq(4) by (simp only: prod.inject)
next
  case False
  then have k: "k = TK_IntegerLiteral" "takeWhile is_digit (u @ '' '') = u"
    using assms(1) by (auto simp: munch_number_def Let_def split: list.splits if_splits)
  then have "\<forall>x \<in> set u. is_digit x"
    using takeWhile_all [of is_digit u "CHR '' ''"] blank_chars(1) by blast
  moreover have "r = [] \<or> \<not> is_digit (hd r)"
    using assms(2) k(1) by (auto simp: stops_def)
  ultimately have "takeWhile is_digit (u @ r) = u" "dropWhile is_digit (u @ r) = r"
    using takeWhile_stop by blast+
  then show ?thesis
    using assms(2) k(1) by (auto simp: munch_number_def Let_def stops_def split: list.split)
qed

lemma word_kind_cases: "word_kind w \<in> {TK_Identifier, TK_BooleanLiteral, TK_DurationLiteral} \<union> range TK_Keyword"
  by (auto simp: word_kind_def keyword_kind_def split: option.split)

lemma munch_word_stops:
  assumes "takeWhile is_identifier_part (u @ '' '') = u" and "stops (word_kind (c # u)) r"
  shows "takeWhile is_identifier_part (u @ r) = u"
proof -
  have "\<forall>x \<in> set u. is_identifier_part x"
    using assms(1) takeWhile_all [of is_identifier_part u "CHR '' ''"] blank_chars(2) by blast
  moreover have "r = [] \<or> \<not> is_identifier_part (hd r)"
    using assms(2) word_kind_cases [of "c # u"] by (auto simp: stops_def)
  ultimately show ?thesis
    using takeWhile_stop by blast
qed

lemma munch_heads:
  "\<not> (cs \<noteq> [] \<and> is_digit (hd cs)) \<Longrightarrow> munch (CHR ''-'') cs = munch_either (CHR ''-'') (CHR ''>'') TK_Arrow TK_Minus cs"
  "munch (CHR ''='') cs = munch_either (CHR ''='') (CHR ''='') TK_EqualEqual TK_Equals cs"
  "munch (CHR ''!'') cs = munch_either (CHR ''!'') (CHR ''='') TK_BangEqual TK_Bang cs"
  "munch (CHR ''<'') cs = munch_either (CHR ''<'') (CHR ''='') TK_LessEqual TK_Less cs"
  "munch (CHR ''>'') cs = munch_either (CHR ''>'') (CHR ''='') TK_GreaterEqual TK_Greater cs"
  "munch (CHR ''&'') cs = munch_pair (CHR ''&'') TK_AndAnd cs"
  "munch (CHR ''|'') cs = munch_pair (CHR ''|'') TK_OrOr cs"
  by (auto simp: munch_def single_tokens_def)

lemma munch_either_stops:
  assumes "munch_either c d yes no (u @ '' '') = Lexeme k (c # u) None" and "d \<noteq> CHR '' ''" and "k = no \<Longrightarrow> r = [] \<or> hd r \<noteq> d" and "yes \<noteq> no"
  shows "munch_either c d yes no (u @ r) = Lexeme k (c # u) None"
  using assms by (cases u; cases r) (auto simp: munch_either_def split: if_splits)

lemma munch_pair_stops:
  assumes "munch_pair c k' (u @ '' '') = Lexeme k (c # u) None" and "c \<noteq> CHR '' ''"
  shows "munch_pair c k' (u @ r) = Lexeme k (c # u) None"
  using assms by (cases u) (auto simp: munch_pair_def split: if_splits)

lemma munch_heads_stops:
  assumes "c \<in> set [CHR ''-'', CHR ''='', CHR ''!'', CHR ''<'', CHR ''>'', CHR ''&'', CHR ''|'']"
    and neg: "\<not> (c = CHR ''-'' \<and> u \<noteq> [] \<and> is_digit (hd u))"
    and m: "munch c (u @ '' '') = Lexeme k (c # u) None" and r: "stops k r"
  shows "munch c (u @ r) = Lexeme k (c # u) None"
proof -
  consider "c = CHR ''-''" | "c = CHR ''=''" | "c = CHR ''!''" | "c = CHR ''<''" | "c = CHR ''>''" | "c = CHR ''&''" | "c = CHR ''|''"
    using assms(1) by auto
  then show ?thesis
  proof cases
    case 1
    have "\<not> (u @ '' '' \<noteq> [] \<and> is_digit (hd (u @ '' '')))"
      using neg 1 blank_chars by (cases u) auto
    note e = munch_heads(1) [OF this]
    have m1: "munch_either (CHR ''-'') (CHR ''>'') TK_Arrow TK_Minus (u @ '' '') = Lexeme k (CHR ''-'' # u) None"
      using m 1 e by simp
    have "\<not> (u @ r \<noteq> [] \<and> is_digit (hd (u @ r)))"
    proof (cases u)
      case Nil
      then have "k = TK_Minus"
        using m1 by (simp add: munch_either_def split: if_splits)
      then show ?thesis using Nil r by (auto simp: stops_def)
    qed (use neg 1 in auto)
    note e' = munch_heads(1) [OF this]
    show ?thesis
      unfolding 1 e' by (rule munch_either_stops [OF m1]) (use r in \<open>auto simp: stops_def\<close>)
  next
    case 2 show ?thesis
      unfolding 2 munch_heads by (rule munch_either_stops) (use m 2 r in \<open>auto simp: munch_heads stops_def\<close>)
  next
    case 3 show ?thesis
      unfolding 3 munch_heads by (rule munch_either_stops) (use m 3 r in \<open>auto simp: munch_heads stops_def\<close>)
  next
    case 4 show ?thesis
      unfolding 4 munch_heads by (rule munch_either_stops) (use m 4 r in \<open>auto simp: munch_heads stops_def\<close>)
  next
    case 5 show ?thesis
      unfolding 5 munch_heads by (rule munch_either_stops) (use m 5 r in \<open>auto simp: munch_heads stops_def\<close>)
  next
    case 6 show ?thesis
      unfolding 6 munch_heads by (rule munch_pair_stops) (use m 6 in \<open>auto simp: munch_heads\<close>)
  next
    case 7 show ?thesis
      unfolding 7 munch_heads by (rule munch_pair_stops) (use m 7 in \<open>auto simp: munch_heads\<close>)
  qed
qed

lemma munch_stops:
  assumes m: "munch c (u @ '' '') = Lexeme k (c # u) None" and r: "stops k r"
  shows "munch c (u @ r) = Lexeme k (c # u) None"
proof (cases "map_of single_tokens c")
  case (Some kind)
  then show ?thesis using m by (auto simp: munch_def)
next
  case single: None
  let ?heads = "[CHR ''-'', CHR ''='', CHR ''!'', CHR ''<'', CHR ''>'', CHR ''&'', CHR ''|'']"
  consider (negative) "c = CHR ''-''" "u \<noteq> []" "is_digit (hd u)" | (quote) "c = CHR 0x22"
    | (head) "c \<in> set ?heads" "\<not> (c = CHR ''-'' \<and> u \<noteq> [] \<and> is_digit (hd u))"
    | (number) "c \<noteq> CHR 0x22" "c \<notin> set ?heads" "is_digit c" | (word) "c \<noteq> CHR 0x22" "c \<notin> set ?heads" "\<not> is_digit c"
    by blast
  then show ?thesis
  proof cases
    case negative
    then have "munch_number (u @ '' '') = (k, u)"
      using m single by (auto simp: munch_def split: prod.splits)
    from munch_number_stops [OF this r] show ?thesis
      using negative single by (simp add: munch_def)
  next
    case quote
    then have v: "munch_string (u @ '' '') = (u, True)" "k = TK_StringLiteral"
      using m single by (auto simp: munch_def split: prod.splits if_splits)
    then show ?thesis
      using quote single munch_string_local [OF v(1), of r] by (simp add: munch_def)
  next
    case head
    then show ?thesis using munch_heads_stops m r by blast
  next
    case number
    then have n: "munch_number ((c # u) @ '' '') = (k, c # u)"
      using m single by (auto simp: munch_def split: prod.splits)
    from munch_number_stops [OF n r] show ?thesis
      using number single by (auto simp: munch_def)
  next
    case word
    then have w: "takeWhile is_identifier_part (u @ '' '') = u" "k = word_kind (c # u)" "is_alpha c"
      using m single by (auto simp: munch_def Let_def split: if_splits)
    from munch_word_stops [OF w(1)] r w(2) show ?thesis
      using word single w by (auto simp: munch_def Let_def)
  qed
qed

lemma alone_item:
  assumes "alone k w" and r: "stops k r"
  shows "items (w @ r) = Lexeme k w None # items r"
proof -
  obtain c u where c: "w = c # u" "\<not> is_blank c" "first_item c (u @ '' '') = Lexeme k (c # u) None"
    using assms(1) by (auto simp: alone_def)
  have m: "munch c (u @ r) = Lexeme k (c # u) None"
    using munch_stops [OF munch_not_blank(1) [OF c(3)] r] .
  have "first_item c (u @ r) = Lexeme k (c # u) None"
  proof (cases "c = CHR ''/''")
    case True
    then have u: "u = []" "k = TK_Slash"
      using munch_not_blank(1) [OF c(3)] by (auto simp: munch_def single_tokens_def)
    have "\<not> (r \<noteq> [] \<and> hd r = CHR ''/'')" "\<not> (r \<noteq> [] \<and> hd r = CHR ''*'')"
      using r u(2) by (auto simp: stops_def)
    then show ?thesis
      using m u(1) c(2) by (auto simp: first_item_def)
  qed (use m c(2) in \<open>simp add: first_item_def\<close>)
  then show ?thesis
    using c(1) by simp
qed

text \<open>What a lexeme begins with.\<close>

lemma alone_Cons: "alone k w \<Longrightarrow> \<exists>c u. w = c # u \<and> \<not> is_blank c \<and> munch c (u @ '' '') = Lexeme k w None"
  by (auto simp: alone_def dest: munch_not_blank(1))

lemma not_digits:
  "list_all (\<lambda>c. \<not> is_digit c)
     ([CHR ''-'', CHR ''='', CHR ''!'', CHR ''<'', CHR ''>'', CHR ''&'', CHR ''|'', CHR 0x22] @ map fst single_tokens)"
  by code_simp

lemma digit_chars:
  "is_digit c \<Longrightarrow> map_of single_tokens c = None \<and>
     c \<notin> set [CHR ''-'', CHR ''='', CHR ''!'', CHR ''<'', CHR ''>'', CHR ''&'', CHR ''|'', CHR 0x22]"
  using not_digits unfolding list_all_iff set_append map_of_eq_None_iff set_map by blast

lemma munch_char_kind:
  assumes "munch c cs = Lexeme k w None"
  shows "(c = CHR ''='' \<longrightarrow> k \<in> {TK_Equals, TK_EqualEqual}) \<and> (is_digit c \<longrightarrow> k \<in> {TK_IntegerLiteral, TK_DecimalLiteral})"
proof (cases "c = CHR ''=''")
  case True
  then show ?thesis
    using assms digit_chars [of c] by (auto simp: munch_heads munch_either_def split: list.splits if_splits)
next
  case False
  have "k \<in> {TK_IntegerLiteral, TK_DecimalLiteral}" if "is_digit c"
  proof -
    have "map_of single_tokens c = None" "c \<notin> set [CHR ''-'', CHR ''='', CHR ''!'', CHR ''<'', CHR ''>'', CHR ''&'', CHR ''|'', CHR 0x22]"
      using digit_chars [OF that] by blast+
    then have "munch_number (c # cs) = (k, w)"
      using assms that by (auto simp: munch_def split: prod.splits)
    then show ?thesis
      by (auto simp: munch_number_def Let_def split: list.splits if_splits)
  qed
  then show ?thesis
    using False by simp
qed

definition compact_chars :: "char set" where
  "compact_chars = set ''([<.,;:?)]>''"

text \<open>The kinds of the lexemes that are not single characters of the table.\<close>

definition other_kinds :: "token_kind set" where
  "other_kinds = {TK_IntegerLiteral, TK_DecimalLiteral, TK_StringLiteral, TK_Arrow, TK_Minus, TK_EqualEqual, TK_Equals,
     TK_BangEqual, TK_Bang, TK_LessEqual, TK_Less, TK_GreaterEqual, TK_Greater, TK_AndAnd, TK_OrOr, TK_Identifier,
     TK_BooleanLiteral, TK_DurationLiteral} \<union> range TK_Keyword"

lemma munch_other_kind:
  assumes m: "munch c cs = Lexeme k w None" and None: "map_of single_tokens c = None"
  shows "k \<in> other_kinds \<and> (k \<in> {TK_Less, TK_Greater} \<longrightarrow> c \<in> {CHR ''<'', CHR ''>''})"
proof -
  have number: "munch_number t = (k, v) \<Longrightarrow> k = TK_IntegerLiteral \<or> k = TK_DecimalLiteral" for t v
    by (auto simp: munch_number_def Let_def split: list.splits if_splits)
  have either: "munch_either d e yes no cs = Lexeme k w None \<Longrightarrow> k = yes \<or> k = no" for d e yes no
    by (auto simp: munch_either_def split: list.splits if_splits)
  have pairs: "munch_pair d k' cs = Lexeme k w None \<Longrightarrow> k = k'" for d k'
    by (auto simp: munch_pair_def split: list.splits if_splits)
  consider (less) "c = CHR ''<''" | (greater) "c = CHR ''>''" | (negative) "c = CHR ''-''" "cs \<noteq> [] \<and> is_digit (hd cs)"
    | (minus) "c = CHR ''-''" "\<not> (cs \<noteq> [] \<and> is_digit (hd cs))" | (equal) "c = CHR ''=''" | (bang) "c = CHR ''!''"
    | (both) "c = CHR ''&''" | (pipe) "c = CHR ''|''" | (quote) "c = CHR 0x22"
    | (other) "c \<notin> set [CHR ''-'', CHR ''='', CHR ''!'', CHR ''<'', CHR ''>'', CHR ''&'', CHR ''|'', CHR 0x22]"
    by auto
  then show ?thesis
  proof cases
    case less
    then have "k = TK_LessEqual \<or> k = TK_Less"
      using m munch_heads(4) either by simp
    then show ?thesis using less by (auto simp: other_kinds_def)
  next
    case greater
    then have "k = TK_GreaterEqual \<or> k = TK_Greater"
      using m munch_heads(5) either by simp
    then show ?thesis using greater by (auto simp: other_kinds_def)
  next
    case negative
    then obtain v where "munch_number cs = (k, v)"
      using m None by (auto simp: munch_def split: prod.splits)
    then show ?thesis using number by (auto simp: other_kinds_def)
  next
    case minus
    then have "k = TK_Arrow \<or> k = TK_Minus"
      using m munch_heads(1) [OF minus(2)] either by simp
    then show ?thesis by (auto simp: other_kinds_def)
  next
    case equal
    then have "k = TK_EqualEqual \<or> k = TK_Equals"
      using m munch_heads(2) either by simp
    then show ?thesis by (auto simp: other_kinds_def)
  next
    case bang
    then have "k = TK_BangEqual \<or> k = TK_Bang"
      using m munch_heads(3) either by simp
    then show ?thesis by (auto simp: other_kinds_def)
  next
    case both
    then have "k = TK_AndAnd"
      using m munch_heads(6) pairs by simp
    then show ?thesis by (simp add: other_kinds_def)
  next
    case pipe
    then have "k = TK_OrOr"
      using m munch_heads(7) pairs by simp
    then show ?thesis by (simp add: other_kinds_def)
  next
    case quote
    then have "k = TK_StringLiteral"
      using m None by (auto simp: munch_def split: prod.splits)
    then show ?thesis by (simp add: other_kinds_def)
  next
    case other
    show ?thesis
    proof (cases "is_digit c")
      case True
      then have "munch_number (c # cs) = (k, w)"
        using m None other by (auto simp: munch_def split: prod.splits)
      then show ?thesis using number by (auto simp: other_kinds_def)
    next
      case False
      then have "k = word_kind w"
        using m None other by (auto simp: munch_def Let_def split: if_splits)
      then show ?thesis
        using word_kind_cases [of w] by (auto simp: other_kinds_def)
    qed
  qed
qed

lemma munch_kind_known:
  assumes "munch c cs = Lexeme k w None"
  shows "k \<in> other_kinds \<union> snd ` set single_tokens"
proof (cases "map_of single_tokens c")
  case (Some k')
  then have "(c, k) \<in> set single_tokens"
    using assms by (auto simp: munch_def dest: map_of_SomeD)
  then show ?thesis by force
next
  case None
  then show ?thesis using munch_other_kind [OF assms] by simp
qed

lemma munch_kind_char:
  assumes "munch c cs = Lexeme k w None" and "starts_compact k"
  shows "c \<in> compact_chars"
proof (cases "map_of single_tokens c")
  case (Some k')
  then have "(c, k) \<in> set single_tokens"
    using assms(1) by (auto simp: munch_def dest: map_of_SomeD)
  then show ?thesis
    using assms(2) by (auto simp: single_tokens_def compact_chars_def starts_compact_def)
next
  case None
  then show ?thesis
    using munch_other_kind [OF assms(1)] assms(2) by (auto simp: other_kinds_def compact_chars_def starts_compact_def)
qed

lemma right_brace_text:
  assumes "alone TK_RightBrace w"
  shows "w = ''}''"
proof -
  obtain c u where c: "w = c # u" "munch c (u @ '' '') = Lexeme TK_RightBrace w None"
    using alone_Cons [OF assms] by blast
  then have "map_of single_tokens c \<noteq> None"
    using munch_other_kind [OF c(2)] by (auto simp: other_kinds_def)
  then obtain k where k: "map_of single_tokens c = Some k"
    by blast
  then have "w = [c]" "k = TK_RightBrace"
    using c(2) by (simp_all add: munch_def)
  moreover have "(c, TK_RightBrace) \<in> set single_tokens"
    using k \<open>k = TK_RightBrace\<close> by (simp add: map_of_SomeD)
  ultimately show ?thesis
    by (simp add: single_tokens_def)
qed

section \<open>The tokens of a text written so far\<close>

abbreviation faultless :: "item list \<Rightarrow> bool" where
  "faultless is \<equiv> \<forall>i \<in> set is. item_fault i = None"

text \<open>Before every rest that \<open>P\<close> allows, the text gives these lexemes and no fault.\<close>

definition lexes_as :: "string \<Rightarrow> (token_kind \<times> string) list \<Rightarrow> (string \<Rightarrow> bool) \<Rightarrow> bool" where
  "lexes_as t ws P \<longleftrightarrow> (\<forall>r. P r \<longrightarrow>
     lexemes (items (t @ r)) = ws @ lexemes (items r) \<and> (faultless (items (t @ r)) \<longleftrightarrow> faultless (items r)))"

lemma items_blank: "is_blank c \<Longrightarrow> items (c # cs) = Blank (c # takeWhile is_blank cs) # items (dropWhile is_blank cs)"
  by (simp add: first_item_def dropWhile_eq_drop)

lemma items_skip_blanks:
  "lexemes (items r) = lexemes (items (dropWhile is_blank r)) \<and> (faultless (items r) \<longleftrightarrow> faultless (items (dropWhile is_blank r)))"
proof (cases r)
  case (Cons c cs)
  show ?thesis
  proof (cases "is_blank c")
    case True
    then show ?thesis unfolding Cons items_blank [OF True] by simp
  qed (simp add: Cons)
qed simp

lemma items_blanks:
  assumes "set b \<subseteq> Collect is_blank"
  shows "lexemes (items (b @ r)) = lexemes (items r) \<and> (faultless (items (b @ r)) \<longleftrightarrow> faultless (items r))"
proof -
  have "dropWhile is_blank (b @ r) = dropWhile is_blank r"
    using assms by (auto simp: dropWhile_append)
  then show ?thesis
    using items_skip_blanks [of "b @ r"] items_skip_blanks [of r] by simp
qed

lemma lexes_blanks:
  "lexes_as t ws P \<Longrightarrow> set b \<subseteq> Collect is_blank \<Longrightarrow> (\<And>r. P (b @ r)) \<Longrightarrow> lexes_as (t @ b) ws (\<lambda>_. True)"
  using items_blanks by (simp add: lexes_as_def)

lemma lexes_token:
  assumes "lexes_as t ws P" and "alone k w" and "\<And>r. Q r \<Longrightarrow> stops k r \<and> P (w @ r)"
  shows "lexes_as (t @ w) (ws @ [(k, w)]) Q"
  unfolding lexes_as_def
proof (intro allI impI)
  fix r assume "Q r"
  then have "items (w @ r) = Lexeme k w None # items r" "P (w @ r)"
    using alone_item [OF assms(2)] assms(3) by blast+
  then show "lexemes (items ((t @ w) @ r)) = (ws @ [(k, w)]) @ lexemes (items r) \<and>
      (faultless (items ((t @ w) @ r)) \<longleftrightarrow> faultless (items r))"
    using assms(1) unfolding lexes_as_def append_assoc by (metis append_Cons append_Nil item_fault.simps(3) lexemes.simps(2) list.set_intros(2) set_ConsD)
qed

text \<open>What may follow a sequence of tokens, given by their kinds with the last one first. A dot behind an
  integer must not be followed by a digit, as the three would be a decimal number.\<close>

fun follow :: "token_kind list \<Rightarrow> string \<Rightarrow> bool" where
  "follow [] r \<longleftrightarrow> True"
| "follow (k # ks) r \<longleftrightarrow> stops k r \<and>
     (k = TK_Dot \<and> ks \<noteq> [] \<and> hd ks = TK_IntegerLiteral \<longrightarrow> r = [] \<or> \<not> is_digit (hd r))"

lemma blank_not:
  "is_blank c \<Longrightarrow> \<not> is_digit c \<and> \<not> is_identifier_part c \<and>
     c \<notin> {CHR ''='', CHR ''>'', CHR ''/'', CHR ''*'', CHR ''.''}"
  unfolding is_blank_def by (elim disjE; simp; code_simp)

lemma follow_blank: "is_blank c \<Longrightarrow> follow ks (c # r)"
  using blank_not [of c] by (cases ks) (auto simp: stops_def split: token_kind.split)

lemma compact_not:
  assumes "c \<in> compact_chars"
  shows "\<not> is_digit c \<and> \<not> is_identifier_part c \<and> c \<noteq> CHR ''=''"
proof -
  have "list_all (\<lambda>c. \<not> is_digit c \<and> \<not> is_identifier_part c \<and> c \<noteq> CHR ''='') ''([<.,;:?)]>''"
    by code_simp
  then show ?thesis
    using assms unfolding compact_chars_def list_all_iff by blast
qed

lemma separator_none:
  "separator k p = [] \<Longrightarrow> \<not> is_binary_operator k \<and> \<not> is_binary_operator p \<and> (starts_compact k \<or> ends_compact p)"
  by (auto simp: separator_def starts_compact_def split: if_splits)

lemma separator_blank: "set (separator k p) \<subseteq> Collect is_blank"
  by (auto simp: separator_def is_blank_def)

lemma dot_text: "munch (CHR ''.'') cs = Lexeme k w None \<Longrightarrow> k = TK_Dot \<and> w = ''.''"
  by (simp add: munch_def single_tokens_def)

text \<open>Tokens between which the formatter leaves no blank do not run into each other.\<close>

lemma follow_extend:
  assumes sep: "separator k p = []" and w: "alone k w" and r: "follow (k # p # ks) r"
    and dec: "\<not> (p = TK_Dot \<and> ks \<noteq> [] \<and> hd ks = TK_IntegerLiteral \<and> k \<in> {TK_IntegerLiteral, TK_DecimalLiteral})"
  shows "follow (p # ks) (w @ r)"
proof -
  obtain c u where c: "w = c # u" "munch c (u @ '' '') = Lexeme k w None"
    using alone_Cons [OF w] by blast
  note s = separator_none [OF sep]
  have "stops p (w @ r)"
  proof (cases "starts_compact k")
    case True
    note n = compact_not [OF munch_kind_char [OF c(2) True]]
    have dot: "c = CHR ''.'' \<and> p = TK_IntegerLiteral \<Longrightarrow> u @ r = [] \<or> \<not> is_digit (hd (u @ r))"
      using c r dot_text [of "u @ '' ''" k w] by auto
    show ?thesis
      using n s dot c(1) by (auto simp: stops_def is_binary_operator_def split: token_kind.split)
  next
    case False
    then have "p \<in> {TK_LeftParen, TK_LeftBracket, TK_Less, TK_Dot, TK_Bang}" "c \<noteq> CHR ''=''"
      using s munch_char_kind [OF c(2)] by (auto simp: ends_compact_def is_binary_operator_def)
    then show ?thesis
      using c(1) by (auto simp: stops_def)
  qed
  moreover have "\<not> is_digit (hd (w @ r))" if "p = TK_Dot" "ks \<noteq> []" "hd ks = TK_IntegerLiteral"
    using that dec munch_char_kind [OF c(2)] c(1) by auto
  ultimately show ?thesis by simp
qed

lemma munch_string_last: "munch_string cs = (w, True) \<Longrightarrow> w \<noteq> [] \<and> last w = CHR 0x22"
  by (induction cs arbitrary: w rule: munch_string.induct) (auto split: prod.splits if_splits)

lemma number_chars: "munch_number cs = (k, w) \<Longrightarrow> \<forall>c \<in> set w. is_digit c \<or> c = CHR ''.''"
  by (auto simp: munch_number_def Let_def split: list.splits if_splits dest: set_takeWhileD)

lemma munch_either_text: "munch_either d e yes no cs = Lexeme k w None \<Longrightarrow> w = [d] \<or> w = [d, e]"
  by (auto simp: munch_either_def split: list.splits if_splits)

lemma munch_pair_text: "munch_pair d k' cs = Lexeme k w None \<Longrightarrow> w = [d, d]"
  by (auto simp: munch_pair_def split: list.splits if_splits)

lemma munch_last:
  assumes m: "munch c cs = Lexeme k w None" and "\<not> is_blank c"
  shows "w \<noteq> [] \<and> last w \<noteq> CHR 0x0A"
proof (cases "map_of single_tokens c")
  case (Some k')
  then show ?thesis using m assms(2) by (auto simp: munch_def is_blank_def)
next
  case None
  have nl: "\<not> is_digit (CHR 0x0A)" "\<not> is_identifier_part (CHR 0x0A)"
    by code_simp+
  have number: "munch_number t = (k, v) \<Longrightarrow> CHR 0x0A \<notin> set v" for t v
    using number_chars [of t k v] nl by fastforce
  have last: "v \<noteq> [] \<Longrightarrow> CHR 0x0A \<notin> set v \<Longrightarrow> last v \<noteq> CHR 0x0A" for v :: string
    using last_in_set by metis
  consider (negative) "c = CHR ''-''" "cs \<noteq> [] \<and> is_digit (hd cs)"
    | (minus) "c = CHR ''-''" "\<not> (cs \<noteq> [] \<and> is_digit (hd cs))"
    | (either) "c \<in> {CHR ''='', CHR ''!'', CHR ''<'', CHR ''>''}" | (pair) "c \<in> {CHR ''&'', CHR ''|''}" | (quote) "c = CHR 0x22"
    | (other) "c \<notin> set [CHR ''-'', CHR ''='', CHR ''!'', CHR ''<'', CHR ''>'', CHR ''&'', CHR ''|'', CHR 0x22]"
    by auto
  then show ?thesis
  proof cases
    case negative
    then obtain v where v: "munch_number cs = (k, v)" "w = c # v"
      using m None by (auto simp: munch_def split: prod.splits)
    then show ?thesis using number [OF v(1)] last [of v] negative by simp
  next
    case minus
    then show ?thesis using m munch_heads(1) [OF minus(2)] by (auto dest!: munch_either_text)
  next
    case either
    then show ?thesis using m by (auto simp: munch_heads dest!: munch_either_text)
  next
    case pair
    then show ?thesis using m by (auto simp: munch_heads dest!: munch_pair_text)
  next
    case quote
    then obtain v where v: "munch_string cs = (v, True)" "w = c # v"
      using m None by (auto simp: munch_def split: prod.splits if_splits)
    then show ?thesis using munch_string_last [OF v(1)] by simp
  next
    case other
    show ?thesis
    proof (cases "is_digit c")
      case True
      then have n: "munch_number (c # cs) = (k, w)"
        using m None other by (auto simp: munch_def split: prod.splits)
      then show ?thesis using number [OF n] munch_number_digit [OF True n] last [of w] by auto
    next
      case False
      then have "w = c # takeWhile is_identifier_part cs" "is_alpha c"
        using m None other by (auto simp: munch_def Let_def split: if_splits)
      moreover have "c \<noteq> CHR 0x0A"
        using assms(2) by (auto simp: is_blank_def)
      ultimately show ?thesis
        using last [of w] nl set_takeWhileD [of "CHR 0x0A" is_identifier_part cs] by (metis list.distinct(1) set_ConsD)
    qed
  qed
qed

section \<open>The formatter preserves the tokens\<close>

abbreviation newlines :: "string \<Rightarrow> bool" where
  "newlines t \<equiv> set t \<subseteq> {CHR 0x0A}"

abbreviation kinds_before :: "(token_kind \<times> string) list \<Rightarrow> token_kind list" where
  "kinds_before ws \<equiv> rev (map fst ws)"

text \<open>What the formatter has written: a text that gives the tokens \<open>ws\<close>, and newlines behind it when it is at
  the start of a line.\<close>

definition written :: "token_formatter \<Rightarrow> (token_kind \<times> string) list \<Rightarrow> bool" where
  "written f ws \<longleftrightarrow> (\<exists>core nls. tf_out f = core @ nls \<and> newlines nls \<and> lexes_as core ws (follow (kinds_before ws)) \<and>
     (core = [] \<or> last core \<noteq> CHR 0x0A) \<and>
     (if tf_at_line_start f then nls \<noteq> [] \<or> ws = [] else nls = [] \<and> ws \<noteq> [] \<and> tf_previous_kind f = fst (last ws)))"

lemma writtenI:
  assumes "tf_out f = core @ nls" "newlines nls" "lexes_as core ws (follow (kinds_before ws))" "core = [] \<or> last core \<noteq> CHR 0x0A"
    and "tf_at_line_start f \<Longrightarrow> nls \<noteq> [] \<or> ws = []"
    and "\<not> tf_at_line_start f \<Longrightarrow> nls = [] \<and> ws \<noteq> [] \<and> tf_previous_kind f = fst (last ws)"
  shows "written f ws"
  using assms unfolding written_def by (intro exI [of _ core] exI [of _ nls]) simp

lemma newline_is_blank: "newlines t \<Longrightarrow> set t \<subseteq> Collect is_blank"
  by (auto simp: is_blank_def)

lemma written_newline: "written f ws \<Longrightarrow> written (format_newline b f) ws"
proof -
  assume "written f ws"
  then obtain core nls where c: "tf_out f = core @ nls" "newlines nls" "lexes_as core ws (follow (kinds_before ws))"
      "core = [] \<or> last core \<noteq> CHR 0x0A"
    by (auto simp: written_def)
  show ?thesis
    by (rule writtenI [where core = core and
          nls = "nls @ [CHR 0x0A] @ (if b \<and> \<not> tf_previous_was_blank_line f then [CHR 0x0A] else [])"])
      (use c in \<open>auto simp: format_newline_def Let_def\<close>)
qed

text \<open>At the start of a line, and behind any blank, every rest is allowed.\<close>

lemma written_line_start:
  assumes "written f ws" and "tf_at_line_start f" and "set b \<subseteq> Collect is_blank"
  shows "lexes_as (tf_out f @ b) ws (\<lambda>_. True)"
proof -
  obtain core nls where c: "tf_out f = core @ nls" "newlines nls" "lexes_as core ws (follow (kinds_before ws))" "nls \<noteq> [] \<or> ws = []"
    using assms(1,2) by (auto simp: written_def)
  have "follow (kinds_before ws) ((nls @ b) @ r)" for r
  proof (cases nls)
    case Nil
    then show ?thesis using c(4) by simp
  next
    case (Cons n ns)
    then show ?thesis
      using c(2) follow_blank [of n "kinds_before ws" "ns @ b @ r"] by (simp add: is_blank_def)
  qed
  moreover have "set (nls @ b) \<subseteq> Collect is_blank"
    using assms(3) newline_is_blank [OF c(2)] by simp
  ultimately show ?thesis
    using lexes_blanks [OF c(3)] c(1) by simp
qed

lemma written_in_line:
  "written f ws \<Longrightarrow> \<not> tf_at_line_start f \<Longrightarrow>
   lexes_as (tf_out f) ws (follow (kinds_before ws)) \<and> ws \<noteq> [] \<and> tf_previous_kind f = fst (last ws)"
  by (auto simp: written_def)

lemma alone_last: "alone k w \<Longrightarrow> w \<noteq> [] \<and> last w \<noteq> CHR 0x0A"
  using alone_Cons munch_last by blast

lemma written_token:
  assumes "lexes_as t ws P" and "alone k w" and "\<And>r. follow (k # kinds_before ws) r \<Longrightarrow> P (w @ r)"
    and "tf_out f = t @ w" and "\<not> tf_at_line_start f" and "tf_previous_kind f = k"
  shows "written f (ws @ [(k, w)])"
proof (rule writtenI [where core = "t @ w" and nls = "[]"])
  show "lexes_as (t @ w) (ws @ [(k, w)]) (follow (kinds_before (ws @ [(k, w)])))"
    by (rule lexes_token [OF assms(1,2)]) (use assms(3) in auto)
qed (use assms alone_last [OF assms(2)] in auto)

text \<open>The source has no number, dot and number behind each other.\<close>

fun number_dot_number :: "token_kind list \<Rightarrow> bool" where
  "number_dot_number (a # b # c # ks) \<longleftrightarrow>
     a = TK_IntegerLiteral \<and> b = TK_Dot \<and> c \<in> {TK_IntegerLiteral, TK_DecimalLiteral} \<or> number_dot_number (b # c # ks)"
| "number_dot_number _ \<longleftrightarrow> False"

definition no_broken_decimal :: "token_kind list \<Rightarrow> token_kind \<Rightarrow> bool" where
  "no_broken_decimal ks k \<longleftrightarrow>
     (case ks of p # q # _ \<Rightarrow> \<not> (p = TK_Dot \<and> q = TK_IntegerLiteral \<and> k \<in> {TK_IntegerLiteral, TK_DecimalLiteral}) | _ \<Rightarrow> True)"

lemma kinds_before_last: "ws \<noteq> [] \<Longrightarrow> \<exists>ks. kinds_before ws = fst (last ws) # ks"
  by (cases ws rule: rev_cases) auto

text \<open>The text in front of a token, and the token.\<close>

definition put_token :: "token \<Rightarrow> token_formatter \<Rightarrow> token_formatter" where
  "put_token t f =
     (write_out (tok_lexeme t) (if tf_at_line_start f then (write_out (indentation (tf_indent f)) f)\<lparr>tf_at_line_start := False\<rparr>
        else write_out (separator (tok_kind t) (tf_previous_kind f)) f))\<lparr>tf_previous_kind := tok_kind t\<rparr>"

lemma indentation_blank: "set (indentation n) \<subseteq> Collect is_blank"
  by (auto simp: indentation_def is_blank_def)

lemma written_put_token:
  assumes f: "written f ws" and w: "alone (tok_kind t) (tok_lexeme t)" and dec: "no_broken_decimal (kinds_before ws) (tok_kind t)"
  shows "written (put_token t f) (ws @ [(tok_kind t, tok_lexeme t)])"
proof (cases "tf_at_line_start f")
  case True
  show ?thesis
    by (rule written_token [OF written_line_start [OF f True indentation_blank] w])
      (simp_all add: put_token_def write_out_def True)
next
  case False
  let ?s = "separator (tok_kind t) (tf_previous_kind f)"
  have l: "lexes_as (tf_out f) ws (follow (kinds_before ws))" and ne: "ws \<noteq> []" and p: "tf_previous_kind f = fst (last ws)"
    using written_in_line [OF f False] by simp_all
  obtain ks where ks: "kinds_before ws = tf_previous_kind f # ks"
    using kinds_before_last [OF ne] p by auto
  show ?thesis
  proof (cases "?s = []")
    case True
    have dec': "\<not> (tf_previous_kind f = TK_Dot \<and> ks \<noteq> [] \<and> hd ks = TK_IntegerLiteral \<and>
        tok_kind t \<in> {TK_IntegerLiteral, TK_DecimalLiteral})"
      using dec ks by (cases ks) (auto simp: no_broken_decimal_def)
    have "follow (kinds_before ws) (tok_lexeme t @ r)" if "follow (tok_kind t # kinds_before ws) r" for r
      using follow_extend [OF True w _ dec'] that unfolding ks by blast
    then show ?thesis
      by (intro written_token [OF l w]) (simp_all add: put_token_def write_out_def False True)
  next
    case ne: False
    then obtain c b where c: "?s = c # b" "is_blank c"
      using separator_blank [of "tok_kind t" "tf_previous_kind f"] by (cases ?s) auto
    have "lexes_as (tf_out f @ ?s) ws (\<lambda>_. True)"
      by (rule lexes_blanks [OF l separator_blank]) (use c follow_blank in auto)
    from written_token [OF this w] show ?thesis
      by (simp add: put_token_def write_out_def False)
  qed
qed

lemma written_fields:
  "tf_out f = tf_out g \<Longrightarrow> tf_at_line_start f = tf_at_line_start g \<Longrightarrow> tf_previous_kind f = tf_previous_kind g \<Longrightarrow>
   written f ws = written g ws"
  by (simp add: written_def)

lemma format_other_put:
  "format_other_token ts i f =
     (let g = put_token (ts ! i) f;
          g = (if tok_kind (ts ! i) = TK_LeftBrace then open_block ts i (g\<lparr>tf_previous_kind := tf_previous_kind f\<rparr>)
               else if tok_kind (ts ! i) = TK_Semicolon then format_newline False g else g)
      in g\<lparr>tf_previous_kind := tok_kind (ts ! i), tf_previous_source_line := begin_line (ts ! i)\<rparr>)"
  by (auto simp: format_other_token_def put_token_def Let_def write_out_def format_newline_def open_block_def)

lemma open_block_out:
  "tf_out (open_block ts i f) = tf_out f @ [CHR 0x0A]" "tf_at_line_start (open_block ts i f)"
  by (simp_all add: open_block_def format_newline_def Let_def)

lemma written_at_start: "written f ws \<Longrightarrow> tf_at_line_start f \<Longrightarrow> tf_out g = tf_out f \<Longrightarrow> tf_at_line_start g \<Longrightarrow> written g ws"
  by (simp add: written_def)

lemma written_other:
  assumes f: "written f ws" and w: "alone (tok_kind (ts ! i)) (tok_lexeme (ts ! i))"
    and dec: "no_broken_decimal (kinds_before ws) (tok_kind (ts ! i))"
  shows "written (format_other_token ts i f) (ws @ [(tok_kind (ts ! i), tok_lexeme (ts ! i))])"
proof -
  let ?t = "ts ! i" and ?g = "put_token (ts ! i) f" and ?ws = "ws @ [(tok_kind (ts ! i), tok_lexeme (ts ! i))]"
  have g: "written ?g ?ws"
    using written_put_token [OF f w dec] .
  show ?thesis
  proof (cases "tok_kind ?t = TK_LeftBrace \<or> tok_kind ?t = TK_Semicolon")
    case True
    have at: "tf_at_line_start (format_newline False ?g)"
      by (simp add: format_newline_def Let_def)
    have out: "tf_out (format_other_token ts i f) = tf_out (format_newline False ?g)" "tf_at_line_start (format_other_token ts i f)"
      using True by (elim disjE; simp add: format_other_put Let_def open_block_out format_newline_def)+
    show ?thesis
      using written_at_start [OF written_newline [OF g] at out] .
  next
    case False
    have "written (format_other_token ts i f) ?ws = written ?g ?ws"
      by (rule written_fields) (use False in \<open>simp_all add: format_other_put Let_def put_token_def write_out_def\<close>)
    then show ?thesis
      using g by simp
  qed
qed

lemma written_right_brace:
  assumes f: "written f ws" and w: "alone (tok_kind (ts ! i)) (tok_lexeme (ts ! i))" and k: "tok_kind (ts ! i) = TK_RightBrace"
  shows "written (format_right_brace ts i f) (ws @ [(tok_kind (ts ! i), tok_lexeme (ts ! i))])"
proof -
  let ?t = "ts ! i" and ?ws = "ws @ [(tok_kind (ts ! i), tok_lexeme (ts ! i))]"
  define g where "g = (if \<not> tf_at_line_start f then format_newline False f else f)"
  have "written g ws"
    using f written_newline [OF f] by (simp add: g_def)
  moreover have "tf_at_line_start g"
    by (simp add: g_def format_newline_def Let_def)
  ultimately have g: "written g ws" "tf_at_line_start g" .
  define h where "h = (write_out (indentation (tf_indent g - 1) @ ''}'') (g\<lparr>tf_indent := tf_indent g - 1,
    tf_block_stack := tl (tf_block_stack g), tf_block_name_stack := tl (tf_block_name_stack g)\<rparr>))
    \<lparr>tf_at_line_start := False, tf_previous_kind := tok_kind ?t\<rparr>"
  have lexeme: "tok_lexeme ?t = ''}''"
    using right_brace_text w k by simp
  have h: "written h ?ws"
    by (rule written_token [OF written_line_start [OF g indentation_blank [of "tf_indent g - 1"]] w])
      (simp_all add: h_def write_out_def lexeme)
  have "format_right_brace ts i f =
      (if tok_kind (ts ! Suc i) \<noteq> TK_EndOfFile
       then format_newline (tf_indent h = 0 \<or> sl_line (sr_end (tok_range ?t)) + 1 < begin_line (ts ! Suc i)) h else h)
      \<lparr>tf_previous_source_line := begin_line ?t\<rparr>"
    by (simp add: format_right_brace_def Let_def g_def h_def write_out_def)
  moreover have "written (x\<lparr>tf_previous_source_line := n\<rparr>) ?ws = written x ?ws" for x n
    by (rule written_fields) simp_all
  ultimately show ?thesis
    using h written_newline [OF h] by simp
qed

lemma written_format_token:
  assumes f: "written f ws" and w: "alone (tok_kind (ts ! i)) (tok_lexeme (ts ! i))"
    and dec: "no_broken_decimal (kinds_before ws) (tok_kind (ts ! i))"
  shows "written (format_token ts i f) (ws @ [(tok_kind (ts ! i), tok_lexeme (ts ! i))])"
proof -
  have "written (break_line (ts ! i) f) ws"
    using f written_newline [OF f] by (simp add: break_line_def)
  then show ?thesis
    using written_right_brace [OF _ w] written_other [OF _ w dec] by (simp add: format_token_def Let_def)
qed

text \<open>The kinds and lexemes of tokens.\<close>

definition token_words :: "token list \<Rightarrow> (token_kind \<times> string) list" where
  "token_words = map (\<lambda>t. (tok_kind t, tok_lexeme t))"

lemma token_words_simps [simp]:
  "token_words [] = []" "token_words (ts @ us) = token_words ts @ token_words us"
  "token_words (t # ts) = (tok_kind t, tok_lexeme t) # token_words ts" "map fst (token_words ts) = map tok_kind ts"
  by (simp_all add: token_words_def)

lemma number_dot_number_snoc: "number_dot_number ks \<Longrightarrow> number_dot_number (ks @ ls)"
  by (induction ks rule: number_dot_number.induct) auto

lemma broken_decimal_at:
  "\<not> number_dot_number (as @ k # bs) \<Longrightarrow> no_broken_decimal (rev as) k"
proof (induction as rule: number_dot_number.induct)
  case (1 a b c ks)
  have "no_broken_decimal (rev (b # c # ks)) k"
    using 1 by simp
  moreover obtain p q xs where "rev (b # c # ks) = p # q # xs"
    by (metis length_Cons length_rev length_Suc_conv)
  ultimately show ?case
    by (simp add: no_broken_decimal_def)
qed (auto simp: no_broken_decimal_def split: list.splits)

lemma format_loop_written:
  assumes tokens: "\<forall>t \<in> set body. tok_kind t \<noteq> TK_EndOfFile \<and> alone (tok_kind t) (tok_lexeme t)"
    and "tok_kind eof = TK_EndOfFile" and dec: "\<not> number_dot_number (map tok_kind body)"
  shows "i \<le> length body \<Longrightarrow> written f (token_words (take i body)) \<Longrightarrow>
    written (format_loop (body @ [eof]) i f) (token_words body)"
proof (induction "length body - i" arbitrary: i f)
  case 0
  then have "i = length body"
    by simp
  then show ?case
    using 0 assms(2) by (subst format_loop.simps) simp
next
  case (Suc n)
  then have i: "i < length body"
    by simp
  have t: "(body @ [eof]) ! i = body ! i" "body ! i \<in> set body"
    using i by (simp_all add: nth_append)
  have "map tok_kind body = map tok_kind (take i body) @ tok_kind (body ! i) # map tok_kind (drop (Suc i) body)"
    using i by (metis append_take_drop_id Cons_nth_drop_Suc list.simps(9) map_append)
  then have "no_broken_decimal (kinds_before (token_words (take i body))) (tok_kind (body ! i))"
    using broken_decimal_at dec by simp
  then have "written (format_token (body @ [eof]) i f) (token_words (take i body) @ [(tok_kind (body ! i), tok_lexeme (body ! i))])"
    using written_format_token [OF Suc.prems(2), of "body @ [eof]" i] tokens t by simp
  then have "written (format_loop (body @ [eof]) (Suc i) (format_token (body @ [eof]) i f)) (token_words body)"
    using Suc.hyps i by (simp add: take_Suc_conv_app_nth)
  then show ?case
    using i t tokens by (subst format_loop.simps) simp
qed

lemma end_with_newline_core:
  assumes "core = [] \<or> last core \<noteq> CHR 0x0A" and "newlines nls"
  shows "end_with_newline (core @ nls) = core @ [CHR 0x0A]"
proof -
  have "dropWhile (\<lambda>ch. ch = CHR 0x0A) (rev nls @ rev core) = rev core"
    using assms by (cases core rule: rev_cases) (auto simp: dropWhile_append)
  then show ?thesis
    by (simp add: end_with_newline_def)
qed

lemma format_tokens_lexes:
  assumes "\<forall>t \<in> set body. tok_kind t \<noteq> TK_EndOfFile \<and> alone (tok_kind t) (tok_lexeme t)" and "tok_kind eof = TK_EndOfFile"
    and "\<not> number_dot_number (map tok_kind body)"
  shows "lexemes (items (format_tokens (body @ [eof]) [])) = token_words body \<and> faultless (items (format_tokens (body @ [eof]) []))"
proof -
  have "written new_token_formatter (token_words (take 0 body))"
    by (rule writtenI [where core = "[]" and nls = "[]"]) (simp_all add: new_token_formatter_def lexes_as_def)
  from format_loop_written [OF assms le0 this] obtain core nls where
    out: "tf_out (format_loop (body @ [eof]) 0 new_token_formatter) = core @ nls" "newlines nls"
      "lexes_as core (token_words body) (follow (kinds_before (token_words body)))" "core = [] \<or> last core \<noteq> CHR 0x0A"
    by (auto simp: written_def)
  have "format_tokens (body @ [eof]) [] = core @ [CHR 0x0A]"
    using end_with_newline_core [OF out(4,2)] by (simp add: format_tokens_def out(1))
  moreover have "is_blank (CHR 0x0A)" "lexemes (items [CHR 0x0A]) = []" "faultless (items [CHR 0x0A])"
    by code_simp+
  ultimately show ?thesis
    using out(3) follow_blank [of "CHR 0x0A" _ "[]"] by (auto simp: lexes_as_def)
qed

text \<open>C40: The token formatter preserves the tokens: if a source has no lexical fault, then lexing what the
  formatter makes of its tokens gives tokens of the same kinds and lexemes and again no fault;
  unless an integer, a dot and a number follow each other, which would become a decimal number.\<close>

theorem format_tokens_preserves:
  assumes "lex source [] = (ts, [])" and "\<not> number_dot_number (map tok_kind ts)"
    and "lex \<lparr>sf_path = path, sf_text = format_tokens ts []\<rparr> [] = (ts', ds')"
  shows "ds' = [] \<and>
    map (\<lambda>t. (tok_kind t, tok_lexeme t)) ts' = map (\<lambda>t. (tok_kind t, tok_lexeme t)) ts"
proof -
  obtain body eof where ts: "ts = body @ [eof]" "tok_kind eof = TK_EndOfFile" "tok_lexeme eof = []"
      "token_words body = lexemes (items (sf_text source))" "faultless (items (sf_text source))"
    using assms(1) by (auto simp: lex_items item_tokens_lexemes token_words_def item_diagnostics_none)
  have "tok_kind t \<noteq> TK_EndOfFile \<and> alone (tok_kind t) (tok_lexeme t)" if "t \<in> set body" for t
  proof -
    have "(tok_kind t, tok_lexeme t) \<in> set (lexemes (items (sf_text source)))"
      using that ts(4) by (metis (no_types, lifting) image_eqI image_set token_words_def)
    then obtain c u where cu: "tok_lexeme t = c # u" "\<not> is_blank c" "\<And>r. first_item c (u @ CHR '' '' # r) = Lexeme (tok_kind t) (tok_lexeme t) None"
      using items_lexemes_local ts(5) by blast
    have "tok_kind t \<in> other_kinds \<union> snd ` set single_tokens"
      by (rule munch_kind_known [OF munch_not_blank(1) [OF cu(3) [of "[]"]]])
    then show ?thesis
      using cu by (auto simp: alone_def other_kinds_def single_tokens_def)
  qed
  moreover have "\<not> number_dot_number (map tok_kind body)"
    using assms(2) number_dot_number_snoc ts(1) by auto
  ultimately have "lexemes (items (format_tokens ts [])) = token_words body" "faultless (items (format_tokens ts []))"
    using format_tokens_lexes [of body eof] ts(1,2) by blast+
  then show ?thesis
    using assms(3) ts by (auto simp: lex_items item_tokens_lexemes item_diagnostics_none token_words_def)
qed

lemma sample_kinds:
  "map tok_kind (fst (lex sample_source [])) =
     [TK_Identifier, TK_Identifier, TK_DecimalLiteral, TK_EqualEqual, TK_EndOfFile]"
proof -
  obtain body eof where b: "fst (lex sample_source []) = body @ [eof]" "tok_kind eof = TK_EndOfFile"
      "token_words body = lexemes (items (sf_text sample_source))"
    by (auto simp: lex_items item_tokens_lexemes token_words_def)
  have "map tok_kind body = map fst (token_words body)"
    by simp
  also have "\<dots> = [TK_Identifier, TK_Identifier, TK_DecimalLiteral, TK_EqualEqual]"
    by (simp only: b(3) sample_items lexemes.simps list.simps fst_conv)
  finally show ?thesis
    using b(1,2) by simp
qed

lemma format_tokens_preserves_witness:
  "snd (lex \<lparr>sf_path = [], sf_text = format_tokens (fst (lex sample_source [])) []\<rparr> []) = [] \<and>
   map (\<lambda>t. (tok_kind t, tok_lexeme t)) (fst (lex \<lparr>sf_path = [], sf_text = format_tokens (fst (lex sample_source [])) []\<rparr> [])) =
   map (\<lambda>t. (tok_kind t, tok_lexeme t)) (fst (lex sample_source []))"
proof -
  have 1: "lex sample_source [] = (fst (lex sample_source []), [])"
    using sample_lex(1) by (metis prod.collapse)
  have 2: "\<not> number_dot_number (map tok_kind (fst (lex sample_source [])))"
    by (simp add: sample_kinds)
  show ?thesis
    by (rule format_tokens_preserves [OF 1 2 surjective_pairing])
qed

end
