(* ===== verification/Formatter_Ast.thy ===== *)
theory Formatter_Ast
  imports Formatter_Tokens Ast
begin

text \<open>
  The formatter of the syntax tree, the class \<open>AstFormatter\<close> of \<open>src/formatter.cpp\<close>: one definition per
  method, a writer that appends to the output. \<open>Formatter_Props\<close> has what it keeps of the tree.
\<close>

section \<open>The output\<close>

record ast_formatter =
  af_out :: string
  af_indent :: nat
  af_previous_blank :: bool

type_synonym writer = "ast_formatter \<Rightarrow> ast_formatter"

definition new_ast_formatter :: ast_formatter where
  "new_ast_formatter = \<lparr>af_out = [], af_indent = 0, af_previous_blank = False\<rparr>"

definition write_line :: "string \<Rightarrow> writer" where
  "write_line t w =
     w\<lparr>af_out := af_out w @ indentation (af_indent w) @ t @ [CHR 0x0A], af_previous_blank := False\<rparr>"

definition write_blank :: writer where
  "write_blank w =
     (if \<not> af_previous_blank w then w\<lparr>af_out := af_out w @ [CHR 0x0A], af_previous_blank := True\<rparr> else w)"

definition write_block :: "string \<Rightarrow> writer \<Rightarrow> writer" where
  "write_block header body w =
     (let w = write_line (header @ '' {'') w;
          w = w\<lparr>af_indent := af_indent w + 1\<rparr>;
          w = body w;
          w = w\<lparr>af_indent := af_indent w - 1\<rparr>
      in write_line ''}'' w)"

text \<open>Statements one after the other, the loops of the code, and what is written for a member that has a
  value.\<close>

definition write_all :: "writer list \<Rightarrow> writer" where
  "write_all fs w = fold (\<lambda>f. f) fs w"

definition write_each :: "('a \<Rightarrow> writer) \<Rightarrow> 'a list \<Rightarrow> writer" where
  "write_each f xs w = fold f xs w"

definition write_given :: "'a option \<Rightarrow> ('a \<Rightarrow> writer) \<Rightarrow> writer" where
  "write_given x f w = (case x of None \<Rightarrow> w | Some y \<Rightarrow> f y w)"

definition write_if :: "bool \<Rightarrow> writer \<Rightarrow> writer" where
  "write_if b f w = (if b then f w else w)"

section \<open>Texts\<close>

fun join_text :: "string list \<Rightarrow> string \<Rightarrow> string" where
  "join_text [] sep = []"
| "join_text [v] sep = v"
| "join_text (v # vs) sep = v @ sep @ join_text vs sep"

definition bool_text :: "bool \<Rightarrow> string" where
  "bool_text b = (if b then ''true'' else ''false'')"

definition quoted_text :: "string \<Rightarrow> string" where
  "quoted_text v =
     [CHR 0x22] @ concat (map (\<lambda>ch. (if ch = CHR 0x22 \<or> ch = CHR 0x5C then [CHR 0x5C] else []) @ [ch]) v) @ [CHR 0x22]"

definition literal_text :: "string \<Rightarrow> string option \<Rightarrow> string" where
  "literal_text v kind = (if kind = Some (token_kind_name TK_StringLiteral) then quoted_text v else v)"

text \<open>The code replaces every match from left to right and goes on behind the replacement. Its patterns are
  not empty.\<close>

function replace_all :: "string \<Rightarrow> string \<Rightarrow> string \<Rightarrow> string" where
  "replace_all from to e =
     (case e of [] \<Rightarrow> []
      | c # cs \<Rightarrow>
          if from \<noteq> [] \<and> take (length from) e = from then to @ replace_all from to (drop (length from) e)
          else c # replace_all from to cs)"
  by auto
termination by (relation "measure (\<lambda>(from, to, e). length e)") auto

declare replace_all.simps [simp del]

definition normalized_expression :: "string \<Rightarrow> string" where
  "normalized_expression e =
     (let e = replace_all '' . '' ''.'' e;
          e = replace_all ''[ '' ''['' e;
          e = replace_all '' ]'' '']'' e;
          e = replace_all ''( '' ''('' e;
          e = replace_all '' )'' '')'' e
      in replace_all '' ,'' '','' e)"

definition bracketed_text :: "string list \<Rightarrow> string" where
  "bracketed_text vs = ''['' @ join_text vs '', '' @ '']''"

section \<open>Declarations\<close>

definition write_fields_block :: "string \<Rightarrow> FieldDecl list \<Rightarrow> writer" where
  "write_fields_block name fs = write_block name (write_each (\<lambda>f. write_line (fd_name f @ '' '' @ fd_type f)) fs)"

definition write_value :: "ValueDecl \<Rightarrow> writer" where
  "write_value v =
     write_line (''value '' @ vd_name v @ '': '' @ vd_type v @
       (case vd_constraint v of None \<Rightarrow> [] | Some c \<Rightarrow> '' where '' @ normalized_expression c) @ '';'')"

definition write_enum_member :: "EnumMemberDecl \<Rightarrow> writer" where
  "write_enum_member m =
     (case em_value m of
        Some v \<Rightarrow> write_line (em_name m @ '' = '' @ literal_text v (em_value_kind m))
      | None \<Rightarrow> write_line (em_name m))"

definition write_enum :: "EnumDecl \<Rightarrow> writer" where
  "write_enum d = write_block (''enum '' @ en_name d) (write_each write_enum_member (en_members d))"

definition write_shape :: "ShapeDecl \<Rightarrow> writer" where
  "write_shape d = write_fields_block (''shape '' @ sh_name d) (sh_fields d)"

definition write_event :: "EventDecl \<Rightarrow> writer" where
  "write_event d = write_block (''event '' @ ev_name d) (write_fields_block ''fields'' (ev_fields d))"

definition write_feature_flag :: "FeatureFlagDecl \<Rightarrow> writer" where
  "write_feature_flag d = write_block (''feature_flag '' @ ff_name d) (write_all
     [write_given (ff_type d) (\<lambda>t. write_line (''type '' @ t)),
      write_given (ff_default_value d) (\<lambda>v. write_line (''default '' @ literal_text v (ff_default_value_kind d))),
      write_given (ff_scope d) (\<lambda>t. write_line (''scope '' @ t)),
      write_given (ff_owner d) (\<lambda>t. write_line (''owner '' @ quoted_text t)),
      write_given (ff_description d) (\<lambda>t. write_line (''description '' @ quoted_text t)),
      write_given (ff_expires d) (\<lambda>t. write_line (''expires '' @ quoted_text t))])"

definition write_log :: "LogDecl \<Rightarrow> writer" where
  "write_log d = write_block (''log '' @ lg_name d) (write_all
     [write_given (lg_level d) (\<lambda>t. write_line (''level '' @ t)),
      write_given (lg_event_name d) (\<lambda>t. write_line (''event_name '' @ quoted_text t)),
      write_if (lg_fields d \<noteq> []) (write_fields_block ''fields'' (lg_fields d))])"

definition write_metric :: "MetricDecl \<Rightarrow> writer" where
  "write_metric d = write_block (''metric '' @ mt_name d) (write_all
     [write_given (mt_kind d) (\<lambda>t. write_line (''kind '' @ t)),
      write_given (mt_backend_name d) (\<lambda>t. write_line (''name '' @ quoted_text t)),
      write_given (mt_unit d) (\<lambda>t. write_line (''unit '' @ t)),
      write_if (mt_labels d \<noteq> []) (write_fields_block ''labels'' (mt_labels d))])"

definition write_external_system_metadata :: "ExternalSystemMetadataDecl \<Rightarrow> writer" where
  "write_external_system_metadata d = write_block ''metadata'' (write_all
     [write_given (xd_entity d) (\<lambda>t. write_line (''entity '' @ t)),
      write_given (xd_profile_field d) (\<lambda>t. write_line (''profile_field '' @ t)),
      write_if (xd_required_fields d \<noteq> []) (write_line (''required_fields'' @ bracketed_text (xd_required_fields d))),
      write_if (xd_mappings d \<noteq> []) (write_block ''mappings''
        (write_each (\<lambda>m. write_line (xm_source m @ '' -> '' @ xm_target m)) (xd_mappings d)))])"

definition write_external_system :: "ExternalSystemDecl \<Rightarrow> writer" where
  "write_external_system d = write_block (''external_system '' @ xs_name d) (write_all
     [write_each (\<lambda>p. write_line (xp_name p @ '': '' @ literal_text (xp_value p) (xp_value_kind p))) (xs_properties d),
      write_given (xs_metadata d) write_external_system_metadata])"

section \<open>Entities\<close>

definition write_ownership :: "OwnershipDecl \<Rightarrow> writer" where
  "write_ownership d = write_block ''ownership'' (write_all
     [write_given (ow_authority d) (\<lambda>t. write_line (''authority: '' @ t)),
      write_given (ow_system_of_record d) (\<lambda>t. write_line (''system_of_record: '' @ t)),
      write_given (ow_lifecycle d) (\<lambda>t. write_line (''lifecycle: '' @ t))])"

definition relation_target :: "RelationDecl \<Rightarrow> string" where
  "relation_target r =
     (if re_kind r = ''parent'' \<and> re_optional r \<and> take 9 (re_target r) \<noteq> ''optional '' \<and> CHR ''?'' \<notin> set (re_target r)
      then ''optional '' @ re_target r else re_target r)"

definition write_relation :: "RelationDecl \<Rightarrow> writer" where
  "write_relation r =
     (let header = re_kind r @ '' '' @ re_name r @ '': '' @ relation_target r;
          has_options = re_relation_kind r \<noteq> None \<or> re_on_parent_delete r \<noteq> None \<or> re_parent_must_be_in r \<noteq> [] \<or>
            re_unique_within_parent r \<noteq> []
      in if \<not> has_options then write_line header
         else write_block header (write_all
           [write_given (re_relation_kind r) (\<lambda>t. write_line (''kind: '' @ t)),
            write_given (re_on_parent_delete r) (\<lambda>t. write_line (''on_parent_delete: '' @ t)),
            write_if (re_parent_must_be_in r \<noteq> []) (write_line (''parent_must_be_in: '' @ bracketed_text (re_parent_must_be_in r))),
            write_if (re_unique_within_parent r \<noteq> [])
              (write_line (''unique_within_parent: '' @ bracketed_text (re_unique_within_parent r)))]))"

definition write_relations :: "RelationDecl list \<Rightarrow> writer" where
  "write_relations rs = write_block ''relations'' (write_each write_relation rs)"

definition write_children :: "ChildDecl list \<Rightarrow> writer" where
  "write_children cs = write_block ''children''
     (write_each (\<lambda>c. write_line (ch_name c @ '': '' @ ch_target_entity c @ '' by '' @ ch_relation c)) cs)"

definition write_invariants :: "InvariantDecl list \<Rightarrow> writer" where
  "write_invariants vs = write_block ''invariants''
     (write_each (\<lambda>v. write_line (iv_name v @ '': '' @ normalized_expression (iv_expression v))) vs)"

definition write_indexes :: "IndexDecl list \<Rightarrow> writer" where
  "write_indexes xs = write_block ''indexes''
     (write_each (\<lambda>x. write_line ((if ix_unique x then ''unique '' else ''index '') @ ix_name x @ '' on '' @
        join_text (ix_fields x) '', '')) xs)"

definition optional_name :: "string \<Rightarrow> string option \<Rightarrow> string" where
  "optional_name keyword name = keyword @ (case name of None \<Rightarrow> [] | Some n \<Rightarrow> '' '' @ n)"

definition write_entity_api_simple_operation :: "string \<Rightarrow> EntityApiOperationDecl \<Rightarrow> writer" where
  "write_entity_api_simple_operation keyword d = write_line (optional_name keyword (ao_name d))"

definition write_entity_api_create :: "EntityApiCreateDecl \<Rightarrow> writer" where
  "write_entity_api_create d =
     (let header = optional_name ''create'' (ac_name d)
      in if ac_fields d = [] then write_line header
         else write_block header (write_line (''fields '' @ bracketed_text (ac_fields d))))"

definition write_entity_api_list :: "EntityApiListDecl \<Rightarrow> writer" where
  "write_entity_api_list d = write_block (optional_name ''list'' (al_name d)) (write_all
     [write_given (al_path d) (\<lambda>t. write_line (''path '' @ quoted_text t)),
      write_if (al_by d \<noteq> []) (write_line (''by '' @ bracketed_text (al_by d)))])"

definition write_entity_api :: "EntityApiDecl \<Rightarrow> writer" where
  "write_entity_api d = write_block ''api'' (write_all
     [write_given (ea_resource d) (\<lambda>t. write_line (''resource '' @ quoted_text t)),
      write_given (ea_create d) write_entity_api_create,
      write_given (ea_get d) (write_entity_api_simple_operation ''get''),
      write_each write_entity_api_list (ea_lists d),
      write_given (ea_update_status d) (write_entity_api_simple_operation ''update_status''),
      write_given (ea_delete d) (write_entity_api_simple_operation ''delete'')])"

definition write_garbage_collection :: "GarbageCollectionPolicyDecl \<Rightarrow> writer" where
  "write_garbage_collection g = write_block ''garbage_collection'' (write_all
     [write_given (gc_after g) (\<lambda>t. write_line (''after: '' @ t)),
      write_given (gc_mode g) (\<lambda>t. write_line (''mode: '' @ t))])"

definition write_state :: "StateDecl \<Rightarrow> writer" where
  "write_state s =
     (if sd_terminal s \<or> sd_garbage_collection s \<noteq> None
      then write_block (''state '' @ sd_name s) (write_all
        [write_if (sd_terminal s) (write_line ''terminal: true''),
         write_given (sd_garbage_collection s) write_garbage_collection])
      else write_line (''state '' @ sd_name s))"

definition write_state_machine :: "StateMachineDecl \<Rightarrow> writer" where
  "write_state_machine d = write_block ''state_machine'' (write_all
     [write_each write_state (sm_states d),
      write_given (sm_initial_state d) (\<lambda>t. write_line (''initial '' @ t)),
      write_if (sm_terminal_states d \<noteq> [])
        (if length (sm_terminal_states d) = 1 then write_line (''terminal '' @ hd (sm_terminal_states d))
         else write_line (''terminal'' @ bracketed_text (sm_terminal_states d))),
      write_each (\<lambda>t. write_line (td_from t @ '' -> '' @ td_to t)) (sm_transitions d)])"

definition write_entity :: "EntityDecl \<Rightarrow> writer" where
  "write_entity d = write_block (''entity '' @ et_name d) (write_all
     [write_if (et_key_fields d \<noteq> []) (write_line (''key '' @ join_text (et_key_fields d) '', '')),
      write_given (et_ownership d) write_ownership,
      write_fields_block ''fields'' (et_fields d),
      write_given (et_state_machine d) write_state_machine,
      write_if (et_relations d \<noteq> []) (write_relations (et_relations d)),
      write_if (et_children d \<noteq> []) (write_children (et_children d)),
      write_if (et_invariants d \<noteq> []) (write_invariants (et_invariants d)),
      write_if (et_indexes d \<noteq> []) (write_indexes (et_indexes d)),
      write_given (et_api d) write_entity_api])"

section \<open>Queues, leases, workers and APIs\<close>

definition write_message :: "MessageDecl \<Rightarrow> writer" where
  "write_message m = write_block (''message '' @ ms_name m) (write_all
     [write_given (ms_idempotency_key m) (\<lambda>t. write_line (''idempotency_key '' @ t)),
      write_fields_block ''payload'' (ms_payload_fields m)])"

definition write_queue :: "QueueDecl \<Rightarrow> writer" where
  "write_queue d = write_block (''queue '' @ qu_name d) (write_all
     [write_given (qu_namespace_name d) (\<lambda>t. write_line (''namespace '' @ t)),
      write_given (qu_channel d) (\<lambda>t. write_line (''channel '' @ t)),
      write_given (qu_visibility_timeout d) (\<lambda>t. write_line (''visibility_timeout '' @ t)),
      write_given (qu_max_attempts d) (\<lambda>n. write_line (''max_attempts '' @ show_int n)),
      write_given (qu_dead_letter d) (\<lambda>t. write_line (''dead_letter '' @ t)),
      write_each write_message (qu_messages d)])"

definition write_lease :: "LeaseDecl \<Rightarrow> writer" where
  "write_lease d = write_block (''lease '' @ ls_name d) (write_all
     [write_given (ls_resource d) (\<lambda>t. write_line (''resource '' @ quoted_text t)),
      write_given (ls_ttl d) (\<lambda>t. write_line (''ttl '' @ t)),
      write_given (ls_renew_every d) (\<lambda>t. write_line (''renew_every '' @ t)),
      write_given (ls_holder d) (\<lambda>t. write_line (''holder '' @ t)),
      write_given (ls_fencing_token d) (\<lambda>b. write_line (''fencing_token '' @ bool_text b)),
      write_given (ls_max_ttl d) (\<lambda>t. write_line (''max_ttl '' @ t))])"

definition write_worker :: "WorkerDecl \<Rightarrow> writer" where
  "write_worker d = write_block (''worker '' @ wk_name d) (write_all
     [write_given (wk_singleton d) (\<lambda>b. write_line (''singleton '' @ bool_text b)),
      write_given (wk_lease d) (\<lambda>t. write_line (''lease '' @ t)),
      write_given (wk_polls d) (\<lambda>t. write_line (''polls '' @ t)),
      write_given (wk_executes d) (\<lambda>t. write_line (''executes '' @ t)),
      write_given (wk_concurrency d) (\<lambda>n. write_line (''concurrency '' @ show_int n))])"

definition write_api :: "ApiDecl \<Rightarrow> writer" where
  "write_api d = write_block (''api '' @ ap_name d) (write_all
     [write_given (ap_method d) (\<lambda>t. write_line (''method '' @ t)),
      write_given (ap_path d) (\<lambda>t. write_line (''path '' @ quoted_text t)),
      write_given (ap_input d) (\<lambda>t. write_line (''input '' @ t)),
      write_given (ap_output d) (\<lambda>t. write_line (''output '' @ t)),
      write_given (ap_error d) (\<lambda>t. write_line (''error '' @ t)),
      write_given (ap_starts_workflow d) (\<lambda>t. write_line (''starts workflow '' @ t)),
      write_given (ap_enqueues d) (\<lambda>t. write_line (''enqueues '' @ t))])"

definition write_api_server :: "ApiServerDecl \<Rightarrow> writer" where
  "write_api_server d = write_block (''api_server '' @ as_name d) (write_all
     [write_each (\<lambda>t. write_line (''serves '' @ t)) (as_serves d),
      write_given (as_concurrency d) (\<lambda>n. write_line (''concurrency '' @ show_int n))])"

section \<open>Workflows\<close>

definition write_workflow_child_set :: "WorkflowChildSetDecl \<Rightarrow> writer" where
  "write_workflow_child_set d = write_block (''child_set '' @ cs_name d) (write_all
     [write_given (cs_entity d) (\<lambda>t. write_line (''entity '' @ t)),
      write_given (cs_parent_field d) (\<lambda>t. write_line (''parent_field '' @ t)),
      write_given (cs_id_type d) (\<lambda>t. write_line (''id_type '' @ t)),
      write_given (cs_pending d) (\<lambda>t. write_line (''pending '' @ t)),
      write_given (cs_creating d) (\<lambda>t. write_line (''creating '' @ t)),
      write_given (cs_succeeded d) (\<lambda>t. write_line (''succeeded '' @ t)),
      write_given (cs_failed d) (\<lambda>t. write_line (''failed '' @ t)),
      write_given (cs_desired_count d) (\<lambda>t. write_line (''desired_count '' @ normalized_expression t))])"

definition write_workflow_child_workflow :: "WorkflowChildWorkflowDecl \<Rightarrow> writer" where
  "write_workflow_child_workflow d = write_block (''child_workflow '' @ cw_name d) (write_all
     [write_given (cw_child_entity d) (\<lambda>t. write_line (''child_entity '' @ t)),
      write_given (cw_child_workflow d) (\<lambda>t. write_line (''child_workflow '' @ t)),
      write_given (cw_child_id_field d) (\<lambda>f. write_given (cw_child_id_type d) (\<lambda>t.
        write_line (''child_id '' @ f @ '' '' @ t))),
      write_given (cw_parent_ref_field d) (\<lambda>f. write_given (cw_parent_ref_expression d) (\<lambda>e.
        write_line (''parent_ref '' @ f @ '' = '' @ normalized_expression e))),
      write_given (cw_desired_count d) (\<lambda>t. write_line (''desired_count '' @ normalized_expression t)),
      write_if (cw_create_assignments d \<noteq> []) (write_block ''create''
        (write_each (\<lambda>a. write_line (wa_name a @ '': '' @ normalized_expression (wa_expression a))) (cw_create_assignments d))),
      write_given (cw_success_expression d) (\<lambda>e. write_line (''success when '' @ normalized_expression e)),
      write_given (cw_failure_expression d) (\<lambda>e. write_line (''failure when '' @ normalized_expression e))])"

definition write_workflow_payload :: "WorkflowAssignmentDecl list \<Rightarrow> writer" where
  "write_workflow_payload = write_each (\<lambda>a. write_line (wa_name a @ '' = '' @ normalized_expression (wa_expression a) @ '';''))"

definition write_with_payload :: "string \<Rightarrow> WorkflowAssignmentDecl list \<Rightarrow> writer" where
  "write_with_payload header payload =
     (if payload = [] then write_line (header @ '';'') else write_block header (write_workflow_payload payload))"

text \<open>A statement that lacks a member which its kind needs is not written.\<close>

fun write_workflow_statement :: "WorkflowStatementDecl \<Rightarrow> writer"
  and write_workflow_statements :: "WorkflowStatementDecl list \<Rightarrow> writer" where
  "write_workflow_statement (WorkflowStatementDecl kind target expression assignable from_assignable to_assignable
       binding payload statements r) =
     (if kind = ''require'' \<and> expression \<noteq> None
      then write_line (''require '' @ normalized_expression (the expression) @ '';'')
      else if kind = ''set'' \<and> assignable \<noteq> None \<and> expression \<noteq> None
      then write_line (''set '' @ normalized_expression (the assignable) @ '' = '' @ normalized_expression (the expression) @ '';'')
      else if (kind = ''emit'' \<or> kind = ''enqueue'') \<and> target \<noteq> None
      then write_with_payload (kind @ '' '' @ the target) payload
      else if kind = ''acquire_lease'' \<and> target \<noteq> None
      then write_line (''acquire lease '' @ the target @ (case binding of None \<Rightarrow> [] | Some b \<Rightarrow> '' as '' @ b) @ '';'')
      else if kind = ''renew_lease'' \<and> target \<noteq> None then write_line (''renew lease '' @ the target @ '';'')
      else if kind = ''release_lease'' \<and> target \<noteq> None then write_line (''release lease '' @ the target @ '';'')
      else if kind = ''start_workflow'' \<and> target \<noteq> None then write_with_payload (''start workflow '' @ the target) payload
      else if kind = ''transition_to'' \<and> target \<noteq> None then write_line (''transition_to '' @ the target @ '';'')
      else if kind = ''complete'' then write_line ''complete;''
      else if kind = ''fail''
      then write_line (case expression of Some e \<Rightarrow> ''fail '' @ normalized_expression e @ '';'' | None \<Rightarrow> ''fail;'')
      else if kind = ''atomic'' then write_block ''atomic'' (write_workflow_statements statements)
      else if kind = ''for_each'' \<and> binding \<noteq> None \<and> expression \<noteq> None
      then write_block (''for_each '' @ the binding @ '' in '' @ normalized_expression (the expression))
        (write_workflow_statements statements)
      else if kind = ''when'' \<and> expression \<noteq> None
      then write_block (''when '' @ normalized_expression (the expression)) (write_workflow_statements statements)
      else if kind = ''create_child'' \<and> target \<noteq> None
      then write_block (''create child '' @ the target) (write_workflow_payload payload)
      else if kind = ''observe_child'' \<and> target \<noteq> None \<and> binding \<noteq> None \<and> expression \<noteq> None
      then write_line (''observe child '' @ the target @ '' by '' @ the binding @ '' = '' @
        normalized_expression (the expression) @ '';'')
      else if kind = ''move'' \<and> expression \<noteq> None \<and> from_assignable \<noteq> None \<and> to_assignable \<noteq> None
      then write_line (''move '' @ normalized_expression (the expression) @ '' from '' @
        normalized_expression (the from_assignable) @ '' to '' @ normalized_expression (the to_assignable) @ '';'')
      else if kind = ''reserve_child_set'' \<and> target \<noteq> None then write_line (''reserve child_set '' @ the target @ '';'')
      else if kind = ''materialize_child_set'' \<and> target \<noteq> None
      then write_line (''materialize child_set '' @ the target @ '';'')
      else if kind = ''reconcile_child_set'' \<and> target \<noteq> None then write_line (''reconcile child_set '' @ the target @ '';'')
      else (\<lambda>w. w))"
| "write_workflow_statements [] = (\<lambda>w. w)"
| "write_workflow_statements (s # ss) = (\<lambda>w. write_workflow_statements ss (write_workflow_statement s w))"

definition write_workflow_step :: "WorkflowStepDecl \<Rightarrow> writer" where
  "write_workflow_step d = write_block (''step '' @ wp_name d) (write_all
     [write_given (wp_expected_execution_time d) (\<lambda>t. write_line (''expected_execution_time '' @ t)),
      write_given (wp_max_retries d) (\<lambda>n. write_line (''max_retries '' @ show_int n)),
      write_workflow_statements (wp_statements d)])"

definition write_workflow :: "WorkflowDecl \<Rightarrow> writer" where
  "write_workflow d = write_block (''workflow '' @ wf_name d) (write_all
     [write_given (wf_version d) (\<lambda>n. write_line (''version '' @ show_int n)),
      write_given (wf_singleton d) (\<lambda>b. write_line (''singleton '' @ bool_text b)),
      write_given (wf_expected_execution_time d) (\<lambda>t. write_line (''expected_execution_time '' @ t)),
      write_given (wf_start_step d) (\<lambda>t. write_line (''start '' @ t)),
      write_given (wf_on d) (\<lambda>t. write_line (''on '' @ t)),
      write_given (wf_input d) (\<lambda>t. write_line (''input '' @ t)),
      write_given (wf_state d) (\<lambda>t. write_line (''state '' @ t)),
      write_each (\<lambda>l. write_line (''load '' @ wl_entity l @ '' by '' @ wl_key_field l @ '' as '' @ wl_binding l)) (wf_loads d),
      write_each write_workflow_child_set (wf_child_sets d),
      write_each write_workflow_child_workflow (wf_child_workflows d),
      write_each write_workflow_step (wf_steps d)])"

section \<open>Policies, the system and the file\<close>

definition write_policy :: "PolicyDecl \<Rightarrow> writer" where
  "write_policy d = write_block (''policy '' @ po_name d) (write_all
     [write_given (po_tenant_scoped_by d) (\<lambda>t. write_line (''tenant scoped_by '' @ t)),
      write_each (\<lambda>r. write_line (''allow '' @ pr_action r @ '' when '' @ normalized_expression (pr_condition r) @ '';'')) (po_allows d),
      write_each (\<lambda>r. write_line (''deny '' @ pr_action r @ '' when '' @ normalized_expression (pr_condition r) @ '';'')) (po_denies d),
      write_each (\<lambda>q. write_line (''quota '' @ qt_name q @ '': '' @ normalized_expression (qt_expression q) @ '';'')) (po_quotas d),
      write_each (\<lambda>a. write_line (''audit '' @ a @ '';'')) (po_audits d)])"

text \<open>The first component of the state is the flag \<open>wrote\<close>; the declarations of a system are separated by an
  empty line.\<close>

definition section_of :: "writer \<Rightarrow> bool \<times> ast_formatter \<Rightarrow> bool \<times> ast_formatter" where
  "section_of f = (\<lambda>(wrote, w). (True, f (if wrote then write_blank w else w)))"

definition sections :: "('a \<Rightarrow> writer) \<Rightarrow> 'a list \<Rightarrow> bool \<times> ast_formatter \<Rightarrow> bool \<times> ast_formatter" where
  "sections f xs p = fold (\<lambda>x. section_of (f x)) xs p"

definition write_tenancy :: "SystemDecl \<Rightarrow> bool \<times> ast_formatter \<Rightarrow> bool \<times> ast_formatter" where
  "write_tenancy d p =
     (let p = (case sy_tenant_scope d of None \<Rightarrow> p
               | Some t \<Rightarrow> section_of (write_line (''tenant scoped_by '' @ ts_field_name t)) p)
      in case sy_system_tenant d of None \<Rightarrow> p
         | Some t \<Rightarrow>
             (let (wrote, w) = (if \<not> fst p then section_of (\<lambda>w. w) p else p)
              in (wrote, write_line ''system_tenant configured'' w)))"

definition write_system :: "SystemDecl \<Rightarrow> writer" where
  "write_system d = write_block (''system '' @ sy_name d) (\<lambda>w. snd (fold (\<lambda>f. f)
     [write_tenancy d,
      sections write_feature_flag (sy_feature_flags d), sections write_log (sy_logs d),
      sections write_metric (sy_metrics d), sections write_value (sy_values d),
      sections write_enum (sy_enums d), sections write_event (sy_events d),
      sections write_external_system (sy_external_systems d), sections write_shape (sy_shapes d),
      sections write_entity (sy_entities d), sections write_queue (sy_queues d),
      sections write_lease (sy_leases d), sections write_worker (sy_workers d),
      sections write_api (sy_apis d), sections write_api_server (sy_api_servers d),
      sections write_workflow (sy_workflows d), sections write_policy (sy_policies d)] (False, w)))"

definition format_ast :: "Spec \<Rightarrow> string" where
  "format_ast d = end_with_newline (af_out (write_all
     [write_given (sp_version d) (\<lambda>v. write_line (''statespec '' @ v @ '';'')),
      write_each (\<lambda>i. write_line (''include '' @ quoted_text (in_path i) @ '';'')) (sp_includes d),
      write_given (sp_system d) write_system] new_ast_formatter))"

definition format_spec_ast :: "Spec \<Rightarrow> diagnostic_bag \<Rightarrow> string" where
  "format_spec_ast d ds = (if has_errors ds then [] else format_ast d)"

end
