(* ===== verification/Formatter_Words.thy ===== *)
theory Formatter_Words
  imports Formatter_Ast
begin

text \<open>
  The words that a writer of \<open>Formatter_Ast\<close> puts out, which are the lexemes of its text. A line is a list
  of segments: words, texts that the lexer takes apart by itself, and single characters.
\<close>

section \<open>Texts with a definite end\<close>

text \<open>The characters that end every lexeme before them.\<close>

definition ends_lexeme :: "char \<Rightarrow> bool" where
  "ends_lexeme c \<longleftrightarrow> is_blank c \<or> c \<in> set ''{}()[],:;?''"

abbreviation ender :: "string \<Rightarrow> bool" where
  "ender r \<equiv> r = [] \<or> ends_lexeme (hd r)"

text \<open>A text without a fault and a comment.\<close>

fun solid_item :: "item \<Rightarrow> bool" where
  "solid_item (Blank w) \<longleftrightarrow> True"
| "solid_item (Comment w f) \<longleftrightarrow> False"
| "solid_item (Lexeme k w f) \<longleftrightarrow> f = None"

definition solid :: "string \<Rightarrow> bool" where
  "solid t \<longleftrightarrow> list_all solid_item (items t)"

lemma alone_code [code]:
  "alone k w \<longleftrightarrow> (case w of [] \<Rightarrow> False | c # u \<Rightarrow> \<not> is_blank c \<and> first_item c (u @ '' '') = Lexeme k w None)"
  by (cases w) (auto simp: alone_def)

lemma ends_lexeme_not:
  assumes "ends_lexeme c"
  shows "\<not> is_digit c \<and> \<not> is_identifier_part c \<and> c \<notin> {CHR ''='', CHR ''>'', CHR ''/'', CHR ''*'', CHR ''.''}"
proof (cases "is_blank c")
  case True
  then show ?thesis using blank_not by blast
next
  case False
  have "list_all (\<lambda>c. \<not> is_digit c \<and> \<not> is_identifier_part c \<and> c \<notin> {CHR ''='', CHR ''>'', CHR ''/'', CHR ''*'', CHR ''.''}) ''{}()[],:;?''"
    by code_simp
  then show ?thesis
    using assms False unfolding ends_lexeme_def list_all_iff by blast
qed

lemma ender_stops: "ender r \<Longrightarrow> stops k r"
  using ends_lexeme_not [of "hd r"] by (auto simp: stops_def split: token_kind.split)

lemma ender_follow: "ender r \<Longrightarrow> follow ks r"
  using ender_stops ends_lexeme_not [of "hd r"] by (cases ks) auto

lemma stops_extend: "stops k v \<Longrightarrow> ender r \<Longrightarrow> stops k (v @ r)"
proof (cases v)
  case Nil
  then show "ender r \<Longrightarrow> stops k (v @ r)" by (simp add: ender_stops)
next
  case (Cons x v')
  assume s: "stops k v" and r: "ender r"
  show ?thesis
  proof (cases v')
    case Nil
    then show ?thesis
      using s Cons r ends_lexeme_not [of "hd r"] by (auto simp: stops_def split: token_kind.splits)
  next
    case (Cons y v'')
    then show ?thesis
      using s \<open>v = x # v'\<close> by (simp add: stops_def split: token_kind.splits)
  qed
qed

text \<open>What stands behind a lexeme ends it.\<close>

lemma munch_number_stopped:
  assumes "munch_number t = (k, w)"
  shows "stops k (drop (length w) t)"
proof -
  let ?a = "takeWhile is_digit t"
  have t: "t = ?a @ dropWhile is_digit t" by simp
  show ?thesis
  proof (cases "k = TK_DecimalLiteral")
    case True
    then obtain p d q where pq: "dropWhile is_digit t = p # d # q" "w = ?a @ p # takeWhile is_digit (d # q)"
      using assms by (auto simp: munch_number_def Let_def split: list.splits if_splits)
    have "t = w @ dropWhile is_digit (d # q)"
      using t pq by (metis append_Cons append_assoc takeWhile_dropWhile_id)
    then have "drop (length w) t = dropWhile is_digit (d # q)"
      by (metis append_eq_conv_conj)
    moreover have "dropWhile is_digit (d # q) = [] \<or> \<not> is_digit (hd (dropWhile is_digit (d # q)))"
      using hd_dropWhile by blast
    ultimately show ?thesis
      by (simp only: True) (simp add: stops_def)
  next
    case False
    then have k: "k = TK_IntegerLiteral" "w = ?a"
      using assms by (auto simp: munch_number_def Let_def split: list.splits if_splits)
    have dot: "\<not> (\<exists>d q. dropWhile is_digit t = CHR ''.'' # d # q \<and> is_digit d)"
    proof
      assume "\<exists>d q. dropWhile is_digit t = CHR ''.'' # d # q \<and> is_digit d"
      then have "fst (munch_number t) = TK_DecimalLiteral"
        by (elim exE conjE) (simp add: munch_number_def Let_def)
      then show False using assms False by simp
    qed
    have "drop (length w) t = dropWhile is_digit t"
      unfolding k(2) by (simp add: dropWhile_eq_drop)
    moreover have "dropWhile is_digit t = [] \<or> \<not> is_digit (hd (dropWhile is_digit t))"
      using hd_dropWhile by blast
    moreover have "\<not> (hd (dropWhile is_digit t) = CHR ''.'' \<and> tl (dropWhile is_digit t) \<noteq> [] \<and> is_digit (hd (tl (dropWhile is_digit t))))"
      if "dropWhile is_digit t \<noteq> []"
      using dot that by (metis list.collapse)
    ultimately show ?thesis
      using k(1) by (simp add: stops_def) blast
  qed
qed

lemma first_item_stopped:
  assumes f: "first_item c cs = Lexeme k (c # u) None"
  shows "stops k (drop (length u) cs)"
proof -
  have m: "munch c cs = Lexeme k (c # u) None"
    using munch_not_blank(1) [OF f] .
  have slash: "c = CHR ''/'' \<Longrightarrow> \<not> (cs \<noteq> [] \<and> (hd cs = CHR ''/'' \<or> hd cs = CHR ''*''))"
    using f by (auto simp: first_item_def split: if_splits prod.splits)
  let ?heads = "[CHR ''='', CHR ''!'', CHR ''<'', CHR ''>'', CHR ''&'', CHR ''|'']"
  consider (single) k' where "map_of single_tokens c = Some k'"
    | (negative) "map_of single_tokens c = None" "c = CHR ''-''" "cs \<noteq> [] \<and> is_digit (hd cs)"
    | (minus) "c = CHR ''-''" "\<not> (cs \<noteq> [] \<and> is_digit (hd cs))"
    | (head) "c \<in> set ?heads"
    | (quote) "map_of single_tokens c = None" "c = CHR 0x22"
    | (number) "map_of single_tokens c = None" "c \<noteq> CHR 0x22" "c \<notin> set (CHR ''-'' # ?heads)" "is_digit c"
    | (word) "map_of single_tokens c = None" "c \<noteq> CHR 0x22" "c \<notin> set (CHR ''-'' # ?heads)" "\<not> is_digit c"
    by fastforce
  then show ?thesis
  proof cases
    case single
    then have "(c, k) \<in> set single_tokens" "u = []"
      using m by (auto simp: munch_def dest: map_of_SomeD)
    then show ?thesis
      using slash by (auto simp: single_tokens_def stops_def)
  next
    case negative
    then have "munch_number cs = (k, u)"
      using m by (auto simp: munch_def split: prod.splits)
    then show ?thesis using munch_number_stopped by blast
  next
    case minus
    then show ?thesis
      using m unfolding munch_heads(1) [OF minus(2)] minus(1)
      by (cases cs) (auto simp: munch_either_def stops_def split: if_splits)
  next
    case head
    then show ?thesis
      using m by (simp, elim disjE; cases cs; simp add: munch_heads munch_either_def munch_pair_def stops_def split: if_splits)
  next
    case quote
    then show ?thesis
      using m by (auto simp: munch_def stops_def split: prod.splits if_splits)
  next
    case number
    then have "munch_number (c # cs) = (k, c # u)"
      using m by (auto simp: munch_def split: prod.splits)
    then show ?thesis using munch_number_stopped by fastforce
  next
    case word
    then have w: "u = takeWhile is_identifier_part cs" "k = word_kind (c # u)"
      using m by (auto simp: munch_def Let_def split: if_splits)
    have "drop (length u) cs = [] \<or> \<not> is_identifier_part (hd (drop (length u) cs))"
      unfolding w(1) dropWhile_eq_drop [symmetric] using hd_dropWhile by blast
    then show ?thesis
      using word_kind_cases [of "c # u"] unfolding w(2) by (auto simp: stops_def)
  qed
qed

lemma first_item_extend:
  assumes f: "first_item c cs = Lexeme k w None" and r: "ender r"
  shows "first_item c (cs @ r) = Lexeme k w None"
proof -
  obtain u where u: "w = c # u" "first_item c (u @ '' '') = Lexeme k w None"
    using first_item_local [OF f, of "[]"] by auto
  have "take (length w) (c # cs) = w"
    using first_item_prefix [of c cs] f by simp
  then have cs: "cs = u @ drop (length u) cs"
    using u(1) by (metis append_take_drop_id length_Cons list.inject take_Suc_Cons)
  have "alone k w"
    using u f by (auto simp: alone_def dest: munch_not_blank(2))
  moreover have "stops k (drop (length u) cs @ r)"
    using first_item_stopped f u(1) stops_extend [OF _ r] by blast
  ultimately have "items (w @ drop (length u) cs @ r) = Lexeme k w None # items (drop (length u) cs @ r)"
    by (rule alone_item)
  then have "items (c # cs @ r) = Lexeme k w None # items (drop (length u) cs @ r)"
    using cs u(1) by (metis append_Cons append_assoc)
  then show ?thesis by simp
qed

lemma solid_Cons:
  "solid (c # cs) \<longleftrightarrow> solid_item (first_item c cs) \<and> solid (drop (length (item_text (first_item c cs)) - 1) cs)"
  by (simp add: solid_def)

lemma drop_extend:
  assumes "first_item c cs = Lexeme k w None"
  shows "drop (length w - 1) (cs @ r) = drop (length w - 1) cs @ r"
proof -
  have "take (length w) (c # cs) = w"
    using first_item_prefix [of c cs] assms by simp
  then have "length w \<le> Suc (length cs)"
    by (metis length_Cons length_take min.cobounded1)
  then show ?thesis by simp
qed

text \<open>A solid text gives its lexemes whatever comes behind such an end.\<close>

lemma solid_lexes: "solid t \<Longrightarrow> lexes_as t (lexemes (items t)) ender"
  unfolding lexes_as_def
proof (intro allI impI)
  fix r :: string assume "solid t" and r: "ender r"
  then show "lexemes (items (t @ r)) = lexemes (items t) @ lexemes (items r) \<and> (faultless (items (t @ r)) \<longleftrightarrow> faultless (items r))"
  proof (induction t rule: items.induct)
    case (2 c cs)
    show ?case
    proof (cases "first_item c cs")
      case (Lexeme k w f)
      then have f: "first_item c cs = Lexeme k w None"
        using 2(2) by (auto simp: solid_Cons)
      have "items ((c # cs) @ r) = Lexeme k w None # items (drop (length w - 1) cs @ r)"
        using first_item_extend [OF f r] drop_extend [OF f] by simp
      moreover have "items (c # cs) = Lexeme k w None # items (drop (length w - 1) cs)"
        using f by simp
      moreover have "lexemes (items (drop (length w - 1) cs @ r)) = lexemes (items (drop (length w - 1) cs)) @ lexemes (items r) \<and>
          (faultless (items (drop (length w - 1) cs @ r)) \<longleftrightarrow> faultless (items r))"
        using 2 f by (simp add: solid_Cons)
      ultimately show ?thesis
        by (simp only: lexemes.simps append.simps) simp
    next
      case (Comment w f)
      then show ?thesis using 2(2) by (simp add: solid_Cons)
    next
      case (Blank w)
      then have b: "is_blank c" "w = c # takeWhile is_blank cs"
        by (auto simp: first_item_def munch_def munch_either_def munch_pair_def Let_def split: if_splits prod.splits option.splits list.splits)
      then have d: "drop (length w - 1) cs = dropWhile is_blank cs"
        by (simp add: dropWhile_eq_drop)
      have A: "lexemes (items (dropWhile is_blank cs @ r)) = lexemes (items (dropWhile is_blank cs)) @ lexemes (items r) \<and>
          (faultless (items (dropWhile is_blank cs @ r)) \<longleftrightarrow> faultless (items r))"
        using 2 Blank d by (simp add: solid_Cons)
      have X: "set (takeWhile is_blank cs) \<subseteq> Collect is_blank"
        using set_takeWhileD by fastforce
      have B: "lexemes (items ((c # takeWhile is_blank cs) @ dropWhile is_blank cs @ r)) = lexemes (items (dropWhile is_blank cs @ r)) \<and>
          (faultless (items ((c # takeWhile is_blank cs) @ dropWhile is_blank cs @ r)) \<longleftrightarrow> faultless (items (dropWhile is_blank cs @ r)))"
        using b(1) X by (intro items_blanks) auto
      have D: "lexemes (items (c # cs)) = lexemes (items (dropWhile is_blank cs))"
        using Blank d by simp
      have E: "(c # cs) @ r = (c # takeWhile is_blank cs) @ dropWhile is_blank cs @ r"
        by (metis append_Cons append_assoc takeWhile_dropWhile_id)
      show ?thesis
        unfolding E D using A B by (simp only: refl simp_thms)
    qed
  qed simp
qed

lemma alone_solid:
  assumes "alone k w"
  shows "solid w" "lexemes (items w) = [(k, w)]"
proof -
  have "items w = [Lexeme k w None]"
    using alone_item [OF assms, of "[]"] by (simp add: stops_def)
  then show "solid w" "lexemes (items w) = [(k, w)]"
    by (simp_all add: solid_def)
qed

section \<open>Lines\<close>

datatype seg = Wd token_kind string | Tx string | Pt char | Bl

fun spell :: "seg list \<Rightarrow> string" where
  "spell [] = []"
| "spell (Wd k w # ss) = w @ spell ss"
| "spell (Tx t # ss) = t @ spell ss"
| "spell (Pt c # ss) = c # spell ss"
| "spell (Bl # ss) = CHR '' '' # spell ss"

definition point_kind :: "char \<Rightarrow> token_kind" where
  "point_kind c = (case map_of single_tokens c of Some k \<Rightarrow> k | None \<Rightarrow> TK_Unknown)"

fun seg_words :: "seg list \<Rightarrow> (token_kind \<times> string) list" where
  "seg_words [] = []"
| "seg_words (Wd k w # ss) = (k, w) # seg_words ss"
| "seg_words (Tx t # ss) = lexemes (items t) @ seg_words ss"
| "seg_words (Pt c # ss) = (point_kind c, [c]) # seg_words ss"
| "seg_words (Bl # ss) = seg_words ss"

text \<open>The flag says that the last segment needs an end.\<close>

fun segs_ok :: "bool \<Rightarrow> seg list \<Rightarrow> bool" where
  "segs_ok p [] \<longleftrightarrow> True"
| "segs_ok p (Wd k w # ss) \<longleftrightarrow> \<not> p \<and> alone k w \<and> segs_ok True ss"
| "segs_ok p (Tx t # ss) \<longleftrightarrow> \<not> p \<and> solid t \<and> segs_ok True ss"
| "segs_ok p (Pt c # ss) \<longleftrightarrow> c \<in> set ''{}()[],:;?'' \<and> segs_ok False ss"
| "segs_ok p (Bl # ss) \<longleftrightarrow> segs_ok False ss"

definition lexes_open :: "bool \<Rightarrow> string \<Rightarrow> (token_kind \<times> string) list \<Rightarrow> bool" where
  "lexes_open p t ws \<longleftrightarrow> lexes_as t ws (if p then ender else (\<lambda>_. True))"

lemma lexes_append:
  assumes "lexes_as t ws P" and "lexes_as u vs Q" and "\<And>r. Q r \<Longrightarrow> P (u @ r)"
  shows "lexes_as (t @ u) (ws @ vs) Q"
  using assms by (simp add: lexes_as_def)

lemma point_item:
  assumes "c \<in> set ''{}()[],:;?''"
  shows "items (c # r) = Lexeme (point_kind c) [c] None # items r"
proof -
  have "list_all (\<lambda>c. \<not> is_blank c \<and> c \<noteq> CHR ''/'' \<and> map_of single_tokens c \<noteq> None) ''{}()[],:;?''"
    by code_simp
  then obtain k where "\<not> is_blank c" "c \<noteq> CHR ''/''" "map_of single_tokens c = Some k"
    using assms unfolding list_all_iff by blast
  then show ?thesis
    by (simp add: first_item_def munch_def point_kind_def)
qed

lemma lexes_seg:
  "lexes_as t ws (if p then ender else (\<lambda>_. True)) \<Longrightarrow> segs_ok p ss \<Longrightarrow> lexes_as (t @ spell ss) (ws @ seg_words ss) ender"
proof (induction ss arbitrary: t ws p)
  case Nil
  then show ?case
    by (auto simp: lexes_as_def)
next
  case (Cons s ss)
  have step: "lexes_as (t @ v) (ws @ vs) (if q then ender else (\<lambda>_. True)) \<Longrightarrow> segs_ok q ss \<Longrightarrow>
      lexes_as (t @ v @ spell ss) (ws @ vs @ seg_words ss) ender" for v vs q
    using Cons.IH [of "t @ v" "ws @ vs" q] by simp
  show ?case
  proof (cases s)
    case (Wd k w)
    then have "lexes_as t ws (\<lambda>_. True)" "solid w" "lexemes (items w) = [(k, w)]" "segs_ok True ss"
      using Cons.prems alone_solid by auto
    then show ?thesis
      using step [of w "[(k, w)]" True] lexes_append [of t ws "\<lambda>_. True" w] solid_lexes [of w] Wd by simp
  next
    case (Tx u)
    then have "lexes_as t ws (\<lambda>_. True)" "solid u" "segs_ok True ss"
      using Cons.prems by auto
    then show ?thesis
      using step [of u "lexemes (items u)" True] lexes_append [of t ws "\<lambda>_. True" u] solid_lexes [of u] Tx by simp
  next
    case (Pt c)
    then have c: "c \<in> set ''{}()[],:;?''" "segs_ok False ss"
      using Cons.prems by auto
    have "lexes_as [c] [(point_kind c, [c])] (\<lambda>_. True)"
      using point_item [OF c(1)] by (simp add: lexes_as_def)
    moreover have "(if p then ender else (\<lambda>_. True)) ([c] @ r)" for r
      using c(1) by (simp add: ends_lexeme_def)
    ultimately have "lexes_as (t @ [c]) (ws @ [(point_kind c, [c])]) (\<lambda>_. True)"
      using lexes_append [OF Cons.prems(1)] by blast
    then show ?thesis
      using step [of "[c]" "[(point_kind c, [c])]" False] c(2) Pt by simp
  next
    case Bl
    have "lexes_as '' '' [] (\<lambda>_. True)"
      using items_blanks [of "'' ''"] by (simp add: lexes_as_def is_blank_def)
    moreover have "(if p then ender else (\<lambda>_. True)) ('' '' @ r)" for r
      by (simp add: ends_lexeme_def is_blank_def)
    ultimately have "lexes_as (t @ '' '') (ws @ []) (\<lambda>_. True)"
      using lexes_append [OF Cons.prems(1)] by blast
    then show ?thesis
      using step [of "'' ''" "[]" False] Cons.prems(2) Bl by simp
  qed
qed

lemma lexes_segs: "segs_ok False ss \<Longrightarrow> lexes_as (spell ss) (seg_words ss) ender"
  using lexes_seg [of "[]" "[]" False ss] by (simp add: lexes_as_def)

section \<open>Writers\<close>

text \<open>A writer keeps the indentation and puts out a text that gives these words, whatever follows.\<close>

definition prints :: "writer \<Rightarrow> (token_kind \<times> string) list \<Rightarrow> bool" where
  "prints f ws \<longleftrightarrow> (\<forall>w. af_indent (f w) = af_indent w \<and>
     (\<exists>t. af_out (f w) = af_out w @ t \<and> lexes_as t ws (\<lambda>_. True)))"

named_theorems prints_rules

lemma lexes_nothing: "set b \<subseteq> Collect is_blank \<Longrightarrow> lexes_as b [] (\<lambda>_. True)"
  using items_blanks [of b] by (simp add: lexes_as_def)

lemma lexes_line: "segs_ok False ss \<Longrightarrow> lexes_as (indentation n @ spell ss @ [CHR 0x0A]) (seg_words ss) (\<lambda>_. True)"
proof -
  assume "segs_ok False ss"
  then have "lexes_as (spell ss @ [CHR 0x0A]) (seg_words ss @ []) (\<lambda>_. True)"
    by (intro lexes_append [OF lexes_segs lexes_nothing]) (simp_all add: is_blank_def ends_lexeme_def)
  then have "lexes_as (indentation n @ (spell ss @ [CHR 0x0A])) ([] @ seg_words ss) (\<lambda>_. True)"
    using lexes_append [OF lexes_nothing [OF indentation_blank [of n]]] by simp
  then show ?thesis by simp
qed

lemma prints_line:
  assumes "t = spell ss" and "segs_ok False ss" and "ws = seg_words ss"
  shows "prints (write_line t) ws"
  using lexes_line [OF assms(2)] assms(1,3) by (auto simp: prints_def write_line_def)

lemma prints_comp: "prints f ws \<Longrightarrow> prints g vs \<Longrightarrow> prints (\<lambda>w. g (f w)) (ws @ vs)"
  unfolding prints_def
proof (intro allI conjI)
  fix w assume f: "\<forall>w. af_indent (f w) = af_indent w \<and> (\<exists>t. af_out (f w) = af_out w @ t \<and> lexes_as t ws (\<lambda>_. True))"
    and g: "\<forall>w. af_indent (g w) = af_indent w \<and> (\<exists>t. af_out (g w) = af_out w @ t \<and> lexes_as t vs (\<lambda>_. True))"
  show "af_indent (g (f w)) = af_indent w"
    using f g by simp
  obtain t u where tu: "af_out (f w) = af_out w @ t" "lexes_as t ws (\<lambda>_. True)"
      "af_out (g (f w)) = af_out (f w) @ u" "lexes_as u vs (\<lambda>_. True)"
    using f g by metis
  then show "\<exists>t. af_out (g (f w)) = af_out w @ t \<and> lexes_as t (ws @ vs) (\<lambda>_. True)"
    using lexes_append [OF tu(2,4)] by (intro exI [of _ "t @ u"]) simp
qed

lemma prints_id [prints_rules]: "prints (\<lambda>w. w) []"
  by (auto simp: prints_def lexes_as_def)

lemma prints_all: "list_all2 prints fs wss \<Longrightarrow> prints (write_all fs) (concat wss)"
proof (induction fs wss rule: list_all2_induct)
  case Nil
  then show ?case using prints_id by (simp add: write_all_def)
next
  case (Cons f fs ws wss)
  have "write_all (f # fs) = (\<lambda>w. write_all fs (f w))"
    by (simp add: write_all_def fun_eq_iff)
  then show ?case
    using prints_comp [OF Cons(1,3)] by simp
qed

lemma prints_each:
  assumes "\<And>x. x \<in> set xs \<Longrightarrow> prints (f x) (ws x)"
  shows "prints (write_each f xs) (concat (map ws xs))"
proof -
  have "write_each f xs = write_all (map f xs)"
    by (simp add: write_each_def write_all_def fun_eq_iff fold_map comp_def)
  moreover have "list_all2 prints (map f xs) (map ws xs)"
    using assms by (simp add: list_all2_conv_all_nth)
  ultimately show ?thesis
    using prints_all by metis
qed

lemma prints_given:
  assumes "\<And>y. x = Some y \<Longrightarrow> prints (f y) (ws y)"
  shows "prints (write_given x f) (case x of None \<Rightarrow> [] | Some y \<Rightarrow> ws y)"
proof (cases x)
  case None
  then show ?thesis using prints_id by (simp add: prints_def write_given_def)
next
  case (Some y)
  then show ?thesis using assms [OF Some] by (simp add: prints_def write_given_def)
qed

lemma prints_if: "(b \<Longrightarrow> prints f ws) \<Longrightarrow> prints (write_if b f) (if b then ws else [])"
  using prints_id by (cases b) (simp_all add: prints_def write_if_def)

lemma prints_block:
  assumes header: "t = spell ss" "segs_ok False ss" and body: "prints f ws"
    and "vs = seg_words ss @ (TK_LeftBrace, ''{'') # ws @ [(TK_RightBrace, ''}'')]"
  shows "prints (write_block t f) vs"
proof -
  have open': "prints (write_line (t @ '' {'')) (seg_words ss @ [(TK_LeftBrace, ''{'')])"
  proof (rule prints_line)
    show "t @ '' {'' = spell (ss @ [Bl, Pt CHR ''{''])"
      unfolding header(1) by (induction ss rule: spell.induct) simp_all
    have "segs_ok b ss \<Longrightarrow> segs_ok b (ss @ [Bl, Pt CHR ''{''])" for b
      by (induction b ss rule: segs_ok.induct) simp_all
    then show "segs_ok False (ss @ [Bl, Pt CHR ''{''])"
      using header(2) by blast
    show "seg_words ss @ [(TK_LeftBrace, ''{'')] = seg_words (ss @ [Bl, Pt CHR ''{''])"
      by (induction ss rule: seg_words.induct) (simp_all add: point_kind_def single_tokens_def)
  qed
  have close: "prints (write_line ''}'') [(TK_RightBrace, ''}'')]"
    by (rule prints_line [of _ "[Pt CHR ''}'']"]) (simp_all add: point_kind_def single_tokens_def)
  have "write_block t f = (\<lambda>w. write_line ''}'' ((\<lambda>w. let w = f (w\<lparr>af_indent := af_indent w + 1\<rparr>) in
      w\<lparr>af_indent := af_indent w - 1\<rparr>) (write_line (t @ '' {'') w)))"
    by (simp add: write_block_def fun_eq_iff Let_def)
  moreover have "prints (\<lambda>w. let w = f (w\<lparr>af_indent := af_indent w + 1\<rparr>) in w\<lparr>af_indent := af_indent w - 1\<rparr>) ws"
    unfolding prints_def
  proof
    fix w :: ast_formatter
    let ?w = "w\<lparr>af_indent := af_indent w + 1\<rparr>"
    have "af_indent (f ?w) = af_indent ?w" "\<exists>t. af_out (f ?w) = af_out ?w @ t \<and> lexes_as t ws (\<lambda>_. True)"
      using body unfolding prints_def by blast+
    then show "af_indent (let w = f ?w in w\<lparr>af_indent := af_indent w - 1\<rparr>) = af_indent w \<and>
        (\<exists>t. af_out (let w = f ?w in w\<lparr>af_indent := af_indent w - 1\<rparr>) = af_out w @ t \<and> lexes_as t ws (\<lambda>_. True))"
      by (simp add: Let_def)
  qed
  ultimately show ?thesis
    using prints_comp [OF prints_comp [OF open'] close, of _ ws] assms(4) by simp
qed

end
