(* ===== verification/Spec2Isabelle.thy ===== *)
theory Spec2Isabelle
  imports Json_Parser Lease_Store Queue_Props Workflow_Props Flag_Store Sinks Entity_Gc External_System
    Parser_Props Validator_Props Formatter_Words Parser_Reads
begin

text \<open>
  StateSpec is a compiler from a specification language to service code, together with the
  runtime library that the generated services run on. This development models the runtime
  library, the headers under \<open>bindings/cpp\<close>, and the front end of the compiler, and states what
  makes them correct.

  The runtime library. A service talks to an \<open>IBackend\<close>: it begins a transaction,
  gets, puts, erases and queries JSON documents in named collections, and commits. The stores
  (\<open>RuntimeLeaseStore\<close>, \<open>RuntimeQueueStore\<close> and the others) are written against that interface:
  each method has a form that works in the caller's transaction and one that begins and commits
  its own. They keep their records as JSON documents, through the codecs. \<open>InMemoryBackend\<close> is
  the backend the repository ships: optimistic concurrency control over version numbers, with
  secondary indexes.

  \<^item> \<open>Prelude\<close>: exceptions as values (\<open>exn\<close>), the result type and its combinators, and the
    actions that thread a state and may throw. \<open>Ordered_Map\<close>: \<open>std::map\<close> and \<open>std::set\<close> as
    ordered association lists, with the interface \<open>map_interface\<close>.
  \<^item> \<open>Decimal\<close>, \<open>Json\<close>, \<open>Json_Parser\<close>: \<open>json.hpp\<close>. Integers are 64-bit words; a double is its
    sign, mantissa and exponent, and \<open>strtod\<close>, \<open>from_chars\<close> and stream output are written out.
    The parser recurses with a bound that starts at twice the input's length plus two, which is
    proved never to be exhausted.
  \<^item> \<open>Backend\<close>: \<open>backend.hpp\<close>. The abstract classes are records of operations; what a store may
    rely on is the locales \<open>occ_transaction\<close> and \<open>occ_backend\<close>, stated over the documents a
    transaction sees. \<open>Schema\<close>: \<open>schema_compatibility.hpp\<close>.
  \<^item> \<open>Memory_Index\<close>, \<open>Memory_Tx\<close>: \<open>memory/transaction.hpp\<close> and \<open>memory/backend.hpp\<close>. The shared
    state and the transaction object are records; a method of the transaction is an action on
    the pair of both, since each method holds the mutex for its whole access to the state.
    \<open>Memory_Laws\<close> and \<open>Memory_Commit\<close> discharge the two locales for it; \<open>OCC\<close> is the step
    relation of many clients on one backend, with serializability; \<open>Memory_Props\<close> has the
    properties of commits, indexes, queries and registration.
  \<^item> \<open>Codec_Core\<close>, \<open>Codecs\<close>: the structs of the runtime and \<open>runtime/codec_*.hpp\<close>; each codec is
    an interpretation of the locale \<open>codec\<close>. Time points are 64-bit counts of nanoseconds;
    signed overflow, undefined in the code, is the error \<open>Undefined_Behaviour\<close>.
  \<^item> \<open>Store_Refinement\<close>: a store method on any backend that satisfies the locales behaves as the
    same method on a plain table of documents. \<open>Document_Table\<close>: a collection whose documents
    encode one record type, with the locale \<open>document_table\<close> that the queue and the workflow store
    interpret.
  \<^item> \<open>Lease_Store\<close>, \<open>Queue_Store\<close>, \<open>Workflow_Store\<close>, \<open>Flag_Store\<close>, \<open>Sinks\<close>:
    \<open>runtime/*_store.hpp\<close>, \<open>runtime/log_sink.hpp\<close> and \<open>runtime/metric_sink.hpp\<close>, one definition per
    method. \<open>Queue_Props\<close> and \<open>Workflow_Props\<close> have their life cycles: an abstract step relation
    of executions that every workflow command refines, and the invariants of any run of commands.
  \<^item> \<open>Entity_Gc\<close>: \<open>runtime/entity_gc_*.hpp\<close>; the worker is verified against the contract
    \<open>gc_contract\<close> of its repository, which the default repository keeps. \<open>External_System\<close>:
    the checks of \<open>external_system.hpp\<close>.

  The compiler. The lexer turns a source file into tokens, the parser tokens into the syntax
  tree, and the validator checks the tree; all append to one bag of diagnostics and never give up.

  \<^item> \<open>Ascii\<close>: the character classes, string helpers and identifier cases of \<open>src/string_utils.cpp\<close>
    and \<open>src/identifier_case.cpp\<close>. \<open>Source_Text\<close>: locations, ranges, diagnostics, tokens.
    \<open>Lexer\<close>: \<open>src/lexer.cpp\<close>, one definition per scanner method, with the reference
    decomposition it equals.
  \<^item> \<open>Ast\<close>: the records of \<open>include/statespec/ast_*.hpp\<close>, fields under a two-letter prefix.
    \<open>Parser_Core\<close>: the cursor of \<open>src/parser_context.cpp\<close> and the loops. A loop of the parser may
    not end, so that a parsing function has an option result, \<open>None\<close> when it never returns; a
    small calculus (\<open>moves\<close>, \<open>reaches\<close>) proves for each function that it returns, moves the cursor
    forward and only appends diagnostics, unless one of four keywords lies ahead.
    \<open>Parser_Common\<close>, \<open>Parser_Values\<close>, \<open>Parser_Entities\<close>, \<open>Parser_Runtime\<close>, \<open>Parser_Workflows\<close>,
    \<open>Parser_Top\<close>: the functions of the files \<open>src/parser_*.cpp\<close>, the body of a loop as a definition of
    its own. \<open>Parser_Props\<close>: what the whole parser does.
  \<^item> \<open>Validator_Core\<close>: the symbol table and the helpers of \<open>src/validator_helpers.hpp\<close>. A check is the
    list of the diagnostics it appends; \<open>clean_simps\<close> says for each when it reports no error.
    \<open>Validator_Expression\<close>: the expression check of \<open>src/validator_expression.cpp\<close>, again with option
    results. \<open>Validator_Declarations\<close>, \<open>Validator_External\<close>, \<open>Validator_Entities\<close>,
    \<open>Validator_Runtime\<close>, \<open>Validator_Workflows\<close>: the passes of the files \<open>src/validator_*.cpp\<close>, one
    definition per function and per loop body; \<open>Validator\<close> is their sequence. Where the code
    iterates over a hash set, the order is a parameter. \<open>Validator_Grammar\<close>: the expression
    grammar as an inductive definition, with the proof that the check returns and accepts exactly
    its expressions, so that \<open>None\<close> never occurs. \<open>Validator_Props\<close>: what an accepted
    specification looks like, declaratively, with a small one that is accepted.
  \<^item> \<open>Formatter_Tokens\<close>: \<open>format_tokens\<close> of \<open>src/formatter.cpp\<close>, one definition per branch of its
    loop, and what may stand behind a lexeme without changing it (\<open>stops\<close>, \<open>lexes_as\<close>): with the
    reference decomposition of the lexer it follows that the output has the tokens of the input.

  Bounds. Version counters and fencing tokens are \<open>uint64_t\<close> and wrap; the properties that need
  them not to say so with a bound on the number of commits or grants. The locale laws hold for
  collections whose names have no colon, as the version keys join name and key with one; all
  names of the runtime library have none.

  Not modelled. Of the compiler the lowering to the intermediate representation and the
  formatter that works on the syntax tree are not in this development. The code generators and the OpenAPI
  renderer produce text whose meaning lies in other languages, the command line driver is input
  and output around the compiler; the ports of the runtime library to Go, Java and Rust are other
  programs.
\<close>

end
